(* ===== verification/Prelude.thy ===== *)
theory Prelude
  imports Main "HOL-Library.Word" "HOL-Library.Monad_Syntax"
begin

text \<open>
  Shared vocabulary of the development.

  Go values: a \<open>string\<close> is a byte sequence, which is what Isabelle's \<open>string\<close> (a list of 8-bit
  characters) is; a \<open>[]byte\<close> is a list of 8-bit words; a \<open>rune\<close> and a Go \<open>int\<close> is an \<open>int\<close>, and
  a product of coordinates or of a duration, which 64 bits can not hold for every argument, is reduced to
  them by \<open>go_int\<close>; an unsigned counter that is only ever incremented is a \<open>nat\<close>.

  Panics: an operation that can hit a Go run-time panic (index or slice bounds out of range, negative
  \<open>make\<close> length) returns an \<open>option\<close> whose \<open>None\<close> is the panic. \<open>safe m Q\<close> says that \<open>m\<close> does
  not panic and its result satisfies \<open>Q\<close>; its rules let the component proofs read like a weakest
  precondition calculation.

  Loops: \<open>for_each\<close> runs a body over a list of loop indices; the integer ranges \<open>[lo..hi]\<close> of the
  library stand for counting loops, reversed for those that count down.
\<close>

unbundle bit_operations_syntax

type_synonym byte = "8 word"
type_synonym rune = int

named_theorems go_simps \<open>equations of the Go slice operations under their bounds\<close>

definition bytes_of :: "string \<Rightarrow> byte list" where
  "bytes_of s = map (\<lambda>c. of_nat (of_char c)) s"

definition string_of_bytes :: "byte list \<Rightarrow> string" where
  "string_of_bytes bs = map (\<lambda>b. char_of (unat b)) bs"

lemma unat_of_char [simp]: "unat (of_nat (of_char c) :: byte) = of_char c"
proof -
  have "(of_char c :: nat) < 256" by simp
  then show ?thesis by (simp add: unat_of_nat)
qed

lemma string_of_bytes_bytes_of [simp]: "string_of_bytes (bytes_of s) = s"
  by (induction s) (simp_all add: string_of_bytes_def bytes_of_def)

section \<open>Computations that may panic\<close>

definition safe :: "'a option \<Rightarrow> ('a \<Rightarrow> bool) \<Rightarrow> bool" where
  "safe m Q = (case m of None \<Rightarrow> False | Some x \<Rightarrow> Q x)"

lemma safe_Some [simp]: "safe (Some x) Q = Q x"
  by (simp add: safe_def)

lemma safe_None [simp]: "safe None Q = False"
  by (simp add: safe_def)

lemma safe_bind [simp]: "safe (Option.bind m f) Q = safe m (\<lambda>x. safe (f x) Q)"
  by (cases m) simp_all

lemma safe_if: "safe (if b then m else n) Q = ((b \<longrightarrow> safe m Q) \<and> (\<not> b \<longrightarrow> safe n Q))"
  by simp

lemma safe_ifI: "(b \<Longrightarrow> safe m Q) \<Longrightarrow> (\<not> b \<Longrightarrow> safe n Q) \<Longrightarrow> safe (if b then m else n) Q"
  by simp

text \<open>For the long \<open>switch\<close> chains of the source: case splits by rule, one branch at a time.\<close>

lemma if_memI: "x \<in> S \<Longrightarrow> y \<in> S \<Longrightarrow> (if b then x else y) \<in> S"
  by simp

lemma if_predI: "(b \<Longrightarrow> P x) \<Longrightarrow> (\<not> b \<Longrightarrow> P y) \<Longrightarrow> P (if b then x else y)"
  by simp

lemma safe_mono: "safe m P \<Longrightarrow> (\<And>x. P x \<Longrightarrow> Q x) \<Longrightarrow> safe m Q"
  by (cases m) simp_all

lemma safe_conj: "safe m P \<Longrightarrow> safe m Q \<Longrightarrow> safe m (\<lambda>x. P x \<and> Q x)"
  by (cases m) simp_all

lemma safeE: "safe m Q \<Longrightarrow> (\<And>x. m = Some x \<Longrightarrow> Q x \<Longrightarrow> thesis) \<Longrightarrow> thesis"
  by (cases m) simp_all

lemma safe_ex: "safe m Q \<longleftrightarrow> (\<exists>x. m = Some x \<and> Q x)"
  by (cases m) simp_all

lemma safe_bindI: "safe m P \<Longrightarrow> (\<And>x. P x \<Longrightarrow> safe (f x) Q) \<Longrightarrow> safe (Option.bind m f) Q"
  by (cases m) simp_all

lemma bind_Some_iff: "Option.bind m f = Some y \<longleftrightarrow> (\<exists>x. m = Some x \<and> f x = Some y)"
  by (cases m) simp_all

section \<open>Loops\<close>

primrec for_each :: "'i list \<Rightarrow> ('i \<Rightarrow> 's \<Rightarrow> 's option) \<Rightarrow> 's \<Rightarrow> 's option" where
  "for_each [] f s = Some s"
| "for_each (i # is) f s = do { s' \<leftarrow> f i s; for_each is f s' }"

lemma for_each_append: "for_each (xs @ ys) f s = do { s' \<leftarrow> for_each xs f s; for_each ys f s' }"
  by (induction xs arbitrary: s) (simp_all add: bind_assoc)

lemma for_each_inv:
  "(\<And>i s. i \<in> set is \<Longrightarrow> I s \<Longrightarrow> safe (f i s) I) \<Longrightarrow> I s \<Longrightarrow> safe (for_each is f s) I"
proof (induction "is" arbitrary: s)
  case (Cons i "is")
  have "safe (f i s) I" using Cons.prems by simp
  moreover have "\<And>s'. I s' \<Longrightarrow> safe (for_each is f s') I" using Cons.IH Cons.prems(1) by simp
  ultimately show ?case by (simp add: safe_mono)
qed simp

lemma for_up_inv:
  assumes step: "\<And>i s. lo \<le> i \<Longrightarrow> i < hi \<Longrightarrow> J i s \<Longrightarrow> safe (f i s) (J (i + 1))"
    and "lo \<le> hi" and "J lo s"
  shows "safe (for_each [lo..hi - 1] f s) (J hi)"
  using assms
proof (induction "nat (hi - lo)" arbitrary: lo s)
  case 0
  then show ?case by simp
next
  case (Suc n)
  then have lt: "lo < hi" by simp
  have "safe (f lo s) (J (lo + 1))" using Suc.prems lt by simp
  moreover have "\<And>s'. J (lo + 1) s' \<Longrightarrow> safe (for_each [lo + 1..hi - 1] f s') (J hi)"
    using Suc.hyps Suc.prems lt by simp
  ultimately show ?case using lt by (simp add: upto_rec1 safe_mono)
qed

lemma for_down_inv:
  assumes step: "\<And>i s. lo \<le> i \<Longrightarrow> i \<le> hi \<Longrightarrow> J i s \<Longrightarrow> safe (f i s) (J (i - 1))"
    and "lo - 1 \<le> hi" and "J hi s"
  shows "safe (for_each (rev [lo..hi]) f s) (J (lo - 1))"
  using assms
proof (induction "nat (hi - lo + 1)" arbitrary: hi s)
  case 0
  then have "hi = lo - 1" by simp
  then show ?case using 0 by simp
next
  case (Suc n)
  then have le: "lo \<le> hi" by simp
  have "safe (f hi s) (J (hi - 1))" using Suc.prems le by simp
  moreover have "\<And>s'. J (hi - 1) s' \<Longrightarrow> safe (for_each (rev [lo..hi - 1]) f s') (J (lo - 1))"
    using Suc.hyps Suc.prems le by simp
  ultimately show ?case using le by (simp add: upto_rec2 safe_mono)
qed

section \<open>Event machines\<close>

text \<open>
  The contract several components share: a step per event that, on an accepted event, does not panic,
  keeps an invariant and relates the old state to the new one by a transitive relation. Its
  consequence holds for every run: feeding accepted events one after the other does not panic, keeps
  the invariant and relates the first state to the last.
\<close>

locale event_machine =
  fixes step :: "'e \<Rightarrow> 's \<Rightarrow> 's option"
    and inv :: "'s \<Rightarrow> bool"
    and accepts :: "'e \<Rightarrow> bool"
    and rel :: "'s \<Rightarrow> 's \<Rightarrow> bool"
  assumes step_inv: "accepts e \<Longrightarrow> inv s \<Longrightarrow> safe (step e s) (\<lambda>s'. inv s' \<and> rel s s')"
    and rel_refl: "rel s s"
    and rel_trans: "rel s s' \<Longrightarrow> rel s' s'' \<Longrightarrow> rel s s''"
begin

lemma run_inv:
  assumes "\<forall>e \<in> set es. accepts e" "inv s"
  shows "safe (for_each es step s) (\<lambda>s'. inv s' \<and> rel s s')"
proof (rule for_each_inv)
  fix e u assume "e \<in> set es" "inv u \<and> rel s u"
  then show "safe (step e u) (\<lambda>s'. inv s' \<and> rel s s')"
    using assms(1) step_inv [of e u] by (auto elim!: safe_mono intro: rel_trans)
qed (simp add: assms(2) rel_refl)

lemma run_total:
  "\<forall>e \<in> set es. accepts e \<Longrightarrow> inv s \<Longrightarrow> \<exists>s'. for_each es step s = Some s' \<and> inv s' \<and> rel s s'"
  using run_inv [of es s] by (simp add: safe_ex)

end

section \<open>Go slices\<close>

definition get_at :: "'a list \<Rightarrow> int \<Rightarrow> 'a option" where
  "get_at xs i = (if 0 \<le> i \<and> i < int (length xs) then Some (xs ! nat i) else None)"

definition set_at :: "'a list \<Rightarrow> int \<Rightarrow> 'a \<Rightarrow> 'a list option" where
  "set_at xs i v = (if 0 \<le> i \<and> i < int (length xs) then Some (xs[nat i := v]) else None)"

definition slice :: "'a list \<Rightarrow> int \<Rightarrow> int \<Rightarrow> 'a list option" where
  "slice xs lo hi =
     (if 0 \<le> lo \<and> lo \<le> hi \<and> hi \<le> int (length xs)
      then Some (take (nat (hi - lo)) (drop (nat lo) xs)) else None)"

text \<open>
  \<open>copy(xs[lo:hi], src)\<close>: the first \<open>min (hi - lo) (len src)\<close> elements of \<open>src\<close> (read before anything
  is written, as Go's \<open>copy\<close> guarantees for overlapping slices) overwrite \<open>xs\<close> from \<open>lo\<close> on.
\<close>

definition copy_into :: "'a list \<Rightarrow> int \<Rightarrow> int \<Rightarrow> 'a list \<Rightarrow> 'a list option" where
  "copy_into xs lo hi src =
     (if 0 \<le> lo \<and> lo \<le> hi \<and> hi \<le> int (length xs)
      then (let n = min (nat (hi - lo)) (length src)
            in Some (take (nat lo) xs @ take n src @ drop (nat lo + n) xs))
      else None)"

definition make_slice :: "int \<Rightarrow> 'a \<Rightarrow> 'a list option" where
  "make_slice n v = (if n < 0 then None else Some (replicate (nat n) v))"

lemma get_at_in [go_simps]: "0 \<le> i \<Longrightarrow> i < int (length xs) \<Longrightarrow> get_at xs i = Some (xs ! nat i)"
  by (simp add: get_at_def)

lemma set_at_in [go_simps]: "0 \<le> i \<Longrightarrow> i < int (length xs) \<Longrightarrow> set_at xs i v = Some (xs[nat i := v])"
  by (simp add: set_at_def)

lemma slice_in [go_simps]:
  "0 \<le> lo \<Longrightarrow> lo \<le> hi \<Longrightarrow> hi \<le> int (length xs) \<Longrightarrow>
     slice xs lo hi = Some (take (nat (hi - lo)) (drop (nat lo) xs))"
  by (simp add: slice_def)

lemma make_slice_in [go_simps]: "0 \<le> n \<Longrightarrow> make_slice n v = Some (replicate (nat n) v)"
  by (simp add: make_slice_def)

lemma copy_into_full [go_simps]:
  "0 \<le> lo \<Longrightarrow> lo \<le> hi \<Longrightarrow> hi \<le> int (length xs) \<Longrightarrow> int (length src) = hi - lo \<Longrightarrow>
     copy_into xs lo hi src = Some (take (nat lo) xs @ src @ drop (nat hi) xs)"
  by (simp add: copy_into_def nat_add_distrib [symmetric])

text \<open>Writing one value over a range of indices.\<close>

lemma fill_range:
  assumes "0 \<le> lo" "lo \<le> hi" "hi \<le> int (length xs)"
  shows "safe (for_each [lo..hi - 1] (\<lambda>i ys. set_at ys i v) xs)
     (\<lambda>ys. length ys = length xs \<and>
        (\<forall>j < length xs. ys ! j = (if lo \<le> int j \<and> int j < hi then v else xs ! j)))"
proof (rule for_up_inv [where J = "\<lambda>i ys. length ys = length xs \<and>
        (\<forall>j < length xs. ys ! j = (if lo \<le> int j \<and> int j < i then v else xs ! j))"])
  fix i ys
  assume i: "lo \<le> i" "i < hi"
    and J: "length ys = length xs \<and>
        (\<forall>j < length xs. ys ! j = (if lo \<le> int j \<and> int j < i then v else xs ! j))"
  have "set_at ys i v = Some (ys[nat i := v])"
    using i J assms by (simp add: go_simps)
  moreover have "ys[nat i := v] ! j = (if lo \<le> int j \<and> int j < i + 1 then v else xs ! j)"
    if "j < length xs" for j
    using that i J assms by (cases "j = nat i") (auto simp: nth_list_update)
  ultimately show "safe (set_at ys i v) (\<lambda>ys. length ys = length xs \<and>
        (\<forall>j < length xs. ys ! j = (if lo \<le> int j \<and> int j < i + 1 then v else xs ! j)))"
    using J by simp
qed (use assms in auto)

subsection \<open>Machine integers\<close>

text \<open>The value of a 64-bit Go \<open>int\<close> whose mathematical value is \<open>i\<close>: two's complement wrap-around.\<close>

definition go_int :: "int \<Rightarrow> int" where
  "go_int i = sint (word_of_int i :: 64 word)"

lemma go_int_small:
  assumes "- (2 ^ 63) \<le> i" "i < 2 ^ 63"
  shows "go_int i = i"
proof -
  have "go_int i = signed_take_bit 63 i" by (simp add: go_int_def sint_sbintrunc')
  also have "\<dots> = i" using assms by (intro signed_take_bit_int_eq_self) auto
  finally show ?thesis .
qed

lemma go_int_0 [simp]: "go_int 0 = 0" and go_int_1 [simp]: "go_int 1 = 1"
  by (simp_all add: go_int_small)

lemma go_int_numeral [simp]: "numeral n < (2 ^ 63 :: int) \<Longrightarrow> go_int (numeral n) = numeral n"
  by (intro go_int_small) (simp_all add: order_trans [OF _ zero_le_numeral])

subsection \<open>Bounded histories\<close>

text \<open>
  Bounded histories: a component keeps the last \<open>cap\<close> entries of an unbounded stream of them. The locale
  states the contract of the operation that adds one entry; its lemmas describe what is kept after any
  number of additions. Session events, the key history of the reference TUI and its event log are
  interpretations.
\<close>

definition last_n :: "nat \<Rightarrow> 'a list \<Rightarrow> 'a list" where
  "last_n n xs = drop (length xs - n) xs"

lemma length_last_n [simp]: "length (last_n n xs) = min n (length xs)"
  by (simp add: last_n_def)

lemma last_n_short: "length xs \<le> n \<Longrightarrow> last_n n xs = xs"
  by (simp add: last_n_def)

lemma last_n_append: "last_n n (last_n n xs @ ys) = last_n n (xs @ ys)"
proof (cases "length xs \<le> n")
  case False
  have "drop (length xs - n) xs @ ys = drop (length xs - n) (xs @ ys)" by simp
  then have "last_n n (last_n n xs @ ys) = drop (length ys) (drop (length xs - n) (xs @ ys))"
    using False by (simp add: last_n_def)
  also have "\<dots> = drop (length xs + length ys - n) (xs @ ys)"
    using False by (simp only: drop_drop) (rule arg_cong [where f = "\<lambda>k. drop k (xs @ ys)"], simp)
  finally show ?thesis by (simp add: last_n_def)
qed (simp add: last_n_short)

lemma last_n_snoc: "0 < n \<Longrightarrow> length xs \<le> n \<Longrightarrow>
    last_n n (xs @ [x]) = (if length xs = n then tl xs else xs) @ [x]"
  by (auto simp: last_n_def drop_Suc tl_drop)

locale bounded_history =
  fixes add :: "'e \<Rightarrow> 's \<Rightarrow> 's"
    and history :: "'s \<Rightarrow> 'h list"
    and entry :: "'e \<Rightarrow> 's \<Rightarrow> 'h"
    and cap :: nat
    and inv :: "'s \<Rightarrow> bool"
  assumes add_history: "inv s \<Longrightarrow> history (add e s) = last_n cap (history s @ [entry e s])"
    and add_inv: "inv s \<Longrightarrow> inv (add e s)"
begin

primrec add_all :: "'e list \<Rightarrow> 's \<Rightarrow> 's" where
  "add_all [] s = s"
| "add_all (e # es) s = add_all es (add e s)"

primrec entries :: "'e list \<Rightarrow> 's \<Rightarrow> 'h list" where
  "entries [] s = []"
| "entries (e # es) s = entry e s # entries es (add e s)"

lemma add_all_inv: "inv s \<Longrightarrow> inv (add_all es s)"
  by (induction es arbitrary: s) (simp_all add: add_inv)

lemma add_all_history:
  "inv s \<Longrightarrow> length (history s) \<le> cap \<Longrightarrow> history (add_all es s) = last_n cap (history s @ entries es s)"
proof (induction es arbitrary: s)
  case (Cons e es)
  then show ?case by (simp add: add_inv add_history last_n_append)
qed (simp add: last_n_short)

lemma add_all_bound: "inv s \<Longrightarrow> length (history s) \<le> cap \<Longrightarrow> length (history (add_all es s)) \<le> cap"
  by (simp add: add_all_history)

lemma length_entries: "length (entries es s) = length es"
  by (induction es arbitrary: s) simp_all

end

end
