(* ===== verification/Writers.thy ===== *)
theory Writers
  imports Prelude
begin

text \<open>
  The write side of a session stream (\<open>io.Writer\<close>, \<open>Session.Send\<close>). \<open>send_loop\<close> is the loop that hands a
  stream the rest of the data until all of it is taken; the locale \<open>writer\<close> is what the loop relies on
  of the stream's \<open>Write\<close>, with the bytes the peer has been sent as its abstraction: a call without an
  error transmits the encoding of the bytes it reports taken, a failing one some prefix of the encoding
  of what it was offered.
\<close>

datatype 'e write_error = WriteError 'e | ShortWrite

text \<open>One call of \<open>Write\<close>: the count, the error, and the stream after it.\<close>

type_synonym ('c, 'e) write_op = "byte list \<Rightarrow> 'c \<Rightarrow> nat \<times> 'e option \<times> 'c"

function send_loop :: "('c, 'e) write_op \<Rightarrow> byte list \<Rightarrow> 'c \<Rightarrow> 'e write_error option \<times> 'c" where
  "send_loop put data c =
     (if data = [] then (None, c)
      else let r = put data c
           in case fst (snd r) of
                Some e \<Rightarrow> (Some (WriteError e), snd (snd r))
              | None \<Rightarrow>
                  if fst r = 0 then (Some ShortWrite, snd (snd r))
                  else send_loop put (drop (fst r) data) (snd (snd r)))"
  by pat_completeness auto
termination
  by (relation "measure (\<lambda>(put, data, c). length data)") auto

declare send_loop.simps [simp del]

locale writer =
  fixes put :: "('c, 'e) write_op"
    and sent :: "'c \<Rightarrow> byte list"
    and encode :: "byte list \<Rightarrow> byte list"
  assumes encode_append: "encode (xs @ ys) = encode xs @ encode ys"
    and write_ok: "put data c = (n, None, c') \<Longrightarrow> n \<le> length data \<and> sent c' = sent c @ encode (take n data)"
    and write_failed: "put data c = (n, Some e, c') \<Longrightarrow> \<exists>k. sent c' = sent c @ take k (encode data)"
begin

lemma encode_Nil: "encode [] = []"
  using encode_append [of "[]" "[]"] by simp

lemma send_loop_sent:
  "(case fst (send_loop put data c) of
      None \<Rightarrow> sent (snd (send_loop put data c)) = sent c @ encode data
    | Some _ \<Rightarrow> \<exists>k. sent (snd (send_loop put data c)) = sent c @ take k (encode data))"
proof (induction "length data" arbitrary: data c rule: less_induct)
  case less
  obtain n e c' where w: "put data c = (n, e, c')" by (cases "put data c")
  show ?case
  proof (cases "data = []")
    case True
    then show ?thesis by (simp add: send_loop.simps encode_Nil)
  next
    case nonempty: False
    show ?thesis
    proof (cases e)
      case (Some x)
      then show ?thesis using w write_failed [of data c n x c'] nonempty
        by (subst (1 2 3) send_loop.simps) simp
    next
      case None
      then have n: "n \<le> length data" "sent c' = sent c @ encode (take n data)" using w write_ok by auto
      have split: "encode data = encode (take n data) @ encode (drop n data)"
        using encode_append [of "take n data" "drop n data"] by simp
      show ?thesis
      proof (cases "n = 0")
        case True
        then have eq: "send_loop put data c = (Some ShortWrite, c')"
          using w None nonempty by (subst send_loop.simps) simp
        then show ?thesis using n(2) True by (auto simp: encode_Nil intro: exI [of _ 0])
      next
        case False
        have eq: "send_loop put data c = send_loop put (drop n data) c'"
          using w None nonempty False by (subst send_loop.simps) simp
        have "length (drop n data) < length data" using False nonempty by simp
        note ih = less [OF this, of c']
        show ?thesis
        proof (cases "fst (send_loop put (drop n data) c')")
          case None
          then show ?thesis using ih n(2) split by (simp add: eq)
        next
          case (Some x)
          then obtain k where "sent (snd (send_loop put (drop n data) c')) = sent c' @ take k (encode (drop n data))"
            using ih by auto
          then have "sent (snd (send_loop put data c)) =
              sent c @ take (length (encode (take n data)) + k) (encode data)"
            using n(2) by (simp add: eq split)
          then show ?thesis using Some by (auto simp: eq)
        qed
      qed
    qed
  qed
qed

lemma send_all: "fst (send_loop put data c) = None \<Longrightarrow> sent (snd (send_loop put data c)) = sent c @ encode data"
  using send_loop_sent [of data c] by simp

lemma send_prefix: "\<exists>k. sent (snd (send_loop put data c)) = sent c @ take k (encode data)"
  using send_loop_sent [of data c] by (auto split: option.splits) (metis take_all order_refl)

end

end
