(* ===== verification/Flight_Recorder.thy ===== *)
theory Flight_Recorder
  imports Prelude
begin

text \<open>
  The flight recorder of a session (\<open>flightrecorder.go\<close>): the most recent host output with the resizes
  between, within 64 KiB and 4096 records. Times are integers (nanoseconds). The operations are the
  recorder's critical sections; \<open>apply\<close> is the revision the terminal reports.
\<close>

datatype flight_record =
    FlightOutput int "byte list" nat
  | FlightResize int int int

record flightRecorder =
  fr_start :: int
  fr_width :: int
  fr_height :: int
  fr_dropped :: int
  fr_bytes :: int
  fr_records :: "flight_record list"

definition flightRecorderBytes :: int where "flightRecorderBytes = 64 * 1024"
definition flightRecorderRecords :: nat where "flightRecorderRecords = 4096"

definition newFlightRecorder :: "int \<Rightarrow> int \<Rightarrow> int \<Rightarrow> flightRecorder" where
  "newFlightRecorder start width height =
     \<lparr>fr_start = start, fr_width = width, fr_height = height, fr_dropped = 0, fr_bytes = 0,
      fr_records = []\<rparr>"

text \<open>The loop of \<open>evict\<close>, over the records from \<open>drop\<close> on.\<close>

primrec evict_loop :: "flight_record list \<Rightarrow> flightRecorder \<Rightarrow> flightRecorder" where
  "evict_loop [] r = r\<lparr>fr_records := []\<rparr>"
| "evict_loop (record # rest) r =
     (if fr_bytes r > flightRecorderBytes \<or> length (record # rest) > flightRecorderRecords
      then evict_loop rest
             (case record of
                FlightResize _ w h \<Rightarrow> r\<lparr>fr_width := w, fr_height := h\<rparr>
              | FlightOutput _ data _ \<Rightarrow>
                  r\<lparr>fr_bytes := fr_bytes r - int (length data),
                    fr_dropped := fr_dropped r + int (length data)\<rparr>)
      else r\<lparr>fr_records := record # rest\<rparr>)"

definition evict :: "flightRecorder \<Rightarrow> flightRecorder" where
  "evict r = evict_loop (fr_records r) r"

definition record_output :: "int \<Rightarrow> byte list \<Rightarrow> nat \<Rightarrow> flightRecorder \<Rightarrow> flightRecorder" where
  "record_output at data revision r =
     evict (r\<lparr>fr_records := fr_records r @ [FlightOutput (at - fr_start r) data revision],
              fr_bytes := fr_bytes r + int (length data)\<rparr>)"

definition record_resize :: "int \<Rightarrow> int \<Rightarrow> int \<Rightarrow> flightRecorder \<Rightarrow> flightRecorder" where
  "record_resize at width height r =
     evict (r\<lparr>fr_records := fr_records r @ [FlightResize (at - fr_start r) width height]\<rparr>)"

record 'u flight_recording =
  rec_profile :: string
  rec_start :: int
  rec_captured :: int
  rec_width :: int
  rec_height :: int
  rec_dropped :: int
  rec_records :: "flight_record list"
  rec_unsupported :: "'u list"

definition recording :: "string \<Rightarrow> int \<Rightarrow> 'u list \<Rightarrow> flightRecorder \<Rightarrow> 'u flight_recording" where
  "recording profile at unsupported r =
     \<lparr>rec_profile = profile, rec_start = fr_start r, rec_captured = at - fr_start r,
      rec_width = fr_width r, rec_height = fr_height r, rec_dropped = fr_dropped r,
      rec_records = fr_records r, rec_unsupported = unsupported\<rparr>"

subsection \<open>The longest suffix that fits\<close>

fun record_bytes :: "flight_record \<Rightarrow> nat" where
  "record_bytes (FlightOutput _ data _) = length data"
| "record_bytes (FlightResize _ _ _) = 0"

fun record_dims :: "int \<times> int \<Rightarrow> flight_record \<Rightarrow> int \<times> int" where
  "record_dims d (FlightResize _ w h) = (w, h)"
| "record_dims d (FlightOutput _ _ _) = d"

definition total_bytes :: "flight_record list \<Rightarrow> nat" where
  "total_bytes rs = sum_list (map record_bytes rs)"

definition fits :: "flight_record list \<Rightarrow> bool" where
  "fits rs \<longleftrightarrow> total_bytes rs \<le> 64 * 1024 \<and> length rs \<le> 4096"

lemma total_bytes_simps [simp]:
  "total_bytes [] = 0" "total_bytes (r # rs) = record_bytes r + total_bytes rs"
  "total_bytes (rs @ rs') = total_bytes rs + total_bytes rs'"
  by (simp_all add: total_bytes_def)

lemma fits_suffix: "fits (rs @ rs') \<Longrightarrow> fits rs"
  by (simp add: fits_def)

text \<open>What the recorder holds after the records \<open>rs\<close>: the suffix from \<open>k\<close> on, the least \<open>k\<close> that fits.\<close>

definition holds_suffix :: "int \<times> int \<Rightarrow> flight_record list \<Rightarrow> nat \<Rightarrow> flightRecorder \<Rightarrow> bool" where
  "holds_suffix dims rs k r \<longleftrightarrow>
     k \<le> length rs \<and> fr_records r = drop k rs \<and> fr_bytes r = int (total_bytes (drop k rs)) \<and>
     fr_dropped r = int (total_bytes (take k rs)) \<and>
     (fr_width r, fr_height r) = foldl record_dims dims (take k rs) \<and>
     (\<forall>j < k. \<not> fits (drop j rs))"

lemma evict_loop_suffix:
  assumes "k \<le> length rs" "fr_bytes r = int (total_bytes (drop k rs))"
    "fr_dropped r = int (total_bytes (take k rs))"
    "(fr_width r, fr_height r) = foldl record_dims dims (take k rs)"
    "\<forall>j < k. \<not> fits (drop j rs)"
  shows "\<exists>k'. holds_suffix dims rs k' (evict_loop (drop k rs) r) \<and> fits (drop k' rs) \<and>
     fr_start (evict_loop (drop k rs) r) = fr_start r"
  using assms
proof (induction "length rs - k" arbitrary: k r)
  case 0
  then show ?case by (intro exI [of _ k]) (simp add: holds_suffix_def fits_def)
next
  case (Suc n)
  then have lt: "k < length rs" by simp
  define x where "x = rs ! k"
  have d: "drop k rs = x # drop (Suc k) rs" using lt by (simp add: Cons_nth_drop_Suc x_def)
  have t: "take (Suc k) rs = take k rs @ [x]" using lt by (simp add: take_Suc_conv_app_nth x_def)
  show ?case
  proof (cases "fits (drop k rs)")
    case True
    then have "evict_loop (drop k rs) r = r\<lparr>fr_records := drop k rs\<rparr>"
      using Suc.prems(2) unfolding d by (simp add: fits_def flightRecorderBytes_def flightRecorderRecords_def)
    then show ?thesis using Suc.prems True by (intro exI [of _ k]) (simp add: holds_suffix_def)
  next
    case False
    define r' where "r' = (case x of
                FlightResize _ w h \<Rightarrow> r\<lparr>fr_width := w, fr_height := h\<rparr>
              | FlightOutput _ data _ \<Rightarrow>
                  r\<lparr>fr_bytes := fr_bytes r - int (length data),
                    fr_dropped := fr_dropped r + int (length data)\<rparr>)"
    have "evict_loop (drop k rs) r = evict_loop (drop (Suc k) rs) r'"
      using False Suc.prems(2) unfolding d r'_def
      by (auto simp: fits_def flightRecorderBytes_def flightRecorderRecords_def)
    moreover have "fr_bytes r' = int (total_bytes (drop (Suc k) rs))" "fr_dropped r' = int (total_bytes (take (Suc k) rs))"
      "(fr_width r', fr_height r') = foldl record_dims dims (take (Suc k) rs)" "fr_start r' = fr_start r"
      using Suc.prems(2-4) unfolding d t by (cases x; simp add: r'_def)+
    moreover have "\<forall>j < Suc k. \<not> fits (drop j rs)" using Suc.prems(5) False less_Suc_eq by auto
    ultimately show ?thesis using Suc.hyps(1) [of "Suc k" r'] Suc.hyps(2) lt by auto
  qed
qed

lemma holds_suffix_append:
  assumes "holds_suffix dims rs k r" "fr_records r' = fr_records r @ [x]" "fr_width r' = fr_width r"
    "fr_height r' = fr_height r" "fr_dropped r' = fr_dropped r" "fr_bytes r' = fr_bytes r + int (record_bytes x)"
  shows "\<exists>k'. holds_suffix dims (rs @ [x]) k' (evict r') \<and> fits (drop k' (rs @ [x])) \<and>
     fr_start (evict r') = fr_start r'"
proof -
  have k: "k \<le> length rs" "drop k (rs @ [x]) = fr_records r'" "take k (rs @ [x]) = take k rs"
    using assms by (auto simp: holds_suffix_def)
  have "\<forall>j < k. \<not> fits (drop j (rs @ [x]))"
    using assms(1) k(1) fits_suffix [of "drop j rs" "[x]" for j] by (auto simp: holds_suffix_def)
  then have "\<exists>k'. holds_suffix dims (rs @ [x]) k' (evict_loop (drop k (rs @ [x])) r') \<and>
      fits (drop k' (rs @ [x])) \<and> fr_start (evict_loop (drop k (rs @ [x])) r') = fr_start r'"
    using assms by (intro evict_loop_suffix) (auto simp: holds_suffix_def)
  then show ?thesis unfolding evict_def k(2) [symmetric] .
qed

datatype flight_op = Output int "byte list" nat | ResizeTo int int int

fun flight_step :: "flight_op \<Rightarrow> flightRecorder \<Rightarrow> flightRecorder" where
  "flight_step (Output at data revision) r = record_output at data revision r"
| "flight_step (ResizeTo at w h) r = record_resize at w h r"

fun flight_entry :: "int \<Rightarrow> flight_op \<Rightarrow> flight_record" where
  "flight_entry start (Output at data revision) = FlightOutput (at - start) data revision"
| "flight_entry start (ResizeTo at w h) = FlightResize (at - start) w h"

text \<open>
  C16: After any sequence of output and resizes, the recorder holds the longest suffix of it that
  fits 64 KiB and 4096 records; \<open>DroppedBytes\<close> is the size of what it no longer holds, and \<open>Width\<close> and
  \<open>Height\<close> are the dimensions in effect before the first record it holds.
\<close>

theorem flight_recorder_longest_suffix:
  "\<exists>k. holds_suffix (w, h) (map (flight_entry start) ops) k (fold flight_step ops (newFlightRecorder start w h)) \<and>
     fits (drop k (map (flight_entry start) ops))"
proof -
  have "\<exists>k. holds_suffix (w, h) (map (flight_entry start) ops) k (fold flight_step ops (newFlightRecorder start w h)) \<and>
     fits (drop k (map (flight_entry start) ops)) \<and> fr_start (fold flight_step ops (newFlightRecorder start w h)) = start"
  proof (induction ops rule: rev_induct)
    case Nil
    show ?case by (intro exI [of _ 0]) (simp add: holds_suffix_def newFlightRecorder_def fits_def)
  next
    case (snoc op ops)
    define r where "r = fold flight_step ops (newFlightRecorder start w h)"
    from snoc obtain k where k: "holds_suffix (w, h) (map (flight_entry start) ops) k r" "fr_start r = start"
      by (auto simp: r_def)
    have "\<exists>r'. flight_step op r = evict r' \<and> fr_records r' = fr_records r @ [flight_entry start op] \<and>
        fr_width r' = fr_width r \<and> fr_height r' = fr_height r \<and> fr_dropped r' = fr_dropped r \<and> fr_start r' = start \<and>
        fr_bytes r' = fr_bytes r + int (record_bytes (flight_entry start op))"
      using k(2) by (cases op) (auto simp: record_output_def record_resize_def intro!: exI)
    then show ?case using holds_suffix_append [OF k(1)] by (auto simp: r_def)
  qed
  then show ?thesis by blast
qed

end
