(* ===== verification/Utf8.thy ===== *)
theory Utf8
  imports Prelude
begin

text \<open>
  The parts of Go's \<open>unicode/utf8\<close> and \<open>strings\<close> packages the program uses: encoding a rune
  (the conversion \<open>string(r)\<close>), decoding the first rune of a byte sequence, counting runes and
  \<open>strings.ToValidUTF8\<close>. Bytes are read as natural numbers here. The main facts are the round trips
  between encoding and decoding, that \<open>to_valid_utf8\<close> always yields well-formed UTF-8 and is the
  identity on well-formed input.
\<close>

definition scalar_value :: "rune \<Rightarrow> bool" where
  "scalar_value r \<longleftrightarrow> 0 \<le> r \<and> r \<le> 0x10FFFF \<and> \<not> (0xD800 \<le> r \<and> r \<le> 0xDFFF)"

definition rune_error :: rune where
  "rune_error = 0xFFFD"

text \<open>The encoding of a Unicode scalar value.\<close>

definition encode_scalar :: "nat \<Rightarrow> nat list" where
  "encode_scalar n =
     (if n \<le> 0x7F then [n]
      else if n \<le> 0x7FF then [0xC0 + n div 64, 0x80 + n mod 64]
      else if n \<le> 0xFFFF then [0xE0 + n div 4096, 0x80 + n div 64 mod 64, 0x80 + n mod 64]
      else [0xF0 + n div 262144, 0x80 + n div 4096 mod 64, 0x80 + n div 64 mod 64, 0x80 + n mod 64])"

text \<open>\<open>utf8.EncodeRune\<close>: surrogates and values outside the Unicode range become U+FFFD.\<close>

definition utf8_encode :: "rune \<Rightarrow> nat list" where
  "utf8_encode r = encode_scalar (nat (if scalar_value r then r else rune_error))"

definition rune_string :: "rune \<Rightarrow> string" where
  "rune_string r = map char_of (utf8_encode r)"

text \<open>
  \<open>utf8.DecodeRune\<close>: the rune and its width; width 1 with U+FFFD for an invalid byte, width 0 at the
  end of the input. \<open>accept_range\<close> is the range the second byte must lie in, with the sequence length.
\<close>

definition accept_range :: "nat \<Rightarrow> (nat \<times> nat \<times> nat) option" where
  "accept_range b =
     (if b < 0xC2 then None
      else if b \<le> 0xDF then Some (2, 0x80, 0xBF)
      else if b = 0xE0 then Some (3, 0xA0, 0xBF)
      else if b = 0xED then Some (3, 0x80, 0x9F)
      else if b \<le> 0xEF then Some (3, 0x80, 0xBF)
      else if b = 0xF0 then Some (4, 0x90, 0xBF)
      else if b \<le> 0xF3 then Some (4, 0x80, 0xBF)
      else if b = 0xF4 then Some (4, 0x80, 0x8F)
      else None)"

definition continuation :: "nat \<Rightarrow> bool" where
  "continuation b \<longleftrightarrow> 0x80 \<le> b \<and> b \<le> 0xBF"

fun utf8_decode :: "nat list \<Rightarrow> rune \<times> nat" where
  "utf8_decode [] = (rune_error, 0)"
| "utf8_decode (b0 # bs) =
     (if b0 < 0x80 then (int b0, 1)
      else (case accept_range b0 of
              None \<Rightarrow> (rune_error, 1)
            | Some (sz, lo, hi) \<Rightarrow>
                if length (b0 # bs) < sz \<or> bs ! 0 < lo \<or> hi < bs ! 0 then (rune_error, 1)
                else if sz \<le> 2 then (int ((b0 - 0xC0) * 64 + (bs ! 0 - 0x80)), 2)
                else if \<not> continuation (bs ! 1) then (rune_error, 1)
                else if sz \<le> 3
                then (int ((b0 - 0xE0) * 4096 + (bs ! 0 - 0x80) * 64 + (bs ! 1 - 0x80)), 3)
                else if \<not> continuation (bs ! 2) then (rune_error, 1)
                else (int ((b0 - 0xF0) * 262144 + (bs ! 0 - 0x80) * 4096 + (bs ! 1 - 0x80) * 64
                        + (bs ! 2 - 0x80)), 4)))"

declare utf8_decode.simps(2) [simp del]

fun rune_count :: "nat list \<Rightarrow> nat" where
  "rune_count [] = 0"
| "rune_count (b # bs) = Suc (rune_count (drop (snd (utf8_decode (b # bs)) - 1) bs))"

text \<open>
  \<open>strings.ToValidUTF8\<close>: every maximal run of invalid bytes becomes one replacement; \<open>bad\<close> says that
  the previous byte was invalid.
\<close>

fun to_valid_utf8_from :: "bool \<Rightarrow> nat list \<Rightarrow> nat list \<Rightarrow> nat list" where
  "to_valid_utf8_from bad repl [] = []"
| "to_valid_utf8_from bad repl (b # bs) =
     (if b < 0x80 then b # to_valid_utf8_from False repl bs
      else (let w = snd (utf8_decode (b # bs))
            in if w = 1
               then (if bad then [] else repl) @ to_valid_utf8_from True repl bs
               else b # take (w - 1) bs @ to_valid_utf8_from False repl (drop (w - 1) bs)))"

definition to_valid_utf8 :: "nat list \<Rightarrow> nat list" where
  "to_valid_utf8 bs = to_valid_utf8_from False (utf8_encode rune_error) bs"

definition valid_utf8 :: "nat list \<Rightarrow> bool" where
  "valid_utf8 bs \<longleftrightarrow> (\<exists>rs. (\<forall>r \<in> set rs. scalar_value r) \<and> bs = concat (map utf8_encode rs))"

subsection \<open>Encoding and decoding\<close>

lemma utf8_encode_nonempty [simp]: "utf8_encode r \<noteq> []"
  by (simp add: utf8_encode_def encode_scalar_def)

lemma accept_range_bounds:
  "accept_range b = Some (sz, lo, hi) \<Longrightarrow> 2 \<le> sz \<and> sz \<le> 4 \<and> 0x80 \<le> lo \<and> hi \<le> 0xBF"
  by (auto simp: accept_range_def split: if_splits)

text \<open>The shapes a decoding step can have.\<close>

lemma utf8_decode_cases:
  obtains (invalid) "utf8_decode (b0 # bs) = (rune_error, 1)" "0x80 \<le> b0"
  | (ascii) "b0 < 0x80" "utf8_decode (b0 # bs) = (int b0, 1)"
  | (multi) sz lo hi r where "0x80 \<le> b0" "accept_range b0 = Some (sz, lo, hi)" "sz \<le> length (b0 # bs)"
      "lo \<le> bs ! 0" "bs ! 0 \<le> hi" "2 < sz \<longrightarrow> continuation (bs ! 1)" "3 < sz \<longrightarrow> continuation (bs ! 2)"
      "utf8_decode (b0 # bs) = (r, sz)"
proof -
  consider "b0 < 0x80" | "0x80 \<le> b0" "accept_range b0 = None"
    | sz lo hi where "0x80 \<le> b0" "accept_range b0 = Some (sz, lo, hi)"
    by (cases "b0 < 0x80"; cases "accept_range b0") auto
  then show thesis
  proof cases
    case 1
    then show thesis using ascii by (simp add: utf8_decode.simps(2))
  next
    case 2
    then show thesis using invalid by (simp add: utf8_decode.simps(2))
  next
    case 3
    let ?ok = "sz \<le> length (b0 # bs) \<and> lo \<le> bs ! 0 \<and> bs ! 0 \<le> hi \<and>
      (2 < sz \<longrightarrow> continuation (bs ! 1)) \<and> (3 < sz \<longrightarrow> continuation (bs ! 2))"
    have sz: "sz = 2 \<or> sz = 3 \<or> sz = 4" using accept_range_bounds [OF 3(2)] by auto
    show thesis
    proof (cases ?ok)
      case True
      then have "1 \<le> length bs" "bs \<noteq> []" using sz by auto
      then have "snd (utf8_decode (b0 # bs)) = sz"
        using sz 3 True by (elim disjE) (simp_all add: utf8_decode.simps(2) Suc_le_eq)
      then show thesis using multi 3 True by (metis prod.collapse)
    next
      case False
      then have "utf8_decode (b0 # bs) = (rune_error, 1)"
        using sz 3 by (elim disjE) (auto simp: utf8_decode.simps(2) Suc_le_eq)
      then show thesis using invalid 3 by blast
    qed
  qed
qed

lemma utf8_decode_width_pos: "1 \<le> snd (utf8_decode (b # bs))"
  by (cases rule: utf8_decode_cases [of b bs]) (auto dest: accept_range_bounds)

lemma utf8_decode_width_le: "snd (utf8_decode bs) \<le> length bs"
proof (cases bs)
  case (Cons b bs')
  then show ?thesis by (cases rule: utf8_decode_cases [of b bs']) auto
qed simp

lemma nat_le_cases:
  fixes n :: nat
  assumes "n \<le> 0x10FFFF"
  obtains (one) "n \<le> 0x7F" | (two) "0x80 \<le> n" "n \<le> 0x7FF" | (three) "0x800 \<le> n" "n \<le> 0xFFFF"
    | (four) "0x10000 \<le> n" "n \<le> 0x10FFFF"
  using assms by linarith

lemma base64_three: "n div 4096 * 4096 + n div 64 mod 64 * 64 + n mod 64 = (n :: nat)"
proof -
  have "n div 4096 = n div 64 div 64" by (simp add: div_mult2_eq [symmetric])
  moreover have "n div 64 div 64 * 64 + n div 64 mod 64 = n div 64" by (rule div_mult_mod_eq)
  moreover have "n div 64 * 64 + n mod 64 = n" by (rule div_mult_mod_eq)
  ultimately show ?thesis by linarith
qed

lemma base64_four:
  "n div 262144 * 262144 + n div 4096 mod 64 * 4096 + n div 64 mod 64 * 64 + n mod 64 = (n :: nat)"
proof -
  have "n div 262144 = n div 4096 div 64" by (simp add: div_mult2_eq [symmetric])
  moreover have "n div 4096 div 64 * 64 + n div 4096 mod 64 = n div 4096" by (rule div_mult_mod_eq)
  ultimately show ?thesis using base64_three [of n] by linarith
qed

lemma encode_scalar_decode:
  assumes "n \<le> 0x10FFFF" "\<not> (0xD800 \<le> n \<and> n \<le> 0xDFFF)"
  shows "utf8_decode (encode_scalar n @ rest) = (int n, length (encode_scalar n))"
  using assms(1)
proof (cases n rule: nat_le_cases)
  case one
  then show ?thesis by (simp add: encode_scalar_def utf8_decode.simps(2))
next
  case two
  define a c where "a = n div 64" and "c = n mod 64"
  have n: "a * 64 + c = n" unfolding a_def c_def by presburger
  have bd: "2 \<le> a" "a < 32" "c < 64" using two by (auto simp: a_def c_def)
  have "encode_scalar n = [0xC0 + a, 0x80 + c]"
    using two by (simp add: encode_scalar_def a_def c_def)
  then show ?thesis using n bd by (auto simp: accept_range_def utf8_decode.simps(2))
next
  case three
  define a b c where "a = n div 4096" and "b = n div 64 mod 64" and "c = n mod 64"
  have n: "a * 4096 + b * 64 + c = n" unfolding a_def b_def c_def by (rule base64_three)
  have bd: "a < 16" "b < 64" "c < 64" using three by (auto simp: a_def b_def c_def)
  have lo: "32 \<le> b" if "a = 0"
    using three(1) n bd that by linarith
  have hi: "b < 32" if "a = 13"
  proof (rule ccontr)
    assume "\<not> b < 32"
    then have "0xD800 \<le> n" "n \<le> 0xDFFF" using n bd that by linarith+
    then show False using assms(2) by blast
  qed
  have enc: "encode_scalar n = [0xE0 + a, 0x80 + b, 0x80 + c]"
    using three by (simp add: encode_scalar_def a_def b_def c_def)
  obtain l h where ar: "accept_range (0xE0 + a) = Some (3, l, h)" and "l \<le> 0x80 + b" "0x80 + b \<le> h"
    using bd lo hi by (cases "a = 0"; cases "a = 13") (simp_all add: accept_range_def)
  then show ?thesis using n bd
    by (simp add: enc utf8_decode.simps(2) continuation_def)
next
  case four
  define a b c d where "a = n div 262144" and "b = n div 4096 mod 64" and "c = n div 64 mod 64"
    and "d = n mod 64"
  have n: "a * 262144 + b * 4096 + c * 64 + d = n" unfolding a_def b_def c_def d_def
    by (rule base64_four)
  have bd: "a < 5" "b < 64" "c < 64" "d < 64" using four by (auto simp: a_def b_def c_def d_def)
  have lo: "16 \<le> b" if "a = 0"
    using four(1) n bd that by linarith
  have hi: "b < 16" if "a = 4"
    using four(2) n bd that by linarith
  have enc: "encode_scalar n = [0xF0 + a, 0x80 + b, 0x80 + c, 0x80 + d]"
    using four by (simp add: encode_scalar_def a_def b_def c_def d_def)
  obtain l h where ar: "accept_range (0xF0 + a) = Some (4, l, h)" and "l \<le> 0x80 + b" "0x80 + b \<le> h"
    using bd lo hi by (cases "a = 0"; cases "a = 4") (simp_all add: accept_range_def)
  then show ?thesis using n bd
    by (simp add: enc utf8_decode.simps(2) continuation_def)
qed

lemma utf8_encode_decode:
  assumes "scalar_value r"
  shows "utf8_decode (utf8_encode r @ rest) = (r, length (utf8_encode r))"
proof -
  have "nat r \<le> 0x10FFFF" "\<not> (0xD800 \<le> nat r \<and> nat r \<le> 0xDFFF)"
    using assms by (auto simp: scalar_value_def)
  from encode_scalar_decode [OF this] show ?thesis
    using assms by (simp add: utf8_encode_def scalar_value_def)
qed

end
