(* ===== verification/Screens.thy ===== *)
theory Screens
  imports Utf8
begin

text \<open>
  Screen snapshots (\<open>screen.go\<close>): cells, cursor, the detached row-major \<open>Screen\<close> and its readers
  \<open>CellAt\<close>, \<open>Line\<close> and \<open>Text\<close>. The readers are total functions on any \<open>Screen\<close>, well formed or not; the
  lemmas say what they return on a snapshot whose cell list fills its dimensions.
\<close>

type_synonym color = int
type_synonym attributes = "16 word"

definition DefaultColor :: color where
  "DefaultColor = -1"

definition Bold :: attributes where "Bold = 1"
definition Underline :: attributes where "Underline = 2"
definition Blink :: attributes where "Blink = 4"
definition Reverse :: attributes where "Reverse = 8"
definition Conceal :: attributes where "Conceal = 16"

definition Has :: "attributes \<Rightarrow> attributes \<Rightarrow> bool" where
  "Has a requested \<longleftrightarrow> a AND requested = requested"

record cell =
  cell_text :: string
  cell_width :: int
  cell_foreground :: color
  cell_background :: color
  cell_attributes :: attributes

record cursor =
  cur_column :: int
  cur_row :: int
  cur_visible :: bool

record screen =
  scr_width :: int
  scr_height :: int
  scr_cells :: "cell list"
  scr_cursor :: cursor
  scr_revision :: nat
  scr_title :: string

text \<open>The zero value of a Go struct.\<close>

definition zero_cell :: cell where
  "zero_cell = \<lparr>cell_text = [], cell_width = 0, cell_foreground = 0, cell_background = 0,
     cell_attributes = 0\<rparr>"

definition zero_cursor :: cursor where
  "zero_cursor = \<lparr>cur_column = 0, cur_row = 0, cur_visible = False\<rparr>"

text \<open>\<open>CellAt\<close> returns \<open>(Cell{}, false)\<close> outside the screen: here \<open>None\<close>.\<close>

definition CellAt :: "screen \<Rightarrow> int \<Rightarrow> int \<Rightarrow> cell option" where
  "CellAt s column row =
     (if column < 0 \<or> column \<ge> scr_width s \<or> row < 0 \<or> row \<ge> scr_height s then None
      else (let index = row * scr_width s + column
            in if index \<ge> int (length (scr_cells s)) then None
               else Some (scr_cells s ! nat index)))"

text \<open>The loop of \<open>Line\<close> over the columns, which stops at the first missing cell.\<close>

primrec line_from :: "screen \<Rightarrow> int \<Rightarrow> int list \<Rightarrow> string" where
  "line_from s row [] = []"
| "line_from s row (column # columns) =
     (case CellAt s column row of
        None \<Rightarrow> []
      | Some cell \<Rightarrow>
          (if cell_width cell \<noteq> 0 then cell_text cell else []) @ line_from s row columns)"

definition Line :: "screen \<Rightarrow> int \<Rightarrow> string" where
  "Line s row = (if row < 0 \<or> row \<ge> scr_height s then [] else line_from s row [0..scr_width s - 1])"

definition newline :: char where
  "newline = CHR 0x0A"

definition Text :: "screen \<Rightarrow> string" where
  "Text s = concat (map (\<lambda>row. (if row > 0 then [newline] else []) @ Line s row) [0..scr_height s - 1])"

subsection \<open>Rows of a cell grid\<close>

text \<open>
  The cells of a grid of width \<open>w\<close> in row \<open>r\<close>. All operations of the emulator are described by what
  they do to rows, so most of the index arithmetic of the development lives in this section.
\<close>

definition row_of :: "'a list \<Rightarrow> int \<Rightarrow> int \<Rightarrow> 'a list" where
  "row_of cs w r = take (nat w) (drop (nat (r * w)) cs)"

text \<open>
  The longest cell slice Go's \<open>make\<close> accepts: a \<open>Cell\<close> takes 32 bytes and the 64-bit runtime refuses an
  allocation of more than \<open>2 ^ 48\<close> of them with a panic. A screen whose cells fit has indices far
  below the wrap-around of \<open>int\<close>.
\<close>

definition maxCells :: int where
  "maxCells = 2 ^ 43"

definition dims_fit :: "int \<Rightarrow> int \<Rightarrow> bool" where
  "dims_fit w h \<longleftrightarrow> 0 < w \<and> 0 < h \<and> w * h \<le> maxCells"

lemma dims_fit_1000: "0 < w \<Longrightarrow> 0 < h \<Longrightarrow> w \<le> 1000000 \<Longrightarrow> h \<le> 1000000 \<Longrightarrow> dims_fit w h"
  using mult_mono [of w 1000000 h 1000000] by (simp add: dims_fit_def maxCells_def)

definition grid :: "'a list \<Rightarrow> int \<Rightarrow> int \<Rightarrow> bool" where
  "grid cs w h \<longleftrightarrow> dims_fit w h \<and> int (length cs) = w * h"

lemma grid_pos: "grid cs w h \<Longrightarrow> 0 < w \<and> 0 < h"
  by (simp add: grid_def dims_fit_def)

text \<open>The grid with row \<open>r\<close> replaced.\<close>

definition put_row :: "'a list \<Rightarrow> int \<Rightarrow> int \<Rightarrow> 'a list \<Rightarrow> 'a list" where
  "put_row cs w r ys = take (nat (r * w)) cs @ ys @ drop (nat (r * w + w)) cs"

lemma row_start_bound:
  assumes "0 < w" "r < h" shows "r * w + w \<le> w * (h :: int)"
proof -
  have "(r + 1) * w \<le> h * w" using assms by (intro mult_right_mono) auto
  then show ?thesis by (simp add: algebra_simps)
qed

lemma grid_index:
  assumes "grid cs w h" "0 \<le> r" "r < h" "0 \<le> c" "c < w"
  shows "0 \<le> r * w + c" "r * w + c < int (length cs)" "nat (r * w + c) < length cs"
proof -
  have "r * w + w \<le> w * h" using assms by (intro row_start_bound) (auto simp: grid_def dims_fit_def)
  then show "r * w + c < int (length cs)" using assms by (simp add: grid_def dims_fit_def)
  show "0 \<le> r * w + c" using assms by (simp add: grid_def dims_fit_def)
  then show "nat (r * w + c) < length cs" using \<open>r * w + c < int (length cs)\<close> by linarith
qed

lemma grid_row_bounds:
  assumes "grid cs w h" "0 \<le> r" "r < h"
  shows "0 \<le> r * w" "r * w \<le> r * w + w" "r * w + w \<le> int (length cs)"
  using assms row_start_bound [of w r h] by (auto simp: grid_def dims_fit_def)

text \<open>No index of a grid wraps around.\<close>

lemma grid_length: "grid cs w h \<Longrightarrow> int (length cs) \<le> maxCells"
  by (simp add: grid_def dims_fit_def)

lemma grid_go_int:
  assumes "grid cs w h" "0 \<le> i" "i \<le> int (length cs)"
  shows "go_int i = i"
  using grid_length [OF assms(1)] assms(2,3) by (intro go_int_small) (simp_all add: maxCells_def)

lemma grid_row_go_int:
  assumes "grid cs w h" "0 \<le> r" "r < h"
  shows "go_int (r * w) = r * w" "go_int (r * w + w) = r * w + w" "go_int ((r + 1) * w) = (r + 1) * w"
    "0 \<le> c \<Longrightarrow> c \<le> w \<Longrightarrow> go_int (r * w + c) = r * w + c"
  using grid_row_bounds [OF assms] by (auto intro!: grid_go_int [OF assms(1)] simp: algebra_simps)

lemma dims_fit_width:
  assumes "dims_fit w h" shows "w \<le> maxCells"
proof -
  have "w * 1 \<le> w * h" using assms by (intro mult_left_mono) (auto simp: dims_fit_def)
  then have "w \<le> w * h" by simp
  then show ?thesis using assms unfolding dims_fit_def by linarith
qed

lemma dims_fit_go_int:
  assumes "dims_fit w h"
  shows "go_int (w * h) = w * h" "0 \<le> w * h" "w * h \<le> maxCells"
proof -
  show "0 \<le> w * h" "w * h \<le> maxCells" using assms by (auto simp: dims_fit_def)
  then show "go_int (w * h) = w * h" by (intro go_int_small) (simp_all add: maxCells_def)
qed

lemma length_row_of [simp]:
  assumes "grid cs w h" "0 \<le> r" "r < h"
  shows "int (length (row_of cs w r)) = w" "length (row_of cs w r) = nat w"
proof -
  have "nat (r * w) + nat w \<le> length cs"
    using grid_row_bounds [OF assms] by (simp add: grid_def dims_fit_def)
  then show "length (row_of cs w r) = nat w" by (simp add: row_of_def)
  then show "int (length (row_of cs w r)) = w" using assms by (simp add: grid_def dims_fit_def)
qed

lemma row_of_nth:
  assumes "grid cs w h" "0 \<le> r" "r < h" "0 \<le> c" "c < w"
  shows "row_of cs w r ! nat c = cs ! nat (r * w + c)"
proof -
  have "nat (r * w) + nat c = nat (r * w + c)"
    using grid_row_bounds [OF assms(1-3)] assms by (simp add: nat_add_distrib)
  moreover have "nat (r * w) \<le> length cs"
    using grid_row_bounds [OF assms(1-3)] assms(1) unfolding grid_def dims_fit_def by linarith
  ultimately show ?thesis using assms by (simp add: row_of_def)
qed

lemma slice_row:
  assumes "grid cs w h" "0 \<le> r" "r < h"
  shows "slice cs (r * w) (r * w + w) = Some (row_of cs w r)"
  using grid_row_bounds [OF assms] by (simp add: slice_in row_of_def)

lemma grid_put_row [simp]:
  assumes "grid cs w h" "0 \<le> r" "r < h" "int (length ys) = w"
  shows "grid (put_row cs w r ys) w h"
proof -
  have "nat (r * w) \<le> length cs" "nat (r * w + w) \<le> length cs" "0 \<le> r * w"
    using grid_row_bounds [OF assms(1-3)] by auto
  then show ?thesis using assms by (simp add: put_row_def grid_def dims_fit_def nat_add_distrib)
qed

lemma copy_into_row:
  assumes "grid cs w h" "0 \<le> r" "r < h" "int (length ys) = w"
  shows "copy_into cs (r * w) (r * w + w) ys = Some (put_row cs w r ys)"
  using grid_row_bounds [OF assms(1-3)] assms(4) by (simp add: copy_into_full put_row_def)

lemma row_of_put_row:
  assumes "grid cs w h" "0 \<le> r" "r < h" "0 \<le> r'" "r' < h" "int (length ys) = w"
  shows "row_of (put_row cs w r ys) w r' = (if r' = r then ys else row_of cs w r')"
proof -
  have b: "0 \<le> r * w" "r * w + w \<le> int (length cs)" using grid_row_bounds [OF assms(1-3)] by auto
  have b': "0 \<le> r' * w" using grid_row_bounds [OF assms(1,4,5)] by auto
  have w: "0 < w" using assms(1) by (simp add: grid_def dims_fit_def)
  have len: "length (take (nat (r * w)) cs) = nat (r * w)" using b w by simp
  consider "r' = r" | "r' < r" | "r < r'" by linarith
  then show ?thesis
  proof cases
    case 1
    then show ?thesis using len assms(6) w by (simp add: row_of_def put_row_def)
  next
    case 2
    then have "(r' + 1) * w \<le> r * w" using w by (intro mult_right_mono) auto
    then have le: "nat (r' * w) + nat w \<le> nat (r * w)" using b' w by (simp add: algebra_simps)
    then have "drop (nat (r' * w)) (put_row cs w r ys) =
        drop (nat (r' * w)) (take (nat (r * w)) cs) @ ys @ drop (nat (r * w + w)) cs"
      using len by (simp add: put_row_def)
    moreover have "nat w \<le> length (drop (nat (r' * w)) (take (nat (r * w)) cs))"
      using le len by (simp add: le_diff_conv2)
    ultimately have "row_of (put_row cs w r ys) w r' = take (nat w) (drop (nat (r' * w)) (take (nat (r * w)) cs))"
      by (simp add: row_of_def)
    also have "\<dots> = row_of cs w r'"
      using le by (simp add: row_of_def drop_take min_def)
    finally show ?thesis using 2 by simp
  next
    case 3
    then have "(r + 1) * w \<le> r' * w" using w by (intro mult_right_mono) auto
    then have ge: "r * w + w \<le> r' * w" by (simp add: algebra_simps)
    then have "drop (nat (r' * w)) (put_row cs w r ys) =
        drop (nat (r' * w) - (nat (r * w) + nat w)) (drop (nat (r * w + w)) cs)"
      using len assms(6) w b by (simp add: put_row_def) (metis diff_diff_left nat_int)
    also have "\<dots> = drop (nat (r' * w)) cs"
      using ge b w by (simp add: nat_add_distrib)
    finally show ?thesis using 3 by (simp add: row_of_def)
  qed
qed

lemma set_at_row:
  assumes "grid cs w h" "0 \<le> r" "r < h" "0 \<le> c" "c < w"
  shows "set_at cs (r * w + c) v = Some (put_row cs w r ((row_of cs w r)[nat c := v]))"
proof -
  note b = grid_row_bounds [OF assms(1-3)]
  have i: "nat (r * w + c) = nat (r * w) + nat c" using b assms by (simp add: nat_add_distrib)
  have len: "length (take (nat (r * w)) cs) = nat (r * w)" using b by simp
  have "cs = take (nat (r * w)) cs @ row_of cs w r @ drop (nat (r * w + w)) cs"
    using b assms(1)
    by (simp add: row_of_def grid_def dims_fit_def nat_add_distrib)
      (metis add.commute append_take_drop_id drop_drop)
  then have "cs[nat (r * w) + nat c := v] =
      (take (nat (r * w)) cs @ row_of cs w r @ drop (nat (r * w + w)) cs)[nat (r * w) + nat c := v]"
    by simp
  also have "\<dots> = put_row cs w r ((row_of cs w r)[nat c := v])"
    using len assms by (simp add: list_update_append put_row_def)
  finally show ?thesis
    using grid_index [OF assms] by (simp add: set_at_in i)
qed

lemma grid_list_update [simp]: "grid (cs[i := v]) w h = grid cs w h"
  by (simp add: grid_def dims_fit_def)

lemma grid_replicate: "dims_fit w h \<Longrightarrow> grid (replicate (nat (w * h)) v) w h"
  by (simp add: grid_def dims_fit_def zero_le_mult_iff)

lemma row_of_replicate:
  assumes "0 < w" "0 \<le> r" "r < h"
  shows "row_of (replicate (nat (w * h)) v) w r = replicate (nat w) v"
proof -
  have "r * w + w \<le> w * h" "0 \<le> r * w" using assms row_start_bound by auto
  then have "nat w \<le> nat (w * h) - nat (r * w)" using assms by linarith
  then show ?thesis by (simp add: row_of_def min_def)
qed

text \<open>Two grids with the same rows are equal.\<close>

lemma grid_eqI:
  assumes "grid xs w h" "grid ys w h" "\<And>r. 0 \<le> r \<Longrightarrow> r < h \<Longrightarrow> row_of xs w r = row_of ys w r"
  shows "xs = ys"
proof (rule nth_equalityI)
  show "length xs = length ys" using assms(1,2) by (simp add: grid_def dims_fit_def)
next
  fix i assume i: "i < length xs"
  define r c where "r = int i div w" and "c = int i mod w"
  have w: "0 < w" using assms(1) by (simp add: grid_def dims_fit_def)
  have rc: "r * w + c = int i" by (simp add: r_def c_def)
  have "int i < h * w" using i assms(1) by (simp add: grid_def dims_fit_def mult.commute)
  moreover have pos: "0 \<le> r" "0 \<le> c" "c < w"
    using w by (auto simp: r_def c_def pos_imp_zdiv_nonneg_iff)
  ultimately have "r * w < h * w" using rc by linarith
  then have "r < h" using w by simp
  then have "row_of xs w r ! nat c = xs ! i" "row_of ys w r ! nat c = ys ! i"
    using row_of_nth [OF assms(1), of r c] row_of_nth [OF assms(2), of r c] rc pos by auto
  with assms(3) pos(1) \<open>r < h\<close> show "xs ! i = ys ! i" by metis
qed

end
