(* ===== verification/Parsing.thy ===== *)
theory Parsing
  imports Utf8
begin

text \<open>
  The incremental parser (\<open>parsing/parser.go\<close>) between the host's bytes and the terminal's handlers.

  The escape-sequence state machine itself is the third-party package \<open>charmbracelet/x/ansi\<close>. It is a
  parameter of the model: \<open>ansi_lib\<close> collects the accessors and constants the code reads from it, and
  \<open>'p ansi_parser\<close> its state query \<open>State()\<close> and its byte step \<open>Advance\<close> with the callbacks it
  makes. What this package adds is modelled here: the conversion of commands and parameters, the
  dispatch to the handler, and \<open>protectString\<close>, which keeps UTF-8 text inside control strings from
  ending them early. \<open>New\<close> guards every callback by a nil check; the only client in the program,
  \<open>ansi.New\<close>, sets all of them, so every event is delivered.
\<close>

record command =
  cmd_prefix :: byte
  cmd_intermediate :: byte
  cmd_final :: byte

record parameter =
  par_value :: int
  par_present :: bool
  par_more :: bool

text \<open>The calls of \<open>parsing.Handler\<close>, as events in the order they are made.\<close>

datatype parser_event =
    Print rune
  | Execute byte
  | CSI command "parameter list"
  | Escape command
  | OSC int "byte list"
  | DCS command "parameter list" "byte list"
  | ControlString string

subsection \<open>The underlying parser, as a parameter\<close>

datatype parser_state =
    OscStringState | DcsStringState | SosStringState | PmStringState | ApcStringState | OtherState

datatype raw_event =
    RawPrint rune
  | RawExecute byte
  | HandleCsi int "int list"
  | HandleEsc int
  | HandleOsc int "byte list"
  | HandleDcs int "int list" "byte list"
  | HandlePm "byte list"
  | HandleApc "byte list"
  | HandleSos "byte list"

record ansi_lib =
  lib_prefix :: "int \<Rightarrow> byte"
  lib_intermediate :: "int \<Rightarrow> byte"
  lib_final :: "int \<Rightarrow> byte"
  lib_param :: "int list \<Rightarrow> nat \<Rightarrow> int \<Rightarrow> int \<times> bool \<times> bool"
  lib_param_mask :: int
  lib_missing_param :: int
  lib_missing_command :: int

record 'p ansi_parser =
  ap_state :: "'p \<Rightarrow> parser_state"
  ap_advance :: "'p \<Rightarrow> byte \<Rightarrow> 'p \<times> raw_event list"

record 'p parser =
  ps_parser :: 'p
  ps_continuation :: int

subsection \<open>Protecting control strings\<close>

definition stringPlaceholder :: byte where
  "stringPlaceholder = 0xFE"

definition protectString :: "parser_state \<Rightarrow> int \<Rightarrow> byte \<Rightarrow> int \<times> byte" where
  "protectString state cont b =
     (if state = OtherState then (0, b)
      else
        let finish = (\<lambda>cont'.
              if state = OscStringState \<or> state = DcsStringState
              then (cont', if b = 0x9C then stringPlaceholder else b)
              else (cont', 0x3F))
        in if cont > 0 \<and> b \<ge> 0x80 \<and> b \<le> 0xBF then finish (cont - 1)
           else if b \<ge> 0xC2 \<and> b \<le> 0xDF then finish 1
           else if b \<ge> 0xE0 \<and> b \<le> 0xEF then finish 2
           else if b \<ge> 0xF0 \<and> b \<le> 0xF4 then finish 3
           else (0, b))"

definition restorePlaceholders :: "byte list \<Rightarrow> byte list" where
  "restorePlaceholders data =
     (if stringPlaceholder \<notin> set data then data
      else map (\<lambda>b. if b = stringPlaceholder then 0x9C else b) data)"

subsection \<open>Conversions and dispatch\<close>

definition convertCommand :: "ansi_lib \<Rightarrow> int \<Rightarrow> command" where
  "convertCommand lib c =
     \<lparr>cmd_prefix = lib_prefix lib c, cmd_intermediate = lib_intermediate lib c,
      cmd_final = lib_final lib c\<rparr>"

definition convertParameters :: "ansi_lib \<Rightarrow> int list \<Rightarrow> parameter list" where
  "convertParameters lib ps =
     map (\<lambda>i. case lib_param lib ps i 0 of (v, subparameter, _) \<Rightarrow>
            \<lparr>par_value = v,
             par_present = ((ps ! i) AND lib_param_mask lib \<noteq> lib_missing_param lib),
             par_more = subparameter\<rparr>)
       [0..<length ps]"

text \<open>\<open>bytes.Cut(data, ";")\<close>: the part after the first semicolon, empty when there is none.\<close>

primrec cut_payload :: "byte list \<Rightarrow> byte list" where
  "cut_payload [] = []"
| "cut_payload (b # bs) = (if b = 0x3B then bs else cut_payload bs)"

fun dispatch :: "ansi_lib \<Rightarrow> raw_event \<Rightarrow> parser_event" where
  "dispatch lib (RawPrint r) = Print r"
| "dispatch lib (RawExecute b) = Execute b"
| "dispatch lib (HandleCsi c ps) = CSI (convertCommand lib c) (convertParameters lib ps)"
| "dispatch lib (HandleEsc c) = Escape (convertCommand lib c)"
| "dispatch lib (HandleOsc c data) =
     (let data' = restorePlaceholders data
      in if c = lib_missing_command lib then OSC (-1) data' else OSC c (cut_payload data'))"
| "dispatch lib (HandleDcs c ps data) =
     DCS (convertCommand lib c) (convertParameters lib ps) (restorePlaceholders data)"
| "dispatch lib (HandlePm _) = ControlString ''PM''"
| "dispatch lib (HandleApc _) = ControlString ''APC''"
| "dispatch lib (HandleSos _) = ControlString ''SOS''"

text \<open>
  \<open>Parser.Write\<close>: every byte is protected against the current state and advanced. It never fails and
  consumes all of its input. The handlers do not touch the parser, so the events can be collected
  first and applied to the terminal afterwards.
\<close>

primrec parserWrite ::
  "ansi_lib \<Rightarrow> 'p ansi_parser \<Rightarrow> 'p parser \<Rightarrow> byte list \<Rightarrow> 'p parser \<times> parser_event list" where
  "parserWrite lib ap p [] = (p, [])"
| "parserWrite lib ap p (b # bs) =
     (case protectString (ap_state ap (ps_parser p)) (ps_continuation p) b of
        (cont, b') \<Rightarrow>
          (case ap_advance ap (ps_parser p) b' of
             (inner, raw) \<Rightarrow>
               (case parserWrite lib ap \<lparr>ps_parser = inner, ps_continuation = cont\<rparr> bs of
                  (p', events) \<Rightarrow> (p', map (dispatch lib) raw @ events))))"

text \<open>Feeding the output in pieces is the same as feeding it at once.\<close>

lemma parserWrite_append:
  "parserWrite lib ap p (xs @ ys) =
     (case parserWrite lib ap p xs of
        (p', es) \<Rightarrow> case parserWrite lib ap p' ys of (p'', es') \<Rightarrow> (p'', es @ es'))"
  by (induction xs arbitrary: p) (auto split: prod.splits)

subsection \<open>UTF-8 text inside a control string\<close>

text \<open>The protected bytes of a text whose whole length is read in the same string state.\<close>

primrec protect_run :: "parser_state \<Rightarrow> int \<Rightarrow> byte list \<Rightarrow> int \<times> byte list" where
  "protect_run state cont [] = (cont, [])"
| "protect_run state cont (b # bs) =
     (case protectString state cont b of
        (cont', b') \<Rightarrow> (case protect_run state cont' bs of (cont'', bs') \<Rightarrow> (cont'', b' # bs')))"

lemma protect_run_append:
  "protect_run state cont (xs @ ys) =
     (case protect_run state cont xs of
        (cont', xs') \<Rightarrow> case protect_run state cont' ys of (cont'', ys') \<Rightarrow> (cont'', xs' @ ys'))"
  by (induction xs arbitrary: cont) (auto split: prod.splits)

definition utf8_bytes :: "rune list \<Rightarrow> byte list" where
  "utf8_bytes rs = concat (map (\<lambda>r. map of_nat (utf8_encode r)) rs)"

definition substitute :: "byte list \<Rightarrow> byte list" where
  "substitute bs = map (\<lambda>b. if b = 0x9C then stringPlaceholder else b) bs"

lemma byte_of_nat:
  fixes n m :: nat
  assumes "n < 256" "m < 256"
  shows "(of_nat n :: byte) \<le> of_nat m \<longleftrightarrow> n \<le> m"
    and "(of_nat n :: byte) = of_nat m \<longleftrightarrow> n = m"
  using assms by (simp_all add: word_le_nat_alt unat_of_nat word_unat_eq_iff)

text \<open>The classes of bytes \<open>protectString\<close> distinguishes, read on natural numbers below 256.\<close>

lemma protect_byte:
  assumes "n < 256" "state = OscStringState \<or> state = DcsStringState"
  shows "protectString state cont (of_nat n) =
     (let b = (if n = 0x9C then stringPlaceholder else of_nat n)
      in if cont > 0 \<and> 0x80 \<le> n \<and> n \<le> 0xBF then (cont - 1, b)
         else if 0xC2 \<le> n \<and> n \<le> 0xDF then (1, b)
         else if 0xE0 \<le> n \<and> n \<le> 0xEF then (2, b)
         else if 0xF0 \<le> n \<and> n \<le> 0xF4 then (3, b)
         else (0, of_nat n))"
proof -
  have le: "(of_nat n :: byte) \<le> numeral k \<longleftrightarrow> n \<le> numeral k"
    and ge: "numeral k \<le> (of_nat n :: byte) \<longleftrightarrow> numeral k \<le> n"
    and eq: "(of_nat n :: byte) = numeral k \<longleftrightarrow> n = numeral k"
    if "numeral k < (256 :: nat)" for k
    using that assms(1) byte_of_nat [of n "numeral k"] byte_of_nat [of "numeral k" n] by simp_all
  show ?thesis using assms(2)
    by (auto simp: protectString_def Let_def le ge eq)
qed

lemma encode_scalar_bytes:
  assumes "n \<le> 0x10FFFF" "b \<in> set (encode_scalar n)" shows "b < 256"
  using assms(1)
proof (cases n rule: nat_le_cases)
  case one then show ?thesis using assms(2) by (simp add: encode_scalar_def)
next
  case two
  then have "n div 64 < 32" by auto
  then show ?thesis using two assms(2) by (auto simp: encode_scalar_def intro: less_le_trans)
next
  case three
  then have "n div 4096 < 16" by auto
  then show ?thesis using three assms(2) by (auto simp: encode_scalar_def intro: less_le_trans)
next
  case four
  then have "n div 262144 < 5" by auto
  then show ?thesis using four assms(2) by (auto simp: encode_scalar_def intro: less_le_trans)
qed

lemma protect_run_encode:
  assumes "scalar_value r" "state = OscStringState \<or> state = DcsStringState"
  shows "protect_run state 0 (map of_nat (utf8_encode r)) = (0, substitute (map of_nat (utf8_encode r)))"
proof -
  define n where "n = nat r"
  have n: "n \<le> 0x10FFFF" "utf8_encode r = encode_scalar n"
    using assms(1) by (auto simp: n_def scalar_value_def utf8_encode_def)
  have sub: "n' < 256 \<Longrightarrow> (of_nat n' :: byte) = 0x9C \<longleftrightarrow> n' = 0x9C" for n' :: nat
    using byte_of_nat(2) [where n = n' and m = "0x9C"] by simp
  note pb = protect_byte [OF _ assms(2)]
  from n(1) show ?thesis unfolding n(2)
  proof (cases n rule: nat_le_cases)
    case one
    then show "protect_run state 0 (map of_nat (encode_scalar n)) =
        (0, substitute (map of_nat (encode_scalar n)))"
      using pb [of n 0] sub [of n] by (auto simp: encode_scalar_def substitute_def)
  next
    case two
    define a c where "a = n div 64" and "c = n mod 64"
    have bd: "2 \<le> a" "a < 32" "c < 64" using two by (auto simp: a_def c_def)
    have "encode_scalar n = [0xC0 + a, 0x80 + c]"
      using two by (simp add: encode_scalar_def a_def c_def)
    then show "protect_run state 0 (map of_nat (encode_scalar n)) =
        (0, substitute (map of_nat (encode_scalar n)))"
      using bd pb [of "0xC0 + a"] pb [of "0x80 + c"] sub [of "0xC0 + a"] sub [of "0x80 + c"]
      by (simp add: substitute_def Let_def del: of_nat_add of_nat_numeral)
  next
    case three
    define a b c where "a = n div 4096" and "b = n div 64 mod 64" and "c = n mod 64"
    have bd: "a < 16" "b < 64" "c < 64" using three by (auto simp: a_def b_def c_def)
    have "encode_scalar n = [0xE0 + a, 0x80 + b, 0x80 + c]"
      using three by (simp add: encode_scalar_def a_def b_def c_def)
    then show "protect_run state 0 (map of_nat (encode_scalar n)) =
        (0, substitute (map of_nat (encode_scalar n)))"
      using bd pb [of "0xE0 + a"] pb [of "0x80 + b"] pb [of "0x80 + c"]
        sub [of "0xE0 + a"] sub [of "0x80 + b"] sub [of "0x80 + c"]
      by (simp add: substitute_def Let_def del: of_nat_add of_nat_numeral)
  next
    case four
    define a b c d where "a = n div 262144" and "b = n div 4096 mod 64" and "c = n div 64 mod 64"
      and "d = n mod 64"
    have bd: "a < 5" "b < 64" "c < 64" "d < 64" using four by (auto simp: a_def b_def c_def d_def)
    have "encode_scalar n = [0xF0 + a, 0x80 + b, 0x80 + c, 0x80 + d]"
      using four by (simp add: encode_scalar_def a_def b_def c_def d_def)
    then show "protect_run state 0 (map of_nat (encode_scalar n)) =
        (0, substitute (map of_nat (encode_scalar n)))"
      using bd pb [of "0xF0 + a"] pb [of "0x80 + b"] pb [of "0x80 + c"] pb [of "0x80 + d"]
        sub [of "0xF0 + a"] sub [of "0x80 + b"] sub [of "0x80 + c"] sub [of "0x80 + d"]
      by (simp add: substitute_def Let_def del: of_nat_add of_nat_numeral)
  qed
qed

lemma protect_run_text:
  assumes "\<forall>r \<in> set rs. scalar_value r" "state = OscStringState \<or> state = DcsStringState"
  shows "protect_run state 0 (utf8_bytes rs) = (0, substitute (utf8_bytes rs))"
  using assms(1)
proof (induction rs)
  case (Cons r rs)
  then show ?case
    using protect_run_encode [of r state] assms(2)
    by (simp add: utf8_bytes_def protect_run_append) (simp add: substitute_def)
qed (simp add: utf8_bytes_def substitute_def)

text \<open>Neither the placeholder nor a byte below the text's first character occurs in UTF-8 text.\<close>

lemma encode_scalar_range:
  assumes "n \<le> 0x10FFFF" "b \<in> set (encode_scalar n)"
  shows "b \<le> 0xF4 \<and> (b = n \<or> 0x80 \<le> b)"
proof -
  have "n div 262144 \<le> 4" if "n \<le> 0x10FFFF" using that by auto
  moreover have "n div 4096 < 16" if "n \<le> 0xFFFF" using that by auto
  moreover have "n div 64 < 32" if "n \<le> 0x7FF" using that by auto
  moreover have "n mod 64 < 64" "n div 64 mod 64 < 64" "n div 4096 mod 64 < 64" by auto
  ultimately show ?thesis using assms
    by (auto simp: encode_scalar_def split: if_splits)
qed

lemma utf8_bytes_range:
  assumes "\<forall>r \<in> set rs. scalar_value r" "b \<in> set (utf8_bytes rs)"
  shows "b \<noteq> stringPlaceholder" and "(\<exists>r \<in> set rs. b = of_nat (nat r)) \<or> 0x80 \<le> b"
proof -
  obtain r n where r: "r \<in> set rs" and n: "n \<in> set (utf8_encode r)" and b: "b = of_nat n"
    using assms(2) by (auto simp: utf8_bytes_def)
  have sc: "scalar_value r" using assms(1) r by blast
  then have "n \<in> set (encode_scalar (nat r))" "nat r \<le> 0x10FFFF"
    using n by (auto simp: utf8_encode_def scalar_value_def)
  then have rng: "n \<le> 0xF4" "n = nat r \<or> 0x80 \<le> n" using encode_scalar_range by auto
  show "b \<noteq> stringPlaceholder"
    using rng(1) b byte_of_nat(2) [where n = n and m = "0xFE"] by (simp add: stringPlaceholder_def)
  show "(\<exists>r \<in> set rs. b = of_nat (nat r)) \<or> 0x80 \<le> b"
    using rng b r byte_of_nat(1) [where n = "0x80" and m = n] by auto
qed

lemma restore_substitute:
  assumes "stringPlaceholder \<notin> set bs"
  shows "restorePlaceholders (substitute bs) = bs"
proof -
  have "map (\<lambda>b. if b = stringPlaceholder then 0x9C else b) (substitute bs) = bs"
    using assms by (induction bs) (auto simp: substitute_def)
  moreover have "substitute bs = bs" if "stringPlaceholder \<notin> set (substitute bs)"
    using that by (induction bs) (auto simp: substitute_def)
  ultimately show ?thesis by (simp add: restorePlaceholders_def)
qed

text \<open>
  What the code relies on of \<open>x/ansi\<close> here: while it collects an OSC string and its buffer of \<open>cap\<close>
  bytes is not full, a printable byte other than the 8-bit terminator is appended to the buffer and
  nothing is dispatched.
\<close>

definition osc_collects :: "'p ansi_parser \<Rightarrow> ('p \<Rightarrow> byte list) \<Rightarrow> nat \<Rightarrow> bool" where
  "osc_collects ap data cap \<longleftrightarrow>
     (\<forall>p b. ap_state ap p = OscStringState \<longrightarrow> length (data p) < cap \<longrightarrow> 0x20 \<le> b \<longrightarrow> b \<noteq> 0x7F \<longrightarrow>
        b \<noteq> 0x9C \<longrightarrow>
        (case ap_advance ap p b of (p', es) \<Rightarrow>
           ap_state ap p' = OscStringState \<and> es = [] \<and> data p' = data p @ [b]))"

lemma parserWrite_osc:
  assumes "osc_collects ap data cap" "ap_state ap (ps_parser p) = OscStringState"
    and "protect_run OscStringState (ps_continuation p) bs = (c', bs')"
    and "\<forall>b \<in> set bs'. 0x20 \<le> b \<and> b \<noteq> 0x7F \<and> b \<noteq> 0x9C"
    and "length (data (ps_parser p)) + length bs \<le> cap"
  shows "\<exists>inner. parserWrite lib ap p bs = (\<lparr>ps_parser = inner, ps_continuation = c'\<rparr>, []) \<and>
     ap_state ap inner = OscStringState \<and> data inner = data (ps_parser p) @ bs'"
  using assms(2-)
proof (induction bs arbitrary: p bs')
  case Nil
  then show ?case by (cases p) auto
next
  case (Cons b bs)
  obtain c1 b1 where pr: "protectString OscStringState (ps_continuation p) b = (c1, b1)"
    by (cases "protectString OscStringState (ps_continuation p) b")
  obtain bs1 where run: "protect_run OscStringState c1 bs = (c', bs1)" "bs' = b1 # bs1"
    using Cons.prems(2) pr by (auto split: prod.splits)
  obtain inner es where adv: "ap_advance ap (ps_parser p) b1 = (inner, es)"
    by (cases "ap_advance ap (ps_parser p) b1")
  have ok: "ap_state ap inner = OscStringState" "es = []" "data inner = data (ps_parser p) @ [b1]"
    using assms(1) Cons.prems(1,3,4) run(2) adv
    by (auto simp: osc_collects_def dest!: spec [of _ "ps_parser p"] spec [of _ b1])
  have "\<exists>inner'. parserWrite lib ap \<lparr>ps_parser = inner, ps_continuation = c1\<rparr> bs =
      (\<lparr>ps_parser = inner', ps_continuation = c'\<rparr>, []) \<and>
      ap_state ap inner' = OscStringState \<and> data inner' = data inner @ bs1"
    using Cons.IH [of "\<lparr>ps_parser = inner, ps_continuation = c1\<rparr>" bs1] Cons.prems(3,4) run ok
    by simp
  then show ?case using pr adv ok run(2) Cons.prems(1) by auto
qed

end
