(* ===== verification/Terminal.thy ===== *)
theory Terminal
  imports Screens Parsing
begin

text \<open>
  The emulator's state and cell primitives (\<open>ansi/terminal.go\<close>): \<open>Terminal\<close>, \<open>screenBuffer\<close>, \<open>New\<close>,
  snapshots, events and answerback, blank cells, rows, and \<open>Resize\<close>.

  The pointer \<open>active\<close> is the datatype \<open>which\<close>; the nil cell slice of an alternate buffer that was never
  entered is the empty list (a buffer in use has \<open>width * height > 0\<close> cells). A method that indexes
  the cells returns an \<open>option\<close>, \<open>None\<close> being a Go panic. The mutex makes every exported method atomic,
  so a method is one step. \<open>width\<close> of a character is the third-party \<open>xansi.StringWidth\<close>, a parameter
  \<open>sw\<close> of the operations that print.
\<close>

datatype profile = VT220 | XTerm | UnknownProfile nat

datatype event_type = EventBell | EventEnquiry | EventUnsupported

record terminal_event =
  ev_sequence :: nat
  ev_type :: event_type
  ev_data :: string

record screenBuffer =
  buf_cells :: "cell list"
  buf_cursor :: cursor
  buf_saved :: cursor

datatype which = Main | Alternate

record terminal =
  tm_terminal_type :: string
  tm_profile_name :: string
  tm_xterm :: bool
  tm_width :: int
  tm_height :: int
  tm_main :: screenBuffer
  tm_alternate :: screenBuffer
  tm_active :: which
  tm_style :: cell
  tm_revision :: nat
  tm_wrap_pending :: bool
  tm_auto_wrap :: bool
  tm_application_cursor :: bool
  tm_insert_mode :: bool
  tm_scroll_top :: int
  tm_scroll_bottom :: int
  tm_charsets :: "bool \<times> bool"
  tm_charset :: int
  tm_answerback :: string
  tm_events :: "terminal_event list"
  tm_title :: string

definition zero_buffer :: screenBuffer where
  "zero_buffer = \<lparr>buf_cells = [], buf_cursor = zero_cursor, buf_saved = zero_cursor\<rparr>"

definition visible_cursor :: "bool \<Rightarrow> cursor" where
  "visible_cursor v = \<lparr>cur_column = 0, cur_row = 0, cur_visible = v\<rparr>"

subsection \<open>The active buffer\<close>

definition active_buffer :: "terminal \<Rightarrow> screenBuffer" where
  "active_buffer t = (case tm_active t of Main \<Rightarrow> tm_main t | Alternate \<Rightarrow> tm_alternate t)"

definition map_active :: "(screenBuffer \<Rightarrow> screenBuffer) \<Rightarrow> terminal \<Rightarrow> terminal" where
  "map_active f t =
     (case tm_active t of
        Main \<Rightarrow> t\<lparr>tm_main := f (tm_main t)\<rparr>
      | Alternate \<Rightarrow> t\<lparr>tm_alternate := f (tm_alternate t)\<rparr>)"

definition cells :: "terminal \<Rightarrow> cell list" where
  "cells t = buf_cells (active_buffer t)"

definition set_cells :: "cell list \<Rightarrow> terminal \<Rightarrow> terminal" where
  "set_cells cs t = map_active (\<lambda>b. b\<lparr>buf_cells := cs\<rparr>) t"

definition cursor_of :: "terminal \<Rightarrow> cursor" where
  "cursor_of t = buf_cursor (active_buffer t)"

definition set_cursor :: "cursor \<Rightarrow> terminal \<Rightarrow> terminal" where
  "set_cursor c t = map_active (\<lambda>b. b\<lparr>buf_cursor := c\<rparr>) t"

definition column :: "terminal \<Rightarrow> int" where
  "column t = cur_column (cursor_of t)"

definition cursor_row :: "terminal \<Rightarrow> int" where
  "cursor_row t = cur_row (cursor_of t)"

definition set_column :: "int \<Rightarrow> terminal \<Rightarrow> terminal" where
  "set_column c t = set_cursor ((cursor_of t)\<lparr>cur_column := c\<rparr>) t"

definition set_row :: "int \<Rightarrow> terminal \<Rightarrow> terminal" where
  "set_row r t = set_cursor ((cursor_of t)\<lparr>cur_row := r\<rparr>) t"

definition changed :: "terminal \<Rightarrow> terminal" where
  "changed t = t\<lparr>tm_revision := tm_revision t + 1\<rparr>"

subsection \<open>Cells\<close>

definition defaultCell :: cell where
  "defaultCell = \<lparr>cell_text = '' '', cell_width = 1, cell_foreground = DefaultColor,
     cell_background = DefaultColor, cell_attributes = 0\<rparr>"

definition blankCell :: "terminal \<Rightarrow> cell" where
  "blankCell t = (tm_style t)\<lparr>cell_text := '' '', cell_width := 1\<rparr>"

text \<open>\<open>make\<close> panics on a negative length and on one the runtime can not allocate.\<close>

definition blankCells :: "int \<Rightarrow> terminal \<Rightarrow> cell list option" where
  "blankCells count t = (if count > maxCells then None else make_slice count (blankCell t))"

text \<open>\<open>row(r)\<close> is a view of the cells; code that edits the view is a read, an edit and \<open>write_row\<close>.\<close>

definition row :: "int \<Rightarrow> terminal \<Rightarrow> cell list option" where
  "row r t = (let start = go_int (r * tm_width t)
              in slice (cells t) start (go_int (start + tm_width t)))"

definition write_row :: "int \<Rightarrow> cell list \<Rightarrow> terminal \<Rightarrow> terminal option" where
  "write_row r line t =
     (let start = go_int (r * tm_width t)
      in do { cs \<leftarrow> copy_into (cells t) start (go_int (start + tm_width t)) line;
              Some (set_cells cs t) })"

text \<open>\<open>copy(t.row(destination), t.row(source))\<close>\<close>

definition copy_row :: "int \<Rightarrow> int \<Rightarrow> terminal \<Rightarrow> terminal option" where
  "copy_row destination source t = do { line \<leftarrow> row source t; write_row destination line t }"

definition clearRow :: "int \<Rightarrow> terminal \<Rightarrow> terminal option" where
  "clearRow r t = do { blanks \<leftarrow> blankCells (tm_width t) t; write_row r blanks t }"

definition normalize_step :: "cell \<Rightarrow> int \<Rightarrow> cell list \<Rightarrow> cell list option" where
  "normalize_step blank c line =
     do { x \<leftarrow> get_at line c;
          if cell_width x = 0 then
            (if c = 0 then set_at line c blank
             else do { p \<leftarrow> get_at line (c - 1);
                       if cell_width p \<noteq> 2 then set_at line c blank else Some line })
          else if cell_width x = 2 then
            (if c + 1 \<ge> int (length line) then set_at line c blank
             else do { n \<leftarrow> get_at line (c + 1);
                       if cell_width n \<noteq> 0 then set_at line c blank else Some line })
          else Some line }"

definition normalizeCells :: "cell \<Rightarrow> cell list \<Rightarrow> cell list option" where
  "normalizeCells blank line = for_each [0..int (length line) - 1] (normalize_step blank) line"

subsection \<open>Construction\<close>

definition profileSettings :: "profile \<Rightarrow> (string \<times> string \<times> bool) option" where
  "profileSettings p =
     (case p of
        VT220 \<Rightarrow> Some (''vt220'', ''VT220'', False)
      | XTerm \<Rightarrow> Some (''xterm-256color'', ''xterm'', True)
      | UnknownProfile _ \<Rightarrow> None)"

datatype terminal_error =
    CreatingDimensions | UnknownProfileError | ResizingDimensions
  | AnswerbackTooLong | AnswerbackNotPrintable

text \<open>\<open>New\<close>. The outer \<open>option\<close> is a panic, the inner sum the error result.\<close>

definition New :: "int \<Rightarrow> int \<Rightarrow> profile \<Rightarrow> (terminal_error + terminal) option" where
  "New width height p =
     (if width \<le> 0 \<or> height \<le> 0 then Some (Inl CreatingDimensions)
      else case profileSettings p of
        None \<Rightarrow> Some (Inl UnknownProfileError)
      | Some (terminalType, profileName, xterm) \<Rightarrow>
          (let t = \<lparr>tm_terminal_type = terminalType, tm_profile_name = profileName, tm_xterm = xterm,
                tm_width = width, tm_height = height, tm_main = zero_buffer, tm_alternate = zero_buffer,
                tm_active = Main, tm_style = defaultCell, tm_revision = 0, tm_wrap_pending = False,
                tm_auto_wrap = True, tm_application_cursor = False, tm_insert_mode = False,
                tm_scroll_top = 0, tm_scroll_bottom = height - 1, tm_charsets = (False, False),
                tm_charset = 0, tm_answerback = [], tm_events = [], tm_title = []\<rparr>
           in do { cs \<leftarrow> blankCells (go_int (width * height)) t;
                   Some (Inr (t\<lparr>tm_main := \<lparr>buf_cells = cs, buf_cursor = visible_cursor True,
                                            buf_saved = zero_cursor\<rparr>\<rparr>)) }))"

subsection \<open>Queries, events and answerback\<close>

definition Snapshot :: "terminal \<Rightarrow> screen" where
  "Snapshot t = \<lparr>scr_width = tm_width t, scr_height = tm_height t, scr_cells = cells t,
     scr_cursor = cursor_of t, scr_revision = tm_revision t, scr_title = tm_title t\<rparr>"

definition Revision :: "terminal \<Rightarrow> nat" where
  "Revision t = tm_revision t"

definition emit :: "event_type \<Rightarrow> string \<Rightarrow> terminal \<Rightarrow> terminal" where
  "emit ty d t = t\<lparr>tm_events := tm_events t @ [\<lparr>ev_sequence = 0, ev_type = ty, ev_data = d\<rparr>]\<rparr>"

definition unsupported :: "string \<Rightarrow> terminal \<Rightarrow> terminal" where
  "unsupported sequence t = emit EventUnsupported sequence t"

definition DrainEvents :: "terminal \<Rightarrow> terminal_event list \<times> terminal" where
  "DrainEvents t = (tm_events t, t\<lparr>tm_events := []\<rparr>)"

definition SetAnswerback :: "string \<Rightarrow> terminal \<Rightarrow> terminal_error + terminal" where
  "SetAnswerback answerback t =
     (if length answerback > 20 then Inl AnswerbackTooLong
      else if \<exists>c \<in> set answerback. (of_char c :: nat) < 0x20 \<or> (of_char c :: nat) > 0x7E
      then Inl AnswerbackNotPrintable
      else Inr (t\<lparr>tm_answerback := answerback\<rparr>))"

subsection \<open>Resizing\<close>

definition clamp_cursor :: "int \<Rightarrow> int \<Rightarrow> cursor \<Rightarrow> cursor" where
  "clamp_cursor width height c =
     c\<lparr>cur_column := min (cur_column c) (width - 1), cur_row := min (cur_row c) (height - 1)\<rparr>"

definition resize_row ::
  "terminal \<Rightarrow> screenBuffer \<Rightarrow> int \<Rightarrow> int \<Rightarrow> int \<Rightarrow> cell list \<Rightarrow> cell list option" where
  "resize_row t buffer width copyWidth r cs =
     do { old \<leftarrow> slice (buf_cells buffer) (go_int (r * tm_width t)) (go_int (r * tm_width t + copyWidth));
          cs1 \<leftarrow> copy_into cs (go_int (r * width)) (go_int (r * width + copyWidth)) old;
          line \<leftarrow> slice cs1 (go_int (r * width)) (go_int ((r + 1) * width));
          line' \<leftarrow> normalizeCells (blankCell t) line;
          copy_into cs1 (go_int (r * width)) (go_int ((r + 1) * width)) line' }"

definition resizeBuffer ::
  "terminal \<Rightarrow> screenBuffer \<Rightarrow> int \<Rightarrow> int \<Rightarrow> screenBuffer option" where
  "resizeBuffer t buffer width height =
     do { blanks \<leftarrow> blankCells (go_int (width * height)) t;
          cs \<leftarrow> for_each [0..min height (tm_height t) - 1]
                  (resize_row t buffer width (min width (tm_width t))) blanks;
          Some (buffer\<lparr>buf_cells := cs,
                  buf_cursor := clamp_cursor width height (buf_cursor buffer),
                  buf_saved := clamp_cursor width height (buf_saved buffer)\<rparr>) }"

definition Resize :: "int \<Rightarrow> int \<Rightarrow> terminal \<Rightarrow> (terminal_error + terminal) option" where
  "Resize width height t =
     (if width \<le> 0 \<or> height \<le> 0 then Some (Inl ResizingDimensions)
      else if width = tm_width t \<and> height = tm_height t then Some (Inr t)
      else do { m \<leftarrow> resizeBuffer t (tm_main t) width height;
                a \<leftarrow> (if buf_cells (tm_alternate t) \<noteq> []
                      then resizeBuffer t (tm_alternate t) width height
                      else Some (tm_alternate t));
                Some (Inr (t\<lparr>tm_main := m, tm_alternate := a, tm_width := width, tm_height := height,
                             tm_scroll_top := 0, tm_scroll_bottom := height - 1,
                             tm_wrap_pending := False, tm_revision := tm_revision t + 1\<rparr>)) })"

end
