(* ===== verification/Terminal_Edit.thy ===== *)
theory Terminal_Edit
  imports Terminal
begin

text \<open>
  The editing operations of the emulator (\<open>ansi/terminal.go\<close>): printing with wide and combining
  characters, line feed and scrolling, insertion, deletion and erasure of characters and lines.
\<close>

subsection \<open>Scrolling\<close>

definition scrollUp :: "terminal \<Rightarrow> terminal option" where
  "scrollUp t =
     do { t' \<leftarrow> for_each [tm_scroll_top t..tm_scroll_bottom t - 1] (\<lambda>r. copy_row r (r + 1)) t;
          clearRow (tm_scroll_bottom t) t' }"

definition lineFeed :: "terminal \<Rightarrow> terminal option" where
  "lineFeed t =
     do { t' \<leftarrow> (if cursor_row t = tm_scroll_bottom t then scrollUp t
                 else if cursor_row t < tm_height t - 1 then Some (set_row (cursor_row t + 1) t)
                 else Some t);
          Some (changed t') }"

definition reverseIndex :: "terminal \<Rightarrow> terminal option" where
  "reverseIndex t =
     do { t' \<leftarrow> (if cursor_row t = tm_scroll_top t
                 then do { t1 \<leftarrow> for_each (rev [tm_scroll_top t + 1..tm_scroll_bottom t])
                                   (\<lambda>r. copy_row r (r - 1)) t;
                           clearRow (tm_scroll_top t) t1 }
                 else if cursor_row t > 0 then Some (set_row (cursor_row t - 1) t)
                 else Some t);
          Some (changed t') }"

subsection \<open>Characters\<close>

definition insertCharacters :: "int \<Rightarrow> terminal \<Rightarrow> terminal option" where
  "insertCharacters n t =
     (let c = column t; w = tm_width t; count = min (max 1 n) (w - c)
      in do { line \<leftarrow> row (cursor_row t) t;
              src \<leftarrow> slice line c (w - count);
              line1 \<leftarrow> copy_into line (c + count) (int (length line)) src;
              blanks \<leftarrow> blankCells count t;
              line2 \<leftarrow> copy_into line1 c (c + count) blanks;
              line3 \<leftarrow> normalizeCells (blankCell t) line2;
              t' \<leftarrow> write_row (cursor_row t) line3 t;
              Some (changed t') })"

definition deleteCharacters :: "int \<Rightarrow> terminal \<Rightarrow> terminal option" where
  "deleteCharacters n t =
     (let c = column t; w = tm_width t; count = min (max 1 n) (w - c)
      in do { line \<leftarrow> row (cursor_row t) t;
              src \<leftarrow> slice line (c + count) (int (length line));
              line1 \<leftarrow> copy_into line c (int (length line)) src;
              blanks \<leftarrow> blankCells count t;
              line2 \<leftarrow> copy_into line1 (w - count) (int (length line1)) blanks;
              line3 \<leftarrow> normalizeCells (blankCell t) line2;
              t' \<leftarrow> write_row (cursor_row t) line3 t;
              Some (changed t') })"

text \<open>A loop that blanks the cells \<open>start, \<dots>, end - 1\<close>.\<close>

definition blank_range :: "int \<Rightarrow> int \<Rightarrow> terminal \<Rightarrow> terminal option" where
  "blank_range start stop t =
     do { cs \<leftarrow> for_each [start..stop - 1] (\<lambda>i cs. set_at cs i (blankCell t)) (cells t);
          Some (set_cells cs t) }"

definition eraseCharacters :: "int \<Rightarrow> terminal \<Rightarrow> terminal option" where
  "eraseCharacters n t =
     (let count = min (max 1 n) (tm_width t - column t);
          start = go_int (cursor_row t * tm_width t + column t)
      in do { t' \<leftarrow> blank_range start (start + count) t; Some (changed t') })"

definition eraseLine :: "int \<Rightarrow> terminal \<Rightarrow> terminal option" where
  "eraseLine mode t =
     (let start = go_int (cursor_row t * tm_width t); stop = go_int (start + tm_width t)
      in if mode = 0 then do { t' \<leftarrow> blank_range (start + column t) stop t; Some (changed t') }
         else if mode = 1 then do { t' \<leftarrow> blank_range start (start + column t + 1) t; Some (changed t') }
         else if mode = 2 then do { t' \<leftarrow> blank_range start stop t; Some (changed t') }
         else Some t)"

definition eraseDisplay :: "int \<Rightarrow> terminal \<Rightarrow> terminal option" where
  "eraseDisplay mode t =
     (let cur = go_int (cursor_row t * tm_width t + column t); n = int (length (cells t))
      in if mode = 0 then do { t' \<leftarrow> blank_range cur n t; Some (changed t') }
         else if mode = 1 then do { t' \<leftarrow> blank_range 0 (cur + 1) t; Some (changed t') }
         else if mode = 2 then do { t' \<leftarrow> blank_range 0 n t; Some (changed t') }
         else if mode = 3 then
           (if \<not> tm_xterm t then Some t
            else do { t' \<leftarrow> blank_range 0 n t; Some (changed t') })
         else Some t)"

subsection \<open>Lines\<close>

definition insertLines :: "int \<Rightarrow> terminal \<Rightarrow> terminal option" where
  "insertLines n t =
     (let r = cursor_row t; bottom = tm_scroll_bottom t
      in if r < tm_scroll_top t \<or> r > bottom then Some t
         else (let count = min (max 1 n) (bottom - r + 1)
               in do { t1 \<leftarrow> for_each (rev [r + count..bottom]) (\<lambda>d. copy_row d (d - count)) t;
                       t2 \<leftarrow> for_each [r..r + count - 1] clearRow t1;
                       Some (changed t2) }))"

definition deleteLines :: "int \<Rightarrow> terminal \<Rightarrow> terminal option" where
  "deleteLines n t =
     (let r = cursor_row t; bottom = tm_scroll_bottom t
      in if r < tm_scroll_top t \<or> r > bottom then Some t
         else (let count = min (max 1 n) (bottom - r + 1)
               in do { t1 \<leftarrow> for_each [r..bottom - count] (\<lambda>d. copy_row d (d + count)) t;
                       t2 \<leftarrow> for_each [bottom - count + 1..bottom] clearRow t1;
                       Some (changed t2) }))"

subsection \<open>Printing\<close>

text \<open>\<open>decSpecialGraphics\<close>: the line-drawing characters of the DEC special graphics set.\<close>

definition special_graphics :: "(rune \<times> rune) list" where
  "special_graphics =
     [(0x6A, 0x2518), (0x6B, 0x2510), (0x6C, 0x250C), (0x6D, 0x2514), (0x6E, 0x253C), (0x71, 0x2500),
      (0x74, 0x251C), (0x75, 0x2524), (0x76, 0x2534), (0x77, 0x252C), (0x78, 0x2502)]"

definition decSpecialGraphics :: "rune \<Rightarrow> rune" where
  "decSpecialGraphics r = (case map_of special_graphics r of Some m \<Rightarrow> m | None \<Rightarrow> r)"

text \<open>The indexing \<open>charsets[charset]\<close> of an array of two.\<close>

definition current_charset :: "terminal \<Rightarrow> bool option" where
  "current_charset t =
     (if tm_charset t = 0 then Some (fst (tm_charsets t))
      else if tm_charset t = 1 then Some (snd (tm_charsets t)) else None)"

text \<open>\<open>line[c - 1]\<close> is read only behind the test \<open>c > 0\<close>, as Go's \<open>&&\<close> does.\<close>

definition clearWideCharacterAt :: "int \<Rightarrow> int \<Rightarrow> terminal \<Rightarrow> terminal option" where
  "clearWideCharacterAt r c t =
     (if c < 0 \<or> c \<ge> tm_width t then Some t
      else do {
        line \<leftarrow> row r t;
        x \<leftarrow> get_at line c;
        if cell_width x = 0 then
          do { wide \<leftarrow> (if c > 0 then do { p \<leftarrow> get_at line (c - 1); Some (cell_width p = 2) }
                       else Some False);
               line1 \<leftarrow> (if wide then set_at line (c - 1) (blankCell t) else Some line);
               line2 \<leftarrow> set_at line1 c (blankCell t);
               write_row r line2 t }
        else if cell_width x = 2 then
          do { line1 \<leftarrow> set_at line c (blankCell t);
               half \<leftarrow> (if c + 1 < tm_width t
                       then do { n \<leftarrow> get_at line1 (c + 1); Some (cell_width n = 0) }
                       else Some False);
               line2 \<leftarrow> (if half then set_at line1 (c + 1) (blankCell t) else Some line1);
               write_row r line2 t }
        else Some t })"

text \<open>
  The backward search of \<open>appendCombining\<close> for the cell that carries the base character: the loop
  runs while \<open>index >= 0\<close> and the cell is a continuation.
\<close>

function base_index :: "cell list \<Rightarrow> int \<Rightarrow> int option" where
  "base_index cs index =
     (if index < 0 then Some index
      else do { x \<leftarrow> get_at cs index;
                if cell_width x = 0 then base_index cs (index - 1) else Some index })"
  by pat_completeness auto
termination
  by (relation "measure (\<lambda>(cs, index). nat (index + 1))") auto

declare base_index.simps [simp del]

definition appendCombining :: "rune \<Rightarrow> terminal \<Rightarrow> terminal option" where
  "appendCombining r t =
     (let c = (if tm_wrap_pending t then column t else column t - 1)
      in if c < 0 then Some t
         else (let start = go_int (cursor_row t * tm_width t + c)
               in do { index \<leftarrow> base_index (cells t) start;
                       if index \<ge> 0 then
                         do { x \<leftarrow> get_at (cells t) index;
                              cs \<leftarrow> set_at (cells t) index
                                     (x\<lparr>cell_text := cell_text x @ rune_string r\<rparr>);
                              Some (changed (set_cells cs t)) }
                       else Some t }))"

text \<open>The width of a character: 1 on a VT220, the third-party measure on xterm, 1 if that is odd.\<close>

definition rune_width :: "(string \<Rightarrow> int) \<Rightarrow> terminal \<Rightarrow> rune \<Rightarrow> int" where
  "rune_width sw t r =
     (if tm_xterm t
      then (let v = sw (rune_string r) in if v < 0 \<or> v > 2 then 1 else v)
      else 1)"

text \<open>The pending wrap, and the wrap of a wide character that does not fit the last column.\<close>

definition wrap_before :: "int \<Rightarrow> terminal \<Rightarrow> terminal option" where
  "wrap_before width t =
     (if tm_wrap_pending t \<or> (width = 2 \<and> column t = tm_width t - 1 \<and> tm_auto_wrap t)
      then do { t' \<leftarrow> (if tm_auto_wrap t then lineFeed (set_column 0 t) else Some t);
                Some (t'\<lparr>tm_wrap_pending := False\<rparr>) }
      else Some t)"

text \<open>Writing a character of width 1 or 2 at the cursor and advancing the cursor.\<close>

definition put_character :: "rune \<Rightarrow> int \<Rightarrow> terminal \<Rightarrow> terminal option" where
  "put_character r width t =
     (let c = column t; rw = cursor_row t
      in do {
        t1 \<leftarrow> clearWideCharacterAt rw c t;
        t2 \<leftarrow> (if width = 2 then clearWideCharacterAt rw (c + 1) t1 else Some t1);
        cs1 \<leftarrow> set_at (cells t2) (go_int (rw * tm_width t2 + c))
                 ((tm_style t2)\<lparr>cell_text := rune_string r, cell_width := width\<rparr>);
        cs2 \<leftarrow> (if width = 2
                then set_at cs1 (go_int (rw * tm_width t2 + c + 1))
                       ((tm_style t2)\<lparr>cell_text := [], cell_width := 0\<rparr>)
                else Some cs1);
        let t3 = set_cells cs2 t2;
            stop = c + width;
            t4 = (if stop \<ge> tm_width t3
                  then (set_column (tm_width t3 - 1) t3)\<lparr>tm_wrap_pending := tm_auto_wrap t3\<rparr>
                  else set_column stop t3)
        in Some (changed t4) })"

definition print :: "(string \<Rightarrow> int) \<Rightarrow> rune \<Rightarrow> terminal \<Rightarrow> terminal option" where
  "print sw r0 t =
     do { special \<leftarrow> current_charset t;
          let r = (if special then decSpecialGraphics r0 else r0);
              v = rune_width sw t r
          in if v = 0 then appendCombining r t
             else (let v1 = (if v > tm_width t then 1 else v)
                   in do { t1 \<leftarrow> wrap_before v1 t;
                           let v2 = (if v1 = 2 \<and> column t1 = tm_width t1 - 1 then 1 else v1)
                           in do { t2 \<leftarrow> (if tm_insert_mode t1 then insertCharacters v2 t1 else Some t1);
                                   put_character r v2 t2 } }) }"

end
