(* ===== verification/Terminal_Control.thy ===== *)
theory Terminal_Control
  imports Terminal_Edit
begin

text \<open>
  The control functions of the emulator (\<open>ansi/terminal.go\<close>): C0 controls, escape sequences, CSI
  sequences with their modes, graphic rendition and scroll region, OSC titles, the notation of
  unsupported sequences, and \<open>Write\<close>, which applies the parser's events in order.
\<close>

subsection \<open>Text formatting\<close>

definition digit :: "nat \<Rightarrow> char" where
  "digit n = char_of (48 + n)"

fun show_nat :: "nat \<Rightarrow> string" where
  "show_nat n = (if n < 10 then [digit n] else show_nat (n div 10) @ [digit (n mod 10)])"

declare show_nat.simps [simp del]

text \<open>\<open>strconv.Itoa\<close> and the verb \<open>%d\<close>\<close>

definition itoa :: "int \<Rightarrow> string" where
  "itoa i = (if i < 0 then CHR ''-'' # show_nat (nat (- i)) else show_nat (nat i))"

definition hex_digit :: "nat \<Rightarrow> char" where
  "hex_digit n = (if n < 10 then digit n else char_of (55 + n))"

text \<open>The verb \<open>%02X\<close> on a byte\<close>

definition hex_byte :: "byte \<Rightarrow> string" where
  "hex_byte b = [hex_digit (unat b div 16), hex_digit (unat b mod 16)]"

definition byte_char :: "byte \<Rightarrow> char" where
  "byte_char b = char_of (unat b)"

primrec describe_parameters :: "parameter list \<Rightarrow> string" where
  "describe_parameters [] = []"
| "describe_parameters (p # ps) =
     (if par_present p then itoa (par_value p) else []) @
     (if ps = [] then [] else if par_more p then '':'' else '';'') @
     describe_parameters ps"

definition describe :: "string \<Rightarrow> command \<Rightarrow> parameter list \<Rightarrow> string" where
  "describe introducer c ps =
     introducer @
     (if cmd_prefix c \<noteq> 0 then [CHR '' '', byte_char (cmd_prefix c)] else []) @
     (if ps \<noteq> [] then CHR '' '' # describe_parameters ps else []) @
     (if cmd_intermediate c \<noteq> 0 then [CHR '' '', byte_char (cmd_intermediate c)] else []) @
     [CHR '' '', byte_char (cmd_final c)]"

subsection \<open>Controls\<close>

definition execute :: "byte \<Rightarrow> terminal \<Rightarrow> terminal option" where
  "execute control t =
     (if control = 0x05 then Some (emit EventEnquiry (tm_answerback t) t)
      else if control = 0x07 then Some (emit EventBell [] t)
      else if control = 0x08 then
        Some (changed ((set_column (max 0 (column t - 1)) t)\<lparr>tm_wrap_pending := False\<rparr>))
      else if control = 0x09 then
        Some (changed ((set_column (min ((column t div 8 + 1) * 8) (tm_width t - 1)) t)
                         \<lparr>tm_wrap_pending := False\<rparr>))
      else if control = 0x0A \<or> control = 0x0B \<or> control = 0x0C then
        do { t' \<leftarrow> lineFeed t; Some (t'\<lparr>tm_wrap_pending := False\<rparr>) }
      else if control = 0x0D then
        Some (changed ((set_column 0 t)\<lparr>tm_wrap_pending := False\<rparr>))
      else if control = 0x0E then Some (t\<lparr>tm_charset := 1\<rparr>)
      else if control = 0x0F then Some (t\<lparr>tm_charset := 0\<rparr>)
      else if control \<ge> 0x80 then Some (unsupported (''C1 0x'' @ hex_byte control) t)
      else Some t)"

definition reset :: "terminal \<Rightarrow> terminal option" where
  "reset t =
     (let t1 = t\<lparr>tm_style := defaultCell\<rparr>
      in do { cs \<leftarrow> blankCells (go_int (tm_width t * tm_height t)) t1;
              Some (changed (t1\<lparr>
                tm_main := \<lparr>buf_cells = cs, buf_cursor = visible_cursor True, buf_saved = zero_cursor\<rparr>,
                tm_alternate := zero_buffer, tm_active := Main, tm_scroll_top := 0,
                tm_scroll_bottom := tm_height t - 1, tm_wrap_pending := False, tm_auto_wrap := True,
                tm_application_cursor := False, tm_insert_mode := False,
                tm_charsets := (False, False), tm_charset := 0\<rparr>)) })"

definition handleEscape :: "command \<Rightarrow> terminal \<Rightarrow> terminal option" where
  "handleEscape c t =
     (let i = cmd_intermediate c; f = cmd_final c
      in if i = 0x28 \<and> (f = 0x30 \<or> f = 0x42) then
           Some (t\<lparr>tm_charsets := (f = 0x30, snd (tm_charsets t))\<rparr>)
         else if i = 0x29 \<and> (f = 0x30 \<or> f = 0x42) then
           Some (t\<lparr>tm_charsets := (fst (tm_charsets t), f = 0x30)\<rparr>)
         else if i \<noteq> 0 then Some (unsupported (describe ''ESC'' c []) t)
         else if f = 0x37 then Some (map_active (\<lambda>b. b\<lparr>buf_saved := buf_cursor b\<rparr>) t)
         else if f = 0x38 then
           Some (changed ((map_active (\<lambda>b. b\<lparr>buf_cursor := buf_saved b\<rparr>) t)\<lparr>tm_wrap_pending := False\<rparr>))
         else if f = 0x44 then lineFeed t
         else if f = 0x45 then lineFeed (set_column 0 t)
         else if f = 0x4D then reverseIndex t
         else if f = 0x63 then reset t
         else if f = 0x3D \<or> f = 0x3E then Some t
         else if f = 0x5C then Some t
         else Some (unsupported (describe ''ESC'' c []) t))"

subsection \<open>Operating system commands\<close>

definition handleOSC :: "int \<Rightarrow> byte list \<Rightarrow> terminal \<Rightarrow> terminal" where
  "handleOSC c data t =
     (if tm_xterm t \<and> (c = 0 \<or> c = 2) then
        (let title = map char_of (to_valid_utf8 (map unat data))
         in if title \<noteq> tm_title t then changed (t\<lparr>tm_title := title\<rparr>) else t)
      else if tm_xterm t \<and> c = 1 then t
      else if c < 0 then unsupported ''OSC'' t
      else unsupported (''OSC '' @ itoa c) t)"

subsection \<open>CSI parameters, modes and the alternate screen\<close>

definition param :: "parameter list \<Rightarrow> nat \<Rightarrow> int \<Rightarrow> int" where
  "param ps index fallback =
     (if index \<ge> length ps \<or> \<not> par_present (ps ! index) \<or> par_value (ps ! index) = 0 then fallback
      else par_value (ps ! index))"

definition cursorChanged :: "terminal \<Rightarrow> terminal" where
  "cursorChanged t = changed (t\<lparr>tm_wrap_pending := False\<rparr>)"

definition enterAlternate :: "bool \<Rightarrow> terminal \<Rightarrow> terminal option" where
  "enterAlternate clear t =
     (if tm_active t = Alternate then
        (if clear then
           do { cs \<leftarrow> blankCells (go_int (tm_width t * tm_height t)) t;
                Some (t\<lparr>tm_alternate := (tm_alternate t)\<lparr>buf_cells := cs, buf_cursor := visible_cursor True\<rparr>\<rparr>) }
         else Some t)
      else
        do { t' \<leftarrow> (if buf_cells (tm_alternate t) = [] \<or> clear then
                    do { cs \<leftarrow> blankCells (go_int (tm_width t * tm_height t)) t;
                         Some (t\<lparr>tm_alternate := \<lparr>buf_cells = cs,
                            buf_cursor = visible_cursor (cur_visible (buf_cursor (tm_main t))),
                            buf_saved = zero_cursor\<rparr>\<rparr>) }
                   else Some t);
             Some (changed (t'\<lparr>tm_active := Alternate, tm_wrap_pending := False\<rparr>)) })"

definition exitAlternate :: "terminal \<Rightarrow> terminal" where
  "exitAlternate t =
     (if tm_active t \<noteq> Alternate then t
      else changed (t\<lparr>tm_active := Main, tm_wrap_pending := False\<rparr>))"

text \<open>The boolean result of \<open>setXTermPrivateMode\<close> is whether the mode is supported.\<close>

definition setXTermPrivateMode :: "int \<Rightarrow> bool \<Rightarrow> terminal \<Rightarrow> (terminal \<times> bool) option" where
  "setXTermPrivateMode mode enabled t =
     (if mode = 47 \<or> mode = 1047 then
        do { t' \<leftarrow> (if enabled then enterAlternate (mode = 1047) t else Some (exitAlternate t));
             Some (t', True) }
      else if mode = 1049 then
        (if enabled then
           do { t' \<leftarrow> enterAlternate True
                  (t\<lparr>tm_main := (tm_main t)\<lparr>buf_saved := buf_cursor (tm_main t)\<rparr>\<rparr>);
                Some (t', True) }
         else
           (let t1 = exitAlternate t;
                visible = cur_visible (buf_cursor (tm_main t1))
            in Some (t1\<lparr>tm_main := (tm_main t1)
                   \<lparr>buf_cursor := (buf_saved (tm_main t1))\<lparr>cur_visible := visible\<rparr>\<rparr>\<rparr>, True)))
      else Some (t, False))"

definition ignoredPrivateMode :: "int \<Rightarrow> bool" where
  "ignoredPrivateMode mode \<longleftrightarrow>
     mode \<in> {12, 1000, 1002, 1003, 1004, 1005, 1006, 1015, 2004}"

definition setMode :: "command \<Rightarrow> parameter \<Rightarrow> terminal \<Rightarrow> terminal option" where
  "setMode c p t =
     (if \<not> par_present p then Some t
      else if par_value p = 4 then Some (t\<lparr>tm_insert_mode := (cmd_final c = 0x68)\<rparr>)
      else Some (unsupported (describe ''CSI'' c [p]) t))"

definition setModes :: "command \<Rightarrow> parameter list \<Rightarrow> terminal \<Rightarrow> terminal option" where
  "setModes c ps t = for_each ps (setMode c) t"

definition setPrivateMode :: "command \<Rightarrow> parameter \<Rightarrow> terminal \<Rightarrow> terminal option" where
  "setPrivateMode c p t =
     (let enabled = (cmd_final c = 0x68); v = par_value p
      in if \<not> par_present p then Some t
         else if v = 1 then Some (t\<lparr>tm_application_cursor := enabled\<rparr>)
         else if v = 7 then Some (t\<lparr>tm_auto_wrap := enabled, tm_wrap_pending := False\<rparr>)
         else if v = 25 then
           (let t1 = t\<lparr>tm_main := (tm_main t)
                  \<lparr>buf_cursor := (buf_cursor (tm_main t))\<lparr>cur_visible := enabled\<rparr>\<rparr>\<rparr>;
                t2 = (if buf_cells (tm_alternate t1) \<noteq> []
                      then t1\<lparr>tm_alternate := (tm_alternate t1)
                             \<lparr>buf_cursor := (buf_cursor (tm_alternate t1))\<lparr>cur_visible := enabled\<rparr>\<rparr>\<rparr>
                      else t1)
            in Some (changed t2))
         else if ignoredPrivateMode v then Some t
         else if \<not> tm_xterm t then Some (unsupported (describe ''CSI'' c [p]) t)
         else do { r \<leftarrow> setXTermPrivateMode v enabled t;
                   Some (if snd r then fst r else unsupported (describe ''CSI'' c [p]) (fst r)) })"

definition setPrivateModes :: "command \<Rightarrow> parameter list \<Rightarrow> terminal \<Rightarrow> terminal option" where
  "setPrivateModes c ps t = for_each ps (setPrivateMode c) t"

definition setScrollRegion :: "parameter list \<Rightarrow> terminal \<Rightarrow> terminal" where
  "setScrollRegion ps t =
     (let top = param ps 0 1 - 1; bottom = param ps 1 (tm_height t) - 1
      in if top < 0 \<or> bottom \<ge> tm_height t \<or> top \<ge> bottom then t
         else changed ((set_row 0 (set_column 0 (t\<lparr>tm_scroll_top := top, tm_scroll_bottom := bottom\<rparr>)))
                         \<lparr>tm_wrap_pending := False\<rparr>))"

subsection \<open>Graphic rendition\<close>

text \<open>The colon form of a direct colour is one subparameter group: skip to its last member.\<close>

function skip_group :: "parameter list \<Rightarrow> nat \<Rightarrow> nat" where
  "skip_group ps index =
     (if index < length ps - 1 \<and> par_more (ps ! index) then skip_group ps (Suc index) else index)"
  by pat_completeness auto
termination
  by (relation "measure (\<lambda>(ps, index). length ps - index)") auto

declare skip_group.simps [simp del]

definition set_color :: "bool \<Rightarrow> int \<Rightarrow> terminal \<Rightarrow> terminal" where
  "set_color foreground color t =
     t\<lparr>tm_style := (if foreground then (tm_style t)\<lparr>cell_foreground := color\<rparr>
                    else (tm_style t)\<lparr>cell_background := color\<rparr>)\<rparr>"

text \<open>
  \<open>setExtendedColor\<close> returns the index of the last parameter it consumed; the caller passes the index of
  an existing parameter.
\<close>

definition setExtendedColor ::
  "parameter list \<Rightarrow> nat \<Rightarrow> bool \<Rightarrow> terminal \<Rightarrow> terminal \<times> nat" where
  "setExtendedColor ps index foreground t =
     (let selector = par_value (ps ! index)
      in if \<not> tm_xterm t then (unsupported (''CSI '' @ itoa selector @ '' m'') t, index)
         else if index + 1 < length ps \<and> par_value (ps ! (index + 1)) = 2 then
           (unsupported (''CSI '' @ itoa selector @ '';2 m'') t,
            if par_more (ps ! index) then skip_group ps index else min (index + 4) (length ps - 1))
         else if index + 2 \<ge> length ps \<or> par_value (ps ! (index + 1)) \<noteq> 5
                 \<or> \<not> par_present (ps ! (index + 2)) then (t, index)
         else (let color = par_value (ps ! (index + 2))
               in if color < 0 \<or> color > 255 then (t, index + 2)
                  else (set_color foreground color t, index + 2)))"

definition set_attribute :: "attributes \<Rightarrow> terminal \<Rightarrow> terminal" where
  "set_attribute a t =
     t\<lparr>tm_style := (tm_style t)\<lparr>cell_attributes := cell_attributes (tm_style t) OR a\<rparr>\<rparr>"

definition clear_attribute :: "attributes \<Rightarrow> terminal \<Rightarrow> terminal" where
  "clear_attribute a t =
     t\<lparr>tm_style := (tm_style t)\<lparr>cell_attributes := cell_attributes (tm_style t) AND NOT a\<rparr>\<rparr>"

text \<open>One turn of the loop of \<open>setRendition\<close>: the new state and the index of the last parameter used.\<close>

definition rendition_value :: "parameter list \<Rightarrow> nat \<Rightarrow> int \<Rightarrow> terminal \<Rightarrow> terminal \<times> nat" where
  "rendition_value ps i v t =
        (if v = 0 then (t\<lparr>tm_style := defaultCell\<rparr>, i)
         else if v = 1 then (set_attribute Bold t, i)
         else if v = 4 then (set_attribute Underline t, i)
         else if v = 5 then (set_attribute Blink t, i)
         else if v = 7 then (set_attribute Reverse t, i)
         else if v = 8 then (set_attribute Conceal t, i)
         else if v = 22 then (clear_attribute Bold t, i)
         else if v = 24 then (clear_attribute Underline t, i)
         else if v = 25 then (clear_attribute Blink t, i)
         else if v = 27 then (clear_attribute Reverse t, i)
         else if v = 28 then (clear_attribute Conceal t, i)
         else if 30 \<le> v \<and> v \<le> 37 then (set_color True (v - 30) t, i)
         else if v = 38 then setExtendedColor ps i True t
         else if v = 39 then (set_color True DefaultColor t, i)
         else if 40 \<le> v \<and> v \<le> 47 then (set_color False (v - 40) t, i)
         else if v = 48 then setExtendedColor ps i False t
         else if v = 49 then (set_color False DefaultColor t, i)
         else if tm_xterm t \<and> 90 \<le> v \<and> v \<le> 97 then (set_color True (v - 90 + 8) t, i)
         else if tm_xterm t \<and> 100 \<le> v \<and> v \<le> 107 then (set_color False (v - 100 + 8) t, i)
         else (unsupported (''CSI '' @ itoa v @ '' m'') t, i))"

definition rendition_step :: "parameter list \<Rightarrow> nat \<Rightarrow> terminal \<Rightarrow> terminal \<times> nat" where
  "rendition_step ps i t =
     rendition_value ps i (if par_present (ps ! i) then par_value (ps ! i) else 0) t"

lemma skip_group_ge: "index \<le> skip_group ps index"
proof (induction ps index rule: skip_group.induct)
  case (1 ps index)
  then show ?case by (subst skip_group.simps) (auto dest: Suc_leD)
qed

lemma skip_group_less: "index < length ps \<Longrightarrow> skip_group ps index < length ps"
proof (induction ps index rule: skip_group.induct)
  case (1 ps index)
  then show ?case by (cases "index < length ps - 1") (auto simp: skip_group.simps [of ps index])
qed

lemma setExtendedColor_index:
  assumes "index < length ps"
  shows "index \<le> snd (setExtendedColor ps index fg t)" "snd (setExtendedColor ps index fg t) < length ps"
  using assms skip_group_ge [of index ps] skip_group_less [OF assms]
  by (auto simp: setExtendedColor_def Let_def)

lemma rendition_value_cases:
  "snd (rendition_value ps i v t) \<in>
     {i, snd (setExtendedColor ps i True t), snd (setExtendedColor ps i False t)}"
  by (subst rendition_value_def) (simp only: if_distrib [of snd] snd_conv, intro if_memI, simp_all)

lemma rendition_step_index:
  assumes "i < length ps"
  shows "i \<le> snd (rendition_step ps i t)" "snd (rendition_step ps i t) < length ps"
  using rendition_value_cases [of ps i "if par_present (ps ! i) then par_value (ps ! i) else 0" t]
    setExtendedColor_index [OF assms, of True t] setExtendedColor_index [OF assms, of False t] assms
  unfolding rendition_step_def by auto

function rendition_loop :: "parameter list \<Rightarrow> nat \<Rightarrow> terminal \<Rightarrow> terminal" where
  "rendition_loop ps i t =
     (if i < length ps
      then (let r = rendition_step ps i t in rendition_loop ps (Suc (snd r)) (fst r))
      else t)"
  by pat_completeness auto
termination
proof (relation "measure (\<lambda>(ps, i, t). length ps - i)")
  fix ps i t x
  assume i: "i < length ps" and x: "x = rendition_step ps i t"
  have "i \<le> snd x" using rendition_step_index(1) [OF i] x by simp
  then show "((ps, Suc (snd x), fst x), ps, i, t) \<in> measure (\<lambda>(ps, i, t). length ps - i)"
    using i by simp
qed simp

declare rendition_loop.simps [simp del]

definition setRendition :: "parameter list \<Rightarrow> terminal \<Rightarrow> terminal" where
  "setRendition ps t =
     (let ps' = (if ps = [] then [\<lparr>par_value = 0, par_present = True, par_more = False\<rparr>] else ps)
      in rendition_loop ps' 0 t)"

subsection \<open>Control sequences\<close>

definition handleCSI :: "command \<Rightarrow> parameter list \<Rightarrow> terminal \<Rightarrow> terminal option" where
  "handleCSI c ps t =
     (let f = cmd_final c
      in if cmd_prefix c = 0x3F \<and> cmd_intermediate c = 0 \<and> (f = 0x68 \<or> f = 0x6C)
         then setPrivateModes c ps t
         else if cmd_prefix c \<noteq> 0 \<or> cmd_intermediate c \<noteq> 0
         then Some (unsupported (describe ''CSI'' c ps) t)
         else if f = 0x40 then insertCharacters (param ps 0 1) t
         else if f = 0x41 then
           Some (cursorChanged (set_row (max 0 (cursor_row t - param ps 0 1)) t))
         else if f = 0x42 then
           Some (cursorChanged (set_row (min (tm_height t - 1) (cursor_row t + param ps 0 1)) t))
         else if f = 0x43 then
           Some (cursorChanged (set_column (min (tm_width t - 1) (column t + param ps 0 1)) t))
         else if f = 0x44 then
           Some (cursorChanged (set_column (max 0 (column t - param ps 0 1)) t))
         else if f = 0x47 then
           Some (cursorChanged (set_column (min (tm_width t - 1) (max 0 (param ps 0 1 - 1))) t))
         else if f = 0x48 \<or> f = 0x66 then
           Some (cursorChanged
             (set_column (min (tm_width t - 1) (max 0 (param ps 1 1 - 1)))
               (set_row (min (tm_height t - 1) (max 0 (param ps 0 1 - 1))) t)))
         else if f = 0x4A then eraseDisplay (param ps 0 0) t
         else if f = 0x4B then eraseLine (param ps 0 0) t
         else if f = 0x4C then insertLines (param ps 0 1) t
         else if f = 0x4D then deleteLines (param ps 0 1) t
         else if f = 0x50 then deleteCharacters (param ps 0 1) t
         else if f = 0x58 then eraseCharacters (param ps 0 1) t
         else if f = 0x68 \<or> f = 0x6C then setModes c ps t
         else if f = 0x6D then Some (setRendition ps t)
         else if f = 0x72 then Some (setScrollRegion ps t)
         else Some (unsupported (describe ''CSI'' c ps) t))"

text \<open>The handler record \<open>New\<close> hands to the parser.\<close>

fun handle :: "(string \<Rightarrow> int) \<Rightarrow> parser_event \<Rightarrow> terminal \<Rightarrow> terminal option" where
  "handle sw (Print r) t = print sw r t"
| "handle sw (Execute b) t = execute b t"
| "handle sw (CSI c ps) t = handleCSI c ps t"
| "handle sw (Escape c) t = handleEscape c t"
| "handle sw (OSC n data) t = Some (handleOSC n data t)"
| "handle sw (DCS c ps _) t = Some (unsupported (describe ''DCS'' c ps) t)"
| "handle sw (ControlString kind) t = Some (unsupported kind t)"

text \<open>The effect of one \<open>Write\<close> on the screen: its events in order, counted as one revision.\<close>

definition apply_events :: "(string \<Rightarrow> int) \<Rightarrow> parser_event list \<Rightarrow> terminal \<Rightarrow> terminal option" where
  "apply_events sw events t =
     do { t' \<leftarrow> for_each events (handle sw) t;
          Some (if tm_revision t' \<noteq> tm_revision t
                then t'\<lparr>tm_revision := tm_revision t + 1\<rparr> else t') }"

definition Write ::
  "(string \<Rightarrow> int) \<Rightarrow> ansi_lib \<Rightarrow> 'p ansi_parser \<Rightarrow> byte list \<Rightarrow> 'p parser \<times> terminal \<Rightarrow>
     ('p parser \<times> terminal) option" where
  "Write sw lib ap data s =
     (case parserWrite lib ap (fst s) data of
        (p', events) \<Rightarrow> do { t' \<leftarrow> apply_events sw events (snd s); Some (p', t') })"

end
