(* ===== verification/Matchers.thy ===== *)
theory Matchers
  imports Screens Terminal_Control
begin

text \<open>
  Screen matchers and their serialised form (\<open>matcher.go\<close>). A \<open>ScreenMatcher\<close> value is nil, a custom
  function or a described matcher; \<open>Match\<close> on it is \<open>match\<close>. \<open>%q\<close> is the parameter \<open>quote\<close> of the
  descriptions. \<open>ScreenMatcher\<close> turns a \<open>MatcherSpec\<close>, a tree in which exactly one field of every node
  must be set, into a matcher; it is compared with the direct reading \<open>denotes\<close> of the tree.
\<close>

datatype matcher =
    NilMatcher
  | ScreenMatcherFunc "screen \<Rightarrow> bool"
  | describedScreenMatcher string "screen \<Rightarrow> bool"

text \<open>Calling \<open>Match\<close>; the combinators guard against nil before they call it.\<close>

fun match :: "matcher \<Rightarrow> screen \<Rightarrow> bool" where
  "match NilMatcher s = False"
| "match (ScreenMatcherFunc f) s = f s"
| "match (describedScreenMatcher _ f) s = f s"

fun matcherDescription :: "matcher \<Rightarrow> string" where
  "matcherDescription NilMatcher = ''nil matcher''"
| "matcherDescription (describedScreenMatcher d _) = d"
| "matcherDescription (ScreenMatcherFunc _) = ''custom screen matcher''"

text \<open>\<open>strings.Contains\<close> and \<open>strings.Join\<close>\<close>

primrec contains :: "string \<Rightarrow> string \<Rightarrow> bool" where
  "contains [] t = (t = [])"
| "contains (c # cs) t = (take (length t) (c # cs) = t \<or> contains cs t)"

fun join :: "string \<Rightarrow> string list \<Rightarrow> string" where
  "join sep [] = []"
| "join sep [x] = x"
| "join sep (x # y # xs) = x @ sep @ join sep (y # xs)"

definition joinMatcherDescriptions :: "string \<Rightarrow> matcher list \<Rightarrow> string" where
  "joinMatcherDescriptions prefix ms =
     prefix @ '' ('' @ join '', '' (map matcherDescription ms) @ '')''"

definition ScreenContains :: "(string \<Rightarrow> string) \<Rightarrow> string \<Rightarrow> matcher" where
  "ScreenContains quote t =
     describedScreenMatcher (''screen containing '' @ quote t) (\<lambda>s. contains (Text s) t)"

definition ScreenLineEquals :: "(string \<Rightarrow> string) \<Rightarrow> int \<Rightarrow> string \<Rightarrow> matcher" where
  "ScreenLineEquals quote r t =
     describedScreenMatcher (''screen row '' @ itoa r @ '' equal to '' @ quote t)
       (\<lambda>s. r \<ge> 0 \<and> r < scr_height s \<and> Line s r = t)"

definition CursorAt :: "int \<Rightarrow> int \<Rightarrow> matcher" where
  "CursorAt c r =
     describedScreenMatcher (''cursor at column '' @ itoa c @ '', row '' @ itoa r)
       (\<lambda>s. cur_column (scr_cursor s) = c \<and> cur_row (scr_cursor s) = r)"

definition AllOf :: "matcher list \<Rightarrow> matcher" where
  "AllOf ms = describedScreenMatcher (joinMatcherDescriptions ''all of'' ms)
     (\<lambda>s. list_all (\<lambda>m. m \<noteq> NilMatcher \<and> match m s) ms)"

definition AnyOf :: "matcher list \<Rightarrow> matcher" where
  "AnyOf ms = describedScreenMatcher (joinMatcherDescriptions ''any of'' ms)
     (\<lambda>s. list_ex (\<lambda>m. m \<noteq> NilMatcher \<and> match m s) ms)"

definition NotMatching :: "matcher \<Rightarrow> matcher" where
  "NotMatching m = describedScreenMatcher (''not '' @ matcherDescription m)
     (\<lambda>s. m \<noteq> NilMatcher \<and> \<not> match m s)"

subsection \<open>Serialised matchers\<close>

record LineMatcherSpec =
  lm_row :: int
  lm_text :: string

record CursorMatcherSpec =
  cm_column :: int
  cm_row :: int

datatype MatcherSpec = MatcherSpec
  (ms_contains: "string option") (ms_line: "LineMatcherSpec option") (ms_cursor: "CursorMatcherSpec option")
  (ms_all: "MatcherSpec list option") (ms_any: "MatcherSpec list option") (ms_not: "MatcherSpec option")

datatype matcher_error = NestingTooDeep | ExactlyOneExpression | RequiresChild string

definition maximumMatcherSpecDepth :: nat where
  "maximumMatcherSpecDepth = 64"

definition fields_set :: "MatcherSpec \<Rightarrow> nat" where
  "fields_set s = length (filter id
     [ms_contains s \<noteq> None, ms_line s \<noteq> None, ms_cursor s \<noteq> None, ms_all s \<noteq> None, ms_any s \<noteq> None,
      ms_not s \<noteq> None])"

fun screenMatcherAtDepth ::
      "(string \<Rightarrow> string) \<Rightarrow> nat \<Rightarrow> MatcherSpec \<Rightarrow> matcher_error + matcher"
  and childMatchers ::
      "(string \<Rightarrow> string) \<Rightarrow> nat \<Rightarrow> MatcherSpec list \<Rightarrow> matcher_error + matcher list" where
  "screenMatcherAtDepth q depth (MatcherSpec co li cu al an no) =
     (if depth > maximumMatcherSpecDepth then Inl NestingTooDeep
      else if fields_set (MatcherSpec co li cu al an no) \<noteq> 1 then Inl ExactlyOneExpression
      else case co of Some t \<Rightarrow> Inr (ScreenContains q t) | None \<Rightarrow>
           case li of Some l \<Rightarrow> Inr (ScreenLineEquals q (lm_row l) (lm_text l)) | None \<Rightarrow>
           case cu of Some c \<Rightarrow> Inr (CursorAt (cm_column c) (cm_row c)) | None \<Rightarrow>
           case no of
             Some child \<Rightarrow>
               (case screenMatcherAtDepth q (Suc depth) child of
                  Inl e \<Rightarrow> Inl e | Inr m \<Rightarrow> Inr (NotMatching m))
           | None \<Rightarrow>
           case al of
             Some specs \<Rightarrow>
               (if specs = [] then Inl (RequiresChild ''all'')
                else case childMatchers q depth specs of Inl e \<Rightarrow> Inl e | Inr ms \<Rightarrow> Inr (AllOf ms))
           | None \<Rightarrow>
           case an of
             Some specs \<Rightarrow>
               (if specs = [] then Inl (RequiresChild ''any'')
                else case childMatchers q depth specs of Inl e \<Rightarrow> Inl e | Inr ms \<Rightarrow> Inr (AnyOf ms))
           | None \<Rightarrow> Inl (RequiresChild ''any''))"
| "childMatchers q depth [] = Inr []"
| "childMatchers q depth (child # specs) =
     (case screenMatcherAtDepth q (Suc depth) child of
        Inl e \<Rightarrow> Inl e
      | Inr m \<Rightarrow> (case childMatchers q depth specs of Inl e \<Rightarrow> Inl e | Inr ms \<Rightarrow> Inr (m # ms)))"

definition ScreenMatcher :: "(string \<Rightarrow> string) \<Rightarrow> MatcherSpec \<Rightarrow> matcher_error + matcher" where
  "ScreenMatcher q s = screenMatcherAtDepth q 0 s"

subsection \<open>The reading of a specification\<close>

fun spec_ok :: "MatcherSpec \<Rightarrow> bool" where
  "spec_ok (MatcherSpec co li cu al an no) \<longleftrightarrow>
     fields_set (MatcherSpec co li cu al an no) = 1 \<and>
     (\<forall>ss \<in> set_option al \<union> set_option an. ss \<noteq> [] \<and> (\<forall>s \<in> set ss. spec_ok s)) \<and>
     (\<forall>s \<in> set_option no. spec_ok s)"

fun spec_depth :: "MatcherSpec \<Rightarrow> nat" where
  "spec_depth (MatcherSpec co li cu al an no) =
     (case al of Some ss \<Rightarrow> Suc (Max (set (map spec_depth ss))) | None \<Rightarrow>
      case an of Some ss \<Rightarrow> Suc (Max (set (map spec_depth ss))) | None \<Rightarrow>
      case no of Some s \<Rightarrow> Suc (spec_depth s) | None \<Rightarrow> 0)"

fun denotes :: "MatcherSpec \<Rightarrow> screen \<Rightarrow> bool" where
  "denotes (MatcherSpec co li cu al an no) s \<longleftrightarrow>
     (\<exists>t \<in> set_option co. \<exists>before after. Text s = before @ t @ after) \<or>
     (\<exists>l \<in> set_option li. 0 \<le> lm_row l \<and> lm_row l < scr_height s \<and> Line s (lm_row l) = lm_text l) \<or>
     (\<exists>c \<in> set_option cu. cur_column (scr_cursor s) = cm_column c \<and> cur_row (scr_cursor s) = cm_row c) \<or>
     (\<exists>ss \<in> set_option al. \<forall>x \<in> set ss. denotes x s) \<or>
     (\<exists>ss \<in> set_option an. \<exists>x \<in> set ss. denotes x s) \<or>
     (\<exists>x \<in> set_option no. \<not> denotes x s)"

declare screenMatcherAtDepth.simps [simp del] spec_ok.simps [simp del] spec_depth.simps [simp del]
  denotes.simps [simp del]

lemma contains_iff: "contains s t \<longleftrightarrow> (\<exists>before after. s = before @ t @ after)"
proof (induction s)
  case (Cons c cs)
  have "(\<exists>before after. c # cs = before @ t @ after) \<longleftrightarrow>
      (\<exists>after. c # cs = t @ after) \<or> (\<exists>before after. cs = before @ t @ after)"
    by (auto simp: Cons_eq_append_conv)
  moreover have "(\<exists>after. c # cs = t @ after) \<longleftrightarrow> take (length t) (c # cs) = t"
    by (metis append_eq_conv_conj append_take_drop_id)
  ultimately show ?case using Cons.IH by simp
qed auto

text \<open>The six shapes of a node with exactly one field set.\<close>

lemma one_field_cases:
  assumes "fields_set (MatcherSpec co li cu al an no) = 1"
  obtains (contains) t where "co = Some t" "li = None" "cu = None" "al = None" "an = None" "no = None"
  | (line) l where "co = None" "li = Some l" "cu = None" "al = None" "an = None" "no = None"
  | (cursor) c where "co = None" "li = None" "cu = Some c" "al = None" "an = None" "no = None"
  | (all) ss where "co = None" "li = None" "cu = None" "al = Some ss" "an = None" "no = None"
  | (any) ss where "co = None" "li = None" "cu = None" "al = None" "an = Some ss" "no = None"
  | (not) s where "co = None" "li = None" "cu = None" "al = None" "an = None" "no = Some s"
  using assms by (auto simp: fields_set_def split: if_splits)

definition implements :: "matcher \<Rightarrow> MatcherSpec \<Rightarrow> bool" where
  "implements m s \<longleftrightarrow> m \<noteq> NilMatcher \<and> (\<forall>scr. match m scr = denotes s scr)"

definition buildable :: "nat \<Rightarrow> MatcherSpec \<Rightarrow> bool" where
  "buildable depth s \<longleftrightarrow> spec_ok s \<and> depth + spec_depth s \<le> maximumMatcherSpecDepth"

lemma implements_all:
  "list_all2 implements ms ss \<Longrightarrow>
     list_all (\<lambda>m. m \<noteq> NilMatcher \<and> match m scr) ms \<longleftrightarrow> (\<forall>s \<in> set ss. denotes s scr)"
  "list_all2 implements ms ss \<Longrightarrow>
     list_ex (\<lambda>m. m \<noteq> NilMatcher \<and> match m scr) ms \<longleftrightarrow> (\<exists>s \<in> set ss. denotes s scr)"
  by (induction rule: list_all2_induct) (auto simp: implements_def)

lemma depth_all:
  assumes "ss \<noteq> []"
  shows "Suc (d + Max (spec_depth ` set ss)) \<le> n \<longleftrightarrow> (\<forall>s \<in> set ss. Suc (d + spec_depth s) \<le> n)"
proof -
  have "Suc (d + Max (spec_depth ` set ss)) = Max ((\<lambda>k. Suc (d + k)) ` spec_depth ` set ss)"
    using assms by (intro mono_Max_commute) (auto simp: mono_def)
  then show ?thesis using assms by (simp add: image_image)
qed

lemma build_iff:
  "(case screenMatcherAtDepth q d s of
      Inl _ \<Rightarrow> \<not> buildable d s | Inr m \<Rightarrow> buildable d s \<and> implements m s)"
  "(case childMatchers q d ss of
      Inl _ \<Rightarrow> \<not> (\<forall>s \<in> set ss. buildable (Suc d) s)
    | Inr ms \<Rightarrow> (\<forall>s \<in> set ss. buildable (Suc d) s) \<and> list_all2 implements ms ss)"
proof (induction q d s and q d ss rule: screenMatcherAtDepth_childMatchers.induct)
  case (1 q d co li cu al an no)
  let ?s = "MatcherSpec co li cu al an no"
  show ?case
  proof (cases "d > maximumMatcherSpecDepth \<or> fields_set ?s \<noteq> 1")
    case True
    then show ?thesis by (auto simp: screenMatcherAtDepth.simps buildable_def spec_ok.simps)
  next
    case False
    then have d: "\<not> d > maximumMatcherSpecDepth" and one: "fields_set ?s = 1" by auto
    note defs = screenMatcherAtDepth.simps buildable_def spec_ok.simps spec_depth.simps denotes.simps implements_def
    show ?thesis using one
    proof (cases rule: one_field_cases)
      case (contains t)
      then show ?thesis using d one by (simp add: defs ScreenContains_def contains_iff)
    next
      case (line l)
      then show ?thesis using d one by (simp add: defs ScreenLineEquals_def)
    next
      case (cursor c)
      then show ?thesis using d one by (simp add: defs CursorAt_def)
    next
      case (not s)
      then show ?thesis using d one 1(3) [of s]
        by (auto simp: defs NotMatching_def split: sum.splits)
    next
      case (all ss)
      show ?thesis
      proof (cases "ss = []")
        case False
        then have "(\<forall>s \<in> set ss. buildable (Suc d) s) \<longleftrightarrow> buildable d ?s"
          using all d one depth_all [OF False, of d] by (auto simp: defs)
        then show ?thesis using all d one False 1(2) [of ss]
          by (auto simp: screenMatcherAtDepth.simps implements_def [of "describedScreenMatcher _ _"] denotes.simps AllOf_def implements_all
              split: sum.splits)
      qed (use all d one in \<open>simp add: defs\<close>)
    next
      case (any ss)
      show ?thesis
      proof (cases "ss = []")
        case False
        then have "(\<forall>s \<in> set ss. buildable (Suc d) s) \<longleftrightarrow> buildable d ?s"
          using any d one depth_all [OF False, of d] by (auto simp: defs)
        then show ?thesis using any d one False 1(1) [of ss]
          by (auto simp: screenMatcherAtDepth.simps implements_def [of "describedScreenMatcher _ _"] denotes.simps AnyOf_def implements_all
              split: sum.splits)
      qed (use any d one in \<open>simp add: defs\<close>)
    qed
  qed
next
  case (3 q d s ss)
  then show ?case by (auto split: sum.splits)
qed simp

subsection \<open>The error reported\<close>

text \<open>
  The nodes of a specification with their depths, in the order a reader meets them (a node before its
  children, the children from the first to the last), and what is wrong with a single node.
\<close>

fun spec_nodes :: "nat \<Rightarrow> MatcherSpec \<Rightarrow> (nat \<times> MatcherSpec) list" where
  "spec_nodes d (MatcherSpec co li cu al an no) =
     (d, MatcherSpec co li cu al an no) #
     (case no of Some s \<Rightarrow> spec_nodes (Suc d) s | None \<Rightarrow> []) @
     (case al of Some ss \<Rightarrow> concat (map (spec_nodes (Suc d)) ss) | None \<Rightarrow> []) @
     (case an of Some ss \<Rightarrow> concat (map (spec_nodes (Suc d)) ss) | None \<Rightarrow> [])"

declare spec_nodes.simps [simp del]

definition node_fault :: "nat \<times> MatcherSpec \<Rightarrow> matcher_error option" where
  "node_fault = (\<lambda>(d, s).
     if d > 64 then Some NestingTooDeep
     else if fields_set s \<noteq> 1 then Some ExactlyOneExpression
     else if ms_all s = Some [] then Some (RequiresChild ''all'')
     else if ms_any s = Some [] then Some (RequiresChild ''any'')
     else None)"

definition spec_faults :: "nat \<Rightarrow> MatcherSpec \<Rightarrow> matcher_error list" where
  "spec_faults d s = List.map_filter node_fault (spec_nodes d s)"

lemma spec_faults_node:
  "spec_faults d (MatcherSpec co li cu al an no) =
     (case node_fault (d, MatcherSpec co li cu al an no) of Some e \<Rightarrow> [e] | None \<Rightarrow> []) @
     (case no of Some s \<Rightarrow> spec_faults (Suc d) s | None \<Rightarrow> []) @
     (case al of Some ss \<Rightarrow> concat (map (spec_faults (Suc d)) ss) | None \<Rightarrow> []) @
     (case an of Some ss \<Rightarrow> concat (map (spec_faults (Suc d)) ss) | None \<Rightarrow> [])"
proof -
  have mf: "List.map_filter f (xs @ ys) = List.map_filter f xs @ List.map_filter f ys" for f :: "'x \<Rightarrow> 'y option" and xs ys
    by (simp add: List.map_filter_def)
  have mc: "List.map_filter f (concat (map g xs)) = concat (map (\<lambda>x. List.map_filter f (g x)) xs)"
    for f :: "'x \<Rightarrow> 'y option" and g :: "'z \<Rightarrow> 'x list" and xs
    by (induction xs) (simp_all add: mf List.map_filter_def)
  show ?thesis
    unfolding spec_faults_def spec_nodes.simps List.map_filter_simps mf mc
    by (cases "node_fault (d, MatcherSpec co li cu al an no)"; cases no; cases al; cases an)
      (simp_all add: mc List.map_filter_simps spec_faults_def)
qed

text \<open>The error is the first fault, and there is none when a matcher is built.\<close>

definition reports :: "matcher_error + 'a \<Rightarrow> matcher_error list \<Rightarrow> bool" where
  "reports r faults \<longleftrightarrow> (case r of Inl e \<Rightarrow> \<exists>later. faults = e # later | Inr _ \<Rightarrow> faults = [])"

lemma build_reports:
  "reports (screenMatcherAtDepth q d s) (spec_faults d s)"
  "reports (childMatchers q d ss) (concat (map (spec_faults (Suc d)) ss))"
proof (induction q d s and q d ss rule: screenMatcherAtDepth_childMatchers.induct)
  case (1 q d co li cu al an no)
  let ?s = "MatcherSpec co li cu al an no"
  show ?case
  proof (cases "d > maximumMatcherSpecDepth \<or> fields_set ?s \<noteq> 1")
    case True
    then show ?thesis
      by (auto simp: screenMatcherAtDepth.simps spec_faults_node node_fault_def reports_def maximumMatcherSpecDepth_def)
  next
    case False
    then have d: "d \<le> maximumMatcherSpecDepth" "d \<le> 64" and one: "fields_set ?s = 1"
      by (auto simp: maximumMatcherSpecDepth_def)
    note defs = screenMatcherAtDepth.simps spec_faults_node node_fault_def reports_def
    show ?thesis using one
    proof (cases rule: one_field_cases)
      case (not s)
      then show ?thesis using d one 1(3) [of s] by (auto simp: defs split: sum.splits)
    next
      case (all ss)
      then show ?thesis using d one 1(2) [of ss] by (cases "ss = []") (auto simp: defs split: sum.splits)
    next
      case (any ss)
      then show ?thesis using d one 1(1) [of ss] by (cases "ss = []") (auto simp: defs split: sum.splits)
    qed (use d one in \<open>simp_all add: defs\<close>)
  qed
next
  case (3 q d s ss)
  then show ?case by (auto simp: reports_def split: sum.splits)
qed (simp add: reports_def)

subsection \<open>Properties\<close>

text \<open>
  C17: A serialised matcher is accepted exactly when every node sets one field, every \<open>all\<close> and \<open>any\<close> has
  a child and no node lies more than 64 levels deep; the matcher built from it then succeeds on a screen
  exactly when the direct reading of the tree holds there. Otherwise the error reported is that of the
  first node at fault, a node coming before its children and these in order: its depth before the
  number of its fields before its missing children.
\<close>

theorem matcher_spec_correct:
  "((\<exists>m. ScreenMatcher q spec = Inr m) \<longleftrightarrow> spec_ok spec \<and> spec_depth spec \<le> 64) \<and>
   {m. ScreenMatcher q spec = Inr m} \<subseteq> {m. \<forall>scr. match m scr = denotes spec scr} \<and>
   (case ScreenMatcher q spec of
      Inl e \<Rightarrow> \<exists>later. List.map_filter node_fault (spec_nodes 0 spec) = e # later
    | Inr _ \<Rightarrow> List.map_filter node_fault (spec_nodes 0 spec) = [])"
  using build_iff(1) [where q = q and d = 0 and s = spec] build_reports(1) [of q 0 spec]
  by (auto simp: ScreenMatcher_def buildable_def implements_def maximumMatcherSpecDepth_def reports_def
      spec_faults_def split: sum.splits)

end
