(* ===== verification/Keys.thy ===== *)
theory Keys
  imports Terminal_Control
begin

text \<open>
  Key encoding (\<open>key.go\<close> and the key half of \<open>ansi/terminal.go\<close>). A \<open>Key\<close> is a string: a name or one
  printable character. The Go maps are association lists; the result is the bytes as a string, or an
  error. The case mapping \<open>unicode.ToUpper\<close> is written out for ASCII; for other characters its table
  is the parameter \<open>upper\<close>.
\<close>

type_synonym key = string
type_synonym key_modifiers = "8 word"

definition ModifierShift :: key_modifiers where "ModifierShift = 1"
definition ModifierAlt :: key_modifiers where "ModifierAlt = 2"
definition ModifierControl :: key_modifiers where "ModifierControl = 4"

definition known_modifiers :: key_modifiers where
  "known_modifiers = ModifierShift OR ModifierAlt OR ModifierControl"

record key_press =
  press_key :: key
  press_modifiers :: key_modifiers

datatype key_error =
    UnknownModifier key_modifiers
  | UnsupportedModifiers key_modifiers
  | ModifiersUnsupportedFor key_modifiers key
  | UnsupportedKey key
  | ControlUnsupportedFor key
  | NotAModifiedKeyEncoder
  | NotAKeyEncoder

primrec combine_modifiers :: "key_modifiers \<Rightarrow> key_modifiers list \<Rightarrow> key_error + key_modifiers" where
  "combine_modifiers combined [] = Inr combined"
| "combine_modifiers combined (m # ms) =
     (if m = 0 \<or> m AND NOT known_modifiers \<noteq> 0 then Inl (UnknownModifier m)
      else combine_modifiers (combined OR m) ms)"

definition NewKeyPress :: "key \<Rightarrow> key_modifiers list \<Rightarrow> key_error + key_press" where
  "NewKeyPress key modifiers =
     (case combine_modifiers 0 modifiers of
        Inl e \<Rightarrow> Inl e
      | Inr combined \<Rightarrow> Inr \<lparr>press_key = key, press_modifiers = combined\<rparr>)"

definition KeyEnter :: key where "KeyEnter = ''Enter''"
definition KeyTab :: key where "KeyTab = ''Tab''"
definition KeyBackspace :: key where "KeyBackspace = ''Backspace''"
definition KeyEscape :: key where "KeyEscape = ''Escape''"
definition KeyUp :: key where "KeyUp = ''ArrowUp''"
definition KeyDown :: key where "KeyDown = ''ArrowDown''"
definition KeyRight :: key where "KeyRight = ''ArrowRight''"
definition KeyLeft :: key where "KeyLeft = ''ArrowLeft''"

definition ESC :: char where
  "ESC = CHR 0x1B"

definition application_sequences :: "(key \<times> string) list" where
  "application_sequences =
     [(KeyUp, ESC # ''OA''), (KeyDown, ESC # ''OB''), (KeyRight, ESC # ''OC''), (KeyLeft, ESC # ''OD'')]"

definition key_sequences :: "(key \<times> string) list" where
  "key_sequences =
     [(KeyEnter, [CHR 0x0D]), (KeyTab, [CHR 0x09]), (KeyBackspace, [CHR 0x7F]), (KeyEscape, [ESC]),
      (KeyUp, ESC # ''[A''), (KeyDown, ESC # ''[B''), (KeyRight, ESC # ''[C''), (KeyLeft, ESC # ''[D''),
      (''Home'', ESC # ''[H''), (''End'', ESC # ''[F''), (''Insert'', ESC # ''[2~''),
      (''Delete'', ESC # ''[3~''), (''PageUp'', ESC # ''[5~''), (''PageDown'', ESC # ''[6~''),
      (''F1'', ESC # ''OP''), (''F2'', ESC # ''OQ''), (''F3'', ESC # ''OR''), (''F4'', ESC # ''OS''),
      (''F5'', ESC # ''[15~''), (''F6'', ESC # ''[17~''), (''F7'', ESC # ''[18~''),
      (''F8'', ESC # ''[19~''), (''F9'', ESC # ''[20~''), (''F10'', ESC # ''[21~''),
      (''F11'', ESC # ''[23~''), (''F12'', ESC # ''[24~'')]"

subsection \<open>Named keys with modifiers\<close>

definition final_letters :: "(key \<times> string) list" where
  "final_letters =
     [(KeyUp, ''A''), (KeyDown, ''B''), (KeyRight, ''C''), (KeyLeft, ''D''), (''Home'', ''H''),
      (''End'', ''F''), (''F1'', ''P''), (''F2'', ''Q''), (''F3'', ''R''), (''F4'', ''S'')]"

definition tilde_codes :: "(key \<times> string) list" where
  "tilde_codes =
     [(''Insert'', ''2''), (''Delete'', ''3''), (''PageUp'', ''5''), (''PageDown'', ''6''),
      (''F5'', ''15''), (''F6'', ''17''), (''F7'', ''18''), (''F8'', ''19''), (''F9'', ''20''),
      (''F10'', ''21''), (''F11'', ''23''), (''F12'', ''24'')]"

definition base_sequences :: "(key \<times> string) list" where
  "base_sequences = [(KeyEnter, [CHR 0x0D]), (KeyBackspace, [CHR 0x7F]), (KeyEscape, [ESC])]"

definition modifiedNamedKey :: "key_press \<Rightarrow> string option" where
  "modifiedNamedKey press =
     (let key = press_key press; ms = press_modifiers press; modifier = 1 + int (unat ms)
      in case map_of final_letters key of
           Some final \<Rightarrow> Some (ESC # ''[1;'' @ itoa modifier @ final)
         | None \<Rightarrow>
             (case map_of tilde_codes key of
                Some code \<Rightarrow> Some (ESC # ''['' @ code @ '';'' @ itoa modifier @ ''~'')
              | None \<Rightarrow>
                  if key = KeyTab \<and> ms = ModifierShift then Some (ESC # ''[Z'')
                  else if key = KeyEnter \<or> key = KeyBackspace \<or> key = KeyEscape then
                    (let base = (case map_of base_sequences key of Some b \<Rightarrow> b | None \<Rightarrow> []);
                         base' = (if ms AND ModifierAlt \<noteq> 0 then ESC # base else base)
                     in if ms AND NOT (ModifierAlt OR ModifierShift) = 0 then Some base' else None)
                  else None))"

subsection \<open>Printable keys\<close>

definition ToUpper :: "(rune \<Rightarrow> rune) \<Rightarrow> rune \<Rightarrow> rune" where
  "ToUpper upper r =
     (if 0x61 \<le> r \<and> r \<le> 0x7A then r - 0x20 else if r < 0x80 then r else upper r)"

definition controlCharacter :: "(rune \<Rightarrow> rune) \<Rightarrow> rune \<Rightarrow> byte option" where
  "controlCharacter upper key0 =
     (let key = (if 0x61 \<le> key0 \<and> key0 \<le> 0x7A then ToUpper upper key0 else key0)
      in if key = 0x20 \<or> key = 0x40 then Some 0
         else if 0x41 \<le> key \<and> key \<le> 0x5A then Some (of_int (key - 0x41 + 1))
         else if 0x5B \<le> key \<and> key \<le> 0x5F then Some (of_int (key - 0x5B + 0x1B))
         else if key = 0x3F then Some 0x7F
         else None)"

definition runes_of :: "string \<Rightarrow> nat list" where
  "runes_of s = map of_char s"

definition encodePrintableKey :: "(rune \<Rightarrow> rune) \<Rightarrow> key_press \<Rightarrow> key_error + string" where
  "encodePrintableKey upper press =
     (let ms = press_modifiers press;
          key0 = fst (utf8_decode (runes_of (press_key press)));
          key = (if ms AND ModifierShift \<noteq> 0 then ToUpper upper key0 else key0);
          alt = (\<lambda>encoded. if ms AND ModifierAlt \<noteq> 0 then ESC # encoded else encoded)
      in if ms AND ModifierControl \<noteq> 0 then
           (case controlCharacter upper key of
              None \<Rightarrow> Inl (ControlUnsupportedFor (press_key press))
            | Some control \<Rightarrow> Inr (alt (string_of_bytes [control])))
         else Inr (alt (rune_string key)))"

definition EncodeKeyPress ::
  "(rune \<Rightarrow> rune) \<Rightarrow> key_press \<Rightarrow> terminal \<Rightarrow> key_error + string" where
  "EncodeKeyPress upper press t =
     (let key = press_key press; ms = press_modifiers press
      in if ms AND NOT known_modifiers \<noteq> 0 then Inl (UnsupportedModifiers ms)
         else if rune_count (runes_of key) = 1 then encodePrintableKey upper press
         else case (if ms = 0 \<and> tm_application_cursor t then map_of application_sequences key else None) of
             Some sequence \<Rightarrow> Inr sequence
           | None \<Rightarrow>
               if ms \<noteq> 0 then
                 (case modifiedNamedKey press of
                    Some sequence \<Rightarrow> Inr sequence
                  | None \<Rightarrow> Inl (ModifiersUnsupportedFor ms key))
               else (case map_of key_sequences key of
                       Some sequence \<Rightarrow> Inr sequence
                     | None \<Rightarrow> Inl (UnsupportedKey key)))"

definition EncodeKey :: "(rune \<Rightarrow> rune) \<Rightarrow> key \<Rightarrow> terminal \<Rightarrow> key_error + string" where
  "EncodeKey upper key t = EncodeKeyPress upper \<lparr>press_key = key, press_modifiers = 0\<rparr> t"

subsection \<open>Facts about the tables\<close>

lemma map_of_inj:
  assumes "distinct (map snd xs)" "map_of xs k = Some v" "map_of xs k' = Some v"
  shows "k = k'"
proof -
  have "(k, v) \<in> set xs" "(k', v) \<in> set xs" using assms(2,3) by (auto dest: map_of_SomeD)
  moreover have "inj_on snd (set xs)" using assms(1) by (simp add: distinct_map)
  ultimately show ?thesis by (metis inj_onD prod.inject snd_conv)
qed

lemmas table_defs = application_sequences_def key_sequences_def final_letters_def tilde_codes_def
  base_sequences_def KeyEnter_def KeyTab_def KeyBackspace_def KeyEscape_def KeyUp_def KeyDown_def
  KeyRight_def KeyLeft_def ESC_def

lemma distinct_tables:
  "distinct (map snd (application_sequences @ key_sequences))"
  "distinct (map snd final_letters)" "distinct (map snd tilde_codes)"
  by (simp_all add: table_defs)

lemma named_key_table:
  assumes "rune_count (runes_of k) \<noteq> 1" "EncodeKey upper k t = Inr s"
  shows "map_of (if tm_application_cursor t then application_sequences @ key_sequences else key_sequences) k = Some s"
  using assms
  by (auto simp: EncodeKey_def EncodeKeyPress_def Let_def map_add_def split: option.splits if_splits)

lemma known_modifiers_mask: "known_modifiers = 7"
  by (simp add: known_modifiers_def ModifierShift_def ModifierAlt_def ModifierControl_def)

lemma modifiers_below:
  assumes "ms AND NOT known_modifiers = 0"
  shows "unat ms \<le> 7"
proof -
  have "ms = ms AND (7 OR NOT 7)" by simp
  also have "\<dots> = ms AND 7"
    using assms unfolding known_modifiers_mask bit.conj_disj_distrib by simp
  finally have "ms \<le> 7" by (metis word_and_le1)
  then show ?thesis by (simp add: word_le_nat_alt)
qed

lemma itoa_modifier:
  assumes "unat (ms :: key_modifiers) \<le> 7"
  shows "itoa (1 + uint ms) = [digit (Suc (unat ms))]"
proof -
  have "nat (1 + uint ms) = Suc (unat ms)" "\<not> 1 + uint ms < 0"
    using uint_ge_0 [of ms] by (simp_all add: nat_add_distrib, linarith)
  then show ?thesis using assms by (simp add: itoa_def show_nat.simps)
qed

lemma digit_inj: "n < 10 \<Longrightarrow> m < 10 \<Longrightarrow> digit n = digit m \<Longrightarrow> n = m"
proof -
  assume "n < 10" "m < 10" "digit n = digit m"
  then have "of_char (digit n) = (of_char (digit m) :: nat)" by simp
  then show "n = m" using \<open>n < 10\<close> \<open>m < 10\<close> by (simp add: digit_def of_char_of)
qed

lemma modified_final:
  assumes "map_of final_letters k = Some f" "unat ms \<le> 7"
  shows "modifiedNamedKey \<lparr>press_key = k, press_modifiers = ms\<rparr> = Some (ESC # ''[1;'' @ digit (Suc (unat ms)) # f)"
    "length f = 1" "f \<noteq> ''~''"
proof -
  show "modifiedNamedKey \<lparr>press_key = k, press_modifiers = ms\<rparr> = Some (ESC # ''[1;'' @ digit (Suc (unat ms)) # f)"
    using assms by (simp add: modifiedNamedKey_def itoa_modifier)
  have "f \<in> snd ` set final_letters" using map_of_SomeD [OF assms(1)] by force
  then show "length f = 1" "f \<noteq> ''~''" by (auto simp: table_defs)
qed

lemma modified_tilde:
  assumes "map_of final_letters k = None" "map_of tilde_codes k = Some code" "unat ms \<le> 7"
  shows "modifiedNamedKey \<lparr>press_key = k, press_modifiers = ms\<rparr> =
    Some (ESC # CHR ''['' # code @ [CHR '';'', digit (Suc (unat ms)), CHR ''~''])"
  using assms by (simp add: modifiedNamedKey_def itoa_modifier)

definition editing_keys :: "key set" where
  "editing_keys = fst ` set (final_letters @ tilde_codes)"

lemma modified_parts:
  assumes "k \<in> editing_keys" "unat ms \<le> 7"
  obtains (final) f where "map_of final_letters k = Some f"
  | (tilde) code where "map_of final_letters k = None" "map_of tilde_codes k = Some code"
proof (cases "map_of final_letters k")
  case None
  then have "k \<in> fst ` set tilde_codes" using assms(1) by (auto simp: map_of_eq_None_iff editing_keys_def)
  then obtain code where "map_of tilde_codes k = Some code" by (metis map_of_eq_None_iff not_None_eq)
  then show ?thesis using that None by blast
qed (use that in blast)

lemma modified_keys_inj:
  assumes "k \<in> editing_keys" "k' \<in> editing_keys"
    "unat ms \<le> 7" "unat ms' \<le> 7"
    "modifiedNamedKey \<lparr>press_key = k, press_modifiers = ms\<rparr> = modifiedNamedKey \<lparr>press_key = k', press_modifiers = ms'\<rparr>"
  shows "k = k' \<and> ms = ms'"
  using assms(1,3)
proof (cases rule: modified_parts)
  case (final f)
  show ?thesis using assms(2,4)
  proof (cases rule: modified_parts)
    case (final f')
    have "f = f'" "digit (Suc (unat ms)) = digit (Suc (unat ms'))"
      using modified_final(1) [OF \<open>map_of final_letters k = Some f\<close> assms(3)] modified_final(1) [OF final assms(4)] assms(5)
      by simp_all
    then show ?thesis
      using digit_inj [of "Suc (unat ms)" "Suc (unat ms')"] assms(3,4)
        map_of_inj [OF distinct_tables(2) \<open>map_of final_letters k = Some f\<close>] final
      by (simp add: word_unat_eq_iff)
  next
    case (tilde code)
    have "last (''[1;'' @ digit (Suc (unat ms)) # f) = last (CHR ''['' # code @ [CHR '';'', digit (Suc (unat ms')), CHR ''~''])"
      using modified_final(1) [OF final assms(3)] modified_tilde [OF tilde assms(4)] assms(5) by simp
    moreover obtain c where "f = [c]" using modified_final(2) [OF final assms(3)] by (auto simp: length_Suc_conv)
    ultimately show ?thesis using modified_final(3) [OF final assms(3)] by simp
  qed
next
  case (tilde code)
  show ?thesis using assms(2,4)
  proof (cases rule: modified_parts)
    case (final f)
    have "last (''[1;'' @ digit (Suc (unat ms')) # f) = last (CHR ''['' # code @ [CHR '';'', digit (Suc (unat ms)), CHR ''~''])"
      using modified_final(1) [OF final assms(4)] modified_tilde [OF tilde assms(3)] assms(5) by simp
    moreover obtain c where "f = [c]" using modified_final(2) [OF final assms(4)] by (auto simp: length_Suc_conv)
    ultimately show ?thesis using modified_final(3) [OF final assms(4)] by simp
  next
    case (tilde code')
    have "code = code'" "digit (Suc (unat ms)) = digit (Suc (unat ms'))"
      using modified_tilde [OF \<open>map_of final_letters k = None\<close> \<open>map_of tilde_codes k = Some code\<close> assms(3)]
        modified_tilde [OF tilde assms(4)] assms(5) by simp_all
    then show ?thesis
      using digit_inj [of "Suc (unat ms)" "Suc (unat ms')"] assms(3,4)
        map_of_inj [OF distinct_tables(3) \<open>map_of tilde_codes k = Some code\<close>] tilde
      by (simp add: word_unat_eq_iff)
  qed
qed

lemma rune_count_ascii: "\<forall>b \<in> set bs. b < 0x80 \<Longrightarrow> rune_count bs = length bs"
proof (induction bs)
  case (Cons b bs)
  then have "snd (utf8_decode (b # bs)) = 1" by (simp add: utf8_decode.simps)
  then show ?case using Cons by simp
qed simp

lemma editing_keys_named:
  assumes "k \<in> editing_keys"
  shows "rune_count (runes_of k) \<noteq> 1"
proof -
  have "\<forall>k \<in> editing_keys. (\<forall>b \<in> set (runes_of k). b < 0x80) \<and> length (runes_of k) \<noteq> 1"
    by (simp add: editing_keys_def table_defs runes_of_def)
  then show ?thesis using assms by (auto simp: rune_count_ascii)
qed

lemma modified_key_encoding:
  assumes "k \<in> editing_keys" "ms \<noteq> 0" "ms AND NOT known_modifiers = 0"
  shows "\<exists>s. modifiedNamedKey \<lparr>press_key = k, press_modifiers = ms\<rparr> = Some s \<and>
     EncodeKeyPress upper \<lparr>press_key = k, press_modifiers = ms\<rparr> t = Inr s"
  using assms(1) modifiers_below [OF assms(3)]
proof (cases rule: modified_parts)
  case (final f)
  then show ?thesis
    using editing_keys_named [OF assms(1)] assms(2,3) modified_final(1) [OF final modifiers_below [OF assms(3)]]
    by (simp add: EncodeKeyPress_def)
next
  case (tilde code)
  then show ?thesis
    using editing_keys_named [OF assms(1)] assms(2,3) modified_tilde [OF tilde modifiers_below [OF assms(3)]]
    by (simp add: EncodeKeyPress_def)
qed

subsection \<open>Properties\<close>

text \<open>
  Two named keys (keys that are not one character) that a terminal can encode never send the same
  bytes, in the normal and in the application cursor mode alike.
\<close>

theorem named_keys_distinct:
  "inj_on (\<lambda>k. EncodeKey upper k t)
     {k. rune_count (runes_of k) \<noteq> 1 \<and> (\<exists>s. EncodeKey upper k t = Inr s)}"
proof (rule inj_onI, clarify)
  fix k k' s
  assume k: "rune_count (runes_of k) \<noteq> 1" "rune_count (runes_of k') \<noteq> 1"
    and e: "EncodeKey upper k t = EncodeKey upper k' t" "EncodeKey upper k t = Inr s"
  then have "EncodeKey upper k' t = Inr s" by simp
  then show "k = k'"
    using map_of_inj [OF _ named_key_table [OF k(1) e(2)] named_key_table [OF k(2)]]
      distinct_tables(1) by (simp split: if_splits)
qed

text \<open>
  The editing and function keys pressed with any non-empty combination of Shift, Alt and Control are
  always encoded, whatever the cursor mode, and key and modifiers can be read off the bytes: different
  presses send different bytes.
\<close>

theorem modified_keys_distinct:
  "inj_on (\<lambda>p. EncodeKeyPress upper \<lparr>press_key = fst p, press_modifiers = snd p\<rparr> t)
     (editing_keys \<times> {ms. ms \<noteq> 0 \<and> ms AND NOT known_modifiers = 0}) \<and>
   (\<lambda>p. EncodeKeyPress upper \<lparr>press_key = fst p, press_modifiers = snd p\<rparr> t) `
     (editing_keys \<times> {ms. ms \<noteq> 0 \<and> ms AND NOT known_modifiers = 0}) \<subseteq> range Inr"
proof (intro conjI inj_onI image_subsetI)
  let ?dom = "editing_keys \<times> {ms. ms \<noteq> 0 \<and> ms AND NOT known_modifiers = 0}"
  show "EncodeKeyPress upper \<lparr>press_key = fst p, press_modifiers = snd p\<rparr> t \<in> range Inr" if "p \<in> ?dom" for p
    using modified_key_encoding [of "fst p" "snd p" upper t] that by auto
  fix p p' assume p: "p \<in> ?dom" "p' \<in> ?dom"
    and eq: "EncodeKeyPress upper \<lparr>press_key = fst p, press_modifiers = snd p\<rparr> t =
      EncodeKeyPress upper \<lparr>press_key = fst p', press_modifiers = snd p'\<rparr> t"
  have "modifiedNamedKey \<lparr>press_key = fst p, press_modifiers = snd p\<rparr> =
      modifiedNamedKey \<lparr>press_key = fst p', press_modifiers = snd p'\<rparr>"
    using modified_key_encoding [of "fst p" "snd p" upper t] modified_key_encoding [of "fst p'" "snd p'" upper t] p eq
    by auto
  then have "fst p = fst p' \<and> snd p = snd p'"
    using p modifiers_below by (intro modified_keys_inj) auto
  then show "p = p'" by (simp add: prod_eq_iff)
qed

text \<open>
  A character that can be combined with Control sends one C0 control or DEL, the same for the small and
  the capital letter.
\<close>

theorem control_keys:
  assumes "controlCharacter upper r = Some b"
  shows "(b < 0x20 \<or> b = 0x7F) \<and> controlCharacter upper (ToUpper upper r) = Some b"
proof -
  have small: "(of_int i :: byte) < 0x20" if "0 \<le> i" "i < 0x20" for i
    using that by (simp add: word_less_def uint_word_of_int)
  have "r < 0x80" using assms by (auto simp: controlCharacter_def Let_def ToUpper_def split: if_splits)
  then have up: "controlCharacter upper (ToUpper upper r) = controlCharacter upper r"
    by (simp add: controlCharacter_def ToUpper_def)
  have "b < 0x20 \<or> b = 0x7F"
    using assms small [of "r - 96"] small [of "r - 64"]
    by (auto simp: controlCharacter_def Let_def ToUpper_def split: if_splits)
  then show ?thesis using assms up by simp
qed

theorem control_keys_witness:
  "controlCharacter id 0x63 = Some 3 \<and> controlCharacter id (ToUpper id 0x63) = Some 3"
  using control_keys [where upper = id and r = "0x63" and b = 3] by (simp add: controlCharacter_def ToUpper_def)

end
