(* ===== verification/Session.thy ===== *)
theory Session
  imports Writers Flight_Recorder Matchers Keys
begin

text \<open>
  A terminal session (\<open>session.go\<close>): one transport stream coordinated with one terminal. The interfaces
  \<open>Terminal\<close> (with the optional interfaces a terminal may implement) and \<open>SessionStream\<close> are records of
  their methods. Every critical section is one operation; the goroutine of \<open>readLoop\<close> is a loop over
  the results its calls of the stream's \<open>Read\<close> have.

  A channel that is closed and replaced to wake its waiters is the number of times that happened. An
  event subscription is its buffer of at most 64 events and whether the channel is still open; the Go
  map of subscribers holds exactly the open ones. An operation that could index out of range returns
  an \<open>option\<close>.
\<close>

record 't terminal_ops =
  to_profile :: "'t \<Rightarrow> string"
  to_write :: "byte list \<Rightarrow> 't \<Rightarrow> (string option \<times> 't) option"
  to_snapshot :: "'t \<Rightarrow> screen"
  to_resize :: "int \<Rightarrow> int \<Rightarrow> 't \<Rightarrow> (string option \<times> 't) option"
  to_drain :: "('t \<Rightarrow> terminal_event list \<times> 't) option"
  to_revision :: "('t \<Rightarrow> nat) option"
  to_encode_press :: "(key_press \<Rightarrow> 't \<Rightarrow> key_error + byte list) option"
  to_encode_key :: "(key \<Rightarrow> 't \<Rightarrow> key_error + byte list) option"

record 'c stream_ops =
  so_write :: "('c, string) write_op"
  so_resize :: "int \<Rightarrow> int \<Rightarrow> 'c \<Rightarrow> string option \<times> 'c"
  so_close :: "'c \<Rightarrow> string option \<times> 'c"

datatype session_error =
    SessionClosed
  | SendFailed "string write_error"
  | PressFailed key_error
  | ResizingRemote string
  | ResizingLocal string
  | ApplyingOutput string
  | SendingAnswerback session_error
  | ReadingOutput string
  | ClosingEndedStream string
  | ClosingStream string

record unsupported_sequence =
  us_sequence :: string
  us_count :: nat

record ('t, 'c) session =
  ss_id :: nat
  ss_terminal :: 't
  ss_stream :: 'c
  ss_changed :: nat
  ss_done :: bool
  ss_closing :: bool
  ss_err :: "session_error option"
  ss_close_err :: "session_error option"
  ss_output :: nat
  ss_event_sequence :: nat
  ss_next_subscriber :: nat
  ss_subscribers :: "nat \<rightharpoonup> terminal_event list \<times> bool"
  ss_history :: "terminal_event list"
  ss_unsupported :: "unsupported_sequence list"
  ss_unsupported_index :: "string \<rightharpoonup> nat"
  ss_recorder :: flightRecorder

definition newSession :: "'t terminal_ops \<Rightarrow> nat \<Rightarrow> int \<Rightarrow> 't \<Rightarrow> 'c \<Rightarrow> ('t, 'c) session" where
  "newSession T i now t c =
     (let screen = to_snapshot T t
      in \<lparr>ss_id = i, ss_terminal = t, ss_stream = c, ss_changed = 0, ss_done = False,
          ss_closing = False, ss_err = None, ss_close_err = None, ss_output = 0,
          ss_event_sequence = 0, ss_next_subscriber = 0, ss_subscribers = Map.empty, ss_history = [],
          ss_unsupported = [], ss_unsupported_index = Map.empty,
          ss_recorder = newFlightRecorder now (scr_width screen) (scr_height screen)\<rparr>)"

subsection \<open>Signals\<close>

definition signalChange :: "('t, 'c) session \<Rightarrow> ('t, 'c) session" where
  "signalChange s = (if ss_done s then s else s\<lparr>ss_changed := ss_changed s + 1\<rparr>)"

definition signalOutput :: "('t, 'c) session \<Rightarrow> ('t, 'c) session" where
  "signalOutput s =
     (if ss_done s then s else s\<lparr>ss_output := ss_output s + 1, ss_changed := ss_changed s + 1\<rparr>)"

definition session_revision :: "'t terminal_ops \<Rightarrow> 't \<Rightarrow> nat" where
  "session_revision T t =
     (case to_revision T of Some f \<Rightarrow> f t | None \<Rightarrow> scr_revision (to_snapshot T t))"

subsection \<open>Input\<close>

definition Send :: "'c stream_ops \<Rightarrow> byte list \<Rightarrow> ('t, 'c) session \<Rightarrow> session_error option \<times> ('t, 'c) session" where
  "Send S data s =
     (if ss_closing s \<or> ss_done s then (Some SessionClosed, s)
      else case send_loop (so_write S) data (ss_stream s) of
          (None, c) \<Rightarrow> (None, s\<lparr>ss_stream := c\<rparr>)
        | (Some e, c) \<Rightarrow> (Some (SendFailed e), s\<lparr>ss_stream := c\<rparr>))"

definition Press ::
  "'t terminal_ops \<Rightarrow> 'c stream_ops \<Rightarrow> key \<Rightarrow> key_modifiers list \<Rightarrow> ('t, 'c) session \<Rightarrow>
     session_error option \<times> ('t, 'c) session" where
  "Press T S key modifiers s =
     (case NewKeyPress key modifiers of
        Inl e \<Rightarrow> (Some (PressFailed e), s)
      | Inr press \<Rightarrow>
          (case to_encode_press T of
             Some encode \<Rightarrow>
               (case encode press (ss_terminal s) of
                  Inl e \<Rightarrow> (Some (PressFailed e), s)
                | Inr data \<Rightarrow> Send S data s)
           | None \<Rightarrow>
               if press_modifiers press \<noteq> 0 then (Some (PressFailed NotAModifiedKeyEncoder), s)
               else (case to_encode_key T of
                       None \<Rightarrow> (Some (PressFailed NotAKeyEncoder), s)
                     | Some encode \<Rightarrow>
                         (case encode key (ss_terminal s) of
                            Inl e \<Rightarrow> (Some (PressFailed e), s)
                          | Inr data \<Rightarrow> Send S data s))))"

definition ResizeSession ::
  "'t terminal_ops \<Rightarrow> 'c stream_ops \<Rightarrow> int \<Rightarrow> int \<Rightarrow> int \<Rightarrow> ('t, 'c) session \<Rightarrow>
     (session_error option \<times> ('t, 'c) session) option" where
  "ResizeSession T S now width height s =
     (if ss_closing s \<or> ss_done s then Some (Some SessionClosed, s)
      else case so_resize S width height (ss_stream s) of
          (Some e, c) \<Rightarrow> Some (Some (ResizingRemote e), s\<lparr>ss_stream := c\<rparr>)
        | (None, c) \<Rightarrow>
            do { (e, t) \<leftarrow> to_resize T width height (ss_terminal s);
                 let s1 = s\<lparr>ss_stream := c, ss_terminal := t\<rparr>
                 in case e of
                      Some x \<Rightarrow> Some (Some (ResizingLocal x), s1)
                    | None \<Rightarrow>
                        Some (None, signalChange
                          (s1\<lparr>ss_recorder := record_resize now width height (ss_recorder s1)\<rparr>)) })"

subsection \<open>Events\<close>

definition retainedEvents :: nat where "retainedEvents = 256"
definition trackedUnsupportedSequences :: nat where "trackedUnsupportedSequences = 256"
definition subscriberBuffer :: nat where "subscriberBuffer = 64"

text \<open>\<open>select { case subscriber <- event: default: ... }\<close> on every subscriber\<close>

definition offer :: "terminal_event \<Rightarrow> terminal_event list \<times> bool \<Rightarrow> terminal_event list \<times> bool" where
  "offer event ch =
     (if \<not> snd ch then ch
      else if length (fst ch) < subscriberBuffer then (fst ch @ [event], True)
      else (fst ch, False))"

definition publishEvent :: "terminal_event \<Rightarrow> ('t, 'c) session \<Rightarrow> ('t, 'c) session" where
  "publishEvent event0 s =
     (let sequence = ss_event_sequence s + 1;
          event = event0\<lparr>ev_sequence := sequence\<rparr>;
          kept = (if length (ss_history s) = retainedEvents then tl (ss_history s) else ss_history s)
      in s\<lparr>ss_event_sequence := sequence, ss_history := kept @ [event],
           ss_subscribers := (\<lambda>i. map_option (offer event) (ss_subscribers s i))\<rparr>)"

definition EventsAfter :: "nat \<Rightarrow> ('t, 'c) session \<Rightarrow> terminal_event list" where
  "EventsAfter sequence s = filter (\<lambda>e. ev_sequence e > sequence) (ss_history s)"

text \<open>\<open>Events\<close>: a session that has ended gives a closed channel and registers nothing.\<close>

definition Events :: "('t, 'c) session \<Rightarrow> nat option \<times> ('t, 'c) session" where
  "Events s =
     (if ss_done s then (None, s)
      else (let i = ss_next_subscriber s + 1
            in (Some i, s\<lparr>ss_next_subscriber := i, ss_subscribers := (ss_subscribers s)(i \<mapsto> ([], True))\<rparr>)))"

text \<open>The end of a subscription's context closes its channel; a subscriber takes its next event.\<close>

definition unsubscribe :: "nat \<Rightarrow> ('t, 'c) session \<Rightarrow> ('t, 'c) session" where
  "unsubscribe i s =
     s\<lparr>ss_subscribers := (\<lambda>j. if j = i then map_option (\<lambda>ch. (fst ch, False)) (ss_subscribers s j)
                               else ss_subscribers s j)\<rparr>"

definition receive :: "nat \<Rightarrow> ('t, 'c) session \<Rightarrow> terminal_event option \<times> ('t, 'c) session" where
  "receive i s =
     (case ss_subscribers s i of
        Some (e # es, open) \<Rightarrow> (Some e, s\<lparr>ss_subscribers := (ss_subscribers s)(i \<mapsto> (es, open))\<rparr>)
      | _ \<Rightarrow> (None, s))"

text \<open>The boolean is whether the sequence should be published.\<close>

definition recordUnsupported :: "string \<Rightarrow> ('t, 'c) session \<Rightarrow> (bool \<times> ('t, 'c) session) option" where
  "recordUnsupported sequence s =
     (case ss_unsupported_index s sequence of
        Some index \<Rightarrow>
          do { u \<leftarrow> get_at (ss_unsupported s) (int index);
               us \<leftarrow> set_at (ss_unsupported s) (int index) (u\<lparr>us_count := us_count u + 1\<rparr>);
               Some (False, s\<lparr>ss_unsupported := us\<rparr>) }
      | None \<Rightarrow>
          if length (ss_unsupported s) = trackedUnsupportedSequences then Some (False, s)
          else Some (True, s\<lparr>ss_unsupported_index :=
                              (ss_unsupported_index s)(sequence \<mapsto> length (ss_unsupported s)),
                             ss_unsupported := ss_unsupported s @ [\<lparr>us_sequence = sequence, us_count = 1\<rparr>]\<rparr>))"

text \<open>One drained event: the answerback is sent, an unsupported sequence is counted, the event published.\<close>

definition handle_event ::
  "'c stream_ops \<Rightarrow> terminal_event \<Rightarrow> ('t, 'c) session \<Rightarrow>
     (session_error option \<times> ('t, 'c) session) option" where
  "handle_event S event s =
     (case (if ev_type event = EventEnquiry \<and> ev_data event \<noteq> []
            then Send S (bytes_of (ev_data event)) s else (None, s)) of
        (Some e, s1) \<Rightarrow> Some (Some (SendingAnswerback e), s1)
      | (None, s1) \<Rightarrow>
          if ev_type event = EventUnsupported then
            do { (first, s2) \<leftarrow> recordUnsupported (ev_data event) s1;
                 Some (None, if first then publishEvent event s2 else s2) }
          else Some (None, publishEvent event s1))"

primrec handle_events ::
  "'c stream_ops \<Rightarrow> terminal_event list \<Rightarrow> ('t, 'c) session \<Rightarrow>
     (session_error option \<times> ('t, 'c) session) option" where
  "handle_events S [] s = Some (None, s)"
| "handle_events S (e # es) s =
     do { (err, s') \<leftarrow> handle_event S e s;
          case err of Some x \<Rightarrow> Some (Some x, s') | None \<Rightarrow> handle_events S es s' }"

subsection \<open>The read loop\<close>

datatype read_error = ReadEOF | ReadFailed string

text \<open>\<open>Continue\<close>, or leave the loop with the terminal error.\<close>

datatype loop_exit = Continue | Leave "session_error option"

definition apply_output ::
  "'t terminal_ops \<Rightarrow> 'c stream_ops \<Rightarrow> int \<Rightarrow> byte list \<Rightarrow> ('t, 'c) session \<Rightarrow>
     (session_error option \<times> ('t, 'c) session) option" where
  "apply_output T S now data s =
     (let s1 = signalOutput s
      in do { (err, t) \<leftarrow> to_write T data (ss_terminal s1);
              let s2 = s1\<lparr>ss_terminal := t,
                         ss_recorder := record_output now data (session_revision T t) (ss_recorder s1)\<rparr>
              in case err of
                   Some x \<Rightarrow> Some (Some (ApplyingOutput x), s2)
                 | None \<Rightarrow>
                     (let s3 = signalChange s2
                      in case to_drain T of
                           None \<Rightarrow> Some (None, s3)
                         | Some drain \<Rightarrow>
                             (let r = drain (ss_terminal s3)
                              in handle_events S (fst r) (s3\<lparr>ss_terminal := snd r\<rparr>))) })"

definition read_step ::
  "'t terminal_ops \<Rightarrow> 'c stream_ops \<Rightarrow> int \<Rightarrow> byte list \<Rightarrow> read_error option \<Rightarrow> ('t, 'c) session \<Rightarrow>
     (loop_exit \<times> ('t, 'c) session) option" where
  "read_step T S now data readErr s =
     do { (err, s1) \<leftarrow> (if data \<noteq> [] then apply_output T S now data s else Some (None, s));
          Some (case err of
                  Some e \<Rightarrow> (Leave (Some e), s1)
                | None \<Rightarrow>
                    (case readErr of
                       None \<Rightarrow> (Continue, s1)
                     | Some ReadEOF \<Rightarrow> (Leave None, s1)
                     | Some (ReadFailed e) \<Rightarrow> (Leave (Some (ReadingOutput e)), s1))) }"

definition finish :: "session_error option \<Rightarrow> ('t, 'c) session \<Rightarrow> ('t, 'c) session" where
  "finish err s =
     s\<lparr>ss_err := (if ss_closing s then None else err), ss_changed := ss_changed s + 1, ss_done := True,
       ss_subscribers := (\<lambda>i. map_option (\<lambda>ch. (fst ch, False)) (ss_subscribers s i))\<rparr>"

definition end_loop :: "'c stream_ops \<Rightarrow> session_error option \<Rightarrow> ('t, 'c) session \<Rightarrow> ('t, 'c) session" where
  "end_loop S err s =
     (case so_close S (ss_stream s) of
        (None, c) \<Rightarrow> finish err (s\<lparr>ss_stream := c\<rparr>)
      | (Some e, c) \<Rightarrow>
          finish (if \<not> ss_closing s \<and> err = None then Some (ClosingEndedStream e) else err)
            (s\<lparr>ss_stream := c\<rparr>))"

text \<open>
  \<open>readLoop\<close> on the reads \<open>(time, data, error)\<close>: a session whose reads are used up is still waiting.
\<close>

primrec readLoop ::
  "'t terminal_ops \<Rightarrow> 'c stream_ops \<Rightarrow> (int \<times> byte list \<times> read_error option) list \<Rightarrow>
     ('t, 'c) session \<Rightarrow> ('t, 'c) session option" where
  "readLoop T S [] s = Some s"
| "readLoop T S (r # rs) s =
     do { (exit, s') \<leftarrow> read_step T S (fst r) (fst (snd r)) (snd (snd r)) s;
          case exit of Continue \<Rightarrow> readLoop T S rs s' | Leave err \<Rightarrow> Some (end_loop S err s') }"

text \<open>The first half of \<open>Close\<close>; its second half waits until \<open>readLoop\<close> has finished.\<close>

definition begin_close :: "'c stream_ops \<Rightarrow> ('t, 'c) session \<Rightarrow> ('t, 'c) session" where
  "begin_close S s =
     (case so_close S (ss_stream s) of
        (None, c) \<Rightarrow> s\<lparr>ss_closing := True, ss_stream := c\<rparr>
      | (Some e, c) \<Rightarrow> s\<lparr>ss_closing := True, ss_stream := c, ss_close_err := Some (ClosingStream e)\<rparr>)"

definition session_recording ::
  "'t terminal_ops \<Rightarrow> int \<Rightarrow> ('t, 'c) session \<Rightarrow> unsupported_sequence flight_recording" where
  "session_recording T now s =
     recording (to_profile T (ss_terminal s)) now (ss_unsupported s) (ss_recorder s)"

end
