(* ===== verification/Session_Events.thy ===== *)
theory Session_Events
  imports Session
begin

text \<open>
  The events of a session: the bounded history with contiguous sequence numbers, the counted
  unsupported sequences, the answerbacks sent for enquiries, and the end of the read loop.
\<close>

subsection \<open>The event history\<close>

definition history_ok :: "('t, 'c) session \<Rightarrow> bool" where
  "history_ok s \<longleftrightarrow> length (ss_history s) \<le> retainedEvents"

definition published :: "terminal_event \<Rightarrow> ('t, 'c) session \<Rightarrow> terminal_event" where
  "published e s = e\<lparr>ev_sequence := ss_event_sequence s + 1\<rparr>"

lemma publish_history:
  "history_ok s \<Longrightarrow> ss_history (publishEvent e s) = last_n retainedEvents (ss_history s @ [published e s])"
  by (subst last_n_snoc) (auto simp: publishEvent_def Let_def published_def history_ok_def retainedEvents_def)

interpretation session_events: bounded_history publishEvent ss_history published retainedEvents history_ok
proof
  fix s :: "('t, 'c) session" and e
  assume "history_ok s"
  then show "ss_history (publishEvent e s) = last_n retainedEvents (ss_history s @ [published e s])"
    by (rule publish_history)
  show "history_ok (publishEvent e s)"
    using \<open>history_ok s\<close> by (simp add: history_ok_def publish_history [OF \<open>history_ok s\<close>])
qed

lemma publish_sequence: "ss_event_sequence (publishEvent e s) = ss_event_sequence s + 1"
  by (simp add: publishEvent_def Let_def)

primrec numbered :: "nat \<Rightarrow> terminal_event list \<Rightarrow> terminal_event list" where
  "numbered n [] = []"
| "numbered n (e # es) = e\<lparr>ev_sequence := n + 1\<rparr> # numbered (Suc n) es"

lemma length_numbered [simp]: "length (numbered n es) = length es"
  by (induction es arbitrary: n) simp_all

lemma entries_numbered: "session_events.entries es s = numbered (ss_event_sequence s) es"
  by (induction es arbitrary: s) (simp_all add: published_def publish_sequence)

lemma filter_numbered:
  "filter (\<lambda>e. ev_sequence e > k) (numbered n es) = drop (k - n) (numbered n es)"
proof (induction es arbitrary: n)
  case (Cons e es)
  show ?case
  proof (cases "k \<le> n")
    case True
    then have "filter (\<lambda>e. ev_sequence e > k) (numbered (Suc n) es) = numbered (Suc n) es"
      using Cons.IH [of "Suc n"] by simp
    then show ?thesis using True by simp
  next
    case False
    then have "k - n = Suc (k - Suc n)" by simp
    then show ?thesis using False Cons.IH [of "Suc n"] by simp
  qed
qed simp

lemma drop_numbered: "drop j (numbered n xs) = numbered (n + j) (drop j xs)"
  by (induction xs arbitrary: j n) (auto simp: drop_Cons' split: nat.splits)

lemma numbered_append: "numbered n (xs @ ys) = numbered n xs @ numbered (n + length xs) ys"
  by (induction xs arbitrary: n) simp_all

lemma last_numbered: "xs \<noteq> [] \<Longrightarrow> ev_sequence (last (numbered n xs)) = n + length xs"
proof (induction xs arbitrary: n)
  case (Cons x xs)
  then show ?case by (cases xs) simp_all
qed simp

definition fresh_events :: "('t, 'c) session \<Rightarrow> bool" where
  "fresh_events s \<longleftrightarrow> ss_history s = [] \<and> ss_event_sequence s = 0"

lemma history_after:
  fixes s :: "('t, 'c) session"
  assumes "fresh_events s"
  shows "ss_history (fold publishEvent es s) = last_n retainedEvents (numbered 0 es)"
proof -
  have "session_events.add_all es s = fold publishEvent es s" for s :: "('t, 'c) session"
    by (induction es arbitrary: s) simp_all
  then show ?thesis
    using session_events.add_all_history [of s es] assms entries_numbered [of es s]
    by (simp add: fresh_events_def history_ok_def)
qed

lemma history_window:
  "EventsAfter k (fold publishEvent es (newSession T i now t c)) =
     drop (max k (length es - 256)) (numbered 0 es)"
proof -
  have h: "ss_history (fold publishEvent es (newSession T i now t c)) = drop (length es - 256) (numbered 0 es)"
    using history_after [of "newSession T i now t c" es]
    by (simp add: fresh_events_def newSession_def Let_def last_n_def retainedEvents_def)
  define d where "d = length es - 256"
  have "drop d (numbered 0 es) = numbered d (drop d es)" by (simp add: drop_numbered)
  then have "EventsAfter k (fold publishEvent es (newSession T i now t c)) = drop (k - d) (drop d (numbered 0 es))"
    by (simp add: EventsAfter_def h d_def [symmetric] filter_numbered)
  then show ?thesis by (simp add: d_def max_def)
qed

text \<open>
  After any events were published in a new session, \<open>EventsAfter k\<close> returns exactly the published events
  with a number above \<open>k\<close> among the last 256, oldest first, numbered without a gap from 1.
\<close>

theorem events_after_exact:
  "EventsAfter k (fold publishEvent es (newSession T i now t c)) =
     drop (max k (length es - 256)) (numbered 0 es)"
  by (rule history_window)

subsection \<open>Unsupported sequences\<close>

text \<open>The sequences in the order of their first appearance.\<close>

definition firsts :: "'a list \<Rightarrow> 'a list" where
  "firsts xs = rev (remdups (rev xs))"

lemma firsts_snoc: "firsts (xs @ [x]) = (if x \<in> set xs then firsts xs else firsts xs @ [x])"
  by (simp add: firsts_def)

lemma set_firsts [simp]: "set (firsts xs) = set xs"
  by (simp add: firsts_def)

lemma distinct_firsts [simp]: "distinct (firsts xs)"
  by (simp add: firsts_def)

definition tracked :: "string list \<Rightarrow> string list" where
  "tracked qs = take trackedUnsupportedSequences (firsts qs)"

definition counts_ok :: "string list \<Rightarrow> ('t, 'c) session \<Rightarrow> bool" where
  "counts_ok qs s \<longleftrightarrow>
     ss_unsupported s = map (\<lambda>q. \<lparr>us_sequence = q, us_count = count_list qs q\<rparr>) (tracked qs) \<and>
     (\<forall>q i. ss_unsupported_index s q = Some i \<longleftrightarrow> i < length (tracked qs) \<and> tracked qs ! i = q)"

lemma tracked_snoc:
  "tracked (qs @ [q]) =
     (if q \<in> set qs \<or> length (tracked qs) = trackedUnsupportedSequences then tracked qs else tracked qs @ [q])"
  by (auto simp: tracked_def firsts_snoc min_def)

lemma recordUnsupported_counts:
  assumes "counts_ok qs s"
  shows "\<exists>first s'. recordUnsupported q s = Some (first, s') \<and> counts_ok (qs @ [q]) s' \<and>
     (first \<longleftrightarrow> q \<in> set (tracked (qs @ [q])) \<and> q \<notin> set qs)"
proof (cases "ss_unsupported_index s q")
  case (Some i)
  then have i: "i < length (tracked qs)" "tracked qs ! i = q" using assms by (auto simp: counts_ok_def)
  have q: "q \<in> set qs" using i by (metis nth_mem set_firsts tracked_def in_set_takeD)
  have d: "distinct (tracked qs)" by (simp add: tracked_def)
  define us where "us = (ss_unsupported s)[i := \<lparr>us_sequence = q, us_count = count_list qs q + 1\<rparr>]"
  have "us = map (\<lambda>x. \<lparr>us_sequence = x, us_count = count_list (qs @ [q]) x\<rparr>) (tracked qs)"
    using i d assms unfolding us_def counts_ok_def
    by (intro nth_equalityI) (auto simp: nth_list_update nth_eq_iff_index_eq)
  moreover have "ss_unsupported s ! i = \<lparr>us_sequence = q, us_count = count_list qs q\<rparr>" "i < length (ss_unsupported s)"
    using i assms by (auto simp: counts_ok_def)
  then have "recordUnsupported q s = Some (False, s\<lparr>ss_unsupported := us\<rparr>)"
    by (simp add: recordUnsupported_def Some get_at_def set_at_def us_def)
  ultimately show ?thesis
    using assms q by (intro exI [of _ False] exI [of _ "s\<lparr>ss_unsupported := us\<rparr>"])
      (simp add: counts_ok_def tracked_snoc)
next
  case None
  then have notin: "q \<notin> set (tracked qs)" using assms None unfolding counts_ok_def in_set_conv_nth by (metis option.distinct(1))
  have len: "length (ss_unsupported s) = length (tracked qs)" using assms by (simp add: counts_ok_def)
  have same: "map (\<lambda>x. \<lparr>us_sequence = x, us_count = count_list (qs @ [q]) x\<rparr>) (tracked qs) =
      map (\<lambda>x. \<lparr>us_sequence = x, us_count = count_list qs x\<rparr>) (tracked qs)"
    using notin by auto
  show ?thesis
  proof (cases "length (tracked qs) = trackedUnsupportedSequences")
    case True
    then show ?thesis using assms None notin len same
      by (intro exI [of _ False] exI [of _ s]) (simp add: recordUnsupported_def counts_ok_def tracked_snoc)
  next
    case False
    then have "tracked qs = firsts qs"
      by (simp add: tracked_def min_def split: if_splits)
    then have "q \<notin> set qs" using notin by simp
    then have "count_list qs q = 0" by (simp add: count_list_0_iff)
    then show ?thesis using assms None notin len same False \<open>q \<notin> set qs\<close>
      by (auto simp: recordUnsupported_def counts_ok_def tracked_snoc nth_append less_Suc_eq)
  qed
qed

lemma counts_ok_new: "counts_ok [] (newSession T i now t c)"
  by (simp add: counts_ok_def newSession_def Let_def tracked_def firsts_def)

definition record_all :: "string list \<Rightarrow> ('t, 'c) session \<Rightarrow> ('t, 'c) session option" where
  "record_all qs s = for_each qs (\<lambda>q s. map_option snd (recordUnsupported q s)) s"

text \<open>
  Recording unsupported sequences in a new session never indexes out of range and counts exactly the
  first 256 distinct sequences, in the order they first appeared, each with the number of times it was
  received.
\<close>

theorem unsupported_counted:
  fixes t :: 't and c :: 'c
  shows "map_option ss_unsupported (record_all qs (newSession T i now t c)) =
     Some (map (\<lambda>q. \<lparr>us_sequence = q, us_count = count_list qs q\<rparr>) (take 256 (firsts qs)))"
proof -
  have "\<exists>s'. record_all qs s = Some s' \<and> counts_ok (ps @ qs) s'" if "counts_ok ps s"
    for ps and s :: "('t, 'c) session"
    using that
  proof (induction qs arbitrary: ps s)
    case (Cons q qs)
    obtain first s1 where s1: "recordUnsupported q s = Some (first, s1)" "counts_ok (ps @ [q]) s1"
      using recordUnsupported_counts [OF Cons.prems, of q] by auto
    then show ?case using Cons.IH [OF s1(2)] by (simp add: record_all_def)
  qed (simp add: record_all_def)
  then obtain s' where "record_all qs (newSession T i now t c) = Some s'" "counts_ok qs s'"
    using counts_ok_new by force
  then show ?thesis by (simp add: counts_ok_def tracked_def trackedUnsupportedSequences_def)
qed

end
