(* ===== verification/Telnet_Wire.thy ===== *)
theory Telnet_Wire
  imports Prelude
begin

text \<open>
  What both ends of the Telnet transport share (\<open>telnet/stream.go\<close>, \<open>reference/telnet/server.go\<close>): the
  command and option bytes, the parser states, the doubling of IAC bytes, and the loop that writes
  all bytes of a message to the connection.

  The network connection (\<open>net.Conn\<close>) is a value of type \<open>conn\<close>: the bytes the peer has been sent so far,
  the answers its next \<open>Write\<close> calls will give (after those, every write takes all its bytes), whether
  it is closed, and whether closing it reports a failure. A
  \<open>Write\<close> takes at most as many bytes as it is offered, as \<open>io.Writer\<close> requires.
\<close>

definition commandSE :: byte where "commandSE = 240"
definition commandSB :: byte where "commandSB = 250"
definition commandWILL :: byte where "commandWILL = 251"
definition commandWONT :: byte where "commandWONT = 252"
definition commandDO :: byte where "commandDO = 253"
definition commandDONT :: byte where "commandDONT = 254"
definition commandIAC :: byte where "commandIAC = 255"

definition optionBinary :: byte where "optionBinary = 0"
definition optionEcho :: byte where "optionEcho = 1"
definition optionSuppressGoAhead :: byte where "optionSuppressGoAhead = 3"
definition optionTerminalType :: byte where "optionTerminalType = 24"
definition optionNegotiateWindow :: byte where "optionNegotiateWindow = 31"
definition terminalTypeIs :: byte where "terminalTypeIs = 0"
definition terminalTypeSend :: byte where "terminalTypeSend = 1"

lemmas command_bytes = commandSE_def commandSB_def commandWILL_def commandWONT_def commandDO_def
  commandDONT_def commandIAC_def

lemmas option_bytes = optionBinary_def optionEcho_def optionSuppressGoAhead_def optionTerminalType_def
  optionNegotiateWindow_def terminalTypeIs_def terminalTypeSend_def

datatype parse_state = stateData | stateIAC | stateNegotiation | stateSubOption | stateSubData | stateSubIAC

datatype telnet_error =
    ConnWriteFailed | ErrShortWrite | EOF | ConnReadFailed | ProcessingFailed telnet_error
  | DimensionsNotPositive | DimensionsExceedLimits | SendingWindowSize telnet_error
  | WritingData telnet_error | ErrClosed | ClosingFailed

subsection \<open>The connection\<close>

text \<open>The answer of one \<open>Write\<close>: how many bytes were taken, and whether it reports an error.\<close>

record conn =
  conn_sent :: "byte list"
  conn_answers :: "(nat \<times> bool) list"
  conn_closed :: bool
  conn_close_fails :: bool

definition new_conn :: conn where
  "new_conn = \<lparr>conn_sent = [], conn_answers = [], conn_closed = False, conn_close_fails = False\<rparr>"

definition conn_close :: "conn \<Rightarrow> telnet_error option \<times> conn" where
  "conn_close c =
     (if conn_closed c then Some ErrClosed else if conn_close_fails c then Some ClosingFailed else None,
      c\<lparr>conn_closed := True\<rparr>)"

definition conn_write :: "byte list \<Rightarrow> conn \<Rightarrow> nat \<times> bool \<times> conn" where
  "conn_write data c =
     (case conn_answers c of
        [] \<Rightarrow> (length data, False, c\<lparr>conn_sent := conn_sent c @ data\<rparr>)
      | (n, failed) # answers \<Rightarrow>
          (let k = min n (length data)
           in (k, failed, c\<lparr>conn_sent := conn_sent c @ take k data, conn_answers := answers\<rparr>)))"

function writeBytes :: "byte list \<Rightarrow> conn \<Rightarrow> telnet_error option \<times> conn" where
  "writeBytes data c =
     (if data = [] then (None, c)
      else let r = conn_write data c
           in if fst (snd r) then (Some ConnWriteFailed, snd (snd r))
              else if fst r = 0 then (Some ErrShortWrite, snd (snd r))
              else writeBytes (drop (fst r) data) (snd (snd r)))"
  by pat_completeness auto
termination
  by (relation "measure (\<lambda>(data, c). length data)") auto

declare writeBytes.simps [simp del]

lemma conn_write_cases:
  obtains k failed c' where "conn_write data c = (k, failed, c')" "k \<le> length data"
    "conn_sent c' = conn_sent c @ take k data"
  by (cases "conn_answers c") (auto simp: conn_write_def Let_def split: prod.splits)

text \<open>The bytes reach the peer in order: all of them, or a prefix and an error.\<close>

lemma writeBytes_spec:
  "\<exists>k. conn_sent (snd (writeBytes data c)) = conn_sent c @ take k data \<and>
     (fst (writeBytes data c) = None \<longrightarrow> length data \<le> k)"
proof (induction data c rule: writeBytes.induct)
  case (1 data c)
  obtain k failed c' where w: "conn_write data c = (k, failed, c')" "k \<le> length data"
      "conn_sent c' = conn_sent c @ take k data"
    by (rule conn_write_cases)
  show ?case
  proof (cases "data = [] \<or> failed \<or> k = 0")
    case True
    then show ?thesis using w by (subst (1 2) writeBytes.simps) (auto simp: Let_def intro: exI [of _ k])
  next
    case False
    then obtain j where j: "conn_sent (snd (writeBytes (drop k data) c')) = conn_sent c' @ take j (drop k data)"
        "fst (writeBytes (drop k data) c') = None \<longrightarrow> length (drop k data) \<le> j"
      using "1.IH" [OF _ refl] w by auto
    have "take k data @ take j (drop k data) = take (k + j) data" using w(2) by (simp add: take_add)
    then show ?thesis
      using False j w by (subst (1 2) writeBytes.simps) (auto simp: Let_def intro!: exI [of _ "k + j"])
  qed
qed

lemma writeBytes_all: "fst (writeBytes data c) = None \<Longrightarrow> conn_sent (snd (writeBytes data c)) = conn_sent c @ data"
  using writeBytes_spec [of data c] by auto

lemma writeBytes_Nil [simp]: "writeBytes [] c = (None, c)"
  by (simp add: writeBytes.simps)

text \<open>A connection whose writes never fail and never stop short.\<close>

definition healthy :: "conn \<Rightarrow> bool" where
  "healthy c \<longleftrightarrow> (\<forall>(n, failed) \<in> set (conn_answers c). \<not> failed \<and> 0 < n)"

lemma conn_write_healthy: "healthy c \<Longrightarrow> data \<noteq> [] \<Longrightarrow> \<not> fst (snd (conn_write data c)) \<and> fst (conn_write data c) \<noteq> 0 \<and> healthy (snd (snd (conn_write data c)))"
  by (cases "conn_answers c") (auto simp: conn_write_def healthy_def Let_def)

lemma writeBytes_healthy:
  "healthy c \<Longrightarrow> fst (writeBytes data c) = None \<and> healthy (snd (writeBytes data c))"
proof (induction data c rule: writeBytes.induct)
  case (1 data c)
  show ?case
  proof (cases "data = []")
    case False
    then show ?thesis
      using "1.IH" [OF False refl] conn_write_healthy [OF "1.prems" False]
      by (subst (1 2) writeBytes.simps) (simp add: Let_def)
  qed (use 1 in simp)
qed

subsection \<open>Escaping\<close>

primrec escape :: "byte list \<Rightarrow> byte list" where
  "escape [] = []"
| "escape (b # bs) = (if b = commandIAC then [b, commandIAC] else [b]) @ escape bs"

definition appendEscaped :: "byte list \<Rightarrow> byte list \<Rightarrow> byte list" where
  "appendEscaped destination data = destination @ escape data"

lemma escape_append: "escape (xs @ ys) = escape xs @ escape ys"
  by (induction xs) auto

end
