(* ===== verification/Telnet_Client.thy ===== *)
theory Telnet_Client
  imports Telnet_Wire
begin

text \<open>
  The Telnet session stream of the client (\<open>telnet/stream.go\<close>): the six-state parser of the server's
  bytes, option negotiation, terminal type and window size, and the \<open>Read\<close>, \<open>Write\<close>, \<open>Resize\<close> and
  \<open>Close\<close> methods. The \<open>map[byte]bool\<close> sets are sets of bytes. \<open>Read\<close> takes the results its calls of
  the connection's \<open>Read\<close> will have as a list and is \<open>Blocked\<close> when it needs one more.
\<close>

record stream =
  st_conn :: conn
  st_state :: parse_state
  st_negotiation :: byte
  st_sub_option :: byte
  st_sub_data :: "byte list"
  st_pending :: "byte list"
  st_pending_err :: "telnet_error option"
  st_terminal :: "byte list"
  st_width :: int
  st_height :: int
  st_local :: "byte set"
  st_remote :: "byte set"
  st_close_once :: bool
  st_close_err :: "telnet_error option"

definition newStream :: "conn \<Rightarrow> byte list \<Rightarrow> int \<Rightarrow> int \<Rightarrow> stream" where
  "newStream c t width height =
     \<lparr>st_conn = c, st_state = stateData, st_negotiation = 0, st_sub_option = 0, st_sub_data = [],
      st_pending = [], st_pending_err = None, st_terminal = t, st_width = width, st_height = height,
      st_local = {}, st_remote = {}, st_close_once = False, st_close_err = None\<rparr>"

subsection \<open>Sending\<close>

definition send :: "byte list \<Rightarrow> stream \<Rightarrow> telnet_error option \<times> stream" where
  "send data s =
     (case writeBytes data (st_conn s) of (e, c) \<Rightarrow> (e, s\<lparr>st_conn := c\<rparr>))"

definition sendCommand :: "byte \<Rightarrow> byte \<Rightarrow> stream \<Rightarrow> telnet_error option \<times> stream" where
  "sendCommand command option s = send [commandIAC, command, option] s"

definition window_bytes :: "int \<Rightarrow> int \<Rightarrow> byte list" where
  "window_bytes width height =
     [of_int (width div 256), of_int width, of_int (height div 256), of_int height]"

definition window_message :: "int \<Rightarrow> int \<Rightarrow> byte list" where
  "window_message width height =
     appendEscaped [commandIAC, commandSB, optionNegotiateWindow] (window_bytes width height) @
       [commandIAC, commandSE]"

definition sendWindowSize :: "stream \<Rightarrow> telnet_error option \<times> stream" where
  "sendWindowSize s = send (window_message (st_width s) (st_height s)) s"

definition terminal_message :: "byte list \<Rightarrow> byte list" where
  "terminal_message t =
     appendEscaped [commandIAC, commandSB, optionTerminalType, terminalTypeIs] t @ [commandIAC, commandSE]"

definition subnegotiate :: "stream \<Rightarrow> telnet_error option \<times> stream" where
  "subnegotiate s =
     (if st_sub_option s \<noteq> optionTerminalType \<or> st_sub_data s = [] \<or> hd (st_sub_data s) \<noteq> terminalTypeSend
      then (None, s)
      else send (terminal_message (st_terminal s)) s)"

definition Write :: "byte list \<Rightarrow> stream \<Rightarrow> telnet_error option \<times> stream" where
  "Write data s =
     (case send (escape data) s of
        (None, s') \<Rightarrow> (None, s')
      | (Some e, s') \<Rightarrow> (Some (WritingData e), s'))"

definition Resize :: "int \<Rightarrow> int \<Rightarrow> stream \<Rightarrow> telnet_error option \<times> stream" where
  "Resize width height s =
     (if width \<le> 0 \<or> height \<le> 0 then (Some DimensionsNotPositive, s)
      else if width > 65535 \<or> height > 65535 then (Some DimensionsExceedLimits, s)
      else
        (let s1 = s\<lparr>st_width := width, st_height := height\<rparr>
         in if optionNegotiateWindow \<in> st_local s1 then
              (case sendWindowSize s1 of
                 (None, s2) \<Rightarrow> (None, s2)
               | (Some e, s2) \<Rightarrow> (Some (SendingWindowSize e), s2))
            else (None, s1)))"

text \<open>\<open>Close\<close>: the connection is closed once; a connection that is closed already is no error.\<close>

definition Close :: "stream \<Rightarrow> telnet_error option \<times> stream" where
  "Close s =
     (if st_close_once s then (st_close_err s, s)
      else (case conn_close (st_conn s) of
              (e, c) \<Rightarrow>
                (let err = (if e \<noteq> None \<and> e \<noteq> Some ErrClosed then Some ClosingFailed else None)
                 in (err, s\<lparr>st_conn := c, st_close_once := True, st_close_err := err\<rparr>))))"

subsection \<open>Negotiation\<close>

definition supportsLocal :: "byte \<Rightarrow> bool" where
  "supportsLocal option \<longleftrightarrow>
     option \<in> {optionBinary, optionSuppressGoAhead, optionTerminalType, optionNegotiateWindow}"

definition supportsRemote :: "byte \<Rightarrow> bool" where
  "supportsRemote option \<longleftrightarrow> option \<in> {optionBinary, optionEcho, optionSuppressGoAhead}"

definition negotiate :: "byte \<Rightarrow> byte \<Rightarrow> stream \<Rightarrow> telnet_error option \<times> stream" where
  "negotiate command option s =
     (if command = commandDO then
        (if \<not> supportsLocal option then sendCommand commandWONT option s
         else
           (let alreadyEnabled = option \<in> st_local s;
                s1 = s\<lparr>st_local := insert option (st_local s)\<rparr>
            in if alreadyEnabled then (None, s1)
               else case sendCommand commandWILL option s1 of
                   (Some e, s2) \<Rightarrow> (Some e, s2)
                 | (None, s2) \<Rightarrow>
                     if option = optionNegotiateWindow then sendWindowSize s2 else (None, s2)))
      else if command = commandDONT then
        (let enabled = option \<in> st_local s;
             s1 = s\<lparr>st_local := st_local s - {option}\<rparr>
         in if enabled then sendCommand commandWONT option s1 else (None, s1))
      else if command = commandWILL then
        (if \<not> supportsRemote option then sendCommand commandDONT option s
         else
           (let alreadyEnabled = option \<in> st_remote s;
                s1 = s\<lparr>st_remote := insert option (st_remote s)\<rparr>
            in if alreadyEnabled then (None, s1) else sendCommand commandDO option s1))
      else if command = commandWONT then
        (let enabled = option \<in> st_remote s;
             s1 = s\<lparr>st_remote := st_remote s - {option}\<rparr>
         in if enabled then sendCommand commandDONT option s1 else (None, s1))
      else (None, s))"

subsection \<open>Parsing\<close>

definition is_negotiation :: "byte \<Rightarrow> bool" where
  "is_negotiation b \<longleftrightarrow> b \<in> {commandDO, commandDONT, commandWILL, commandWONT}"

definition process_byte :: "byte \<Rightarrow> stream \<Rightarrow> telnet_error option \<times> stream" where
  "process_byte b s =
     (case st_state s of
        stateData \<Rightarrow>
          (None, if b = commandIAC then s\<lparr>st_state := stateIAC\<rparr>
                 else s\<lparr>st_pending := st_pending s @ [b]\<rparr>)
      | stateIAC \<Rightarrow>
          (None, if b = commandIAC
                 then s\<lparr>st_pending := st_pending s @ [commandIAC], st_state := stateData\<rparr>
                 else if is_negotiation b then s\<lparr>st_negotiation := b, st_state := stateNegotiation\<rparr>
                 else if b = commandSB then s\<lparr>st_state := stateSubOption\<rparr>
                 else s\<lparr>st_state := stateData\<rparr>)
      | stateNegotiation \<Rightarrow> negotiate (st_negotiation s) b (s\<lparr>st_state := stateData\<rparr>)
      | stateSubOption \<Rightarrow>
          (None, s\<lparr>st_sub_option := b, st_sub_data := [], st_state := stateSubData\<rparr>)
      | stateSubData \<Rightarrow>
          (None, if b = commandIAC then s\<lparr>st_state := stateSubIAC\<rparr>
                 else s\<lparr>st_sub_data := st_sub_data s @ [b]\<rparr>)
      | stateSubIAC \<Rightarrow>
          (if b = commandIAC
           then (None, s\<lparr>st_sub_data := st_sub_data s @ [commandIAC], st_state := stateSubData\<rparr>)
           else if b = commandSE then subnegotiate (s\<lparr>st_state := stateData\<rparr>)
           else (None, s\<lparr>st_state := stateData\<rparr>)))"

primrec process :: "byte list \<Rightarrow> stream \<Rightarrow> telnet_error option \<times> stream" where
  "process [] s = (None, s)"
| "process (b # bs) s =
     (case process_byte b s of
        (Some e, s') \<Rightarrow> (Some e, s')
      | (None, s') \<Rightarrow> process bs s')"

subsection \<open>Read\<close>

datatype conn_read = Received "byte list" "telnet_error option"

datatype read_result = ReadBytes "byte list" | ReadError telnet_error | Blocked

text \<open>The two effects of one successful or failed read of the connection.\<close>

definition absorb :: "conn_read \<Rightarrow> stream \<Rightarrow> stream" where
  "absorb r s =
     (case r of Received data readErr \<Rightarrow>
        (let s1 = (if data = [] then s
                   else case process data s of
                       (None, s') \<Rightarrow> s'
                     | (Some e, s') \<Rightarrow> s'\<lparr>st_pending_err := Some (ProcessingFailed e)\<rparr>)
         in if readErr \<noteq> None \<and> st_pending_err s1 = None
            then s1\<lparr>st_pending_err := Some (if readErr = Some EOF then EOF else ConnReadFailed)\<rparr>
            else s1))"

text \<open>The result, the new state, and the reads of the connection that are left.\<close>

primrec read_loop :: "nat \<Rightarrow> conn_read list \<Rightarrow> stream \<Rightarrow> read_result \<times> stream \<times> conn_read list" where
  "read_loop n [] s =
     (if st_pending s \<noteq> []
      then (ReadBytes (take n (st_pending s)), s\<lparr>st_pending := drop n (st_pending s)\<rparr>, [])
      else case st_pending_err s of
          Some e \<Rightarrow> (ReadError e, s\<lparr>st_pending_err := None\<rparr>, [])
        | None \<Rightarrow> (Blocked, s, []))"
| "read_loop n (r # rs) s =
     (if st_pending s \<noteq> []
      then (ReadBytes (take n (st_pending s)), s\<lparr>st_pending := drop n (st_pending s)\<rparr>, r # rs)
      else case st_pending_err s of
          Some e \<Rightarrow> (ReadError e, s\<lparr>st_pending_err := None\<rparr>, r # rs)
        | None \<Rightarrow> read_loop n rs (absorb r s))"

definition Read :: "nat \<Rightarrow> conn_read list \<Rightarrow> stream \<Rightarrow> read_result \<times> stream \<times> conn_read list" where
  "Read n rs s = (if n = 0 then (ReadBytes [], s, rs) else read_loop n rs s)"

end
