(* ===== verification/Telnet_Server.thy ===== *)
theory Telnet_Server
  imports Telnet_Wire
begin

text \<open>
  The Telnet transport of the reference TUI (\<open>reference/telnet/server.go\<close>): the opening negotiation,
  the parser of the client's bytes, the window sizes it hands to the application through a channel of
  capacity one, and \<open>Read\<close> and \<open>Write\<close>. The channel is \<open>pl_resizes\<close>, empty or holding one size; the
  hand-over is one atomic step here, its interleaving with the receiver is treated separately.
\<close>

record protocolStream =
  pl_conn :: conn
  pl_resizes :: "(int \<times> int) option"
  pl_state :: parse_state
  pl_command :: byte
  pl_sub_option :: byte
  pl_sub_data :: "byte list"
  pl_pending :: "byte list"
  pl_pending_err :: "telnet_error option"

definition new_protocol_stream :: "conn \<Rightarrow> protocolStream" where
  "new_protocol_stream c =
     \<lparr>pl_conn = c, pl_resizes = None, pl_state = stateData, pl_command = 0, pl_sub_option = 0,
      pl_sub_data = [], pl_pending = [], pl_pending_err = None\<rparr>"

definition writeProtocol :: "byte list \<Rightarrow> protocolStream \<Rightarrow> telnet_error option \<times> protocolStream" where
  "writeProtocol data s =
     (case writeBytes data (pl_conn s) of (e, c) \<Rightarrow> (e, s\<lparr>pl_conn := c\<rparr>))"

definition opening_bytes :: "byte list" where
  "opening_bytes =
     [commandIAC, commandWILL, optionEcho, commandIAC, commandWILL, optionSuppressGoAhead,
      commandIAC, commandDO, optionTerminalType, commandIAC, commandDO, optionNegotiateWindow]"

definition open_negotiation :: "protocolStream \<Rightarrow> telnet_error option \<times> protocolStream" where
  "open_negotiation s = writeProtocol opening_bytes s"

definition server_write :: "byte list \<Rightarrow> protocolStream \<Rightarrow> telnet_error option \<times> protocolStream" where
  "server_write data s =
     (case writeProtocol (escape data) s of
        (None, s') \<Rightarrow> (None, s')
      | (Some e, s') \<Rightarrow> (Some (WritingData e), s'))"

definition terminal_request :: "byte list" where
  "terminal_request =
     [commandIAC, commandSB, optionTerminalType, terminalTypeSend, commandIAC, commandSE]"

text \<open>A full channel is emptied before the new size is put in: the latest size wins.\<close>

definition applySubnegotiation :: "protocolStream \<Rightarrow> protocolStream" where
  "applySubnegotiation s =
     (if pl_sub_option s \<noteq> optionNegotiateWindow \<or> length (pl_sub_data s) \<noteq> 4 then s
      else
        (let d = pl_sub_data s;
             width = uint (d ! 0) * 256 + uint (d ! 1);
             height = uint (d ! 2) * 256 + uint (d ! 3)
         in if width = 0 \<or> height = 0 then s else s\<lparr>pl_resizes := Some (width, height)\<rparr>))"

definition server_byte :: "byte \<Rightarrow> protocolStream \<Rightarrow> telnet_error option \<times> protocolStream" where
  "server_byte b s =
     (case pl_state s of
        stateData \<Rightarrow>
          (None, if b = commandIAC then s\<lparr>pl_state := stateIAC\<rparr>
                 else s\<lparr>pl_pending := pl_pending s @ [b]\<rparr>)
      | stateIAC \<Rightarrow>
          (None, if b = commandIAC then s\<lparr>pl_pending := pl_pending s @ [b], pl_state := stateData\<rparr>
                 else if b \<in> {commandWILL, commandWONT, commandDO, commandDONT}
                 then s\<lparr>pl_command := b, pl_state := stateNegotiation\<rparr>
                 else if b = commandSB then s\<lparr>pl_state := stateSubOption\<rparr>
                 else s\<lparr>pl_state := stateData\<rparr>)
      | stateNegotiation \<Rightarrow>
          (let s1 = s\<lparr>pl_state := stateData\<rparr>
           in if pl_command s1 = commandWILL \<and> b = optionTerminalType
              then writeProtocol terminal_request s1 else (None, s1))
      | stateSubOption \<Rightarrow>
          (None, s\<lparr>pl_sub_option := b, pl_sub_data := [], pl_state := stateSubData\<rparr>)
      | stateSubData \<Rightarrow>
          (None, if b = commandIAC then s\<lparr>pl_state := stateSubIAC\<rparr>
                 else s\<lparr>pl_sub_data := pl_sub_data s @ [b]\<rparr>)
      | stateSubIAC \<Rightarrow>
          (None, if b = commandIAC
                 then s\<lparr>pl_sub_data := pl_sub_data s @ [b], pl_state := stateSubData\<rparr>
                 else (let s1 = s\<lparr>pl_state := stateData\<rparr>
                       in if b = commandSE then applySubnegotiation s1 else s1)))"

primrec server_process :: "byte list \<Rightarrow> protocolStream \<Rightarrow> telnet_error option \<times> protocolStream" where
  "server_process [] s = (None, s)"
| "server_process (b # bs) s =
     (case server_byte b s of
        (Some e, s') \<Rightarrow> (Some e, s')
      | (None, s') \<Rightarrow> server_process bs s')"

datatype server_read = ServerBytes "byte list" | ServerError telnet_error | ServerBlocked

text \<open>
  \<open>Read\<close>: unlike the client's, it returns a protocol error at once, and overwrites a pending error by
  a later one. A read is \<open>(data, error)\<close>.
\<close>

primrec server_read_loop ::
  "nat \<Rightarrow> (byte list \<times> telnet_error option) list \<Rightarrow> protocolStream \<Rightarrow>
     server_read \<times> protocolStream" where
  "server_read_loop n [] s =
     (if pl_pending s \<noteq> []
      then (ServerBytes (take n (pl_pending s)), s\<lparr>pl_pending := drop n (pl_pending s)\<rparr>)
      else case pl_pending_err s of
          Some e \<Rightarrow> (ServerError e, s\<lparr>pl_pending_err := None\<rparr>)
        | None \<Rightarrow> (ServerBlocked, s))"
| "server_read_loop n (r # rs) s =
     (if pl_pending s \<noteq> []
      then (ServerBytes (take n (pl_pending s)), s\<lparr>pl_pending := drop n (pl_pending s)\<rparr>)
      else case pl_pending_err s of
          Some e \<Rightarrow> (ServerError e, s\<lparr>pl_pending_err := None\<rparr>)
        | None \<Rightarrow>
            (case (if fst r = [] then (None, s) else server_process (fst r) s) of
               (Some e, s1) \<Rightarrow> (ServerError (ProcessingFailed e), s1)
             | (None, s1) \<Rightarrow>
                 server_read_loop n rs
                   (case snd r of
                      None \<Rightarrow> s1
                    | Some e \<Rightarrow> s1\<lparr>pl_pending_err := Some (if e = EOF then EOF else ConnReadFailed)\<rparr>)))"

definition server_Read ::
  "nat \<Rightarrow> (byte list \<times> telnet_error option) list \<Rightarrow> protocolStream \<Rightarrow> server_read \<times> protocolStream" where
  "server_Read n rs s = (if n = 0 then (ServerBytes [], s) else server_read_loop n rs s)"

lemma server_process_append:
  "server_process (xs @ ys) s =
     (case server_process xs s of (Some e, s') \<Rightarrow> (Some e, s') | (None, s') \<Rightarrow> server_process ys s')"
  by (induction xs arbitrary: s) (auto split: prod.splits option.splits)

text \<open>Escaped data is delivered as it was before the escaping.\<close>

lemma server_process_escape:
  "pl_state s = stateData \<Longrightarrow>
     server_process (escape data) s = (None, s\<lparr>pl_pending := pl_pending s @ data\<rparr>)"
  by (induction data arbitrary: s) (auto simp: server_byte_def command_bytes)

text \<open>A subnegotiation collects its unescaped data.\<close>

lemma server_process_sub:
  "pl_state s = stateSubData \<Longrightarrow>
     server_process (escape data) s = (None, s\<lparr>pl_sub_data := pl_sub_data s @ data\<rparr>)"
  by (induction data arbitrary: s) (auto simp: server_byte_def command_bytes)

end
