(* ===== verification/Telnet_Protocol.thy ===== *)
theory Telnet_Protocol
  imports Telnet_Client Telnet_Server
begin

text \<open>
  The two ends of the Telnet transport together. Every byte one end writes arrives at the other as it
  was given to \<open>Write\<close>, the window size sent by the client is the size the server applies, negotiation
  only ever enables supported options and does not answer what is already agreed, and the client's
  parser does not care how the network splits the bytes.
\<close>

subsection \<open>The client's parser\<close>

lemma process_append:
  "process (xs @ ys) s =
     (case process xs s of (Some e, s') \<Rightarrow> (Some e, s') | (None, s') \<Rightarrow> process ys s')"
  by (induction xs arbitrary: s) (auto split: prod.splits option.splits)

lemma process_escape:
  "st_state s = stateData \<Longrightarrow>
     process (escape data) s = (None, s\<lparr>st_pending := st_pending s @ data\<rparr>)"
  by (induction data arbitrary: s) (auto simp: process_byte_def command_bytes)

lemma process_sub:
  "st_state s = stateSubData \<Longrightarrow>
     process (escape data) s = (None, s\<lparr>st_sub_data := st_sub_data s @ data\<rparr>)"
  by (induction data arbitrary: s) (auto simp: process_byte_def command_bytes)

text \<open>What no byte of the peer can change.\<close>

definition options_ok :: "stream \<Rightarrow> bool" where
  "options_ok s \<longleftrightarrow>
     (\<forall>option \<in> st_local s. supportsLocal option) \<and> (\<forall>option \<in> st_remote s. supportsRemote option)"

lemma send_frame [simp]:
  "st_local (snd (send data s)) = st_local s" "st_remote (snd (send data s)) = st_remote s"
  "st_pending (snd (send data s)) = st_pending s" "st_width (snd (send data s)) = st_width s"
  "st_height (snd (send data s)) = st_height s" "st_state (snd (send data s)) = st_state s"
  by (simp_all add: send_def split: prod.splits)

lemma options_ok_send: "options_ok (snd (send data s)) = options_ok s"
  by (simp add: options_ok_def)

lemma options_ok_negotiate:
  assumes "options_ok s"
  shows "options_ok (snd (negotiate command option s))"
proof -
  have ins: "options_ok (s\<lparr>st_local := insert option (st_local s)\<rparr>)" if "supportsLocal option"
    using assms that by (simp add: options_ok_def)
  have ins': "options_ok (s\<lparr>st_remote := insert option (st_remote s)\<rparr>)" if "supportsRemote option"
    using assms that by (simp add: options_ok_def)
  have del: "options_ok (s\<lparr>st_local := st_local s - {option}\<rparr>)" "options_ok (s\<lparr>st_remote := st_remote s - {option}\<rparr>)"
    using assms by (auto simp: options_ok_def)
  have snd: "options_ok u \<Longrightarrow> send data u = (e, v) \<Longrightarrow> options_ok v" for data u e v
    using options_ok_send [of data u] by simp
  show ?thesis
    unfolding negotiate_def Let_def sendCommand_def sendWindowSize_def
    using assms ins ins' del
    by (auto simp: options_ok_send split: prod.splits option.splits dest: snd)
qed

lemma options_ok_byte: "options_ok s \<Longrightarrow> options_ok (snd (process_byte b s))"
  using options_ok_negotiate [of "s\<lparr>st_state := stateData\<rparr>"]
  by (auto simp: process_byte_def subnegotiate_def options_ok_def split: parse_state.splits)

lemma options_ok_process: "options_ok s \<Longrightarrow> options_ok (snd (process bs s))"
proof (induction bs arbitrary: s)
  case (Cons b bs)
  then show ?case using options_ok_byte [of s b]
    by (cases "process_byte b s") (auto split: option.splits)
qed simp

subsection \<open>Window sizes\<close>

lemma window_bytes_read:
  assumes "0 < width" "width \<le> 65535" "0 < height" "height \<le> 65535"
  shows "uint (window_bytes width height ! 0) * 256 + uint (window_bytes width height ! 1) = width"
    "uint (window_bytes width height ! 2) * 256 + uint (window_bytes width height ! 3) = height"
    "length (window_bytes width height) = 4"
proof -
  have hi: "uint (of_int (n div 256) :: byte) = n div 256" if "0 < n" "n \<le> 65535" for n :: int
  proof -
    have "0 \<le> n div 256" "n div 256 < 256" using that by auto
    then show ?thesis by (simp add: uint_word_of_int)
  qed
  have lo: "uint (of_int n :: byte) = n mod 256" for n :: int
    by (simp add: uint_word_of_int)
  show "uint (window_bytes width height ! 0) * 256 + uint (window_bytes width height ! 1) = width"
    using assms by (simp add: window_bytes_def hi lo)
  show "uint (window_bytes width height ! 2) * 256 + uint (window_bytes width height ! 3) = height"
    using assms by (simp add: window_bytes_def hi lo numeral_2_eq_2 numeral_3_eq_3)
  show "length (window_bytes width height) = 4" by (simp add: window_bytes_def)
qed

subsection \<open>Properties\<close>

text \<open>
  Any bytes survive the Telnet escaping in both directions: what the client writes is appended to
  the input of the reference server, what the server writes to the input of the client, and nothing is
  answered.
\<close>

theorem telnet_data_transparent:
  assumes "pl_state server = stateData" "st_state client = stateData"
  shows "server_process (escape data) server = (None, server\<lparr>pl_pending := pl_pending server @ data\<rparr>) \<and>
     process (escape data) client = (None, client\<lparr>st_pending := st_pending client @ data\<rparr>)"
  using server_process_escape [OF assms(1)] process_escape [OF assms(2)] by simp

theorem telnet_data_transparent_witness:
  "server_process (escape [65, 255, 240]) (new_protocol_stream new_conn) =
     (None, (new_protocol_stream new_conn)\<lparr>pl_pending := [65, 255, 240]\<rparr>)"
  using telnet_data_transparent [of "new_protocol_stream new_conn"
      "newStream new_conn [] 80 24" "[65, 255, 240]"]
  by (simp add: new_protocol_stream_def newStream_def)

lemma server_window:
  assumes "0 < width" "width \<le> 65535" "0 < height" "height \<le> 65535" "pl_state server = stateData"
  shows "server_process (window_message width height) server =
     (None, server\<lparr>pl_state := stateData, pl_sub_option := optionNegotiateWindow,
        pl_sub_data := window_bytes width height, pl_resizes := Some (width, height)\<rparr>)"
proof -
  define s1 where "s1 = server\<lparr>pl_state := stateSubData, pl_sub_option := optionNegotiateWindow, pl_sub_data := []\<rparr>"
  define s2 where "s2 = s1\<lparr>pl_sub_data := window_bytes width height\<rparr>"
  define s3 where "s3 = s2\<lparr>pl_state := stateData, pl_resizes := Some (width, height)\<rparr>"
  have a: "server_process [commandIAC, commandSB, optionNegotiateWindow] server = (None, s1)"
    using assms(5) by (simp add: server_byte_def command_bytes s1_def)
  have b: "server_process (escape (window_bytes width height)) s1 = (None, s2)"
    using server_process_sub [of s1 "window_bytes width height"] by (simp add: s1_def s2_def)
  have c: "server_process [commandIAC, commandSE] s2 = (None, s3)"
    using window_bytes_read [OF assms(1-4)] assms(1,3)
    by (simp add: server_byte_def command_bytes applySubnegotiation_def s3_def s2_def s1_def Let_def)
  have "server_process (window_message width height) server = (None, s3)"
    unfolding window_message_def appendEscaped_def
    by (simp only: server_process_append a b c prod.case option.case)
  then show ?thesis by (simp add: s3_def s2_def s1_def)
qed

text \<open>
  A window size between 1x1 and 65535x65535, sent as a NAWS subnegotiation, is the size the
  reference server hands to its application, also when a byte of it is 255 and has to be doubled.
\<close>

theorem naws_roundtrip:
  assumes "0 < width" "width \<le> 65535" "0 < height" "height \<le> 65535" "pl_state server = stateData"
  shows "\<exists>server'. server_process (window_message width height) server = (None, server') \<and>
     pl_resizes server' = Some (width, height) \<and> pl_state server' = stateData \<and>
     pl_pending server' = pl_pending server"
  by (simp add: server_window [OF assms])

theorem naws_roundtrip_witness:
  "\<exists>server'. server_process (window_message 255 65535) (new_protocol_stream new_conn)
     = (None, server') \<and> pl_resizes server' = Some (255, 65535)"
  using naws_roundtrip [of 255 65535 "new_protocol_stream new_conn"]
  by (auto simp: new_protocol_stream_def)

text \<open>
  Whatever bytes the server sends, in whatever pieces, the client only ever enables options it
  supports, and the pieces make no difference.
\<close>

theorem telnet_options_supported:
  "options_ok (snd (process bs (newStream c term width height))) \<and>
   process (xs @ ys) s =
     (case process xs s of (Some e, s') \<Rightarrow> (Some e, s') | (None, s') \<Rightarrow> process ys s')"
proof -
  have "options_ok (newStream c term width height)" by (simp add: options_ok_def newStream_def)
  then show ?thesis by (simp add: process_append options_ok_process)
qed

text \<open>
  A request to enable an option that is enabled, or to disable one that is not, changes nothing and is
  not answered, so two ends that agree exchange no further commands; a request for an unsupported
  option is refused and changes no option.
\<close>

theorem telnet_negotiation_quiet:
  assumes "yes \<in> st_local s" "supportsLocal yes" "will \<in> st_remote s" "supportsRemote will"
    and "no \<notin> st_local s" "wont \<notin> st_remote s" "\<not> supportsLocal bad" "\<not> supportsRemote bad"
  shows "negotiate commandDO yes s = (None, s) \<and> negotiate commandWILL will s = (None, s) \<and>
     negotiate commandDONT no s = (None, s) \<and> negotiate commandWONT wont s = (None, s) \<and>
     negotiate commandDO bad s = sendCommand commandWONT bad s \<and>
     negotiate commandWILL bad s = sendCommand commandDONT bad s"
  using assms by (simp add: negotiate_def command_bytes insert_absorb)

theorem telnet_negotiation_quiet_witness:
  "negotiate commandDO 24 ((newStream new_conn [] 80 24)\<lparr>st_local := {24}, st_remote := {1}\<rparr>) =
     (None, (newStream new_conn [] 80 24)\<lparr>st_local := {24}, st_remote := {1}\<rparr>)"
  using telnet_negotiation_quiet [where yes = 24 and will = 1 and no = 3 and wont = 3 and bad = 99 and
      s = "(newStream new_conn [] 80 24)\<lparr>st_local := {24}, st_remote := {1}\<rparr>"]
  by (simp add: supportsLocal_def supportsRemote_def option_bytes newStream_def)

text \<open>
  A \<open>Read\<close> with room for \<open>n > 0\<close> bytes returns the next at most \<open>n\<close> bytes of the decoded input, at least
  one, and keeps the rest for the next call; an error of the connection or the protocol is returned
  only when every byte decoded before it has been delivered, and then once.
\<close>

theorem telnet_read_in_order:
  assumes "0 < n" "Read n rs s = (result, s', rest)"
  shows "\<exists>used. rs = used @ rest \<and>
     (case result of
        ReadBytes data \<Rightarrow> data \<noteq> [] \<and> length data \<le> n \<and>
          data @ st_pending s' = st_pending (foldl (\<lambda>s r. absorb r s) s used)
      | ReadError e \<Rightarrow> st_pending (foldl (\<lambda>s r. absorb r s) s used) = [] \<and> st_pending s' = [] \<and>
          st_pending_err (foldl (\<lambda>s r. absorb r s) s used) = Some e \<and> st_pending_err s' = None
      | Blocked \<Rightarrow> rest = [] \<and> st_pending s' = [] \<and> st_pending_err s' = None)"
proof -
  have "read_loop n rs s = (result, s', rest)" using assms by (simp add: Read_def)
  then show ?thesis
  proof (induction rs arbitrary: s)
    case Nil
    then show ?case using assms(1) by (auto split: if_splits option.splits)
  next
    case (Cons r rs)
    show ?case
    proof (cases "st_pending s = [] \<and> st_pending_err s = None")
      case True
      then have "read_loop n rs (absorb r s) = (result, s', rest)" using Cons.prems by simp
      from Cons.IH [OF this] obtain used where used: "rs = used @ rest"
        "case result of
           ReadBytes data \<Rightarrow> data \<noteq> [] \<and> length data \<le> n \<and>
             data @ st_pending s' = st_pending (foldl (\<lambda>s r. absorb r s) (absorb r s) used)
         | ReadError e \<Rightarrow> st_pending (foldl (\<lambda>s r. absorb r s) (absorb r s) used) = [] \<and> st_pending s' = [] \<and>
             st_pending_err (foldl (\<lambda>s r. absorb r s) (absorb r s) used) = Some e \<and> st_pending_err s' = None
         | Blocked \<Rightarrow> rest = [] \<and> st_pending s' = [] \<and> st_pending_err s' = None"
        by blast
      then show ?thesis
        by (intro exI [of _ "r # used"]) (unfold foldl.simps append_Cons, simp)
    next
      case False
      then show ?thesis using Cons.prems assms(1)
        by (intro exI [of _ "[]"]) (auto split: if_splits option.splits)
    qed
  qed
qed

theorem telnet_read_in_order_witness:
  "\<exists>s'. Read 2 [Received [65, 66, 67] None] (newStream new_conn [] 80 24) =
     (ReadBytes [65, 66], s', []) \<and> [65, 66] @ st_pending s' = [65, 66, 67]"
proof -
  define s where "s = newStream new_conn [] 80 24"
  have p: "process [65, 66, 67] s = (None, s\<lparr>st_pending := [65, 66, 67]\<rparr>)"
    by (simp add: process_byte_def s_def newStream_def command_bytes)
  then have r: "Read 2 [Received [65, 66, 67] None] s = (ReadBytes [65, 66], s\<lparr>st_pending := [67]\<rparr>, [])"
    by (simp add: Read_def absorb_def s_def newStream_def)
  show ?thesis
    using telnet_read_in_order [OF _ r] r unfolding s_def [symmetric] by simp
qed

end
