(* ===== verification/Terminal_Inv.thy ===== *)
theory Terminal_Inv
  imports Terminal_Control
begin

text \<open>
  The well-formedness invariant of the emulator and the calculus of row edits.

  \<open>well_formed t\<close>: the dimensions are positive, the main buffer and an existing alternate buffer fill them, the
  cursors lie inside, the scroll region is a non-empty range of rows. Under it no index computation of
  the emulator leaves its slice.

  \<open>rows_become t f t'\<close> says that \<open>t'\<close> is \<open>t\<close> with the rows of the active buffer given by \<open>f\<close>: a copy or
  an erasure of a row is then a function update, and the loops of the source are folds of updates.

  \<open>honest t t'\<close>: the visible state changed only if the revision grew.
\<close>

subsection \<open>Frame equations\<close>

named_theorems frame \<open>what the state updates leave unchanged\<close>

lemma map_active_fields [frame, simp]:
  "tm_terminal_type (map_active f t) = tm_terminal_type t"
  "tm_profile_name (map_active f t) = tm_profile_name t"
  "tm_xterm (map_active f t) = tm_xterm t"
  "tm_width (map_active f t) = tm_width t"
  "tm_height (map_active f t) = tm_height t"
  "tm_active (map_active f t) = tm_active t"
  "tm_style (map_active f t) = tm_style t"
  "tm_revision (map_active f t) = tm_revision t"
  "tm_wrap_pending (map_active f t) = tm_wrap_pending t"
  "tm_auto_wrap (map_active f t) = tm_auto_wrap t"
  "tm_application_cursor (map_active f t) = tm_application_cursor t"
  "tm_insert_mode (map_active f t) = tm_insert_mode t"
  "tm_scroll_top (map_active f t) = tm_scroll_top t"
  "tm_scroll_bottom (map_active f t) = tm_scroll_bottom t"
  "tm_charsets (map_active f t) = tm_charsets t"
  "tm_charset (map_active f t) = tm_charset t"
  "tm_answerback (map_active f t) = tm_answerback t"
  "tm_events (map_active f t) = tm_events t"
  "tm_title (map_active f t) = tm_title t"
  by (simp_all add: map_active_def split: which.splits)

lemma active_map_active [simp]: "active_buffer (map_active f t) = f (active_buffer t)"
  by (simp add: map_active_def active_buffer_def split: which.splits)

lemma map_active_comp [simp]: "map_active f (map_active g t) = map_active (\<lambda>b. f (g b)) t"
  by (simp add: map_active_def split: which.splits)

lemma map_active_ident [simp]: "map_active (\<lambda>b. b\<lparr>buf_cells := buf_cells (active_buffer t)\<rparr>) t = t"
  by (simp add: map_active_def active_buffer_def split: which.splits)

lemma active_buffer_upd [simp]:
  "active_buffer (t\<lparr>tm_revision := x1\<rparr>) = active_buffer t"
  "active_buffer (t\<lparr>tm_wrap_pending := x2\<rparr>) = active_buffer t"
  "active_buffer (t\<lparr>tm_style := x3\<rparr>) = active_buffer t"
  "active_buffer (t\<lparr>tm_events := x4\<rparr>) = active_buffer t"
  "active_buffer (t\<lparr>tm_title := x5\<rparr>) = active_buffer t"
  "active_buffer (t\<lparr>tm_charset := x6\<rparr>) = active_buffer t"
  "active_buffer (t\<lparr>tm_charsets := x7\<rparr>) = active_buffer t"
  "active_buffer (t\<lparr>tm_insert_mode := x8\<rparr>) = active_buffer t"
  "active_buffer (t\<lparr>tm_auto_wrap := x9\<rparr>) = active_buffer t"
  "active_buffer (t\<lparr>tm_application_cursor := x10\<rparr>) = active_buffer t"
  "active_buffer (t\<lparr>tm_scroll_top := x11\<rparr>) = active_buffer t"
  "active_buffer (t\<lparr>tm_scroll_bottom := x12\<rparr>) = active_buffer t"
  "active_buffer (t\<lparr>tm_answerback := x13\<rparr>) = active_buffer t"
  by (simp_all add: active_buffer_def split: which.splits)

lemmas view_defs = cells_def cursor_of_def column_def cursor_row_def set_cells_def set_cursor_def
  set_column_def set_row_def changed_def blankCell_def

lemma view_upd [simp]:
  "cells (t\<lparr>tm_revision := x1\<rparr>) = cells t"
  "cursor_of (t\<lparr>tm_revision := x1\<rparr>) = cursor_of t"
  "cells (t\<lparr>tm_wrap_pending := x2\<rparr>) = cells t"
  "cursor_of (t\<lparr>tm_wrap_pending := x2\<rparr>) = cursor_of t"
  "cells (t\<lparr>tm_style := x3\<rparr>) = cells t"
  "cursor_of (t\<lparr>tm_style := x3\<rparr>) = cursor_of t"
  "cells (t\<lparr>tm_events := x4\<rparr>) = cells t"
  "cursor_of (t\<lparr>tm_events := x4\<rparr>) = cursor_of t"
  "cells (t\<lparr>tm_title := x5\<rparr>) = cells t"
  "cursor_of (t\<lparr>tm_title := x5\<rparr>) = cursor_of t"
  "cells (t\<lparr>tm_charset := x6\<rparr>) = cells t"
  "cursor_of (t\<lparr>tm_charset := x6\<rparr>) = cursor_of t"
  "cells (t\<lparr>tm_charsets := x7\<rparr>) = cells t"
  "cursor_of (t\<lparr>tm_charsets := x7\<rparr>) = cursor_of t"
  "cells (t\<lparr>tm_insert_mode := x8\<rparr>) = cells t"
  "cursor_of (t\<lparr>tm_insert_mode := x8\<rparr>) = cursor_of t"
  "cells (t\<lparr>tm_auto_wrap := x9\<rparr>) = cells t"
  "cursor_of (t\<lparr>tm_auto_wrap := x9\<rparr>) = cursor_of t"
  "cells (t\<lparr>tm_application_cursor := x10\<rparr>) = cells t"
  "cursor_of (t\<lparr>tm_application_cursor := x10\<rparr>) = cursor_of t"
  "cells (t\<lparr>tm_scroll_top := x11\<rparr>) = cells t"
  "cursor_of (t\<lparr>tm_scroll_top := x11\<rparr>) = cursor_of t"
  "cells (t\<lparr>tm_scroll_bottom := x12\<rparr>) = cells t"
  "cursor_of (t\<lparr>tm_scroll_bottom := x12\<rparr>) = cursor_of t"
  "cells (t\<lparr>tm_answerback := x13\<rparr>) = cells t"
  "cursor_of (t\<lparr>tm_answerback := x13\<rparr>) = cursor_of t"
  by (simp_all add: cells_def cursor_of_def)

lemma position_upd [simp]:
  "column (t\<lparr>tm_revision := x1\<rparr>) = column t"
  "cursor_row (t\<lparr>tm_revision := x1\<rparr>) = cursor_row t"
  "column (t\<lparr>tm_wrap_pending := x2\<rparr>) = column t"
  "cursor_row (t\<lparr>tm_wrap_pending := x2\<rparr>) = cursor_row t"
  "column (t\<lparr>tm_style := x3\<rparr>) = column t"
  "cursor_row (t\<lparr>tm_style := x3\<rparr>) = cursor_row t"
  "column (t\<lparr>tm_events := x4\<rparr>) = column t"
  "cursor_row (t\<lparr>tm_events := x4\<rparr>) = cursor_row t"
  "column (t\<lparr>tm_title := x5\<rparr>) = column t"
  "cursor_row (t\<lparr>tm_title := x5\<rparr>) = cursor_row t"
  "column (t\<lparr>tm_charset := x6\<rparr>) = column t"
  "cursor_row (t\<lparr>tm_charset := x6\<rparr>) = cursor_row t"
  "column (t\<lparr>tm_charsets := x7\<rparr>) = column t"
  "cursor_row (t\<lparr>tm_charsets := x7\<rparr>) = cursor_row t"
  "column (t\<lparr>tm_insert_mode := x8\<rparr>) = column t"
  "cursor_row (t\<lparr>tm_insert_mode := x8\<rparr>) = cursor_row t"
  "column (t\<lparr>tm_auto_wrap := x9\<rparr>) = column t"
  "cursor_row (t\<lparr>tm_auto_wrap := x9\<rparr>) = cursor_row t"
  "column (t\<lparr>tm_application_cursor := x10\<rparr>) = column t"
  "cursor_row (t\<lparr>tm_application_cursor := x10\<rparr>) = cursor_row t"
  "column (t\<lparr>tm_scroll_top := x11\<rparr>) = column t"
  "cursor_row (t\<lparr>tm_scroll_top := x11\<rparr>) = cursor_row t"
  "column (t\<lparr>tm_scroll_bottom := x12\<rparr>) = column t"
  "cursor_row (t\<lparr>tm_scroll_bottom := x12\<rparr>) = cursor_row t"
  "column (t\<lparr>tm_answerback := x13\<rparr>) = column t"
  "cursor_row (t\<lparr>tm_answerback := x13\<rparr>) = cursor_row t"
  by (simp_all add: column_def cursor_row_def)

lemma cells_set_cells [simp]: "cells (set_cells cs t) = cs"
  and cursor_set_cells [simp]: "cursor_of (set_cells cs t) = cursor_of t"
  and cells_set_cursor [simp]: "cells (set_cursor c t) = cells t"
  and cursor_set_cursor [simp]: "cursor_of (set_cursor c t) = c"
  and set_cells_idem [simp]: "set_cells cs (set_cells cs' t) = set_cells cs t"
  and set_cells_same [simp]: "set_cells (cells t) t = t"
  and cells_changed [simp]: "cells (changed t) = cells t"
  and cursor_changed [simp]: "cursor_of (changed t) = cursor_of t"
  by (simp_all add: view_defs)

lemma cells_set_pos [simp]: "cells (set_column c t) = cells t" "cells (set_row r t) = cells t"
  by (simp_all add: set_column_def set_row_def)

lemma column_row_simps [simp]:
  "column (set_cells cs t) = column t" "cursor_row (set_cells cs t) = cursor_row t"
  "column (set_column c t) = c" "cursor_row (set_column c t) = cursor_row t"
  "column (set_row r t) = column t" "cursor_row (set_row r t) = r"
  "column (changed t) = column t" "cursor_row (changed t) = cursor_row t"
  by (simp_all add: view_defs)

lemma blankCell_simps [simp]:
  "blankCell (set_cells cs t) = blankCell t" "blankCell (set_column c t) = blankCell t"
  "blankCell (set_row r t) = blankCell t" "blankCell (changed t) = blankCell t"
  by (simp_all add: view_defs)

lemma blankCell_width [simp]: "cell_width (blankCell t) = 1"
  by (simp add: blankCell_def)

lemma set_fields [frame, simp]:
  "tm_width (set_cells cs t) = tm_width t" "tm_height (set_cells cs t) = tm_height t"
  "tm_width (set_column c t) = tm_width t" "tm_height (set_column c t) = tm_height t"
  "tm_width (set_row c t) = tm_width t" "tm_height (set_row c t) = tm_height t"
  "tm_width (changed t) = tm_width t" "tm_height (changed t) = tm_height t"
  "tm_revision (set_cells cs t) = tm_revision t" "tm_revision (set_column c t) = tm_revision t"
  "tm_revision (set_row c t) = tm_revision t" "tm_revision (changed t) = tm_revision t + 1"
  "tm_title (set_cells cs t) = tm_title t" "tm_title (set_column c t) = tm_title t"
  "tm_title (set_row c t) = tm_title t" "tm_title (changed t) = tm_title t"
  "tm_scroll_top (set_cells cs t) = tm_scroll_top t" "tm_scroll_bottom (set_cells cs t) = tm_scroll_bottom t"
  "tm_scroll_top (set_column c t) = tm_scroll_top t" "tm_scroll_bottom (set_column c t) = tm_scroll_bottom t"
  "tm_scroll_top (set_row c t) = tm_scroll_top t" "tm_scroll_bottom (set_row c t) = tm_scroll_bottom t"
  "tm_scroll_top (changed t) = tm_scroll_top t" "tm_scroll_bottom (changed t) = tm_scroll_bottom t"
  "tm_auto_wrap (set_cells cs t) = tm_auto_wrap t" "tm_auto_wrap (set_column c t) = tm_auto_wrap t"
  "tm_auto_wrap (set_row c t) = tm_auto_wrap t" "tm_auto_wrap (changed t) = tm_auto_wrap t"
  "tm_style (set_cells cs t) = tm_style t" "tm_style (set_column c t) = tm_style t"
  "tm_style (set_row c t) = tm_style t" "tm_style (changed t) = tm_style t"
  "tm_active (set_cells cs t) = tm_active t" "tm_active (set_column c t) = tm_active t"
  "tm_active (set_row c t) = tm_active t" "tm_active (changed t) = tm_active t"
  "tm_insert_mode (set_cells cs t) = tm_insert_mode t"
  "tm_insert_mode (set_column c t) = tm_insert_mode t"
  "tm_insert_mode (set_row c t) = tm_insert_mode t" "tm_insert_mode (changed t) = tm_insert_mode t"
  "tm_xterm (set_cells cs t) = tm_xterm t" "tm_xterm (set_column c t) = tm_xterm t"
  "tm_xterm (set_row c t) = tm_xterm t" "tm_xterm (changed t) = tm_xterm t"
  "tm_wrap_pending (set_cells cs t) = tm_wrap_pending t" "tm_charset (set_cells cs t) = tm_charset t"
  by (simp_all add: view_defs)

subsection \<open>Well-formedness\<close>

definition cursor_in :: "int \<Rightarrow> int \<Rightarrow> cursor \<Rightarrow> bool" where
  "cursor_in w h c \<longleftrightarrow> 0 \<le> cur_column c \<and> cur_column c < w \<and> 0 \<le> cur_row c \<and> cur_row c < h"

definition wf_buffer :: "int \<Rightarrow> int \<Rightarrow> screenBuffer \<Rightarrow> bool" where
  "wf_buffer w h b \<longleftrightarrow>
     grid (buf_cells b) w h \<and> cursor_in w h (buf_cursor b) \<and> cursor_in w h (buf_saved b)"

definition well_formed :: "terminal \<Rightarrow> bool" where
  "well_formed t \<longleftrightarrow>
     dims_fit (tm_width t) (tm_height t) \<and>
     wf_buffer (tm_width t) (tm_height t) (tm_main t) \<and>
     (tm_active t = Alternate \<longrightarrow> buf_cells (tm_alternate t) \<noteq> []) \<and>
     (buf_cells (tm_alternate t) \<noteq> [] \<longrightarrow> wf_buffer (tm_width t) (tm_height t) (tm_alternate t)) \<and>
     0 \<le> tm_scroll_top t \<and> tm_scroll_top t \<le> tm_scroll_bottom t \<and> tm_scroll_bottom t < tm_height t \<and>
     (tm_charset t = 0 \<or> tm_charset t = 1)"

definition visible_state :: "terminal \<Rightarrow> int \<times> int \<times> cell list \<times> cursor \<times> string" where
  "visible_state t = (tm_width t, tm_height t, cells t, cursor_of t, tm_title t)"

definition honest :: "terminal \<Rightarrow> terminal \<Rightarrow> bool" where
  "honest t t' \<longleftrightarrow> tm_revision t < tm_revision t' \<or>
     (tm_revision t' = tm_revision t \<and> visible_state t' = visible_state t)"

lemma honest_refl [simp]: "honest t t"
  by (simp add: honest_def)

lemma honest_trans: "honest t t' \<Longrightarrow> honest t' t'' \<Longrightarrow> honest t t''"
  by (auto simp: honest_def)

lemma grid_Nil [simp]: "\<not> grid [] w h"
  by (auto simp: grid_def dims_fit_def zero_less_mult_iff)

lemma grid_nonempty: "grid cs w h \<Longrightarrow> cs \<noteq> []"
  by auto

lemma wf_active: "well_formed t \<Longrightarrow> wf_buffer (tm_width t) (tm_height t) (active_buffer t)"
  by (auto simp: well_formed_def active_buffer_def split: which.splits)

lemma wf_map_active:
  "well_formed t \<Longrightarrow> wf_buffer (tm_width t) (tm_height t) (f (active_buffer t)) \<Longrightarrow> well_formed (map_active f t)"
  by (auto simp: well_formed_def active_buffer_def map_active_def wf_buffer_def grid_nonempty split: which.splits)

lemma wf_grid [intro]: "well_formed t \<Longrightarrow> grid (cells t) (tm_width t) (tm_height t)"
  using wf_active [of t] by (simp add: wf_buffer_def cells_def)

lemma wf_cursor:
  assumes "well_formed t"
  shows "0 \<le> column t" "column t < tm_width t" "0 \<le> cursor_row t" "cursor_row t < tm_height t"
  using wf_active [OF assms] by (auto simp: wf_buffer_def view_defs cursor_in_def)

lemma wf_dims:
  assumes "well_formed t"
  shows "0 < tm_width t" "0 < tm_height t" "0 \<le> tm_scroll_top t"
    "tm_scroll_top t \<le> tm_scroll_bottom t" "tm_scroll_bottom t < tm_height t"
  using assms by (auto simp: well_formed_def dims_fit_def)

lemma wf_dims_fit: "well_formed t \<Longrightarrow> dims_fit (tm_width t) (tm_height t)"
  by (simp add: well_formed_def)

text \<open>The index arithmetic of the cursor does not wrap around.\<close>

lemma cursor_go_int [simp]:
  assumes "well_formed t"
  shows "go_int (cursor_row t * tm_width t) = cursor_row t * tm_width t"
    "go_int (cursor_row t * tm_width t + column t) = cursor_row t * tm_width t + column t"
    "go_int (cursor_row t * tm_width t + tm_width t) = cursor_row t * tm_width t + tm_width t"
  using grid_row_go_int [OF wf_grid [OF assms] wf_cursor(3) [OF assms] wf_cursor(4) [OF assms]]
      wf_cursor(1,2) [OF assms] by auto

lemma wf_set_cells [simp]:
  "well_formed t \<Longrightarrow> grid cs (tm_width t) (tm_height t) \<Longrightarrow> well_formed (set_cells cs t)"
  unfolding set_cells_def using wf_active [of t]
  by (intro wf_map_active) (auto simp: wf_buffer_def)

lemma wf_set_column [simp]: "well_formed t \<Longrightarrow> 0 \<le> c \<Longrightarrow> c < tm_width t \<Longrightarrow> well_formed (set_column c t)"
  unfolding set_column_def set_cursor_def using wf_active [of t]
  by (intro wf_map_active) (auto simp: wf_buffer_def cursor_in_def cursor_of_def)

lemma wf_set_row [simp]: "well_formed t \<Longrightarrow> 0 \<le> r \<Longrightarrow> r < tm_height t \<Longrightarrow> well_formed (set_row r t)"
  unfolding set_row_def set_cursor_def using wf_active [of t]
  by (intro wf_map_active) (auto simp: wf_buffer_def cursor_in_def cursor_of_def)

lemma wf_upd [simp]:
  "well_formed (t\<lparr>tm_revision := x1\<rparr>) = well_formed t" "well_formed (t\<lparr>tm_wrap_pending := x2\<rparr>) = well_formed t"
  "well_formed (t\<lparr>tm_style := x3\<rparr>) = well_formed t" "well_formed (t\<lparr>tm_events := x4\<rparr>) = well_formed t" "well_formed (t\<lparr>tm_title := x5\<rparr>) = well_formed t"
  "well_formed (t\<lparr>tm_charsets := x7\<rparr>) = well_formed t" "well_formed (t\<lparr>tm_insert_mode := x8\<rparr>) = well_formed t"
  "well_formed (t\<lparr>tm_auto_wrap := x9\<rparr>) = well_formed t" "well_formed (t\<lparr>tm_application_cursor := x10\<rparr>) = well_formed t"
  "well_formed (t\<lparr>tm_answerback := x13\<rparr>) = well_formed t"
  by (simp_all add: well_formed_def)

lemma wf_changed [simp]: "well_formed (changed t) = well_formed t"
  by (simp add: changed_def)

lemma wf_unsupported [simp]: "well_formed (unsupported s t) = well_formed t" "well_formed (emit ty d t) = well_formed t"
  by (simp_all add: unsupported_def emit_def)

lemma honest_unsupported [simp]: "honest t (unsupported s t)" "honest t (emit ty d t)"
  by (simp_all add: honest_def unsupported_def emit_def visible_state_def cells_def cursor_of_def)

subsection \<open>Row edits\<close>

definition rows_become :: "terminal \<Rightarrow> (int \<Rightarrow> cell list) \<Rightarrow> terminal \<Rightarrow> bool" where
  "rows_become t f t' \<longleftrightarrow>
     (\<exists>cs. t' = set_cells cs t \<and> grid cs (tm_width t) (tm_height t) \<and>
        (\<forall>r. 0 \<le> r \<longrightarrow> r < tm_height t \<longrightarrow> row_of cs (tm_width t) r = f r))"

abbreviation rows :: "terminal \<Rightarrow> int \<Rightarrow> cell list" where
  "rows t \<equiv> row_of (cells t) (tm_width t)"

definition blank_row :: "terminal \<Rightarrow> cell list" where
  "blank_row t = replicate (nat (tm_width t)) (blankCell t)"

lemma rows_become_refl: "well_formed t \<Longrightarrow> rows_become t (rows t) t"
  unfolding rows_become_def by (rule exI [of _ "cells t"]) auto

lemma rows_become_cong:
  "rows_become t f t' \<Longrightarrow> (\<And>r. 0 \<le> r \<Longrightarrow> r < tm_height t \<Longrightarrow> f r = g r) \<Longrightarrow> rows_become t g t'"
  by (auto simp: rows_become_def)

lemma rows_becomeD:
  assumes "rows_become t f t'"
  shows "tm_width t' = tm_width t" "tm_height t' = tm_height t" "cursor_of t' = cursor_of t"
    "tm_revision t' = tm_revision t" "blankCell t' = blankCell t" "tm_title t' = tm_title t"
    "t' = set_cells (cells t') t" "tm_scroll_top t' = tm_scroll_top t"
    "tm_scroll_bottom t' = tm_scroll_bottom t" "blank_row t' = blank_row t"
  using assms by (auto simp: rows_become_def blank_row_def)

lemma rows_become_wf: "rows_become t f t' \<Longrightarrow> well_formed t \<Longrightarrow> well_formed t'"
  by (auto simp: rows_become_def)

lemma rows_become_rows:
  "rows_become t f t' \<Longrightarrow> 0 \<le> r \<Longrightarrow> r < tm_height t \<Longrightarrow> rows t' r = f r"
  by (auto simp: rows_become_def)

lemma rows_become_length:
  assumes "rows_become t f t'" "0 \<le> r" "r < tm_height t"
  shows "int (length (f r)) = tm_width t"
proof -
  obtain cs where "grid cs (tm_width t) (tm_height t)" "row_of cs (tm_width t) r = f r"
    using assms by (auto simp: rows_become_def)
  then show ?thesis using length_row_of(1) [of cs _ _ r] assms by metis
qed

lemma rows_become_trans:
  "rows_become t f t' \<Longrightarrow> rows_become t' g t'' \<Longrightarrow> rows_become t g t''"
  by (auto simp: rows_become_def)

lemma length_blank_row [simp]: "well_formed t \<Longrightarrow> int (length (blank_row t)) = tm_width t"
  using wf_dims(1) [of t] by (simp add: blank_row_def)

lemma rows_become_put:
  assumes "rows_become t f s" "0 \<le> r" "r < tm_height t" "int (length line) = tm_width t"
  shows "rows_become t (f(r := line)) (set_cells (put_row (cells s) (tm_width t) r line) s)"
proof -
  obtain cs where cs: "s = set_cells cs t" "grid cs (tm_width t) (tm_height t)"
      "\<And>r. 0 \<le> r \<Longrightarrow> r < tm_height t \<Longrightarrow> row_of cs (tm_width t) r = f r"
    using assms(1) by (auto simp: rows_become_def)
  show ?thesis unfolding rows_become_def
    using cs assms by (intro exI [of _ "put_row cs (tm_width t) r line"]) (auto simp: row_of_put_row)
qed

lemma row_eq:
  assumes "rows_become t f s" "0 \<le> r" "r < tm_height t"
  shows "row r s = Some (f r)"
  using assms by (auto simp: rows_become_def row_def slice_row grid_row_go_int)

lemma write_row_rows:
  assumes "rows_become t f s" "0 \<le> r" "r < tm_height t" "int (length line) = tm_width t"
  shows "safe (write_row r line s) (rows_become t (f(r := line)))"
proof -
  have "copy_into (cells s) (r * tm_width s) (r * tm_width s + tm_width s) line =
      Some (put_row (cells s) (tm_width t) r line)"
    using assms by (auto simp: rows_become_def copy_into_row)
  moreover have "go_int (r * tm_width s) = r * tm_width s" "go_int (r * tm_width s + tm_width s) = r * tm_width s + tm_width s"
    using assms by (auto simp: rows_become_def grid_row_go_int)
  ultimately show ?thesis using rows_become_put [OF assms] by (simp add: write_row_def)
qed

lemma copy_row_rows:
  assumes "rows_become t f s" "0 \<le> d" "d < tm_height t" "0 \<le> r" "r < tm_height t"
  shows "safe (copy_row d r s) (rows_become t (f(d := f r)))"
  using row_eq [OF assms(1,4,5)] write_row_rows [OF assms(1-3) rows_become_length [OF assms(1,4,5)]]
  by (simp add: copy_row_def)

lemma wf_width_cells: "well_formed t \<Longrightarrow> tm_width t \<le> maxCells"
  by (rule dims_fit_width) (rule wf_dims_fit)

lemma blankCells_in: "0 \<le> n \<Longrightarrow> n \<le> maxCells \<Longrightarrow> blankCells n t = Some (replicate (nat n) (blankCell t))"
  by (simp add: blankCells_def make_slice_in)

lemma clearRow_rows:
  assumes "well_formed t" "rows_become t f s" "0 \<le> r" "r < tm_height t"
  shows "safe (clearRow r s) (rows_become t (f(r := blank_row t)))"
proof -
  have "blankCells (tm_width s) s = Some (blank_row t)"
    using rows_becomeD [OF assms(2)] wf_dims(1) [OF assms(1)] wf_width_cells [OF assms(1)]
    by (simp add: blankCells_def make_slice_in blank_row_def)
  then show ?thesis using write_row_rows [OF assms(2-4)] assms(1) by (simp add: clearRow_def)
qed

lemma set_at_rows:
  assumes "rows_become t f s" "0 \<le> r" "r < tm_height t" "0 \<le> c" "c < tm_width t"
  shows "safe (set_at (cells s) (go_int (r * tm_width s + c)) v)
    (\<lambda>cs. rows_become t (f(r := (f r)[nat c := v])) (set_cells cs s))"
proof -
  have g: "grid (cells s) (tm_width t) (tm_height t)" "tm_width s = tm_width t" "row_of (cells s) (tm_width t) r = f r"
    using assms by (auto simp: rows_become_def)
  show ?thesis
    using rows_become_put [OF assms(1-3), of "(f r)[nat c := v]"] set_at_row [OF g(1) assms(2-5)]
      rows_become_length [OF assms(1-3)] g grid_row_go_int(4) [OF g(1) assms(2-4)] assms(5) by simp
qed

end
