(* ===== verification/Terminal_Rows.thy ===== *)
theory Terminal_Rows
  imports Terminal_Inv
begin

text \<open>
  What the editing operations do to the rows of the active screen: scrolling and line insertion and
  deletion as row moves, character insertion, deletion and erasure as edits of the cursor row. Every
  operation is shown not to panic on a well-formed terminal. \<open>rows_edited t f t'\<close> says that \<open>t'\<close> is \<open>t\<close>
  with the rows \<open>f\<close> and one revision more.
\<close>

definition rows_edited :: "terminal \<Rightarrow> (int \<Rightarrow> cell list) \<Rightarrow> terminal \<Rightarrow> bool" where
  "rows_edited t f t' \<longleftrightarrow> (\<exists>s. rows_become t f s \<and> t' = changed s)"

lemma rows_editedI: "rows_become t f s \<Longrightarrow> rows_edited t f (changed s)"
  by (auto simp: rows_edited_def)

lemma rows_edited_wf: "rows_edited t f t' \<Longrightarrow> well_formed t \<Longrightarrow> well_formed t'"
  by (auto simp: rows_edited_def intro: rows_become_wf)

lemma rows_edited_honest: "rows_edited t f t' \<Longrightarrow> honest t t'"
  by (auto simp: rows_edited_def honest_def dest: rows_becomeD(4))

lemma rows_edited_rows: "rows_edited t f t' \<Longrightarrow> 0 \<le> r \<Longrightarrow> r < tm_height t \<Longrightarrow> rows t' r = f r"
  using rows_become_rows by (auto simp: rows_edited_def)

lemma rows_edited_frame:
  assumes "rows_edited t f t'"
  shows "tm_width t' = tm_width t" "tm_height t' = tm_height t" "cursor_of t' = cursor_of t"
    "tm_revision t' = tm_revision t + 1" "column t' = column t" "cursor_row t' = cursor_row t"
  using assms by (auto simp: rows_edited_def column_def cursor_row_def dest: rows_becomeD)

lemma rows_edited_cong:
  "rows_edited t f t' \<Longrightarrow> (\<And>r. 0 \<le> r \<Longrightarrow> r < tm_height t \<Longrightarrow> f r = g r) \<Longrightarrow> rows_edited t g t'"
  unfolding rows_edited_def using rows_become_cong by blast

subsection \<open>Moving and clearing runs of rows\<close>

lemma move_rows_up:
  assumes "rows_become t f s" "0 \<le> lo" "lo \<le> hi + 1" "0 < k" "hi + k < tm_height t"
  shows "safe (for_each [lo..hi] (\<lambda>d. copy_row d (d + k)) s)
    (rows_become t (\<lambda>i. if lo \<le> i \<and> i \<le> hi then f (i + k) else f i))"
proof -
  define J where "J d = rows_become t (\<lambda>i. if lo \<le> i \<and> i < d then f (i + k) else f i)" for d
  have "safe (for_each [lo..(hi + 1) - 1] (\<lambda>d. copy_row d (d + k)) s) (J (hi + 1))"
  proof (rule for_up_inv)
    fix d u assume d: "lo \<le> d" "d < hi + 1" "J d u"
    have "safe (copy_row d (d + k) u)
        (rows_become t ((\<lambda>i. if lo \<le> i \<and> i < d then f (i + k) else f i)(d := f (d + k))))"
      using copy_row_rows [OF d(3) [unfolded J_def], of d "d + k"] d assms by auto
    then show "safe (copy_row d (d + k) u) (J (d + 1))"
      unfolding J_def by (rule safe_mono, elim rows_become_cong) (use d in auto)
  qed (use assms in \<open>auto simp: J_def elim!: rows_become_cong\<close>)
  then show ?thesis by (simp add: J_def zle_add1_eq_le)
qed

lemma move_rows_down:
  assumes "rows_become t f s" "k \<le> lo" "lo \<le> hi + 1" "0 < k" "hi < tm_height t"
  shows "safe (for_each (rev [lo..hi]) (\<lambda>d. copy_row d (d - k)) s)
    (rows_become t (\<lambda>i. if lo \<le> i \<and> i \<le> hi then f (i - k) else f i))"
proof -
  define J where "J d = rows_become t (\<lambda>i. if d < i \<and> i \<le> hi then f (i - k) else f i)" for d
  have "safe (for_each (rev [lo..hi]) (\<lambda>d. copy_row d (d - k)) s) (J (lo - 1))"
  proof (rule for_down_inv)
    fix d u assume d: "lo \<le> d" "d \<le> hi" "J d u"
    have "safe (copy_row d (d - k) u)
        (rows_become t ((\<lambda>i. if d < i \<and> i \<le> hi then f (i - k) else f i)(d := f (d - k))))"
      using copy_row_rows [OF d(3) [unfolded J_def], of d "d - k"] d assms by auto
    then show "safe (copy_row d (d - k) u) (J (d - 1))"
      unfolding J_def by (rule safe_mono, elim rows_become_cong) (use d in auto)
  qed (use assms in \<open>auto simp: J_def elim!: rows_become_cong\<close>)
  then show ?thesis
    by (rule safe_mono) (auto simp: J_def elim!: rows_become_cong)
qed

lemma clear_rows:
  assumes "well_formed t" "rows_become t f s" "0 \<le> lo" "lo \<le> hi + 1" "hi < tm_height t"
  shows "safe (for_each [lo..hi] clearRow s)
    (rows_become t (\<lambda>i. if lo \<le> i \<and> i \<le> hi then blank_row t else f i))"
proof -
  define J where "J d = rows_become t (\<lambda>i. if lo \<le> i \<and> i < d then blank_row t else f i)" for d
  have "safe (for_each [lo..(hi + 1) - 1] clearRow s) (J (hi + 1))"
  proof (rule for_up_inv)
    fix d u assume d: "lo \<le> d" "d < hi + 1" "J d u"
    have "safe (clearRow d u)
        (rows_become t ((\<lambda>i. if lo \<le> i \<and> i < d then blank_row t else f i)(d := blank_row t)))"
      using clearRow_rows [OF assms(1) d(3) [unfolded J_def], of d] d assms by auto
    then show "safe (clearRow d u) (J (d + 1))"
      unfolding J_def by (rule safe_mono, elim rows_become_cong) (use d in auto)
  qed (use assms in \<open>auto simp: J_def elim!: rows_become_cong\<close>)
  then show ?thesis by (simp add: J_def zle_add1_eq_le)
qed

subsection \<open>Scrolling, inserting and deleting lines\<close>

text \<open>
  The rows of a region \<open>lo..hi\<close> moved up or down by \<open>k\<close>, blank rows entering: the specification of
  scrolling, of \<open>IL\<close> and of \<open>DL\<close>.
\<close>

definition shift_up :: "int \<Rightarrow> int \<Rightarrow> int \<Rightarrow> cell list \<Rightarrow> (int \<Rightarrow> cell list) \<Rightarrow> int \<Rightarrow> cell list" where
  "shift_up lo hi k blank f i =
     (if lo \<le> i \<and> i \<le> hi then (if i \<le> hi - k then f (i + k) else blank) else f i)"

definition shift_down :: "int \<Rightarrow> int \<Rightarrow> int \<Rightarrow> cell list \<Rightarrow> (int \<Rightarrow> cell list) \<Rightarrow> int \<Rightarrow> cell list" where
  "shift_down lo hi k blank f i =
     (if lo \<le> i \<and> i \<le> hi then (if lo + k \<le> i then f (i - k) else blank) else f i)"

lemma scroll_region_up:
  assumes "well_formed t" "0 \<le> lo" "0 < k" "lo + k \<le> hi + 1" "hi < tm_height t"
  shows "safe (do { u \<leftarrow> for_each [lo..hi - k] (\<lambda>d. copy_row d (d + k)) t;
                    for_each [hi - k + 1..hi] clearRow u })
    (rows_become t (shift_up lo hi k (blank_row t) (rows t)))"
  unfolding safe_bind
  by (rule safe_mono [OF move_rows_up [OF rows_become_refl [OF assms(1)]]], use assms in simp_all,
      rule safe_mono [OF clear_rows], use assms in simp_all)
    (auto simp: shift_up_def elim!: rows_become_cong)

lemma scroll_region_down:
  assumes "well_formed t" "0 \<le> lo" "0 < k" "lo + k \<le> hi + 1" "hi < tm_height t"
  shows "safe (do { u \<leftarrow> for_each (rev [lo + k..hi]) (\<lambda>d. copy_row d (d - k)) t;
                    for_each [lo..lo + k - 1] clearRow u })
    (rows_become t (shift_down lo hi k (blank_row t) (rows t)))"
  unfolding safe_bind
  by (rule safe_mono [OF move_rows_down [OF rows_become_refl [OF assms(1)]]], use assms in simp_all,
      rule safe_mono [OF clear_rows], use assms in simp_all)
    (auto simp: shift_down_def elim!: rows_become_cong)

lemma scrollUp_rows:
  assumes "well_formed t"
  shows "safe (scrollUp t)
    (rows_become t (shift_up (tm_scroll_top t) (tm_scroll_bottom t) 1 (blank_row t) (rows t)))"
  using scroll_region_up [OF assms, of "tm_scroll_top t" 1 "tm_scroll_bottom t"] wf_dims [OF assms]
  by (simp add: scrollUp_def)

lemma insertLines_rows:
  assumes "well_formed t" "tm_scroll_top t \<le> cursor_row t" "cursor_row t \<le> tm_scroll_bottom t"
  shows "safe (insertLines n t)
    (rows_edited t (shift_down (cursor_row t) (tm_scroll_bottom t)
       (min (max 1 n) (tm_scroll_bottom t - cursor_row t + 1)) (blank_row t) (rows t)))"
proof -
  define k where "k = min (max 1 n) (tm_scroll_bottom t - cursor_row t + 1)"
  have "safe (do { u \<leftarrow> for_each (rev [cursor_row t + k..tm_scroll_bottom t]) (\<lambda>d. copy_row d (d - k)) t;
                    for_each [cursor_row t..cursor_row t + k - 1] clearRow u })
      (rows_become t (shift_down (cursor_row t) (tm_scroll_bottom t) k (blank_row t) (rows t)))"
    using wf_dims [OF assms(1)] wf_cursor [OF assms(1)] assms
    by (intro scroll_region_down) (auto simp: k_def)
  then show ?thesis
    using assms by (auto simp: insertLines_def Let_def k_def [symmetric] elim!: safe_mono intro: rows_editedI)
qed

lemma deleteLines_rows:
  assumes "well_formed t" "tm_scroll_top t \<le> cursor_row t" "cursor_row t \<le> tm_scroll_bottom t"
  shows "safe (deleteLines n t)
    (rows_edited t (shift_up (cursor_row t) (tm_scroll_bottom t)
       (min (max 1 n) (tm_scroll_bottom t - cursor_row t + 1)) (blank_row t) (rows t)))"
proof -
  define k where "k = min (max 1 n) (tm_scroll_bottom t - cursor_row t + 1)"
  have "safe (do { u \<leftarrow> for_each [cursor_row t..tm_scroll_bottom t - k] (\<lambda>d. copy_row d (d + k)) t;
                    for_each [tm_scroll_bottom t - k + 1..tm_scroll_bottom t] clearRow u })
      (rows_become t (shift_up (cursor_row t) (tm_scroll_bottom t) k (blank_row t) (rows t)))"
    using wf_dims [OF assms(1)] wf_cursor [OF assms(1)] assms
    by (intro scroll_region_up) (auto simp: k_def)
  then show ?thesis
    using assms by (auto simp: deleteLines_def Let_def k_def [symmetric] elim!: safe_mono intro: rows_editedI)
qed

end
