(* ===== verification/Terminal_Chars.thy ===== *)
theory Terminal_Chars
  imports Terminal_Rows
begin

text \<open>
  Character editing on the cursor row: \<open>insertCharacters\<close>, \<open>deleteCharacters\<close>, the three erasures and
  the two halves of printing, \<open>clearWideCharacterAt\<close> and \<open>put_character\<close>. Each operation is related to a
  pure function on the row, and shown not to panic on a well-formed terminal.
\<close>

section \<open>Wide characters on a row\<close>

text \<open>
  Wide characters on a row: a character of width 2 occupies its own cell and the continuation cell
  (width 0) to its right. \<open>row_ok\<close> says that every wide cell has its continuation and every
  continuation its wide cell. \<open>normalizeCells\<close>, which the emulator runs after an edit that may have cut
  a pair, is shown to equal the pointwise specification \<open>normalized\<close>: it makes any row \<open>row_ok\<close>, changes
  nothing on a row that already is, and blanks exactly the cells that lost their partner.
\<close>

definition paired :: "cell list \<Rightarrow> nat \<Rightarrow> bool" where
  "paired line c \<longleftrightarrow>
     (cell_width (line ! c) = 0 \<longrightarrow> 0 < c \<and> cell_width (line ! (c - 1)) = 2) \<and>
     (cell_width (line ! c) = 2 \<longrightarrow> c + 1 < length line \<and> cell_width (line ! (c + 1)) = 0)"

definition row_ok :: "cell list \<Rightarrow> bool" where
  "row_ok line \<longleftrightarrow> (\<forall>c < length line. paired line c)"

definition normalized :: "cell \<Rightarrow> cell list \<Rightarrow> cell list" where
  "normalized blank line = map (\<lambda>c. if paired line c then line ! c else blank) [0..<length line]"

lemma length_normalized [simp]: "length (normalized blank line) = length line"
  by (simp add: normalized_def)

lemma nth_normalized [simp]:
  "c < length line \<Longrightarrow> normalized blank line ! c = (if paired line c then line ! c else blank)"
  by (simp add: normalized_def)

lemma normalized_id: "row_ok line \<Longrightarrow> normalized blank line = line"
  by (rule nth_equalityI) (auto simp: row_ok_def)

lemma row_ok_normalized:
  assumes "cell_width blank = 1"
  shows "row_ok (normalized blank line)"
proof -
  have "paired (normalized blank line) c" if c: "c < length line" for c
  proof (cases "paired line c")
    case True
    moreover have "paired line (c - 1)" if "cell_width (line ! c) = 0"
      using True that c by (auto simp: paired_def)
    moreover have "paired line (c + 1)" if "cell_width (line ! c) = 2"
      using True that c by (auto simp: paired_def)
    ultimately show ?thesis
      using c by (auto simp: paired_def [of "normalized blank line"]) (auto simp: paired_def)
  qed (use assms c in \<open>auto simp: paired_def [of "normalized blank line"]\<close>)
  then show ?thesis by (simp add: row_ok_def)
qed

lemma normalized_idem: "cell_width blank = 1 \<Longrightarrow> normalized blank (normalized blank line) = normalized blank line"
  by (simp add: normalized_id row_ok_normalized)

text \<open>
  The loop of \<open>normalizeCells\<close> reads cells it has already rewritten; its invariant is that the cells
  before the index agree with the specification and those from the index on are untouched.
\<close>

lemma normalize_step_at:
  assumes blank: "cell_width blank = 1" and len: "length ys = length line"
    and done_: "\<And>j. j < c \<Longrightarrow> ys ! j = normalized blank line ! j"
    and todo: "\<And>j. c \<le> j \<Longrightarrow> j < length line \<Longrightarrow> ys ! j = line ! j"
    and c: "c < length line"
  shows "normalize_step blank (int c) ys = Some (ys[c := normalized blank line ! c])"
proof -
  have cur: "ys ! c = line ! c" using todo c by simp
  have prev: "cell_width (ys ! (c - 1)) = 2 \<longleftrightarrow> cell_width (line ! (c - 1)) = 2"
    if "cell_width (line ! c) = 0" "0 < c"
  proof -
    have "ys ! (c - 1) = (if paired line (c - 1) then line ! (c - 1) else blank)"
      using done_ [of "c - 1"] that c by (simp add: less_imp_diff_less)
    then show ?thesis using that c blank by (auto simp: paired_def)
  qed
  have nxt: "ys ! (c + 1) = line ! (c + 1)" if "c + 1 < length line" using todo that by simp
  have same: "ys[c := line ! c] = ys" using cur by (metis list_update_id)
  have idx: "nat (int c - 1) = c - 1" "nat (int c + 1) = c + 1" by auto
  have "c = 0 \<or> 0 < c" by auto
  then show ?thesis
    using c cur prev nxt idx len same
    by (elim disjE) (auto simp: normalize_step_def get_at_def set_at_def paired_def nat_diff_distrib)
qed

lemma normalizeCells_spec:
  assumes "cell_width blank = 1"
  shows "normalizeCells blank line = Some (normalized blank line)"
proof -
  define J where "J i ys \<longleftrightarrow> length ys = length line \<and>
      (\<forall>j < length line. ys ! j = (if int j < i then normalized blank line ! j else line ! j))" for i ys
  have "safe (for_each [0..int (length line) - 1] (normalize_step blank) line) (J (int (length line)))"
  proof (rule for_up_inv)
    fix i ys assume i: "0 \<le> i" "i < int (length line)" "J i ys"
    define c where "c = nat i"
    have c: "i = int c" "c < length line" using i by (auto simp: c_def)
    have "normalize_step blank (int c) ys = Some (ys[c := normalized blank line ! c])"
      using i(3) c by (intro normalize_step_at assms) (auto simp: J_def simp del: nth_normalized)
    moreover have "J (i + 1) (ys[c := normalized blank line ! c])"
      using i(3) c unfolding J_def by (auto simp: nth_list_update simp del: nth_normalized)
    ultimately show "safe (normalize_step blank i ys) (J (i + 1))" using c by simp
  qed (auto simp: J_def)
  then obtain ys where "normalizeCells blank line = Some ys" "J (int (length line)) ys"
    by (auto simp: normalizeCells_def safe_ex)
  moreover from this have "ys = normalized blank line"
    by (intro nth_equalityI) (auto simp: J_def)
  ultimately show ?thesis by simp
qed

section \<open>Character editing\<close>

lemmas bounds = wf_dims wf_cursor

lemma row_current:
  assumes "well_formed t"
  shows "row (cursor_row t) t = Some (rows t (cursor_row t))"
    "int (length (rows t (cursor_row t))) = tm_width t"
proof -
  show "row (cursor_row t) t = Some (rows t (cursor_row t))"
    using bounds [OF assms] by (intro row_eq [OF rows_become_refl [OF assms]]) auto
  show "int (length (rows t (cursor_row t))) = tm_width t"
    using bounds [OF assms] by (intro rows_become_length [OF rows_become_refl [OF assms]]) auto
qed

lemma write_current:
  assumes "well_formed t" "int (length line) = tm_width t"
  shows "safe (write_row (cursor_row t) line t) (rows_become t ((rows t)(cursor_row t := line)))"
  using bounds [OF assms(1)] assms
  by (intro write_row_rows [OF rows_become_refl]) auto

lemma edit_current:
  assumes "well_formed t" "int (length line) = tm_width t"
  shows "safe (do { t' \<leftarrow> write_row (cursor_row t) line t; Some (changed t') })
    (rows_edited t ((rows t)(cursor_row t := line)))"
  using write_current [OF assms] by (auto elim!: safe_mono intro: rows_editedI)

subsection \<open>Insertion and deletion\<close>

definition insert_cells :: "cell \<Rightarrow> nat \<Rightarrow> nat \<Rightarrow> cell list \<Rightarrow> cell list" where
  "insert_cells blank c k line =
     normalized blank (take c line @ replicate k blank @ take (length line - c - k) (drop c line))"

definition delete_cells :: "cell \<Rightarrow> nat \<Rightarrow> nat \<Rightarrow> cell list \<Rightarrow> cell list" where
  "delete_cells blank c k line = normalized blank (take c line @ drop (c + k) line @ replicate k blank)"

lemma length_insert_cells: "c + k \<le> length line \<Longrightarrow> length (insert_cells blank c k line) = length line"
  by (simp add: insert_cells_def)

lemma length_delete_cells: "c + k \<le> length line \<Longrightarrow> length (delete_cells blank c k line) = length line"
  by (simp add: delete_cells_def)

lemma edit_count:
  assumes "well_formed t"
  obtains c k where "column t = int c" "min (max 1 n) (tm_width t - column t) = int k" "0 < k"
    "int (c + k) \<le> tm_width t"
proof -
  have "0 \<le> column t" "0 < min (max 1 n) (tm_width t - column t)"
    "column t + min (max 1 n) (tm_width t - column t) \<le> tm_width t"
    using bounds [OF assms] by auto
  then show thesis
    by (intro that [of "nat (column t)" "nat (min (max 1 n) (tm_width t - column t))"]) auto
qed

lemma insertCharacters_rows:
  assumes "well_formed t"
  shows "safe (insertCharacters n t)
    (rows_edited t ((rows t)(cursor_row t :=
       insert_cells (blankCell t) (nat (column t)) (nat (min (max 1 n) (tm_width t - column t)))
         (rows t (cursor_row t)))))"
proof -
  obtain c k where ck: "column t = int c" "min (max 1 n) (tm_width t - column t) = int k" "0 < k"
      "int (c + k) \<le> tm_width t"
    using edit_count [OF assms] by blast
  define line where "line = rows t (cursor_row t)"
  note row = row_current [OF assms, folded line_def]
  have le: "c + k \<le> length line" "tm_width t = int (length line)" using ck(4) row(2) by auto
  have kc: "int k \<le> maxCells" using ck(4) wf_width_cells [OF assms] by simp
  have "slice line (int c) (tm_width t - int k) = Some (take (length line - c - k) (drop c line))"
  proof -
    have "nat (tm_width t - int k - int c) = length line - c - k" using le by linarith
    moreover have "int c \<le> tm_width t - int k" "tm_width t - int k \<le> int (length line)" using le by auto
    ultimately show ?thesis by (simp only: slice_in of_nat_0_le_iff nat_int)
  qed
  moreover have "copy_into line (int c + int k) (int (length line)) (take (length line - c - k) (drop c line)) =
      Some (take (c + k) line @ take (length line - c - k) (drop c line))"
    using le by (subst copy_into_full) (auto simp: nat_int_add)
  moreover have "copy_into (take (c + k) line @ take (length line - c - k) (drop c line)) (int c) (int c + int k)
        (replicate k (blankCell t)) =
      Some (take c line @ replicate k (blankCell t) @ take (length line - c - k) (drop c line))"
    using le by (simp add: copy_into_def nat_int_add)
  ultimately have "insertCharacters n t =
      do { t' \<leftarrow> write_row (cursor_row t) (insert_cells (blankCell t) c k line) t; Some (changed t') }"
    unfolding insertCharacters_def Let_def ck(2) unfolding ck(1)
    using row(1) by (simp add: blankCells_in kc normalizeCells_spec insert_cells_def)
  moreover have "int (length (insert_cells (blankCell t) c k line)) = tm_width t"
    using le by (simp add: length_insert_cells)
  ultimately show ?thesis
    unfolding ck(2) unfolding ck(1) nat_int line_def [symmetric] using edit_current [OF assms] by (simp only: line_def)
qed

lemma deleteCharacters_rows:
  assumes "well_formed t"
  shows "safe (deleteCharacters n t)
    (rows_edited t ((rows t)(cursor_row t :=
       delete_cells (blankCell t) (nat (column t)) (nat (min (max 1 n) (tm_width t - column t)))
         (rows t (cursor_row t)))))"
proof -
  obtain c k where ck: "column t = int c" "min (max 1 n) (tm_width t - column t) = int k" "0 < k"
      "int (c + k) \<le> tm_width t"
    using edit_count [OF assms] by blast
  define line where "line = rows t (cursor_row t)"
  note row = row_current [OF assms, folded line_def]
  have le: "c + k \<le> length line" "tm_width t = int (length line)" using ck(4) row(2) by auto
  have kc: "int k \<le> maxCells" using ck(4) wf_width_cells [OF assms] by simp
  define line1 where "line1 = take c line @ drop (c + k) line @ drop (length line - k) line"
  have a: "slice line (int c + int k) (int (length line)) = Some (drop (c + k) line)"
    using le by (simp add: slice_def nat_int_add nat_diff_distrib')
  have b: "copy_into line (int c) (int (length line)) (drop (c + k) line) = Some line1"
    using le by (simp add: copy_into_def line1_def nat_diff_distrib')
  have l: "length line1 = length line" and d: "take (length line - k) line1 = take c line @ drop (c + k) line"
    using le by (simp_all add: line1_def)
  have e: "copy_into line1 (tm_width t - int k) (int (length line1)) (replicate k (blankCell t)) =
      Some (take c line @ drop (c + k) line @ replicate k (blankCell t))"
    using le d l by (simp add: copy_into_def nat_diff_distrib')
  have "deleteCharacters n t =
      do { t' \<leftarrow> write_row (cursor_row t) (delete_cells (blankCell t) c k line) t; Some (changed t') }"
    unfolding deleteCharacters_def Let_def ck(2) unfolding ck(1)
    by (simp add: a b e row(1) blankCells_in kc normalizeCells_spec delete_cells_def)
  moreover have "int (length (delete_cells (blankCell t) c k line)) = tm_width t"
    using le by (simp add: length_delete_cells)
  ultimately show ?thesis
    unfolding ck(2) unfolding ck(1) nat_int line_def [symmetric] using edit_current [OF assms] by (simp only: line_def)
qed

subsection \<open>Erasure\<close>

text \<open>\<open>blanked t a b t'\<close>: the cells with index in \<open>a..<b\<close> are blank in the current style, the others kept.\<close>

definition blanked :: "terminal \<Rightarrow> int \<Rightarrow> int \<Rightarrow> terminal \<Rightarrow> bool" where
  "blanked t a b t' \<longleftrightarrow>
     (\<exists>cs. t' = changed (set_cells cs t) \<and> length cs = length (cells t) \<and>
        (\<forall>j < length cs. cs ! j = (if a \<le> int j \<and> int j < b then blankCell t else cells t ! j)))"

lemma blank_range_blanked:
  assumes "0 \<le> a" "a \<le> b" "b \<le> int (length (cells t))"
  shows "safe (do { t' \<leftarrow> blank_range a b t; Some (changed t') }) (blanked t a b)"
  using fill_range [OF assms, of "blankCell t"]
  by (auto simp: blank_range_def blanked_def elim!: safe_mono)

lemma blanked_wf: "blanked t a b t' \<Longrightarrow> well_formed t \<Longrightarrow> well_formed t'"
  using wf_grid [of t] by (auto simp: blanked_def grid_def)

lemma blanked_honest: "blanked t a b t' \<Longrightarrow> honest t t'"
  by (auto simp: blanked_def honest_def)

lemma cursor_index:
  assumes "well_formed t"
  shows "0 \<le> cursor_row t * tm_width t"
    "cursor_row t * tm_width t + tm_width t \<le> int (length (cells t))"
    "cursor_row t * tm_width t + column t < int (length (cells t))"
  using grid_row_bounds [OF wf_grid [OF assms], of "cursor_row t"] bounds [OF assms] by auto

lemma eraseCharacters_blanked:
  assumes "well_formed t"
  defines "start \<equiv> cursor_row t * tm_width t + column t"
  shows "safe (eraseCharacters n t) (blanked t start (start + min (max 1 n) (tm_width t - column t)))"
  unfolding eraseCharacters_def Let_def start_def
  unfolding cursor_go_int [OF assms(1)]
  using cursor_index [OF assms(1)] bounds [OF assms(1)] by (intro blank_range_blanked) auto

definition erase_line_range :: "int \<Rightarrow> terminal \<Rightarrow> int \<times> int" where
  "erase_line_range mode t =
     (let start = cursor_row t * tm_width t
      in if mode = 0 then (start + column t, start + tm_width t)
         else if mode = 1 then (start, start + column t + 1)
         else (start, start + tm_width t))"

lemma eraseLine_blanked:
  assumes "well_formed t" "mode \<in> {0, 1, 2}"
  shows "safe (eraseLine mode t)
    (blanked t (fst (erase_line_range mode t)) (snd (erase_line_range mode t)))"
proof -
  have "safe (do { t' \<leftarrow> blank_range (fst (erase_line_range mode t)) (snd (erase_line_range mode t)) t;
          Some (changed t') })
      (blanked t (fst (erase_line_range mode t)) (snd (erase_line_range mode t)))"
    using cursor_index [OF assms(1)] bounds [OF assms(1)] assms(2)
    by (intro blank_range_blanked) (auto simp: erase_line_range_def Let_def)
  then show ?thesis using assms(2) cursor_go_int [OF assms(1)] by (auto simp: eraseLine_def erase_line_range_def Let_def)
qed

definition erase_display_range :: "int \<Rightarrow> terminal \<Rightarrow> int \<times> int" where
  "erase_display_range mode t =
     (let cur = cursor_row t * tm_width t + column t; n = tm_width t * tm_height t
      in if mode = 0 then (cur, n) else if mode = 1 then (0, cur + 1) else (0, n))"

lemma eraseDisplay_blanked:
  assumes "well_formed t" "mode \<in> {0, 1, 2} \<or> mode = 3 \<and> tm_xterm t"
  shows "safe (eraseDisplay mode t)
    (blanked t (fst (erase_display_range mode t)) (snd (erase_display_range mode t)))"
proof -
  have n: "int (length (cells t)) = tm_width t * tm_height t"
    using wf_grid [OF assms(1)] by (simp add: grid_def)
  have "safe (do { t' \<leftarrow> blank_range (fst (erase_display_range mode t)) (snd (erase_display_range mode t)) t;
          Some (changed t') })
      (blanked t (fst (erase_display_range mode t)) (snd (erase_display_range mode t)))"
    using cursor_index [OF assms(1)] bounds [OF assms(1)] n
    by (intro blank_range_blanked) (auto simp: erase_display_range_def Let_def)
  then show ?thesis using assms(2) n cursor_go_int [OF assms(1)]
    by (auto simp: eraseDisplay_def erase_display_range_def Let_def)
qed

lemma eraseLine_other: "mode \<notin> {0, 1, 2} \<Longrightarrow> eraseLine mode t = Some t"
  by (simp add: eraseLine_def)

lemma eraseDisplay_other:
  "mode \<notin> {0, 1, 2} \<Longrightarrow> \<not> (mode = 3 \<and> tm_xterm t) \<Longrightarrow> eraseDisplay mode t = Some t"
  by (auto simp: eraseDisplay_def Let_def)

end
