(* ===== verification/Terminal_Print.thy ===== *)
theory Terminal_Print
  imports Terminal_Chars
begin

text \<open>
  Printing: clearing the halves of the wide characters a new one overwrites, writing the cell (and the
  continuation), advancing the cursor, wrapping, and attaching combining characters. \<open>print\<close> never
  panics on a well-formed terminal, announces every change, and keeps the wide pairs of all rows.
\<close>

definition rows_ok :: "terminal \<Rightarrow> bool" where
  "rows_ok t \<longleftrightarrow> (\<forall>r. 0 \<le> r \<longrightarrow> r < tm_height t \<longrightarrow> row_ok (rows t r))"

subsection \<open>The row functions\<close>

definition clear_wide :: "cell \<Rightarrow> nat \<Rightarrow> cell list \<Rightarrow> cell list" where
  "clear_wide blank c line =
     (if cell_width (line ! c) = 0 then
        (if 0 < c \<and> cell_width (line ! (c - 1)) = 2 then line[c - 1 := blank] else line)[c := blank]
      else if cell_width (line ! c) = 2 then
        (if c + 1 < length line \<and> cell_width (line ! (c + 1)) = 0
         then line[c := blank, c + 1 := blank] else line[c := blank])
      else line)"

definition put_line :: "cell \<Rightarrow> cell \<Rightarrow> cell \<Rightarrow> int \<Rightarrow> nat \<Rightarrow> cell list \<Rightarrow> cell list" where
  "put_line blank x y width c line =
     (if width = 2 then (clear_wide blank (c + 1) (clear_wide blank c line))[c := x, c + 1 := y]
      else (clear_wide blank c line)[c := x])"

lemma length_clear_wide [simp]: "length (clear_wide blank c line) = length line"
  by (simp add: clear_wide_def)

lemma length_put_line [simp]: "length (put_line blank x y width c line) = length line"
  by (simp add: put_line_def)

lemma row_okD:
  assumes "row_ok line" "c < length line"
  shows "cell_width (line ! c) = 0 \<Longrightarrow> 0 < c" "cell_width (line ! c) = 0 \<Longrightarrow> cell_width (line ! (c - 1)) = 2"
    "cell_width (line ! c) = 2 \<Longrightarrow> c + 1 < length line" "cell_width (line ! c) = 2 \<Longrightarrow> cell_width (line ! (c + 1)) = 0"
  using assms by (auto simp: row_ok_def paired_def)

text \<open>
  After \<open>clear_wide\<close> the row is still paired and the cell is no part of a pair: its width is neither 0 nor 2.
\<close>

text \<open>A row stays paired when a set of cells that no pair leaves is replaced by cells paired among themselves.\<close>

lemma row_ok_update:
  assumes ok: "row_ok line" and len: "length new = length line"
    and same: "\<And>e. e < length line \<Longrightarrow> e \<notin> S \<Longrightarrow> new ! e = line ! e"
    and left: "\<And>e. e < length line \<Longrightarrow> e \<notin> S \<Longrightarrow> cell_width (line ! e) = 0 \<Longrightarrow> e - 1 \<notin> S"
    and right: "\<And>e. e < length line \<Longrightarrow> e \<notin> S \<Longrightarrow> cell_width (line ! e) = 2 \<Longrightarrow> e + 1 \<notin> S"
    and inside: "\<And>e. e < length line \<Longrightarrow> e \<in> S \<Longrightarrow> paired new e"
  shows "row_ok new"
  unfolding row_ok_def len
proof (intro allI impI)
  fix e assume e: "e < length line"
  show "paired new e"
  proof (cases "e \<in> S")
    case False
    then show ?thesis
      using row_okD [OF ok e] left [OF e False] right [OF e False] same [of "e - 1"] same [of "e + 1"]
        same [OF e False] e len by (auto simp: paired_def less_imp_diff_less)
  qed (use inside e in auto)
qed

lemma row_ok_clear_pair:
  assumes ok: "row_ok line" and c: "c + 1 < length line" "cell_width (line ! c) = 2" and b: "cell_width blank = 1"
  shows "row_ok (line[c := blank, c + 1 := blank])"
proof (rule row_ok_update [OF ok, where S = "{c, c + 1}"])
  have c1: "cell_width (line ! (c + 1)) = 0" using row_okD(4) [OF ok, of c] c by simp
  fix e assume e: "e < length line" "e \<notin> {c, c + 1}"
  show "e - 1 \<notin> {c, c + 1}" if "cell_width (line ! e) = 0"
    using row_okD(1,2) [OF ok e(1) that] e c1 by auto
  show "e + 1 \<notin> {c, c + 1}" if "cell_width (line ! e) = 2"
    using row_okD(3,4) [OF ok e(1) that] e c by auto
qed (use b c in \<open>auto simp: paired_def\<close>)

lemma row_ok_clear_wide:
  assumes "row_ok line" "c < length line" "cell_width blank = 1"
  shows "row_ok (clear_wide blank c line)"
proof -
  consider "cell_width (line ! c) = 0" | "cell_width (line ! c) = 2"
    | "cell_width (line ! c) \<noteq> 0" "cell_width (line ! c) \<noteq> 2" by blast
  then show ?thesis
  proof cases
    case 1
    then have "0 < c" "cell_width (line ! (c - 1)) = 2" using row_okD [OF assms(1,2)] by auto
    then show ?thesis
      using row_ok_clear_pair [of line "c - 1" blank] 1 assms by (simp add: clear_wide_def)
  next
    case 2
    then show ?thesis
      using row_okD [OF assms(1,2)] row_ok_clear_pair [of line c blank] assms by (simp add: clear_wide_def)
  next
    case 3
    then show ?thesis using assms(1) by (simp add: clear_wide_def)
  qed
qed

lemma clear_wide_width:
  assumes "c < length line" "cell_width blank = 1"
  shows "cell_width (clear_wide blank c line ! c) \<noteq> 0" "cell_width (clear_wide blank c line ! c) \<noteq> 2"
  using assms by (auto simp: clear_wide_def nth_list_update)

lemma clear_wide_keeps:
  assumes "row_ok line" "c < length line" "d < length line" "cell_width blank = 1"
    "cell_width (line ! d) \<noteq> 0" "cell_width (line ! d) \<noteq> 2"
  shows "cell_width (clear_wide blank c line ! d) \<noteq> 0 \<and> cell_width (clear_wide blank c line ! d) \<noteq> 2"
  using assms by (auto simp: clear_wide_def nth_list_update)

text \<open>Replacing cells that are no part of a pair keeps the row paired.\<close>

lemma row_ok_replace:
  assumes "row_ok line" "c < length line" "cell_width (line ! c) \<noteq> 0" "cell_width (line ! c) \<noteq> 2"
    "cell_width x \<noteq> 0" "cell_width x \<noteq> 2"
  shows "row_ok (line[c := x])"
proof (rule row_ok_update [OF assms(1), where S = "{c}"])
  fix e assume e: "e < length line" "e \<notin> {c}"
  show "e - 1 \<notin> {c}" if "cell_width (line ! e) = 0" using row_okD(2) [OF assms(1) e(1) that] assms by auto
  show "e + 1 \<notin> {c}" if "cell_width (line ! e) = 2" using row_okD(4) [OF assms(1) e(1) that] assms by auto
qed (use assms in \<open>auto simp: paired_def\<close>)

lemma row_ok_replace_pair:
  assumes "row_ok line" "c + 1 < length line" "cell_width (line ! c) \<noteq> 0" "cell_width (line ! c) \<noteq> 2"
    "cell_width (line ! (c + 1)) \<noteq> 0" "cell_width (line ! (c + 1)) \<noteq> 2"
    "cell_width x = 2" "cell_width y = 0"
  shows "row_ok (line[c := x, c + 1 := y])"
proof (rule row_ok_update [OF assms(1), where S = "{c, c + 1}"])
  fix e assume e: "e < length line" "e \<notin> {c, c + 1}"
  show "e - 1 \<notin> {c, c + 1}" if "cell_width (line ! e) = 0"
    using row_okD(2) [OF assms(1) e(1) that] assms by auto
  show "e + 1 \<notin> {c, c + 1}" if "cell_width (line ! e) = 2"
    using row_okD(4) [OF assms(1) e(1) that] assms by auto
qed (use assms in \<open>auto simp: paired_def\<close>)

lemma row_ok_put_line:
  assumes "row_ok line" "cell_width blank = 1" "width = 1 \<or> width = 2"
    "int c + width \<le> int (length line)" "cell_width x = width" "cell_width y = 0"
  shows "row_ok (put_line blank x y width c line)"
proof -
  have c: "c < length line" using assms by auto
  note ok = row_ok_clear_wide [OF assms(1) c assms(2)] clear_wide_width [OF c assms(2)]
  show ?thesis
  proof (cases "width = 2")
    case True
    then have c1: "c + 1 < length line" using assms(4) by simp
    let ?l = "clear_wide blank c line"
    have "row_ok (clear_wide blank (c + 1) ?l)" using ok(1) c1 assms(2) by (simp add: row_ok_clear_wide)
    moreover have "cell_width (clear_wide blank (c + 1) ?l ! c) \<noteq> 0 \<and> cell_width (clear_wide blank (c + 1) ?l ! c) \<noteq> 2"
      using ok c c1 assms(2) by (intro clear_wide_keeps) auto
    moreover have "cell_width (clear_wide blank (c + 1) ?l ! (c + 1)) \<noteq> 0"
        "cell_width (clear_wide blank (c + 1) ?l ! (c + 1)) \<noteq> 2"
      using clear_wide_width [of "c + 1" ?l blank] c1 assms(2) by auto
    ultimately show ?thesis
      using True c1 assms(5,6) row_ok_replace_pair [of "clear_wide blank (c + 1) ?l" c x y]
      by (simp add: put_line_def)
  next
    case False
    then show ?thesis using ok c assms(3,5) by (auto simp: put_line_def intro: row_ok_replace)
  qed
qed

subsection \<open>Printing one character\<close>

text \<open>A row operation applied to any row: it does not panic and changes that row as stated.\<close>

lemma clearWide_rows:
  assumes "rows_become t f s" "0 \<le> r" "r < tm_height t" "0 \<le> c" "c < tm_width t"
  shows "safe (clearWideCharacterAt r c s)
    (rows_become t (f(r := clear_wide (blankCell t) (nat c) (f r))))"
proof -
  define line where "line = f r"
  have r: "row r s = Some line" using row_eq [OF assms(1-3)] by (simp add: line_def)
  have len: "int (length line) = tm_width t"
    using rows_become_length [OF assms(1-3)] by (simp add: line_def)
  have w: "safe (write_row r line' s) (rows_become t (f(r := line')))" if "length line' = length line" for line'
    using write_row_rows [OF assms(1-3), of line'] that len by simp
  have same: "f(r := line) = f" by (simp add: line_def)
  have s: "tm_width s = tm_width t" "blankCell s = blankCell t" using rows_becomeD [OF assms(1)] by auto
  have idx: "nat (c - 1) = nat c - 1" "nat (c + 1) = nat c + 1" using assms by auto
  show ?thesis
    using w assms(1,4,5) len s
    by (auto simp: clearWideCharacterAt_def r get_at_def set_at_def clear_wide_def line_def [symmetric] idx same)
qed

definition advance :: "int \<Rightarrow> int \<Rightarrow> terminal \<Rightarrow> terminal" where
  "advance c width t =
     (if c + width \<ge> tm_width t
      then (set_column (tm_width t - 1) t)\<lparr>tm_wrap_pending := tm_auto_wrap t\<rparr>
      else set_column (c + width) t)"

definition style_cell :: "terminal \<Rightarrow> string \<Rightarrow> int \<Rightarrow> cell" where
  "style_cell t s width = (tm_style t)\<lparr>cell_text := s, cell_width := width\<rparr>"

lemma put_character_rows:
  assumes wf: "well_formed t" and width: "width = 1 \<or> width = 2" and fits: "column t + width \<le> tm_width t"
  shows "safe (put_character r width t) (\<lambda>t'. \<exists>s. t' = changed (advance (column t) width s) \<and>
     rows_become t ((rows t)(cursor_row t := put_line (blankCell t) (style_cell t (rune_string r) width)
       (style_cell t [] 0) width (nat (column t)) (rows t (cursor_row t)))) s)"
proof -
  define f line rw c where "f = rows t" and "line = rows t (cursor_row t)" and "rw = cursor_row t" and "c = column t"
  have b: "0 \<le> rw" "rw < tm_height t" "0 \<le> c" "c < tm_width t" using bounds [OF wf] by (auto simp: rw_def c_def)
  have fl: "f rw = line" by (simp add: f_def line_def rw_def)
  have c1: "c + 1 < tm_width t" "0 \<le> c + 1" "nat (c + 1) = nat c + 1" if "width = 2"
    using fits that b by (auto simp: c_def)
  let ?x = "style_cell t (rune_string r) width" and ?y = "style_cell t [] 0" and ?b = "blankCell t"
  let ?l = "clear_wide ?b (nat c) line"
  let ?m = "if width = 2 then clear_wide ?b (nat c + 1) ?l else ?l"
  have one: "safe (clearWideCharacterAt rw c t) (rows_become t (f(rw := ?l)))"
    using clearWide_rows [OF rows_become_refl [OF wf] b] by (simp add: f_def [symmetric] fl)
  have two: "safe (if width = 2 then clearWideCharacterAt rw (c + 1) t1 else Some t1)
      (rows_become t (f(rw := ?m)))" if "rows_become t (f(rw := ?l)) t1" for t1
    using clearWide_rows [OF that b(1,2), of "c + 1"] c1 that by auto
  have three: "safe (do { cs1 \<leftarrow> set_at (cells t2) (go_int (rw * tm_width t2 + c))
                 ((tm_style t2)\<lparr>cell_text := rune_string r, cell_width := width\<rparr>);
        cs2 \<leftarrow> (if width = 2
                then set_at cs1 (go_int (rw * tm_width t2 + c + 1))
                       ((tm_style t2)\<lparr>cell_text := [], cell_width := 0\<rparr>)
                else Some cs1); Some (set_cells cs2 t2) })
      (rows_become t (f(rw := put_line ?b ?x ?y width (nat c) line)))"
    if t2: "rows_become t (f(rw := ?m)) t2" for t2
  proof -
    have st: "tm_style t2 = tm_style t" "tm_width t2 = tm_width t" "tm_style (set_cells cs t2) = tm_style t" for cs
      using t2 by (auto simp: rows_become_def)
    have "safe (set_at (cells t2) (go_int (rw * tm_width t2 + c)) ?x)
        (\<lambda>cs. rows_become t (f(rw := ?m[nat c := ?x])) (set_cells cs t2))"
      using set_at_rows [OF t2 b] by simp
    moreover have "safe (set_at cs (go_int (rw * tm_width t2 + c + 1)) ?y)
        (\<lambda>cs'. rows_become t (f(rw := ?m[nat c := ?x, nat c + 1 := ?y])) (set_cells cs' t2))"
      if "width = 2" "rows_become t (f(rw := ?m[nat c := ?x])) (set_cells cs t2)" for cs
      using set_at_rows [OF that(2) b(1,2) c1(2,1) [OF that(1)], of ?y] c1(3) [OF that(1)] by (simp add: add.assoc)
    ultimately show ?thesis
      using width unfolding style_cell_def put_line_def by (auto simp: st elim!: safe_mono)
  qed
  define comp where "comp = do { t1 \<leftarrow> clearWideCharacterAt rw c t;
        t2 \<leftarrow> (if width = 2 then clearWideCharacterAt rw (c + 1) t1 else Some t1);
        do { cs1 \<leftarrow> set_at (cells t2) (go_int (rw * tm_width t2 + c))
                 ((tm_style t2)\<lparr>cell_text := rune_string r, cell_width := width\<rparr>);
        cs2 \<leftarrow> (if width = 2
                then set_at cs1 (go_int (rw * tm_width t2 + c + 1))
                       ((tm_style t2)\<lparr>cell_text := [], cell_width := 0\<rparr>)
                else Some cs1); Some (set_cells cs2 t2) } }"
  have "put_character r width t = do { u \<leftarrow> comp; Some (changed (advance c width u)) }"
    unfolding put_character_def comp_def Let_def advance_def rw_def c_def by (simp add: bind_assoc)
  moreover have "safe comp (rows_become t (f(rw := put_line ?b ?x ?y width (nat c) line)))"
    unfolding comp_def by (rule safe_bindI [OF one], rule safe_bindI [OF two], assumption, rule three)
  ultimately show ?thesis
    unfolding rw_def [symmetric] c_def [symmetric] f_def [symmetric] fl
    by (auto elim!: safe_mono)
qed

subsection \<open>The effect of one print\<close>

text \<open>What every step of printing keeps: the invariant, the announcement of changes, the wide pairs.\<close>

definition keeps :: "terminal \<Rightarrow> terminal \<Rightarrow> bool" where
  "keeps t t' \<longleftrightarrow> well_formed t' \<and> honest t t' \<and> (rows_ok t \<longrightarrow> rows_ok t') \<and>
     tm_width t' = tm_width t"

lemma keeps_refl: "well_formed t \<Longrightarrow> keeps t t"
  by (simp add: keeps_def)

lemma keeps_trans: "keeps t t' \<Longrightarrow> keeps t' t'' \<Longrightarrow> keeps t t''"
  by (auto simp: keeps_def intro: honest_trans)

lemma rows_edited_keeps:
  assumes "well_formed t" "rows_edited t f t'"
    "\<And>r. rows_ok t \<Longrightarrow> 0 \<le> r \<Longrightarrow> r < tm_height t \<Longrightarrow> row_ok (f r)"
  shows "keeps t t'"
proof -
  have "rows_ok t'" if "rows_ok t"
    using assms(3) [OF that] rows_edited_rows [OF assms(2)] rows_edited_frame(2) [OF assms(2)]
    unfolding rows_ok_def by metis
  then show ?thesis
    using rows_edited_wf [OF assms(2,1)] rows_edited_honest [OF assms(2)] rows_edited_frame [OF assms(2)]
    by (simp add: keeps_def)
qed

lemma keeps_cursor:
  assumes "well_formed t" "0 \<le> c" "c < tm_width t" "0 \<le> r" "r < tm_height t"
  shows "keeps t (changed (set_column c t))" "keeps t (changed (set_row r t))"
  using assms by (auto simp: keeps_def honest_def rows_ok_def)

lemma keeps_wrap: "keeps t u \<Longrightarrow> keeps t (u\<lparr>tm_wrap_pending := b\<rparr>)"
  by (auto simp: keeps_def honest_def rows_ok_def visible_state_def)

lemma row_ok_blank [simp]: "row_ok (blank_row t)"
  by (simp add: row_ok_def paired_def blank_row_def)

lemma shift_up_ok:
  assumes "well_formed t" "rows_ok t" "0 \<le> lo" "0 < k" "hi < tm_height t" "0 \<le> r" "r < tm_height t"
  shows "row_ok (shift_up lo hi k (blank_row t) (rows t) r)"
  using assms by (auto simp: shift_up_def rows_ok_def)

lemma shift_down_ok:
  assumes "well_formed t" "rows_ok t" "0 \<le> lo" "0 < k" "hi < tm_height t" "0 \<le> r" "r < tm_height t"
  shows "row_ok (shift_down lo hi k (blank_row t) (rows t) r)"
  using assms by (auto simp: shift_down_def rows_ok_def)

lemma lineFeed_keeps:
  assumes "well_formed t"
  shows "safe (lineFeed t) (keeps t)"
proof -
  have "keeps t (changed u)" if "rows_become t (shift_up (tm_scroll_top t) (tm_scroll_bottom t) 1 (blank_row t) (rows t)) u" for u
    using rows_edited_keeps [OF assms rows_editedI [OF that]] shift_up_ok [OF assms] bounds [OF assms] by auto
  then have scroll: "safe (scrollUp t) (\<lambda>u. keeps t (changed u))"
    using scrollUp_rows [OF assms] by (auto elim: safe_mono)
  have still: "keeps t (changed t)" using assms by (simp add: keeps_def honest_def rows_ok_def)
  show ?thesis using bounds [OF assms] assms scroll still
    by (auto simp: lineFeed_def intro: keeps_cursor)
qed

lemma insertCharacters_keeps:
  assumes "well_formed t"
  shows "safe (insertCharacters n t) (keeps t)"
  by (rule safe_mono [OF insertCharacters_rows [OF assms]], rule rows_edited_keeps [OF assms], assumption)
    (auto simp: rows_ok_def insert_cells_def row_ok_normalized)

lemma put_character_keeps:
  assumes "well_formed t" "width = 1 \<or> width = 2" "column t + width \<le> tm_width t"
  shows "safe (put_character r width t) (keeps t)"
proof (rule safe_mono [OF put_character_rows [OF assms]], elim exE conjE)
  fix t' s
  assume t': "t' = changed (advance (column t) width s)"
    and s: "rows_become t ((rows t)(cursor_row t := put_line (blankCell t) (style_cell t (rune_string r) width)
       (style_cell t [] 0) width (nat (column t)) (rows t (cursor_row t)))) s"
  note k = rows_edited_keeps [OF assms(1) rows_editedI [OF s]]
  have "row_ok (put_line (blankCell t) (style_cell t (rune_string r) width)
       (style_cell t [] 0) width (nat (column t)) (rows t (cursor_row t)))" if "rows_ok t"
    using that assms bounds [OF assms(1)] row_current(2) [OF assms(1)]
    by (intro row_ok_put_line) (auto simp: rows_ok_def style_cell_def)
  then have "keeps t (changed s)" by (intro k) (auto simp: rows_ok_def)
  then show "keeps t t'"
    using assms bounds [OF assms(1)] rows_becomeD [OF s]
    by (auto simp: t' keeps_def advance_def honest_def rows_ok_def)
qed

subsection \<open>Combining characters\<close>

text \<open>The backward search ends at the nearest cell of its row that is no continuation, or before the grid.\<close>

lemma base_index_spec:
  assumes "start < int (length cs)" "-1 \<le> start"
  shows "safe (base_index cs start) (\<lambda>i. -1 \<le> i \<and> i \<le> start \<and>
     (0 \<le> i \<longrightarrow> cell_width (cs ! nat i) \<noteq> 0) \<and> (\<forall>j. i < j \<and> j \<le> start \<longrightarrow> cell_width (cs ! nat j) = 0))"
  using assms
proof (induction cs start rule: base_index.induct)
  case (1 cs start)
  show ?case
  proof (cases "start < 0 \<or> cell_width (cs ! nat start) \<noteq> 0")
    case True
    then show ?thesis using 1 by (subst base_index.simps) (auto simp: get_at_def)
  next
    case False
    have "safe (base_index cs (start - 1)) (\<lambda>i. -1 \<le> i \<and> i \<le> start - 1 \<and>
       (0 \<le> i \<longrightarrow> cell_width (cs ! nat i) \<noteq> 0) \<and> (\<forall>j. i < j \<and> j \<le> start - 1 \<longrightarrow> cell_width (cs ! nat j) = 0))"
      using False 1 by (intro "1.IH" [of "cs ! nat start"]) (auto simp: get_at_def)
    then have "safe (base_index cs (start - 1)) (\<lambda>i. -1 \<le> i \<and> i \<le> start \<and>
       (0 \<le> i \<longrightarrow> cell_width (cs ! nat i) \<noteq> 0) \<and> (\<forall>j. i < j \<and> j \<le> start \<longrightarrow> cell_width (cs ! nat j) = 0))"
      by (rule safe_mono) (use False in \<open>auto simp: order_le_less\<close>)
    then show ?thesis using False 1(2) by (subst base_index.simps) (simp add: get_at_def)
  qed
qed

text \<open>Changing the text of a cell changes no width.\<close>

lemma row_ok_widths:
  assumes "map cell_width a = map cell_width b"
  shows "row_ok a = row_ok b"
proof -
  have len: "length a = length b" using assms by (rule map_eq_imp_length_eq)
  have "cell_width (a ! c) = cell_width (b ! c)" if "c < length b" for c
    using arg_cong [OF assms, of "\<lambda>l. l ! c"] that len by simp
  then show ?thesis using len by (auto simp: row_ok_def paired_def less_imp_diff_less)
qed

lemma keeps_text:
  assumes "well_formed t" "i < length (cells t)" "cell_width x = cell_width (cells t ! i)"
  shows "keeps t (changed (set_cells ((cells t)[i := x]) t))"
proof -
  have "map cell_width ((cells t)[i := x]) = map cell_width (cells t)"
    using assms by (auto simp: map_update intro: list_update_same_conv [THEN iffD2])
  then have "map cell_width (row_of ((cells t)[i := x]) w r) = map cell_width (row_of (cells t) w r)" for w r
    by (simp add: row_of_def take_map [symmetric] drop_map [symmetric])
  then have "row_ok (row_of ((cells t)[i := x]) w r) = row_ok (row_of (cells t) w r)" for w r
    by (rule row_ok_widths)
  then show ?thesis using assms wf_grid [OF assms(1)] by (simp add: keeps_def honest_def rows_ok_def)
qed

lemma appendCombining_keeps:
  assumes "well_formed t"
  shows "safe (appendCombining r t) (keeps t)"
proof -
  define c where "c = (if tm_wrap_pending t then column t else column t - 1)"
  have c: "c \<le> column t" by (simp add: c_def)
  show ?thesis
  proof (cases "c < 0")
    case False
    let ?start = "go_int (cursor_row t * tm_width t + c)"
    have "?start < int (length (cells t))" "0 \<le> ?start"
      using cursor_index [OF assms] c False grid_go_int [OF wf_grid [OF assms], of "cursor_row t * tm_width t + c"] by auto
    then have "safe (base_index (cells t) ?start) (\<lambda>i. -1 \<le> i \<and> i < int (length (cells t)))"
      by (intro safe_mono [OF base_index_spec]) auto
    then have "safe (do { index \<leftarrow> base_index (cells t) ?start;
        if index \<ge> 0 then do { x \<leftarrow> get_at (cells t) index;
             cs \<leftarrow> set_at (cells t) index (x\<lparr>cell_text := cell_text x @ rune_string r\<rparr>);
             Some (changed (set_cells cs t)) }
        else Some t }) (keeps t)"
      by (rule safe_bindI) (auto simp: get_at_def set_at_def keeps_refl assms intro!: keeps_text)
    then show ?thesis using False by (simp add: appendCombining_def c_def Let_def)
  qed (simp add: appendCombining_def c_def Let_def keeps_refl assms)
qed

subsection \<open>print\<close>

lemma wrap_before_keeps:
  assumes "well_formed t"
  shows "safe (wrap_before width t) (keeps t)"
proof -
  have "keeps t (changed (set_column 0 t))" "well_formed (set_column 0 t)"
    using assms bounds [OF assms] by (auto intro: keeps_cursor)
  then have "safe (lineFeed (set_column 0 t)) (keeps (set_column 0 t))"
    by (intro lineFeed_keeps)
  note lf = this
  have up: "keeps t u" if "keeps (set_column 0 t) u \<and> tm_revision t < tm_revision u" for u
    using that by (auto simp: keeps_def honest_def rows_ok_def)
  have "safe (lineFeed (set_column 0 t)) (\<lambda>u. tm_revision t < tm_revision u)"
  proof -
    have "safe (scrollUp (set_column 0 t)) (\<lambda>u. tm_revision u = tm_revision t)"
      using scrollUp_rows [OF \<open>well_formed (set_column 0 t)\<close>]
      by (rule safe_mono) (simp add: rows_becomeD(4))
    then show ?thesis by (auto simp: lineFeed_def elim: safe_mono)
  qed
  then have "safe (lineFeed (set_column 0 t)) (keeps t)"
    by (rule safe_mono [OF safe_conj [OF lf] up])
  then show ?thesis
    using assms keeps_refl
    by (auto simp: wrap_before_def intro: keeps_wrap elim!: safe_mono)
qed

lemma insertCharacters_column: "well_formed t \<Longrightarrow> safe (insertCharacters n t) (\<lambda>u. column u = column t)"
  by (rule safe_mono [OF insertCharacters_rows]) (auto dest: rows_edited_frame)

theorem print_keeps:
  assumes "well_formed t"
  shows "safe (print sw r t) (keeps t)"
proof -
  have cs: "current_charset t \<noteq> None" using assms by (auto simp: current_charset_def well_formed_def)
  have put: "safe (put_character r' v2 t2) (keeps t)"
    if "keeps t t2" "v2 = 1 \<or> v2 = 2" "column t2 + v2 \<le> tm_width t2" for r' v2 t2
    using that by (intro safe_mono [OF put_character_keeps]) (auto simp: keeps_def intro: honest_trans)
  have insert: "safe (if tm_insert_mode t1 then insertCharacters v2 t1 else Some t1)
      (\<lambda>t2. keeps t t2 \<and> column t2 = column t1)" if "keeps t t1" for t1 v2
  proof -
    have "well_formed t1" using that by (simp add: keeps_def)
    then show ?thesis
      using safe_conj [OF insertCharacters_keeps insertCharacters_column, of t1 v2] that
      by (auto elim!: safe_mono intro: keeps_trans)
  qed
  define tail where "tail v1 r' = do { t1 \<leftarrow> wrap_before v1 t;
        t2 \<leftarrow> (if tm_insert_mode t1
               then insertCharacters (if v1 = 2 \<and> column t1 = tm_width t1 - 1 then 1 else v1) t1
               else Some t1);
        put_character r' (if v1 = 2 \<and> column t1 = tm_width t1 - 1 then 1 else v1) t2 }" for v1 r'
  have tail: "safe (tail v1 r') (keeps t)" if v1: "v1 = 1 \<or> v1 = 2" for v1 r'
    unfolding tail_def
  proof (rule safe_bindI [OF wrap_before_keeps [OF assms]])
    fix t1 assume t1: "keeps t t1"
    then have w: "well_formed t1" by (simp add: keeps_def)
    define v2 where "v2 = (if v1 = 2 \<and> column t1 = tm_width t1 - 1 then 1 else v1)"
    have v2: "v2 = 1 \<or> v2 = 2" "column t1 + v2 \<le> tm_width t1"
      using v1 bounds [OF w] by (auto simp: v2_def)
    show "safe (do { t2 \<leftarrow> (if tm_insert_mode t1
               then insertCharacters (if v1 = 2 \<and> column t1 = tm_width t1 - 1 then 1 else v1) t1
               else Some t1);
        put_character r' (if v1 = 2 \<and> column t1 = tm_width t1 - 1 then 1 else v1) t2 }) (keeps t)"
      unfolding v2_def [symmetric] using t1 v2
      by (intro safe_bindI [OF insert [OF t1]] put) (auto simp: keeps_def)
  qed
  have "rune_width sw t r' = 0 \<or> rune_width sw t r' = 1 \<or> rune_width sw t r' = 2" for r'
    by (auto simp: rune_width_def Let_def)
  then have "safe (tail (if rune_width sw t r' > tm_width t then 1 else rune_width sw t r') r') (keeps t)"
    if "rune_width sw t r' \<noteq> 0" for r' using that by (intro tail) metis
  then show ?thesis
    using cs appendCombining_keeps [OF assms]
    unfolding print_def Let_def tail_def [symmetric] by auto
qed

end
