(* ===== verification/Terminal_Safety.thy ===== *)
theory Terminal_Safety
  imports Terminal_Print
begin

text \<open>
  Every parser event keeps the terminal well formed and does not panic; every event but the ones that
  clear or restore the alternate screen in place announces what it changes by a higher revision.
\<close>

definition good :: "terminal \<Rightarrow> terminal \<Rightarrow> bool" where
  "good t t' \<longleftrightarrow> well_formed t' \<and> honest t t'"

lemma good_refl: "well_formed t \<Longrightarrow> good t t"
  by (simp add: good_def)

lemma keeps_good: "keeps t t' \<Longrightarrow> good t t'"
  by (simp add: keeps_def good_def)

lemma edited_good: "well_formed t \<Longrightarrow> rows_edited t f t' \<Longrightarrow> good t t'"
  by (simp add: good_def rows_edited_wf rows_edited_honest)

lemma blanked_good: "well_formed t \<Longrightarrow> blanked t a b t' \<Longrightarrow> good t t'"
  by (simp add: good_def blanked_wf blanked_honest)

lemma good_events [simp]: "well_formed t \<Longrightarrow> good t (unsupported s t)" "well_formed t \<Longrightarrow> good t (emit ty d t)"
  by (simp_all add: good_def)

lemma good_changedI: "well_formed u \<Longrightarrow> tm_revision u = tm_revision t \<Longrightarrow> good t (changed u)"
  by (simp add: good_def honest_def)

lemma good_silentI: "well_formed u \<Longrightarrow> visible_state u = visible_state t \<Longrightarrow> tm_revision u = tm_revision t \<Longrightarrow> good t u"
  by (simp add: good_def honest_def)

lemma visible_upd [simp]:
  "visible_state (t\<lparr>tm_wrap_pending := x2\<rparr>) = visible_state t"
  "visible_state (t\<lparr>tm_style := x3\<rparr>) = visible_state t"
  "visible_state (t\<lparr>tm_events := x4\<rparr>) = visible_state t"
  "visible_state (t\<lparr>tm_charset := x6\<rparr>) = visible_state t"
  "visible_state (t\<lparr>tm_charsets := x7\<rparr>) = visible_state t"
  "visible_state (t\<lparr>tm_insert_mode := x8\<rparr>) = visible_state t"
  "visible_state (t\<lparr>tm_auto_wrap := x9\<rparr>) = visible_state t"
  "visible_state (t\<lparr>tm_application_cursor := x10\<rparr>) = visible_state t"
  by (simp_all add: visible_state_def)

lemma wf_charset [simp]: "well_formed t \<Longrightarrow> c = 0 \<or> c = 1 \<Longrightarrow> well_formed (t\<lparr>tm_charset := c\<rparr>)"
  by (simp add: well_formed_def)

lemma wf_scroll_region [simp]:
  "well_formed t \<Longrightarrow> 0 \<le> a \<Longrightarrow> a \<le> b \<Longrightarrow> b < tm_height t \<Longrightarrow>
     well_formed (t\<lparr>tm_scroll_top := a, tm_scroll_bottom := b\<rparr>)"
  by (simp add: well_formed_def)

lemma good_wrap: "good t u \<Longrightarrow> good t (u\<lparr>tm_wrap_pending := b\<rparr>)"
  by (auto simp: good_def honest_def)

subsection \<open>Controls and escape sequences\<close>

lemma lineFeed_good: "well_formed t \<Longrightarrow> safe (lineFeed t) (good t)"
  by (rule safe_mono [OF lineFeed_keeps keeps_good])

lemma execute_good:
  assumes "well_formed t"
  shows "safe (execute b t) (good t)"
proof -
  note b = bounds [OF assms]
  have "good t (changed ((set_column c t)\<lparr>tm_wrap_pending := False\<rparr>))" if "0 \<le> c" "c < tm_width t" for c
    using that assms by (intro good_changedI) auto
  moreover have "safe (do { t' \<leftarrow> lineFeed t; Some (t'\<lparr>tm_wrap_pending := False\<rparr>) }) (good t)"
    using lineFeed_good [OF assms] by (auto intro: good_wrap elim!: safe_mono)
  ultimately show ?thesis
    unfolding execute_def using assms b by (intro safe_ifI) (auto intro: good_silentI)
qed

lemma reverseIndex_good:
  assumes "well_formed t"
  shows "safe (reverseIndex t) (good t)"
proof -
  have "safe (do { u \<leftarrow> for_each (rev [tm_scroll_top t + 1..tm_scroll_bottom t]) (\<lambda>d. copy_row d (d - 1)) t;
                   for_each [tm_scroll_top t..tm_scroll_top t + 1 - 1] clearRow u })
      (rows_become t (shift_down (tm_scroll_top t) (tm_scroll_bottom t) 1 (blank_row t) (rows t)))"
    using wf_dims [OF assms] by (intro scroll_region_down assms) auto
  then have "safe (do { u \<leftarrow> for_each (rev [tm_scroll_top t + 1..tm_scroll_bottom t]) (\<lambda>d. copy_row d (d - 1)) t;
                   clearRow (tm_scroll_top t) u }) (\<lambda>u. good t (changed u))"
    by (auto elim!: safe_mono intro: edited_good [OF assms] rows_editedI)
  then show ?thesis
    using assms wf_cursor [OF assms]
    by (auto simp: reverseIndex_def intro: good_changedI)
qed

lemma good_set_column:
  assumes "well_formed t" "0 \<le> c" "c < tm_width t" "good (set_column c t) u" "tm_revision t < tm_revision u"
  shows "good t u"
  using assms by (simp add: good_def honest_def)

lemma lineFeed_revision:
  assumes "well_formed t"
  shows "safe (lineFeed t) (\<lambda>u. tm_revision u = tm_revision t + 1)"
proof -
  have "safe (scrollUp t) (\<lambda>u. tm_revision u = tm_revision t)"
    using scrollUp_rows [OF assms] by (rule safe_mono) (simp add: rows_becomeD(4))
  then show ?thesis by (auto simp: lineFeed_def elim: safe_mono)
qed

lemma wf_fresh_buffer:
  "dims_fit w h \<Longrightarrow> wf_buffer w h \<lparr>buf_cells = replicate (nat (w * h)) x, buf_cursor = visible_cursor v, buf_saved = zero_cursor\<rparr>"
  by (auto simp: wf_buffer_def grid_replicate dims_fit_def cursor_in_def visible_cursor_def zero_cursor_def)

lemma blankCells_screen:
  "well_formed t \<Longrightarrow> blankCells (go_int (tm_width t * tm_height t)) u = Some (replicate (nat (tm_width t * tm_height t)) (blankCell u))"
  using dims_fit_go_int [OF wf_dims_fit [of t]] by (simp add: blankCells_in)

lemma reset_good:
  assumes "well_formed t"
  shows "safe (reset t) (good t)"
  using wf_dims [OF assms] wf_dims_fit [OF assms] wf_fresh_buffer [OF wf_dims_fit [OF assms]]
  by (auto simp: reset_def Let_def blankCells_screen [OF assms] well_formed_def zero_buffer_def
      intro!: good_changedI)

lemma handleEscape_good:
  assumes "well_formed t"
  shows "safe (handleEscape c t) (good t)"
proof -
  have act: "wf_buffer (tm_width t) (tm_height t) (active_buffer t)" using assms by (rule wf_active)
  have save: "good t (map_active (\<lambda>b. b\<lparr>buf_saved := buf_cursor b\<rparr>) t)"
    using act by (intro good_silentI wf_map_active assms)
      (auto simp: wf_buffer_def visible_state_def cells_def cursor_of_def)
  have restore: "good t (changed ((map_active (\<lambda>b. b\<lparr>buf_cursor := buf_saved b\<rparr>) t)\<lparr>tm_wrap_pending := False\<rparr>))"
    using act assms by (intro good_changedI) (auto simp: wf_buffer_def intro!: wf_map_active)
  have nel: "safe (lineFeed (set_column 0 t)) (good t)"
  proof -
    have w: "well_formed (set_column 0 t)" using assms bounds [OF assms] by simp
    show ?thesis
      using safe_conj [OF lineFeed_good [OF w] lineFeed_revision [OF w]]
      by (rule safe_mono) (use assms bounds [OF assms] in \<open>auto intro: good_set_column [of t 0]\<close>)
  qed
  have set: "good t (t\<lparr>tm_charsets := x\<rparr>)" for x using assms by (intro good_silentI) auto
  show ?thesis
    unfolding handleEscape_def Let_def
    using assms save restore nel set lineFeed_good [OF assms] reverseIndex_good [OF assms] reset_good [OF assms]
    by (intro safe_ifI) (simp_all add: good_refl)
qed

lemma handleOSC_good: "well_formed t \<Longrightarrow> good t (handleOSC n data t)"
  by (auto simp: handleOSC_def Let_def good_refl intro: good_changedI)

subsection \<open>Graphic rendition\<close>

definition restyled :: "terminal \<Rightarrow> terminal \<Rightarrow> bool" where
  "restyled t t' \<longleftrightarrow> (\<exists>s e. t' = t\<lparr>tm_style := s, tm_events := e\<rparr>)"

lemma restyled_refl [simp]: "restyled t t"
  unfolding restyled_def by (intro exI [of _ "tm_style t"] exI [of _ "tm_events t"]) simp

lemma restyled_trans: "restyled t t' \<Longrightarrow> restyled t' t'' \<Longrightarrow> restyled t t''"
  by (auto simp: restyled_def) (intro exI, rule refl)

lemma restyled_good: "well_formed t \<Longrightarrow> restyled t t' \<Longrightarrow> good t t'"
  by (auto simp: restyled_def intro: good_silentI)

lemma restyled_style: "restyled t (t\<lparr>tm_style := s\<rparr>)"
  unfolding restyled_def by (intro exI [of _ s] exI [of _ "tm_events t"]) simp

lemma restyled_ops [simp]:
  "restyled t (unsupported s t)" "restyled t (set_color fg c t)"
  "restyled t (set_attribute a t)" "restyled t (clear_attribute a t)" "restyled t (t\<lparr>tm_style := st\<rparr>)"
proof -
  show "restyled t (unsupported s t)"
    unfolding restyled_def unsupported_def emit_def by (intro exI [of _ "tm_style t"] exI) simp
qed (simp_all add: set_color_def set_attribute_def clear_attribute_def restyled_style)

lemma setExtendedColor_restyled: "restyled t (fst (setExtendedColor ps i fg t))"
  by (simp add: setExtendedColor_def Let_def)

lemma rendition_value_restyled: "restyled t (fst (rendition_value ps i v t))"
proof -
  have "rendition_value ps i v t \<in> {x. restyled t (fst x)}"
    unfolding rendition_value_def by (intro if_memI) (simp_all add: setExtendedColor_restyled)
  then show ?thesis by simp
qed

lemma rendition_loop_restyled: "restyled t (rendition_loop ps i t)"
proof (induction ps i t rule: rendition_loop.induct)
  case (1 ps i t)
  show ?case
  proof (cases "i < length ps")
    case True
    have "restyled t (fst (rendition_step ps i t))"
      by (simp add: rendition_step_def rendition_value_restyled)
    then show ?thesis
      using restyled_trans [OF _ "1.IH" [OF True refl]] True
      by (subst rendition_loop.simps) (simp add: Let_def)
  next
    case False
    then show ?thesis by (subst rendition_loop.simps) simp
  qed
qed

lemma setRendition_restyled: "restyled t (setRendition ps t)"
  by (simp add: setRendition_def Let_def rendition_loop_restyled)

subsection \<open>Modes and the alternate screen\<close>

lemma good_trans: "good t u \<Longrightarrow> good u v \<Longrightarrow> good t v"
  by (auto simp: good_def intro: honest_trans)

text \<open>The modes whose handling may change the active screen without a new revision.\<close>

definition in_place_mode :: "int \<Rightarrow> bool" where
  "in_place_mode v \<longleftrightarrow> v = 1047 \<or> v = 1049"

lemma wf_buffer_visible:
  "wf_buffer w h b \<Longrightarrow> wf_buffer w h (b\<lparr>buf_cursor := (buf_cursor b)\<lparr>cur_visible := v\<rparr>\<rparr>)"
  by (simp add: wf_buffer_def cursor_in_def)

lemma wf_buffer_cursor:
  "wf_buffer w h b \<Longrightarrow> cursor_in w h c \<Longrightarrow> wf_buffer w h (b\<lparr>buf_cursor := c\<rparr>)"
  "wf_buffer w h b \<Longrightarrow> cursor_in w h c \<Longrightarrow> wf_buffer w h (b\<lparr>buf_saved := c\<rparr>)"
  by (simp_all add: wf_buffer_def)

lemma wf_main:
  assumes "well_formed t" "wf_buffer (tm_width t) (tm_height t) b"
  shows "well_formed (t\<lparr>tm_main := b\<rparr>)"
  using assms by (simp add: well_formed_def)

lemma wf_alternate:
  assumes "well_formed t" "wf_buffer (tm_width t) (tm_height t) b"
  shows "well_formed (t\<lparr>tm_alternate := b\<rparr>)"
  using assms by (auto simp: well_formed_def wf_buffer_def)

lemma wf_mainD: "well_formed t \<Longrightarrow> wf_buffer (tm_width t) (tm_height t) (tm_main t)"
  by (simp add: well_formed_def)

lemma wf_alternateD:
  "well_formed t \<Longrightarrow> buf_cells (tm_alternate t) \<noteq> [] \<Longrightarrow> wf_buffer (tm_width t) (tm_height t) (tm_alternate t)"
  by (simp add: well_formed_def)

lemma enterAlternate_wf:
  assumes "well_formed t"
  shows "safe (enterAlternate clear t) (\<lambda>u. well_formed u \<and> tm_active u = Alternate \<and>
     (\<not> (clear \<and> tm_active t = Alternate) \<longrightarrow> honest t u))"
proof -
  let ?blank = "replicate (nat (tm_width t * tm_height t)) (blankCell t)"
  have dims: "0 < tm_width t" "0 < tm_height t" using wf_dims [OF assms] by auto
  have fresh: "wf_buffer (tm_width t) (tm_height t)
      \<lparr>buf_cells = ?blank, buf_cursor = visible_cursor v, buf_saved = zero_cursor\<rparr>" for v
    by (rule wf_fresh_buffer [OF wf_dims_fit [OF assms]])
  have clear: "well_formed (t\<lparr>tm_alternate := (tm_alternate t)\<lparr>buf_cells := ?blank, buf_cursor := visible_cursor v\<rparr>\<rparr>)"
    if "tm_active t = Alternate" for v
    using wf_alternateD [OF assms] assms that fresh [of v]
    by (intro wf_alternate) (auto simp: wf_buffer_def well_formed_def)
  have switch: "well_formed (u\<lparr>tm_active := Alternate\<rparr>)"
    if "well_formed u" "buf_cells (tm_alternate u) \<noteq> []" for u
    using that by (simp add: well_formed_def)
  have blank: "?blank \<noteq> []" using dims by (simp add: mult_pos_pos not_le)
  show ?thesis
    using assms clear fresh blank
    by (auto simp: enterAlternate_def blankCells_screen honest_def intro!: switch wf_alternate)
qed

lemma exitAlternate_good: "well_formed t \<Longrightarrow> good t (exitAlternate t)"
  by (auto simp: exitAlternate_def good_refl well_formed_def intro!: good_changedI)

lemma exitAlternate_wf: "well_formed t \<Longrightarrow> well_formed (exitAlternate t)"
  using exitAlternate_good by (simp add: good_def)

lemma setXTermPrivateMode_good:
  assumes "well_formed t"
  shows "safe (setXTermPrivateMode v enabled t) (\<lambda>r. well_formed (fst r) \<and> (\<not> in_place_mode v \<longrightarrow> honest t (fst r)))"
proof -
  have enter: "safe (enterAlternate (v = 1047) t) (\<lambda>u. well_formed u \<and> (v \<noteq> 1047 \<longrightarrow> honest t u))"
    using enterAlternate_wf [OF assms, of "v = 1047"] by (rule safe_mono) auto
  have saved: "well_formed (t\<lparr>tm_main := (tm_main t)\<lparr>buf_saved := buf_cursor (tm_main t)\<rparr>\<rparr>)"
    using wf_mainD [OF assms] by (intro wf_main assms wf_buffer_cursor) (auto simp: wf_buffer_def)
  have enter2: "safe (enterAlternate True (t\<lparr>tm_main := (tm_main t)\<lparr>buf_saved := buf_cursor (tm_main t)\<rparr>\<rparr>)) well_formed"
    using enterAlternate_wf [OF saved] by (rule safe_mono) simp
  define u where "u = exitAlternate t"
  have u: "well_formed u" "good t u" using exitAlternate_good [OF assms] by (auto simp: u_def good_def)
  have restore: "well_formed (u\<lparr>tm_main := (tm_main u)\<lparr>buf_cursor := (buf_saved (tm_main u))\<lparr>cur_visible := x\<rparr>\<rparr>\<rparr>)" for x
    using wf_mainD [OF u(1)]
    by (intro wf_main u wf_buffer_cursor) (auto simp: wf_buffer_def cursor_in_def)
  show ?thesis
    unfolding setXTermPrivateMode_def Let_def u_def [symmetric]
    using enter enter2 restore u assms
    by (auto simp: in_place_mode_def good_def elim: safe_mono)
qed

lemma setPrivateMode_good:
  assumes "well_formed t"
  shows "safe (setPrivateMode c p t) (\<lambda>u. well_formed u \<and>
     (\<not> (par_present p \<and> in_place_mode (par_value p)) \<longrightarrow> honest t u))"
proof -
  have cur: "good t (changed (if buf_cells (tm_alternate u) \<noteq> []
                      then u\<lparr>tm_alternate := (tm_alternate u)
                             \<lparr>buf_cursor := (buf_cursor (tm_alternate u))\<lparr>cur_visible := e\<rparr>\<rparr>\<rparr>
                      else u))"
    if "u = t\<lparr>tm_main := (tm_main t)\<lparr>buf_cursor := (buf_cursor (tm_main t))\<lparr>cur_visible := e\<rparr>\<rparr>\<rparr>" for e u
  proof (rule good_changedI)
    have "well_formed u" unfolding that using assms wf_mainD by (intro wf_main wf_buffer_visible)
    then show "well_formed (if buf_cells (tm_alternate u) \<noteq> []
                      then u\<lparr>tm_alternate := (tm_alternate u)
                             \<lparr>buf_cursor := (buf_cursor (tm_alternate u))\<lparr>cur_visible := e\<rparr>\<rparr>\<rparr>
                      else u)"
      using wf_alternateD by (auto intro!: wf_alternate wf_buffer_visible)
  qed (simp add: that)
  have silent: "safe (Some u) (\<lambda>u. well_formed u \<and> (A \<longrightarrow> honest t u))" if "good t u" for u A
    using that by (simp add: good_def)
  have xterm: "safe (do { r \<leftarrow> setXTermPrivateMode (par_value p) (cmd_final c = 0x68) t;
        Some (if snd r then fst r else unsupported (describe ''CSI'' c [p]) (fst r)) })
      (\<lambda>u. well_formed u \<and> (\<not> (par_present p \<and> in_place_mode (par_value p)) \<longrightarrow> honest t u))"
    if "par_present p"
    unfolding safe_bind
    by (rule safe_mono [OF setXTermPrivateMode_good [OF assms]])
      (auto intro: honest_trans honest_unsupported simp: that)
  show ?thesis
    unfolding setPrivateMode_def Let_def
    by (intro safe_ifI xterm silent cur [OF refl]) (use assms in \<open>auto intro: good_silentI simp: good_refl\<close>)
qed

lemma setMode_good: "well_formed t \<Longrightarrow> safe (setMode c p t) (good t)"
  by (auto simp: setMode_def good_refl intro: good_silentI)

lemma for_each_good:
  assumes "\<And>x u. x \<in> set xs \<Longrightarrow> well_formed u \<Longrightarrow> safe (f x u) (good u)" "well_formed t"
  shows "safe (for_each xs f t) (good t)"
proof (rule for_each_inv)
  fix x u assume "x \<in> set xs" "good t u"
  then show "safe (f x u) (good t)"
    using assms(1) [of x u] by (auto simp: good_def elim!: safe_mono intro: honest_trans)
qed (simp add: good_refl assms(2))

lemma setPrivateModes_good:
  assumes "well_formed t"
  shows "safe (setPrivateModes c ps t) well_formed"
    and "(\<forall>p \<in> set ps. \<not> (par_present p \<and> in_place_mode (par_value p))) \<Longrightarrow>
      safe (setPrivateModes c ps t) (good t)"
  unfolding setPrivateModes_def
proof -
  show "safe (for_each ps (setPrivateMode c) t) well_formed"
    by (rule for_each_inv) (auto intro: safe_mono [OF setPrivateMode_good] assms)
  assume "\<forall>p \<in> set ps. \<not> (par_present p \<and> in_place_mode (par_value p))"
  then show "safe (for_each ps (setPrivateMode c) t) (good t)"
    by (intro for_each_good assms safe_mono [OF setPrivateMode_good]) (auto simp: good_def)
qed

subsection \<open>Control sequences and events\<close>

definition params_ok :: "parameter list \<Rightarrow> bool" where
  "params_ok ps \<longleftrightarrow> (\<forall>p \<in> set ps. 0 \<le> par_value p)"

lemma param_ge: "params_ok ps \<Longrightarrow> 0 \<le> fallback \<Longrightarrow> 0 \<le> param ps i fallback"
  by (auto simp: params_ok_def param_def not_le)

lemma param_ge_1: "params_ok ps \<Longrightarrow> 1 \<le> param ps i 1"
  by (auto simp: params_ok_def param_def not_le) (metis nth_mem order_le_less zless_imp_add1_zle add_0)

lemma setScrollRegion_good:
  assumes "well_formed t"
  shows "good t (setScrollRegion ps t)"
proof -
  have "good t (changed ((set_row 0 (set_column 0 (t\<lparr>tm_scroll_top := a, tm_scroll_bottom := b\<rparr>)))
                         \<lparr>tm_wrap_pending := False\<rparr>))"
    if "0 \<le> a" "b < tm_height t" "a < b" for a b
    using that assms bounds [OF assms] by (intro good_changedI) auto
  then show ?thesis by (auto simp: setScrollRegion_def Let_def good_refl assms)
qed

lemma cursorChanged_good:
  assumes "well_formed t" "0 \<le> c" "c < tm_width t" "0 \<le> r" "r < tm_height t"
  shows "good t (cursorChanged (set_column c t))" "good t (cursorChanged (set_row r t))"
    "good t (cursorChanged (set_column c (set_row r t)))"
  unfolding cursorChanged_def using assms by (auto intro: good_changedI)

lemma eraseLine_good:
  assumes "well_formed t" shows "safe (eraseLine m t) (good t)"
proof (cases "m \<in> {0, 1, 2}")
  case True
  then show ?thesis by (rule safe_mono [OF eraseLine_blanked [OF assms] blanked_good [OF assms]])
qed (simp add: eraseLine_other good_refl assms)

lemma eraseDisplay_good:
  assumes "well_formed t" shows "safe (eraseDisplay m t) (good t)"
proof (cases "m \<in> {0, 1, 2} \<or> m = 3 \<and> tm_xterm t")
  case True
  then show ?thesis by (rule safe_mono [OF eraseDisplay_blanked [OF assms] blanked_good [OF assms]])
qed (simp add: eraseDisplay_other good_refl assms)

lemma insertLines_good:
  assumes "well_formed t" shows "safe (insertLines n t) (good t)"
proof (cases "cursor_row t < tm_scroll_top t \<or> cursor_row t > tm_scroll_bottom t")
  case False
  then show ?thesis
    by (intro safe_mono [OF insertLines_rows edited_good]) (use assms in auto)
qed (auto simp: insertLines_def good_refl assms)

lemma deleteLines_good:
  assumes "well_formed t" shows "safe (deleteLines n t) (good t)"
proof (cases "cursor_row t < tm_scroll_top t \<or> cursor_row t > tm_scroll_bottom t")
  case False
  then show ?thesis
    by (intro safe_mono [OF deleteLines_rows edited_good]) (use assms in auto)
qed (auto simp: deleteLines_def good_refl assms)

lemmas edit_goods =
  safe_mono [OF insertCharacters_rows edited_good] safe_mono [OF deleteCharacters_rows edited_good]
  safe_mono [OF eraseCharacters_blanked blanked_good] eraseLine_good eraseDisplay_good
  insertLines_good deleteLines_good

lemma setModes_good: "well_formed t \<Longrightarrow> safe (setModes c ps t) (good t)"
  unfolding setModes_def by (intro for_each_good setMode_good)

definition private_modes :: "command \<Rightarrow> bool" where
  "private_modes c \<longleftrightarrow> cmd_prefix c = 0x3F \<and> cmd_intermediate c = 0 \<and> (cmd_final c = 0x68 \<or> cmd_final c = 0x6C)"

lemma handleCSI_good:
  assumes "well_formed t" "params_ok ps" "\<not> private_modes c"
  shows "safe (handleCSI c ps t) (good t)"
proof -
  note b = bounds [OF assms(1)] and p = param_ge_1 [OF assms(2)]
  note cc = cursorChanged_good [OF assms(1)]
  have "good t (cursorChanged (set_row (max 0 (cursor_row t - param ps 0 1)) t))"
    using b p [of 0] by (intro cc(2) [of 0]) auto
  moreover have "good t (cursorChanged (set_row (min (tm_height t - 1) (cursor_row t + param ps 0 1)) t))"
    using b p [of 0] by (intro cc(2) [of 0]) auto
  moreover have "good t (cursorChanged (set_column (min (tm_width t - 1) (column t + param ps 0 1)) t))"
    using b p [of 0] by (intro cc(1) [of _ 0]) auto
  moreover have "good t (cursorChanged (set_column (max 0 (column t - param ps 0 1)) t))"
    using b p [of 0] by (intro cc(1) [of _ 0]) auto
  moreover have "good t (cursorChanged (set_column (min (tm_width t - 1) (max 0 (param ps 0 1 - 1))) t))"
    using b by (intro cc(1) [of _ 0]) auto
  moreover have "good t (cursorChanged (set_column (min (tm_width t - 1) (max 0 (param ps 1 1 - 1)))
               (set_row (min (tm_height t - 1) (max 0 (param ps 0 1 - 1))) t)))"
    using b by (intro cc(3)) auto
  moreover have "good t (setRendition ps t)"
    using assms(1) by (intro restyled_good setRendition_restyled)
  ultimately show ?thesis
    using assms(3) unfolding handleCSI_def Let_def private_modes_def [symmetric] conj_assoc [symmetric]
    by (intro safe_ifI; simp add: assms(1) edit_goods setModes_good setScrollRegion_good private_modes_def)
qed

definition event_ok :: "parser_event \<Rightarrow> bool" where
  "event_ok e = (case e of CSI c ps \<Rightarrow> params_ok ps | _ \<Rightarrow> True)"

text \<open>The events that may change the active screen in place, without a new revision.\<close>

definition in_place :: "parser_event \<Rightarrow> bool" where
  "in_place e = (case e of
     CSI c ps \<Rightarrow> private_modes c \<and> (\<exists>p \<in> set ps. par_present p \<and> in_place_mode (par_value p))
   | _ \<Rightarrow> False)"

lemma handleCSI_private: "private_modes c \<Longrightarrow> handleCSI c ps t = setPrivateModes c ps t"
  by (simp add: handleCSI_def private_modes_def)

lemma handle_good:
  assumes "well_formed t" "event_ok e"
  shows "safe (handle sw e t) (\<lambda>u. well_formed u \<and> (\<not> in_place e \<longrightarrow> honest t u))"
proof (cases e)
  case (CSI c ps)
  show ?thesis
  proof (cases "private_modes c")
    case True
    then show ?thesis
      using setPrivateModes_good [OF assms(1), where c = c and ps = ps] CSI
      by (cases "\<exists>p \<in> set ps. par_present p \<and> in_place_mode (par_value p)")
        (auto simp: handleCSI_private in_place_def good_def elim: safe_mono)
  next
    case False
    then show ?thesis
      using handleCSI_good [OF assms(1) _ False, of ps] assms(2) CSI
      by (auto simp: event_ok_def good_def elim: safe_mono)
  qed
next
  case (Print r)
  then show ?thesis using print_keeps [OF assms(1), of sw r] by (auto simp: keeps_def elim: safe_mono)
next
  case (Execute b)
  then show ?thesis using execute_good [OF assms(1), of b] by (auto simp: good_def elim: safe_mono)
next
  case (Escape c)
  then show ?thesis using handleEscape_good [OF assms(1), of c] by (auto simp: good_def elim: safe_mono)
next
  case (OSC n data)
  then show ?thesis using handleOSC_good [OF assms(1), of n data] by (simp add: good_def)
qed (simp_all add: assms(1))

interpretation screen_machine: event_machine "handle sw" well_formed event_ok "\<lambda>_ _. True"
  by unfold_locales (auto intro: safe_mono [OF handle_good])

interpretation announced: event_machine "handle sw" well_formed "\<lambda>e. event_ok e \<and> \<not> in_place e" honest
  by unfold_locales (auto intro: safe_mono [OF handle_good] honest_trans)

end
