(* ===== verification/Terminal_Resize.thy ===== *)
theory Terminal_Resize
  imports Terminal_Safety
begin

text \<open>
  \<open>Resize\<close> and the life of a terminal. The overlap of the old and the new screen survives a resize, cell
  by cell, with the halves of cut wide characters blanked; the rest is blank, the cursors are clamped.
  \<open>reachable\<close> are the states that the exported methods of \<open>ansi.Terminal\<close> can produce from \<open>New\<close>; all
  of them are well formed, so no method panics on them.
\<close>

subsection \<open>Row prefixes\<close>

lemma slice_row_prefix:
  assumes "grid cs w h" "0 \<le> r" "r < h" "0 \<le> k" "k \<le> w"
  shows "slice cs (r * w) (r * w + k) = Some (take (nat k) (row_of cs w r))"
  using grid_row_bounds [OF assms(1-3)] assms(4,5) by (simp add: slice_in row_of_def min_def)

lemma copy_into_row_prefix:
  assumes "grid cs w h" "0 \<le> r" "r < h" "int (length ys) = k" "k \<le> w"
  shows "copy_into cs (r * w) (r * w + k) ys = Some (put_row cs w r (ys @ drop (nat k) (row_of cs w r)))"
proof -
  note b = grid_row_bounds [OF assms(1-3)]
  have k: "0 \<le> k" using assms(4) by simp
  have "drop (nat k) (drop (nat (r * w)) cs) =
      take (nat w - nat k) (drop (nat k) (drop (nat (r * w)) cs)) @ drop (nat w) (drop (nat (r * w)) cs)"
    using k assms(5) append_take_drop_id [of "nat w - nat k" "drop (nat k) (drop (nat (r * w)) cs)"]
    by (simp add: nat_diff_distrib)
  then have "drop (nat (r * w + k)) cs = drop (nat k) (row_of cs w r) @ drop (nat (r * w + w)) cs"
    using b k assms(1) by (simp add: row_of_def drop_take nat_add_distrib grid_def add.commute)
  then show ?thesis
    using b assms by (simp add: copy_into_full put_row_def)
qed

subsection \<open>Resizing a buffer\<close>

definition resized_row :: "terminal \<Rightarrow> int \<Rightarrow> cell list \<Rightarrow> cell list" where
  "resized_row t width old =
     normalized (blankCell t)
       (take (nat (min width (tm_width t))) old @ replicate (nat (width - min width (tm_width t))) (blankCell t))"

lemma length_resized_row:
  assumes "int (length old) = tm_width t" "0 < width" "0 < tm_width t"
  shows "int (length (resized_row t width old)) = width"
  using assms by (cases "width \<le> tm_width t") (auto simp: resized_row_def)

lemma resize_row_step:
  assumes buf: "grid (buf_cells b) (tm_width t) (tm_height t)"
    and cs: "grid cs width height" "row_of cs width r = replicate (nat width) (blankCell t)"
    and r: "0 \<le> r" "r < height" "r < tm_height t"
  shows "resize_row t b width (min width (tm_width t)) r cs =
    Some (put_row cs width r (resized_row t width (row_of (buf_cells b) (tm_width t) r)))"
proof -
  define k where "k = min width (tm_width t)"
  define old where "old = take (nat k) (row_of (buf_cells b) (tm_width t) r)"
  define line where "line = old @ replicate (nat (width - k)) (blankCell t)"
  have pos: "0 < width" "0 < tm_width t" using grid_pos [OF buf] grid_pos [OF cs(1)] by auto
  have k: "0 \<le> k" "k \<le> width" "k \<le> tm_width t" using pos by (auto simp: k_def)
  have len: "int (length old) = k" using k length_row_of(2) [OF buf r(1,3)] by (simp add: old_def)
  have a: "slice (buf_cells b) (r * tm_width t) (r * tm_width t + k) = Some old"
    using slice_row_prefix [OF buf r(1,3) k(1,3)] by (simp add: old_def)
  have "drop (nat k) (row_of cs width r) = replicate (nat (width - k)) (blankCell t)"
    using cs(2) k by (simp add: nat_diff_distrib)
  then have c: "copy_into cs (r * width) (r * width + k) old = Some (put_row cs width r line)"
    using copy_into_row_prefix [OF cs(1) r(1,2) len k(2)] by (simp add: line_def)
  have ll: "int (length line) = width" using len k by (simp add: line_def)
  note g = grid_put_row [OF cs(1) r(1,2) ll]
  have e: "(r + 1) * width = r * width + width" by (simp add: algebra_simps)
  have s: "slice (put_row cs width r line) (r * width) ((r + 1) * width) = Some line"
    unfolding e using slice_row [OF g r(1,2)] row_of_put_row [OF cs(1) r(1,2) r(1,2) ll] by simp
  have p: "copy_into (put_row cs width r line) (r * width) ((r + 1) * width) (normalized (blankCell t) line)
      = Some (put_row (put_row cs width r line) width r (normalized (blankCell t) line))"
    unfolding e by (rule copy_into_row [OF g r(1,2)]) (simp add: ll)
  have q: "put_row (put_row cs width r line) width r ys = put_row cs width r ys" if ys: "int (length ys) = width" for ys
  proof (rule grid_eqI)
    show "grid (put_row (put_row cs width r line) width r ys) width height" by (rule grid_put_row [OF g r(1,2) ys])
    show "grid (put_row cs width r ys) width height" by (rule grid_put_row [OF cs(1) r(1,2) ys])
    fix i assume i: "0 \<le> i" "i < height"
    show "row_of (put_row (put_row cs width r line) width r ys) width i = row_of (put_row cs width r ys) width i"
      unfolding row_of_put_row [OF g r(1,2) i ys] row_of_put_row [OF cs(1) r(1,2) i ys]
        row_of_put_row [OF cs(1) r(1,2) i ll] by simp
  qed
  have "resized_row t width (row_of (buf_cells b) (tm_width t) r) = normalized (blankCell t) line"
    unfolding resized_row_def line_def old_def k_def ..
  moreover have "normalizeCells (blankCell t) line = Some (normalized (blankCell t) line)"
    by (rule normalizeCells_spec) simp
  moreover have "int (length (normalized (blankCell t) line)) = width" using ll by simp
  ultimately show ?thesis
    unfolding resize_row_def k_def [symmetric] grid_row_go_int [OF buf r(1,3)] grid_row_go_int [OF cs(1) r(1,2)]
      grid_row_go_int(4) [OF buf r(1,3) k(1,3)] grid_row_go_int(4) [OF cs(1) r(1,2) k(1,2)]
      a Option.bind.simps c s by (simp add: p q)
qed

lemma resizeBuffer_spec:
  assumes t: "0 < tm_width t" "0 < tm_height t" and b: "wf_buffer (tm_width t) (tm_height t) b"
    and fit: "dims_fit width height"
  shows "safe (resizeBuffer t b width height) (\<lambda>b'. wf_buffer width height b' \<and>
     (\<forall>r. 0 \<le> r \<and> r < height \<longrightarrow> row_of (buf_cells b') width r =
        (if r < tm_height t then resized_row t width (row_of (buf_cells b) (tm_width t) r)
         else replicate (nat width) (blankCell t))) \<and>
     buf_cursor b' = clamp_cursor width height (buf_cursor b) \<and>
     buf_saved b' = clamp_cursor width height (buf_saved b))"
proof -
  define new_row where "new_row r = resized_row t width (row_of (buf_cells b) (tm_width t) r)" for r
  define J where "J i cs \<longleftrightarrow> grid cs width height \<and>
      (\<forall>r. 0 \<le> r \<and> r < height \<longrightarrow> row_of cs width r =
        (if r < i then new_row r else replicate (nat width) (blankCell t)))" for i cs
  have buf: "grid (buf_cells b) (tm_width t) (tm_height t)" using b by (simp add: wf_buffer_def)
  have new: "0 < width" "0 < height" using fit by (auto simp: dims_fit_def)
  let ?m = "min height (tm_height t)"
  have "safe (for_each [0..?m - 1] (resize_row t b width (min width (tm_width t)))
      (replicate (nat (width * height)) (blankCell t))) (J ?m)"
  proof (rule for_up_inv)
    fix r cs assume r: "0 \<le> r" "r < ?m" "J r cs"
    have len: "int (length (new_row r)) = width"
      unfolding new_row_def using r length_row_of(1) [OF buf] t new by (intro length_resized_row) auto
    have "resize_row t b width (min width (tm_width t)) r cs = Some (put_row cs width r (new_row r))"
      unfolding new_row_def using r by (intro resize_row_step [OF buf]) (auto simp: J_def)
    moreover have "J (r + 1) (put_row cs width r (new_row r))"
      using r len by (auto simp: J_def row_of_put_row)
    ultimately show "safe (resize_row t b width (min width (tm_width t)) r cs) (J (r + 1))" by simp
  qed (use new fit t in \<open>auto simp: J_def grid_replicate row_of_replicate\<close>)
  then show ?thesis
    using new b t dims_fit_go_int [OF fit] unfolding resizeBuffer_def
    by (auto simp: blankCells_in J_def new_row_def wf_buffer_def cursor_in_def clamp_cursor_def
        elim!: safe_mono)
qed

text \<open>The result of \<open>Resize\<close> to different dimensions.\<close>

definition resized :: "int \<Rightarrow> int \<Rightarrow> terminal \<Rightarrow> terminal \<Rightarrow> bool" where
  "resized width height t t' \<longleftrightarrow>
     tm_width t' = width \<and> tm_height t' = height \<and> tm_revision t' = tm_revision t + 1 \<and>
     tm_scroll_top t' = 0 \<and> tm_scroll_bottom t' = height - 1 \<and> tm_active t' = tm_active t \<and>
     cursor_of t' = clamp_cursor width height (cursor_of t) \<and>
     (\<forall>r. 0 \<le> r \<and> r < height \<longrightarrow> rows t' r =
        (if r < tm_height t then resized_row t width (rows t r) else replicate (nat width) (blankCell t)))"

lemma Resize_spec:
  assumes wf: "well_formed t" and new: "dims_fit width height" "\<not> (width = tm_width t \<and> height = tm_height t)"
  shows "safe (Resize width height t) (\<lambda>r. \<exists>t'. r = Inr t' \<and> well_formed t' \<and> resized width height t t')"
proof -
  have d: "0 < tm_width t" "0 < tm_height t" using wf_dims [OF wf] by auto
  have pos: "0 < width" "0 < height" using new(1) by (auto simp: dims_fit_def)
  obtain m where m: "resizeBuffer t (tm_main t) width height = Some m"
      "wf_buffer width height m"
      "\<And>r. 0 \<le> r \<Longrightarrow> r < height \<Longrightarrow> row_of (buf_cells m) width r =
        (if r < tm_height t then resized_row t width (row_of (buf_cells (tm_main t)) (tm_width t) r)
         else replicate (nat width) (blankCell t))"
      "buf_cursor m = clamp_cursor width height (buf_cursor (tm_main t))"
    using resizeBuffer_spec [OF d wf_mainD [OF wf] new(1)] by (auto simp: safe_ex)
  show ?thesis
  proof (cases "buf_cells (tm_alternate t) = []")
    case True
    then have "tm_active t = Main" using wf by (cases "tm_active t") (auto simp: well_formed_def)
    then show ?thesis
      using True m wf new pos d
      by (auto simp: Resize_def resized_def well_formed_def cells_def cursor_of_def active_buffer_def)
  next
    case False
    obtain a where a: "resizeBuffer t (tm_alternate t) width height = Some a"
        "wf_buffer width height a"
        "\<And>r. 0 \<le> r \<Longrightarrow> r < height \<Longrightarrow> row_of (buf_cells a) width r =
          (if r < tm_height t then resized_row t width (row_of (buf_cells (tm_alternate t)) (tm_width t) r)
           else replicate (nat width) (blankCell t))"
        "buf_cursor a = clamp_cursor width height (buf_cursor (tm_alternate t))"
      using resizeBuffer_spec [OF d wf_alternateD [OF wf False] new(1)] by (auto simp: safe_ex)
    have "buf_cells a \<noteq> []" using a(2) by (auto simp: wf_buffer_def)
    then show ?thesis
      using False a m wf new pos d
      by (cases "tm_active t")
        (auto simp: Resize_def resized_def well_formed_def cells_def cursor_of_def active_buffer_def)
  qed
qed

end
