(* ===== verification/Terminal_Life.thy ===== *)
theory Terminal_Life
  imports Terminal_Resize
begin

text \<open>
  The life of a terminal: \<open>reachable sw t\<close> collects the states the exported methods of \<open>ansi.Terminal\<close>
  produce from \<open>New\<close>, and the properties of the component are stated over them. A state of the parser
  package is not part of \<open>t\<close>: \<open>apply_events\<close> is the effect of one \<open>Write\<close> on the screen for the events its
  bytes parse to, and \<open>Write_apply\<close> connects it to the byte interface.
\<close>

inductive reachable :: "(string \<Rightarrow> int) \<Rightarrow> terminal \<Rightarrow> bool" for sw where
  new: "dims_fit width height \<Longrightarrow> New width height p = Some (Inr t) \<Longrightarrow> reachable sw t"
| written: "reachable sw t \<Longrightarrow> \<forall>e \<in> set es. event_ok e \<Longrightarrow> apply_events sw es t = Some t' \<Longrightarrow> reachable sw t'"
| resize: "reachable sw t \<Longrightarrow> dims_fit width height \<Longrightarrow> Resize width height t = Some (Inr t') \<Longrightarrow> reachable sw t'"
| drain: "reachable sw t \<Longrightarrow> reachable sw (snd (DrainEvents t))"
| answerback: "reachable sw t \<Longrightarrow> SetAnswerback s t = Inr t' \<Longrightarrow> reachable sw t'"

lemma New_wf:
  assumes "dims_fit width height" "p = VT220 \<or> p = XTerm"
  shows "\<exists>t. New width height p = Some (Inr t) \<and> well_formed t"
proof -
  have pos: "0 < width" "0 < height" using assms(1) by (auto simp: dims_fit_def)
  show ?thesis
  using assms pos wf_fresh_buffer [OF assms(1)] dims_fit_go_int [OF assms(1)]
  by (auto simp: New_def profileSettings_def Let_def blankCells_in well_formed_def zero_buffer_def)
qed

lemma New_Inr:
  assumes "New width height p = Some (Inr t)"
  shows "0 < width" "0 < height" "p = VT220 \<or> p = XTerm"
proof -
  show "0 < width" by (rule ccontr) (use assms in \<open>simp add: New_def\<close>)
  show "0 < height" by (rule ccontr) (use assms in \<open>simp add: New_def\<close>)
  show "p = VT220 \<or> p = XTerm"
  proof (cases p)
    case (UnknownProfile n)
    then have "profileSettings p = None" by (simp add: profileSettings_def)
    then show ?thesis using assms by (simp add: New_def split: if_splits)
  qed simp_all
qed

lemma New_dims: "New width height p = Some (Inr t) \<Longrightarrow> tm_width t = width \<and> tm_height t = height"
  by (auto simp: New_def Let_def split: if_splits option.splits Option.bind_splits)

lemma New_result_wf:
  assumes "dims_fit width height" "New width height p = Some (Inr t)"
  shows "well_formed t"
  using New_wf [OF assms(1) New_Inr(3) [OF assms(2)]] assms by simp

lemma apply_events_spec:
  assumes "well_formed t" "\<forall>e \<in> set es. event_ok e"
  shows "safe (apply_events sw es t) (\<lambda>u. well_formed u \<and>
     (tm_revision u = tm_revision t \<or> tm_revision u = tm_revision t + 1) \<and>
     ((\<forall>e \<in> set es. \<not> in_place e) \<longrightarrow> visible_state u \<noteq> visible_state t \<longrightarrow> tm_revision u = tm_revision t + 1))"
proof (cases "\<forall>e \<in> set es. \<not> in_place e")
  case True
  have "safe (for_each es (handle sw) t) (\<lambda>u. well_formed u \<and> honest t u)"
    using announced.run_inv [of es t sw] assms True by auto
  then show ?thesis
    using True by (auto simp: apply_events_def honest_def elim!: safe_mono)
next
  case False
  have "safe (for_each es (handle sw) t) well_formed"
    using screen_machine.run_inv [of es t sw] assms by auto
  then show ?thesis using False by (auto simp: apply_events_def elim!: safe_mono)
qed

lemma Resize_wf: "well_formed t \<Longrightarrow> width \<le> 0 \<or> height \<le> 0 \<or> dims_fit width height \<Longrightarrow> safe (Resize width height t) (\<lambda>r. \<forall>u. r = Inr u \<longrightarrow> well_formed u)"
proof (cases "width \<le> 0 \<or> height \<le> 0 \<or> (width = tm_width t \<and> height = tm_height t)")
  case True
  then show "well_formed t \<Longrightarrow> ?thesis" by (auto simp: Resize_def)
next
  case False
  then show "well_formed t \<Longrightarrow> width \<le> 0 \<or> height \<le> 0 \<or> dims_fit width height \<Longrightarrow> ?thesis"
    by (intro safe_mono [OF Resize_spec]) auto
qed

lemma SetAnswerback_wf: "well_formed t \<Longrightarrow> SetAnswerback s t = Inr u \<Longrightarrow> well_formed u"
  by (auto simp: SetAnswerback_def split: if_splits)

lemma reachable_wf: "reachable sw t \<Longrightarrow> well_formed t"
proof (induction rule: reachable.induct)
  case (written t es t')
  then show ?case using apply_events_spec [of t es sw] by simp
next
  case (resize t width height t')
  then show ?case using Resize_wf [of t width height] by auto
qed (auto simp: New_result_wf DrainEvents_def intro: SetAnswerback_wf)

text \<open>
  What is relied on of \<open>x/ansi\<close>: the value \<open>Params.Param\<close> returns for a parameter is its digits read as
  a number, or the default 0 when it is missing; it is never negative.
\<close>

definition params_nonneg :: "ansi_lib \<Rightarrow> bool" where
  "params_nonneg lib \<longleftrightarrow> (\<forall>ps i. i < length ps \<longrightarrow> 0 \<le> fst (lib_param lib ps i 0))"

lemma dispatch_ok: "params_nonneg lib \<Longrightarrow> event_ok (dispatch lib e)"
  by (cases e) (auto simp: event_ok_def params_ok_def convertParameters_def params_nonneg_def Let_def
      split: prod.splits; metis fst_conv)+

lemma parserWrite_ok:
  "params_nonneg lib \<Longrightarrow> \<forall>e \<in> set (snd (parserWrite lib ap p bs)). event_ok e"
proof (induction bs arbitrary: p)
  case (Cons b bs)
  obtain cont b' where "protectString (ap_state ap (ps_parser p)) (ps_continuation p) b = (cont, b')"
    by (cases "protectString (ap_state ap (ps_parser p)) (ps_continuation p) b")
  moreover obtain inner raw where "ap_advance ap (ps_parser p) b' = (inner, raw)"
    by (cases "ap_advance ap (ps_parser p) b'")
  ultimately show ?case
    using Cons.IH [OF Cons.prems, of "\<lparr>ps_parser = inner, ps_continuation = cont\<rparr>"]
    by (auto simp: dispatch_ok Cons.prems split: prod.splits)
qed simp

lemma Write_apply:
  "Write sw lib ap data (p, t) =
     map_option (Pair (fst (parserWrite lib ap p data))) (apply_events sw (snd (parserWrite lib ap p data)) t)"
  by (cases "parserWrite lib ap p data"; cases "apply_events sw (snd (parserWrite lib ap p data)) t")
    (auto simp: Write_def)

subsection \<open>Sizes that do not fit\<close>

text \<open>
  \<open>New\<close> checks that the dimensions are positive and nothing more. With \<open>2 ^ 31\<close> rows and columns the number
  of cells is more than \<open>make\<close> accepts and \<open>New\<close> panics; with \<open>2 ^ 32\<close> of them the product wraps around to
  0, \<open>New\<close> succeeds, the terminal has no cells, and the first character printed panics.
\<close>

lemma go_int_products: "go_int (2 ^ 31 * 2 ^ 31) = 2 ^ 62" "go_int (2 ^ 32 * 2 ^ 32) = 0"
  by (simp_all add: go_int_def)

lemma unbounded_size_panics: "New (2 ^ 31) (2 ^ 31) XTerm = None"
  unfolding New_def go_int_products by (simp add: profileSettings_def Let_def blankCells_def maxCells_def)

lemma wrapped_size_panics:
  "\<exists>t. New (2 ^ 32) (2 ^ 32) VT220 = Some (Inr t) \<and> cells t = [] \<and> apply_events sw [Print 0x41] t = None"
proof -
  obtain t where t: "New (2 ^ 32) (2 ^ 32) VT220 = Some (Inr t)" "cells t = []" "\<not> tm_xterm t" "tm_width t = 2 ^ 32"
      "column t = 0" "cursor_row t = 0" "\<not> tm_wrap_pending t" "\<not> tm_insert_mode t" "current_charset t = Some False"
    unfolding New_def go_int_products
    by (simp add: profileSettings_def Let_def blankCells_in maxCells_def cells_def active_buffer_def column_def
        cursor_row_def cursor_of_def visible_cursor_def current_charset_def)
  have "print sw 0x41 t = None"
    using t by (simp add: print_def rune_width_def wrap_before_def put_character_def clearWideCharacterAt_def row_def
        slice_def Let_def)
  then show ?thesis using t(1,2) by (auto simp: apply_events_def)
qed

subsection \<open>Properties\<close>

definition t32 :: terminal where
  "t32 = (case New 3 2 XTerm of Some (Inr t) \<Rightarrow> t | _ \<Rightarrow> undefined)"

lemma fit32: "dims_fit 3 2"
  by (simp add: dims_fit_def maxCells_def)

lemma New_t32: "New 3 2 XTerm = Some (Inr t32)"
  using New_wf [OF fit32, of XTerm] by (auto simp: t32_def)

lemma reachable_t32: "reachable sw t32"
  using fit32 New_t32 by (rule reachable.new)

text \<open>
  C1: On every state that can be reached from \<open>New\<close> by writes, resizes, drained events and answerback
  settings, every size passed to \<open>New\<close> and \<open>Resize\<close> having at most \<open>2 ^ 43\<close> cells (the longest slice \<open>make\<close>
  accepts), a \<open>Write\<close> of any output whose parameters are not negative and a \<open>Resize\<close> to any such size, or
  to one that is not positive, return normally, and the state they leave is well formed: the cell slices
  fill the dimensions, the cursors and the scroll region lie inside.
\<close>

theorem terminal_never_panics:
  assumes "reachable sw t" "\<forall>e \<in> set es. event_ok e" "width \<le> 0 \<or> height \<le> 0 \<or> dims_fit width height"
  shows "well_formed t \<and> (\<exists>u. apply_events sw es t = Some u \<and> well_formed u) \<and>
     (\<exists>r. Resize width height t = Some r \<and> (\<forall>u. r = Inr u \<longrightarrow> well_formed u))"
  using reachable_wf [OF assms(1)] apply_events_spec [OF reachable_wf [OF assms(1)] assms(2), of sw]
    Resize_wf [OF reachable_wf [OF assms(1)] assms(3)]
  by (auto simp: safe_ex)

theorem terminal_never_panics_witness:
  "\<exists>u. apply_events (\<lambda>_. 1) [Print 0x41, Execute 0x0A] t32 = Some u \<and> well_formed u"
  using terminal_never_panics [OF reachable_t32,
      where es = "[Print 0x41, Execute 0x0A]" and sw = "\<lambda>_. 1" and width = 5 and height = 5]
  by (simp add: event_ok_def dims_fit_def maxCells_def)

text \<open>
  C2: One \<open>Write\<close>, of whatever output, raises the revision by at most one. A \<open>Write\<close> whose output sets or
  resets neither of the private modes 1047 and 1049 raises it by exactly one when it changes what a
  snapshot shows (dimensions, cells, cursor or title). The two modes are left out because the code does
  not announce what they do in place: it clears the alternate screen that is already shown and restores
  the cursor of the main screen without a new revision.
\<close>

theorem write_announces_changes:
  assumes "reachable sw t" "\<forall>e \<in> set es. event_ok e" "apply_events sw es t = Some u"
  shows "(tm_revision u = tm_revision t \<or> tm_revision u = tm_revision t + 1) \<and>
     ((\<forall>e \<in> set es. \<not> in_place e) \<longrightarrow> visible_state u \<noteq> visible_state t \<longrightarrow>
        tm_revision u = tm_revision t + 1)"
  using apply_events_spec [OF reachable_wf [OF assms(1)], of es sw] assms(2,3) by auto

theorem write_announces_changes_witness:
  "\<exists>u. apply_events (\<lambda>_. 1) [Print 0x41] t32 = Some u \<and>
     (visible_state u \<noteq> visible_state t32 \<longrightarrow> tm_revision u = tm_revision t32 + 1)"
proof -
  have ok: "\<forall>e \<in> set [Print 0x41]. event_ok e" "\<forall>e \<in> set [Print 0x41]. \<not> in_place e"
    by (simp_all add: event_ok_def in_place_def)
  obtain u where u: "apply_events (\<lambda>_. 1) [Print 0x41] t32 = Some u"
    using apply_events_spec [OF reachable_wf [OF reachable_t32], of "[Print 0x41]" "\<lambda>_. 1"]
    by (auto simp: safe_ex event_ok_def)
  show ?thesis using u write_announces_changes [OF reachable_t32 ok(1) u] ok(2) by blast
qed

end
