(* ===== verification/Session_Stack.thy ===== *)
theory Session_Stack
  imports Session_Events Telnet_Protocol Terminal_Life
begin

text \<open>
  The session on the program's own terminal and transport: the method tables of \<open>ansi.Terminal\<close> and of
  the Telnet stream, the stream as an interpretation of the \<open>writer\<close> contract, and what follows for
  \<open>Send\<close>, for the answers to enquiries and for the read loop.
\<close>

definition error_text :: "telnet_error \<Rightarrow> string" where
  "error_text e = (if e = ErrShortWrite then ''short write'' else ''telnet failure'')"

definition text_of :: "telnet_error option \<Rightarrow> string option" where
  "text_of e = map_option error_text e"

definition telnet_write :: "(stream, string) write_op" where
  "telnet_write data c =
     (case Telnet_Client.Write data c of
        (None, c') \<Rightarrow> (length data, None, c')
      | (Some e, c') \<Rightarrow> (0, Some (error_text e), c'))"

definition telnet_ops :: "stream stream_ops" where
  "telnet_ops =
     \<lparr>so_write = telnet_write,
      so_resize = (\<lambda>w h c. case Telnet_Client.Resize w h c of (e, c') \<Rightarrow> (text_of e, c')),
      so_close = (\<lambda>c. case Telnet_Client.Close c of (e, c') \<Rightarrow> (text_of e, c'))\<rparr>"

definition ansi_ops ::
  "(string \<Rightarrow> int) \<Rightarrow> (rune \<Rightarrow> rune) \<Rightarrow> ansi_lib \<Rightarrow> 'p ansi_parser \<Rightarrow> ('p parser \<times> terminal) terminal_ops" where
  "ansi_ops sw upper lib ap =
     \<lparr>to_profile = (\<lambda>pt. tm_terminal_type (snd pt)),
      to_write = (\<lambda>data pt. map_option (Pair None) (Terminal_Control.Write sw lib ap data pt)),
      to_snapshot = (\<lambda>pt. Snapshot (snd pt)),
      to_resize = (\<lambda>w h pt. map_option (\<lambda>r. case r of Inl _ \<Rightarrow> (Some ''dimensions must be positive'', pt)
                                                   | Inr t \<Rightarrow> (None, (fst pt, t)))
                             (Terminal.Resize w h (snd pt))),
      to_drain = Some (\<lambda>pt. (fst (DrainEvents (snd pt)), (fst pt, snd (DrainEvents (snd pt))))),
      to_revision = Some (\<lambda>pt. Revision (snd pt)),
      to_encode_press = Some (\<lambda>press pt. map_sum id bytes_of (EncodeKeyPress upper press (snd pt))),
      to_encode_key = Some (\<lambda>key pt. map_sum id bytes_of (EncodeKey upper key (snd pt)))\<rparr>"

subsection \<open>The stream as a writer\<close>

definition telnet_sent :: "stream \<Rightarrow> byte list" where
  "telnet_sent c = conn_sent (st_conn c)"

lemma telnet_write_sent:
  "telnet_write data c = (n, e, c') \<Longrightarrow>
     (case e of None \<Rightarrow> n = length data \<and> telnet_sent c' = telnet_sent c @ escape data
      | Some _ \<Rightarrow> \<exists>k. telnet_sent c' = telnet_sent c @ take k (escape data))"
  using writeBytes_spec [of "escape data" "st_conn c"]
  by (auto simp: telnet_write_def Telnet_Client.Write_def send_def telnet_sent_def
      split: prod.splits option.splits)

interpretation telnet_writer: writer telnet_write telnet_sent escape
proof
  show "escape (xs @ ys) = escape xs @ escape ys" for xs ys by (rule escape_append)
  show "n \<le> length data \<and> telnet_sent c' = telnet_sent c @ escape (take n data)"
    if "telnet_write data c = (n, None, c')" for data c n c'
    using telnet_write_sent [OF that] by simp
  show "\<exists>k. telnet_sent c' = telnet_sent c @ take k (escape data)"
    if "telnet_write data c = (n, Some e, c')" for data c n e c'
    using telnet_write_sent [OF that] by simp
qed

lemma Send_sent:
  assumes "Send telnet_ops data s = (None, s')"
  shows "telnet_sent (ss_stream s') = telnet_sent (ss_stream s) @ escape data"
  using assms telnet_writer.send_all [of data "ss_stream s"]
  by (auto simp: Send_def telnet_ops_def split: if_splits prod.splits option.splits)

subsection \<open>Events of a session\<close>

definition answerbacks :: "terminal_event list \<Rightarrow> byte list" where
  "answerbacks es = concat (map (\<lambda>e. if ev_type e = EventEnquiry then bytes_of (ev_data e) else []) es)"

lemma recordUnsupported_stream:
  "recordUnsupported q s = Some (first, s') \<Longrightarrow> ss_stream s' = ss_stream s \<and> ss_terminal s' = ss_terminal s \<and> ss_done s' = ss_done s"
  by (auto simp: recordUnsupported_def bind_Some_iff split: option.splits if_splits)

lemma publishEvent_stream [simp]:
  "ss_stream (publishEvent e s) = ss_stream s" "ss_terminal (publishEvent e s) = ss_terminal s"
  "ss_unsupported (publishEvent e s) = ss_unsupported s" "ss_done (publishEvent e s) = ss_done s"
  "ss_unsupported_index (publishEvent e s) = ss_unsupported_index s"
  by (simp_all add: publishEvent_def Let_def)

lemma Send_frame:
  assumes "Send S data s = (e, s')"
  shows "ss_terminal s' = ss_terminal s" "ss_unsupported s' = ss_unsupported s"
    "ss_unsupported_index s' = ss_unsupported_index s" "ss_done s' = ss_done s"
  using assms by (auto simp: Send_def split: if_splits prod.splits option.splits)

lemma counts_ok_cong:
  "ss_unsupported s' = ss_unsupported s \<Longrightarrow> ss_unsupported_index s' = ss_unsupported_index s \<Longrightarrow>
     counts_ok qs s' = counts_ok qs s"
  by (simp add: counts_ok_def)

lemma counts_ok_publish [simp]: "counts_ok qs (publishEvent e s) = counts_ok qs s"
  by (rule counts_ok_cong) simp_all

lemma handle_event_spec:
  fixes s :: "('t, stream) session"
  assumes "counts_ok qs s"
  shows "\<exists>err s' qs'. handle_event telnet_ops e s = Some (err, s') \<and> counts_ok qs' s' \<and>
     ss_terminal s' = ss_terminal s \<and> ss_done s' = ss_done s \<and>
     (err = None \<longrightarrow> telnet_sent (ss_stream s') = telnet_sent (ss_stream s) @ escape (answerbacks [e]))"
proof (cases "ev_type e = EventEnquiry \<and> ev_data e \<noteq> []")
  case True
  obtain err s1 where send: "Send telnet_ops (bytes_of (ev_data e)) s = (err, s1)"
    by (cases "Send telnet_ops (bytes_of (ev_data e)) s")
  note fr = Send_frame [OF send]
  have c: "counts_ok qs s1" using assms counts_ok_cong [OF fr(2,3)] by simp
  show ?thesis
  proof (cases err)
    case None
    then show ?thesis using True send fr c Send_sent [of "bytes_of (ev_data e)" s s1]
      by (auto simp: handle_event_def answerbacks_def intro!: exI [of _ qs])
  next
    case (Some x)
    then show ?thesis using True send fr c by (auto simp: handle_event_def)
  qed
next
  case False
  then have nothing: "answerbacks [e] = []" by (auto simp: answerbacks_def bytes_of_def)
  show ?thesis
  proof (cases "ev_type e = EventUnsupported")
    case True
    obtain first s' where r: "recordUnsupported (ev_data e) s = Some (first, s')" "counts_ok (qs @ [ev_data e]) s'"
      using recordUnsupported_counts [OF assms] by blast
    then show ?thesis using True recordUnsupported_stream [OF r(1)]
      by (auto simp: handle_event_def answerbacks_def intro!: exI [of _ "qs @ [ev_data e]"])
  next
    case other: False
    then show ?thesis using False assms
      by (auto simp: handle_event_def answerbacks_def bytes_of_def intro!: exI [of _ qs])
  qed
qed

lemma answerbacks_Cons: "answerbacks (e # es) = answerbacks [e] @ answerbacks es"
  by (simp add: answerbacks_def)

lemma handle_events_spec:
  fixes s :: "('t, stream) session"
  assumes "counts_ok qs s"
  shows "\<exists>err s' qs'. handle_events telnet_ops es s = Some (err, s') \<and> counts_ok qs' s' \<and>
     ss_terminal s' = ss_terminal s \<and> ss_done s' = ss_done s \<and>
     (err = None \<longrightarrow> telnet_sent (ss_stream s') = telnet_sent (ss_stream s) @ escape (answerbacks es))"
  using assms
proof (induction es arbitrary: s qs)
  case Nil
  then show ?case by (auto simp: answerbacks_def)
next
  case (Cons e es)
  obtain err s1 qs1 where e: "handle_event telnet_ops e s = Some (err, s1)" "counts_ok qs1 s1"
      "ss_terminal s1 = ss_terminal s" "ss_done s1 = ss_done s"
      "err = None \<longrightarrow> telnet_sent (ss_stream s1) = telnet_sent (ss_stream s) @ escape (answerbacks [e])"
    using handle_event_spec [OF Cons.prems, of e] by blast
  show ?case
  proof (cases err)
    case None
    then show ?thesis using e Cons.IH [OF e(2)]
      by (auto simp: answerbacks_Cons [of e es] escape_append)
  qed (use e in auto)
qed

subsection \<open>The read loop\<close>

definition session_ok :: "('p parser \<times> terminal, stream) session \<Rightarrow> bool" where
  "session_ok s \<longleftrightarrow> well_formed (snd (ss_terminal s)) \<and> (\<exists>qs. counts_ok qs s)"

lemma ansi_write_total:
  assumes "params_nonneg lib" "well_formed t"
  shows "\<exists>p' t'. Terminal_Control.Write sw lib ap data (p, t) = Some (p', t') \<and> well_formed t'"
proof -
  have "safe (apply_events sw (snd (parserWrite lib ap p data)) t) well_formed"
    using apply_events_spec [OF assms(2) parserWrite_ok [OF assms(1), of ap p data], of sw]
    by (rule safe_mono) simp
  then show ?thesis by (auto simp: Write_apply safe_ex)
qed

lemma read_step_total:
  assumes "session_ok s" "params_nonneg lib"
  shows "\<exists>exit s'. read_step (ansi_ops sw upper lib ap) telnet_ops now data err s = Some (exit, s') \<and> session_ok s' \<and>
     ss_done s' = ss_done s \<and> (err \<noteq> None \<longrightarrow> exit \<noteq> Continue)"
proof (cases "data = []")
  case True
  then show ?thesis using assms(1) by (auto simp: read_step_def split: option.splits read_error.splits)
next
  case False
  let ?T = "ansi_ops sw upper lib ap"
  obtain qs where qs: "counts_ok qs s" using assms(1) by (auto simp: session_ok_def)
  obtain p t where pt: "ss_terminal s = (p, t)" by (cases "ss_terminal s")
  then obtain p' t' where w: "Terminal_Control.Write sw lib ap data (p, t) = Some (p', t')" "well_formed t'"
    using ansi_write_total [OF assms(2)] assms(1) by (metis session_ok_def snd_conv)
  define s3 where "s3 = signalChange ((signalOutput s)\<lparr>ss_terminal := (p', t'),
      ss_recorder := record_output now data (session_revision ?T (p', t')) (ss_recorder (signalOutput s))\<rparr>)"
  define s4 where "s4 = s3\<lparr>ss_terminal := (p', snd (DrainEvents t'))\<rparr>"
  have "ss_terminal (signalOutput s) = (p, t)" using pt by (simp add: signalOutput_def)
  moreover have "ss_terminal s3 = (p', t')" by (simp add: s3_def signalChange_def)
  ultimately have ap: "apply_output ?T telnet_ops now data s = handle_events telnet_ops (fst (DrainEvents t')) s4"
    using w(1) by (simp add: apply_output_def Let_def ansi_ops_def s3_def s4_def)
  have "counts_ok qs s4"
    using qs by (simp add: counts_ok_def s4_def s3_def signalChange_def signalOutput_def)
  then obtain e s' qs' where h: "handle_events telnet_ops (fst (DrainEvents t')) s4 = Some (e, s')" "counts_ok qs' s'"
      "ss_terminal s' = ss_terminal s4" "ss_done s' = ss_done s4"
    using handle_events_spec by blast
  have "session_ok s'" using h w(2) by (auto simp: session_ok_def s4_def DrainEvents_def)
  moreover have "ss_done s' = ss_done s" using h(4) by (simp add: s4_def s3_def signalChange_def signalOutput_def)
  ultimately show ?thesis
    using False ap h(1) by (auto simp: read_step_def split: option.splits read_error.splits)
qed

lemma finish_done [simp]: "ss_done (finish err s)" "ss_closing (finish err s) = ss_closing s"
  by (simp_all add: finish_def)

lemma end_loop_done [simp]: "ss_done (end_loop S err s)"
  by (simp add: end_loop_def split: prod.splits option.splits)

lemma end_loop_closes [simp]: "ss_subscribers (end_loop S e s) j = Some ch \<Longrightarrow> \<not> snd ch"
  by (auto simp: end_loop_def finish_def split: prod.splits option.splits)

lemma readLoop_spec:
  assumes "params_nonneg lib" "session_ok s"
  shows "\<exists>s'. readLoop (ansi_ops sw upper lib ap) telnet_ops reads s = Some s' \<and>
     (if \<exists>r\<in>set reads. snd (snd r) \<noteq> None then \<exists>e s1. s' = end_loop telnet_ops e s1
      else ss_done s' = ss_done s \<or> (\<exists>e s1. s' = end_loop telnet_ops e s1))"
  using assms(2)
proof (induction reads arbitrary: s)
  case (Cons r reads)
  obtain now d e where r: "r = (now, d, e)" by (cases r)
  obtain exit s1 where st: "read_step (ansi_ops sw upper lib ap) telnet_ops now d e s = Some (exit, s1)"
      "session_ok s1" "ss_done s1 = ss_done s" "e \<noteq> None \<longrightarrow> exit \<noteq> Continue"
    using read_step_total [OF Cons.prems assms(1)] by blast
  show ?case
  proof (cases exit)
    case Continue
    then have "e = None" using st(4) by blast
    moreover obtain s' where "readLoop (ansi_ops sw upper lib ap) telnet_ops reads s1 = Some s'"
      "if \<exists>r\<in>set reads. snd (snd r) \<noteq> None then \<exists>e s1. s' = end_loop telnet_ops e s1
       else ss_done s' = ss_done s1 \<or> (\<exists>e s1. s' = end_loop telnet_ops e s1)"
      using Cons.IH [OF st(2)] by blast
    ultimately show ?thesis using st(1,3) Continue r by (intro exI [of _ s']) (auto split: if_splits)
  next
    case (Leave err)
    then show ?thesis using st(1) r by auto
  qed
qed simp

lemma newSession_ok: "well_formed t \<Longrightarrow> session_ok (newSession T i now (p, t) c)"
  by (auto simp: session_ok_def newSession_def counts_ok_def Let_def tracked_def firsts_def intro!: exI [of _ "[]"])

text \<open>
  C14: On the ANSI terminal and the Telnet stream, the read loop of a session runs to the end of any reads
  without a panic; a read that reports an error or the end of the connection ends the session, and an
  ended session has no open event channel and refuses all further input.
\<close>

theorem read_loop_total:
  assumes "well_formed t" "params_nonneg lib"
  shows "\<exists>s'. readLoop (ansi_ops sw upper lib ap) telnet_ops reads (newSession (ansi_ops sw upper lib ap) i now (p, t) c) = Some s' \<and>
     ((\<exists>r\<in>set reads. snd (snd r) \<noteq> None) \<longrightarrow> ss_done s') \<and>
     (ss_done s' \<longrightarrow> (\<forall>j ch. ss_subscribers s' j = Some ch \<longrightarrow> \<not> snd ch) \<and>
        Send telnet_ops data s' = (Some SessionClosed, s'))"
proof -
  let ?s = "newSession (ansi_ops sw upper lib ap) i now (p, t) c"
  obtain s' where s': "readLoop (ansi_ops sw upper lib ap) telnet_ops reads ?s = Some s'"
     "if \<exists>r\<in>set reads. snd (snd r) \<noteq> None then \<exists>e s1. s' = end_loop telnet_ops e s1
      else ss_done s' = ss_done ?s \<or> (\<exists>e s1. s' = end_loop telnet_ops e s1)"
    using readLoop_spec [OF assms(2) newSession_ok [OF assms(1)]] by blast
  have "\<not> ss_done ?s" by (simp add: newSession_def Let_def)
  then have "ss_done s' \<longrightarrow> (\<exists>e s1. s' = end_loop telnet_ops e s1)"
    "(\<exists>r\<in>set reads. snd (snd r) \<noteq> None) \<longrightarrow> ss_done s'" using s'(2) by (auto split: if_splits)
  then show ?thesis using s'(1) end_loop_closes by (fastforce simp: Send_def)
qed

definition plain_lib :: ansi_lib where
  "plain_lib =
     \<lparr>lib_prefix = (\<lambda>_. 0), lib_intermediate = (\<lambda>_. 0), lib_final = (\<lambda>_. 0),
      lib_param = (\<lambda>_ _ _. (0, False, False)), lib_param_mask = 0, lib_missing_param = 0,
      lib_missing_command = 0\<rparr>"

definition plain_parser :: "unit ansi_parser" where
  "plain_parser = \<lparr>ap_state = (\<lambda>_. OtherState), ap_advance = (\<lambda>p b. (p, [RawPrint (uint b)]))\<rparr>"

theorem read_loop_total_witness:
  "\<exists>s'. readLoop (ansi_ops (\<lambda>_. 1) id plain_lib plain_parser) telnet_ops [(1, [65], None), (2, [], Some ReadEOF)]
     (newSession (ansi_ops (\<lambda>_. 1) id plain_lib plain_parser) 1 0
        (\<lparr>ps_parser = (), ps_continuation = 0\<rparr>, t32) (newStream new_conn [] 3 2)) = Some s' \<and> ss_done s'"
proof -
  have "params_nonneg plain_lib" by (simp add: params_nonneg_def plain_lib_def)
  from read_loop_total [OF reachable_wf [OF reachable_t32] this,
      where reads = "[(1, [65], None), (2, [], Some ReadEOF)]" and ap = plain_parser]
  show ?thesis by fastforce
qed

subsection \<open>Input\<close>

lemma telnet_write_healthy:
  assumes "healthy (st_conn c)"
  shows "\<exists>c'. telnet_write data c = (length data, None, c')"
  using writeBytes_healthy [OF assms, of "escape data"]
  by (cases "writeBytes (escape data) (st_conn c)")
    (auto simp: telnet_write_def Telnet_Client.Write_def send_def)

lemma Send_healthy:
  assumes "healthy (st_conn (ss_stream s))" "\<not> ss_closing s" "\<not> ss_done s"
  shows "\<exists>s'. Send telnet_ops data s = (None, s')"
proof -
  obtain c' where w: "telnet_write data (ss_stream s) = (length data, None, c')"
    using telnet_write_healthy [OF assms(1)] by blast
  have "send_loop telnet_write [] c = (None, c)" for c by (simp add: send_loop.simps)
  then have "fst (send_loop telnet_write data (ss_stream s)) = None"
    using w by (subst send_loop.simps) simp
  then show ?thesis
    using assms by (auto simp: Send_def telnet_ops_def split: prod.splits)
qed

text \<open>
  C12: Input sent to an open session over a healthy connection is taken completely, however the
  connection splits its writes, and the reference server decodes from it exactly the bytes that were
  sent, 255 included. On a session that is closing or has ended nothing is sent.
\<close>

theorem session_input_reaches_server:
  assumes "healthy (st_conn (ss_stream s))" "pl_state server = stateData"
  shows "if ss_closing s \<or> ss_done s then Send telnet_ops data s = (Some SessionClosed, s)
     else \<exists>s' wire. Send telnet_ops data s = (None, s') \<and>
       telnet_sent (ss_stream s') = telnet_sent (ss_stream s) @ wire \<and>
       server_process wire server = (None, server\<lparr>pl_pending := pl_pending server @ data\<rparr>)"
proof (cases "ss_closing s \<or> ss_done s")
  case False
  then obtain s' where s': "Send telnet_ops data s = (None, s')" using Send_healthy [OF assms(1)] by blast
  show ?thesis using False s' Send_sent [OF s'] server_process_escape [OF assms(2), of data] by auto
qed (simp add: Send_def)

theorem session_input_reaches_server_witness:
  "\<exists>s' wire. Send telnet_ops [65, 255] (newSession (ansi_ops (\<lambda>_. 1) id plain_lib plain_parser) 1 0
        (\<lparr>ps_parser = (), ps_continuation = 0\<rparr>, t32) (newStream new_conn [] 3 2)) = (None, s') \<and>
     telnet_sent (ss_stream s') = wire \<and>
     server_process wire (new_protocol_stream new_conn) =
       (None, (new_protocol_stream new_conn)\<lparr>pl_pending := [65, 255]\<rparr>)"
  using session_input_reaches_server [of "newSession (ansi_ops (\<lambda>_. 1) id plain_lib plain_parser) 1 0
      (\<lparr>ps_parser = (), ps_continuation = 0\<rparr>, t32) (newStream new_conn [] 3 2)"
      "new_protocol_stream new_conn" "[65, 255]"]
  by (simp add: newSession_def newStream_def new_conn_def healthy_def new_protocol_stream_def Let_def
      telnet_sent_def)

text \<open>
  C13: Handling the events of one write without an error sends the answerbacks of its enquiries and nothing
  else, in the order of the enquiries; the reference server decodes exactly their bytes.
\<close>

theorem answerbacks_in_order:
  fixes s :: "('p parser \<times> terminal, stream) session"
  assumes "session_ok s" "handle_events telnet_ops es s = Some (None, s')" "pl_state server = stateData"
  shows "\<exists>wire. telnet_sent (ss_stream s') = telnet_sent (ss_stream s) @ wire \<and>
     server_process wire server = (None, server\<lparr>pl_pending := pl_pending server @ answerbacks es\<rparr>)"
proof -
  obtain qs where "counts_ok qs s" using assms(1) by (auto simp: session_ok_def)
  then have "telnet_sent (ss_stream s') = telnet_sent (ss_stream s) @ escape (answerbacks es)"
    using handle_events_spec [of qs s es] assms(2) by auto
  then show ?thesis using server_process_escape [OF assms(3)] by blast
qed

theorem answerbacks_in_order_witness:
  "\<exists>s' wire. handle_events telnet_ops [\<lparr>ev_sequence = 0, ev_type = EventEnquiry, ev_data = ''ok''\<rparr>]
        (newSession (ansi_ops (\<lambda>_. 1) id plain_lib plain_parser) 1 0
          (\<lparr>ps_parser = (), ps_continuation = 0\<rparr>, t32) (newStream new_conn [] 3 2)) = Some (None, s') \<and>
     telnet_sent (ss_stream s') = wire \<and>
     server_process wire (new_protocol_stream new_conn) =
       (None, (new_protocol_stream new_conn)\<lparr>pl_pending := [111, 107]\<rparr>)"
proof -
  define e where "e = \<lparr>ev_sequence = 0, ev_type = EventEnquiry, ev_data = ''ok''\<rparr>"
  define s where "s = newSession (ansi_ops (\<lambda>_. 1) id plain_lib plain_parser) 1 0
      (\<lparr>ps_parser = (), ps_continuation = 0\<rparr>, t32) (newStream new_conn [] 3 2)"
  have "healthy (st_conn (ss_stream s))" "\<not> ss_closing s" "\<not> ss_done s"
    by (simp_all add: s_def newSession_def newStream_def new_conn_def healthy_def Let_def)
  from Send_healthy [OF this, of "bytes_of ''ok''"] obtain s1
    where "Send telnet_ops (bytes_of ''ok'') s = (None, s1)" by blast
  then have h: "handle_events telnet_ops [e] s = Some (None, publishEvent e s1)"
    by (simp add: e_def handle_event_def)
  have ok: "session_ok s" using newSession_ok [OF reachable_wf [OF reachable_t32]] by (simp add: s_def)
  have d: "answerbacks [e] = [111, 107]" by (simp add: e_def answerbacks_def bytes_of_def)
  have r: "pl_state (new_protocol_stream new_conn) = stateData" "pl_pending (new_protocol_stream new_conn) = []"
    by (simp_all add: new_protocol_stream_def)
  have "telnet_sent (ss_stream s) = []" by (simp add: s_def newSession_def newStream_def new_conn_def telnet_sent_def Let_def)
  then have "\<exists>s' wire. handle_events telnet_ops [e] s = Some (None, s') \<and> telnet_sent (ss_stream s') = wire \<and>
      server_process wire (new_protocol_stream new_conn) =
        (None, (new_protocol_stream new_conn)\<lparr>pl_pending := [111, 107]\<rparr>)"
    using answerbacks_in_order [OF ok h r(1)] h unfolding d r(2) by auto
  from this [unfolded e_def s_def] show ?thesis .
qed

end
