(* ===== verification/Session_Wait.thy ===== *)
theory Session_Wait
  imports Session
begin

text \<open>
  Waiting on a session (\<open>session.go\<close>: \<open>WaitFor\<close>, \<open>WaitForStable\<close>, \<open>WaitForIdle\<close>, \<open>Screens\<close>). A round of a
  wait reads the session's state under its lock, then takes a snapshot, then sleeps; \<open>view\<close> is what one
  round sees and \<open>wake\<close> what ended its sleep, so a wait is a function of the rounds it goes through. A
  wait whose rounds are used up is still waiting (\<open>None\<close>).
\<close>

record view =
  vw_finished :: bool
  vw_err :: "session_error option"
  vw_output :: nat
  vw_screen :: screen

datatype wake = ContextDone string | Woken

text \<open>How the quiet period ended.\<close>

datatype quiet = QuietContextDone string | Interrupted | Elapsed

datatype wait_cause = MatcherRequired | QuietPeriodNotPositive | ContextEnded string | SessionEnded "session_error option"

record wait_error =
  we_expected :: string
  we_screen :: screen
  we_cause :: wait_cause

definition newWaitError :: "matcher \<Rightarrow> screen \<Rightarrow> wait_cause \<Rightarrow> wait_error" where
  "newWaitError m screen cause =
     \<lparr>we_expected = matcherDescription m, we_screen = screen, we_cause = cause\<rparr>"

text \<open>The outcome: the screen, or an error with the last screen observed.\<close>

datatype wait_result = Matched screen | WaitFailed wait_error | Rejected wait_cause

primrec wait_loop :: "matcher \<Rightarrow> (view \<times> wake) list \<Rightarrow> wait_result option" where
  "wait_loop m [] = None"
| "wait_loop m (r # rs) =
     (let v = fst r; screen = vw_screen v
      in if match m screen then Some (Matched screen)
         else if vw_finished v then Some (WaitFailed (newWaitError m screen (SessionEnded (vw_err v))))
         else (case snd r of
                 ContextDone e \<Rightarrow> Some (WaitFailed (newWaitError m screen (ContextEnded e)))
               | Woken \<Rightarrow> wait_loop m rs))"

definition WaitFor :: "matcher \<Rightarrow> (view \<times> wake) list \<Rightarrow> wait_result option" where
  "WaitFor m rounds =
     (if m = NilMatcher then Some (Rejected MatcherRequired) else wait_loop m rounds)"

text \<open>A round of \<open>WaitForStable\<close>: what it sees, how its first and its second sleep end, and the second look.\<close>

record stable_round =
  sr_first :: view
  sr_wake :: wake
  sr_quiet :: quiet
  sr_second :: view

primrec stable_loop :: "matcher \<Rightarrow> stable_round list \<Rightarrow> wait_result option" where
  "stable_loop m [] = None"
| "stable_loop m (r # rs) =
     (let v = sr_first r; screen = vw_screen v
      in if vw_finished v then Some (WaitFailed (newWaitError m screen (SessionEnded (vw_err v))))
         else if \<not> match m screen then
           (case sr_wake r of
              ContextDone e \<Rightarrow> Some (WaitFailed (newWaitError m screen (ContextEnded e)))
            | Woken \<Rightarrow> stable_loop m rs)
         else (case sr_quiet r of
             QuietContextDone e \<Rightarrow> Some (WaitFailed (newWaitError m screen (ContextEnded e)))
           | Interrupted \<Rightarrow> stable_loop m rs
           | Elapsed \<Rightarrow>
               (let v2 = sr_second r; screen2 = vw_screen v2
                in if \<not> vw_finished v2 \<and> vw_output v2 = vw_output v \<and> match m screen2
                   then Some (Matched screen2)
                   else if vw_finished v2
                   then Some (WaitFailed (newWaitError m screen2 (SessionEnded (vw_err v2))))
                   else stable_loop m rs)))"

definition WaitForStable :: "matcher \<Rightarrow> int \<Rightarrow> stable_round list \<Rightarrow> wait_result option" where
  "WaitForStable m quietPeriod rounds =
     (if m = NilMatcher then Some (Rejected MatcherRequired)
      else if quietPeriod \<le> 0 then Some (Rejected QuietPeriodNotPositive)
      else stable_loop m rounds)"

text \<open>\<open>%s\<close> of a duration is the parameter \<open>show_duration\<close>.\<close>

definition WaitForIdle :: "(int \<Rightarrow> string) \<Rightarrow> int \<Rightarrow> stable_round list \<Rightarrow> wait_result option" where
  "WaitForIdle show_duration quietPeriod rounds =
     (if quietPeriod \<le> 0 then Some (Rejected QuietPeriodNotPositive)
      else WaitForStable
             (describedScreenMatcher (''terminal idle for '' @ show_duration quietPeriod) (\<lambda>_. True))
             quietPeriod rounds)"

subsection \<open>Observing screens\<close>

text \<open>
  What wakes the observer of \<open>Screens\<close>, with the snapshot it then takes, and the screens it hands to its
  channel. The channel keeps the latest screen only: a screen the reader has not taken is dropped for
  the next one.
\<close>

datatype observation = ScreenChanged screen | ObserverStopped | EndedWith screen

text \<open>The loop of \<open>Screens\<close>: the screens handed to the channel, in order.\<close>

primrec screens_loop :: "screen \<Rightarrow> observation list \<Rightarrow> screen list" where
  "screens_loop prev [] = []"
| "screens_loop prev (o1 # os) =
     (case o1 of
        ObserverStopped \<Rightarrow> []
      | EndedWith current \<Rightarrow> if scr_revision current \<noteq> scr_revision prev then [current] else []
      | ScreenChanged current \<Rightarrow>
          if scr_revision current \<noteq> scr_revision prev
          then current # screens_loop current os else screens_loop prev os)"

definition Screens :: "screen \<Rightarrow> observation list \<Rightarrow> screen list" where
  "Screens first os = first # screens_loop first os"

subsection \<open>Properties\<close>

text \<open>A loop that goes on with undecided rounds stops at the first decided one, if there is one.\<close>

lemma first_decided:
  assumes "f [] = None" "\<And>r rs. f (r # rs) = (if P r then f rs else Some (g r))"
  shows "case f xs of
     None \<Rightarrow> \<forall>r \<in> set xs. P r
   | Some x \<Rightarrow> \<exists>before r after. xs = before @ r # after \<and> (\<forall>b \<in> set before. P b) \<and> \<not> P r \<and> x = g r"
proof (induction xs)
  case (Cons r rs)
  show ?case
  proof (cases "P r \<and> f rs \<noteq> None")
    case True
    then obtain x before r' after where "f rs = Some x"
        "rs = before @ r' # after" "\<forall>b \<in> set before. P b" "\<not> P r'" "x = g r'"
      using Cons by auto
    then have "f (r # rs) = Some (g r')" "r # rs = (r # before) @ r' # after" "\<forall>b \<in> set (r # before). P b" "\<not> P r'"
      using True assms(2) [of r rs] by simp_all
    then show ?thesis unfolding \<open>f (r # rs) = Some (g r')\<close> option.case(2) by blast
  next
    case False
    then show ?thesis
    proof (cases "P r")
      case False
      then have "f (r # rs) = Some (g r)" "r # rs = [] @ r # rs" "\<forall>b \<in> set []. P b"
        using assms(2) [of r rs] by simp_all
      then show ?thesis using False unfolding \<open>f (r # rs) = Some (g r)\<close> option.case(2) by blast
    qed (use False Cons assms(2) [of r rs] in simp)
  qed
qed (simp add: assms(1))

text \<open>A round of \<open>WaitFor\<close> that decides nothing, and what a deciding round decides.\<close>

definition undecided :: "matcher \<Rightarrow> view \<times> wake \<Rightarrow> bool" where
  "undecided m r \<longleftrightarrow> \<not> match m (vw_screen (fst r)) \<and> \<not> vw_finished (fst r) \<and> snd r = Woken"

definition decision :: "matcher \<Rightarrow> view \<times> wake \<Rightarrow> wait_result" where
  "decision m r =
     (if match m (vw_screen (fst r)) then Matched (vw_screen (fst r))
      else WaitFailed (newWaitError m (vw_screen (fst r))
        (if vw_finished (fst r) then SessionEnded (vw_err (fst r))
         else ContextEnded (case snd r of ContextDone e \<Rightarrow> e | Woken \<Rightarrow> []))))"

lemma wait_loop_Cons: "wait_loop m (r # rs) = (if undecided m r then wait_loop m rs else Some (decision m r))"
  by (auto simp: undecided_def decision_def Let_def split: wake.splits)

text \<open>
  A wait returns in the first round that decides it, and goes on only through rounds whose screen the
  matcher rejects while the session lives and the context lasts. It returns the first screen, in the order of
  its rounds, that the matcher accepts; it fails only in a round whose own screen the matcher rejects, with
  that screen as the last one observed, when the context or the session ended there.
\<close>

theorem wait_for_sound:
  assumes "m \<noteq> NilMatcher"
  shows "case WaitFor m rounds of
     None \<Rightarrow> \<forall>r \<in> set rounds. \<not> match m (vw_screen (fst r)) \<and> \<not> vw_finished (fst r) \<and> snd r = Woken
   | Some result \<Rightarrow> \<exists>before v w after. rounds = before @ (v, w) # after \<and>
       (\<forall>r \<in> set before. \<not> match m (vw_screen (fst r)) \<and> \<not> vw_finished (fst r) \<and> snd r = Woken) \<and>
       (if match m (vw_screen v) then result = Matched (vw_screen v)
        else \<exists>cause. result = WaitFailed \<lparr>we_expected = matcherDescription m, we_screen = vw_screen v, we_cause = cause\<rparr> \<and>
          (if vw_finished v then cause = SessionEnded (vw_err v) else \<exists>e. w = ContextDone e \<and> cause = ContextEnded e))"
proof (cases "wait_loop m rounds")
  case None
  then show ?thesis
    using first_decided [of "wait_loop m" "undecided m" "decision m" rounds, OF _ wait_loop_Cons] assms
    by (simp add: WaitFor_def undecided_def)
next
  case (Some result)
  then obtain before r after where r: "rounds = before @ r # after" "\<forall>b \<in> set before. undecided m b"
      "\<not> undecided m r" "result = decision m r"
    using first_decided [of "wait_loop m" "undecided m" "decision m" rounds, OF _ wait_loop_Cons] by auto
  have "\<exists>e. snd r = ContextDone e" if "\<not> match m (vw_screen (fst r))" "\<not> vw_finished (fst r)"
    using that r(3) by (cases "snd r") (simp_all add: undecided_def)
  note decided = this
  have returned: "WaitFor m rounds = Some result" using Some assms by (simp add: WaitFor_def)
  show ?thesis
    unfolding returned option.case(2)
    by (rule exI [of _ before], rule exI [of _ "fst r"], rule exI [of _ "snd r"], rule exI [of _ after])
      (use r decided in \<open>auto simp: undecided_def decision_def newWaitError_def\<close>)
qed

definition cursor_view :: "int \<Rightarrow> view" where
  "cursor_view c = \<lparr>vw_finished = False, vw_err = None, vw_output = 0,
     vw_screen = \<lparr>scr_width = 2, scr_height = 1, scr_cells = [], scr_cursor = \<lparr>cur_column = c, cur_row = 0, cur_visible = True\<rparr>,
       scr_revision = 0, scr_title = []\<rparr>\<rparr>"

theorem wait_for_sound_witness:
  "WaitFor (CursorAt 1 0) [(cursor_view 0, Woken), (cursor_view 1, Woken)] = Some (Matched (vw_screen (cursor_view 1))) \<and>
   (\<exists>before v w after. [(cursor_view 0, Woken), (cursor_view 1, Woken)] = before @ (v, w) # after \<and>
     match (CursorAt 1 0) (vw_screen v))"
proof -
  have w: "WaitFor (CursorAt 1 0) [(cursor_view 0, Woken), (cursor_view 1, Woken)] = Some (Matched (vw_screen (cursor_view 1)))"
    by (simp add: WaitFor_def CursorAt_def cursor_view_def)
  have "CursorAt 1 0 \<noteq> NilMatcher" by (simp add: CursorAt_def)
  from wait_for_sound [OF this, of "[(cursor_view 0, Woken), (cursor_view 1, Woken)]"] show ?thesis
    unfolding w by (auto split: if_splits)
qed

text \<open>A round of \<open>WaitForStable\<close> after which it starts over, and what another round decides.\<close>

definition starts_over :: "matcher \<Rightarrow> stable_round \<Rightarrow> bool" where
  "starts_over m r \<longleftrightarrow> \<not> vw_finished (sr_first r) \<and>
     (if match m (vw_screen (sr_first r))
      then sr_quiet r = Interrupted \<or>
        sr_quiet r = Elapsed \<and> \<not> vw_finished (sr_second r) \<and>
          (vw_output (sr_second r) \<noteq> vw_output (sr_first r) \<or> \<not> match m (vw_screen (sr_second r)))
      else sr_wake r = Woken)"

definition stable_decision :: "matcher \<Rightarrow> stable_round \<Rightarrow> wait_result" where
  "stable_decision m r =
     (let v = sr_first r; v2 = sr_second r; failed = (\<lambda>v cause. WaitFailed (newWaitError m (vw_screen v) cause))
      in if vw_finished v then failed v (SessionEnded (vw_err v))
         else if match m (vw_screen v)
         then (case sr_quiet r of
                 QuietContextDone e \<Rightarrow> failed v (ContextEnded e)
               | _ \<Rightarrow> if vw_finished v2 then failed v2 (SessionEnded (vw_err v2)) else Matched (vw_screen v2))
         else failed v (ContextEnded (case sr_wake r of ContextDone e \<Rightarrow> e | Woken \<Rightarrow> [])))"

lemma stable_loop_Cons:
  "stable_loop m (r # rs) = (if starts_over m r then stable_loop m rs else Some (stable_decision m r))"
  by (auto simp: starts_over_def stable_decision_def Let_def split: wake.splits quiet.splits)

text \<open>
  C15: \<open>WaitForStable\<close> returns in the first round that decides it. It returns a screen only when the matcher
  accepted the screen before and after an undisturbed quiet period during which the session went on and no host
  output arrived. It fails only when the session ended, or when the context ended while it slept, with the screen
  it saw then. It starts over exactly when the round's screen was rejected, its quiet period was disturbed, or output
  or a change of the screen came to light at the end of it.
\<close>

theorem wait_stable_sound:
  assumes "m \<noteq> NilMatcher" "0 < quietPeriod"
  shows "case WaitForStable m quietPeriod rounds of
     None \<Rightarrow> \<forall>r \<in> set rounds. starts_over m r
   | Some result \<Rightarrow> \<exists>before r after. rounds = before @ r # after \<and> (\<forall>b \<in> set before. starts_over m b) \<and>
       (let v = sr_first r; v2 = sr_second r in
        case result of
          Matched screen \<Rightarrow> \<not> vw_finished v \<and> match m (vw_screen v) \<and> sr_quiet r = Elapsed \<and> \<not> vw_finished v2 \<and>
            vw_output v2 = vw_output v \<and> screen = vw_screen v2 \<and> match m screen
        | WaitFailed e \<Rightarrow> we_expected e = matcherDescription m \<and>
            (we_cause e = SessionEnded (vw_err v) \<and> vw_finished v \<and> we_screen e = vw_screen v \<or>
             we_cause e = SessionEnded (vw_err v2) \<and> vw_finished v2 \<and> we_screen e = vw_screen v2 \<and> sr_quiet r = Elapsed \<or>
             we_screen e = vw_screen v \<and> \<not> vw_finished v \<and> (\<exists>c. we_cause e = ContextEnded c \<and>
               (if match m (vw_screen v) then sr_quiet r = QuietContextDone c else sr_wake r = ContextDone c)))
        | Rejected _ \<Rightarrow> False)"
proof (cases "stable_loop m rounds")
  case None
  then show ?thesis
    using first_decided [of "stable_loop m" "starts_over m" "stable_decision m" rounds, OF _ stable_loop_Cons] assms
    by (simp add: WaitForStable_def)
next
  case (Some result)
  then obtain before r after where r: "rounds = before @ r # after" "\<forall>b \<in> set before. starts_over m b"
      "\<not> starts_over m r" "result = stable_decision m r"
    using first_decided [of "stable_loop m" "starts_over m" "stable_decision m" rounds, OF _ stable_loop_Cons] by auto
  have returned: "WaitForStable m quietPeriod rounds = Some result" using Some assms by (simp add: WaitForStable_def)
  have decided: "\<exists>e. sr_wake r = ContextDone e" if "\<not> match m (vw_screen (sr_first r))" "\<not> vw_finished (sr_first r)"
    using that r(3) by (cases "sr_wake r") (simp_all add: starts_over_def)
  show ?thesis
    unfolding returned option.case(2)
    by (rule exI [of _ before], rule exI [of _ r], rule exI [of _ after])
      (use r decided in \<open>cases "vw_finished (sr_first r)"; cases "match m (vw_screen (sr_first r))";
        auto simp: starts_over_def stable_decision_def newWaitError_def Let_def split: quiet.splits wake.splits\<close>)
qed

theorem wait_stable_sound_witness:
  "WaitForStable (CursorAt 1 0) 5 [\<lparr>sr_first = cursor_view 1, sr_wake = Woken, sr_quiet = Elapsed, sr_second = cursor_view 1\<rparr>]
     = Some (Matched (vw_screen (cursor_view 1))) \<and> match (CursorAt 1 0) (vw_screen (cursor_view 1))"
proof -
  let ?rounds = "[\<lparr>sr_first = cursor_view 1, sr_wake = Woken, sr_quiet = Elapsed, sr_second = cursor_view 1\<rparr>]"
  have w: "WaitForStable (CursorAt 1 0) 5 ?rounds = Some (Matched (vw_screen (cursor_view 1)))"
    by (simp add: WaitForStable_def CursorAt_def cursor_view_def)
  have m: "CursorAt 1 0 \<noteq> NilMatcher" by (simp add: CursorAt_def)
  have p: "0 < (5::int)" by simp
  from wait_stable_sound [OF m p, of ?rounds] show ?thesis
    unfolding w by (auto simp: Let_def)
qed

text \<open>
  An observer of \<open>Screens\<close> is handed the current screen first and never two screens of the same
  revision in a row.
\<close>

theorem screens_show_changes:
  "hd (Screens first os) = first \<and> distinct_adj (map scr_revision (Screens first os))"
proof -
  have "distinct_adj (map scr_revision (prev # screens_loop prev os))" for prev
    by (induction os arbitrary: prev) (auto split: observation.splits)
  then show ?thesis by (simp add: Screens_def)
qed

subsection \<open>Handing screens over\<close>

text \<open>
  \<open>publishScreen\<close>: the observer's goroutine hands each screen of \<open>Screens\<close> to a channel with one place
  from which the client receives. It offers the screen, and when the place is taken it removes what is
  there and offers again; the context may end at any time. The steps are the channel operations.
\<close>

datatype 'a publishing = Between | Offering 'a | Draining 'a | Refilling 'a | Quit 'a

record 'a hand_over =
  ho_todo :: "'a list"
  ho_sender :: "'a publishing"
  ho_slot :: "'a option"
  ho_received :: "'a list"
  ho_ended :: bool

definition new_hand_over :: "'a list \<Rightarrow> 'a hand_over" where
  "new_hand_over xs = \<lparr>ho_todo = xs, ho_sender = Between, ho_slot = None, ho_received = [], ho_ended = False\<rparr>"

inductive hand_step :: "'a hand_over \<Rightarrow> 'a hand_over \<Rightarrow> bool" where
  next_screen: "ho_sender h = Between \<Longrightarrow> ho_todo h = x # xs \<Longrightarrow>
     hand_step h (h\<lparr>ho_sender := Offering x, ho_todo := xs\<rparr>)"
| offered: "ho_sender h = Offering x \<Longrightarrow> ho_slot h = None \<Longrightarrow>
     hand_step h (h\<lparr>ho_sender := Between, ho_slot := Some x\<rparr>)"
| offer_refused: "ho_sender h = Offering x \<Longrightarrow> ho_slot h = Some y \<Longrightarrow> \<not> ho_ended h \<Longrightarrow>
     hand_step h (h\<lparr>ho_sender := Draining x\<rparr>)"
| drained: "ho_sender h = Draining x \<Longrightarrow> ho_slot h = Some y \<Longrightarrow>
     hand_step h (h\<lparr>ho_sender := Refilling x, ho_slot := None\<rparr>)"
| nothing_drained: "ho_sender h = Draining x \<Longrightarrow> ho_slot h = None \<Longrightarrow> hand_step h (h\<lparr>ho_sender := Refilling x\<rparr>)"
| refilled: "ho_sender h = Refilling x \<Longrightarrow> ho_slot h = None \<Longrightarrow>
     hand_step h (h\<lparr>ho_sender := Between, ho_slot := Some x\<rparr>)"
| cancelled: "ho_sender h = Offering x \<or> ho_sender h = Refilling x \<Longrightarrow> ho_ended h \<Longrightarrow>
     hand_step h (h\<lparr>ho_sender := Quit x\<rparr>)"
| received: "ho_slot h = Some y \<Longrightarrow> hand_step h (h\<lparr>ho_slot := None, ho_received := ho_received h @ [y]\<rparr>)"
| context_ends: "hand_step h (h\<lparr>ho_ended := True\<rparr>)"

inductive hands :: "'a list \<Rightarrow> 'a hand_over \<Rightarrow> bool" for xs where
  begins: "hands xs (new_hand_over xs)"
| goes_on: "hands xs h \<Longrightarrow> hand_step h h' \<Longrightarrow> hands xs h'"

text \<open>\<open>ds\<close> are the screens the sender is through with.\<close>

primrec in_hand :: "'a publishing \<Rightarrow> 'a list" where
  "in_hand Between = []"
| "in_hand (Offering x) = [x]"
| "in_hand (Draining x) = [x]"
| "in_hand (Refilling x) = [x]"
| "in_hand (Quit x) = [x]"

definition hand_ok :: "'a list \<Rightarrow> 'a list \<Rightarrow> 'a hand_over \<Rightarrow> bool" where
  "hand_ok xs ds h \<longleftrightarrow>
     xs = ds @ in_hand (ho_sender h) @ ho_todo h \<and>
     (case ho_slot h of
        None \<Rightarrow> ho_received h \<in> set (subseqs ds) \<and>
          (ho_sender h = Between \<or> (\<exists>x. ho_sender h = Offering x) \<longrightarrow> ds = [] \<or> ho_received h \<noteq> [] \<and> last (ho_received h) = last ds)
      | Some y \<Rightarrow> (\<exists>es. ds = es @ [y] \<and> ho_received h \<in> set (subseqs es)) \<and> (\<forall>x. ho_sender h \<noteq> Refilling x))"

lemma subseqs_append: "xs \<in> set (subseqs ys) \<Longrightarrow> xs \<in> set (subseqs (ys @ zs))"
proof (induction ys arbitrary: xs)
  case Nil
  have "[] \<in> set (subseqs zs)" by (induction zs) (simp_all add: Let_def)
  then show ?case using Nil by simp
qed (auto simp: Let_def)

lemma subseqs_snoc: "xs \<in> set (subseqs ys) \<Longrightarrow> xs @ [y] \<in> set (subseqs (ys @ [y]))"
  by (induction ys arbitrary: xs) (auto simp: Let_def)

lemma hand_ok_step:
  assumes "hand_step h h'" "hand_ok xs ds h"
  shows "\<exists>ds'. hand_ok xs ds' h'"
  using assms(1)
proof cases
  case (offered x)
  then show ?thesis using assms(2) by (intro exI [of _ "ds @ [x]"]) (simp add: hand_ok_def)
next
  case (refilled x)
  then show ?thesis using assms(2) by (intro exI [of _ "ds @ [x]"]) (simp add: hand_ok_def)
next
  case (drained x y)
  then obtain es where "ds = es @ [y]" "ho_received h \<in> set (subseqs es)" using assms(2) by (auto simp: hand_ok_def)
  then have "ho_received h \<in> set (subseqs ds)" by (simp add: subseqs_append)
  then show ?thesis using assms(2) drained by (intro exI [of _ ds]) (simp add: hand_ok_def)
next
  case (received y)
  then show ?thesis using assms(2) by (intro exI [of _ ds]) (auto simp: hand_ok_def subseqs_snoc)
qed (use assms(2) in \<open>auto simp: hand_ok_def split: option.splits intro!: exI [of _ ds]\<close>)

lemma hands_ok: "hands xs h \<Longrightarrow> \<exists>ds. hand_ok xs ds h"
proof (induction rule: hands.induct)
  case begins
  then show ?case by (intro exI [of _ "[]"]) (simp add: hand_ok_def new_hand_over_def)
next
  case (goes_on h h')
  then show ?case using hand_ok_step by blast
qed

text \<open>
  However the client and the observer interleave, the client receives a subsequence of the screens, the
  observer is never blocked by a client that does not receive, and a client that has received all there
  is has the latest screen.
\<close>

theorem latest_screen_handed_over:
  assumes "hands xs h"
  shows "ho_received h \<in> set (subseqs xs) \<and>
    ((\<exists>x. ho_sender h \<in> {Offering x, Draining x, Refilling x}) \<longrightarrow> (\<exists>h'. hand_step h h' \<and> ho_sender h' \<noteq> ho_sender h)) \<and>
    (ho_sender h = Between \<and> ho_todo h = [] \<and> xs \<noteq> [] \<longrightarrow>
       (case ho_slot h of None \<Rightarrow> last (ho_received h) = last xs | Some y \<Rightarrow> y = last xs))"
proof -
  obtain ds where ok: "hand_ok xs ds h" using hands_ok [OF assms] by blast
  have "\<exists>h'. hand_step h h' \<and> ho_sender h' \<noteq> ho_sender h" if "ho_sender h \<in> {Offering x, Draining x, Refilling x}" for x
  proof (cases "ho_slot h")
    case None
    then show ?thesis using that hand_step.offered [of h x] hand_step.nothing_drained [of h x] hand_step.refilled [of h x]
      by fastforce
  next
    case (Some y)
    then have "ho_sender h \<noteq> Refilling x" using ok by (simp add: hand_ok_def)
    then show ?thesis
      using that Some hand_step.offer_refused [of h x y] hand_step.drained [of h x y] hand_step.cancelled [of h x]
      by (cases "ho_ended h") fastforce+
  qed
  moreover have "ho_received h \<in> set (subseqs xs)"
    using ok by (auto simp: hand_ok_def split: option.splits intro: subseqs_append)
  ultimately show ?thesis using ok by (auto simp: hand_ok_def split: option.splits)
qed

end
