(* ===== verification/Terminal_Frames.thy ===== *)
theory Terminal_Frames
  imports Terminal_Control
begin

text \<open>
  What the control functions do not depend on. The locale \<open>relabelling\<close> is a change \<open>h\<close> of the terminal
  that every access commutes with as long as the active screen is \<open>ok\<close>; inside it each operation is
  shown to commute as well, so that \<open>h\<close> neither influences a run of events nor is undone by it. It is
  interpreted twice: \<open>h\<close> moves the revision counter, which shows that cutting the host's output into
  reads does not matter, and \<open>h\<close> replaces the contents of the main screen while the alternate one is
  active, which shows that programs on the alternate screen leave the main one alone.
\<close>

definition show_cursor :: "bool \<Rightarrow> terminal \<Rightarrow> terminal" where
  "show_cursor enabled t =
     (let t1 = t\<lparr>tm_main := (tm_main t)
                  \<lparr>buf_cursor := (buf_cursor (tm_main t))\<lparr>cur_visible := enabled\<rparr>\<rparr>\<rparr>
      in if buf_cells (tm_alternate t1) \<noteq> []
         then t1\<lparr>tm_alternate := (tm_alternate t1)
                  \<lparr>buf_cursor := (buf_cursor (tm_alternate t1))\<lparr>cur_visible := enabled\<rparr>\<rparr>\<rparr>
         else t1)"

lemma setPrivateMode_eq:
  "setPrivateMode c p t =
     (let enabled = (cmd_final c = 0x68); v = par_value p
      in if \<not> par_present p then Some t
         else if v = 1 then Some (t\<lparr>tm_application_cursor := enabled\<rparr>)
         else if v = 7 then Some (t\<lparr>tm_auto_wrap := enabled, tm_wrap_pending := False\<rparr>)
         else if v = 25 then Some (changed (show_cursor enabled t))
         else if ignoredPrivateMode v then Some t
         else if \<not> tm_xterm t then Some (unsupported (describe ''CSI'' c [p]) t)
         else do { r \<leftarrow> setXTermPrivateMode v enabled t;
                   Some (if snd r then fst r else unsupported (describe ''CSI'' c [p]) (fst r)) })"
  by (simp only: setPrivateMode_def show_cursor_def Let_def)

text \<open>
  The events that switch screens: the full reset and the private modes 47, 1047 and 1049. A mode
  parameter with one of these values counts whether or not it is present.
\<close>

definition switches :: "parser_event \<Rightarrow> bool" where
  "switches e =
     (case e of
        Escape c \<Rightarrow> cmd_intermediate c = 0 \<and> cmd_final c = 0x63
      | CSI c ps \<Rightarrow> \<exists>p \<in> set ps. par_value p \<in> {47, 1047, 1049}
      | _ \<Rightarrow> False)"

locale relabelling =
  fixes h :: "terminal \<Rightarrow> terminal"
    and ok :: "which \<Rightarrow> bool \<Rightarrow> bool"
  assumes reads [simp]:
      "tm_width (h t) = tm_width t" "tm_height (h t) = tm_height t" "tm_xterm (h t) = tm_xterm t"
      "tm_active (h t) = tm_active t" "tm_style (h t) = tm_style t"
      "tm_wrap_pending (h t) = tm_wrap_pending t" "tm_auto_wrap (h t) = tm_auto_wrap t"
      "tm_insert_mode (h t) = tm_insert_mode t" "tm_scroll_top (h t) = tm_scroll_top t"
      "tm_scroll_bottom (h t) = tm_scroll_bottom t" "tm_charsets (h t) = tm_charsets t"
      "tm_charset (h t) = tm_charset t" "tm_answerback (h t) = tm_answerback t"
      "tm_title (h t) = tm_title t" "tm_events (h t) = tm_events t"
    and writes [simp]:
      "(h t)\<lparr>tm_wrap_pending := b\<rparr> = h (t\<lparr>tm_wrap_pending := b\<rparr>)"
      "(h t)\<lparr>tm_auto_wrap := b\<rparr> = h (t\<lparr>tm_auto_wrap := b\<rparr>)"
      "(h t)\<lparr>tm_application_cursor := b\<rparr> = h (t\<lparr>tm_application_cursor := b\<rparr>)"
      "(h t)\<lparr>tm_insert_mode := b\<rparr> = h (t\<lparr>tm_insert_mode := b\<rparr>)"
      "(h t)\<lparr>tm_scroll_top := i\<rparr> = h (t\<lparr>tm_scroll_top := i\<rparr>)"
      "(h t)\<lparr>tm_scroll_bottom := i\<rparr> = h (t\<lparr>tm_scroll_bottom := i\<rparr>)"
      "(h t)\<lparr>tm_charsets := c\<rparr> = h (t\<lparr>tm_charsets := c\<rparr>)"
      "(h t)\<lparr>tm_charset := i\<rparr> = h (t\<lparr>tm_charset := i\<rparr>)"
      "(h t)\<lparr>tm_style := x\<rparr> = h (t\<lparr>tm_style := x\<rparr>)"
      "(h t)\<lparr>tm_events := es\<rparr> = h (t\<lparr>tm_events := es\<rparr>)"
      "(h t)\<lparr>tm_title := s\<rparr> = h (t\<lparr>tm_title := s\<rparr>)"
    and changed_h [simp]: "changed (h t) = h (changed t)"
    and active_h [simp]: "ok (tm_active t) (tm_xterm t) \<Longrightarrow> active_buffer (h t) = active_buffer t"
    and map_active_h [simp]: "ok (tm_active t) (tm_xterm t) \<Longrightarrow> map_active f (h t) = h (map_active f t)"
    and show_cursor_h [simp]: "ok (tm_active t) (tm_xterm t) \<Longrightarrow> show_cursor b (h t) = h (show_cursor b t)"
begin

definition agrees :: "terminal option \<Rightarrow> terminal option \<Rightarrow> bool" where
  "agrees r r' \<longleftrightarrow> rel_option (\<lambda>u v. ok (tm_active v) (tm_xterm v) \<and> u = h v) r r'"

lemma agrees_None [simp]: "agrees None None"
  by (simp add: agrees_def)

lemma agrees_Some [simp]: "agrees (Some u) (Some v) \<longleftrightarrow> ok (tm_active v) (tm_xterm v) \<and> u = h v"
  by (simp add: agrees_def)

lemma agrees_bind:
  "agrees r r' \<Longrightarrow> (\<And>v. ok (tm_active v) (tm_xterm v) \<Longrightarrow> agrees (f (h v)) (g v)) \<Longrightarrow> agrees (Option.bind r f) (Option.bind r' g)"
  by (cases r; cases r') (auto simp: agrees_def)

lemma agrees_read: "(\<And>x. agrees (f x) (g x)) \<Longrightarrow> agrees (Option.bind m f) (Option.bind m g)"
  by (cases m) auto

lemma agrees_if:
  "(b \<Longrightarrow> agrees r s) \<Longrightarrow> (\<not> b \<Longrightarrow> agrees r' s') \<Longrightarrow> agrees (if b then r else r') (if b then s else s')"
  by simp

lemma agrees_for:
  assumes "\<And>i v. ok (tm_active v) (tm_xterm v) \<Longrightarrow> agrees (f i (h v)) (f i v)"
  shows "ok (tm_active t) (tm_xterm t) \<Longrightarrow> agrees (for_each is f (h t)) (for_each is f t)"
  by (induction "is" arbitrary: t) (simp_all add: agrees_bind assms)

lemma agrees_for_set:
  assumes "\<And>i v. i \<in> set is \<Longrightarrow> ok (tm_active v) (tm_xterm v) \<Longrightarrow> agrees (f i (h v)) (f i v)"
  shows "ok (tm_active t) (tm_xterm t) \<Longrightarrow> agrees (for_each is f (h t)) (for_each is f t)"
  using assms by (induction "is" arbitrary: t) (simp_all add: agrees_bind)

lemma agrees_map: "agrees r s \<longleftrightarrow> r = map_option h s \<and> (\<forall>v. s = Some v \<longrightarrow> ok (tm_active v) (tm_xterm v))"
  by (cases r; cases s) (auto simp: agrees_def)

lemma active_upd [simp]:
  "tm_active (map_active f t) = tm_active t" "tm_xterm (map_active f t) = tm_xterm t"
  by (simp_all add: map_active_def split: which.splits)

lemma view_h [simp]:
  assumes "ok (tm_active t) (tm_xterm t)"
  shows "cells (h t) = cells t" "cursor_of (h t) = cursor_of t" "column (h t) = column t"
    "cursor_row (h t) = cursor_row t" "set_cells cs (h t) = h (set_cells cs t)"
    "set_cursor c (h t) = h (set_cursor c t)" "set_column i (h t) = h (set_column i t)"
    "set_row i (h t) = h (set_row i t)"
  using assms by (simp_all add: cells_def cursor_of_def column_def cursor_row_def set_cells_def set_cursor_def
      set_column_def set_row_def)

lemma active_set [simp]:
  "tm_active (set_cells cs t) = tm_active t" "tm_active (set_cursor c t) = tm_active t"
  "tm_active (set_column i t) = tm_active t" "tm_active (set_row i t) = tm_active t"
  "tm_active (changed t) = tm_active t" "tm_active (emit ty d t) = tm_active t"
  "tm_active (unsupported s t) = tm_active t" "tm_active (show_cursor b t) = tm_active t"
  "tm_xterm (set_cells cs t) = tm_xterm t" "tm_xterm (set_cursor c t) = tm_xterm t"
  "tm_xterm (set_column i t) = tm_xterm t" "tm_xterm (set_row i t) = tm_xterm t"
  "tm_xterm (changed t) = tm_xterm t" "tm_xterm (emit ty d t) = tm_xterm t"
  "tm_xterm (unsupported s t) = tm_xterm t" "tm_xterm (show_cursor b t) = tm_xterm t"
  by (simp_all add: set_cells_def set_cursor_def set_column_def set_row_def changed_def emit_def
      unsupported_def show_cursor_def Let_def)

lemma plain_h [simp]:
  "blankCell (h t) = blankCell t" "blankCells n (h t) = blankCells n t" "emit ty d (h t) = h (emit ty d t)"
  "unsupported s (h t) = h (unsupported s t)" "current_charset (h t) = current_charset t"
  "rune_width sw (h t) r = rune_width sw t r"
  by (simp_all add: blankCell_def blankCells_def emit_def unsupported_def current_charset_def rune_width_def)

lemma row_h [simp]: "ok (tm_active t) (tm_xterm t) \<Longrightarrow> row r (h t) = row r t"
  by (simp add: row_def)

lemmas agree = agrees_bind agrees_read agrees_if agrees_for

lemma write_row_agrees [simp]: "ok (tm_active t) (tm_xterm t) \<Longrightarrow> agrees (write_row r l (h t)) (write_row r l t)"
  by (auto simp: write_row_def Let_def intro!: agrees_read)

lemma copy_row_agrees [simp]: "ok (tm_active t) (tm_xterm t) \<Longrightarrow> agrees (copy_row d s (h t)) (copy_row d s t)"
  by (auto simp: copy_row_def intro!: agrees_read)

lemma clearRow_agrees [simp]: "ok (tm_active t) (tm_xterm t) \<Longrightarrow> agrees (clearRow r (h t)) (clearRow r t)"
  by (auto simp: clearRow_def intro!: agrees_read)

lemma scrollUp_agrees [simp]: "ok (tm_active t) (tm_xterm t) \<Longrightarrow> agrees (scrollUp (h t)) (scrollUp t)"
  by (auto simp: scrollUp_def intro!: agrees_bind agrees_for)

lemma lineFeed_agrees [simp]: "ok (tm_active t) (tm_xterm t) \<Longrightarrow> agrees (lineFeed (h t)) (lineFeed t)"
  by (auto simp: lineFeed_def intro!: agrees_bind)

lemma reverseIndex_agrees [simp]: "ok (tm_active t) (tm_xterm t) \<Longrightarrow> agrees (reverseIndex (h t)) (reverseIndex t)"
  by (auto simp: reverseIndex_def intro!: agrees_bind agrees_for)

lemma insertCharacters_agrees [simp]: "ok (tm_active t) (tm_xterm t) \<Longrightarrow> agrees (insertCharacters n (h t)) (insertCharacters n t)"
  by (auto simp: insertCharacters_def Let_def intro!: agrees_read agrees_bind [OF write_row_agrees])

lemma deleteCharacters_agrees [simp]: "ok (tm_active t) (tm_xterm t) \<Longrightarrow> agrees (deleteCharacters n (h t)) (deleteCharacters n t)"
  by (auto simp: deleteCharacters_def Let_def intro!: agrees_read agrees_bind [OF write_row_agrees])

lemma blank_range_agrees [simp]: "ok (tm_active t) (tm_xterm t) \<Longrightarrow> agrees (blank_range a b (h t)) (blank_range a b t)"
  by (auto simp: blank_range_def intro!: agrees_read)

lemma erase_agrees [simp]:
  assumes "ok (tm_active t) (tm_xterm t)"
  shows "agrees (eraseCharacters n (h t)) (eraseCharacters n t)" "agrees (eraseLine n (h t)) (eraseLine n t)"
    "agrees (eraseDisplay n (h t)) (eraseDisplay n t)"
  using assms by (auto simp: eraseCharacters_def eraseLine_def eraseDisplay_def Let_def
      intro!: agrees_bind [OF blank_range_agrees])

lemma lines_agree [simp]:
  assumes "ok (tm_active t) (tm_xterm t)"
  shows "agrees (insertLines n (h t)) (insertLines n t)" "agrees (deleteLines n (h t)) (deleteLines n t)"
  using assms by (auto simp: insertLines_def deleteLines_def Let_def intro!: agrees_bind agrees_for)

subsection \<open>Printing and control functions\<close>

lemma clearWideCharacterAt_agrees [simp]:
  "ok (tm_active t) (tm_xterm t) \<Longrightarrow> agrees (clearWideCharacterAt r c (h t)) (clearWideCharacterAt r c t)"
  by (auto simp: clearWideCharacterAt_def intro!: agrees_read)

lemma appendCombining_agrees [simp]:
  "ok (tm_active t) (tm_xterm t) \<Longrightarrow> agrees (appendCombining r (h t)) (appendCombining r t)"
  by (auto simp: appendCombining_def Let_def intro!: agrees_read)

lemma wrap_before_agrees [simp]: "ok (tm_active t) (tm_xterm t) \<Longrightarrow> agrees (wrap_before w (h t)) (wrap_before w t)"
  by (auto simp: wrap_before_def intro!: agrees_bind)

lemma put_character_agrees [simp]:
  "ok (tm_active t) (tm_xterm t) \<Longrightarrow> agrees (put_character r w (h t)) (put_character r w t)"
  by (auto simp: put_character_def Let_def intro!: agrees_bind agrees_read agrees_if)

lemma print_agrees [simp]: "ok (tm_active t) (tm_xterm t) \<Longrightarrow> agrees (print sw r (h t)) (print sw r t)"
  by (auto simp: print_def Let_def intro!: agrees_bind agrees_read agrees_if)

lemma execute_agrees [simp]: "ok (tm_active t) (tm_xterm t) \<Longrightarrow> agrees (execute b (h t)) (execute b t)"
  by (auto simp: execute_def intro!: agrees_bind agrees_if)

lemma handleEscape_agrees [simp]:
  "ok (tm_active t) (tm_xterm t) \<Longrightarrow> \<not> (cmd_intermediate c = 0 \<and> cmd_final c = 0x63) \<Longrightarrow>
     agrees (handleEscape c (h t)) (handleEscape c t)"
  by (auto simp: handleEscape_def Let_def intro!: agrees_if)

lemma handleOSC_agrees [simp]:
  "ok (tm_active t) (tm_xterm t) \<Longrightarrow> agrees (Some (handleOSC n d (h t))) (Some (handleOSC n d t))"
  by (auto simp: handleOSC_def Let_def)

lemma setModes_agrees [simp]: "ok (tm_active t) (tm_xterm t) \<Longrightarrow> agrees (setModes c ps (h t)) (setModes c ps t)"
  unfolding setModes_def by (rule agrees_for) (auto simp: setMode_def)

lemma setPrivateMode_agrees:
  "ok (tm_active t) (tm_xterm t) \<Longrightarrow> par_value p \<notin> {47, 1047, 1049} \<Longrightarrow>
     agrees (setPrivateMode c p (h t)) (setPrivateMode c p t)"
  by (auto simp: setPrivateMode_eq setXTermPrivateMode_def Let_def)

lemma setPrivateModes_agrees:
  "ok (tm_active t) (tm_xterm t) \<Longrightarrow> \<forall>p \<in> set ps. par_value p \<notin> {47, 1047, 1049} \<Longrightarrow>
     agrees (setPrivateModes c ps (h t)) (setPrivateModes c ps t)"
  unfolding setPrivateModes_def by (rule agrees_for_set) (auto intro: setPrivateMode_agrees)

lemma attribute_h [simp]:
  "set_attribute a (h t) = h (set_attribute a t)" "clear_attribute a (h t) = h (clear_attribute a t)"
  "set_color b c (h t) = h (set_color b c t)"
  by (simp_all add: set_attribute_def clear_attribute_def set_color_def)

lemma setExtendedColor_h: "setExtendedColor ps i fg (h t) = apfst h (setExtendedColor ps i fg t)"
  by (simp add: setExtendedColor_def Let_def)

lemma rendition_value_h: "rendition_value ps i v (h t) = apfst h (rendition_value ps i v t)"
  by (simp add: rendition_value_def setExtendedColor_h)

lemma rendition_step_h: "rendition_step ps i (h t) = apfst h (rendition_step ps i t)"
  by (simp add: rendition_step_def rendition_value_h)

lemma rendition_loop_h: "rendition_loop ps i (h t) = h (rendition_loop ps i t)"
proof (induction ps i t rule: rendition_loop.induct)
  case (1 ps i t)
  then show ?case
    by (subst (1 2) rendition_loop.simps) (simp add: rendition_step_h Let_def)
qed

lemma rendition_value_active:
  "tm_active (fst (rendition_value ps i v t)) = tm_active t"
  "tm_xterm (fst (rendition_value ps i v t)) = tm_xterm t"
  by (simp_all add: rendition_value_def setExtendedColor_def set_attribute_def clear_attribute_def set_color_def Let_def)

lemma rendition_loop_active:
  "tm_active (rendition_loop ps i t) = tm_active t \<and> tm_xterm (rendition_loop ps i t) = tm_xterm t"
proof (induction ps i t rule: rendition_loop.induct)
  case (1 ps i t)
  then show ?case
    by (subst (1 2) rendition_loop.simps) (simp add: rendition_step_def rendition_value_active Let_def)
qed

lemma setRendition_agrees [simp]:
  "ok (tm_active t) (tm_xterm t) \<Longrightarrow> agrees (Some (setRendition ps (h t))) (Some (setRendition ps t))"
  by (simp add: setRendition_def Let_def rendition_loop_h rendition_loop_active)

lemma setScrollRegion_agrees [simp]:
  "ok (tm_active t) (tm_xterm t) \<Longrightarrow> agrees (Some (setScrollRegion ps (h t))) (Some (setScrollRegion ps t))"
  by (simp add: setScrollRegion_def Let_def)

lemma cursorChanged_agrees [simp]:
  "ok (tm_active t) (tm_xterm t) \<Longrightarrow> u = h t \<Longrightarrow> agrees (Some (cursorChanged u)) (Some (cursorChanged t))"
  by (simp add: cursorChanged_def)

lemma handleCSI_agrees:
  "ok (tm_active t) (tm_xterm t) \<Longrightarrow> \<forall>p \<in> set ps. par_value p \<notin> {47, 1047, 1049} \<Longrightarrow>
     agrees (handleCSI c ps (h t)) (handleCSI c ps t)"
  unfolding handleCSI_def Let_def
  by (intro agrees_if setPrivateModes_agrees setRendition_agrees setScrollRegion_agrees cursorChanged_agrees) simp_all

lemma handle_agrees:
  "ok (tm_active t) (tm_xterm t) \<Longrightarrow> \<not> switches e \<Longrightarrow> agrees (handle sw e (h t)) (handle sw e t)"
proof (cases e)
  case (OSC n data)
  assume "ok (tm_active t) (tm_xterm t)" then show ?thesis using OSC by (simp del: agrees_Some)
qed (auto simp: switches_def handleCSI_agrees)

lemma events_agree:
  "ok (tm_active t) (tm_xterm t) \<Longrightarrow> \<forall>e \<in> set es. \<not> switches e \<Longrightarrow>
     agrees (for_each es (handle sw) (h t)) (for_each es (handle sw) t)"
  by (rule agrees_for_set) (auto intro: handle_agrees)

end

end
