(* ===== verification/Terminal_Screens.thy ===== *)
theory Terminal_Screens
  imports Terminal_Frames Terminal_Life
begin

text \<open>
  Two interpretations of \<open>relabelling\<close>. Moving the revision counter commutes with every event, so the
  way output is cut into \<open>Write\<close> calls influences nothing but the revision. Replacing the contents of
  the main screen commutes with every event that does not switch screens while the alternate screen is
  active, so a program between \<open>CSI ? 1049 h\<close> and \<open>CSI ? 1049 l\<close> leaves the main screen alone.
\<close>

subsection \<open>The revision influences nothing\<close>

definition bump :: "nat \<Rightarrow> terminal \<Rightarrow> terminal" where
  "bump n t = t\<lparr>tm_revision := tm_revision t + n\<rparr>"

definition unrevised :: "terminal \<Rightarrow> terminal" where
  "unrevised t = t\<lparr>tm_revision := 0\<rparr>"

interpretation revised: relabelling "bump n" "\<lambda>_ _. True"
  by unfold_locales
    (simp_all add: bump_def changed_def active_buffer_def map_active_def show_cursor_def Let_def split: which.splits)

lemma bump_switch [simp]:
  "exitAlternate (bump n t) = bump n (exitAlternate t)"
  "revised.agrees n (enterAlternate b (bump n t)) (enterAlternate b t)"
  "revised.agrees n (reset (bump n t)) (reset t)"
proof -
  show "exitAlternate (bump n t) = bump n (exitAlternate t)"
    by (simp add: exitAlternate_def bump_def changed_def)
  show "revised.agrees n (enterAlternate b (bump n t)) (enterAlternate b t)"
    by (auto simp: enterAlternate_def bump_def changed_def blankCells_def blankCell_def
        split: bind_split intro!: revised.agrees_bind revised.agrees_read)
  show "revised.agrees n (reset (bump n t)) (reset t)"
    by (auto simp: reset_def bump_def changed_def blankCells_def blankCell_def Let_def intro!: revised.agrees_read)
qed

lemma bump_main [simp]:
  "tm_main (bump n t) = tm_main t" "(bump n t)\<lparr>tm_main := b\<rparr> = bump n (t\<lparr>tm_main := b\<rparr>)"
  by (simp_all add: bump_def)

lemma enterAlternate_bump: "enterAlternate b (bump n t) = map_option (bump n) (enterAlternate b t)"
  using bump_switch(2) [of n b t] by (simp add: revised.agrees_map)

lemma setXTermPrivateMode_bump:
  "setXTermPrivateMode v b (bump n t) = map_option (apfst (bump n)) (setXTermPrivateMode v b t)"
  by (simp add: setXTermPrivateMode_def enterAlternate_bump Let_def bind_map_option map_option_bind comp_def)

lemma setPrivateMode_bump: "revised.agrees n (setPrivateMode c p (bump n t)) (setPrivateMode c p t)"
  by (cases "setXTermPrivateMode (par_value p) (cmd_final c = 0x68) t")
    (auto simp: setPrivateMode_eq Let_def setXTermPrivateMode_bump)

lemma handle_bump: "revised.agrees n (handle sw e (bump n t)) (handle sw e t)"
proof -
  have other: "\<not> switches e \<Longrightarrow> ?thesis" by (rule revised.handle_agrees) simp_all
  show ?thesis
  proof (cases e)
    case (Escape c)
    show ?thesis
    proof (cases "cmd_intermediate c = 0 \<and> cmd_final c = 0x63")
      case True
      then have "handleEscape c u = reset u" for u by (simp add: handleEscape_def)
      then show ?thesis using Escape by simp
    next
      case False
      then show ?thesis using Escape by (intro other) (auto simp: switches_def)
    qed
  next
    case (CSI c ps)
    show ?thesis
    proof (cases "private_modes c")
      case True
      then show ?thesis
        using CSI by (simp add: handleCSI_private setPrivateModes_def)
          (rule revised.agrees_for, simp_all add: setPrivateMode_bump)
    next
      case False
      show ?thesis
        unfolding CSI handle.simps handleCSI_def Let_def
        by (intro revised.agrees_if revised.setRendition_agrees revised.setScrollRegion_agrees
            revised.cursorChanged_agrees) (use False in \<open>auto simp: private_modes_def\<close>)
    qed
  qed (use other in \<open>simp_all add: switches_def del: handle.simps\<close>)
qed

lemma events_bump: "for_each es (handle sw) (bump n t) = map_option (bump n) (for_each es (handle sw) t)"
proof -
  have "revised.agrees n (for_each es (handle sw) (bump n t)) (for_each es (handle sw) t)"
    by (rule revised.agrees_for) (simp_all only: handle_bump)
  then show ?thesis by (simp add: revised.agrees_map)
qed

subsection \<open>Cutting output into writes\<close>

lemma unrevised_bump [simp]: "unrevised (bump n t) = unrevised t"
  by (simp add: unrevised_def bump_def)

lemma bump_unrevised: "bump (tm_revision t) (unrevised t) = t"
  by (simp add: unrevised_def bump_def)

lemma events_unrevised:
  "unrevised t = unrevised t' \<Longrightarrow>
     map_option unrevised (for_each es (handle sw) t) = map_option unrevised (for_each es (handle sw) t')"
  by (subst (1 2) bump_unrevised [symmetric]) (simp add: events_bump option.map_comp comp_def)

lemma apply_events_unrevised:
  "map_option unrevised (apply_events sw es t) = map_option unrevised (for_each es (handle sw) t)"
  by (cases "for_each es (handle sw) t") (simp_all add: apply_events_def unrevised_def)

lemma writes_unrevised:
  "unrevised t = unrevised t' \<Longrightarrow>
     map_option unrevised (for_each ess (apply_events sw) t) =
     map_option unrevised (for_each (concat ess) (handle sw) t')"
proof (induction ess arbitrary: t t')
  case (Cons es ess)
  have eq: "map_option unrevised (apply_events sw es t) = map_option unrevised (for_each es (handle sw) t')"
    using events_unrevised [OF Cons.prems] by (simp add: apply_events_unrevised)
  show ?case
    using eq Cons.IH
    by (cases "apply_events sw es t"; cases "for_each es (handle sw) t'") (auto simp: for_each_append)
qed simp

lemma writes_events:
  "\<exists>ess p'. parserWrite lib ap p (concat chunks) = (p', concat ess) \<and>
     (\<forall>t. for_each chunks (Write sw lib ap) (p, t) = map_option (Pair p') (for_each ess (apply_events sw) t))"
proof (induction chunks arbitrary: p)
  case Nil
  show ?case by (intro exI [of _ "[]"] exI [of _ p]) simp
next
  case (Cons xs chunks)
  obtain p1 es where 1: "parserWrite lib ap p xs = (p1, es)" by force
  obtain ess p2 where 2: "parserWrite lib ap p1 (concat chunks) = (p2, concat ess)"
      "\<And>t. for_each chunks (Write sw lib ap) (p1, t) = map_option (Pair p2) (for_each ess (apply_events sw) t)"
    using Cons.IH [of p1] by blast
  have "for_each (xs # chunks) (Write sw lib ap) (p, t) = map_option (Pair p2) (for_each (es # ess) (apply_events sw) t)" for t
    by (cases "apply_events sw es t") (simp_all add: Write_def 1 2)
  then show ?case
    using 1 2 by (intro exI [of _ "es # ess"] exI [of _ p2]) (simp add: parserWrite_append)
qed

text \<open>
  C3: Cutting the host's output into \<open>Write\<close> calls in another way changes nothing but the
  revision: any sequence of writes, even one cut inside an escape sequence or a character, leaves the
  same parser state, cells, cursors, modes, title and events as the whole output written at once (or
  panics if that does).
\<close>

theorem write_chunking:
  "map_option (apsnd unrevised) (for_each chunks (Write sw lib ap) s) =
     map_option (apsnd unrevised) (Write sw lib ap (concat chunks) s)"
proof -
  obtain p t where s: "s = (p, t)" by (cases s)
  obtain ess p' where e: "parserWrite lib ap p (concat chunks) = (p', concat ess)"
      "for_each chunks (Write sw lib ap) (p, t) = map_option (Pair p') (for_each ess (apply_events sw) t)"
    using writes_events by blast
  have "map_option unrevised (for_each ess (apply_events sw) t) =
      map_option unrevised (apply_events sw (concat ess) t)"
    by (simp add: writes_unrevised [of t t] apply_events_unrevised)
  then have "map_option (Pair p') (map_option unrevised (for_each ess (apply_events sw) t)) =
      map_option (Pair p') (map_option unrevised (apply_events sw (concat ess) t))"
    by simp
  then show ?thesis
    unfolding s e(2) Write_apply e(1) by (simp add: option.map_comp comp_def)
qed

subsection \<open>The main screen behind the alternate one\<close>

text \<open>The main screen's cells, cursor position and saved cursor, with the visibility it has in \<open>t\<close>.\<close>

definition with_main :: "screenBuffer \<Rightarrow> terminal \<Rightarrow> terminal" where
  "with_main b t =
     t\<lparr>tm_main := b\<lparr>buf_cursor := (buf_cursor b)\<lparr>cur_visible := cur_visible (buf_cursor (tm_main t))\<rparr>\<rparr>\<rparr>"

interpretation isolated: relabelling "with_main b" "\<lambda>w x. w = Alternate \<and> x"
  by unfold_locales
    (simp_all add: with_main_def changed_def active_buffer_def map_active_def show_cursor_def Let_def)

lemma with_main_self [simp]: "with_main (tm_main t) t = t"
  by (simp add: with_main_def)

lemma isolated_run:
  assumes "tm_active t = Alternate \<and> tm_xterm t" "\<forall>e \<in> set es. \<not> switches e" "for_each es (handle sw) t = Some u"
  shows "tm_active u = Alternate \<and> tm_xterm u \<and> u = with_main (tm_main t) u"
  using isolated.events_agree [OF assms(1,2), of "tm_main t" sw] assms(3) by simp

definition private_mode :: "bool \<Rightarrow> int \<Rightarrow> parser_event" where
  "private_mode enabled mode =
     CSI \<lparr>cmd_prefix = 0x3F, cmd_intermediate = 0, cmd_final = (if enabled then 0x68 else 0x6C)\<rparr>
       [\<lparr>par_value = mode, par_present = True, par_more = False\<rparr>]"

lemma enter_1049:
  assumes "well_formed t" "tm_xterm t" "tm_active t = Main"
  shows "\<exists>u. handle sw (private_mode True 1049) t = Some u \<and> tm_active u = Alternate \<and> tm_xterm u \<and>
     tm_main u = (tm_main t)\<lparr>buf_saved := buf_cursor (tm_main t)\<rparr>"
  using assms blankCells_screen [OF assms(1)]
  by (simp add: private_mode_def handleCSI_def setPrivateModes_def setPrivateMode_def setXTermPrivateMode_def
      ignoredPrivateMode_def enterAlternate_def changed_def)

lemma leave_1049:
  assumes "tm_xterm t" "tm_active t = Alternate"
  shows "\<exists>u. handle sw (private_mode False 1049) t = Some u \<and> tm_active u = Main \<and>
     tm_main u = (tm_main t)\<lparr>buf_cursor := (buf_saved (tm_main t))
       \<lparr>cur_visible := cur_visible (buf_cursor (tm_main t))\<rparr>\<rparr>"
  using assms
  by (simp add: private_mode_def handleCSI_def setPrivateModes_def setPrivateMode_def setXTermPrivateMode_def
      ignoredPrivateMode_def exitAlternate_def changed_def Let_def)

text \<open>
  C7: A program that enters the alternate screen with \<open>CSI ? 1049 h\<close> and leaves it with
  \<open>CSI ? 1049 l\<close> finds the main screen as it was: whatever it prints, erases, scrolls or sets in between,
  short of switching screens itself, and however its output is cut into writes, the cells and the
  cursor position of the main screen are restored.
\<close>

theorem alternate_isolated:
  assumes "reachable sw t" "tm_xterm t" "tm_active t = Main" "\<forall>e \<in> set es. event_ok e \<and> \<not> switches e"
    and "concat writes = private_mode True 1049 # es @ [private_mode False 1049]"
  shows "\<exists>u. for_each writes (apply_events sw) t = Some u \<and> tm_active u = Main \<and>
     cells u = cells t \<and> column u = column t \<and> cursor_row u = cursor_row t"
proof -
  have wf: "well_formed t" by (rule reachable_wf [OF assms(1)])
  obtain t1 where 1: "handle sw (private_mode True 1049) t = Some t1" "tm_active t1 = Alternate" "tm_xterm t1"
      "tm_main t1 = (tm_main t)\<lparr>buf_saved := buf_cursor (tm_main t)\<rparr>"
    using enter_1049 [OF wf assms(2,3), of sw] by blast
  have ok: "\<forall>e \<in> set es. event_ok e" "\<forall>e \<in> set es. \<not> switches e" "event_ok (private_mode True 1049)"
    using assms(4) by (auto simp: event_ok_def private_mode_def params_ok_def)
  have "safe (for_each (private_mode True 1049 # es) (handle sw) t) well_formed"
    using screen_machine.run_inv [of "private_mode True 1049 # es" t sw] wf ok by auto
  then obtain t2 where 2: "for_each es (handle sw) t1 = Some t2" using 1(1) by (auto simp: safe_ex)
  have 3: "tm_active t2 = Alternate" "tm_xterm t2" "t2 = with_main (tm_main t1) t2"
    using isolated_run [OF _ ok(2) 2] 1(2,3) by simp_all
  obtain u where u: "handle sw (private_mode False 1049) t2 = Some u" "tm_active u = Main"
      "tm_main u = (tm_main t2)\<lparr>buf_cursor := (buf_saved (tm_main t2))
        \<lparr>cur_visible := cur_visible (buf_cursor (tm_main t2))\<rparr>\<rparr>"
    using leave_1049 [OF 3(2,1), of sw] by blast
  have main: "buf_cells (tm_main t2) = buf_cells (tm_main t)" "buf_saved (tm_main t2) = buf_cursor (tm_main t)"
    by (subst 3(3), simp add: with_main_def 1(4))+
  have "for_each (concat writes) (handle sw) t = Some u"
    using 1(1) 2 u(1) by (simp add: assms(5) for_each_append)
  then have "map_option unrevised (for_each writes (apply_events sw) t) = Some (unrevised u)"
    using writes_unrevised [of t t writes sw] by simp
  then obtain v where v: "for_each writes (apply_events sw) t = Some v" "unrevised v = unrevised u" by auto
  have "tm_active v = tm_active u" "tm_main v = tm_main u"
    using arg_cong [OF v(2), of tm_active] arg_cong [OF v(2), of tm_main] by (simp_all add: unrevised_def)
  then show ?thesis
    using v(1) u(2,3) main assms(3) by (simp add: cells_def column_def cursor_row_def cursor_of_def active_buffer_def)
qed

lemma t32_screen: "tm_xterm t32" "tm_active t32 = Main"
  by (simp_all add: t32_def New_def profileSettings_def Let_def blankCells_in maxCells_def)

theorem alternate_isolated_witness:
  "\<exists>u. for_each [[private_mode True 1049, Print 0x41], [Execute 0x0A, private_mode False 1049]]
      (apply_events (\<lambda>_. 1)) t32 = Some u \<and> cells u = cells t32"
  using alternate_isolated [OF reachable_t32 t32_screen, of "[Print 0x41, Execute 0x0A]"
      "[[private_mode True 1049, Print 0x41], [Execute 0x0A, private_mode False 1049]]" "\<lambda>_. 1"]
    by (auto simp: event_ok_def switches_def)

end
