(* ===== verification/Terminal_Props.thy ===== *)
theory Terminal_Props
  imports Terminal_Life
begin

text \<open>
  What the screen shows: the text a host prints on a line, the line operations (line feed at the bottom
  of the scroll region, \<open>IL\<close>, \<open>DL\<close>) and a resize, each as a function of the screen before. \<open>rows_ok\<close>
  says that no wide character of the screen is cut.
\<close>

subsection \<open>Text on one line\<close>

text \<open>
  The row after the cells \<open>xs\<close> of width 1 are written from column \<open>c\<close> on: a wide character cut at either
  end of the text is blanked, every other cell is kept.
\<close>

definition typed_line :: "cell \<Rightarrow> cell list \<Rightarrow> nat \<Rightarrow> cell list \<Rightarrow> cell list" where
  "typed_line blank line c xs =
     map (\<lambda>i. if c \<le> i \<and> i < c + length xs then xs ! (i - c)
              else if i + 1 = c \<and> cell_width (line ! i) = 2 \<or> i = c + length xs \<and> cell_width (line ! i) = 0
              then blank else line ! i) [0..<length line]"

lemma length_typed_line [simp]: "length (typed_line blank line c xs) = length line"
  by (simp add: typed_line_def)

lemma nth_clear_wide:
  assumes "c < length line" "i < length line" "i \<noteq> c"
  shows "clear_wide blank c line ! i =
     (if i + 1 = c \<and> cell_width (line ! c) = 0 \<and> cell_width (line ! i) = 2 \<or>
         i = c + 1 \<and> cell_width (line ! c) = 2 \<and> cell_width (line ! i) = 0
      then blank else line ! i)"
proof -
  have "c - 1 = i \<longleftrightarrow> i + 1 = c" if "0 < c" using that by linarith
  then show ?thesis using assms by (auto simp: clear_wide_def nth_list_update)
qed

lemma put_line_typed:
  assumes "row_ok line" "c < length line"
  shows "put_line blank x y 1 c line = typed_line blank line c [x]"
proof (rule nth_equalityI)
  fix i assume "i < length (put_line blank x y 1 c line)"
  then have i: "i < length line" by simp
  show "put_line blank x y 1 c line ! i = typed_line blank line c [x] ! i"
  proof (cases "i = c")
    case True
    then show ?thesis using i by (simp add: put_line_def typed_line_def)
  next
    case False
    have a: "i = c + 1 \<Longrightarrow> cell_width (line ! i) = 0 \<Longrightarrow> cell_width (line ! c) = 2"
      using row_okD(2) [OF assms(1) i] by simp
    have b: "i + 1 = c \<Longrightarrow> cell_width (line ! i) = 2 \<Longrightarrow> cell_width (line ! c) = 0"
      using row_okD(4) [OF assms(1) i] by simp
    have "put_line blank x y 1 c line ! i = clear_wide blank c line ! i"
      using False by (simp add: put_line_def)
    also have "\<dots> = (if i + 1 = c \<and> cell_width (line ! i) = 2 \<or> i = c + 1 \<and> cell_width (line ! i) = 0
        then blank else line ! i)"
      unfolding nth_clear_wide [OF assms(2) i False] using a b by (rule_tac if_cong) blast+
    also have "\<dots> = typed_line blank line c [x] ! i"
      using False i by (auto simp: typed_line_def)
    finally show ?thesis .
  qed
qed simp

lemma typed_line_snoc:
  assumes "xs \<noteq> []" "\<forall>x \<in> set xs. cell_width x = 1"
  shows "typed_line blank (typed_line blank line c xs) (c + length xs) [x] = typed_line blank line c (xs @ [x])"
proof (rule nth_equalityI)
  fix i assume i: "i < length (typed_line blank (typed_line blank line c xs) (c + length xs) [x])"
  have "cell_width (xs ! (i - c)) = 1" if "c \<le> i" "i < c + length xs"
    using assms(2) nth_mem [of "i - c" xs] that by simp
  then show "typed_line blank (typed_line blank line c xs) (c + length xs) [x] ! i = typed_line blank line c (xs @ [x]) ! i"
    using i assms(1) by (auto simp: typed_line_def nth_append)
qed simp

text \<open>A terminal on which the text of width 1 \<open>rs\<close> appears as it is: no insertion, no line drawing.\<close>

definition plain_text :: "(string \<Rightarrow> int) \<Rightarrow> rune list \<Rightarrow> terminal \<Rightarrow> bool" where
  "plain_text sw rs t \<longleftrightarrow> \<not> tm_insert_mode t \<and> current_charset t = Some False \<and>
     (\<forall>r \<in> set rs. rune_width sw t r = 1)"

lemma print_plain:
  assumes wf: "well_formed t" and ok: "rows_ok t" and plain: "plain_text sw [r] t" and w: "\<not> tm_wrap_pending t"
  shows "\<exists>s. print sw r t = Some (changed (advance (column t) 1 s)) \<and>
     rows_become t ((rows t)(cursor_row t :=
       typed_line (blankCell t) (rows t (cursor_row t)) (nat (column t)) [style_cell t (rune_string r) 1])) s"
proof -
  have b: "0 \<le> column t" "column t < tm_width t" "0 \<le> cursor_row t" "cursor_row t < tm_height t"
    using bounds [OF wf] by auto
  have "print sw r t = put_character r 1 t"
    using plain w b by (simp add: print_def plain_text_def wrap_before_def)
  moreover have "row_ok (rows t (cursor_row t))" using ok b by (simp add: rows_ok_def)
  moreover have "nat (column t) < length (rows t (cursor_row t))" using b row_current(2) [OF wf] by linarith
  ultimately show ?thesis
    using put_character_rows [OF wf, of 1 r] b
    by (auto simp: safe_ex put_line_typed)
qed

definition same_settings :: "terminal \<Rightarrow> terminal \<Rightarrow> bool" where
  "same_settings t u \<longleftrightarrow> tm_width u = tm_width t \<and> tm_height u = tm_height t \<and> tm_style u = tm_style t \<and>
     tm_insert_mode u = tm_insert_mode t \<and> tm_charsets u = tm_charsets t \<and> tm_charset u = tm_charset t \<and>
     tm_xterm u = tm_xterm t \<and> tm_auto_wrap u = tm_auto_wrap t"

lemma charsets_simps [simp]:
  "tm_charsets (set_cells cs t) = tm_charsets t" "tm_charsets (set_column i t) = tm_charsets t"
  "tm_charsets (changed t) = tm_charsets t" "tm_charset (changed t) = tm_charset t"
  "tm_charset (set_column i t) = tm_charset t" "tm_wrap_pending (set_column i t) = tm_wrap_pending t"
  "tm_wrap_pending (changed t) = tm_wrap_pending t"
  by (simp_all add: set_cells_def set_column_def set_cursor_def changed_def map_active_def split: which.splits)

lemma same_settings_trans: "same_settings t u \<Longrightarrow> same_settings u v \<Longrightarrow> same_settings t v"
  by (simp add: same_settings_def)

lemma same_settings_eq:
  assumes "same_settings t u"
  shows "plain_text sw rs u = plain_text sw rs t" "blankCell u = blankCell t" "style_cell u s w = style_cell t s w"
  using assms by (simp_all add: same_settings_def plain_text_def current_charset_def rune_width_def blankCell_def
      style_cell_def)

text \<open>The terminal \<open>u\<close> after the text \<open>rs\<close> on the line of \<open>t\<close>'s cursor.\<close>

definition typed_text :: "terminal \<Rightarrow> rune list \<Rightarrow> terminal \<Rightarrow> bool" where
  "typed_text t rs u \<longleftrightarrow> same_settings t u \<and> cursor_row u = cursor_row t \<and>
     (\<forall>i. 0 \<le> i \<and> i < tm_height t \<longrightarrow> rows u i =
        (if i = cursor_row t
         then typed_line (blankCell t) (rows t i) (nat (column t)) (map (\<lambda>r. style_cell t (rune_string r) 1) rs)
         else rows t i)) \<and>
     (if column t + int (length rs) < tm_width t
      then column u = column t + int (length rs) \<and> \<not> tm_wrap_pending u
      else column u = tm_width t - 1 \<and> tm_wrap_pending u = tm_auto_wrap t)"

lemma print_typed:
  assumes "well_formed t" "rows_ok t" "plain_text sw [r] t" "\<not> tm_wrap_pending t"
  shows "\<exists>u. print sw r t = Some u \<and> well_formed u \<and> rows_ok u \<and> typed_text t [r] u"
proof -
  obtain s where s: "print sw r t = Some (changed (advance (column t) 1 s))"
      "rows_become t ((rows t)(cursor_row t :=
         typed_line (blankCell t) (rows t (cursor_row t)) (nat (column t)) [style_cell t (rune_string r) 1])) s"
    using print_plain [OF assms] by blast
  let ?u = "changed (advance (column t) 1 s)"
  have w: "column t < tm_width t" using bounds [OF assms(1)] by simp
  note fr = rows_becomeD(1-3) [OF s(2)]
  have same: "tm_auto_wrap s = tm_auto_wrap t" "tm_wrap_pending s = tm_wrap_pending t" "same_settings t s"
    using s(2) by (auto simp: rows_become_def same_settings_def)
  have "same_settings t ?u" using same(3) by (simp add: same_settings_def advance_def)
  moreover have "keeps t ?u" using print_keeps [OF assms(1), of sw r] s(1) by simp
  moreover have "rows ?u i = rows s i" for i by (simp add: advance_def)
  moreover have "cursor_row s = cursor_row t" using fr(3) by (simp add: cursor_row_def)
  then have "cursor_row ?u = cursor_row t" "if column t + 1 < tm_width t
      then column ?u = column t + 1 \<and> \<not> tm_wrap_pending ?u
      else column ?u = tm_width t - 1 \<and> tm_wrap_pending ?u = tm_auto_wrap t"
    using fr(1) same assms(4) w by (simp_all add: advance_def)
  ultimately show ?thesis
    using s(1) assms(2) rows_become_rows [OF s(2)]
    by (auto simp: typed_text_def keeps_def)
qed

lemma typed_text_snoc:
  assumes "well_formed t" "rs \<noteq> []" "typed_text t rs u" "typed_text u [r] v"
    "column t + int (length rs) < tm_width t"
  shows "typed_text t (rs @ [r]) v"
proof -
  define xs where "xs = map (\<lambda>r. style_cell t (rune_string r) 1) rs"
  have u: "same_settings t u" "cursor_row u = cursor_row t" "column u = column t + int (length rs)"
    using assms(3,5) by (simp_all add: typed_text_def)
  have wh: "tm_width u = tm_width t" "tm_height u = tm_height t" "tm_auto_wrap u = tm_auto_wrap t"
    using u(1) by (simp_all add: same_settings_def)
  have v: "same_settings t v" using u(1) assms(4) by (auto simp: typed_text_def intro: same_settings_trans)
  have xs: "xs \<noteq> []" "\<forall>x \<in> set xs. cell_width x = 1" using assms(2) by (auto simp: xs_def style_cell_def)
  have n: "nat (column u) = nat (column t) + length xs"
    using u(3) bounds [OF assms(1)] by (simp add: xs_def nat_add_distrib)
  have "rows v i = (if i = cursor_row t
         then typed_line (blankCell t) (rows t i) (nat (column t)) (xs @ [style_cell t (rune_string r) 1])
         else rows t i)" if i: "0 \<le> i" "i < tm_height t" for i
    using assms(3,4) i xs n u wh same_settings_eq [OF u(1)]
    by (simp add: typed_text_def xs_def [symmetric] typed_line_snoc)
  moreover have "if column t + int (length (rs @ [r])) < tm_width t
      then column v = column t + int (length (rs @ [r])) \<and> \<not> tm_wrap_pending v
      else column v = tm_width t - 1 \<and> tm_wrap_pending v = tm_auto_wrap t"
    using assms(4) u(3) wh by (simp add: typed_text_def add.assoc)
  ultimately show ?thesis
    using v assms(4) u(2) by (simp add: typed_text_def xs_def)
qed

lemma text_typed:
  assumes "rs \<noteq> []"
  shows "well_formed t \<Longrightarrow> rows_ok t \<Longrightarrow> plain_text sw rs t \<Longrightarrow> \<not> tm_wrap_pending t \<Longrightarrow>
     column t + int (length rs) \<le> tm_width t \<Longrightarrow>
     \<exists>u. for_each (map Print rs) (handle sw) t = Some u \<and> well_formed u \<and> rows_ok u \<and> typed_text t rs u"
  using assms
proof (induction rs rule: rev_nonempty_induct)
  case (single r)
  then show ?case using print_typed [of t sw r] by (simp only: list.map for_each.simps) simp
next
  case (snoc r rs)
  have "plain_text sw rs t" "plain_text sw [r] t" using snoc.prems(3) by (auto simp: plain_text_def)
  then obtain u where u: "for_each (map Print rs) (handle sw) t = Some u" "well_formed u" "rows_ok u" "typed_text t rs u"
    using snoc.IH snoc.prems by auto
  have col: "column u = column t + int (length rs)" "\<not> tm_wrap_pending u"
    using u(4) snoc.prems(5) by (simp_all add: typed_text_def)
  have settings: "same_settings t u" using u(4) by (simp add: typed_text_def)
  obtain v where v: "print sw r u = Some v" "well_formed v" "rows_ok v" "typed_text u [r] v"
    using print_typed [OF u(2,3) _ col(2), of sw r] same_settings_eq(1) [OF settings] \<open>plain_text sw [r] t\<close> by blast
  have "typed_text t (rs @ [r]) v"
    using typed_text_snoc [OF snoc.prems(1) snoc.hyps u(4) v(4)] snoc.prems(5) by simp
  then show ?case using u(1) v by (simp add: for_each_append)
qed

text \<open>
  C4: Text of single-width characters that fits the line appears exactly where the
  cursor stood, in the current style: the cells it covers hold its characters, a wide character it
  cuts at either end is blanked, every other cell of the screen is unchanged, the cursor is behind the
  text, and on reaching the last column it stays there with the wrap pending.
\<close>

theorem printed_text_exact:
  assumes "reachable sw t" "rows_ok t" "plain_text sw rs t" "\<not> tm_wrap_pending t"
    "rs \<noteq> []" "column t + int (length rs) \<le> tm_width t"
  shows "\<exists>u. apply_events sw (map Print rs) t = Some u \<and> rows_ok u \<and> cursor_row u = cursor_row t \<and>
     (\<forall>i. 0 \<le> i \<and> i < tm_height t \<longrightarrow> rows u i =
        (if i = cursor_row t
         then typed_line (blankCell t) (rows t i) (nat (column t)) (map (\<lambda>r. style_cell t (rune_string r) 1) rs)
         else rows t i)) \<and>
     (if column t + int (length rs) < tm_width t
      then column u = column t + int (length rs) \<and> \<not> tm_wrap_pending u
      else column u = tm_width t - 1 \<and> tm_wrap_pending u = tm_auto_wrap t)"
proof -
  obtain u where u: "for_each (map Print rs) (handle sw) t = Some u" "well_formed u" "rows_ok u" "typed_text t rs u"
    using text_typed [OF assms(5) reachable_wf [OF assms(1)] assms(2-4,6)] by blast
  have "rows_ok (u\<lparr>tm_revision := n\<rparr>) = rows_ok u" for n by (simp add: rows_ok_def)
  then show ?thesis
    using u(1,3,4) by (auto simp: apply_events_def typed_text_def)
qed

lemma rows_t32: "i = 0 \<or> i = 1 \<Longrightarrow> rows t32 i = replicate 3 defaultCell"
  by (auto simp: t32_def New_def profileSettings_def Let_def blankCells_in maxCells_def cells_def
      active_buffer_def row_of_def blankCell_def defaultCell_def)

lemma rows_ok_t32: "rows_ok t32"
proof -
  have "row_ok (replicate 3 defaultCell)" by (simp add: row_ok_def paired_def defaultCell_def)
  moreover have "tm_height t32 = 2"
    by (simp add: t32_def New_def profileSettings_def Let_def blankCells_in maxCells_def)
  moreover have "i = 0 \<or> i = 1" if "0 \<le> i" "i < 2" for i :: int using that by linarith
  ultimately show ?thesis using rows_t32 by (metis rows_ok_def)
qed

theorem printed_text_exact_witness:
  "\<exists>u. apply_events (\<lambda>_. 1) (map Print [0x41, 0x42]) t32 = Some u \<and> column u = 2 \<and>
     map cell_text (rows u 0) = [''A'', ''B'', '' '']"
proof -
  have t: "plain_text (\<lambda>_. 1) [0x41, 0x42] t32" "\<not> tm_wrap_pending t32" "column t32 = 0"
      "cursor_row t32 = 0" "tm_width t32 = 3" "tm_height t32 = 2"
    by (simp_all add: t32_def New_def profileSettings_def Let_def blankCells_in maxCells_def plain_text_def
        column_def cursor_row_def cursor_of_def active_buffer_def visible_cursor_def current_charset_def rune_width_def)
  have "rune_string 0x41 = ''A''" "rune_string 0x42 = ''B''" by code_simp+
  moreover have "[0..<3] = [0, 1, 2::nat]" by (simp add: upt_rec)
  ultimately show ?thesis
    using printed_text_exact [OF reachable_t32 rows_ok_t32 t(1,2)] t(3-) rows_t32 [of 0]
    by (auto simp: typed_line_def style_cell_def defaultCell_def)
qed

text \<open>
  Erasing does not keep wide characters whole: \<open>CSI K\<close> with the cursor on the continuation of a wide
  character blanks the continuation and leaves the wide cell without its partner.
\<close>

lemma erase_cuts_wide_character:
  assumes "well_formed t" "0 < column t"
  defines "at \<equiv> nat (cursor_row t * tm_width t + column t)"
  assumes "cell_width (cells t ! (at - 1)) = 2"
  shows "\<exists>u. eraseLine 0 t = Some u \<and> cell_width (cells u ! (at - 1)) = 2 \<and> cell_width (cells u ! at) = 1"
proof -
  note b = cursor_index [OF assms(1)] bounds [OF assms(1)]
  have at: "int at = cursor_row t * tm_width t + column t" "at < length (cells t)" "0 < at"
    using b(1,3) assms(2) unfolding at_def by linarith+
  obtain u where u: "eraseLine 0 t = Some u" "blanked t (int at) (cursor_row t * tm_width t + tm_width t) u"
    using eraseLine_blanked [OF assms(1), of 0] by (auto simp: safe_ex erase_line_range_def at(1) Let_def)
  moreover have "int at < cursor_row t * tm_width t + tm_width t" "\<not> int at \<le> int (at - 1)"
    using at(1,3) wf_cursor [OF assms(1)] by (simp_all add: column_def)
  ultimately show ?thesis using at(2,3) assms(4) by (auto simp: blanked_def)
qed

subsection \<open>Lines\<close>

definition csi :: "byte \<Rightarrow> parameter list \<Rightarrow> parser_event" where
  "csi final ps = CSI \<lparr>cmd_prefix = 0, cmd_intermediate = 0, cmd_final = final\<rparr> ps"

lemma rows_revision [simp]: "rows (u\<lparr>tm_revision := n\<rparr>) i = rows u i"
  by simp

lemma edit_event:
  assumes "safe (handle sw e t) (rows_edited t f)"
  shows "\<exists>u. apply_events sw [e] t = Some u \<and> cursor_of u = cursor_of t \<and>
     (\<forall>i. 0 \<le> i \<and> i < tm_height t \<longrightarrow> rows u i = f i)"
proof -
  obtain u where "handle sw e t = Some u" "rows_edited t f u" using assms by (auto simp: safe_ex)
  then show ?thesis
    using rows_edited_rows [of t f u] rows_edited_frame [of t f u] by (auto simp: apply_events_def)
qed

text \<open>
  C5: With the cursor inside the scroll region, a line feed on its last line moves
  the region's rows up by one, \<open>CSI n L\<close> moves the rows from the cursor to the region's end down by \<open>n\<close>
  and \<open>CSI n M\<close> moves them up, at most to the end of the region; blank rows in the current style enter,
  every row outside the moved range and the cursor stay.
\<close>

theorem line_operations_exact:
  assumes "reachable sw t" "tm_scroll_top t \<le> cursor_row t" "cursor_row t \<le> tm_scroll_bottom t"
  defines "n \<equiv> \<lambda>ps. min (max 1 (param ps 0 1)) (tm_scroll_bottom t - cursor_row t + 1)"
  shows "(cursor_row t = tm_scroll_bottom t \<longrightarrow>
       (\<exists>u. apply_events sw [Execute 0x0A] t = Some u \<and> cursor_of u = cursor_of t \<and>
          (\<forall>i. 0 \<le> i \<and> i < tm_height t \<longrightarrow>
             rows u i = shift_up (tm_scroll_top t) (tm_scroll_bottom t) 1 (blank_row t) (rows t) i))) \<and>
     (\<exists>u. apply_events sw [csi 0x4C ps] t = Some u \<and> cursor_of u = cursor_of t \<and>
        (\<forall>i. 0 \<le> i \<and> i < tm_height t \<longrightarrow>
           rows u i = shift_down (cursor_row t) (tm_scroll_bottom t) (n ps) (blank_row t) (rows t) i)) \<and>
     (\<exists>u. apply_events sw [csi 0x4D ps] t = Some u \<and> cursor_of u = cursor_of t \<and>
        (\<forall>i. 0 \<le> i \<and> i < tm_height t \<longrightarrow>
           rows u i = shift_up (cursor_row t) (tm_scroll_bottom t) (n ps) (blank_row t) (rows t) i))"
proof (intro conjI impI)
  note wf = reachable_wf [OF assms(1)]
  show "\<exists>u. apply_events sw [csi 0x4C ps] t = Some u \<and> cursor_of u = cursor_of t \<and>
        (\<forall>i. 0 \<le> i \<and> i < tm_height t \<longrightarrow>
           rows u i = shift_down (cursor_row t) (tm_scroll_bottom t) (n ps) (blank_row t) (rows t) i)"
    using insertLines_rows [OF wf assms(2,3), of "param ps 0 1"]
    by (intro edit_event) (simp add: csi_def handleCSI_def n_def)
  show "\<exists>u. apply_events sw [csi 0x4D ps] t = Some u \<and> cursor_of u = cursor_of t \<and>
        (\<forall>i. 0 \<le> i \<and> i < tm_height t \<longrightarrow>
           rows u i = shift_up (cursor_row t) (tm_scroll_bottom t) (n ps) (blank_row t) (rows t) i)"
    using deleteLines_rows [OF wf assms(2,3), of "param ps 0 1"]
    by (intro edit_event) (simp add: csi_def handleCSI_def n_def)
  assume bottom: "cursor_row t = tm_scroll_bottom t"
  obtain s where s: "scrollUp t = Some s"
      "rows_become t (shift_up (tm_scroll_top t) (tm_scroll_bottom t) 1 (blank_row t) (rows t)) s"
    using scrollUp_rows [OF wf] by (auto simp: safe_ex)
  then show "\<exists>u. apply_events sw [Execute 0x0A] t = Some u \<and> cursor_of u = cursor_of t \<and>
          (\<forall>i. 0 \<le> i \<and> i < tm_height t \<longrightarrow>
             rows u i = shift_up (tm_scroll_top t) (tm_scroll_bottom t) 1 (blank_row t) (rows t) i)"
    using bottom rows_become_rows [OF s(2)] rows_becomeD(1,3) [OF s(2)]
    by (simp add: apply_events_def execute_def lineFeed_def)
qed

theorem line_operations_exact_witness:
  "\<exists>u. apply_events (\<lambda>_. 1) [csi 0x4C []] t32 = Some u \<and> cursor_of u = cursor_of t32"
proof -
  have "tm_scroll_top t32 \<le> cursor_row t32" "cursor_row t32 \<le> tm_scroll_bottom t32"
    by (simp_all add: t32_def New_def profileSettings_def Let_def blankCells_in maxCells_def
        cursor_row_def cursor_of_def active_buffer_def visible_cursor_def)
  then show ?thesis using line_operations_exact [OF reachable_t32, of "\<lambda>_. 1" "[]"] by blast
qed

subsection \<open>Resizing\<close>

lemma nth_resized_row:
  assumes ok: "row_ok old" and len: "int (length old) = tm_width t" and new: "0 < width" "c < nat width"
  shows "resized_row t width old ! c =
     (if int c < tm_width t \<and> \<not> (int c = width - 1 \<and> width < tm_width t \<and> cell_width (old ! c) = 2)
      then old ! c else blankCell t)"
proof -
  define k where "k = nat (min width (tm_width t))"
  define line where "line = take k old @ replicate (nat (width - min width (tm_width t))) (blankCell t)"
  have k: "k \<le> length old" "int k = min width (tm_width t)" using len new by (auto simp: k_def)
  have ll: "length line = nat width" using k new by (simp add: line_def nat_diff_distrib)
  have at: "line ! i = (if i < k then old ! i else blankCell t)" if "i < nat width" for i
    using that k by (auto simp: line_def nth_append)
  have e: "resized_row t width old ! c = (if paired line c then line ! c else blankCell t)"
    unfolding resized_row_def k_def [symmetric] line_def [symmetric] using new ll by simp
  show ?thesis
  proof (cases "c < k")
    case True
    then have c: "c < length old" "int c < tm_width t" using k by auto
    have "paired line c = (cell_width (old ! c) = 2 \<longrightarrow> c + 1 < k)"
    proof -
      have "cell_width (old ! c) = 0 \<longrightarrow> 0 < c \<and> cell_width (line ! (c - 1)) = 2"
        using row_okD(1,2) [OF ok c(1)] at [of "c - 1"] True new by auto
      moreover have "c + 1 < length line \<and> cell_width (line ! (c + 1)) = 0 \<longleftrightarrow> c + 1 < k" if "cell_width (old ! c) = 2"
        using row_okD(3,4) [OF ok c(1) that] at [of "c + 1"] k new that by (auto simp: ll split: if_splits)
      ultimately show ?thesis using at [OF new(2)] True by (auto simp: paired_def)
    qed
    moreover have "c + 1 < k \<longleftrightarrow> \<not> (int c = width - 1 \<and> width < tm_width t)" if "cell_width (old ! c) = 2"
      using row_okD(3) [OF ok c(1) that] k True len by auto
    ultimately show ?thesis using e at [OF new(2)] True c by auto
  next
    case False
    then have "\<not> int c < tm_width t" using k(2) new by auto
    then show ?thesis using e at [OF new(2)] False by simp
  qed
qed

text \<open>
  C6: A resize to any size of at most \<open>2 ^ 43\<close> cells (the longest slice \<open>make\<close> accepts) succeeds. The cells
  of the old screen that lie on the new one are unchanged, except that a wide character cut by the new right
  edge becomes a blank; the other cells are blank in the current style; no wide character is cut; the cursor is
  clamped into the new dimensions and the scroll region is the whole screen, unless the dimensions are the old
  ones, when nothing changes.
\<close>

theorem resize_keeps_overlap:
  assumes "reachable sw t" "rows_ok t" "dims_fit width height"
  shows "\<exists>u. Resize width height t = Some (Inr u) \<and> tm_width u = width \<and> tm_height u = height \<and> rows_ok u \<and>
     cursor_of u = clamp_cursor width height (cursor_of t) \<and>
     (\<forall>r c. 0 \<le> r \<and> r < height \<and> c < nat width \<longrightarrow> rows u r ! c =
        (if r < tm_height t \<and> int c < tm_width t \<and> \<not> (int c = width - 1 \<and> width < tm_width t \<and> cell_width (rows t r ! c) = 2)
         then rows t r ! c else blankCell t)) \<and>
     (width = tm_width t \<and> height = tm_height t \<longrightarrow> u = t) \<and>
     (\<not> (width = tm_width t \<and> height = tm_height t) \<longrightarrow>
        tm_scroll_top u = 0 \<and> tm_scroll_bottom u = height - 1 \<and> tm_revision u = tm_revision t + 1)"
proof -
  have wf: "well_formed t" by (rule reachable_wf [OF assms(1)])
  have pos: "0 < width" "0 < height" using assms(3) by (auto simp: dims_fit_def)
  have row: "int (length (rows t r)) = tm_width t" "row_ok (rows t r)" if "0 \<le> r" "r < tm_height t" for r
    using that assms(2) length_row_of(1) [OF wf_grid [OF wf]] by (auto simp: rows_ok_def)
  show ?thesis
  proof (cases "width = tm_width t \<and> height = tm_height t")
    case True
    moreover have "clamp_cursor width height (cursor_of t) = cursor_of t"
      using True bounds [OF wf] by (simp add: clamp_cursor_def column_def cursor_row_def)
    ultimately show ?thesis using assms pos by (auto simp: Resize_def)
  next
    case False
    obtain u where u: "Resize width height t = Some (Inr u)" "resized width height t u"
      using Resize_spec [OF wf assms(3) False] by (auto simp: safe_ex)
    have r: "rows u r = (if r < tm_height t then resized_row t width (rows t r)
        else replicate (nat width) (blankCell t))" if "0 \<le> r" "r < height" for r
      using u(2) that unfolding resized_def by blast
    have "row_ok (rows u r)" if "0 \<le> r" "r < height" for r
    proof -
      have "row_ok (resized_row t width (rows t r))" by (simp add: resized_row_def row_ok_normalized)
      moreover have "row_ok (replicate (nat width) (blankCell t))" by (simp add: row_ok_def paired_def)
      ultimately show ?thesis unfolding r [OF that] by simp
    qed
    then have "rows_ok u" using u(2) by (simp add: rows_ok_def resized_def)
    moreover have "rows u r ! c =
        (if r < tm_height t \<and> int c < tm_width t \<and> \<not> (int c = width - 1 \<and> width < tm_width t \<and> cell_width (rows t r ! c) = 2)
         then rows t r ! c else blankCell t)" if "0 \<le> r" "r < height" "c < nat width" for r c
      using r [OF that(1,2)] nth_resized_row [OF row(2,1) pos(1) that(3), of r] that by simp
    moreover have "tm_width u = width" "tm_height u = height" "tm_scroll_top u = 0" "tm_scroll_bottom u = height - 1"
        "tm_revision u = tm_revision t + 1" "cursor_of u = clamp_cursor width height (cursor_of t)"
      using u(2) unfolding resized_def by blast+
    ultimately show ?thesis using u(1) False by blast
  qed
qed

theorem resize_keeps_overlap_witness:
  "\<exists>u. Resize 2 3 t32 = Some (Inr u) \<and> tm_width u = 2 \<and> tm_height u = 3 \<and> rows_ok u"
  using resize_keeps_overlap [OF reachable_t32 rows_ok_t32, of 2 3] by (auto simp: dims_fit_def maxCells_def)

end
