(* ===== verification/Lifecycle.thy ===== *)
theory Lifecycle
  imports Prelude
begin

text \<open>
  The lifecycles the core server owns (\<open>server.go\<close>, \<open>connection.go\<close>, \<open>Session.Close\<close> and the end of
  \<open>readLoop\<close> in \<open>session.go\<close>): which transports, connections and sessions exist, and who closes them.
  Goroutines interleave, so this is a step relation. A goroutine is its stack of frames, one frame per
  call that is between two of its critical sections or blocked; a step is one critical section, one
  call into the transport, or the receipt from a channel. Terminal state and the values of errors
  are left out: they are the subject of the session theories.
\<close>

datatype frame =
    Dialing
  | Dialed nat
  | RejectOpener nat
  | ServerClosing "nat list"
  | ServerWaits
  | ConnClose nat
  | ConnClosing nat "nat list"
  | ConnFinishing nat
  | ConnRemoving nat
  | ConnWaits nat
  | OpeningSession nat
  | Opened nat nat
  | RejectStream nat
  | Starting nat
  | SessClose nat
  | SessClosing nat
  | SessWaits nat
  | Reading nat
  | Ending nat
  | Finishing nat
  | SessRemoving nat

record conn_life =
  cl_opener :: nat
  cl_sessions :: "nat set"
  cl_closed :: bool
  cl_done :: bool

record sess_life =
  sl_conn :: nat
  sl_closing :: bool
  sl_done :: bool

text \<open>
  \<open>lf_openers\<close> and \<open>lf_streams\<close> are the transports and streams that exist and have not been closed;
  \<open>lf_next_opener\<close> names the transports. Connections and sessions are known by their identifiers.
\<close>

record lifecycle =
  lf_closed :: bool
  lf_done :: bool
  lf_connections :: "nat set"
  lf_next_connection :: nat
  lf_next_session :: nat
  lf_conns :: "nat \<rightharpoonup> conn_life"
  lf_sessions :: "nat \<rightharpoonup> sess_life"
  lf_next_opener :: nat
  lf_openers :: "nat set"
  lf_streams :: "nat set"
  lf_threads :: "nat \<Rightarrow> frame list"

definition new_server :: lifecycle where
  "new_server =
     \<lparr>lf_closed = False, lf_done = False, lf_connections = {}, lf_next_connection = 0,
      lf_next_session = 0, lf_conns = Map.empty, lf_sessions = Map.empty, lf_next_opener = 0,
      lf_openers = {}, lf_streams = {}, lf_threads = (\<lambda>_. [])\<rparr>"

definition go :: "nat \<Rightarrow> frame list \<Rightarrow> lifecycle \<Rightarrow> lifecycle" where
  "go i fs \<sigma> = \<sigma>\<lparr>lf_threads := (lf_threads \<sigma>)(i := fs)\<rparr>"

definition put_conn :: "nat \<Rightarrow> conn_life \<Rightarrow> lifecycle \<Rightarrow> lifecycle" where
  "put_conn c k \<sigma> = \<sigma>\<lparr>lf_conns := (lf_conns \<sigma>)(c \<mapsto> k)\<rparr>"

definition put_sess :: "nat \<Rightarrow> sess_life \<Rightarrow> lifecycle \<Rightarrow> lifecycle" where
  "put_sess s l \<sigma> = \<sigma>\<lparr>lf_sessions := (lf_sessions \<sigma>)(s \<mapsto> l)\<rparr>"

text \<open>The effects of the critical sections on the registries.\<close>

definition add_connection :: "nat \<Rightarrow> nat \<Rightarrow> lifecycle \<Rightarrow> lifecycle" where
  "add_connection c opener \<sigma> =
     put_conn c \<lparr>cl_opener = opener, cl_sessions = {}, cl_closed = False, cl_done = False\<rparr>
       (\<sigma>\<lparr>lf_next_connection := c, lf_connections := insert c (lf_connections \<sigma>)\<rparr>)"

definition removeConnection :: "nat \<Rightarrow> lifecycle \<Rightarrow> lifecycle" where
  "removeConnection c \<sigma> = \<sigma>\<lparr>lf_connections := lf_connections \<sigma> - {c}\<rparr>"

definition add_session_to :: "nat \<Rightarrow> conn_life \<Rightarrow> nat \<Rightarrow> lifecycle \<Rightarrow> lifecycle" where
  "add_session_to c k s \<sigma> =
     put_sess s \<lparr>sl_conn = c, sl_closing = False, sl_done = False\<rparr>
       (put_conn c (k\<lparr>cl_sessions := insert s (cl_sessions k)\<rparr>) \<sigma>)"

definition removeSession :: "nat \<Rightarrow> conn_life \<Rightarrow> nat \<Rightarrow> lifecycle \<Rightarrow> lifecycle" where
  "removeSession c k s \<sigma> = put_conn c (k\<lparr>cl_sessions := cl_sessions k - {s}\<rparr>) \<sigma>"

definition close_opener :: "nat \<Rightarrow> lifecycle \<Rightarrow> lifecycle" where
  "close_opener opener \<sigma> = \<sigma>\<lparr>lf_openers := lf_openers \<sigma> - {opener}\<rparr>"

definition close_stream :: "nat \<Rightarrow> lifecycle \<Rightarrow> lifecycle" where
  "close_stream s \<sigma> = \<sigma>\<lparr>lf_streams := lf_streams \<sigma> - {s}\<rparr>"

subsection \<open>Calls\<close>

text \<open>
  A goroutine that is doing nothing may call into the server. \<open>Connect\<close> on a closed server and
  \<open>NewSession\<close> on a closed connection return an error at once and change nothing.
\<close>

inductive call_step :: "lifecycle \<Rightarrow> lifecycle \<Rightarrow> bool" where
  connect: "lf_threads \<sigma> i = [] \<Longrightarrow> \<not> lf_closed \<sigma> \<Longrightarrow> call_step \<sigma> (go i [Dialing] \<sigma>)"
| server_close:
    "lf_threads \<sigma> i = [] \<Longrightarrow> \<not> lf_closed \<sigma> \<Longrightarrow> set cs = lf_connections \<sigma> \<Longrightarrow>
       call_step \<sigma> (go i [ServerClosing cs] (\<sigma>\<lparr>lf_closed := True\<rparr>))"
| server_close_again:
    "lf_threads \<sigma> i = [] \<Longrightarrow> lf_closed \<sigma> \<Longrightarrow> call_step \<sigma> (go i [ServerWaits] \<sigma>)"
| conn_call:
    "lf_threads \<sigma> i = [] \<Longrightarrow> lf_conns \<sigma> c = Some k \<Longrightarrow> call_step \<sigma> (go i [ConnClose c] \<sigma>)"
| new_session:
    "lf_threads \<sigma> i = [] \<Longrightarrow> lf_conns \<sigma> c = Some k \<Longrightarrow> \<not> cl_closed k \<Longrightarrow>
       call_step \<sigma> (go i [OpeningSession c] \<sigma>)"
| sess_call:
    "lf_threads \<sigma> i = [] \<Longrightarrow> lf_sessions \<sigma> s = Some l \<Longrightarrow> call_step \<sigma> (go i [SessClose s] \<sigma>)"
| peer_ends: "lf_threads \<sigma> i = Reading s # fs \<Longrightarrow> call_step \<sigma> (go i (Ending s # fs) \<sigma>)"

subsection \<open>Steps of a call\<close>

inductive work_step :: "lifecycle \<Rightarrow> lifecycle \<Rightarrow> bool" where
  dial_fails: "lf_threads \<sigma> i = Dialing # fs \<Longrightarrow> work_step \<sigma> (go i fs \<sigma>)"
| dialed:
    "lf_threads \<sigma> i = Dialing # fs \<Longrightarrow> opener = lf_next_opener \<sigma> \<Longrightarrow>
       work_step \<sigma> (go i (Dialed opener # fs)
         (\<sigma>\<lparr>lf_openers := insert opener (lf_openers \<sigma>), lf_next_opener := opener + 1\<rparr>))"
| register:
    "lf_threads \<sigma> i = Dialed opener # fs \<Longrightarrow> \<not> lf_closed \<sigma> \<Longrightarrow> c = lf_next_connection \<sigma> + 1 \<Longrightarrow>
       work_step \<sigma> (go i fs (add_connection c opener \<sigma>))"
| register_refused:
    "lf_threads \<sigma> i = Dialed opener # fs \<Longrightarrow> lf_closed \<sigma> \<Longrightarrow> work_step \<sigma> (go i (RejectOpener opener # fs) \<sigma>)"
| reject_opener:
    "lf_threads \<sigma> i = RejectOpener opener # fs \<Longrightarrow>
       work_step \<sigma> (go i fs (close_opener opener \<sigma>))"
| server_next:
    "lf_threads \<sigma> i = ServerClosing (c # cs) # fs \<Longrightarrow>
       work_step \<sigma> (go i (ConnClose c # ServerClosing cs # fs) \<sigma>)"
| server_finish:
    "lf_threads \<sigma> i = ServerClosing [] # fs \<Longrightarrow> work_step \<sigma> (go i fs (\<sigma>\<lparr>lf_done := True\<rparr>))"
| server_woken: "lf_threads \<sigma> i = ServerWaits # fs \<Longrightarrow> lf_done \<sigma> \<Longrightarrow> work_step \<sigma> (go i fs \<sigma>)"
| conn_close:
    "lf_threads \<sigma> i = ConnClose c # fs \<Longrightarrow> lf_conns \<sigma> c = Some k \<Longrightarrow> \<not> cl_closed k \<Longrightarrow>
       set ss = cl_sessions k \<Longrightarrow>
       work_step \<sigma> (go i (ConnClosing c ss # fs) (put_conn c (k\<lparr>cl_closed := True\<rparr>) \<sigma>))"
| conn_close_again:
    "lf_threads \<sigma> i = ConnClose c # fs \<Longrightarrow> lf_conns \<sigma> c = Some k \<Longrightarrow> cl_closed k \<Longrightarrow>
       work_step \<sigma> (go i (ConnWaits c # fs) \<sigma>)"
| conn_woken:
    "lf_threads \<sigma> i = ConnWaits c # fs \<Longrightarrow> lf_conns \<sigma> c = Some k \<Longrightarrow> cl_done k \<Longrightarrow> work_step \<sigma> (go i fs \<sigma>)"
| conn_next:
    "lf_threads \<sigma> i = ConnClosing c (s # ss) # fs \<Longrightarrow>
       work_step \<sigma> (go i (SessClose s # ConnClosing c ss # fs) \<sigma>)"
| conn_opener:
    "lf_threads \<sigma> i = ConnClosing c [] # fs \<Longrightarrow> lf_conns \<sigma> c = Some k \<Longrightarrow>
       work_step \<sigma> (go i (ConnFinishing c # fs) (close_opener (cl_opener k) \<sigma>))"
| conn_finish:
    "lf_threads \<sigma> i = ConnFinishing c # fs \<Longrightarrow> lf_conns \<sigma> c = Some k \<Longrightarrow>
       work_step \<sigma> (go i (ConnRemoving c # fs) (put_conn c (k\<lparr>cl_done := True\<rparr>) \<sigma>))"
| conn_remove:
    "lf_threads \<sigma> i = ConnRemoving c # fs \<Longrightarrow>
       work_step \<sigma> (go i fs (removeConnection c \<sigma>))"
| open_fails: "lf_threads \<sigma> i = OpeningSession c # fs \<Longrightarrow> work_step \<sigma> (go i fs \<sigma>)"
| opened:
    "lf_threads \<sigma> i = OpeningSession c # fs \<Longrightarrow> s = lf_next_session \<sigma> + 1 \<Longrightarrow>
       work_step \<sigma> (go i (Opened c s # fs)
         (\<sigma>\<lparr>lf_next_session := s, lf_streams := insert s (lf_streams \<sigma>)\<rparr>))"
| add_session:
    "lf_threads \<sigma> i = Opened c s # fs \<Longrightarrow> lf_conns \<sigma> c = Some k \<Longrightarrow> \<not> cl_closed k \<Longrightarrow>
       work_step \<sigma> (go i (Starting s # fs) (add_session_to c k s \<sigma>))"
| add_refused:
    "lf_threads \<sigma> i = Opened c s # fs \<Longrightarrow> lf_conns \<sigma> c = Some k \<Longrightarrow> cl_closed k \<Longrightarrow>
       work_step \<sigma> (go i (RejectStream s # fs) \<sigma>)"
| reject_stream:
    "lf_threads \<sigma> i = RejectStream s # fs \<Longrightarrow>
       work_step \<sigma> (go i fs (close_stream s \<sigma>))"
| start:
    "lf_threads \<sigma> i = Starting s # fs \<Longrightarrow> lf_threads \<sigma> j = [] \<Longrightarrow>
       work_step \<sigma> (go j [Reading s] (go i fs \<sigma>))"
| sess_close:
    "lf_threads \<sigma> i = SessClose s # fs \<Longrightarrow> lf_sessions \<sigma> s = Some l \<Longrightarrow> \<not> sl_closing l \<Longrightarrow>
       work_step \<sigma> (go i (SessClosing s # fs) (put_sess s (l\<lparr>sl_closing := True\<rparr>) \<sigma>))"
| sess_close_again:
    "lf_threads \<sigma> i = SessClose s # fs \<Longrightarrow> lf_sessions \<sigma> s = Some l \<Longrightarrow> sl_closing l \<Longrightarrow>
       work_step \<sigma> (go i (SessWaits s # fs) \<sigma>)"
| sess_stream:
    "lf_threads \<sigma> i = SessClosing s # fs \<Longrightarrow>
       work_step \<sigma> (go i (SessWaits s # fs) (close_stream s \<sigma>))"
| sess_woken:
    "lf_threads \<sigma> i = SessWaits s # fs \<Longrightarrow> lf_sessions \<sigma> s = Some l \<Longrightarrow> sl_done l \<Longrightarrow>
       work_step \<sigma> (go i fs \<sigma>)"
| read_unblocked:
    "lf_threads \<sigma> i = Reading s # fs \<Longrightarrow> s \<notin> lf_streams \<sigma> \<Longrightarrow> work_step \<sigma> (go i (Ending s # fs) \<sigma>)"
| end_stream:
    "lf_threads \<sigma> i = Ending s # fs \<Longrightarrow>
       work_step \<sigma> (go i (Finishing s # fs) (close_stream s \<sigma>))"
| sess_finish:
    "lf_threads \<sigma> i = Finishing s # fs \<Longrightarrow> lf_sessions \<sigma> s = Some l \<Longrightarrow>
       work_step \<sigma> (go i (SessRemoving s # fs) (put_sess s (l\<lparr>sl_done := True\<rparr>) \<sigma>))"
| sess_remove:
    "lf_threads \<sigma> i = SessRemoving s # fs \<Longrightarrow> lf_sessions \<sigma> s = Some l \<Longrightarrow> lf_conns \<sigma> (sl_conn l) = Some k \<Longrightarrow>
       work_step \<sigma> (go i fs (removeSession (sl_conn l) k s \<sigma>))"

inductive live :: "lifecycle \<Rightarrow> bool" where
  start_server: "live new_server"
| call: "live \<sigma> \<Longrightarrow> call_step \<sigma> \<tau> \<Longrightarrow> live \<tau>"
| work: "live \<sigma> \<Longrightarrow> work_step \<sigma> \<tau> \<Longrightarrow> live \<tau>"

end
