(* ===== verification/Lifecycle_Inv.thy ===== *)
theory Lifecycle_Inv
  imports Lifecycle
begin

text \<open>
  The invariant of the lifecycles: what every frame of every goroutine knows and owes, and where each
  open transport and stream is accounted for.
\<close>

subsection \<open>Stacks\<close>

fun on_conn :: "nat \<Rightarrow> frame \<Rightarrow> bool" where
  "on_conn c (ConnClose d) = (c = d)"
| "on_conn c (ConnClosing d ss) = (c = d)"
| "on_conn c (ConnFinishing d) = (c = d)"
| "on_conn c (ConnWaits d) = (c = d)"
| "on_conn c _ = False"

fun on_sess :: "nat \<Rightarrow> frame \<Rightarrow> bool" where
  "on_sess s (SessClose d) = (s = d)"
| "on_sess s (SessClosing d) = (s = d)"
| "on_sess s (SessWaits d) = (s = d)"
| "on_sess s _ = False"

fun nested :: "frame \<Rightarrow> frame \<Rightarrow> bool" where
  "nested f (ServerClosing cs) = (\<exists>c. on_conn c f \<or> f = ConnRemoving c)"
| "nested f (ConnClosing c ss) = (\<exists>s. on_sess s f)"
| "nested f _ = False"

fun shape :: "frame list \<Rightarrow> bool" where
  "shape [] = True"
| "shape [f] = True"
| "shape (f # g # fs) = (nested f g \<and> shape (g # fs))"

lemma shape_tl: "shape (f # fs) \<Longrightarrow> shape fs"
  by (cases fs) auto

lemma shape_pop: "shape (f # fs) \<Longrightarrow> (\<And>h. nested f h \<Longrightarrow> nested g h) \<Longrightarrow> shape (g # fs)"
  by (cases fs) auto

lemma shape_server: "shape (ServerClosing cs # fs) \<Longrightarrow> fs = []"
  by (cases fs rule: list.exhaust; cases "hd fs") auto

lemma shape_conn: "shape (ConnClosing c ss # fs) \<Longrightarrow> fs = [] \<or> (\<exists>cs. fs = [ServerClosing cs])"
proof (cases fs)
  case (Cons g gs)
  assume "shape (ConnClosing c ss # fs)"
  then have *: "nested (ConnClosing c ss) g" "shape (g # gs)" using Cons by auto
  then obtain cs where "g = ServerClosing cs" by (cases g) auto
  then show ?thesis using *(2) shape_server Cons by auto
qed simp

definition shapes :: "lifecycle \<Rightarrow> bool" where
  "shapes \<sigma> \<longleftrightarrow> (\<forall>i. shape (lf_threads \<sigma> i))"

named_theorems lifecycle

declare go_def [lifecycle] put_conn_def [lifecycle] put_sess_def [lifecycle] add_connection_def [lifecycle]
  removeConnection_def [lifecycle] add_session_to_def [lifecycle] removeSession_def [lifecycle]
  close_opener_def [lifecycle] close_stream_def [lifecycle]

lemma shapes_call: "call_step \<sigma> \<tau> \<Longrightarrow> shapes \<sigma> \<Longrightarrow> shapes \<tau>"
proof (induction rule: call_step.induct)
  case (peer_ends \<sigma> i s fs)
  then have "shape (Reading s # fs)" unfolding shapes_def by metis
  then have "shape (Ending s # fs)" by (rule shape_pop) (auto elim: nested.elims)
  then show ?case using peer_ends by (auto simp: shapes_def lifecycle)
qed (auto simp: shapes_def lifecycle)

lemma nested_simps:
  "nested f h \<longleftrightarrow> (\<exists>cs c. h = ServerClosing cs \<and> (on_conn c f \<or> f = ConnRemoving c)) \<or>
     (\<exists>c ss s. h = ConnClosing c ss \<and> on_sess s f)"
  by (cases h) auto

lemma shapes_work:
  assumes "work_step \<sigma> \<tau>" "shapes \<sigma>"
  shows "shapes \<tau>"
proof -
  have sh: "shape fs" if "lf_threads \<sigma> i = fs" for i fs using assms(2) that by (auto simp: shapes_def)
  have upd: "shapes (go i fs \<rho>)" if "shape fs" "lf_threads \<rho> = lf_threads \<sigma>" for i fs \<rho>
    using that assms(2) by (simp add: shapes_def go_def)
  have t: "lf_threads (put_conn c k \<rho>) = lf_threads \<rho>" "lf_threads (put_sess s l \<rho>) = lf_threads \<rho>"
    "lf_threads (add_connection c n \<rho>) = lf_threads \<rho>" "lf_threads (removeConnection c \<rho>) = lf_threads \<rho>"
    "lf_threads (add_session_to c k s \<rho>) = lf_threads \<rho>" "lf_threads (removeSession c k s \<rho>) = lf_threads \<rho>"
    "lf_threads (close_opener n \<rho>) = lf_threads \<rho>" "lf_threads (close_stream s \<rho>) = lf_threads \<rho>"
    for c k s l n \<rho>
    by (simp_all add: lifecycle)
  show ?thesis using assms(1)
  proof cases
    case (start i s fs j)
    have "shape fs" using shape_tl [OF sh [OF start(2)]] .
    then show ?thesis using start assms(2) by (auto simp: shapes_def lifecycle)
  next
    case (server_next i c cs fs)
    have "shape (ServerClosing cs # fs)" by (rule shape_pop [OF sh [OF server_next(2)]]) (simp add: nested_simps)
    then show ?thesis using server_next(1) by (auto intro!: upd)
  next
    case (conn_next i c s ss fs)
    have "shape (ConnClosing c ss # fs)" by (rule shape_pop [OF sh [OF conn_next(2)]]) (simp add: nested_simps)
    then show ?thesis using conn_next(1) by (auto intro!: upd)
  qed (auto intro!: upd simp: t nested_simps dest!: sh intro: shape_pop shape_tl)
qed

subsection \<open>What only grows\<close>

definition conns_grow :: "lifecycle \<Rightarrow> lifecycle \<Rightarrow> bool" where
  "conns_grow \<sigma> \<tau> \<longleftrightarrow>
     (\<forall>c k. lf_conns \<sigma> c = Some k \<longrightarrow>
        (\<exists>k'. lf_conns \<tau> c = Some k' \<and> cl_opener k' = cl_opener k \<and>
           (cl_closed k \<longrightarrow> cl_closed k') \<and> (cl_done k \<longrightarrow> cl_done k'))) \<and>
     (\<forall>c k. lf_conns \<tau> c = Some k \<longrightarrow> lf_conns \<sigma> c = None \<longrightarrow> \<not> lf_closed \<sigma>)"

definition sessions_grow :: "lifecycle \<Rightarrow> lifecycle \<Rightarrow> bool" where
  "sessions_grow \<sigma> \<tau> \<longleftrightarrow>
     (\<forall>s l. lf_sessions \<sigma> s = Some l \<longrightarrow>
        (\<exists>l'. lf_sessions \<tau> s = Some l' \<and> sl_conn l' = sl_conn l \<and>
           (sl_closing l \<longrightarrow> sl_closing l') \<and> (sl_done l \<longrightarrow> sl_done l'))) \<and>
     (\<forall>s l. lf_sessions \<tau> s = Some l \<longrightarrow> lf_sessions \<sigma> s = None \<longrightarrow>
        (\<exists>k. lf_conns \<sigma> (sl_conn l) = Some k \<and> \<not> cl_closed k))"

definition counters_grow :: "lifecycle \<Rightarrow> lifecycle \<Rightarrow> bool" where
  "counters_grow \<sigma> \<tau> \<longleftrightarrow> (lf_closed \<sigma> \<longrightarrow> lf_closed \<tau>) \<and> (lf_done \<sigma> \<longrightarrow> lf_done \<tau>) \<and>
     lf_next_opener \<sigma> \<le> lf_next_opener \<tau> \<and> lf_next_session \<sigma> \<le> lf_next_session \<tau> \<and>
     (\<forall>k \<in> lf_openers \<tau>. k \<in> lf_openers \<sigma> \<or> lf_next_opener \<sigma> \<le> k) \<and>
     (\<forall>s \<in> lf_streams \<tau>. s \<in> lf_streams \<sigma> \<or> lf_next_session \<sigma> < s)"

definition grows :: "lifecycle \<Rightarrow> lifecycle \<Rightarrow> bool" where
  "grows \<sigma> \<tau> \<longleftrightarrow> conns_grow \<sigma> \<tau> \<and> sessions_grow \<sigma> \<tau> \<and> counters_grow \<sigma> \<tau>"

lemmas grow_defs = grows_def conns_grow_def sessions_grow_def counters_grow_def

lemma grows_call: "call_step \<sigma> \<tau> \<Longrightarrow> grows \<sigma> \<tau>"
  by (cases rule: call_step.cases) (auto simp: grow_defs lifecycle)

definition bounded_ids :: "lifecycle \<Rightarrow> bool" where
  "bounded_ids \<sigma> \<longleftrightarrow>
     (\<forall>c k. lf_conns \<sigma> c = Some k \<longrightarrow> c \<le> lf_next_connection \<sigma> \<and> cl_opener k < lf_next_opener \<sigma>) \<and>
     (\<forall>s l. lf_sessions \<sigma> s = Some l \<longrightarrow> s \<le> lf_next_session \<sigma>) \<and>
     (\<forall>s \<in> lf_streams \<sigma>. s \<le> lf_next_session \<sigma>) \<and> (\<forall>k \<in> lf_openers \<sigma>. k < lf_next_opener \<sigma>)"

text \<open>A stream that has been opened and is not yet a session's is held by one goroutine.\<close>

fun holds :: "nat \<Rightarrow> frame \<Rightarrow> bool" where
  "holds s (RejectStream d) = (s = d)"
| "holds s (Opened c d) = (s = d)"
| "holds s _ = False"

definition held_once :: "lifecycle \<Rightarrow> bool" where
  "held_once \<sigma> \<longleftrightarrow>
     (\<forall>i s f. lf_threads \<sigma> i = [f] \<longrightarrow> holds s f \<longrightarrow> s \<le> lf_next_session \<sigma> \<and> lf_sessions \<sigma> s = None \<and>
        (\<forall>j g. lf_threads \<sigma> j = [g] \<longrightarrow> holds s g \<longrightarrow> i = j))"

lemma shape_holds: "shape (f # fs) \<Longrightarrow> holds s f \<Longrightarrow> fs = []"
  by (cases fs; cases f) (auto simp: nested_simps)

lemma grows_work:
  assumes "work_step \<sigma> \<tau>" "bounded_ids \<sigma>" "shapes \<sigma>" "held_once \<sigma>"
  shows "grows \<sigma> \<tau>"
  using assms(1)
proof cases
  case (register i opener fs c)
  have "lf_conns \<sigma> (Suc (lf_next_connection \<sigma>)) = None"
    using assms(2) by (auto simp: bounded_ids_def) (metis Suc_n_not_le_n option.exhaust)
  then show ?thesis using register by (auto simp: grow_defs lifecycle)
next
  case (add_session i c s fs k)
  then have "lf_threads \<sigma> i = [Opened c s]"
    using assms(3) shape_holds [of "Opened c s" fs s] by (auto simp: shapes_def) metis
  then have "lf_sessions \<sigma> s = None" using assms(4) by (auto simp: held_once_def)
  then show ?thesis using add_session by (auto simp: grow_defs lifecycle)
next
  case (sess_remove i s fs l k)
  then show ?thesis by (auto simp: grow_defs lifecycle)
qed (auto simp: grow_defs lifecycle)

lemma bounded_ids_call: "call_step \<sigma> \<tau> \<Longrightarrow> bounded_ids \<sigma> \<Longrightarrow> bounded_ids \<tau>"
  by (cases rule: call_step.cases) (auto simp: bounded_ids_def lifecycle)

lemma held_once_call:
  assumes "call_step \<sigma> \<tau>" "held_once \<sigma>"
  shows "held_once \<tau>"
  using assms
  by (cases rule: call_step.cases) (auto simp: held_once_def lifecycle split: if_splits)

lemma shape_not_holds: "shape (g # f # fs) \<Longrightarrow> \<not> holds s f"
  by (cases f) (auto simp: nested_simps)

lemma held_once_work:
  assumes "work_step \<sigma> \<tau>" "shapes \<sigma>" "bounded_ids \<sigma>" "held_once \<sigma>"
  shows "held_once \<tau>"
proof -
  have no: "\<not> holds s f" if "lf_threads \<sigma> i = g # f # fs" for i g f fs s
    using shape_not_holds [of g f fs s] assms(2) that unfolding shapes_def by metis
  have fresh: "lf_sessions \<sigma> (Suc (lf_next_session \<sigma>)) = None"
    using assms(3) unfolding bounded_ids_def by (metis Suc_n_not_le_n option.exhaust)
  have one: "lf_threads \<sigma> i = [f]" if "lf_threads \<sigma> i = f # fs" "holds s f" for i f fs s
    using shape_holds [of f fs s] assms(2) that unfolding shapes_def by metis
  have h: "lf_threads \<sigma> i = [f] \<Longrightarrow> holds s f \<Longrightarrow> s \<le> lf_next_session \<sigma> \<and> lf_sessions \<sigma> s = None"
      "lf_threads \<sigma> i = [f] \<Longrightarrow> holds s f \<Longrightarrow> lf_threads \<sigma> j = [g] \<Longrightarrow> holds s g \<Longrightarrow> i = j" for i j f g s
    using assms(4) unfolding held_once_def by blast+
  show ?thesis using assms(1)
  proof cases
    case (opened i c fs s)
    then show ?thesis using fresh h unfolding held_once_def
      by (auto simp: lifecycle split: if_splits) (metis Suc_n_not_le_n le_SucI)+
  next
    case (add_session i c s fs k)
    then show ?thesis using h one [OF add_session(2), of s] unfolding held_once_def
      by (auto simp: lifecycle split: if_splits)
  next
    case (add_refused i c s fs k)
    then show ?thesis using h one [OF add_refused(2), of s] unfolding held_once_def
      by (auto simp: lifecycle split: if_splits)
  next
    case (reject_stream i s fs)
    then show ?thesis using h one [OF reject_stream(2), of s] unfolding held_once_def
      by (auto simp: lifecycle split: if_splits)
  qed (use h no in \<open>auto simp: held_once_def lifecycle split: if_splits\<close>)
qed

end
