(* ===== verification/Lifecycle_Frames.thy ===== *)
theory Lifecycle_Frames
  imports Lifecycle_Inv
begin

text \<open>
  What each frame of a goroutine knows and owes. A closing loop knows that everything it has not
  closed yet is in the rest of its list or is being closed by the call above it.
\<close>

definition settled :: "lifecycle \<Rightarrow> nat \<Rightarrow> bool" where
  "settled \<sigma> c \<longleftrightarrow> (\<forall>s l. lf_sessions \<sigma> s = Some l \<longrightarrow> sl_conn l = c \<longrightarrow> sl_done l)"

fun frame_ok :: "lifecycle \<Rightarrow> frame list \<Rightarrow> frame \<Rightarrow> bool" where
  "frame_ok \<sigma> fs (Dialed opener) = (opener < lf_next_opener \<sigma>)"
| "frame_ok \<sigma> fs (RejectOpener opener) = (opener < lf_next_opener \<sigma>)"
| "frame_ok \<sigma> fs (ServerClosing cs) =
     (lf_closed \<sigma> \<and> (\<forall>c \<in> set cs. lf_conns \<sigma> c \<noteq> None) \<and>
      (\<forall>c k. lf_conns \<sigma> c = Some k \<longrightarrow> \<not> cl_done k \<longrightarrow> c \<in> set cs \<or> (\<exists>f \<in> set fs. on_conn c f)))"
| "frame_ok \<sigma> fs (ConnClose c) = (lf_conns \<sigma> c \<noteq> None)"
| "frame_ok \<sigma> fs (ConnClosing c ss) =
     ((\<exists>k. lf_conns \<sigma> c = Some k \<and> cl_closed k) \<and> (\<forall>s \<in> set ss. lf_sessions \<sigma> s \<noteq> None) \<and>
      (\<forall>s l. lf_sessions \<sigma> s = Some l \<longrightarrow> sl_conn l = c \<longrightarrow> \<not> sl_done l \<longrightarrow>
         s \<in> set ss \<or> (\<exists>f \<in> set fs. on_sess s f)))"
| "frame_ok \<sigma> fs (ConnFinishing c) =
     (\<exists>k. lf_conns \<sigma> c = Some k \<and> cl_closed k \<and> cl_opener k \<notin> lf_openers \<sigma> \<and>
        cl_opener k < lf_next_opener \<sigma> \<and> settled \<sigma> c)"
| "frame_ok \<sigma> fs (ConnRemoving c) = (\<exists>k. lf_conns \<sigma> c = Some k \<and> cl_done k)"
| "frame_ok \<sigma> fs (ConnWaits c) = (\<exists>k. lf_conns \<sigma> c = Some k \<and> cl_closed k)"
| "frame_ok \<sigma> fs (OpeningSession c) = (lf_conns \<sigma> c \<noteq> None)"
| "frame_ok \<sigma> fs (Opened c s) = (lf_conns \<sigma> c \<noteq> None)"
| "frame_ok \<sigma> fs (Starting s) = (lf_sessions \<sigma> s \<noteq> None)"
| "frame_ok \<sigma> fs (SessClose s) = (lf_sessions \<sigma> s \<noteq> None)"
| "frame_ok \<sigma> fs (SessClosing s) = (\<exists>l. lf_sessions \<sigma> s = Some l \<and> sl_closing l)"
| "frame_ok \<sigma> fs (SessWaits s) = (\<exists>l. lf_sessions \<sigma> s = Some l \<and> sl_closing l)"
| "frame_ok \<sigma> fs (Reading s) = (lf_sessions \<sigma> s \<noteq> None)"
| "frame_ok \<sigma> fs (Ending s) = (lf_sessions \<sigma> s \<noteq> None)"
| "frame_ok \<sigma> fs (Finishing s) =
     (lf_sessions \<sigma> s \<noteq> None \<and> s \<notin> lf_streams \<sigma> \<and> s \<le> lf_next_session \<sigma>)"
| "frame_ok \<sigma> fs (SessRemoving s) = (\<exists>l. lf_sessions \<sigma> s = Some l \<and> sl_done l)"
| "frame_ok \<sigma> fs Dialing = True"
| "frame_ok \<sigma> fs ServerWaits = lf_closed \<sigma>"
| "frame_ok \<sigma> fs (RejectStream s) = True"

definition frames_ok :: "lifecycle \<Rightarrow> bool" where
  "frames_ok \<sigma> \<longleftrightarrow> (\<forall>i. \<forall>f \<in> set (lf_threads \<sigma> i). frame_ok \<sigma> (lf_threads \<sigma> i) f)"

subsection \<open>Frames are stable\<close>

lemma grows_conn:
  assumes "grows \<sigma> \<tau>" "lf_conns \<sigma> c = Some k"
  obtains k' where "lf_conns \<tau> c = Some k'" "cl_opener k' = cl_opener k" "cl_closed k \<longrightarrow> cl_closed k'"
    "cl_done k \<longrightarrow> cl_done k'"
  using assms unfolding grow_defs by blast

lemma grows_sess:
  assumes "grows \<sigma> \<tau>" "lf_sessions \<sigma> s = Some l"
  obtains l' where "lf_sessions \<tau> s = Some l'" "sl_conn l' = sl_conn l" "sl_closing l \<longrightarrow> sl_closing l'"
    "sl_done l \<longrightarrow> sl_done l'"
  using assms unfolding grow_defs by blast

lemma grows_dom:
  "grows \<sigma> \<tau> \<Longrightarrow> lf_conns \<sigma> c \<noteq> None \<Longrightarrow> lf_conns \<tau> c \<noteq> None"
  "grows \<sigma> \<tau> \<Longrightarrow> lf_sessions \<sigma> s \<noteq> None \<Longrightarrow> lf_sessions \<tau> s \<noteq> None"
  by (auto elim: grows_conn grows_sess)

lemma grows_undone_conn:
  assumes "grows \<sigma> \<tau>" "lf_closed \<sigma>" "lf_conns \<tau> c = Some k" "\<not> cl_done k"
  obtains k0 where "lf_conns \<sigma> c = Some k0" "\<not> cl_done k0"
proof -
  have "lf_conns \<sigma> c \<noteq> None" using assms unfolding grow_defs by blast
  then obtain k0 where k0: "lf_conns \<sigma> c = Some k0" by blast
  then have "\<not> cl_done k0" using grows_conn [OF assms(1) k0] assms(3,4) by auto
  then show ?thesis using that k0 by blast
qed

lemma grows_undone_sess:
  assumes "grows \<sigma> \<tau>" "lf_sessions \<tau> s = Some l" "lf_conns \<sigma> (sl_conn l) = Some k" "cl_closed k" "\<not> sl_done l"
  obtains l0 where "lf_sessions \<sigma> s = Some l0" "sl_conn l0 = sl_conn l" "\<not> sl_done l0"
proof -
  have "lf_sessions \<sigma> s \<noteq> None" using assms unfolding grow_defs by force
  then obtain l0 where l0: "lf_sessions \<sigma> s = Some l0" by blast
  obtain l' where "lf_sessions \<tau> s = Some l'" "sl_conn l' = sl_conn l0" "sl_done l0 \<longrightarrow> sl_done l'"
    using grows_sess [OF assms(1) l0] by blast
  then show thesis using that [OF l0] assms(2,5) by simp
qed

lemma grows_settled:
  assumes "grows \<sigma> \<tau>" "settled \<sigma> c" "lf_conns \<sigma> c = Some k" "cl_closed k"
  shows "settled \<tau> c"
  unfolding settled_def
proof (intro allI impI)
  fix s l assume l: "lf_sessions \<tau> s = Some l" "sl_conn l = c"
  show "sl_done l"
  proof (rule ccontr)
    assume "\<not> sl_done l"
    then obtain l0 where "lf_sessions \<sigma> s = Some l0" "sl_conn l0 = c" "\<not> sl_done l0"
      using grows_undone_sess [OF assms(1) l(1)] l(2) assms(3,4) by metis
    then show False using assms(2) by (auto simp: settled_def)
  qed
qed

lemma grows_conn_flags:
  assumes "grows \<sigma> \<tau>" "lf_conns \<sigma> c = Some k"
  shows "cl_closed k \<Longrightarrow> \<exists>k'. lf_conns \<tau> c = Some k' \<and> cl_closed k'"
    "cl_done k \<Longrightarrow> \<exists>k'. lf_conns \<tau> c = Some k' \<and> cl_done k'"
  using assms unfolding grow_defs by blast+

lemma grows_sess_flags:
  assumes "grows \<sigma> \<tau>" "lf_sessions \<sigma> s = Some l"
  shows "sl_closing l \<Longrightarrow> \<exists>l'. lf_sessions \<tau> s = Some l' \<and> sl_closing l'"
    "sl_done l \<Longrightarrow> \<exists>l'. lf_sessions \<tau> s = Some l' \<and> sl_done l'"
  using assms unfolding grow_defs by blast+

lemma grows_counters:
  "grows \<sigma> \<tau> \<Longrightarrow> lf_closed \<sigma> \<Longrightarrow> lf_closed \<tau>"
  "grows \<sigma> \<tau> \<Longrightarrow> k0 < lf_next_opener \<sigma> \<Longrightarrow> k0 < lf_next_opener \<tau>"
  by (simp_all add: grow_defs)

lemma frame_grows:
  assumes "grows \<sigma> \<tau>" "frame_ok \<sigma> fs f"
  shows "frame_ok \<tau> fs f"
proof (cases f)
  case (ServerClosing cs)
  have "c \<in> set cs \<or> (\<exists>f \<in> set fs. on_conn c f)" if "lf_conns \<tau> c = Some k" "\<not> cl_done k" for c k
    using grows_undone_conn [OF assms(1) _ that] assms(2) ServerClosing by auto
  then show ?thesis using assms ServerClosing grows_dom(1) [OF assms(1)] by (auto simp: grow_defs)
next
  case (ConnClosing c ss)
  then obtain k where k: "lf_conns \<sigma> c = Some k" "cl_closed k" using assms(2) by auto
  have "s \<in> set ss \<or> (\<exists>f \<in> set fs. on_sess s f)" if l: "lf_sessions \<tau> s = Some l" "sl_conn l = c" "\<not> sl_done l" for s l
  proof -
    obtain l0 where "lf_sessions \<sigma> s = Some l0" "sl_conn l0 = c" "\<not> sl_done l0"
      using grows_undone_sess [OF assms(1) l(1) _ k(2) l(3)] k l(2) by metis
    then show ?thesis using assms(2) ConnClosing by auto
  qed
  moreover obtain k' where "lf_conns \<tau> c = Some k'" "cl_closed k'"
    using grows_conn [OF assms(1) k(1)] k(2) by metis
  moreover have "\<forall>s \<in> set ss. lf_sessions \<tau> s \<noteq> None"
    using assms ConnClosing grows_dom(2) [OF assms(1)] by auto
  ultimately show ?thesis using ConnClosing by simp
next
  case (ConnFinishing c)
  then obtain k where k: "lf_conns \<sigma> c = Some k" "cl_closed k" "cl_opener k \<notin> lf_openers \<sigma>"
      "cl_opener k < lf_next_opener \<sigma>" "settled \<sigma> c" using assms(2) by auto
  obtain k' where k': "lf_conns \<tau> c = Some k'" "cl_opener k' = cl_opener k" "cl_closed k'"
    using grows_conn [OF assms(1) k(1)] k(2) by metis
  have "cl_opener k \<notin> lf_openers \<tau>" "cl_opener k < lf_next_opener \<tau>"
    using assms(1) k(3,4) unfolding grow_defs by (meson leD, linarith)
  then show ?thesis using ConnFinishing k' grows_settled [OF assms(1) k(5,1,2)] by auto
next
  case (Finishing s)
  then have "s \<notin> lf_streams \<tau>" "s \<le> lf_next_session \<tau>"
    using assms unfolding grow_defs by (auto dest: leD)
  then show ?thesis using Finishing assms grows_dom(2) [OF assms(1), of s] by auto
qed (use assms(2) grows_dom [OF assms(1)] grows_conn_flags [OF assms(1)] grows_sess_flags [OF assms(1)]
    grows_counters [OF assms(1)] in auto)

subsection \<open>The registries\<close>

definition conn_ok :: "lifecycle \<Rightarrow> nat \<Rightarrow> conn_life \<Rightarrow> bool" where
  "conn_ok \<sigma> c k \<longleftrightarrow>
     (cl_done k \<or> c \<in> lf_connections \<sigma>) \<and>
     (cl_done k \<longrightarrow> cl_closed k \<and> cl_opener k \<notin> lf_openers \<sigma> \<and> settled \<sigma> c) \<and>
     (\<forall>s \<in> cl_sessions k. lf_sessions \<sigma> s \<noteq> None)"

definition sess_ok :: "lifecycle \<Rightarrow> nat \<Rightarrow> sess_life \<Rightarrow> bool" where
  "sess_ok \<sigma> s l \<longleftrightarrow>
     (\<exists>k. lf_conns \<sigma> (sl_conn l) = Some k \<and> (sl_done l \<or> s \<in> cl_sessions k)) \<and>
     (sl_done l \<longrightarrow> s \<notin> lf_streams \<sigma>)"

definition registries_ok :: "lifecycle \<Rightarrow> bool" where
  "registries_ok \<sigma> \<longleftrightarrow>
     (\<forall>c k. lf_conns \<sigma> c = Some k \<longrightarrow> conn_ok \<sigma> c k) \<and>
     (\<forall>s l. lf_sessions \<sigma> s = Some l \<longrightarrow> sess_ok \<sigma> s l) \<and>
     (\<forall>c \<in> lf_connections \<sigma>. lf_conns \<sigma> c \<noteq> None) \<and>
     (lf_done \<sigma> \<longrightarrow> lf_closed \<sigma> \<and> (\<forall>c k. lf_conns \<sigma> c = Some k \<longrightarrow> cl_done k))"

text \<open>Every open transport and every open stream has an owner that will close it.\<close>

definition owned :: "lifecycle \<Rightarrow> bool" where
  "owned \<sigma> \<longleftrightarrow>
     (\<forall>k \<in> lf_openers \<sigma>. (\<exists>i. Dialed k \<in> set (lf_threads \<sigma> i) \<or> RejectOpener k \<in> set (lf_threads \<sigma> i)) \<or>
        (\<exists>c h. lf_conns \<sigma> c = Some h \<and> cl_opener h = k \<and> \<not> cl_done h)) \<and>
     (\<forall>s \<in> lf_streams \<sigma>. (\<exists>i f. f \<in> set (lf_threads \<sigma> i) \<and> holds s f) \<or>
        (\<exists>l. lf_sessions \<sigma> s = Some l \<and> \<not> sl_done l))"

lemma frame_top:
  "frames_ok \<sigma> \<Longrightarrow> lf_threads \<sigma> i = f # fs \<Longrightarrow> frame_ok \<sigma> (f # fs) f"
  by (auto simp: frames_ok_def) (metis list.set_intros(1))

lemma bounded_ids_work:
  assumes "work_step \<sigma> \<tau>" "shapes \<sigma>" "bounded_ids \<sigma>" "held_once \<sigma>" "frames_ok \<sigma>"
  shows "bounded_ids \<tau>"
  using assms(1)
proof cases
  case (register i opener fs c)
  then have "opener < lf_next_opener \<sigma>" using frame_top [OF assms(5) register(2)] by simp
  then show ?thesis using register assms(3) by (auto simp: bounded_ids_def lifecycle intro: le_SucI)
next
  case (dialed i fs opener)
  then show ?thesis using assms(3) by (auto simp: bounded_ids_def lifecycle intro: less_SucI)
next
  case (add_session i c s fs k)
  have "shape (Opened c s # fs)" using assms(2) add_session(2) unfolding shapes_def by metis
  then have "fs = []" by (rule shape_holds [where s = s]) simp
  then have "s \<le> lf_next_session \<sigma>" using assms(4) add_session(2) unfolding held_once_def by fastforce
  then show ?thesis using add_session assms(3) by (auto simp: bounded_ids_def lifecycle)
qed (use assms(3) in \<open>auto simp: bounded_ids_def lifecycle\<close>)

end
