(* ===== verification/Lifecycle_Close.thy ===== *)
theory Lifecycle_Close
  imports Lifecycle_Frames
begin

text \<open>
  The invariant is preserved by every step, and what it says when \<open>Close\<close> has returned.
\<close>

subsection \<open>The frames\<close>

lemma frame_stack:
  assumes "frame_ok \<sigma> fs h"
    and "\<And>f c. f \<in> set fs \<Longrightarrow> on_conn c f \<Longrightarrow>
       (\<exists>g \<in> set gs. on_conn c g) \<or> (\<forall>k. lf_conns \<sigma> c = Some k \<longrightarrow> cl_done k)"
    and "\<And>f s. f \<in> set fs \<Longrightarrow> on_sess s f \<Longrightarrow>
       (\<exists>g \<in> set gs. on_sess s g) \<or> (\<forall>l. lf_sessions \<sigma> s = Some l \<longrightarrow> sl_done l)"
  shows "frame_ok \<sigma> gs h"
proof (cases h)
  case (ServerClosing cs)
  then show ?thesis using assms(1,2) by fastforce
next
  case (ConnClosing c ss)
  then show ?thesis using assms(1,3) by fastforce
qed (use assms(1) in auto)

lemma frames_replace:
  assumes "frames_ok \<sigma>" "grows \<sigma> \<tau>" "lf_threads \<sigma> i = f # fs" "lf_threads \<tau> = (lf_threads \<sigma>)(i := gs @ fs)"
    and top: "\<forall>g \<in> set gs. frame_ok \<tau> (gs @ fs) g"
    and conn: "\<And>c. on_conn c f \<Longrightarrow> (\<exists>g \<in> set gs. on_conn c g) \<or> (\<forall>k. lf_conns \<tau> c = Some k \<longrightarrow> cl_done k)"
    and sess: "\<And>s. on_sess s f \<Longrightarrow> (\<exists>g \<in> set gs. on_sess s g) \<or> (\<forall>l. lf_sessions \<tau> s = Some l \<longrightarrow> sl_done l)"
  shows "frames_ok \<tau>"
  unfolding frames_ok_def
proof (intro allI ballI)
  fix j h assume h: "h \<in> set (lf_threads \<tau> j)"
  show "frame_ok \<tau> (lf_threads \<tau> j) h"
  proof (cases "j = i \<and> h \<in> set gs")
    case True
    then show ?thesis using top assms(4) by simp
  next
    case False
    then have old: "h \<in> set (lf_threads \<sigma> j)" using h assms(3,4) by (auto split: if_splits)
    then have *: "frame_ok \<tau> (lf_threads \<sigma> j) h"
      using frame_grows [OF assms(2)] assms(1) by (auto simp: frames_ok_def)
    show ?thesis
    proof (cases "j = i")
      case True
      have "frame_ok \<tau> (gs @ fs) h"
        by (rule frame_stack [OF *]) (use True assms(3) conn sess in auto)
      then show ?thesis using True assms(4) by simp
    next
      case False
      then show ?thesis using * assms(4) by simp
    qed
  qed
qed

lemma frames_call:
  assumes "call_step \<sigma> \<tau>" "frames_ok \<sigma>" "registries_ok \<sigma>"
  shows "frames_ok \<tau>"
proof -
  note g = grows_call [OF assms(1)]
  have one: "frames_ok \<tau>" if "lf_threads \<sigma> i = []" "lf_threads \<tau> = (lf_threads \<sigma>)(i := [f])" "frame_ok \<tau> [f] f" for i f
    using that frame_grows [OF g] assms(2) by (auto simp: frames_ok_def)
  show ?thesis using assms(1)
  proof cases
    case (server_close i cs)
    have "c \<in> set cs" if "lf_conns \<sigma> c = Some k" "\<not> cl_done k" for c k
      using assms(3) that server_close by (auto simp: registries_ok_def conn_ok_def)
    moreover have "\<forall>c \<in> set cs. lf_conns \<sigma> c \<noteq> None" using assms(3) server_close by (simp add: registries_ok_def)
    ultimately show ?thesis using server_close
      by (intro one [of i "ServerClosing cs"]) (auto simp: lifecycle)
  next
    case (peer_ends i s fs)
    then have "lf_sessions \<sigma> s \<noteq> None" using frame_top [OF assms(2) peer_ends(2)] by simp
    then show ?thesis using peer_ends
      by (intro frames_replace [OF assms(2) g peer_ends(2), of "[Ending s]"]) (auto simp: lifecycle)
  next
    case (connect i)
    then show ?thesis by (intro one [of i Dialing]) (auto simp: lifecycle)
  next
    case (server_close_again i)
    then show ?thesis by (intro one [of i ServerWaits]) (auto simp: lifecycle)
  next
    case (conn_call i c k)
    then show ?thesis by (intro one [of i "ConnClose c"]) (auto simp: lifecycle)
  next
    case (new_session i c k)
    then show ?thesis by (intro one [of i "OpeningSession c"]) (auto simp: lifecycle)
  next
    case (sess_call i s l)
    then show ?thesis by (intro one [of i "SessClose s"]) (auto simp: lifecycle)
  qed
qed

text \<open>What a step puts in the place of the top frame, read off the stack it leaves.\<close>

lemma pushed:
  "lf_threads \<tau> = m(i := fs) \<Longrightarrow> lf_threads \<tau> = m(i := [] @ fs)"
  "lf_threads \<tau> = m(i := f # fs) \<Longrightarrow> lf_threads \<tau> = m(i := [f] @ fs)"
  "lf_threads \<tau> = m(i := f # g # fs) \<Longrightarrow> lf_threads \<tau> = m(i := [f, g] @ fs)"
  by simp_all

lemma frames_work:
  assumes "work_step \<sigma> \<tau>" "shapes \<sigma>" "bounded_ids \<sigma>" "held_once \<sigma>" "frames_ok \<sigma>" "registries_ok \<sigma>"
  shows "frames_ok \<tau>"
proof -
  note g = grows_work [OF assms(1,3,2,4)]
  note rep = frames_replace [OF assms(5) g]
  note top = frame_top [OF assms(5)]
  show ?thesis using assms(1)
  proof cases
    case (conn_close i c fs k ss)
    have s: "s \<in> set ss" if "lf_sessions \<sigma> s = Some l" "sl_conn l = c" "\<not> sl_done l" for s l
    proof -
      have "sess_ok \<sigma> s l" using assms(6) that(1) by (simp add: registries_ok_def)
      then show ?thesis using that conn_close by (auto simp: sess_ok_def)
    qed
    have "\<forall>s \<in> set ss. lf_sessions \<sigma> s \<noteq> None"
      using assms(6) conn_close(3,5) unfolding registries_ok_def conn_ok_def by metis
    then show ?thesis using conn_close s
      by (intro rep [OF conn_close(2), of "[ConnClosing c ss]"]) (auto simp: lifecycle)
  next
    case (conn_opener i c fs k)
    have sh: "fs = [] \<or> (\<exists>cs. fs = [ServerClosing cs])"
      using shape_conn assms(2) conn_opener(2) unfolding shapes_def by metis
    have "cl_opener k < lf_next_opener \<sigma>" using assms(3) conn_opener(3) by (auto simp: bounded_ids_def)
    then show ?thesis using conn_opener top [OF conn_opener(2)] sh
      by (intro rep [OF conn_opener(2), of "[ConnFinishing c]"]) (auto simp: lifecycle settled_def)
  next
    case (start i s fs j)
    have "lf_threads \<sigma> i \<noteq> []" using start(2) by simp
    then have "j \<noteq> i" using start(3) by metis
    have gi: "frames_ok (go i fs \<sigma>)"
      by (rule frames_replace [OF assms(5) _ start(2), of _ "[]"]) (auto simp: lifecycle grow_defs)
    have "lf_sessions \<sigma> s \<noteq> None" using top [OF start(2)] by simp
    then have "frame_ok \<tau> [Reading s] (Reading s)" using start by (simp add: lifecycle)
    then show ?thesis using gi frame_grows [of "go i fs \<sigma>" \<tau>] start \<open>j \<noteq> i\<close>
      by (auto simp: frames_ok_def lifecycle grow_defs)
  next
    case (end_stream i s fs)
    then show ?thesis using top [OF end_stream(2)] assms(3)
      by (intro rep [OF end_stream(2), of "[Finishing s]"]) (auto simp: lifecycle bounded_ids_def)
  qed (frule top, (rule rep, assumption, rule pushed, (simp add: lifecycle; fail)); auto simp: lifecycle; fail)+
qed

subsection \<open>The registries\<close>

text \<open>A connection or session the step does not touch stays well formed.\<close>

lemma conn_ok_grows:
  assumes "conn_ok \<sigma> c k" "grows \<sigma> \<tau>" "lf_conns \<sigma> c = Some k" "bounded_ids \<sigma>"
    "c \<in> lf_connections \<sigma> \<Longrightarrow> cl_done k \<or> c \<in> lf_connections \<tau>"
  shows "conn_ok \<tau> c k"
proof -
  have "cl_opener k \<notin> lf_openers \<tau>" if "cl_opener k \<notin> lf_openers \<sigma>"
  proof -
    have "cl_opener k < lf_next_opener \<sigma>" using assms(3,4) by (simp add: bounded_ids_def)
    then show ?thesis using that assms(2) by (auto simp: grow_defs dest: leD)
  qed
  moreover have "settled \<tau> c" if "settled \<sigma> c" "cl_closed k" using grows_settled [OF assms(2) that(1) assms(3) that(2)] .
  ultimately show ?thesis using assms(1,5) grows_dom(2) [OF assms(2)] unfolding conn_ok_def by blast
qed

lemma sess_ok_grows:
  assumes "sess_ok \<sigma> s l" "grows \<sigma> \<tau>" "lf_sessions \<sigma> s = Some l" "bounded_ids \<sigma>"
    "\<And>k k'. lf_conns \<sigma> (sl_conn l) = Some k \<Longrightarrow> lf_conns \<tau> (sl_conn l) = Some k' \<Longrightarrow> s \<in> cl_sessions k \<Longrightarrow>
       sl_done l \<or> s \<in> cl_sessions k'"
  shows "sess_ok \<tau> s l"
proof -
  obtain k where k: "lf_conns \<sigma> (sl_conn l) = Some k" "sl_done l \<or> s \<in> cl_sessions k"
    using assms(1) by (auto simp: sess_ok_def)
  obtain k' where "lf_conns \<tau> (sl_conn l) = Some k'" using grows_conn [OF assms(2) k(1)] by metis
  moreover have "s \<le> lf_next_session \<sigma>" using assms(3,4) by (auto simp: bounded_ids_def)
  then have "s \<notin> lf_streams \<sigma> \<longrightarrow> s \<notin> lf_streams \<tau>" using assms(2) by (auto simp: grow_defs dest: leD)
  ultimately show ?thesis using assms(1,5) k unfolding sess_ok_def by metis
qed

lemma registries_intro:
  assumes "registries_ok \<sigma>" "grows \<sigma> \<tau>" "bounded_ids \<sigma>"
    and conns: "\<And>c k'. lf_conns \<tau> c = Some k' \<Longrightarrow> lf_conns \<sigma> c \<noteq> Some k' \<Longrightarrow> conn_ok \<tau> c k'"
    and sess: "\<And>s l'. lf_sessions \<tau> s = Some l' \<Longrightarrow> lf_sessions \<sigma> s \<noteq> Some l' \<Longrightarrow> sess_ok \<tau> s l'"
    and keep: "\<And>c k. lf_conns \<sigma> c = Some k \<Longrightarrow> c \<in> lf_connections \<sigma> \<Longrightarrow> cl_done k \<or> c \<in> lf_connections \<tau>"
    and member: "\<And>s l k k'. lf_sessions \<sigma> s = Some l \<Longrightarrow> lf_conns \<sigma> (sl_conn l) = Some k \<Longrightarrow>
       lf_conns \<tau> (sl_conn l) = Some k' \<Longrightarrow> s \<in> cl_sessions k \<Longrightarrow> sl_done l \<or> s \<in> cl_sessions k'"
    and known: "\<And>c. c \<in> lf_connections \<tau> \<Longrightarrow> c \<in> lf_connections \<sigma> \<or> lf_conns \<tau> c \<noteq> None"
    and finished: "lf_done \<tau> \<Longrightarrow> lf_closed \<tau> \<and> (\<forall>c k. lf_conns \<tau> c = Some k \<longrightarrow> cl_done k)"
  shows "registries_ok \<tau>"
proof -
  have c: "conn_ok \<tau> c k" if "lf_conns \<tau> c = Some k" for c k
  proof (cases "lf_conns \<sigma> c = Some k")
    case True
    then have "conn_ok \<sigma> c k" using assms(1) by (simp add: registries_ok_def)
    then show ?thesis using conn_ok_grows [OF _ assms(2) True assms(3)] keep [OF True] by blast
  qed (use that conns in blast)
  have s: "sess_ok \<tau> s l" if "lf_sessions \<tau> s = Some l" for s l
  proof (cases "lf_sessions \<sigma> s = Some l")
    case True
    then have "sess_ok \<sigma> s l" using assms(1) by (simp add: registries_ok_def)
    then show ?thesis using sess_ok_grows [OF _ assms(2) True assms(3)] member [OF True] by blast
  qed (use that sess in blast)
  have "lf_conns \<tau> c \<noteq> None" if "c \<in> lf_connections \<tau>" for c
    using known [OF that] grows_dom(1) [OF assms(2), of c] assms(1) by (auto simp: registries_ok_def)
  then show ?thesis using c s finished by (simp add: registries_ok_def)
qed

lemma registries_same:
  assumes "registries_ok \<sigma>" "grows \<sigma> \<tau>" "bounded_ids \<sigma>" "lf_conns \<tau> = lf_conns \<sigma>"
    "lf_sessions \<tau> = lf_sessions \<sigma>" "lf_connections \<tau> = lf_connections \<sigma>" "lf_done \<tau> = lf_done \<sigma>"
  shows "registries_ok \<tau>"
proof (rule registries_intro [OF assms(1-3)])
  assume "lf_done \<tau>"
  then show "lf_closed \<tau> \<and> (\<forall>c k. lf_conns \<tau> c = Some k \<longrightarrow> cl_done k)"
    using assms grows_counters(1) [OF assms(2)] by (auto simp: registries_ok_def)
qed (use assms in auto)

lemma registries_call:
  assumes "call_step \<sigma> \<tau>" "registries_ok \<sigma>" "bounded_ids \<sigma>"
  shows "registries_ok \<tau>"
  by (rule registries_same [OF assms(2) grows_call [OF assms(1)] assms(3)]; cases rule: call_step.cases [OF assms(1)])
    (simp_all add: lifecycle)

lemma registries_remove:
  assumes "registries_ok \<sigma>" "grows \<sigma> \<tau>" "bounded_ids \<sigma>" "\<tau> = go i fs (removeSession d k s \<sigma>)"
    and k: "lf_conns \<sigma> d = Some k" and l: "lf_sessions \<sigma> s = Some l" "sl_done l"
  shows "registries_ok \<tau>"
proof -
  define k' where "k' = k\<lparr>cl_sessions := cl_sessions k - {s}\<rparr>"
  have p: "lf_conns \<tau> = (lf_conns \<sigma>)(d \<mapsto> k')" "lf_sessions \<tau> = lf_sessions \<sigma>"
    "lf_connections \<tau> = lf_connections \<sigma>" "lf_done \<tau> = lf_done \<sigma>" "lf_closed \<tau> = lf_closed \<sigma>"
    "lf_openers \<tau> = lf_openers \<sigma>"
    using assms(4) by (simp_all add: lifecycle k'_def)
  have "conn_ok \<sigma> d k" using k assms(1) by (simp add: registries_ok_def)
  then have k': "conn_ok \<tau> d k'" using p by (simp add: conn_ok_def settled_def k'_def)
  show ?thesis
  proof (rule registries_intro [OF assms(1-3)])
    fix s' l' h h' assume "lf_sessions \<sigma> s' = Some l'" "lf_conns \<sigma> (sl_conn l') = Some h"
      "lf_conns \<tau> (sl_conn l') = Some h'" "s' \<in> cl_sessions h"
    then show "sl_done l' \<or> s' \<in> cl_sessions h'"
      using l k by (cases "sl_conn l' = d"; cases "s' = s") (auto simp: p(1) k'_def)
  next
    assume "lf_done \<tau>"
    then show "lf_closed \<tau> \<and> (\<forall>c k. lf_conns \<tau> c = Some k \<longrightarrow> cl_done k)"
      using assms(1) k p by (auto simp: registries_ok_def k'_def)
  qed (use p k' in \<open>auto split: if_splits\<close>)
qed

lemma registries_work:
  assumes "work_step \<sigma> \<tau>" "shapes \<sigma>" "bounded_ids \<sigma>" "held_once \<sigma>" "frames_ok \<sigma>" "registries_ok \<sigma>"
  shows "registries_ok \<tau>"
proof -
  note g = grows_work [OF assms(1,3,2,4)]
  note top = frame_top [OF assms(5)]
  note regs = registries_intro [OF assms(6) g assms(3)]
  note same = registries_same [OF assms(6) g assms(3)]
  have conn: "conn_ok \<sigma> c k" if "lf_conns \<sigma> c = Some k" for c k using that assms(6) by (simp add: registries_ok_def)
  have undone: "\<not> cl_done k" if "lf_conns \<sigma> c = Some k" "\<not> cl_closed k" for c k
    using conn [OF that(1)] that(2) by (auto simp: conn_ok_def)
  have sess: "sess_ok \<sigma> s l" if "lf_sessions \<sigma> s = Some l" for s l using that assms(6) by (simp add: registries_ok_def)
  have fin: "lf_done \<sigma> \<Longrightarrow> lf_closed \<sigma>" "\<And>d h. lf_done \<sigma> \<Longrightarrow> lf_conns \<sigma> d = Some h \<Longrightarrow> cl_done h"
    using assms(6) by (auto simp: registries_ok_def)
  show ?thesis using assms(1)
  proof cases
    case (server_finish i fs)
    have "fs = []" using shape_server assms(2) server_finish(2) unfolding shapes_def by metis
    then have "lf_closed \<sigma>" "\<forall>c k. lf_conns \<sigma> c = Some k \<longrightarrow> cl_done k" using top [OF server_finish(2)] by auto
    then show ?thesis using server_finish by (intro regs) (auto simp: lifecycle)
  next
    case (conn_remove i d fs)
    have "cl_done k" if "lf_conns \<sigma> d = Some k" for k using top [OF conn_remove(2)] that by auto
    then show ?thesis using conn_remove assms(6) by (intro regs) (auto simp: lifecycle registries_ok_def)
  next
    case (register i opener fs d)
    have "lf_conns \<sigma> d = None" using assms(3) register(4) unfolding bounded_ids_def
      by (metis Suc_eq_plus1 Suc_n_not_le_n option.exhaust)
    then show ?thesis using register fin by (intro regs) (auto simp: lifecycle conn_ok_def split: if_splits)
  next
    case (conn_close i c fs k ss)
    then show ?thesis using conn undone fin by (intro regs) (auto simp: lifecycle conn_ok_def split: if_splits)
  next
    case (conn_finish i c fs k)
    then show ?thesis using conn [OF conn_finish(3)] fin top [OF conn_finish(2)]
      by (intro regs) (auto simp: lifecycle conn_ok_def settled_def split: if_splits)
  next
    case (add_session i c s fs k)
    then show ?thesis using conn undone fin
      by (intro regs) (auto simp: lifecycle conn_ok_def sess_ok_def split: if_splits)
  next
    case (sess_close i s fs l)
    then show ?thesis using sess [OF sess_close(3)] fin
      by (intro regs) (auto simp: lifecycle sess_ok_def split: if_splits)
  next
    case (sess_finish i s fs l)
    then show ?thesis using sess [OF sess_finish(3)] fin top [OF sess_finish(2)]
      by (intro regs) (auto simp: lifecycle sess_ok_def split: if_splits)
  next
    case (sess_remove i s fs l k)
    then show ?thesis using top [OF sess_remove(2)] by (intro registries_remove [OF assms(6) g assms(3)]) auto
  qed ((rule same; simp add: lifecycle; fail)+)
qed

end
