(* ===== verification/Lifecycle_Owners.thy ===== *)
theory Lifecycle_Owners
  imports Lifecycle_Close
begin

text \<open>
  Who will do what is still to be done: every open transport and stream has an owner, every session
  that has not ended a goroutine that runs its read loop, everything that is being closed a goroutine
  that closes it. What follows when \<open>Close\<close> has returned, and that no goroutine waits for ever.
\<close>

definition has :: "lifecycle \<Rightarrow> (frame \<Rightarrow> bool) \<Rightarrow> bool" where
  "has \<sigma> P \<longleftrightarrow> (\<exists>i. \<exists>f \<in> set (lf_threads \<sigma> i). P f)"

lemma has_replace:
  assumes "has \<sigma> P" "lf_threads \<sigma> i = f # fs" "lf_threads \<tau> = (lf_threads \<sigma>)(i := gs @ fs)"
    "P f \<Longrightarrow> \<exists>g \<in> set gs. P g"
  shows "has \<tau> P"
proof -
  obtain j h where h: "h \<in> set (lf_threads \<sigma> j)" "P h" using assms(1) by (auto simp: has_def)
  show ?thesis
  proof (cases "j = i \<and> h = f")
    case True
    then obtain g where "g \<in> set gs" "P g" using assms(4) h(2) by auto
    then show ?thesis using assms(3) by (auto simp: has_def intro!: exI [of _ i])
  next
    case False
    then have "h \<in> set (lf_threads \<tau> j)" using h(1) assms(2,3) by (auto split: if_splits)
    then show ?thesis using h(2) by (auto simp: has_def)
  qed
qed

lemma has_new: "lf_threads \<tau> = (lf_threads \<sigma>)(i := gs @ fs) \<Longrightarrow> \<exists>g \<in> set gs. P g \<Longrightarrow> has \<tau> P"
  by (auto simp: has_def intro!: exI [of _ i])

lemma has_push: "has \<sigma> P \<Longrightarrow> lf_threads \<sigma> i = [] \<Longrightarrow> lf_threads \<tau> = (lf_threads \<sigma>)(i := gs) \<Longrightarrow> has \<tau> P"
  by (auto simp: has_def) (metis empty_iff fun_upd_apply list.set(1))

definition holds_opener :: "nat \<Rightarrow> frame \<Rightarrow> bool" where
  "holds_opener k f \<longleftrightarrow> f = Dialed k \<or> f = RejectOpener k"

definition runs :: "nat \<Rightarrow> frame \<Rightarrow> bool" where
  "runs s f \<longleftrightarrow> f \<in> {Starting s, Reading s, Ending s, Finishing s}"

definition closes :: "nat \<Rightarrow> frame \<Rightarrow> bool" where
  "closes c f \<longleftrightarrow> f = ConnFinishing c \<or> (\<exists>ss. f = ConnClosing c ss)"

definition closes_server :: "frame \<Rightarrow> bool" where
  "closes_server f \<longleftrightarrow> (\<exists>cs. f = ServerClosing cs)"

definition openers_owned :: "lifecycle \<Rightarrow> bool" where
  "openers_owned \<sigma> \<longleftrightarrow>
     (\<forall>k \<in> lf_openers \<sigma>. has \<sigma> (holds_opener k) \<or>
        (\<exists>c h. lf_conns \<sigma> c = Some h \<and> cl_opener h = k \<and> \<not> cl_done h))"

definition streams_owned :: "lifecycle \<Rightarrow> bool" where
  "streams_owned \<sigma> \<longleftrightarrow>
     (\<forall>s \<in> lf_streams \<sigma>. has \<sigma> (holds s) \<or> (\<exists>l. lf_sessions \<sigma> s = Some l \<and> \<not> sl_done l))"

definition attended :: "lifecycle \<Rightarrow> bool" where
  "attended \<sigma> \<longleftrightarrow>
     (\<forall>s l. lf_sessions \<sigma> s = Some l \<longrightarrow> \<not> sl_done l \<longrightarrow> has \<sigma> (runs s)) \<and>
     (\<forall>s l. lf_sessions \<sigma> s = Some l \<longrightarrow> sl_closing l \<longrightarrow> s \<in> lf_streams \<sigma> \<longrightarrow> has \<sigma> (\<lambda>f. f = SessClosing s)) \<and>
     (\<forall>c k. lf_conns \<sigma> c = Some k \<longrightarrow> cl_closed k \<longrightarrow> \<not> cl_done k \<longrightarrow> has \<sigma> (closes c)) \<and>
     (lf_closed \<sigma> \<longrightarrow> \<not> lf_done \<sigma> \<longrightarrow> has \<sigma> closes_server)"

lemmas frame_kinds = holds_opener_def runs_def closes_def closes_server_def

subsection \<open>Calls\<close>

lemma owners_same:
  assumes "openers_owned \<sigma> \<and> streams_owned \<sigma> \<and> attended \<sigma>"
    and "\<And>P. has \<sigma> P \<Longrightarrow> (\<And>s. P (Reading s) \<Longrightarrow> P (Ending s)) \<Longrightarrow> (\<And>s. P (Starting s) \<Longrightarrow> P (Reading s)) \<Longrightarrow> has \<tau> P"
    and "lf_conns \<tau> = lf_conns \<sigma>" "lf_sessions \<tau> = lf_sessions \<sigma>" "lf_openers \<tau> = lf_openers \<sigma>"
      "lf_streams \<tau> = lf_streams \<sigma>" "lf_done \<tau> = lf_done \<sigma>"
      "lf_closed \<tau> = lf_closed \<sigma> \<or> has \<tau> closes_server"
  shows "openers_owned \<tau> \<and> streams_owned \<tau> \<and> attended \<tau>"
  using assms(1,3-) unfolding openers_owned_def streams_owned_def attended_def
  by (auto intro!: assms(2) simp: frame_kinds)

lemma owners_call:
  assumes "call_step \<sigma> \<tau>" "openers_owned \<sigma> \<and> streams_owned \<sigma> \<and> attended \<sigma>"
  shows "openers_owned \<tau> \<and> streams_owned \<tau> \<and> attended \<tau>"
proof -
  note keep = owners_same [OF assms(2)]
  show ?thesis using assms(1)
  proof cases
    case (peer_ends i s fs)
    show ?thesis
      by (rule keep; (rule has_replace [OF _ peer_ends(2), of _ _ "[Ending s]"])?)
        (use peer_ends in \<open>auto simp: lifecycle\<close>)
  next
    case (server_close i cs)
    have "has \<tau> closes_server" using server_close(1) by (auto simp: has_def lifecycle frame_kinds)
    moreover have "has \<tau> P" if "has \<sigma> P" for P
      using that server_close by (intro has_push [OF that server_close(2)]) (simp_all add: lifecycle)
    ultimately show ?thesis by (intro keep) (use server_close in \<open>simp_all add: lifecycle\<close>)
  qed (rule keep; (rule has_push; assumption?)?; (simp add: lifecycle; fail)?)+
qed

subsection \<open>Steps\<close>

lemma openers_intro:
  assumes "openers_owned \<sigma>" "lf_threads \<sigma> i = f # fs" "lf_threads \<tau> = (lf_threads \<sigma>)(i := gs @ fs)"
    and new: "\<And>k. k \<in> lf_openers \<tau> \<Longrightarrow> k \<in> lf_openers \<sigma> \<or> (\<exists>g \<in> set gs. holds_opener k g)"
    and top: "\<And>k. holds_opener k f \<Longrightarrow> k \<in> lf_openers \<tau> \<Longrightarrow> (\<exists>g \<in> set gs. holds_opener k g) \<or>
       (\<exists>c h. lf_conns \<tau> c = Some h \<and> cl_opener h = k \<and> \<not> cl_done h)"
    and conns: "\<And>c h. lf_conns \<sigma> c = Some h \<Longrightarrow> \<not> cl_done h \<Longrightarrow> cl_opener h \<in> lf_openers \<tau> \<Longrightarrow>
       \<exists>h'. lf_conns \<tau> c = Some h' \<and> cl_opener h' = cl_opener h \<and> \<not> cl_done h'"
  shows "openers_owned \<tau>"
  unfolding openers_owned_def
proof
  fix k assume k: "k \<in> lf_openers \<tau>"
  show "has \<tau> (holds_opener k) \<or> (\<exists>c h. lf_conns \<tau> c = Some h \<and> cl_opener h = k \<and> \<not> cl_done h)"
  proof (cases "k \<in> lf_openers \<sigma>")
    case True
    then consider "has \<sigma> (holds_opener k)" | c h where "lf_conns \<sigma> c = Some h" "cl_opener h = k" "\<not> cl_done h"
      using assms(1) by (auto simp: openers_owned_def)
    then show ?thesis
    proof cases
      case 1
      then show ?thesis using has_replace [OF 1 assms(2,3)] top [OF _ k] by blast
    next
      case 2
      then show ?thesis using conns k by blast
    qed
  qed (use new [OF k] has_new [OF assms(3)] in blast)
qed

lemma streams_intro:
  assumes "streams_owned \<sigma>" "lf_threads \<sigma> i = f # fs" "lf_threads \<tau> = (lf_threads \<sigma>)(i := gs @ fs)"
    and new: "\<And>s. s \<in> lf_streams \<tau> \<Longrightarrow> s \<in> lf_streams \<sigma> \<or> (\<exists>g \<in> set gs. holds s g)"
    and top: "\<And>s. holds s f \<Longrightarrow> s \<in> lf_streams \<tau> \<Longrightarrow> (\<exists>g \<in> set gs. holds s g) \<or>
       (\<exists>l. lf_sessions \<tau> s = Some l \<and> \<not> sl_done l)"
    and sess: "\<And>s l. lf_sessions \<sigma> s = Some l \<Longrightarrow> \<not> sl_done l \<Longrightarrow> s \<in> lf_streams \<tau> \<Longrightarrow>
       \<exists>l'. lf_sessions \<tau> s = Some l' \<and> \<not> sl_done l'"
  shows "streams_owned \<tau>"
  unfolding streams_owned_def
proof
  fix s assume s: "s \<in> lf_streams \<tau>"
  show "has \<tau> (holds s) \<or> (\<exists>l. lf_sessions \<tau> s = Some l \<and> \<not> sl_done l)"
  proof (cases "s \<in> lf_streams \<sigma>")
    case True
    then consider "has \<sigma> (holds s)" | l where "lf_sessions \<sigma> s = Some l" "\<not> sl_done l"
      using assms(1) by (auto simp: streams_owned_def)
    then show ?thesis
    proof cases
      case 1
      then show ?thesis using has_replace [OF 1 assms(2,3)] top [OF _ s] by blast
    next
      case 2
      then show ?thesis using sess s by blast
    qed
  qed (use new [OF s] has_new [OF assms(3)] in blast)
qed

lemma attended_intro:
  assumes "attended \<sigma>" "lf_threads \<sigma> i = f # fs" "lf_threads \<tau> = (lf_threads \<sigma>)(i := gs @ fs)"
    and sess: "\<And>s l. lf_sessions \<tau> s = Some l \<Longrightarrow> \<not> sl_done l \<Longrightarrow>
       (\<exists>l0. lf_sessions \<sigma> s = Some l0 \<and> \<not> sl_done l0) \<or> (\<exists>g \<in> set gs. runs s g)"
    and run: "\<And>s. runs s f \<Longrightarrow> (\<exists>g \<in> set gs. runs s g) \<or> (\<forall>l. lf_sessions \<tau> s = Some l \<longrightarrow> sl_done l)"
    and closing: "\<And>s l. lf_sessions \<tau> s = Some l \<Longrightarrow> sl_closing l \<Longrightarrow> s \<in> lf_streams \<tau> \<Longrightarrow>
       (\<exists>l0. lf_sessions \<sigma> s = Some l0 \<and> sl_closing l0 \<and> s \<in> lf_streams \<sigma>) \<or> SessClosing s \<in> set gs"
    and stream: "\<And>s. f = SessClosing s \<Longrightarrow> s \<notin> lf_streams \<tau>"
    and conns: "\<And>c k. lf_conns \<tau> c = Some k \<Longrightarrow> cl_closed k \<Longrightarrow> \<not> cl_done k \<Longrightarrow>
       (\<exists>k0. lf_conns \<sigma> c = Some k0 \<and> cl_closed k0 \<and> \<not> cl_done k0) \<or> (\<exists>g \<in> set gs. closes c g)"
    and conn: "\<And>c. closes c f \<Longrightarrow> (\<exists>g \<in> set gs. closes c g) \<or> (\<forall>k. lf_conns \<tau> c = Some k \<longrightarrow> cl_done k)"
    and server: "lf_closed \<tau> = lf_closed \<sigma>" "lf_done \<sigma> \<Longrightarrow> lf_done \<tau>"
    and serv: "closes_server f \<Longrightarrow> (\<exists>g \<in> set gs. closes_server g) \<or> lf_done \<tau>"
  shows "attended \<tau>"
proof -
  note rep = has_replace [OF _ assms(2,3)]
  note new = has_new [OF assms(3)]
  have a: "has \<tau> (runs s)" if "lf_sessions \<tau> s = Some l" "\<not> sl_done l" for s l
  proof (cases "\<exists>g \<in> set gs. runs s g")
    case False
    then have "has \<sigma> (runs s)" using sess [OF that] assms(1) by (auto simp: attended_def)
    then show ?thesis using rep [of "runs s"] run [of s] that by blast
  qed (rule new)
  have b: "has \<tau> (\<lambda>f. f = SessClosing s)" if "lf_sessions \<tau> s = Some l" "sl_closing l" "s \<in> lf_streams \<tau>" for s l
  proof (cases "SessClosing s \<in> set gs")
    case False
    then have "has \<sigma> (\<lambda>f. f = SessClosing s)" using closing [OF that] assms(1) by (auto simp: attended_def)
    then show ?thesis using rep [of "\<lambda>f. f = SessClosing s"] stream [of s] that(3) by blast
  qed (rule new; blast)
  have c: "has \<tau> (closes c)" if "lf_conns \<tau> c = Some k" "cl_closed k" "\<not> cl_done k" for c k
  proof (cases "\<exists>g \<in> set gs. closes c g")
    case False
    then have "has \<sigma> (closes c)" using conns [OF that] assms(1) by (auto simp: attended_def)
    then show ?thesis using rep [of "closes c"] conn [of c] that by blast
  qed (rule new)
  have d: "has \<tau> closes_server" if "lf_closed \<tau>" "\<not> lf_done \<tau>"
  proof -
    have "has \<sigma> closes_server" using assms(1) that server by (auto simp: attended_def)
    then show ?thesis using rep [of closes_server] serv that(2) by blast
  qed
  show ?thesis using a b c d by (auto simp: attended_def)
qed

lemma has_started:
  assumes "has \<sigma> P" "lf_threads \<sigma> i = Starting s # fs" "lf_threads \<sigma> j = []"
    "lf_threads \<tau> = (lf_threads \<sigma>)(i := fs, j := [Reading s])" "P (Starting s) \<Longrightarrow> P (Reading s)"
  shows "has \<tau> P"
proof -
  have "i \<noteq> j" using assms(2,3) by auto
  obtain m h where h: "h \<in> set (lf_threads \<sigma> m)" "P h" using assms(1) by (auto simp: has_def)
  show ?thesis
  proof (cases "m = i \<and> h = Starting s")
    case True
    then show ?thesis using h assms(4,5) by (auto simp: has_def intro!: exI [of _ j])
  next
    case False
    then have "h \<in> set (lf_threads \<tau> m)" using h assms(2-4) \<open>i \<noteq> j\<close> by (auto split: if_splits)
    then show ?thesis using h(2) by (auto simp: has_def)
  qed
qed

lemma owners_work:
  assumes "work_step \<sigma> \<tau>" "shapes \<sigma>" "bounded_ids \<sigma>" "held_once \<sigma>" "frames_ok \<sigma>" "registries_ok \<sigma>"
    and owners: "openers_owned \<sigma>" "streams_owned \<sigma>" "attended \<sigma>"
  shows "openers_owned \<tau> \<and> streams_owned \<tau> \<and> attended \<tau>"
proof -
  note top = frame_top [OF assms(5)]
  note own = openers_intro [OF owners(1)] streams_intro [OF owners(2)] attended_intro [OF owners(3)]
  have undone: "\<not> cl_done k" if "lf_conns \<sigma> c = Some k" "\<not> cl_closed k" for c k
    using assms(6) that by (auto simp: registries_ok_def conn_ok_def)
  show ?thesis using assms(1)
  proof cases
    case (register i opener fs c)
    have x: "lf_conns \<sigma> c = None" using assms(3) register(4) unfolding bounded_ids_def
      by (metis Suc_eq_plus1 Suc_n_not_le_n option.exhaust)
    show ?thesis
      by (intro conjI; (rule own, rule register(2), rule pushed, (simp add: register(1) lifecycle; fail)); use register x in \<open>auto simp: lifecycle frame_kinds split: if_splits\<close>)
  next
    case (conn_close i c fs k ss)
    have x: "\<not> cl_done k" using undone [OF conn_close(3,4)] .
    show ?thesis
      by (intro conjI; (rule own, rule conn_close(2), rule pushed, (simp add: conn_close(1) lifecycle; fail)); use conn_close x in \<open>auto simp: lifecycle frame_kinds split: if_splits\<close>)
  next
    case (conn_finish i c fs k)
    show ?thesis
      by (intro conjI; (rule own, rule conn_finish(2), rule pushed, (simp add: conn_finish(1) lifecycle; fail)); use conn_finish top [OF conn_finish(2)] in \<open>auto simp: lifecycle frame_kinds split: if_splits\<close>)
  next
    case (opened i c fs s)
    have x: "lf_sessions \<sigma> s = None" using assms(3) opened(3) unfolding bounded_ids_def
      by (metis Suc_eq_plus1 Suc_n_not_le_n option.exhaust)
    show ?thesis
      by (intro conjI; (rule own, rule opened(2), rule pushed, (simp add: opened(1) lifecycle; fail)); use opened x in \<open>auto simp: lifecycle frame_kinds split: if_splits\<close>)
  next
    case (add_session i c s fs k)
    have x: "\<not> cl_done k" using undone [OF add_session(3,4)] .
    show ?thesis
      by (intro conjI; (rule own, rule add_session(2), rule pushed, (simp add: add_session(1) lifecycle; fail)); use add_session x in \<open>auto simp: lifecycle frame_kinds split: if_splits\<close>)
  next
    case (sess_finish i s fs l)
    show ?thesis
      by (intro conjI; (rule own, rule sess_finish(2), rule pushed, (simp add: sess_finish(1) lifecycle; fail)); use sess_finish top [OF sess_finish(2)] in \<open>auto simp: lifecycle frame_kinds split: if_splits\<close>)
  next
    case (start i s fs j)
    show ?thesis
    proof (rule owners_same [of \<sigma>])
      show "has \<tau> P" if "has \<sigma> P" "\<And>s. P (Reading s) \<Longrightarrow> P (Ending s)" "\<And>s. P (Starting s) \<Longrightarrow> P (Reading s)" for P
        using has_started [OF that(1) start(2,3) _ that(3)] start(1) by (simp add: lifecycle)
    qed (use owners start(1) in \<open>simp_all add: lifecycle\<close>)
  qed (intro conjI; (rule own, assumption, rule pushed, (simp add: lifecycle; fail));
      auto simp: lifecycle frame_kinds split: if_splits; fail)+
qed

end
