(* ===== verification/Lifecycle_Safety.thy ===== *)
theory Lifecycle_Safety
  imports Lifecycle_Owners
begin

text \<open>
  The properties of the lifecycles: a \<open>Close\<close> that has returned has closed everything, whatever calls
  ran at the same time, and no goroutine waits for ever.
\<close>

definition busy_finite :: "lifecycle \<Rightarrow> bool" where
  "busy_finite \<sigma> \<longleftrightarrow> finite {i. lf_threads \<sigma> i \<noteq> []}"

definition sound :: "lifecycle \<Rightarrow> bool" where
  "sound \<sigma> \<longleftrightarrow> shapes \<sigma> \<and> bounded_ids \<sigma> \<and> held_once \<sigma> \<and> frames_ok \<sigma> \<and> registries_ok \<sigma> \<and>
     openers_owned \<sigma> \<and> streams_owned \<sigma> \<and> attended \<sigma> \<and> busy_finite \<sigma>"

lemma busy_finite_update:
  assumes "busy_finite \<sigma>" "lf_threads \<tau> = (lf_threads \<sigma>)(i := fs)"
  shows "busy_finite \<tau>"
proof -
  have "{j. lf_threads \<tau> j \<noteq> []} \<subseteq> insert i {j. lf_threads \<sigma> j \<noteq> []}" using assms(2) by auto
  then show ?thesis using assms(1) by (auto simp: busy_finite_def intro: finite_subset)
qed

lemma busy_finite_go [simp]: "busy_finite \<sigma> \<Longrightarrow> busy_finite (go i fs \<sigma>)"
  by (rule busy_finite_update) (auto simp: lifecycle)

lemma busy_finite_cong: "lf_threads \<tau> = lf_threads \<sigma> \<Longrightarrow> busy_finite \<tau> = busy_finite \<sigma>"
  by (simp add: busy_finite_def)

lemma busy_finite_frame [simp]:
  "busy_finite (put_conn c k \<sigma>) = busy_finite \<sigma>" "busy_finite (put_sess s l \<sigma>) = busy_finite \<sigma>"
  "busy_finite (add_connection c n \<sigma>) = busy_finite \<sigma>" "busy_finite (removeConnection c \<sigma>) = busy_finite \<sigma>"
  "busy_finite (add_session_to c k s \<sigma>) = busy_finite \<sigma>" "busy_finite (removeSession c k s \<sigma>) = busy_finite \<sigma>"
  "busy_finite (close_opener n \<sigma>) = busy_finite \<sigma>" "busy_finite (close_stream s \<sigma>) = busy_finite \<sigma>"
  "busy_finite (\<sigma>\<lparr>lf_closed := b\<rparr>) = busy_finite \<sigma>" "busy_finite (\<sigma>\<lparr>lf_done := b\<rparr>) = busy_finite \<sigma>"
  "busy_finite (\<sigma>\<lparr>lf_openers := ks\<rparr>) = busy_finite \<sigma>" "busy_finite (\<sigma>\<lparr>lf_streams := ks\<rparr>) = busy_finite \<sigma>"
  "busy_finite (\<sigma>\<lparr>lf_connections := ks\<rparr>) = busy_finite \<sigma>"
  "busy_finite (\<sigma>\<lparr>lf_next_opener := n\<rparr>) = busy_finite \<sigma>"
  "busy_finite (\<sigma>\<lparr>lf_next_connection := n\<rparr>) = busy_finite \<sigma>"
  "busy_finite (\<sigma>\<lparr>lf_next_session := n\<rparr>) = busy_finite \<sigma>"
  by (simp_all add: busy_finite_def lifecycle)

lemma busy_call: "call_step \<sigma> \<tau> \<Longrightarrow> busy_finite \<sigma> \<Longrightarrow> busy_finite \<tau>"
  by (cases rule: call_step.cases) auto

lemma busy_work: "work_step \<sigma> \<tau> \<Longrightarrow> busy_finite \<sigma> \<Longrightarrow> busy_finite \<tau>"
  by (cases rule: work_step.cases) auto

lemma sound_new: "sound new_server"
  by (simp add: sound_def new_server_def shapes_def bounded_ids_def held_once_def frames_ok_def
      registries_ok_def openers_owned_def streams_owned_def attended_def busy_finite_def)

lemma live_sound: "live \<sigma> \<Longrightarrow> sound \<sigma>"
proof (induction rule: live.induct)
  case (call \<sigma> \<tau>)
  then show ?case
    using shapes_call bounded_ids_call held_once_call frames_call registries_call owners_call busy_call
    unfolding sound_def by blast
next
  case (work \<sigma> \<tau>)
  then show ?case
    using shapes_work bounded_ids_work held_once_work frames_work registries_work owners_work busy_work
    unfolding sound_def by blast
qed (rule sound_new)

subsection \<open>No goroutine waits for ever\<close>

lemma idle_thread: "busy_finite \<sigma> \<Longrightarrow> \<exists>j. lf_threads \<sigma> j = []"
  unfolding busy_finite_def using infinite_UNIV_nat by (metis (mono_tags, lifting) UNIV_I ex_new_if_finite mem_Collect_eq)

lemma runner_works:
  assumes "sound \<sigma>" "lf_threads \<sigma> i = f # fs" "runs s f" "s \<notin> lf_streams \<sigma>"
  shows "\<exists>\<tau>. work_step \<sigma> \<tau>"
proof -
  have ok: "frame_ok \<sigma> (f # fs) f" using assms(1,2) frame_top unfolding sound_def by blast
  obtain j where j: "lf_threads \<sigma> j = []" using idle_thread assms(1) by (auto simp: sound_def)
  consider "f = Starting s" | "f = Reading s" | "f = Ending s" | "f = Finishing s"
    using assms(3) by (auto simp: runs_def)
  then show ?thesis
  proof cases
    case 4
    then show ?thesis using ok assms(2) work_step.sess_finish by fastforce
  qed (use assms j in \<open>blast intro: work_step.intros\<close>)+
qed

lemma below_loop: "shape (f # fs) \<Longrightarrow> g \<in> set fs \<Longrightarrow> (\<exists>cs. g = ServerClosing cs) \<or> (\<exists>c ss. g = ConnClosing c ss)"
proof (induction fs arbitrary: f)
  case (Cons h fs)
  then show ?case using shape_tl [of f "h # fs"] by (auto simp: nested_simps)
qed simp

lemma has_top:
  assumes "sound \<sigma>" "has \<sigma> P" "\<And>cs. \<not> P (ServerClosing cs)" "\<And>c ss. \<not> P (ConnClosing c ss)"
  obtains i f fs where "lf_threads \<sigma> i = f # fs" "P f"
proof -
  obtain i f where f: "f \<in> set (lf_threads \<sigma> i)" "P f" using assms(2) by (auto simp: has_def)
  then obtain g fs where g: "lf_threads \<sigma> i = g # fs" by (cases "lf_threads \<sigma> i") auto
  have "shape (g # fs)" using assms(1) g by (auto simp: sound_def shapes_def) (metis)
  then have "f = g" using below_loop [of g fs f] f g assms(3,4) by auto
  then show ?thesis using that g f(2) by blast
qed

lemma sess_waits_works:
  assumes "sound \<sigma>" "lf_threads \<sigma> i = SessWaits s # fs"
  shows "\<exists>\<tau>. work_step \<sigma> \<tau>"
proof -
  obtain l where l: "lf_sessions \<sigma> s = Some l" "sl_closing l"
    using assms frame_top [of \<sigma> i "SessWaits s" fs] by (auto simp: sound_def)
  have att: "attended \<sigma>" using assms(1) by (simp add: sound_def)
  consider "sl_done l" | "s \<in> lf_streams \<sigma>" | "\<not> sl_done l" "s \<notin> lf_streams \<sigma>" by blast
  then show ?thesis
  proof cases
    case 1
    then show ?thesis using assms(2) l work_step.sess_woken by blast
  next
    case 2
    then have "has \<sigma> (\<lambda>f. f = SessClosing s)" using att l by (auto simp: attended_def)
    then obtain j gs where "lf_threads \<sigma> j = SessClosing s # gs"
      by (rule has_top [OF assms(1)]) auto
    then show ?thesis using work_step.sess_stream by blast
  next
    case 3
    then have "has \<sigma> (runs s)" using att l by (auto simp: attended_def)
    then obtain j g gs where "lf_threads \<sigma> j = g # gs" "runs s g"
      using has_top [OF assms(1), of "runs s"] by (auto simp: runs_def)
    then show ?thesis using runner_works [OF assms(1)] 3(2) by blast
  qed
qed

lemma sess_frame_works:
  assumes "sound \<sigma>" "lf_threads \<sigma> i = f # fs" "on_sess s f"
  shows "\<exists>\<tau>. work_step \<sigma> \<tau>"
proof -
  have ok: "frame_ok \<sigma> (f # fs) f" using assms(1,2) frame_top unfolding sound_def by blast
  have "f = SessClose s \<or> f = SessClosing s \<or> f = SessWaits s" using assms(3) by (cases f) auto
  then consider "f = SessClose s" | "f = SessClosing s" | "f = SessWaits s" by blast
  then show ?thesis
  proof cases
    case 1
    then obtain l where l: "lf_sessions \<sigma> s = Some l" using ok by auto
    then show ?thesis using 1 assms(2) work_step.sess_close work_step.sess_close_again by blast
  next
    case 2
    then show ?thesis using assms(2) work_step.sess_stream by blast
  next
    case 3
    then show ?thesis using assms(2) sess_waits_works [OF assms(1)] by blast
  qed
qed

text \<open>A stack with a frame that is closing a connection can go on, whatever is above that frame.\<close>

lemma closer_works:
  assumes "sound \<sigma>" "has \<sigma> (closes c)"
  shows "\<exists>\<tau>. work_step \<sigma> \<tau>"
proof -
  obtain i f where f: "f \<in> set (lf_threads \<sigma> i)" "closes c f" using assms(2) by (auto simp: has_def)
  then obtain g fs where g: "lf_threads \<sigma> i = g # fs" by (cases "lf_threads \<sigma> i") auto
  have sh: "shape (g # fs)" using assms(1) g unfolding sound_def shapes_def by metis
  have ok: "frame_ok \<sigma> (g # fs) h" if "h \<in> set (g # fs)" for h
    using assms(1) that g unfolding sound_def frames_ok_def by metis
  have known: "lf_conns \<sigma> c \<noteq> None" using ok [of f] f g by (auto simp: closes_def)
  show ?thesis
  proof (cases "f = g")
    case True
    consider "g = ConnFinishing c" | "g = ConnClosing c []" | s ss where "g = ConnClosing c (s # ss)"
      using True f(2) by (auto simp: closes_def) (metis neq_Nil_conv)
    then show ?thesis
    proof cases
      case 1
      then show ?thesis using g known work_step.conn_finish by fastforce
    next
      case 2
      then show ?thesis using g known work_step.conn_opener by fastforce
    next
      case 3
      then show ?thesis using g work_step.conn_next by blast
    qed
  next
    case False
    then obtain h hs where fs: "fs = h # hs" using f(1) g by (cases fs) auto
    have ns: "\<And>cs. h = ServerClosing cs \<Longrightarrow> hs = []" using sh fs shape_server by (auto dest: shape_tl)
    have "\<exists>d ss. h = ConnClosing d ss"
    proof (rule ccontr)
      assume "\<nexists>d ss. h = ConnClosing d ss"
      then have "\<exists>cs. h = ServerClosing cs" using sh fs by (auto simp: nested_simps)
      then show False using ns f g fs False by (auto simp: closes_def)
    qed
    then obtain s where "on_sess s g" using sh fs by (auto simp: nested_simps)
    then show ?thesis using sess_frame_works [OF assms(1) g] by blast
  qed
qed

lemma conn_frame_works:
  assumes "sound \<sigma>" "lf_threads \<sigma> i = f # fs" "on_conn c f \<or> f = ConnRemoving c"
  shows "\<exists>\<tau>. work_step \<sigma> \<tau>"
proof -
  have ok: "frame_ok \<sigma> (f # fs) f" using assms(1,2) frame_top unfolding sound_def by blast
  have att: "attended \<sigma>" using assms(1) by (simp add: sound_def)
  have "f = ConnClose c \<or> closes c f \<or> f = ConnWaits c \<or> f = ConnRemoving c"
    using assms(3) by (cases f) (auto simp: closes_def)
  then consider "f = ConnClose c" | "closes c f" | "f = ConnWaits c" | "f = ConnRemoving c" by blast
  then show ?thesis
  proof cases
    case 1
    then obtain k where k: "lf_conns \<sigma> c = Some k" using ok by auto
    obtain ss where "set ss = cl_sessions k"
    proof -
      have "cl_sessions k \<subseteq> {..lf_next_session \<sigma>}"
        using assms(1) k unfolding sound_def registries_ok_def conn_ok_def bounded_ids_def by fastforce
      then have "finite (cl_sessions k)" by (rule finite_subset) simp
      then show ?thesis using finite_list that by blast
    qed
    then show ?thesis using k 1 assms(2) work_step.conn_close work_step.conn_close_again by blast
  next
    case 2
    then have "has \<sigma> (closes c)" using assms(2) by (auto simp: has_def intro!: exI [of _ i])
    then show ?thesis by (rule closer_works [OF assms(1)])
  next
    case 3
    then obtain k where k: "lf_conns \<sigma> c = Some k" "cl_closed k" using ok by auto
    show ?thesis
    proof (cases "cl_done k")
      case True
      then show ?thesis using 3 assms(2) k work_step.conn_woken by blast
    next
      case False
      then have "has \<sigma> (closes c)" using att k by (auto simp: attended_def)
      then show ?thesis by (rule closer_works [OF assms(1)])
    qed
  next
    case 4
    then show ?thesis using assms(2) work_step.conn_remove by blast
  qed
qed

lemma server_closer_works:
  assumes "sound \<sigma>" "has \<sigma> closes_server"
  shows "\<exists>\<tau>. work_step \<sigma> \<tau>"
proof -
  obtain i cs where f: "ServerClosing cs \<in> set (lf_threads \<sigma> i)"
    using assms(2) by (auto simp: has_def closes_server_def)
  then obtain g fs where g: "lf_threads \<sigma> i = g # fs" by (cases "lf_threads \<sigma> i") auto
  have sh: "shape (g # fs)" using assms(1) g unfolding sound_def shapes_def by metis
  show ?thesis
  proof (cases fs)
    case Nil
    then have "g = ServerClosing cs" using f g by auto
    then show ?thesis using g work_step.server_next work_step.server_finish by (cases cs) blast+
  next
    case (Cons h hs)
    then have "(\<exists>c. on_conn c g \<or> g = ConnRemoving c) \<or> (\<exists>s. on_sess s g)" using sh by (auto simp: nested_simps)
    then show ?thesis using conn_frame_works [OF assms(1) g] sess_frame_works [OF assms(1) g] by blast
  qed
qed

lemma known_conn: "registries_ok \<sigma> \<Longrightarrow> lf_sessions \<sigma> s = Some l \<Longrightarrow> \<exists>k. lf_conns \<sigma> (sl_conn l) = Some k"
proof -
  assume "registries_ok \<sigma>" "lf_sessions \<sigma> s = Some l"
  then have "sess_ok \<sigma> s l" by (simp add: registries_ok_def)
  then show ?thesis by (auto simp: sess_ok_def)
qed

text \<open>
  C9: However calls, closings and ending streams interleave, as long as some goroutine is inside
  \<open>Connect\<close>, \<open>NewSession\<close> or a \<open>Close\<close>, or has a session left to finish, some goroutine can take a
  step without the remote side doing anything: no \<open>Close\<close> of a session, a connection or the server
  waits in a cycle.
\<close>

theorem no_goroutine_stuck:
  assumes "live \<sigma>" "lf_threads \<sigma> i = f # fs" "\<forall>s. f \<noteq> Reading s"
  shows "\<exists>\<tau>. work_step \<sigma> \<tau>"
proof -
  have s: "sound \<sigma>" using live_sound [OF assms(1)] .
  have ok: "frame_ok \<sigma> (f # fs) f" using s assms(2) frame_top unfolding sound_def by blast
  have reg: "registries_ok \<sigma>" and att: "attended \<sigma>" using s by (simp_all add: sound_def)
  note here = has_def [THEN iffD2, OF exI [of _ i]]
  show ?thesis
  proof (cases f)
    case (Opened c d)
    then obtain k where "lf_conns \<sigma> c = Some k" using ok by auto
    then show ?thesis using assms(2) Opened work_step.add_session work_step.add_refused by blast
  next
    case (ServerClosing cs)
    then have "has \<sigma> closes_server" using assms(2) by (auto intro!: here simp: closes_server_def)
    then show ?thesis by (rule server_closer_works [OF s])
  next
    case ServerWaits
    then have "lf_done \<sigma> \<or> has \<sigma> closes_server" using ok att by (auto simp: attended_def)
    then show ?thesis using server_closer_works [OF s] work_step.server_woken assms(2) ServerWaits by blast
  next
    case (ConnClosing c ss)
    then have "has \<sigma> (closes c)" using assms(2) by (auto intro!: here simp: closes_def)
    then show ?thesis by (rule closer_works [OF s])
  next
    case (SessRemoving d)
    then obtain l where l: "lf_sessions \<sigma> d = Some l" using ok by auto
    then obtain k where "lf_conns \<sigma> (sl_conn l) = Some k" using known_conn [OF reg] by blast
    then show ?thesis using assms(2) SessRemoving l work_step.sess_remove by blast
  next
    case (Starting d)
    obtain j where "lf_threads \<sigma> j = []" using idle_thread s by (auto simp: sound_def)
    then show ?thesis using assms(2) Starting work_step.start by blast
  next
    case (Finishing d)
    then show ?thesis using assms(2) ok work_step.sess_finish by fastforce
  next
    case (Reading d)
    then show ?thesis using assms(3) by simp
  next
    case (Dialed opener)
    then show ?thesis using assms(2) work_step.register work_step.register_refused by blast
  qed ((use sess_frame_works [OF s assms(2)] conn_frame_works [OF s assms(2)] in \<open>simp; fail\<close>) | use assms(2) in \<open>blast intro: work_step.intros\<close>)+
qed

subsection \<open>What a returned Close means\<close>

text \<open>
  A run of the server for the witnesses: goroutine 0 connects and goroutine 2 is connecting while
  goroutine 1 closes the server.
\<close>

definition run_dialed :: lifecycle where
  "run_dialed = go 0 [Dialed 0] (new_server\<lparr>lf_openers := {0}, lf_next_opener := 1\<rparr>)"

lemma live_dialed: "live run_dialed"
proof -
  have "live (go 0 [Dialing] new_server)"
    by (rule live.call [OF live.start_server], rule call_step.connect) (simp_all add: new_server_def)
  moreover have "work_step (go 0 [Dialing] new_server) run_dialed"
    using work_step.dialed [of "go 0 [Dialing] new_server" 0 "[]" 0]
    by (simp add: run_dialed_def lifecycle new_server_def)
  ultimately show ?thesis by (rule live.work)
qed

theorem no_goroutine_stuck_witness: "\<exists>\<tau>. work_step run_dialed \<tau>"
  by (rule no_goroutine_stuck [OF live_dialed, of 0 "Dialed 0" "[]"])
    (simp_all add: run_dialed_def lifecycle)

definition run_server_closed :: lifecycle where
  "run_server_closed = go 1 [] (run_dialed\<lparr>lf_closed := True, lf_done := True\<rparr>)"

lemma live_server_closed: "live run_server_closed"
proof -
  let ?a = "go 1 [ServerClosing []] (run_dialed\<lparr>lf_closed := True\<rparr>)"
  have "live ?a"
    by (rule live.call [OF live_dialed], rule call_step.server_close)
      (simp_all add: run_dialed_def new_server_def lifecycle)
  moreover have "work_step ?a run_server_closed"
    using work_step.server_finish [of ?a 1 "[]"] by (simp add: run_server_closed_def lifecycle)
  ultimately show ?thesis by (rule live.work)
qed

definition run_registered :: lifecycle where
  "run_registered = go 0 [] (put_conn 1 \<lparr>cl_opener = 0, cl_sessions = {}, cl_closed = False, cl_done = False\<rparr>
     (run_dialed\<lparr>lf_next_connection := 1, lf_connections := {1}\<rparr>))"

lemma live_registered: "live run_registered"
  using live.work [OF live_dialed work_step.register [of run_dialed 0 0 "[]" 1]]
  by (simp add: run_registered_def run_dialed_def new_server_def lifecycle)

definition life_open :: "bool \<Rightarrow> bool \<Rightarrow> conn_life" where
  "life_open closed fin = \<lparr>cl_opener = 0, cl_sessions = {}, cl_closed = closed, cl_done = fin\<rparr>"

definition run_conn_closing :: lifecycle where
  "run_conn_closing = go 0 [ConnClosing 1 []] (put_conn 1 (life_open True False) (go 0 [ConnClose 1] run_registered))"

definition run_conn_finishing :: lifecycle where
  "run_conn_finishing = go 0 [ConnFinishing 1] (run_conn_closing\<lparr>lf_openers := lf_openers run_conn_closing - {0}\<rparr>)"

definition run_conn_closed :: lifecycle where
  "run_conn_closed = go 0 [ConnRemoving 1] (put_conn 1 (life_open True True) run_conn_finishing)"

lemmas run_defs = run_conn_closed_def run_conn_finishing_def run_conn_closing_def life_open_def run_registered_def

lemma live_conn_closed: "live run_conn_closed"
proof -
  have "live (go 0 [ConnClose 1] run_registered)"
    by (rule live.call [OF live_registered], rule call_step.conn_call) (simp_all add: run_registered_def lifecycle)
  moreover have "work_step (go 0 [ConnClose 1] run_registered) run_conn_closing"
    using work_step.conn_close [of "go 0 [ConnClose 1] run_registered" 0 1 "[]" "life_open False False" "[]"]
    by (simp add: lifecycle run_defs)
  ultimately have "live run_conn_closing" by (rule live.work)
  moreover have "work_step run_conn_closing run_conn_finishing"
    using work_step.conn_opener [of run_conn_closing 0 1 "[]" "life_open True False"] by (simp add: lifecycle run_defs)
  ultimately have "live run_conn_finishing" by (rule live.work)
  moreover have "work_step run_conn_finishing run_conn_closed"
    using work_step.conn_finish [of run_conn_finishing 0 1 "[]" "life_open True False"] by (simp add: lifecycle run_defs)
  ultimately show ?thesis by (rule live.work)
qed

text \<open>
  C8: When \<open>Server.Close\<close> has returned, every connection is closed and every session has ended; a
  transport that is still open is in the hands of a \<open>Connect\<close> that will close it and fail, a stream
  that is still open in the hands of a \<open>NewSession\<close> that will do the same.
\<close>

theorem server_close_leaves_nothing:
  assumes "live \<sigma>" "lf_done \<sigma>"
  shows "(\<forall>c k. lf_conns \<sigma> c = Some k \<longrightarrow> cl_done k) \<and> (\<forall>s l. lf_sessions \<sigma> s = Some l \<longrightarrow> sl_done l) \<and>
     (\<forall>k \<in> lf_openers \<sigma>. \<exists>i. Dialed k \<in> set (lf_threads \<sigma> i) \<or> RejectOpener k \<in> set (lf_threads \<sigma> i)) \<and>
     (\<forall>s \<in> lf_streams \<sigma>. \<exists>i c. Opened c s \<in> set (lf_threads \<sigma> i) \<or> RejectStream s \<in> set (lf_threads \<sigma> i))"
proof -
  have s: "sound \<sigma>" using live_sound [OF assms(1)] .
  then have reg: "registries_ok \<sigma>" by (simp add: sound_def)
  have conns: "\<forall>c k. lf_conns \<sigma> c = Some k \<longrightarrow> cl_done k" using reg assms(2) by (simp add: registries_ok_def)
  have sess: "sl_done l" if l: "lf_sessions \<sigma> d = Some l" for d l
  proof -
    obtain k where k: "lf_conns \<sigma> (sl_conn l) = Some k" using known_conn [OF reg l] by blast
    then have "settled \<sigma> (sl_conn l)" using reg conns by (auto simp: registries_ok_def conn_ok_def)
    then show ?thesis using l by (auto simp: settled_def)
  qed
  have "has \<sigma> (holds_opener k)" if "k \<in> lf_openers \<sigma>" for k
    using s that conns by (auto simp: sound_def openers_owned_def)
  moreover have "has \<sigma> (holds d)" if "d \<in> lf_streams \<sigma>" for d
    using s that sess unfolding sound_def streams_owned_def by blast
  moreover have "holds d f \<Longrightarrow> f = RejectStream d \<or> (\<exists>c. f = Opened c d)" for d f by (cases f) auto
  ultimately show ?thesis using conns sess unfolding has_def holds_opener_def by metis
qed

theorem server_close_leaves_nothing_witness:
  "\<exists>i. Dialed 0 \<in> set (lf_threads run_server_closed i) \<or> RejectOpener 0 \<in> set (lf_threads run_server_closed i)"
proof -
  have "lf_done run_server_closed" "0 \<in> lf_openers run_server_closed"
    by (simp_all add: run_server_closed_def run_dialed_def lifecycle)
  then show ?thesis using server_close_leaves_nothing [OF live_server_closed] by blast
qed

text \<open>
  When \<open>Connection.Close\<close> has returned, the transport is closed, every session that was opened on
  the connection has ended and its stream is closed, and no later step revives any of it: the
  connection is removed from the server's registry at most once and never comes back.
\<close>

theorem connection_close_complete:
  assumes "live \<sigma>" "lf_conns \<sigma> c = Some k" "cl_done k" "call_step \<sigma> \<tau> \<or> work_step \<sigma> \<tau>"
  shows "cl_opener k \<notin> lf_openers \<sigma> \<and>
     (\<forall>s l. lf_sessions \<sigma> s = Some l \<longrightarrow> sl_conn l = c \<longrightarrow> sl_done l \<and> s \<notin> lf_streams \<sigma>) \<and>
     (\<exists>k'. lf_conns \<tau> c = Some k' \<and> cl_done k' \<and> cl_opener k' = cl_opener k) \<and>
     (c \<notin> lf_connections \<sigma> \<longrightarrow> c \<notin> lf_connections \<tau>)"
proof -
  have s: "sound \<sigma>" using live_sound [OF assms(1)] .
  have g: "grows \<sigma> \<tau>" using assms(4) grows_call grows_work s unfolding sound_def by blast
  have "c \<le> lf_next_connection \<sigma>" using s assms(2) by (simp add: sound_def bounded_ids_def)
  then have "c \<noteq> lf_next_connection \<sigma> + 1" by simp
  then have r: "c \<notin> lf_connections \<sigma> \<longrightarrow> c \<notin> lf_connections \<tau>"
    using assms(4) by (auto simp: lifecycle elim!: call_step.cases work_step.cases)
  have "conn_ok \<sigma> c k" using s assms(2) by (auto simp: sound_def registries_ok_def)
  then have k: "cl_opener k \<notin> lf_openers \<sigma>" "settled \<sigma> c" using assms(3) by (auto simp: conn_ok_def)
  have "s \<notin> lf_streams \<sigma>" if "lf_sessions \<sigma> s = Some l" "sl_done l" for s l
  proof -
    have "sess_ok \<sigma> s l" using s that by (auto simp: sound_def registries_ok_def)
    then show ?thesis using that(2) by (simp add: sess_ok_def)
  qed
  moreover have "\<exists>k'. lf_conns \<tau> c = Some k' \<and> cl_done k' \<and> cl_opener k' = cl_opener k"
    using grows_conn [OF g assms(2)] assms(3) by metis
  ultimately show ?thesis using k r unfolding settled_def by blast
qed

theorem connection_close_complete_witness:
  "0 \<notin> lf_openers run_conn_closed \<and> lf_conns run_conn_closed 1 \<noteq> None"
proof -
  have k: "lf_conns run_conn_closed 1 = Some (life_open True True)" by (simp add: run_conn_closed_def lifecycle)
  have "work_step run_conn_closed (go 0 [] (removeConnection 1 run_conn_closed))"
    by (rule work_step.conn_remove) (simp add: run_conn_closed_def lifecycle)
  from connection_close_complete [OF live_conn_closed k _ disjI2 [OF this]]
  show ?thesis using k by (simp add: life_open_def)
qed

end
