(* ===== verification/Driver.thy ===== *)
theory Driver
  imports Session_Wait
begin

text \<open>
  The object registry of the JSON-RPC driver (\<open>driver/server.go\<close>, \<open>driver/control.go\<close>). Every request
  runs in its own goroutine, so the registry is described by its critical sections: one definition for
  each stretch of code between locking and unlocking the server's mutex. The handlers compose them
  with calls of the core in between.

  Connections and sessions of the core are known by the numbers the core gave them. The gate of a
  session is the mutex that input of RPC clients and the hand-over of exclusive control go through:
  \<open>dr_gates\<close> are the sessions whose gate a request is holding. A controller is the token it was given; it
  controls the session as long as the registry holds that token.
\<close>

record connectionRecord =
  cr_connection :: nat
  cr_protocol :: string
  cr_address :: string

record sessionRecord =
  sr_connectionID :: nat
  sr_session :: nat
  sr_terminal :: string

record subscriptionRecord =
  sub_sessionID :: nat
  sub_started :: bool

record driver =
  dr_connections :: "nat \<rightharpoonup> connectionRecord"
  dr_sessions :: "nat \<rightharpoonup> sessionRecord"
  dr_subscriptions :: "nat \<rightharpoonup> subscriptionRecord"
  dr_controls :: "nat \<rightharpoonup> nat"
  dr_nextConnection :: nat
  dr_nextSession :: nat
  dr_nextSubscription :: nat
  dr_nextControl :: nat
  dr_cancelled :: "nat set"
  dr_closed :: bool
  dr_gates :: "nat set"

definition new_driver :: driver where
  "new_driver =
     \<lparr>dr_connections = Map.empty, dr_sessions = Map.empty, dr_subscriptions = Map.empty,
      dr_controls = Map.empty, dr_nextConnection = 0, dr_nextSession = 0, dr_nextSubscription = 0,
      dr_nextControl = 0, dr_cancelled = {}, dr_closed = False, dr_gates = {}\<rparr>"

subsection \<open>Errors\<close>

text \<open>The errors of the driver, with the code each has on the wire.\<close>

datatype driver_error =
    InvalidParams string
  | UnknownConnection nat
  | UnknownSession nat
  | UnknownSubscription nat
  | InvalidMatcher matcher_error
  | UnknownModifier string
  | MethodNotFound
  | InvalidRequest
  | ParseError
  | ExclusiveController nat
  | DriverClosed
  | ConnectionClosed
  | CoreFailed string
  | WaitFailure wait_error

definition error_code :: "driver_error \<Rightarrow> int" where
  "error_code e =
     (case e of
        MethodNotFound \<Rightarrow> -32601
      | InvalidRequest \<Rightarrow> -32600
      | ParseError \<Rightarrow> -32700
      | InvalidParams _ \<Rightarrow> -32602
      | UnknownConnection _ \<Rightarrow> -32602
      | UnknownSession _ \<Rightarrow> -32602
      | UnknownSubscription _ \<Rightarrow> -32602
      | InvalidMatcher _ \<Rightarrow> -32602
      | UnknownModifier _ \<Rightarrow> -32602
      | ExclusiveController _ \<Rightarrow> -32000
      | DriverClosed \<Rightarrow> -32000
      | ConnectionClosed \<Rightarrow> -32000
      | CoreFailed _ \<Rightarrow> -32000
      | WaitFailure _ \<Rightarrow> -32000)"

subsection \<open>Connections\<close>

text \<open>The end of \<open>connection.open\<close>; \<open>None\<close> when the driver was closed in the meantime.\<close>

definition register_connection ::
  "nat \<Rightarrow> string \<Rightarrow> string \<Rightarrow> driver \<Rightarrow> nat option \<times> driver" where
  "register_connection connection protocol address s =
     (if dr_closed s then (None, s)
      else (let i = dr_nextConnection s + 1
            in (Some i, s\<lparr>dr_nextConnection := i,
                  dr_connections := (dr_connections s)(i \<mapsto>
                    \<lparr>cr_connection = connection, cr_protocol = protocol, cr_address = address\<rparr>)\<rparr>)))"

definition cancelSessionSubscriptions :: "nat set \<Rightarrow> driver \<Rightarrow> driver" where
  "cancelSessionSubscriptions ids s =
     (let gone = {i. \<exists>sub. dr_subscriptions s i = Some sub \<and> sub_sessionID sub \<in> ids}
      in s\<lparr>dr_cancelled := dr_cancelled s \<union> gone, dr_subscriptions := dr_subscriptions s |` (- gone)\<rparr>)"

definition remove_sessions :: "nat set \<Rightarrow> driver \<Rightarrow> driver" where
  "remove_sessions ids s =
     (let s1 = cancelSessionSubscriptions ids s
      in s1\<lparr>dr_controls := dr_controls s1 |` (- ids), dr_sessions := dr_sessions s1 |` (- ids)\<rparr>)"

definition sessions_of :: "nat \<Rightarrow> driver \<Rightarrow> nat set" where
  "sessions_of connection s =
     {i. \<exists>r. dr_sessions s i = Some r \<and> sr_connectionID r = connection}"

definition remove_connection :: "nat \<Rightarrow> driver \<Rightarrow> connectionRecord option \<times> driver" where
  "remove_connection i s =
     (case dr_connections s i of
        None \<Rightarrow> (None, s)
      | Some r \<Rightarrow>
          (Some r, remove_sessions (sessions_of i s)
                     (s\<lparr>dr_connections := (dr_connections s)(i := None)\<rparr>)))"

subsection \<open>Sessions\<close>

text \<open>The end of \<open>session.open\<close>; \<open>None\<close> when the connection or the driver was closed in the meantime.\<close>

definition register_session ::
  "nat \<Rightarrow> connectionRecord \<Rightarrow> nat \<Rightarrow> string \<Rightarrow> driver \<Rightarrow> nat option \<times> driver" where
  "register_session connectionID connection session t s =
     (if dr_closed s \<or> (case dr_connections s connectionID of
                            None \<Rightarrow> True
                          | Some current \<Rightarrow> cr_connection current \<noteq> cr_connection connection)
      then (None, s)
      else (let i = dr_nextSession s + 1
            in (Some i, s\<lparr>dr_nextSession := i,
                  dr_sessions := (dr_sessions s)(i \<mapsto>
                    \<lparr>sr_connectionID = connectionID, sr_session = session, sr_terminal = t\<rparr>)\<rparr>)))"

definition remove_session :: "nat \<Rightarrow> driver \<Rightarrow> sessionRecord option \<times> driver" where
  "remove_session i s =
     (case dr_sessions s i of None \<Rightarrow> (None, s) | Some r \<Rightarrow> (Some r, remove_sessions {i} s))"

definition getSession :: "nat \<Rightarrow> driver \<Rightarrow> driver_error + nat" where
  "getSession i s =
     (case dr_sessions s i of None \<Rightarrow> Inl (UnknownSession i) | Some r \<Rightarrow> Inr (sr_session r))"

subsection \<open>Input and control\<close>

text \<open>
  \<open>getSessionForMutation\<close>: the first section finds the record, then the gate is taken, which blocks
  (\<open>None\<close>) while another request holds it; the second section decides whether it is kept.
\<close>

definition begin_mutation :: "nat \<Rightarrow> sessionRecord \<Rightarrow> driver \<Rightarrow> ((driver_error + nat) \<times> driver) option" where
  "begin_mutation i record s =
     (if i \<in> dr_gates s then None
      else Some (case dr_sessions s i of
          None \<Rightarrow> (Inl (UnknownSession i), s)
        | Some current \<Rightarrow>
            if sr_session current \<noteq> sr_session record then (Inl (UnknownSession i), s)
            else if dr_controls s i \<noteq> None then (Inl (ExclusiveController i), s)
            else (Inr (sr_session record), s\<lparr>dr_gates := insert i (dr_gates s)\<rparr>)))"

definition end_mutation :: "nat \<Rightarrow> driver \<Rightarrow> driver" where
  "end_mutation i s = s\<lparr>dr_gates := dr_gates s - {i}\<rparr>"

datatype control_error = NotRegistered nat | AlreadyControlled nat | ControlReleased | ControlFailed string

text \<open>\<open>AcquireSessionControl\<close> after its lookup: the gate is held for the duration of this section only.\<close>

definition acquire_control :: "nat \<Rightarrow> sessionRecord \<Rightarrow> driver \<Rightarrow> ((control_error + nat) \<times> driver) option" where
  "acquire_control i record s =
     (if i \<in> dr_gates s then None
      else Some (case dr_sessions s i of
          None \<Rightarrow> (Inl (NotRegistered i), s)
        | Some current \<Rightarrow>
            if sr_session current \<noteq> sr_session record then (Inl (NotRegistered i), s)
            else if dr_controls s i \<noteq> None then (Inl (AlreadyControlled i), s)
            else (let token = dr_nextControl s + 1
                  in (Inr token, s\<lparr>dr_nextControl := token, dr_controls := (dr_controls s)(i \<mapsto> token)\<rparr>))))"

definition control_active :: "nat \<Rightarrow> nat \<Rightarrow> driver \<Rightarrow> bool" where
  "control_active i token s \<longleftrightarrow> dr_controls s i = Some token"

definition release_control :: "nat \<Rightarrow> nat \<Rightarrow> driver \<Rightarrow> driver option" where
  "release_control i token s =
     (if i \<in> dr_gates s then None
      else Some (if control_active i token s then s\<lparr>dr_controls := (dr_controls s)(i := None)\<rparr> else s))"

subsection \<open>Subscriptions\<close>

text \<open>
  The context of a subscription is derived from that of the driver, which \<open>Close\<close> cancels: a subscription
  added after \<open>Close\<close> is registered with a context that is cancelled already.
\<close>

definition add_subscription :: "nat \<Rightarrow> driver \<Rightarrow> nat \<times> driver" where
  "add_subscription session s =
     (let i = dr_nextSubscription s + 1
      in (i, s\<lparr>dr_nextSubscription := i,
               dr_subscriptions := (dr_subscriptions s)(i \<mapsto> \<lparr>sub_sessionID = session, sub_started = False\<rparr>),
               dr_cancelled := (if dr_closed s then insert i (dr_cancelled s) else dr_cancelled s)\<rparr>))"

definition startSubscription :: "nat \<Rightarrow> driver \<Rightarrow> driver" where
  "startSubscription i s =
     (case dr_subscriptions s i of
        None \<Rightarrow> s
      | Some sub \<Rightarrow> s\<lparr>dr_subscriptions := (dr_subscriptions s)(i \<mapsto> sub\<lparr>sub_started := True\<rparr>)\<rparr>)"

text \<open>
  The end of a subscription's goroutine. One that finds its context done before it is started returns
  without this section.
\<close>

definition end_subscription :: "nat \<Rightarrow> driver \<Rightarrow> driver" where
  "end_subscription i s = s\<lparr>dr_subscriptions := (dr_subscriptions s)(i := None)\<rparr>"

definition unsubscribe_section :: "nat \<Rightarrow> driver \<Rightarrow> bool \<times> driver" where
  "unsubscribe_section i s =
     (case dr_subscriptions s i of
        None \<Rightarrow> (False, s)
      | Some _ \<Rightarrow> (True, (end_subscription i s)\<lparr>dr_cancelled := insert i (dr_cancelled s)\<rparr>))"

text \<open>The section of \<open>Close\<close>; the boolean is whether the driver was open.\<close>

definition close_driver :: "driver \<Rightarrow> bool \<times> driver" where
  "close_driver s =
     (if dr_closed s then (False, s)
      else (True, s\<lparr>dr_closed := True, dr_cancelled := dr_cancelled s \<union> dom (dr_subscriptions s),
                    dr_subscriptions := Map.empty, dr_controls := Map.empty\<rparr>))"

subsection \<open>Durations\<close>

definition milliseconds :: "int \<Rightarrow> bool \<Rightarrow> string + int" where
  "milliseconds v allowZero =
     (if v < 0 \<or> (\<not> allowZero \<and> v = 0) then Inl ''value must be positive''
      else if v > (2 ^ 63 - 1) div 1000000 then Inl ''value is too large''
      else Inr (v * 1000000))"

subsection \<open>Snapshots\<close>

record connectionSnapshot =
  cs_id :: nat
  cs_protocol :: string
  cs_address :: string

record sessionSnapshot =
  sn_id :: nat
  sn_connectionID :: nat
  sn_terminal :: string
  sn_width :: int
  sn_height :: int
  sn_revision :: nat
  sn_ended :: bool
  sn_error :: "session_error option"
  sn_unsupported :: "unsupported_sequence list"

record driverSnapshot =
  ds_closed :: bool
  ds_connections :: "connectionSnapshot list"
  ds_sessions :: "sessionSnapshot list"

definition connection_snapshot :: "driver \<Rightarrow> nat \<Rightarrow> connectionSnapshot option" where
  "connection_snapshot s i =
     map_option (\<lambda>r. \<lparr>cs_id = i, cs_protocol = cr_protocol r, cs_address = cr_address r\<rparr>) (dr_connections s i)"

definition session_snapshot ::
  "'t terminal_ops \<Rightarrow> (nat \<Rightarrow> ('t, 'c) session) \<Rightarrow> driver \<Rightarrow> nat \<Rightarrow> sessionSnapshot option" where
  "session_snapshot T core s i =
     map_option (\<lambda>r. let session = core (sr_session r); screen = to_snapshot T (ss_terminal session)
                   in \<lparr>sn_id = i, sn_connectionID = sr_connectionID r, sn_terminal = sr_terminal r,
                       sn_width = scr_width screen, sn_height = scr_height screen,
                       sn_revision = scr_revision screen, sn_ended = ss_done session,
                       sn_error = (if ss_done session then ss_err session else None),
                       sn_unsupported = ss_unsupported session\<rparr>) (dr_sessions s i)"

text \<open>The identifiers of a registry in ascending order: all of them are at most its counter.\<close>

definition sorted_ids :: "(nat \<rightharpoonup> 'a) \<Rightarrow> nat \<Rightarrow> nat list" where
  "sorted_ids m n = filter (\<lambda>i. m i \<noteq> None) [0..<Suc n]"

definition DriverSnapshot ::
  "'t terminal_ops \<Rightarrow> (nat \<Rightarrow> ('t, 'c) session) \<Rightarrow> driver \<Rightarrow> driverSnapshot" where
  "DriverSnapshot T core s =
     \<lparr>ds_closed = dr_closed s,
      ds_connections = List.map_filter (connection_snapshot s) (sorted_ids (dr_connections s) (dr_nextConnection s)),
      ds_sessions = List.map_filter (session_snapshot T core s) (sorted_ids (dr_sessions s) (dr_nextSession s))\<rparr>"

end
