(* ===== verification/Driver_Control.thy ===== *)
theory Driver_Control
  imports Driver
begin

text \<open>
  The critical sections of the driver in any interleaving. A step is one section with any arguments a
  handler could give it; \<open>wl_sending\<close> are the inputs through an exclusive controller that are under way,
  one entry for each: \<open>SessionControl.Send\<close> and \<open>Press\<close> hold the controller's read lock from the check that
  it is active to the end of the input, so several of them can run at once, and \<open>Release\<close> needs that lock
  for writing.
\<close>

record workload =
  wl_driver :: driver
  wl_sending :: "(nat \<times> nat) list"

inductive driver_step :: "workload \<Rightarrow> workload \<Rightarrow> bool" where
  open_connection: "register_connection connection protocol address (wl_driver w) = (r, d) \<Longrightarrow> driver_step w (w\<lparr>wl_driver := d\<rparr>)"
| close_connection: "remove_connection i (wl_driver w) = (r, d) \<Longrightarrow> driver_step w (w\<lparr>wl_driver := d\<rparr>)"
| open_session: "register_session i connection session t (wl_driver w) = (r, d) \<Longrightarrow> driver_step w (w\<lparr>wl_driver := d\<rparr>)"
| close_session: "remove_session i (wl_driver w) = (r, d) \<Longrightarrow> driver_step w (w\<lparr>wl_driver := d\<rparr>)"
| begin_input: "begin_mutation i record (wl_driver w) = Some (r, d) \<Longrightarrow> driver_step w (w\<lparr>wl_driver := d\<rparr>)"
| end_input: "driver_step w (w\<lparr>wl_driver := end_mutation i (wl_driver w)\<rparr>)"
| acquire: "acquire_control i record (wl_driver w) = Some (r, d) \<Longrightarrow> driver_step w (w\<lparr>wl_driver := d\<rparr>)"
| release:
    "(i, token) \<notin> set (wl_sending w) \<Longrightarrow> release_control i token (wl_driver w) = Some d \<Longrightarrow> driver_step w (w\<lparr>wl_driver := d\<rparr>)"
| begin_send:
    "control_active i token (wl_driver w) \<Longrightarrow> driver_step w (w\<lparr>wl_sending := (i, token) # wl_sending w\<rparr>)"
| end_send: "driver_step w (w\<lparr>wl_sending := remove1 (i, token) (wl_sending w)\<rparr>)"
| subscribe: "add_subscription i (wl_driver w) = (j, d) \<Longrightarrow> driver_step w (w\<lparr>wl_driver := d\<rparr>)"
| start: "driver_step w (w\<lparr>wl_driver := startSubscription i (wl_driver w)\<rparr>)"
| ended: "driver_step w (w\<lparr>wl_driver := end_subscription i (wl_driver w)\<rparr>)"
| unsubscribe: "unsubscribe_section i (wl_driver w) = (b, d) \<Longrightarrow> driver_step w (w\<lparr>wl_driver := d\<rparr>)"
| close: "close_driver (wl_driver w) = (b, d) \<Longrightarrow> driver_step w (w\<lparr>wl_driver := d\<rparr>)"

inductive driver_runs :: "workload \<Rightarrow> bool" where
  fresh: "driver_runs \<lparr>wl_driver = new_driver, wl_sending = []\<rparr>"
| step: "driver_runs w \<Longrightarrow> driver_step w v \<Longrightarrow> driver_runs v"

lemmas sections = register_connection_def remove_connection_def register_session_def remove_session_def
  begin_mutation_def end_mutation_def acquire_control_def
  control_active_def release_control_def add_subscription_def startSubscription_def end_subscription_def
  unsubscribe_section_def close_driver_def Let_def

definition subscriptions_of :: "nat set \<Rightarrow> driver \<Rightarrow> nat set" where
  "subscriptions_of ids s = {i. \<exists>sub. dr_subscriptions s i = Some sub \<and> sub_sessionID sub \<in> ids}"

lemma remove_sessions_fields [simp]:
  "dr_sessions (remove_sessions ids d) = dr_sessions d |` (- ids)"
  "dr_connections (remove_sessions ids d) = dr_connections d"
  "dr_controls (remove_sessions ids d) = dr_controls d |` (- ids)"
  "dr_subscriptions (remove_sessions ids d) = dr_subscriptions d |` (- subscriptions_of ids d)"
  "dr_cancelled (remove_sessions ids d) = dr_cancelled d \<union> subscriptions_of ids d"
  "dr_nextConnection (remove_sessions ids d) = dr_nextConnection d"
  "dr_nextSession (remove_sessions ids d) = dr_nextSession d"
  "dr_nextSubscription (remove_sessions ids d) = dr_nextSubscription d"
  "dr_nextControl (remove_sessions ids d) = dr_nextControl d"
  "dr_gates (remove_sessions ids d) = dr_gates d" "dr_closed (remove_sessions ids d) = dr_closed d"
  by (simp_all add: remove_sessions_def cancelSessionSubscriptions_def subscriptions_of_def Let_def)

lemma subscriptions_of_connections [simp]:
  "subscriptions_of ids (d\<lparr>dr_connections := m\<rparr>) = subscriptions_of ids d"
  by (simp add: subscriptions_of_def)

lemma restrict_iff [simp]: "(m |` A) x = Some y \<longleftrightarrow> x \<in> A \<and> m x = Some y"
  by (simp add: restrict_map_def)

lemma subscriptions_of_some: "i \<in> subscriptions_of ids d \<Longrightarrow> dr_subscriptions d i \<noteq> None"
  by (auto simp: subscriptions_of_def)

subsection \<open>The registry\<close>

definition sessions_connected :: "driver \<Rightarrow> bool" where
  "sessions_connected d \<longleftrightarrow> (\<forall>i r. dr_sessions d i = Some r \<longrightarrow> dr_connections d (sr_connectionID r) \<noteq> None)"

definition bounded_map :: "(nat \<rightharpoonup> 'a) \<Rightarrow> nat \<Rightarrow> bool" where
  "bounded_map m n \<longleftrightarrow> (\<forall>i. m i \<noteq> None \<longrightarrow> i \<le> n)"

lemma bounded_map_intros:
  "bounded_map Map.empty n"
  "bounded_map m n \<Longrightarrow> bounded_map (m(Suc n \<mapsto> x)) (Suc n)"
  "bounded_map m n \<Longrightarrow> bounded_map (m |` A) n"
  "bounded_map m n \<Longrightarrow> bounded_map (m(i := None)) n"
  "bounded_map m n \<Longrightarrow> m i = Some y \<Longrightarrow> bounded_map (m(i \<mapsto> x)) n"
  by (auto simp: bounded_map_def restrict_map_def split: if_splits intro: le_SucI)

definition ids_bounded :: "driver \<Rightarrow> bool" where
  "ids_bounded d \<longleftrightarrow>
     bounded_map (dr_connections d) (dr_nextConnection d) \<and> bounded_map (dr_sessions d) (dr_nextSession d) \<and>
     bounded_map (dr_subscriptions d) (dr_nextSubscription d) \<and>
     (\<forall>i \<in> dr_cancelled d. i \<le> dr_nextSubscription d)"

definition controls_registered :: "driver \<Rightarrow> bool" where
  "controls_registered d \<longleftrightarrow> (\<forall>i. dr_controls d i \<noteq> None \<longrightarrow> dr_sessions d i \<noteq> None)"

text \<open>
  While the driver is open no cancelled subscription is registered; once it is closed only cancelled ones
  are: those added after \<open>Close\<close>.
\<close>

definition cancelled_gone :: "driver \<Rightarrow> bool" where
  "cancelled_gone d \<longleftrightarrow>
     (if dr_closed d then dom (dr_subscriptions d) \<subseteq> dr_cancelled d
      else dom (dr_subscriptions d) \<inter> dr_cancelled d = {})"

definition registry_ok :: "driver \<Rightarrow> bool" where
  "registry_ok d \<longleftrightarrow> sessions_connected d \<and> ids_bounded d \<and> controls_registered d \<and> cancelled_gone d"

text \<open>Which sections touch the connections and sessions at all.\<close>

lemma frame_sections:
  "begin_mutation i record d = Some (r, d') \<Longrightarrow> dr_sessions d' = dr_sessions d \<and> dr_connections d' = dr_connections d"
  "acquire_control i record d = Some (r1, d') \<Longrightarrow> dr_sessions d' = dr_sessions d \<and> dr_connections d' = dr_connections d"
  "release_control i token d = Some d' \<Longrightarrow> dr_sessions d' = dr_sessions d \<and> dr_connections d' = dr_connections d"
  "add_subscription i d = (j, d') \<Longrightarrow> dr_sessions d' = dr_sessions d \<and> dr_connections d' = dr_connections d"
  "unsubscribe_section i d = (b, d') \<Longrightarrow> dr_sessions d' = dr_sessions d \<and> dr_connections d' = dr_connections d"
  "close_driver d = (b, d') \<Longrightarrow> dr_sessions d' = dr_sessions d \<and> dr_connections d' = dr_connections d"
  "dr_sessions (startSubscription i d) = dr_sessions d \<and> dr_connections (startSubscription i d) = dr_connections d"
  by (auto simp: sections split: option.splits if_splits)

lemma sessions_connected_cong:
  "dr_sessions d' = dr_sessions d \<and> dr_connections d' = dr_connections d \<Longrightarrow> sessions_connected d \<Longrightarrow> sessions_connected d'"
  by (simp add: sessions_connected_def)

lemma sessions_connected_step:
  assumes "driver_step w v" "sessions_connected (wl_driver w)"
  shows "sessions_connected (wl_driver v)"
  using assms(1)
proof cases
  case (open_connection connection protocol address r d)
  then show ?thesis using assms(2)
    by (auto simp: register_connection_def sessions_connected_def Let_def split: if_splits)
next
  case (close_connection i r d)
  show ?thesis
  proof (cases "dr_connections (wl_driver w) i")
    case None
    then show ?thesis using close_connection assms(2) by (simp add: remove_connection_def)
  next
    case (Some c)
    then have "dr_sessions d = dr_sessions (wl_driver w) |` (- sessions_of i (wl_driver w))"
      "dr_connections d = (dr_connections (wl_driver w))(i := None)"
      using close_connection(2) by (auto simp: sections)
    then show ?thesis using close_connection(1) assms(2)
      by (simp add: sessions_connected_def sessions_of_def restrict_map_def)
  qed
next
  case (open_session i connection session t r d)
  then show ?thesis using assms(2)
    by (auto simp: register_session_def sessions_connected_def Let_def split: if_splits option.splits)
next
  case (close_session i r d)
  then have "dr_sessions d \<subseteq>\<^sub>m dr_sessions (wl_driver w) \<and> dr_connections d = dr_connections (wl_driver w)"
    by (auto simp: remove_session_def map_le_def split: option.splits)
  then show ?thesis using assms(2) close_session(1)
    by (auto simp: sessions_connected_def map_le_def dom_def)
qed (use assms(2) in \<open>auto simp: end_mutation_def end_subscription_def frame_sections(7) dest: frame_sections(1-6)
     intro: sessions_connected_cong [rotated]\<close>)

lemma ids_bounded_step:
  assumes "driver_step w v" "ids_bounded (wl_driver w)"
  shows "ids_bounded (wl_driver v)"
proof -
  have sub: "\<forall>i \<in> subscriptions_of ids (wl_driver w). i \<le> dr_nextSubscription (wl_driver w)" for ids
    using assms(2) subscriptions_of_some by (auto simp: ids_bounded_def bounded_map_def)
  show ?thesis using assms(1)
    by cases (use assms(2) sub in \<open>auto simp: sections ids_bounded_def bounded_map_def [of _ "dr_nextSubscription (wl_driver w)"]
        intro: bounded_map_intros le_SucI split: option.splits if_splits\<close>)
qed

lemma controls_registered_step:
  "driver_step w v \<Longrightarrow> controls_registered (wl_driver w) \<Longrightarrow> controls_registered (wl_driver v)"
  by (cases rule: driver_step.cases)
    (auto simp: sections controls_registered_def restrict_map_def split: option.splits if_splits)

lemma cancelled_gone_step:
  assumes "driver_step w v" "cancelled_gone (wl_driver w)" "ids_bounded (wl_driver w)"
  shows "cancelled_gone (wl_driver v)"
proof -
  have fresh: "Suc (dr_nextSubscription (wl_driver w)) \<notin> dr_cancelled (wl_driver w)"
    using assms(3) by (auto simp: ids_bounded_def)
  have old: "dr_closed (wl_driver w) \<Longrightarrow> dr_subscriptions (wl_driver w) i \<noteq> None \<Longrightarrow> i \<in> dr_cancelled (wl_driver w)"
      "\<not> dr_closed (wl_driver w) \<Longrightarrow> i \<in> dr_cancelled (wl_driver w) \<Longrightarrow> dr_subscriptions (wl_driver w) i = None" for i
    using assms(2) by (auto simp: cancelled_gone_def split: if_splits)
  show ?thesis using assms(1) fresh old
    by (cases rule: driver_step.cases)
      (auto simp: sections cancelled_gone_def restrict_map_def split: option.splits if_splits)
qed

lemma registry_step: "driver_step w v \<Longrightarrow> registry_ok (wl_driver w) \<Longrightarrow> registry_ok (wl_driver v)"
  using sessions_connected_step ids_bounded_step controls_registered_step cancelled_gone_step
  unfolding registry_ok_def by blast

lemma runs_registry: "driver_runs w \<Longrightarrow> registry_ok (wl_driver w)"
proof (induction rule: driver_runs.induct)
  case fresh
  then show ?case
    by (simp add: registry_ok_def sessions_connected_def ids_bounded_def controls_registered_def
        cancelled_gone_def new_driver_def bounded_map_def)
qed (rule registry_step)

subsection \<open>Exclusive control\<close>

text \<open>What an input in progress excludes, and that controllers sit on sessions the registry knows.\<close>

definition control_ok :: "workload \<Rightarrow> bool" where
  "control_ok w \<longleftrightarrow>
     (\<forall>i \<in> dr_gates (wl_driver w). dr_controls (wl_driver w) i = None) \<and>
     (\<forall>(i, t) \<in> set (wl_sending w). i \<le> dr_nextSession (wl_driver w))"

definition sends_ok :: "workload \<Rightarrow> bool" where
  "sends_ok w \<longleftrightarrow>
     (\<forall>i t. (i, t) \<in> set (wl_sending w) \<longrightarrow>
        (dr_controls (wl_driver w) i = Some t \<or> dr_sessions (wl_driver w) i = None) \<and>
        i \<notin> dr_gates (wl_driver w) \<and> (\<forall>u. (i, u) \<in> set (wl_sending w) \<longrightarrow> u = t))"

lemma closed_stays:
  assumes "driver_step w v" "dr_closed (wl_driver w)"
  shows "dr_closed (wl_driver v)"
  using assms(1) by cases (use assms(2) in \<open>auto simp: sections split: option.splits if_splits\<close>)

lemma control_step:
  assumes "driver_step w v" "control_ok w" "registry_ok (wl_driver w)"
  shows "control_ok v"
proof -
  have reg: "i \<le> dr_nextSession (wl_driver w)" if "dr_controls (wl_driver w) i = Some t" for i t
  proof -
    have "dr_sessions (wl_driver w) i \<noteq> None" using assms(3) that by (auto simp: registry_ok_def controls_registered_def)
    then show ?thesis using assms(3) by (auto simp: registry_ok_def ids_bounded_def bounded_map_def)
  qed
  show ?thesis using assms(1)
    by cases (use assms(2) reg in \<open>auto simp: sections control_ok_def restrict_map_def intro: le_SucI
        dest!: set_remove1_subset [THEN subsetD] split: option.splits if_splits\<close>)
qed

lemma sends_step:
  assumes "driver_step w v" "sends_ok w" "control_ok w" "registry_ok (wl_driver w)" "\<not> dr_closed (wl_driver v)"
  shows "sends_ok v"
proof -
  have known: "dr_sessions (wl_driver w) i \<noteq> None" if "dr_controls (wl_driver w) i = Some t" for i t
    using assms(4) that by (auto simp: registry_ok_def controls_registered_def)
  have old: "i \<noteq> Suc (dr_nextSession (wl_driver w))" if "(i, t) \<in> set (wl_sending w)" for i t
    using assms(3) that by (auto simp: control_ok_def)
  have free: "i \<notin> dr_gates (wl_driver w)" if "dr_controls (wl_driver w) i = Some t" for i t
    using assms(3) that by (auto simp: control_ok_def)
  have s: "(i, t) \<in> set (wl_sending w) \<Longrightarrow> dr_sessions (wl_driver w) i = Some r \<Longrightarrow> dr_controls (wl_driver w) i = Some t"
      "(i, t) \<in> set (wl_sending w) \<Longrightarrow> i \<notin> dr_gates (wl_driver w)"
      "(i, t) \<in> set (wl_sending w) \<Longrightarrow> (i, u) \<in> set (wl_sending w) \<Longrightarrow> u = t" for i t u r
    using assms(2) unfolding sends_ok_def by (auto split: if_splits) (metis option.distinct(1))+
  show ?thesis using assms(1)
  proof cases
    case (begin_send i token)
    have c: "dr_controls (wl_driver w) i = Some token" using begin_send(2) by (simp add: control_active_def)
    have "u = token" if "(i, u) \<in> set (wl_sending w)" for u using s(1) [OF that] c known [OF c] by auto
    then show ?thesis using begin_send(1) c free [OF c] s unfolding sends_ok_def by auto
  next
    case (acquire i rec r d)
    have "(i, t) \<notin> set (wl_sending w)" if "dr_controls (wl_driver w) i = None" "dr_sessions (wl_driver w) i \<noteq> None" for t
      using s(1) [of i t] that by auto
    then show ?thesis using acquire s unfolding sends_ok_def
      by (auto simp: acquire_control_def Let_def split: if_splits option.splits)
  next
    case (begin_input i rec r d)
    have "(i, t) \<notin> set (wl_sending w)" if "dr_controls (wl_driver w) i = None" "dr_sessions (wl_driver w) i \<noteq> None" for t
      using s(1) [of i t] that by auto
    then show ?thesis using begin_input s unfolding sends_ok_def
      by (auto simp: begin_mutation_def split: if_splits option.splits)
  next
    case (release i token d)
    have "dr_sessions (wl_driver w) i = None \<or> t = token"
      if "(i, t) \<in> set (wl_sending w)" "dr_controls (wl_driver w) i = Some token" for t
      using s(1) [OF that(1)] that(2) by (cases "dr_sessions (wl_driver w) i") auto
    then show ?thesis using release s unfolding sends_ok_def
      by (auto simp: release_control_def control_active_def split: if_splits)
  next
    case (open_session i connection session t r d)
    then show ?thesis using s old unfolding sends_ok_def
      by (auto simp: register_session_def Let_def split: if_splits option.splits)
  next
    case (close_connection i r d)
    then show ?thesis using s unfolding sends_ok_def
      by (auto simp: remove_connection_def restrict_map_def split: option.splits)
  next
    case (close_session i r d)
    then show ?thesis using s unfolding sends_ok_def
      by (auto simp: remove_session_def restrict_map_def split: option.splits)
  next
    case (close b d)
    then show ?thesis using assms(2,5) by (auto simp: close_driver_def split: if_splits)
  qed (use s in \<open>auto simp: sections sends_ok_def dest!: set_remove1_subset [THEN subsetD] split: option.splits if_splits\<close>)
qed

lemma runs_control: "driver_runs w \<Longrightarrow> control_ok w \<and> (dr_closed (wl_driver w) \<or> sends_ok w)"
proof (induction rule: driver_runs.induct)
  case fresh
  then show ?case by (simp add: control_ok_def sends_ok_def new_driver_def)
next
  case (step w v)
  then show ?case using control_step sends_step closed_stays runs_registry by blast
qed

end
