(* ===== verification/Base64.thy ===== *)
theory Base64
  imports Prelude
begin

text \<open>
  Base64 as \<open>encoding/base64\<close> implements its standard encoding, which the driver's \<open>session.send\<close> uses:
  the alphabet A-Z a-z 0-9 + /, padding with =, and line breaks ignored when decoding.
\<close>

definition alphabet :: string where
  "alphabet = ''ABCDEFGHIJKLMNOPQRSTUVWXYZabcdefghijklmnopqrstuvwxyz0123456789+/''"

definition digit_of :: "nat \<Rightarrow> char" where
  "digit_of n = alphabet ! n"

primrec index_of :: "char \<Rightarrow> string \<Rightarrow> nat option" where
  "index_of c [] = None"
| "index_of c (x # xs) = (if c = x then Some 0 else map_option Suc (index_of c xs))"

definition value_of :: "char \<Rightarrow> nat option" where
  "value_of c = index_of c alphabet"

fun encode64 :: "nat list \<Rightarrow> string" where
  "encode64 [] = []"
| "encode64 [a] = [digit_of (a div 4), digit_of (a mod 4 * 16), CHR ''='', CHR ''='']"
| "encode64 [a, b] =
     [digit_of (a div 4), digit_of (a mod 4 * 16 + b div 16), digit_of (b mod 16 * 4), CHR ''='']"
| "encode64 (a # b # c # rest) =
     digit_of (a div 4) # digit_of (a mod 4 * 16 + b div 16) # digit_of (b mod 16 * 4 + c div 64) #
     digit_of (c mod 64) # encode64 rest"

text \<open>The quanta of the input without its line breaks; the low bits of a padded quantum are not checked.\<close>

fun decode_quanta :: "string \<Rightarrow> nat list option" where
  "decode_quanta [] = Some []"
| "decode_quanta (w # x # y # z # rest) =
     do { a \<leftarrow> value_of w;
          b \<leftarrow> value_of x;
          (if y = CHR ''='' then (if z = CHR ''='' \<and> rest = [] then Some [a * 4 + b div 16] else None)
           else do { c \<leftarrow> value_of y;
                     (if z = CHR ''='' then
                        (if rest = [] then Some [a * 4 + b div 16, b mod 16 * 16 + c div 4] else None)
                      else do { d \<leftarrow> value_of z;
                                bytes \<leftarrow> decode_quanta rest;
                                Some ((a * 4 + b div 16) # (b mod 16 * 16 + c div 4) # (c mod 4 * 64 + d) # bytes) }) }) }"
| "decode_quanta _ = None"

definition decode64 :: "string \<Rightarrow> nat list option" where
  "decode64 s = decode_quanta (filter (\<lambda>c. c \<noteq> CHR 0x0A \<and> c \<noteq> CHR 0x0D) s)"

lemma alphabet_length: "length alphabet = 64"
  by (simp add: alphabet_def)

lemma index_of_nth: "distinct xs \<Longrightarrow> n < length xs \<Longrightarrow> index_of (xs ! n) xs = Some n"
  by (induction xs arbitrary: n) (auto simp: nth_Cons split: nat.splits)

lemma alphabet_distinct: "distinct alphabet"
  by (simp add: alphabet_def)

lemma value_digit [simp]: "n < 64 \<Longrightarrow> value_of (digit_of n) = Some n"
  by (simp add: value_of_def digit_of_def index_of_nth alphabet_distinct alphabet_length)

lemma digit_in: "n < 64 \<Longrightarrow> digit_of n \<in> set alphabet"
  by (simp add: digit_of_def alphabet_length)

lemma digit_plain [simp]:
  assumes "n < 64"
  shows "digit_of n \<noteq> CHR ''=''" "digit_of n \<noteq> CHR 0x0A" "digit_of n \<noteq> CHR 0x0D"
  using digit_in [OF assms] by (auto simp: alphabet_def)

lemma join_parts:
  fixes x y n :: nat
  assumes "y < n"
  shows "(x * n + y) div n = x" "(x * n + y) mod n = y"
  using assms by simp_all

lemma parts_less:
  fixes a :: nat
  assumes "a < 256"
  shows "a div 4 < 64" "a div 16 < 16" "a div 64 < 4"
  using assms by (simp_all add: less_mult_imp_div_less)

lemma parts_bound:
  fixes a b :: nat
  assumes "b < 256"
  shows "a mod 4 * 16 + b div 16 < 64" "a mod 16 * 4 + b div 64 < 64" "a mod 4 * 16 < 64" "a mod 16 * 4 < 64"
proof -
  have "a mod 4 < 4" "a mod 16 < 16" by simp_all
  then show "a mod 4 * 16 + b div 16 < 64" "a mod 16 * 4 + b div 64 < 64" "a mod 4 * 16 < 64" "a mod 16 * 4 < 64"
    using parts_less [OF assms] by linarith+
qed

lemma quantum:
  fixes a b c :: nat
  assumes "a < 256" "b < 256" "c < 256"
  shows "a div 4 * 4 + (a mod 4 * 16 + b div 16) div 16 = a"
    "(a mod 4 * 16 + b div 16) mod 16 * 16 + (b mod 16 * 4 + c div 64) div 4 = b"
    "(b mod 16 * 4 + c div 64) mod 4 * 64 + c mod 64 = c"
    "a div 4 * 4 + a mod 4 * 16 div 16 = a"
    "(a mod 4 * 16 + b div 16) mod 16 * 16 + b mod 16 * 4 div 4 = b"
  by (simp_all only: join_parts parts_less assms) (simp_all add: div_mult_mod_eq)

lemma decode_encode:
  assumes "\<forall>b \<in> set bs. b < 256"
  shows "decode64 (encode64 bs) = Some bs"
proof -
  have "filter (\<lambda>c. c \<noteq> CHR 0x0A \<and> c \<noteq> CHR 0x0D) (encode64 bs) = encode64 bs" using assms
    by (induction bs rule: encode64.induct) (simp_all add: parts_less parts_bound)
  moreover have "decode_quanta (encode64 bs) = Some bs" using assms
  proof (induction bs rule: encode64.induct)
    case (2 a)
    then show ?case using quantum(4) [of a 0 0] by (simp add: parts_less parts_bound)
  next
    case (3 a b)
    then show ?case using quantum(1,5) [of a b 0] by (simp add: parts_less parts_bound)
  next
    case (4 a b c rest)
    have "decode_quanta (encode64 rest) = Some rest" using 4 by simp
    moreover have "a < 256" "b < 256" "c < 256" using 4 by auto
    ultimately show ?case using quantum(1-3) [of a b c] by (simp add: parts_less parts_bound)
  qed simp
  ultimately show ?thesis by (simp add: decode64_def)
qed

end
