(* ===== verification/Driver_Calls.thy ===== *)
theory Driver_Calls
  imports Driver Base64
begin

text \<open>
  The methods of the JSON-RPC driver (\<open>driver/server.go\<close>), one definition per handler, and \<open>call\<close>, which
  dispatches on the method. A handler gets its parameters decoded, or the message of the decoder. The
  core is a map from the core's session numbers to sessions, the terminal and stream operations they
  are built on, and, as parameters, the connectors, the terminal factory and what a transport does
  when it is opened or closed. A handler that has to wait for a gate, or whose wait goes on, is
  \<open>None\<close>; the rounds of a wait are given as in the session theories.
\<close>

datatype 'p decoded = Malformed string | Params 'p

record connection_options =
  opt_protocol :: string
  opt_address :: string
  opt_username :: string
  opt_password :: string
  opt_privateKey :: string
  opt_privateKeyPassphrase :: string
  opt_knownHostsFile :: string
  opt_hostKeyFingerprint :: string
  opt_insecureSkipHostKeyCheck :: bool
  opt_connectTimeoutMilliseconds :: int

record ('t, 'c, 'w) core_ops =
  op_terminals :: "'t terminal_ops"
  op_streams :: "'c stream_ops"
  op_connector :: "connection_options \<Rightarrow> string option"
  op_connect :: "connection_options \<Rightarrow> int \<Rightarrow> 'w \<Rightarrow> (string + nat) \<times> 'w"
  op_close_connection ::
    "nat \<Rightarrow> (nat \<Rightarrow> ('t, 'c) session) \<Rightarrow> 'w \<Rightarrow> string option \<times> (nat \<Rightarrow> ('t, 'c) session) \<times> 'w"
  op_terminal :: "string \<Rightarrow> int \<Rightarrow> int \<Rightarrow> string + 't"
  op_answerback :: "('t \<Rightarrow> string \<Rightarrow> string + 't) option"
  op_open :: "nat \<Rightarrow> 't \<Rightarrow> 'w \<Rightarrow> (string + nat \<times> 'c) \<times> 'w"
  op_error :: "session_error \<Rightarrow> string"

record ('t, 'c, 'w) rpc =
  rp_driver :: driver
  rp_sessions :: "nat \<Rightarrow> ('t, 'c) session"
  rp_world :: 'w

datatype session_state = Active | Ended "session_error option"

datatype rpc_result =
    Pong
  | ShuttingDown
  | ConnectionOpened nat
  | ClosedResult
  | SessionOpened nat
  | BytesSent nat
  | SentResult
  | ResizedResult
  | ScreenResult screen string
  | StateResult session_state
  | SubscriptionID nat
  | Unsubscribed

type_synonym ('t, 'c, 'w) handler =
  "('t, 'c, 'w) rpc \<Rightarrow> ((driver_error + rpc_result) \<times> ('t, 'c, 'w) rpc) option"

definition on_driver :: "(driver \<Rightarrow> driver) \<Rightarrow> ('t, 'c, 'w) rpc \<Rightarrow> ('t, 'c, 'w) rpc" where
  "on_driver f st = st\<lparr>rp_driver := f (rp_driver st)\<rparr>"

definition put_session :: "nat \<Rightarrow> ('t, 'c) session \<Rightarrow> ('t, 'c, 'w) rpc \<Rightarrow> ('t, 'c, 'w) rpc" where
  "put_session i s st = st\<lparr>rp_sessions := (rp_sessions st)(i := s)\<rparr>"

definition makeScreenResult :: "screen \<Rightarrow> rpc_result" where
  "makeScreenResult screen = ScreenResult screen (Text screen)"

definition makeSessionStateResult :: "('t, 'c) session \<Rightarrow> session_state" where
  "makeSessionStateResult s = (if ss_done s then Ended (ss_err s) else Active)"

subsection \<open>Connections\<close>

definition openConnection ::
  "('t, 'c, 'w) core_ops \<Rightarrow> connection_options decoded \<Rightarrow> ('t, 'c, 'w) handler" where
  "openConnection C data st =
     Some (case data of
       Malformed e \<Rightarrow> (Inl (InvalidParams e), st)
     | Params options \<Rightarrow>
         (let ms = opt_connectTimeoutMilliseconds options
          in if ms < 0 then (Inl (InvalidParams ''connectTimeoutMilliseconds cannot be negative''), st)
             else case milliseconds ms True of
               Inl e \<Rightarrow> (Inl (InvalidParams e), st)
             | Inr _ \<Rightarrow>
                 (case op_connector C options of
                    Some e \<Rightarrow> (Inl (CoreFailed e), st)
                  | None \<Rightarrow>
                      (let timeout = (if ms > 0 then case milliseconds ms False of Inr t \<Rightarrow> t | Inl _ \<Rightarrow> 0
                                      else 30 * 1000000000)
                       in case op_connect C options timeout (rp_world st) of
                            (Inl e, w) \<Rightarrow> (Inl (CoreFailed e), st\<lparr>rp_world := w\<rparr>)
                          | (Inr connection, w) \<Rightarrow>
                              (case register_connection connection (opt_protocol options) (opt_address options)
                                      (rp_driver st) of
                                 (Some i, d) \<Rightarrow> (Inr (ConnectionOpened i), st\<lparr>rp_world := w, rp_driver := d\<rparr>)
                               | (None, d) \<Rightarrow>
                                   (case op_close_connection C connection (rp_sessions st) w of
                                      (e, ss, w') \<Rightarrow>
                                        (Inl (case e of Some m \<Rightarrow> CoreFailed m | None \<Rightarrow> DriverClosed),
                                         st\<lparr>rp_sessions := ss, rp_world := w'\<rparr>)))))))"

definition closeConnection :: "('t, 'c, 'w) core_ops \<Rightarrow> nat decoded \<Rightarrow> ('t, 'c, 'w) handler" where
  "closeConnection C data st =
     Some (case data of
       Malformed e \<Rightarrow> (Inl (InvalidParams e), st)
     | Params i \<Rightarrow>
         (case remove_connection i (rp_driver st) of
            (None, d) \<Rightarrow> (Inl (UnknownConnection i), st\<lparr>rp_driver := d\<rparr>)
          | (Some r, d) \<Rightarrow>
              (case op_close_connection C (cr_connection r) (rp_sessions st) (rp_world st) of
                 (e, ss, w) \<Rightarrow>
                   (case e of Some m \<Rightarrow> Inl (CoreFailed m) | None \<Rightarrow> Inr ClosedResult,
                    st\<lparr>rp_driver := d, rp_sessions := ss, rp_world := w\<rparr>))))"

subsection \<open>Sessions\<close>

record open_params =
  op_connectionID :: nat
  op_profile :: string
  op_width :: int
  op_height :: int
  op_answer :: string

text \<open>\<open>Session.Close\<close> from its start to its end: the stream is closed, the read loop ends, the error is kept.\<close>

definition close_session :: "'c stream_ops \<Rightarrow> ('t, 'c) session \<Rightarrow> session_error option \<times> ('t, 'c) session" where
  "close_session S s =
     (if ss_closing s then (ss_close_err s, s)
      else (let s1 = begin_close S s
            in (ss_close_err s1, if ss_done s1 then s1 else end_loop S None s1)))"

definition make_terminal :: "('t, 'c, 'w) core_ops \<Rightarrow> open_params \<Rightarrow> string + 't" where
  "make_terminal C p =
     (case op_terminal C (op_profile p) (op_width p) (op_height p) of
        Inl e \<Rightarrow> Inl e
      | Inr t \<Rightarrow>
          if op_answer p = [] then Inr t
          else (case op_answerback C of
                  None \<Rightarrow> Inl ''terminal profile does not support answerback''
                | Some set_answer \<Rightarrow> set_answer t (op_answer p)))"

definition openSession :: "('t, 'c, 'w) core_ops \<Rightarrow> int \<Rightarrow> open_params decoded \<Rightarrow> ('t, 'c, 'w) handler" where
  "openSession C now data st =
     Some (case data of
       Malformed e \<Rightarrow> (Inl (InvalidParams e), st)
     | Params p \<Rightarrow>
         (case dr_connections (rp_driver st) (op_connectionID p) of
            None \<Rightarrow> (Inl (UnknownConnection (op_connectionID p)), st)
          | Some connection \<Rightarrow>
              (case make_terminal C p of
                 Inl e \<Rightarrow> (Inl (CoreFailed e), st)
               | Inr t \<Rightarrow>
                   (case op_open C (cr_connection connection) t (rp_world st) of
                      (Inl e, w) \<Rightarrow> (Inl (CoreFailed e), st\<lparr>rp_world := w\<rparr>)
                    | (Inr (core_id, stream), w) \<Rightarrow>
                        (let session = newSession (op_terminals C) core_id now t stream;
                             st1 = put_session core_id session (st\<lparr>rp_world := w\<rparr>)
                         in case register_session (op_connectionID p) connection core_id (op_profile p)
                                   (rp_driver st1) of
                              (Some i, d) \<Rightarrow> (Inr (SessionOpened i), st1\<lparr>rp_driver := d\<rparr>)
                            | (None, _) \<Rightarrow>
                                (case close_session (op_streams C) session of
                                   (e, s') \<Rightarrow>
                                     (Inl (case e of Some m \<Rightarrow> CoreFailed (op_error C m)
                                                   | None \<Rightarrow> ConnectionClosed),
                                      put_session core_id s' st1)))))))"

definition closeSession :: "('t, 'c, 'w) core_ops \<Rightarrow> nat decoded \<Rightarrow> ('t, 'c, 'w) handler" where
  "closeSession C data st =
     Some (case data of
       Malformed e \<Rightarrow> (Inl (InvalidParams e), st)
     | Params i \<Rightarrow>
         (case remove_session i (rp_driver st) of
            (None, _) \<Rightarrow> (Inl (UnknownSession i), st)
          | (Some r, d) \<Rightarrow>
              (case close_session (op_streams C) (rp_sessions st (sr_session r)) of
                 (e, s') \<Rightarrow>
                   (case e of Some m \<Rightarrow> Inl (CoreFailed (op_error C m)) | None \<Rightarrow> Inr ClosedResult,
                    put_session (sr_session r) s' (st\<lparr>rp_driver := d\<rparr>)))))"

subsection \<open>Input\<close>

text \<open>A request that changes a session: the gate is held while \<open>act\<close> runs on the core's session.\<close>

definition with_session ::
  "nat \<Rightarrow> (nat \<Rightarrow> ('t, 'c, 'w) rpc \<Rightarrow> ((driver_error + rpc_result) \<times> ('t, 'c, 'w) rpc) option) \<Rightarrow>
     ('t, 'c, 'w) handler" where
  "with_session i act st =
     (case dr_sessions (rp_driver st) i of
        None \<Rightarrow> Some (Inl (UnknownSession i), st)
      | Some record \<Rightarrow>
          do { (r, d) \<leftarrow> begin_mutation i record (rp_driver st);
               case r of
                 Inl e \<Rightarrow> Some (Inl e, st\<lparr>rp_driver := d\<rparr>)
               | Inr session \<Rightarrow>
                   do { (result, st') \<leftarrow> act session (st\<lparr>rp_driver := d\<rparr>);
                        Some (result, on_driver (end_mutation i) st') } })"

text \<open>\<open>text\<close> or \<open>base64\<close>, exactly one of them.\<close>

definition payload :: "string option \<Rightarrow> string option \<Rightarrow> driver_error + byte list" where
  "payload text_input base64_input =
     (case (text_input, base64_input) of
        (Some t, None) \<Rightarrow> Inr (bytes_of t)
      | (None, Some b) \<Rightarrow>
          (case decode64 b of
             None \<Rightarrow> Inl (InvalidParams ''invalid base64 input'')
           | Some bytes \<Rightarrow> Inr (map of_nat bytes))
      | _ \<Rightarrow> Inl (InvalidParams ''exactly one of text or base64 is required''))"

definition send_call ::
  "('t, 'c, 'w) core_ops \<Rightarrow> (nat \<times> string option \<times> string option) decoded \<Rightarrow> ('t, 'c, 'w) handler" where
  "send_call C data st =
     (case data of
        Malformed e \<Rightarrow> Some (Inl (InvalidParams e), st)
      | Params p \<Rightarrow>
          (case payload (fst (snd p)) (snd (snd p)) of
             Inl e \<Rightarrow> Some (Inl e, st)
           | Inr bytes \<Rightarrow>
               with_session (fst p)
                 (\<lambda>session st1. Some (case Send (op_streams C) bytes (rp_sessions st1 session) of
                    (Some e, s') \<Rightarrow> (Inl (CoreFailed (op_error C e)), put_session session s' st1)
                  | (None, s') \<Rightarrow> (Inr (BytesSent (length bytes)), put_session session s' st1))) st))"

definition modifier_of :: "string \<Rightarrow> key_modifiers option" where
  "modifier_of m =
     (if m = ''Shift'' then Some ModifierShift
      else if m = ''Alt'' \<or> m = ''Meta'' then Some ModifierAlt
      else if m = ''Control'' then Some ModifierControl else None)"

primrec modifiers_of :: "string list \<Rightarrow> driver_error + key_modifiers list" where
  "modifiers_of [] = Inr []"
| "modifiers_of (m # ms) =
     (case modifier_of m of
        None \<Rightarrow> Inl (UnknownModifier m)
      | Some x \<Rightarrow> map_sum id (Cons x) (modifiers_of ms))"

definition press_call ::
  "('t, 'c, 'w) core_ops \<Rightarrow> (nat \<times> key \<times> string list) decoded \<Rightarrow> ('t, 'c, 'w) handler" where
  "press_call C data st =
     (case data of
        Malformed e \<Rightarrow> Some (Inl (InvalidParams e), st)
      | Params p \<Rightarrow>
          with_session (fst p)
            (\<lambda>session st1. Some (case modifiers_of (snd (snd p)) of
                Inl e \<Rightarrow> (Inl e, st1)
              | Inr ms \<Rightarrow>
                  (case Press (op_terminals C) (op_streams C) (fst (snd p)) ms (rp_sessions st1 session) of
                     (Some e, s') \<Rightarrow> (Inl (CoreFailed (op_error C e)), put_session session s' st1)
                   | (None, s') \<Rightarrow> (Inr SentResult, put_session session s' st1)))) st)"

definition resize_call ::
  "('t, 'c, 'w) core_ops \<Rightarrow> int \<Rightarrow> (nat \<times> int \<times> int) decoded \<Rightarrow> ('t, 'c, 'w) handler" where
  "resize_call C now data st =
     (case data of
        Malformed e \<Rightarrow> Some (Inl (InvalidParams e), st)
      | Params p \<Rightarrow>
          with_session (fst p)
            (\<lambda>session st1.
               map_option (\<lambda>r. case r of
                   (Some e, s') \<Rightarrow> (Inl (CoreFailed (op_error C e)), put_session session s' st1)
                 | (None, s') \<Rightarrow> (Inr ResizedResult, put_session session s' st1))
               (ResizeSession (op_terminals C) (op_streams C) now (fst (snd p)) (snd (snd p))
                  (rp_sessions st1 session))) st)"

end
