(* ===== verification/Driver_Serve.thy ===== *)
theory Driver_Serve
  imports Driver_Calls
begin

text \<open>
  The remaining methods of the driver, the dispatch of a request, the writer of responses and the main
  loop (\<open>driver/server.go\<close>, \<open>driver/protocol.go\<close>).
\<close>

subsection \<open>Reading and waiting\<close>

definition on_session ::
  "nat decoded \<Rightarrow> (('t, 'c) session \<Rightarrow> rpc_result) \<Rightarrow> ('t, 'c, 'w) handler" where
  "on_session data f st =
     Some (case data of
       Malformed e \<Rightarrow> (Inl (InvalidParams e), st)
     | Params i \<Rightarrow>
         (case getSession i (rp_driver st) of
            Inl e \<Rightarrow> (Inl e, st)
          | Inr session \<Rightarrow> (Inr (f (rp_sessions st session)), st)))"

definition screen_call :: "('t, 'c, 'w) core_ops \<Rightarrow> nat decoded \<Rightarrow> ('t, 'c, 'w) handler" where
  "screen_call C data =
     on_session data (\<lambda>s. makeScreenResult (to_snapshot (op_terminals C) (ss_terminal s)))"

definition state_call :: "nat decoded \<Rightarrow> ('t, 'c, 'w) handler" where
  "state_call data = on_session data (\<lambda>s. StateResult (makeSessionStateResult s))"

record wait_params =
  wp_sessionID :: nat
  wp_matcher :: MatcherSpec
  wp_timeoutMilliseconds :: int
  wp_stableMilliseconds :: int

text \<open>The kind of a failed wait that is reported to the client.\<close>

datatype wait_kind = TimeoutKind | CanceledKind | WaitFailedKind

definition deadlineExceeded :: string where "deadlineExceeded = ''context deadline exceeded''"
definition contextCanceled :: string where "contextCanceled = ''context canceled''"

definition wait_error_kind :: "wait_error \<Rightarrow> wait_kind" where
  "wait_error_kind e =
     (case we_cause e of
        ContextEnded m \<Rightarrow>
          if m = deadlineExceeded then TimeoutKind
          else if m = contextCanceled then CanceledKind else WaitFailedKind
      | _ \<Rightarrow> WaitFailedKind)"

definition wait_outcome :: "wait_result \<Rightarrow> driver_error + rpc_result" where
  "wait_outcome r =
     (case r of
        Matched screen \<Rightarrow> Inr (makeScreenResult screen)
      | WaitFailed e \<Rightarrow> Inl (WaitFailure e)
      | Rejected MatcherRequired \<Rightarrow> Inl (CoreFailed ''matcher is required'')
      | Rejected _ \<Rightarrow> Inl (CoreFailed ''quiet period must be positive''))"

definition checked_milliseconds :: "string \<Rightarrow> int \<Rightarrow> bool \<Rightarrow> driver_error + int" where
  "checked_milliseconds name v allowZero =
     (case milliseconds v allowZero of
        Inl e \<Rightarrow> Inl (InvalidParams (''invalid '' @ name @ '': '' @ e))
      | Inr d \<Rightarrow> Inr d)"

text \<open>What a wait does once its parameters are accepted.\<close>

datatype wait_plan = PlainWait matcher int | StableWait matcher int int | IdleWait int int | EndWait int

definition plan_wait ::
  "(string \<Rightarrow> string) \<Rightarrow> wait_params decoded \<Rightarrow> driver \<Rightarrow> driver_error + nat \<times> wait_plan" where
  "plan_wait quote data d =
     (case data of
        Malformed e \<Rightarrow> Inl (InvalidParams e)
      | Params p \<Rightarrow>
          if wp_timeoutMilliseconds p \<le> 0 then Inl (InvalidParams ''timeoutMilliseconds must be positive'')
          else if wp_stableMilliseconds p < 0 then Inl (InvalidParams ''stableMilliseconds cannot be negative'')
          else case ScreenMatcher quote (wp_matcher p) of
            Inl e \<Rightarrow> Inl (InvalidMatcher e)
          | Inr m \<Rightarrow>
              (case getSession (wp_sessionID p) d of
                 Inl e \<Rightarrow> Inl e
               | Inr session \<Rightarrow>
                   (case checked_milliseconds ''timeoutMilliseconds'' (wp_timeoutMilliseconds p) False of
                      Inl e \<Rightarrow> Inl e
                    | Inr timeout \<Rightarrow>
                        (case checked_milliseconds ''stableMilliseconds'' (wp_stableMilliseconds p) True of
                           Inl e \<Rightarrow> Inl e
                         | Inr period \<Rightarrow>
                             Inr (session, if wp_stableMilliseconds p > 0 then StableWait m timeout period
                                           else PlainWait m timeout)))))"

definition plan_idle :: "(nat \<times> int \<times> int) decoded \<Rightarrow> driver \<Rightarrow> driver_error + nat \<times> wait_plan" where
  "plan_idle data d =
     (case data of
        Malformed e \<Rightarrow> Inl (InvalidParams e)
      | Params p \<Rightarrow>
          if fst (snd p) \<le> 0 then Inl (InvalidParams ''timeoutMilliseconds must be positive'')
          else if snd (snd p) \<le> 0 then Inl (InvalidParams ''quietMilliseconds must be positive'')
          else case getSession (fst p) d of
            Inl e \<Rightarrow> Inl e
          | Inr session \<Rightarrow>
              (case checked_milliseconds ''timeoutMilliseconds'' (fst (snd p)) False of
                 Inl e \<Rightarrow> Inl e
               | Inr timeout \<Rightarrow>
                   (case checked_milliseconds ''quietMilliseconds'' (snd (snd p)) False of
                      Inl e \<Rightarrow> Inl e
                    | Inr quiet \<Rightarrow> Inr (session, IdleWait timeout quiet))))"

definition plan_end :: "(nat \<times> int) decoded \<Rightarrow> driver \<Rightarrow> driver_error + nat \<times> wait_plan" where
  "plan_end data d =
     (case data of
        Malformed e \<Rightarrow> Inl (InvalidParams e)
      | Params p \<Rightarrow>
          if snd p \<le> 0 then Inl (InvalidParams ''timeoutMilliseconds must be positive'')
          else case getSession (fst p) d of
            Inl e \<Rightarrow> Inl e
          | Inr session \<Rightarrow>
              (case checked_milliseconds ''timeoutMilliseconds'' (snd p) False of
                 Inl e \<Rightarrow> Inl e
               | Inr timeout \<Rightarrow> Inr (session, EndWait timeout)))"

text \<open>
  The environment of a wait: the rounds it goes through and, for the wait for the end, what it saw first:
  the session's end, or the end of its context with the screen at that time.
\<close>

record wait_env =
  en_plain :: "(view \<times> wake) list"
  en_stable :: "stable_round list"
  en_end :: "(string \<times> screen) option"
  en_show :: "int \<Rightarrow> string"

definition run_plan ::
  "wait_env \<Rightarrow> nat \<times> wait_plan \<Rightarrow> ('t, 'c, 'w) handler" where
  "run_plan env p st =
     (case snd p of
        PlainWait m timeout \<Rightarrow> map_option (\<lambda>r. (wait_outcome r, st)) (WaitFor m (en_plain env))
      | StableWait m timeout period \<Rightarrow>
          map_option (\<lambda>r. (wait_outcome r, st)) (WaitForStable m period (en_stable env))
      | IdleWait timeout quiet \<Rightarrow>
          map_option (\<lambda>r. (wait_outcome r, st)) (WaitForIdle (en_show env) quiet (en_stable env))
      | EndWait timeout \<Rightarrow>
          (case en_end env of
             Some (e, screen) \<Rightarrow>
               Some (Inl (WaitFailure \<lparr>we_expected = ''session end'', we_screen = screen, we_cause = ContextEnded e\<rparr>), st)
           | None \<Rightarrow>
               if ss_done (rp_sessions st (fst p))
               then Some (Inr (StateResult (makeSessionStateResult (rp_sessions st (fst p)))), st)
               else None))"

definition wait_call :: "(string \<Rightarrow> string) \<Rightarrow> wait_env \<Rightarrow> wait_params decoded \<Rightarrow> ('t, 'c, 'w) handler" where
  "wait_call quote env data st =
     (case plan_wait quote data (rp_driver st) of Inl e \<Rightarrow> Some (Inl e, st) | Inr p \<Rightarrow> run_plan env p st)"

definition waitForIdle_call :: "wait_env \<Rightarrow> (nat \<times> int \<times> int) decoded \<Rightarrow> ('t, 'c, 'w) handler" where
  "waitForIdle_call env data st =
     (case plan_idle data (rp_driver st) of Inl e \<Rightarrow> Some (Inl e, st) | Inr p \<Rightarrow> run_plan env p st)"

definition waitForEnd_call :: "wait_env \<Rightarrow> (nat \<times> int) decoded \<Rightarrow> ('t, 'c, 'w) handler" where
  "waitForEnd_call env data st =
     (case plan_end data (rp_driver st) of Inl e \<Rightarrow> Some (Inl e, st) | Inr p \<Rightarrow> run_plan env p st)"

subsection \<open>Subscriptions\<close>

definition subscribe_call :: "nat decoded \<Rightarrow> ('t, 'c, 'w) handler" where
  "subscribe_call data st =
     Some (case data of
       Malformed e \<Rightarrow> (Inl (InvalidParams e), st)
     | Params session \<Rightarrow>
         (case getSession session (rp_driver st) of
            Inl e \<Rightarrow> (Inl e, st)
          | Inr _ \<Rightarrow>
              (case add_subscription session (rp_driver st) of
                 (i, d) \<Rightarrow> (Inr (SubscriptionID i), st\<lparr>rp_driver := d\<rparr>))))"

text \<open>An event subscription also registers with the session, before it reads the history.\<close>

definition subscribeEvents_call :: "nat decoded \<Rightarrow> ('t, 'c, 'w) handler" where
  "subscribeEvents_call data st =
     Some (case data of
       Malformed e \<Rightarrow> (Inl (InvalidParams e), st)
     | Params session \<Rightarrow>
         (case getSession session (rp_driver st) of
            Inl e \<Rightarrow> (Inl e, st)
          | Inr core_id \<Rightarrow>
              (case add_subscription session (rp_driver st) of
                 (i, d) \<Rightarrow>
                   (Inr (SubscriptionID i),
                    put_session core_id (snd (Events (rp_sessions st core_id))) (st\<lparr>rp_driver := d\<rparr>)))))"

definition replayedEvents :: nat where "replayedEvents = 64"

definition replay_of :: "terminal_event list \<Rightarrow> terminal_event list" where
  "replay_of history = drop (length history - replayedEvents) history"

text \<open>
  An event subscription in any interleaving with its session. \<open>subscribeEvents\<close> registers a channel, then
  reads the history; its goroutine waits to be started, writes the replay and drains the channel, leaving
  out what the replay held. \<open>es_sent\<close> are the notifications written and \<open>es_last\<close> is \<open>last\<close> of the code. Three
  fields only record what happened: all events published so far, how many there were when the history was
  read, and how many when the channel was closed (or are now).
\<close>

datatype subscription_phase =
    Registering | Reading | Awaiting "terminal_event list" | Replaying "terminal_event list" | Relaying | Concluded bool

record ('t, 'c) event_subscription =
  es_session :: "('t, 'c) session"
  es_channel :: "nat option"
  es_phase :: subscription_phase
  es_last :: nat
  es_sent :: "terminal_event list"
  es_published :: "terminal_event list"
  es_read :: nat
  es_cut :: nat

definition new_subscription :: "('t, 'c) session \<Rightarrow> ('t, 'c) event_subscription" where
  "new_subscription s =
     \<lparr>es_session = s, es_channel = None, es_phase = Registering, es_last = 0, es_sent = [],
      es_published = [], es_read = 0, es_cut = 0\<rparr>"

text \<open>The unread events of the subscription's channel, and whether it is open.\<close>

definition channel_of :: "('t, 'c) event_subscription \<Rightarrow> terminal_event list \<times> bool" where
  "channel_of u =
     (case es_channel u of
        None \<Rightarrow> ([], False)
      | Some j \<Rightarrow> (case ss_subscribers (es_session u) j of None \<Rightarrow> ([], False) | Some ch \<Rightarrow> ch))"

definition publish_to :: "terminal_event \<Rightarrow> ('t, 'c) event_subscription \<Rightarrow> ('t, 'c) event_subscription" where
  "publish_to e u =
     (let u' = u\<lparr>es_session := publishEvent e (es_session u), es_published := es_published u @ [e]\<rparr>
      in if snd (channel_of u') then u'\<lparr>es_cut := length (es_published u')\<rparr> else u')"

text \<open>What another user of the session may do: it touches neither the events nor this channel.\<close>

definition same_events :: "('t, 'c) event_subscription \<Rightarrow> ('t, 'c) session \<Rightarrow> bool" where
  "same_events u s \<longleftrightarrow>
     ss_history s = ss_history (es_session u) \<and> ss_event_sequence s = ss_event_sequence (es_session u) \<and>
     (\<forall>j. es_channel u = Some j \<longrightarrow> ss_subscribers s j = ss_subscribers (es_session u) j)"

text \<open>
  \<open>Concluded True\<close> is a goroutine that drained its closed channel; \<open>Concluded False\<close> one whose write failed or
  whose context ended before it was started.
\<close>

inductive event_step :: "('t, 'c) event_subscription \<Rightarrow> ('t, 'c) event_subscription \<Rightarrow> bool" where
  publish: "event_step u (publish_to e u)"
| other: "same_events u s \<Longrightarrow> event_step u (u\<lparr>es_session := s\<rparr>)"
| session_ended: "event_step u (u\<lparr>es_session := finish err (es_session u)\<rparr>)"
| cancelled: "es_channel u = Some j \<Longrightarrow> event_step u (u\<lparr>es_session := unsubscribe j (es_session u)\<rparr>)"
| register:
    "es_phase u = Registering \<Longrightarrow> Events (es_session u) = (c, s) \<Longrightarrow>
     event_step u (u\<lparr>es_session := s, es_channel := c, es_cut := length (es_published u), es_phase := Reading\<rparr>)"
| read_history:
    "es_phase u = Reading \<Longrightarrow>
     event_step u (u\<lparr>es_read := length (es_published u),
                    es_phase := Awaiting (replay_of (EventsAfter 0 (es_session u)))\<rparr>)"
| started: "es_phase u = Awaiting r \<Longrightarrow> event_step u (u\<lparr>es_phase := Replaying r\<rparr>)"
| never_started: "es_phase u = Awaiting r \<Longrightarrow> event_step u (u\<lparr>es_phase := Concluded False\<rparr>)"
| replayed:
    "es_phase u = Replaying (e # r) \<Longrightarrow>
     event_step u (u\<lparr>es_sent := es_sent u @ [e], es_last := ev_sequence e, es_phase := Replaying r\<rparr>)"
| replay_failed: "es_phase u = Replaying (e # r) \<Longrightarrow> event_step u (u\<lparr>es_phase := Concluded False\<rparr>)"
| replay_done: "es_phase u = Replaying [] \<Longrightarrow> event_step u (u\<lparr>es_phase := Relaying\<rparr>)"
| known:
    "es_phase u = Relaying \<Longrightarrow> es_channel u = Some j \<Longrightarrow> receive j (es_session u) = (Some e, s) \<Longrightarrow>
     \<not> ev_sequence e > es_last u \<Longrightarrow> event_step u (u\<lparr>es_session := s\<rparr>)"
| notified:
    "es_phase u = Relaying \<Longrightarrow> es_channel u = Some j \<Longrightarrow> receive j (es_session u) = (Some e, s) \<Longrightarrow>
     ev_sequence e > es_last u \<Longrightarrow> event_step u (u\<lparr>es_session := s, es_sent := es_sent u @ [e]\<rparr>)"
| notify_failed:
    "es_phase u = Relaying \<Longrightarrow> es_channel u = Some j \<Longrightarrow> receive j (es_session u) = (Some e, s) \<Longrightarrow>
     ev_sequence e > es_last u \<Longrightarrow> event_step u (u\<lparr>es_session := s, es_phase := Concluded False\<rparr>)"
| drained: "es_phase u = Relaying \<Longrightarrow> channel_of u = ([], False) \<Longrightarrow> event_step u (u\<lparr>es_phase := Concluded True\<rparr>)"

text \<open>The states from the opening of a session on.\<close>

inductive event_runs :: "('t, 'c) event_subscription \<Rightarrow> bool" where
  opened: "event_runs (new_subscription (newSession T i now t c))"
| step: "event_runs u \<Longrightarrow> event_step u v \<Longrightarrow> event_runs v"

definition unsubscribe_call :: "nat decoded \<Rightarrow> ('t, 'c, 'w) handler" where
  "unsubscribe_call data st =
     Some (case data of
       Malformed e \<Rightarrow> (Inl (InvalidParams e), st)
     | Params i \<Rightarrow>
         (case unsubscribe_section i (rp_driver st) of
            (found, d) \<Rightarrow>
              (if found then Inr Unsubscribed else Inl (UnknownSubscription i), st\<lparr>rp_driver := d\<rparr>)))"

subsection \<open>Dispatch\<close>

datatype rpc_method =
    Ping
  | Shutdown
  | OpenConnection "connection_options decoded"
  | CloseConnection "nat decoded"
  | OpenSession "open_params decoded"
  | CloseSession "nat decoded"
  | SendInput "(nat \<times> string option \<times> string option) decoded"
  | PressKey "(nat \<times> key \<times> string list) decoded"
  | ResizeTo "(nat \<times> int \<times> int) decoded"
  | ReadScreen "nat decoded"
  | Wait "wait_params decoded"
  | WaitIdle "(nat \<times> int \<times> int) decoded"
  | ReadState "nat decoded"
  | WaitEnd "(nat \<times> int) decoded"
  | Subscribe "nat decoded"
  | SubscribeEvents "nat decoded"
  | Unsubscribe "nat decoded"
  | OtherMethod

fun call ::
  "('t, 'c, 'w) core_ops \<Rightarrow> (string \<Rightarrow> string) \<Rightarrow> wait_env \<Rightarrow> int \<Rightarrow> rpc_method \<Rightarrow> ('t, 'c, 'w) handler" where
  "call C quote env now Ping st = Some (Inr Pong, st)"
| "call C quote env now Shutdown st = Some (Inr ShuttingDown, st)"
| "call C quote env now (OpenConnection p) st = openConnection C p st"
| "call C quote env now (CloseConnection p) st = closeConnection C p st"
| "call C quote env now (OpenSession p) st = openSession C now p st"
| "call C quote env now (CloseSession p) st = closeSession C p st"
| "call C quote env now (SendInput p) st = send_call C p st"
| "call C quote env now (PressKey p) st = press_call C p st"
| "call C quote env now (ResizeTo p) st = resize_call C now p st"
| "call C quote env now (ReadScreen p) st = screen_call C p st"
| "call C quote env now (Wait p) st = wait_call quote env p st"
| "call C quote env now (WaitIdle p) st = waitForIdle_call env p st"
| "call C quote env now (ReadState p) st = state_call p st"
| "call C quote env now (WaitEnd p) st = waitForEnd_call env p st"
| "call C quote env now (Subscribe p) st = subscribe_call p st"
| "call C quote env now (SubscribeEvents p) st = subscribeEvents_call p st"
| "call C quote env now (Unsubscribe p) st = unsubscribe_call p st"
| "call C quote env now OtherMethod st = Some (Inl MethodNotFound, st)"

subsection \<open>Responses\<close>

datatype rpc_response = Response string "driver_error + rpc_result" | Notification nat terminal_event

text \<open>\<open>rpcWriter\<close>: what was written, whether a write failed, and how the encoder will answer.\<close>

record rpcWriter =
  rw_written :: "rpc_response list"
  rw_failure :: bool
  rw_answers :: "bool list"

definition rpc_write :: "rpc_response \<Rightarrow> rpcWriter \<Rightarrow> bool \<times> rpcWriter" where
  "rpc_write v w =
     (if rw_failure w then (False, w)
      else case rw_answers w of
          False # answers \<Rightarrow> (False, w\<lparr>rw_failure := True, rw_answers := answers\<rparr>)
        | True # answers \<Rightarrow> (True, w\<lparr>rw_written := rw_written w @ [v], rw_answers := answers\<rparr>)
        | [] \<Rightarrow> (True, w\<lparr>rw_written := rw_written w @ [v]\<rparr>))"

text \<open>A request: whether it names JSON-RPC 2.0 and a method, its identifier, and its method.\<close>

record rpc_request =
  rq_valid :: bool
  rq_id :: string
  rq_method :: rpc_method

definition is_subscribe :: "rpc_method \<Rightarrow> bool" where
  "is_subscribe m \<longleftrightarrow> (case m of Subscribe _ \<Rightarrow> True | SubscribeEvents _ \<Rightarrow> True | _ \<Rightarrow> False)"

text \<open>\<open>serve\<close>; the boolean is the signal to shut down.\<close>

definition serve ::
  "('t, 'c, 'w) core_ops \<Rightarrow> (string \<Rightarrow> string) \<Rightarrow> wait_env \<Rightarrow> int \<Rightarrow> rpc_request \<Rightarrow>
     rpcWriter \<times> ('t, 'c, 'w) rpc \<Rightarrow> (bool \<times> rpcWriter \<times> ('t, 'c, 'w) rpc) option" where
  "serve C quote env now q ws =
     (case ws of (w, st) \<Rightarrow>
        if \<not> rq_valid q
        then Some (False, if rq_id q \<noteq> [] then snd (rpc_write (Response (rq_id q) (Inl InvalidRequest)) w) else w, st)
        else do { (result, st1) \<leftarrow> call C quote env now (rq_method q) st;
                  (let (ok, w1) = (if rq_id q \<noteq> [] then rpc_write (Response (rq_id q) result) w else (True, w))
                   in if \<not> ok then Some (False, w1, st1)
                      else (let st2 = (case result of
                                  Inr (SubscriptionID i) \<Rightarrow>
                                    if is_subscribe (rq_method q) then on_driver (startSubscription i) st1 else st1
                                | _ \<Rightarrow> st1)
                            in Some (rq_method q = Shutdown, w1, st2))) })"

text \<open>\<open>Close\<close> of the driver: the core's \<open>Close\<close> is the parameter \<open>close_core\<close>.\<close>

definition close_rpc ::
  "((nat \<Rightarrow> ('t, 'c) session) \<Rightarrow> 'w \<Rightarrow> string option \<times> (nat \<Rightarrow> ('t, 'c) session) \<times> 'w) \<Rightarrow>
     ('t, 'c, 'w) rpc \<Rightarrow> string option \<times> ('t, 'c, 'w) rpc" where
  "close_rpc close_core st =
     (case close_driver (rp_driver st) of
        (False, _) \<Rightarrow> (None, st)
      | (True, d) \<Rightarrow>
          (case close_core (rp_sessions st) (rp_world st) of
             (e, ss, w) \<Rightarrow> (e, st\<lparr>rp_driver := d, rp_sessions := ss, rp_world := w\<rparr>)))"

subsection \<open>Exclusive controllers\<close>

text \<open>A controller of session \<open>i\<close> with its token; the core's session it was given is \<open>session\<close>.\<close>

record control =
  ct_id :: nat
  ct_token :: nat
  ct_session :: nat

definition AcquireSessionControl :: "nat \<Rightarrow> driver \<Rightarrow> ((control_error + control) \<times> driver) option" where
  "AcquireSessionControl i d =
     (case dr_sessions d i of
        None \<Rightarrow> Some (Inl (NotRegistered i), d)
      | Some record \<Rightarrow>
          map_option (\<lambda>r. case r of
              (Inl e, d') \<Rightarrow> (Inl e, d')
            | (Inr token, d') \<Rightarrow> (Inr \<lparr>ct_id = i, ct_token = token, ct_session = sr_session record\<rparr>, d'))
          (acquire_control i record d))"

definition control_send ::
  "('t, 'c, 'w) core_ops \<Rightarrow> control \<Rightarrow> byte list \<Rightarrow> ('t, 'c, 'w) rpc \<Rightarrow> control_error option \<times> ('t, 'c, 'w) rpc" where
  "control_send C c data st =
     (if \<not> control_active (ct_id c) (ct_token c) (rp_driver st) then (Some ControlReleased, st)
      else case Send (op_streams C) data (rp_sessions st (ct_session c)) of
          (e, s') \<Rightarrow> (map_option (\<lambda>x. ControlFailed (op_error C x)) e, put_session (ct_session c) s' st))"

definition control_press ::
  "('t, 'c, 'w) core_ops \<Rightarrow> control \<Rightarrow> key \<Rightarrow> key_modifiers list \<Rightarrow> ('t, 'c, 'w) rpc \<Rightarrow>
     control_error option \<times> ('t, 'c, 'w) rpc" where
  "control_press C c key modifiers st =
     (if \<not> control_active (ct_id c) (ct_token c) (rp_driver st) then (Some ControlReleased, st)
      else case Press (op_terminals C) (op_streams C) key modifiers (rp_sessions st (ct_session c)) of
          (e, s') \<Rightarrow> (map_option (\<lambda>x. ControlFailed (op_error C x)) e, put_session (ct_session c) s' st))"

definition control_wait ::
  "control \<Rightarrow> matcher \<Rightarrow> (view \<times> wake) list \<Rightarrow> ('t, 'c, 'w) rpc \<Rightarrow> (control_error + wait_result) option" where
  "control_wait c m rounds st =
     (if \<not> control_active (ct_id c) (ct_token c) (rp_driver st) then Some (Inl ControlReleased)
      else map_option Inr (WaitFor m rounds))"

text \<open>\<open>Release\<close> is idempotent: a second release, or one after the session was closed, changes nothing.\<close>

definition Release :: "control \<Rightarrow> driver \<Rightarrow> driver option" where
  "Release c d = release_control (ct_id c) (ct_token c) d"

subsection \<open>The main loop\<close>

text \<open>
  \<open>Run\<close> on the events it selects: a request, the end of the input (with whether its last object was
  malformed). Requests are served one after the other here; their interleaving is the subject of the
  registry. A \<open>Run\<close> whose events are used up, or one of whose requests still waits, has not returned.
\<close>

datatype run_event = Incoming rpc_request | InputEnded bool

datatype run_result = RunDone | RunCloseFailed string | RunWriteFailed | RunDecodeFailed

definition finish_run ::
  "((nat \<Rightarrow> ('t, 'c) session) \<Rightarrow> 'w \<Rightarrow> string option \<times> (nat \<Rightarrow> ('t, 'c) session) \<times> 'w) \<Rightarrow> bool \<Rightarrow>
     rpcWriter \<times> ('t, 'c, 'w) rpc \<Rightarrow> run_result \<times> rpcWriter \<times> ('t, 'c, 'w) rpc" where
  "finish_run close_core malformed ws =
     (case ws of (w, st) \<Rightarrow>
        (case close_rpc close_core st of
           (Some e, st') \<Rightarrow> (RunCloseFailed e, w, st')
         | (None, st') \<Rightarrow>
             if rw_failure w then (RunWriteFailed, w, st')
             else if malformed
             then (let (ok, w') = rpc_write (Response ''null'' (Inl ParseError)) w
                   in (if ok then RunDecodeFailed else RunWriteFailed, w', st'))
             else (RunDone, w, st')))"

primrec Run ::
  "('t, 'c, 'w) core_ops \<Rightarrow> (string \<Rightarrow> string) \<Rightarrow> wait_env \<Rightarrow> int \<Rightarrow>
     ((nat \<Rightarrow> ('t, 'c) session) \<Rightarrow> 'w \<Rightarrow> string option \<times> (nat \<Rightarrow> ('t, 'c) session) \<times> 'w) \<Rightarrow> run_event list \<Rightarrow>
     rpcWriter \<times> ('t, 'c, 'w) rpc \<Rightarrow> (run_result \<times> rpcWriter \<times> ('t, 'c, 'w) rpc) option" where
  "Run C quote env now close_core [] ws = None"
| "Run C quote env now close_core (e # es) ws =
     (case e of
        InputEnded malformed \<Rightarrow> Some (finish_run close_core malformed ws)
      | Incoming q \<Rightarrow>
          (case serve C quote env now q ws of
             None \<Rightarrow> None
           | Some (stop, ws') \<Rightarrow>
               if stop \<or> rw_failure (fst ws') then Some (finish_run close_core False ws')
               else Run C quote env now close_core es ws'))"

end
