(* ===== verification/Driver_Props.thy ===== *)
theory Driver_Props
  imports Driver_Control Driver_Serve
begin

text \<open>
  Properties of the driver: its registry under any interleaving of requests, exclusive control, the
  bounds of durations, snapshots, input through the gate, and the event subscriptions.
\<close>

subsection \<open>A run for the witnesses\<close>

definition example_record :: sessionRecord where
  "example_record = \<lparr>sr_connectionID = 1, sr_session = 7, sr_terminal = ''vt220''\<rparr>"

definition run_open :: driver where
  "run_open = new_driver\<lparr>dr_nextConnection := 1,
     dr_connections := [1 \<mapsto> \<lparr>cr_connection = 4, cr_protocol = ''telnet'', cr_address = ''host:23''\<rparr>],
     dr_nextSession := 1, dr_sessions := [1 \<mapsto> example_record]\<rparr>"

lemma runs_open: "driver_runs \<lparr>wl_driver = run_open, wl_sending = []\<rparr>"
proof -
  let ?a = "\<lparr>wl_driver = snd (register_connection 4 ''telnet'' ''host:23'' new_driver), wl_sending = []\<rparr>"
  have "driver_runs ?a"
    using driver_runs.step [OF driver_runs.fresh driver_step.open_connection [OF prod.collapse [symmetric]],
        of 4 "''telnet''" "''host:23''"] by simp
  then have "driver_runs (?a\<lparr>wl_driver := snd (register_session 1
      \<lparr>cr_connection = 4, cr_protocol = ''telnet'', cr_address = ''host:23''\<rparr> 7 ''vt220'' (wl_driver ?a))\<rparr>)"
    by (rule driver_runs.step) (rule driver_step.open_session [OF prod.collapse [symmetric]])
  then show ?thesis
    by (simp add: register_connection_def register_session_def run_open_def new_driver_def example_record_def Let_def)
qed

text \<open>Two inputs of one controller, sent at the same time, are under way together.\<close>

definition run_controlled :: workload where
  "run_controlled =
     \<lparr>wl_driver = run_open\<lparr>dr_nextControl := 1, dr_controls := [1 \<mapsto> 1]\<rparr>, wl_sending = [(1, 1), (1, 1)]\<rparr>"

lemma runs_controlled: "driver_runs run_controlled"
proof -
  let ?d = "run_open\<lparr>dr_nextControl := 1, dr_controls := [1 \<mapsto> 1]\<rparr>"
  have "acquire_control 1 example_record run_open = Some (Inr 1, ?d)"
    by (simp add: acquire_control_def run_open_def new_driver_def Let_def)
  then have "driver_runs \<lparr>wl_driver = ?d, wl_sending = []\<rparr>"
    using driver_runs.step [OF runs_open driver_step.acquire, of 1 example_record "Inr 1" ?d] by simp
  moreover have "control_active 1 1 ?d" by (simp add: control_active_def)
  ultimately have "driver_runs \<lparr>wl_driver = ?d, wl_sending = [(1, 1)]\<rparr>" "control_active 1 1 ?d"
    using driver_runs.step [OF _ driver_step.begin_send, of "\<lparr>wl_driver = ?d, wl_sending = []\<rparr>" 1 1] by simp_all
  then show ?thesis
    using driver_runs.step [OF _ driver_step.begin_send, of "\<lparr>wl_driver = ?d, wl_sending = [(1, 1)]\<rparr>" 1 1]
    by (simp add: run_controlled_def)
qed

subsection \<open>The registry\<close>

text \<open>
  C18: However requests interleave, every registered session belongs to a registered connection and every
  controller sits on a registered session. Until the driver is closed a subscription cancelled by the
  registry (unsubscribed, or its session or connection closed) is not registered; afterwards only
  cancelled subscriptions are, those of requests that came after \<open>Close\<close>. A session that is opened while its
  connection is being closed is refused and leaves the registry as it is.
\<close>

theorem driver_registry_consistent:
  assumes "driver_runs w"
  shows "(\<forall>i r. dr_sessions (wl_driver w) i = Some r \<longrightarrow> dr_connections (wl_driver w) (sr_connectionID r) \<noteq> None) \<and>
     (\<forall>i t. dr_controls (wl_driver w) i = Some t \<longrightarrow> dr_sessions (wl_driver w) i \<noteq> None) \<and>
     (\<not> dr_closed (wl_driver w) \<longrightarrow> (\<forall>i \<in> dr_cancelled (wl_driver w). dr_subscriptions (wl_driver w) i = None)) \<and>
     (dr_closed (wl_driver w) \<longrightarrow> dom (dr_subscriptions (wl_driver w)) \<subseteq> dr_cancelled (wl_driver w)) \<and>
     register_session i connection session t (snd (remove_connection i (wl_driver w))) =
       (None, snd (remove_connection i (wl_driver w)))"
proof -
  have "registry_ok (wl_driver w)" by (rule runs_registry [OF assms])
  then have "\<forall>i r. dr_sessions (wl_driver w) i = Some r \<longrightarrow> dr_connections (wl_driver w) (sr_connectionID r) \<noteq> None"
      "\<forall>i t. dr_controls (wl_driver w) i = Some t \<longrightarrow> dr_sessions (wl_driver w) i \<noteq> None"
      "cancelled_gone (wl_driver w)"
    unfolding registry_ok_def sessions_connected_def controls_registered_def by simp_all
  moreover have "dr_connections (snd (remove_connection i (wl_driver w))) i = None"
    by (simp add: remove_connection_def split: option.splits)
  then have "register_session i connection session t (snd (remove_connection i (wl_driver w))) =
       (None, snd (remove_connection i (wl_driver w)))"
    by (simp add: register_session_def)
  ultimately show ?thesis unfolding cancelled_gone_def by (auto split: if_splits)
qed

theorem driver_registry_consistent_witness:
  "dr_controls (wl_driver run_controlled) 1 = Some 1 \<and> dr_sessions (wl_driver run_controlled) 1 \<noteq> None"
  using driver_registry_consistent [OF runs_controlled]
  by (simp add: run_controlled_def)

text \<open>
  A subscription requested after \<open>Close\<close> is answered with an identifier and stays registered, although its
  context is cancelled and it never delivers anything.
\<close>

theorem late_subscription_registered:
  "\<exists>w i. driver_runs w \<and> i \<in> dr_cancelled (wl_driver w) \<and>
     dr_subscriptions (wl_driver w) i = Some \<lparr>sub_sessionID = 1, sub_started = False\<rparr>"
proof -
  let ?c = "\<lparr>wl_driver = snd (close_driver run_open), wl_sending = []\<rparr>"
  have "driver_runs ?c"
    using driver_runs.step [OF runs_open driver_step.close [OF prod.collapse [symmetric]]] by simp
  then have "driver_runs (?c\<lparr>wl_driver := snd (add_subscription 1 (wl_driver ?c))\<rparr>)"
    by (rule driver_runs.step) (rule driver_step.subscribe [OF prod.collapse [symmetric]])
  then show ?thesis
    by (rule_tac x = "?c\<lparr>wl_driver := snd (add_subscription 1 (wl_driver ?c))\<rparr>" in exI)
      (auto simp: add_subscription_def close_driver_def run_open_def new_driver_def Let_def)
qed

text \<open>
  C19: As long as the driver is open, the inputs under way on a session are either one send, press or resize
  of an RPC client, during which every other such request and every attempt to take control waits, or
  inputs of a single controller (which may overlap each other: its lock is a read lock), during which no
  RPC input is; and while a session has a controller every RPC request to send, press or resize and every
  attempt to take control is refused at once without touching it.
\<close>

theorem control_exclusive:
  assumes "driver_runs w" "\<not> dr_closed (wl_driver w)"
  shows "(\<forall>i \<in> dr_gates (wl_driver w). (\<forall>t. (i, t) \<notin> set (wl_sending w)) \<and>
        begin_mutation i record (wl_driver w) = None \<and> acquire_control i record (wl_driver w) = None) \<and>
     (\<forall>i t u. (i, t) \<in> set (wl_sending w) \<and> (i, u) \<in> set (wl_sending w) \<longrightarrow> u = t) \<and>
     (\<forall>i t. dr_controls (wl_driver w) i = Some t \<longrightarrow>
        i \<notin> dr_gates (wl_driver w) \<and>
        (\<exists>e. begin_mutation i record (wl_driver w) = Some (Inl e, wl_driver w)) \<and>
        (\<exists>e. acquire_control i record (wl_driver w) = Some (Inl e, wl_driver w)))"
proof -
  have c: "control_ok w" "sends_ok w" using runs_control [OF assms(1)] assms(2) by auto
  have g: "i \<notin> dr_gates (wl_driver w)" if "dr_controls (wl_driver w) i = Some t" for i t
    using c(1) that by (auto simp: control_ok_def)
  moreover have "\<exists>e. begin_mutation i record (wl_driver w) = Some (Inl e, wl_driver w)"
    if "dr_controls (wl_driver w) i = Some t" for i t
    using that g [OF that] by (auto simp: begin_mutation_def split: option.splits)
  moreover have "\<exists>e. acquire_control i record (wl_driver w) = Some (Inl e, wl_driver w)"
    if "dr_controls (wl_driver w) i = Some t" for i t
    using that g [OF that] by (auto simp: acquire_control_def split: option.splits)
  moreover have "begin_mutation i record (wl_driver w) = None" "acquire_control i record (wl_driver w) = None"
    if "i \<in> dr_gates (wl_driver w)" for i
    using that by (simp_all add: begin_mutation_def acquire_control_def)
  ultimately show ?thesis using c(2) unfolding sends_ok_def by blast
qed

theorem control_exclusive_witness:
  "\<exists>e. begin_mutation 1 example_record (wl_driver run_controlled) = Some (Inl e, wl_driver run_controlled)"
proof -
  have "\<not> dr_closed (wl_driver run_controlled)" "dr_controls (wl_driver run_controlled) 1 = Some 1"
    by (simp_all add: run_controlled_def run_open_def new_driver_def)
  then show ?thesis using control_exclusive [OF runs_controlled, of example_record] by blast
qed

subsection \<open>Durations\<close>

lemma sint_small:
  fixes e :: int
  assumes "0 \<le> e" "e < 2 ^ 63"
  shows "sint (word_of_int e :: 64 word) = e"
proof -
  have "sint (word_of_int e :: 64 word) = signed_take_bit 63 e" by (simp add: sint_sbintrunc')
  moreover have "signed_take_bit 63 e = e" using assms by (simp add: signed_take_bit_int_eq_self)
  ultimately show ?thesis by simp
qed

lemma product_64:
  fixes a b :: int
  shows "0 \<le> a * b \<Longrightarrow> a * b < 2 ^ 63 \<Longrightarrow> sint (word_of_int a * word_of_int b :: 64 word) = a * b"
  by (simp only: wi_hom_mult sint_small)

text \<open>
  A number of milliseconds is accepted exactly when it is not negative, positive unless zero is
  allowed, and its nanoseconds fit a 64-bit signed duration; then the product is exact, also computed
  in 64-bit arithmetic.
\<close>

theorem milliseconds_exact:
  "(milliseconds v allowZero = Inr d \<longleftrightarrow>
      d = v * 1000000 \<and> 0 \<le> v \<and> (allowZero \<or> 0 < v) \<and> d < 2 ^ 63) \<and>
   (case milliseconds v allowZero of
      Inl _ \<Rightarrow> True
    | Inr e \<Rightarrow> sint (word_of_int v * word_of_int 1000000 :: 64 word) = e)"
proof -
  have lim: "(2 ^ 63 - 1) div 1000000 = (9223372036854 :: int)" by simp
  have iff: "milliseconds v allowZero = Inr e \<longleftrightarrow> e = v * 1000000 \<and> 0 \<le> v \<and> (allowZero \<or> 0 < v) \<and> e < 2 ^ 63" for e
    unfolding milliseconds_def lim by auto
  have "sint (word_of_int v * word_of_int 1000000 :: 64 word) = e" if "milliseconds v allowZero = Inr e" for e
  proof -
    have e: "e = v * 1000000" "0 \<le> e" "e < 2 ^ 63" using iff [THEN iffD1, OF that] by simp_all
    then show ?thesis using product_64 [of v 1000000] by (simp only: e(1))
  qed
  then show ?thesis using iff [of d] by (simp split: sum.split)
qed

end
