(* ===== verification/Driver_Requests.thy ===== *)
theory Driver_Requests
  imports Driver_Props Session_Stack
begin

text \<open>
  What requests do to the core through the driver: input in either encoding, the responses a request
  gets, snapshots, and the events a subscription sends.
\<close>

subsection \<open>An instance\<close>

text \<open>The driver over the ANSI terminal and the Telnet stream, for the witnesses.\<close>

type_synonym stack_session = "(unit parser \<times> terminal, stream) session"

definition stack_session :: stack_session where
  "stack_session = newSession (ansi_ops (\<lambda>_. 1) id plain_lib plain_parser) 7 0
     (\<lparr>ps_parser = (), ps_continuation = 0\<rparr>, t32) (newStream new_conn [] 3 2)"

definition stack_core :: "(unit parser \<times> terminal, stream, unit) core_ops" where
  "stack_core =
     \<lparr>op_terminals = ansi_ops (\<lambda>_. 1) id plain_lib plain_parser, op_streams = telnet_ops,
      op_connector = (\<lambda>_. None), op_connect = (\<lambda>_ _ w. (Inr 4, w)),
      op_close_connection = (\<lambda>_ ss w. (None, ss, w)),
      op_terminal = (\<lambda>_ _ _. Inr (\<lparr>ps_parser = (), ps_continuation = 0\<rparr>, t32)), op_answerback = None,
      op_open = (\<lambda>_ _ w. (Inr (7, newStream new_conn [] 3 2), w)), op_error = (\<lambda>_. ''failed'')\<rparr>"

definition stack_rpc :: "(unit parser \<times> terminal, stream, unit) rpc" where
  "stack_rpc = \<lparr>rp_driver = run_open, rp_sessions = (\<lambda>_. stack_session), rp_world = ()\<rparr>"

subsection \<open>Input\<close>

lemma map_of_nat_unat [simp]: "map (\<lambda>x. of_nat (unat x)) data = (data :: byte list)"
  by (induction data) simp_all

text \<open>
  \<open>session.send\<close> with the base64 encoding of any bytes hands exactly these bytes to the core's session
  when no controller and no other request is at it, reports their number or the session's error, and
  leaves the registry, with the gate released, as it was.
\<close>

theorem send_base64_exact:
  assumes "dr_sessions (rp_driver st) i = Some r" "dr_controls (rp_driver st) i = None" "i \<notin> dr_gates (rp_driver st)"
  shows "send_call C (Params (i, None, Some (encode64 (map unat data)))) st =
     Some (case Send (op_streams C) data (rp_sessions st (sr_session r)) of
         (Some e, s') \<Rightarrow> (Inl (CoreFailed (op_error C e)), put_session (sr_session r) s' st)
       | (None, s') \<Rightarrow> (Inr (BytesSent (length data)), put_session (sr_session r) s' st))"
proof -
  have "payload None (Some (encode64 (map unat data))) = Inr data"
  proof -
    have "\<forall>b \<in> set (map unat data). b < 256" using unsigned_less [where ?'b = 8] by auto
    then show ?thesis by (simp add: payload_def decode_encode comp_def)
  qed
  moreover have "st\<lparr>rp_driver := rp_driver st\<rparr> = st" by simp
  ultimately show ?thesis using assms
    by (auto simp: send_call_def with_session_def begin_mutation_def end_mutation_def on_driver_def put_session_def
        split: prod.splits option.splits)
qed

theorem send_base64_exact_witness:
  "\<exists>s'. Send telnet_ops [104, 105] stack_session = (None, s') \<and>
     send_call stack_core (Params (1, None, Some (encode64 (map unat [104, 105 :: byte])))) stack_rpc =
       Some (Inr (BytesSent 2), put_session 7 s' stack_rpc)"
proof -
  have "healthy (st_conn (ss_stream stack_session))" "\<not> ss_closing stack_session" "\<not> ss_done stack_session"
    by (simp_all add: stack_session_def newSession_def newStream_def new_conn_def healthy_def Let_def)
  from Send_healthy [OF this, of "[104, 105]"] obtain s' where s': "Send telnet_ops [104, 105] stack_session = (None, s')"
    by blast
  have st: "dr_sessions (rp_driver stack_rpc) 1 = Some example_record"
      "dr_controls (rp_driver stack_rpc) 1 = None" "1 \<notin> dr_gates (rp_driver stack_rpc)"
    by (simp_all add: stack_rpc_def run_open_def new_driver_def)
  have p: "op_streams stack_core = telnet_ops" "rp_sessions stack_rpc (sr_session example_record) = stack_session"
      "sr_session example_record = 7" "length [104, 105 :: byte] = 2"
    by (simp_all add: stack_core_def stack_rpc_def example_record_def)
  note call = send_base64_exact [OF st, of stack_core "[104, 105]", unfolded p(1,2) s' prod.case option.case, unfolded p(3,4)]
  show ?thesis by (rule exI [of _ s'], rule conjI [OF s' call])
qed

subsection \<open>Responses\<close>

lemma with_session_error:
  assumes "with_session i act st = Some (Inl e, st1)"
    "\<And>session st0 st2. act session st0 = Some (Inl e, st2) \<Longrightarrow> e \<noteq> InvalidRequest"
  shows "e \<noteq> InvalidRequest"
  using assms(1) assms(2) unfolding with_session_def begin_mutation_def
  by (auto simp: bind_Some_iff split: option.splits if_splits sum.splits)

lemma modifiers_error: "modifiers_of ms = Inl e \<Longrightarrow> e \<noteq> InvalidRequest"
proof (induction ms)
  case (Cons m ms)
  then show ?case by (cases "modifier_of m"; cases "modifiers_of ms") auto
qed simp

lemma run_plan_error: "run_plan env p st = Some (Inl e, st1) \<Longrightarrow> e \<noteq> InvalidRequest"
proof -
  have "wait_outcome r = Inl e \<Longrightarrow> e \<noteq> InvalidRequest" for r
    by (cases r; (cases "case r of Rejected c \<Rightarrow> c | _ \<Rightarrow> MatcherRequired")?)
      (auto simp: wait_outcome_def makeScreenResult_def split: wait_cause.splits)
  then show "run_plan env p st = Some (Inl e, st1) \<Longrightarrow> e \<noteq> InvalidRequest"
    by (auto simp: run_plan_def split: wait_plan.splits option.splits if_splits)
qed

lemma call_error:
  assumes "call C quote env now m st = Some (Inl e, st1)"
  shows "e \<noteq> InvalidRequest"
proof (cases m)
  case (SendInput p)
  have "payload x y = Inl e \<Longrightarrow> e \<noteq> InvalidRequest" for x y
    by (auto simp: payload_def split: option.splits)
  then show ?thesis using assms SendInput
    by (auto simp: send_call_def split: decoded.splits sum.splits option.splits prod.splits dest!: with_session_error)
next
  case (PressKey p)
  then show ?thesis using assms modifiers_error
    by (auto simp: press_call_def split: decoded.splits sum.splits option.splits prod.splits dest!: with_session_error)
next
  case (ResizeTo p)
  then show ?thesis using assms
    by (auto simp: resize_call_def split: decoded.splits sum.splits option.splits prod.splits dest!: with_session_error)
next
  case (Wait p)
  then show ?thesis using assms
    by (auto simp: wait_call_def plan_wait_def getSession_def checked_milliseconds_def
        split: decoded.splits sum.splits option.splits if_splits dest: run_plan_error)
next
  case (WaitIdle p)
  then show ?thesis using assms
    by (auto simp: waitForIdle_call_def plan_idle_def getSession_def checked_milliseconds_def
        split: decoded.splits sum.splits option.splits if_splits dest: run_plan_error)
next
  case (WaitEnd p)
  then show ?thesis using assms
    by (auto simp: waitForEnd_call_def plan_end_def getSession_def checked_milliseconds_def
        split: decoded.splits sum.splits option.splits if_splits dest: run_plan_error)
next
  case (OpenConnection p)
  then show ?thesis using assms
    by (auto simp: openConnection_def Let_def split: decoded.splits sum.splits option.splits if_splits prod.splits)
next
  case (OpenSession p)
  then show ?thesis using assms
    by (auto simp: openSession_def Let_def split: decoded.splits sum.splits option.splits if_splits prod.splits)
next
  case (CloseConnection p)
  then show ?thesis using assms
    by (auto simp: closeConnection_def split: decoded.splits option.splits prod.splits)
next
  case (CloseSession p)
  then show ?thesis using assms
    by (auto simp: closeSession_def split: decoded.splits option.splits prod.splits)
qed (use assms in \<open>auto simp: screen_call_def state_call_def on_session_def getSession_def subscribe_call_def
    subscribeEvents_call_def unsubscribe_call_def split: decoded.splits sum.splits option.splits prod.splits if_splits\<close>)

text \<open>
  C20: Serving a request writes exactly one response to its identifier when it has one, none when it is a
  notification, and never anything after the output has failed; only an invalid request is answered
  without running its method, and a shutdown is signalled only by the method that asks for it.
\<close>

theorem one_response_each:
  assumes "serve C quote env now q (w, st) = Some (stop, w', st')"
  shows "(if rq_id q = [] \<or> rw_failure w then w' = w
      else rw_failure w' \<and> rw_written w' = rw_written w \<or>
           \<not> rw_failure w' \<and> (\<exists>r. rw_written w' = rw_written w @ [Response (rq_id q) r] \<and>
             (r = Inl InvalidRequest \<longleftrightarrow> \<not> rq_valid q))) \<and>
     (rq_valid q \<or> st' = st) \<and> (stop \<longrightarrow> rq_method q = Shutdown \<and> rq_valid q)"
proof (cases "rq_valid q")
  case False
  then show ?thesis using assms
    by (auto simp: serve_def rpc_write_def split: list.splits bool.splits if_splits)
next
  case True
  obtain result st1 where c: "call C quote env now (rq_method q) st = Some (result, st1)"
    using assms True by (cases "call C quote env now (rq_method q) st") (auto simp: serve_def)
  have "result \<noteq> Inl InvalidRequest" using call_error c by blast
  then show ?thesis using assms True c
    by (auto simp: serve_def rpc_write_def Let_def split: list.splits bool.splits if_splits sum.splits rpc_result.splits)
qed

lemma rpc_write_appends: "\<exists>vs. rw_written (snd (rpc_write v w)) = rw_written w @ vs"
  by (auto simp: rpc_write_def split: list.splits bool.splits)

lemma serve_writes:
  assumes "serve C quote env now q (w, st) = Some (stop, w', st')"
  shows "w' = w \<or> (\<exists>r. w' = snd (rpc_write r w))"
proof (cases "rq_valid q")
  case True
  obtain result st1 where c: "call C quote env now (rq_method q) st = Some (result, st1)"
    using assms True by (cases "call C quote env now (rq_method q) st") (auto simp: serve_def)
  obtain ok w1 where r: "rpc_write (Response (rq_id q) result) w = (ok, w1)" by fastforce
  then have w1: "w1 = snd (rpc_write (Response (rq_id q) result) w)" by simp
  have "w' = (if rq_id q \<noteq> [] then w1 else w)"
    using assms True c r by (simp add: serve_def split: if_splits)
  then show ?thesis using w1 by auto
next
  case False
  then show ?thesis using assms by (cases "rq_id q = []") (auto simp: serve_def)
qed

lemma serve_appends: "serve C quote env now q (w, st) = Some (stop, w', st') \<Longrightarrow> \<exists>vs. rw_written w' = rw_written w @ vs"
  using serve_writes [of C quote env now q w st stop w' st'] rpc_write_appends [of _ w] by auto

text \<open>
  When the driver's main loop returns, for whatever reason, the driver is closed
  and everything that had been written is still there.
\<close>

theorem run_closes:
  assumes "Run C quote env now close_core es (w, st) = Some (result, w', st')"
  shows "dr_closed (rp_driver st') \<and> (\<exists>vs. rw_written w' = rw_written w @ vs)"
proof -
  have fin: "dr_closed (rp_driver st') \<and> (\<exists>vs. rw_written w' = rw_written w @ vs)"
    if "finish_run close_core m (w, st) = (result, w', st')" for m w st
    using that rpc_write_appends [of "Response ''null'' (Inl ParseError)" w]
    by (auto simp: finish_run_def close_rpc_def close_driver_def Let_def split: prod.splits if_splits option.splits)
  show ?thesis using assms
  proof (induction es arbitrary: w st)
    case (Cons e es)
    show ?case
    proof (cases e)
      case (InputEnded m)
      then show ?thesis using Cons.prems fin by simp
    next
      case (Incoming q)
      then obtain stop w1 st1 where s: "serve C quote env now q (w, st) = Some (stop, w1, st1)"
        using Cons.prems by (auto split: option.splits)
      then obtain vs where "rw_written w1 = rw_written w @ vs" using serve_appends by blast
      moreover have "dr_closed (rp_driver st') \<and> (\<exists>vs. rw_written w' = rw_written w1 @ vs)"
        using Cons.prems Incoming s fin Cons.IH by (auto split: if_splits)
      ultimately show ?thesis by auto
    qed
  qed simp
qed

definition ping_request :: rpc_request where
  "ping_request = \<lparr>rq_valid = True, rq_id = ''1'', rq_method = Ping\<rparr>"

definition fresh_writer :: rpcWriter where
  "fresh_writer = \<lparr>rw_written = [], rw_failure = False, rw_answers = []\<rparr>"

definition no_rounds :: wait_env where
  "no_rounds = \<lparr>en_plain = [], en_stable = [], en_end = None, en_show = (\<lambda>_. [])\<rparr>"

theorem one_response_each_witness:
  "\<exists>w'. serve stack_core id no_rounds 0 ping_request (fresh_writer, stack_rpc) = Some (False, w', stack_rpc) \<and>
     (\<exists>r. rw_written w' = [Response ''1'' r])"
proof -
  have s: "serve stack_core id no_rounds 0 ping_request (fresh_writer, stack_rpc) =
      Some (False, fresh_writer\<lparr>rw_written := [Response ''1'' (Inr Pong)]\<rparr>, stack_rpc)"
    by (simp add: serve_def ping_request_def rpc_write_def fresh_writer_def Let_def)
  show ?thesis using one_response_each [OF s] s by (simp add: fresh_writer_def ping_request_def)
qed

theorem run_closes_witness:
  "\<exists>w' st'. Run stack_core id no_rounds 0 (\<lambda>ss w. (None, ss, w)) [Incoming ping_request, InputEnded False]
     (fresh_writer, stack_rpc) = Some (RunDone, w', st') \<and> dr_closed (rp_driver st')"
proof -
  have s: "serve stack_core id no_rounds 0 ping_request (fresh_writer, stack_rpc) =
      Some (False, fresh_writer\<lparr>rw_written := [Response ''1'' (Inr Pong)]\<rparr>, stack_rpc)"
    by (simp add: serve_def ping_request_def rpc_write_def fresh_writer_def Let_def)
  then obtain w' st' where r: "Run stack_core id no_rounds 0 (\<lambda>ss w. (None, ss, w)) [Incoming ping_request, InputEnded False]
      (fresh_writer, stack_rpc) = Some (RunDone, w', st')"
    by (simp add: finish_run_def close_rpc_def close_driver_def fresh_writer_def stack_rpc_def run_open_def new_driver_def)
  then show ?thesis using run_closes by blast
qed

subsection \<open>Event subscriptions\<close>

text \<open>What the subscription owes its client when it has seen the first \<open>k\<close> events.\<close>

definition due :: "('t, 'c) event_subscription \<Rightarrow> nat \<Rightarrow> terminal_event list" where
  "due u k = drop (es_read u - 64) (numbered 0 (take k (es_published u)))"

lemma due_mono:
  assumes "k \<le> k'"
  shows "\<exists>rest. due u k @ rest = due u k'"
proof -
  have "take k' (es_published u) = take k (es_published u) @ take (k' - k) (drop k (es_published u))"
    using assms by (metis le_add_diff_inverse take_add)
  then show ?thesis by (simp add: due_def numbered_append)
qed

lemma due_published:
  "k \<le> length (es_published u) \<Longrightarrow> es_published v = es_published u @ es \<Longrightarrow> es_read v = es_read u \<Longrightarrow> due v k = due u k"
  by (simp add: due_def)

definition last_sequence :: "terminal_event list \<Rightarrow> nat" where
  "last_sequence es = (if es = [] then 0 else ev_sequence (last es))"

lemma due_last:
  assumes "es_read u \<le> length (es_published u)"
  shows "last_sequence (due u (es_read u)) = es_read u"
proof (cases "es_read u = 0")
  case False
  let ?xs = "take (es_read u) (es_published u)"
  have "?xs \<noteq> []" "length ?xs = es_read u" using False assms by auto
  then have "due u (es_read u) \<noteq> []" "last (due u (es_read u)) = last (numbered 0 ?xs)"
    using False by (auto simp: due_def intro!: last_drop)
  then show ?thesis
    using last_numbered [OF \<open>?xs \<noteq> []\<close>, of 0] \<open>length ?xs = es_read u\<close> by (simp add: last_sequence_def)
qed (simp add: due_def last_sequence_def)

lemma numbered_take_Suc:
  "m < length xs \<Longrightarrow> numbered 0 (take (Suc m) xs) = numbered 0 (take m xs) @ [(xs ! m)\<lparr>ev_sequence := Suc m\<rparr>]"
  by (simp add: take_Suc_conv_app_nth numbered_append)

lemma due_Suc:
  assumes "m < length (es_published u)" "es_read u \<le> m"
  shows "due u (Suc m) = due u m @ [(es_published u ! m)\<lparr>ev_sequence := Suc m\<rparr>]"
  using assms by (simp add: due_def numbered_take_Suc)

lemma receive_some:
  assumes "receive j s = (Some e, s')"
  shows "\<exists>es b. ss_subscribers s j = Some (e # es, b) \<and> s' = s\<lparr>ss_subscribers := (ss_subscribers s)(j \<mapsto> (es, b))\<rparr>"
  using assms by (auto simp: receive_def split: option.splits prod.splits list.splits)

lemma drop_numbered_Cons:
  assumes "drop m (numbered 0 xs) = e # es"
  shows "m < length xs" "e = (xs ! m)\<lparr>ev_sequence := Suc m\<rparr>" "es = drop (Suc m) (numbered 0 xs)"
proof -
  show m: "m < length xs" using assms by (metis drop_all length_numbered list.distinct(1) not_less)
  have "drop m (numbered 0 xs) = numbered m (xs ! m # drop (Suc m) xs)"
    using m by (simp add: drop_numbered Cons_nth_drop_Suc)
  then show "e = (xs ! m)\<lparr>ev_sequence := Suc m\<rparr>" "es = drop (Suc m) (numbered 0 xs)"
    using assms by (simp_all add: drop_numbered)
qed

text \<open>
  The channel holds the events from \<open>m\<close> on up to the point where it was closed; what was sent and what
  is still to be sent, phase by phase.
\<close>

definition phase_ok :: "('t, 'c) event_subscription \<Rightarrow> nat \<Rightarrow> bool" where
  "phase_ok u m \<longleftrightarrow>
     (case es_phase u of
        Registering \<Rightarrow> es_channel u = None \<and> es_sent u = [] \<and> es_read u = 0 \<and> es_last u = 0
      | Reading \<Rightarrow> es_sent u = [] \<and> es_read u = 0 \<and> es_last u = 0
      | Awaiting r \<Rightarrow> es_sent u = [] \<and> r = due u (es_read u) \<and> m \<le> es_read u \<and> es_last u = 0
      | Replaying r \<Rightarrow> es_sent u @ r = due u (es_read u) \<and> m \<le> es_read u \<and> es_last u = last_sequence (es_sent u)
      | Relaying \<Rightarrow> es_sent u = due u (max (es_read u) m) \<and> es_last u = es_read u
      | Concluded True \<Rightarrow> \<not> snd (channel_of u) \<and> es_sent u = due u (max (es_read u) (es_cut u))
      | Concluded False \<Rightarrow> \<exists>rest. es_sent u @ rest = due u (max (es_read u) (es_cut u)))"

definition channel_ok :: "('t, 'c) event_subscription \<Rightarrow> nat \<Rightarrow> bool" where
  "channel_ok u m \<longleftrightarrow>
     m \<le> es_cut u \<and> es_cut u \<le> length (es_published u) \<and>
     fst (channel_of u) = drop m (numbered 0 (take (es_cut u) (es_published u))) \<and>
     (snd (channel_of u) \<longrightarrow> es_cut u = length (es_published u))"

definition events_ok :: "('t, 'c) event_subscription \<Rightarrow> bool" where
  "events_ok u \<longleftrightarrow>
     ss_history (es_session u) = last_n 256 (numbered 0 (es_published u)) \<and>
     ss_event_sequence (es_session u) = length (es_published u) \<and> es_read u \<le> length (es_published u)"

definition subscription_ok :: "('t, 'c) event_subscription \<Rightarrow> bool" where
  "subscription_ok u \<longleftrightarrow> events_ok u \<and> (\<exists>m. channel_ok u m \<and> phase_ok u m)"

lemma channel_of_fields [simp]:
  "channel_of (u\<lparr>es_cut := n\<rparr>) = channel_of u" "channel_of (u\<lparr>es_phase := p\<rparr>) = channel_of u"
  "channel_of (u\<lparr>es_sent := es\<rparr>) = channel_of u" "channel_of (u\<lparr>es_last := n\<rparr>) = channel_of u"
  "channel_of (u\<lparr>es_read := n\<rparr>) = channel_of u"
  by (simp_all add: channel_of_def split: option.split)

lemma due_fields [simp]:
  "due (u\<lparr>es_cut := n\<rparr>) k = due u k" "due (u\<lparr>es_phase := p\<rparr>) k = due u k" "due (u\<lparr>es_sent := es\<rparr>) k = due u k"
  "due (u\<lparr>es_last := n\<rparr>) k = due u k" "due (u\<lparr>es_session := x\<rparr>) k = due u k"
  by (simp_all add: due_def)

text \<open>A publication extends the open channel, closes the full one and leaves the closed one.\<close>

lemma publish_channel:
  assumes "events_ok u" "channel_ok u m"
  shows "channel_ok (publish_to e u) m" "es_cut u \<le> es_cut (publish_to e u)"
    "\<not> snd (channel_of u) \<Longrightarrow> \<not> snd (channel_of (publish_to e u)) \<and> es_cut (publish_to e u) = es_cut u"
    "snd (channel_of u) \<Longrightarrow> length (fst (channel_of u)) < 64 \<Longrightarrow> snd (channel_of (publish_to e u))"
proof -
  let ?u = "u\<lparr>es_session := publishEvent e (es_session u), es_published := es_published u @ [e]\<rparr>"
  let ?e = "e\<lparr>ev_sequence := Suc (length (es_published u))\<rparr>"
  have seq: "ss_event_sequence (es_session u) = length (es_published u)" using assms(1) by (simp add: events_ok_def)
  have "channel_of ?u = channel_of u \<and> \<not> snd (channel_of u) \<or> channel_of ?u = offer ?e (channel_of u)"
    by (auto simp: channel_of_def publishEvent_def Let_def seq split: option.splits)
  then consider (closed) "\<not> snd (channel_of u)" "channel_of ?u = channel_of u"
    | (full) "snd (channel_of u)" "64 \<le> length (fst (channel_of u))" "channel_of ?u = (fst (channel_of u), False)"
    | (room) "snd (channel_of u)" "length (fst (channel_of u)) < 64" "channel_of ?u = (fst (channel_of u) @ [?e], True)"
    unfolding offer_def subscriberBuffer_def by (auto simp: not_less split: if_splits)
  then have *: "channel_ok (publish_to e u) m \<and> es_cut u \<le> es_cut (publish_to e u) \<and>
      (\<not> snd (channel_of u) \<longrightarrow> \<not> snd (channel_of (publish_to e u)) \<and> es_cut (publish_to e u) = es_cut u) \<and>
      (snd (channel_of u) \<and> length (fst (channel_of u)) < 64 \<longrightarrow> snd (channel_of (publish_to e u)))"
  proof cases
    case closed
    then have "publish_to e u = ?u" by (simp add: publish_to_def Let_def)
    then show ?thesis using closed assms(2) by (simp add: channel_ok_def)
  next
    case full
    then have "publish_to e u = ?u" by (simp add: publish_to_def Let_def)
    then show ?thesis using full assms(2) by (simp add: channel_ok_def)
  next
    case room
    then have p: "publish_to e u = ?u\<lparr>es_cut := Suc (length (es_published u))\<rparr>" by (simp add: publish_to_def Let_def)
    have c: "channel_of (publish_to e u) = channel_of ?u" unfolding p by (simp only: channel_of_fields)
    have "es_cut u = length (es_published u)" "m \<le> length (es_published u)"
      "fst (channel_of u) = drop m (numbered 0 (es_published u))"
      using room(1) assms(2) by (simp_all add: channel_ok_def)
    then show ?thesis using c room unfolding channel_ok_def p by (simp add: numbered_append)
  qed
  then show "channel_ok (publish_to e u) m" "es_cut u \<le> es_cut (publish_to e u)"
    "\<not> snd (channel_of u) \<Longrightarrow> \<not> snd (channel_of (publish_to e u)) \<and> es_cut (publish_to e u) = es_cut u"
    "snd (channel_of u) \<Longrightarrow> length (fst (channel_of u)) < 64 \<Longrightarrow> snd (channel_of (publish_to e u))" by blast+
qed

lemma publish_fields [simp]:
  "es_published (publish_to e u) = es_published u @ [e]" "es_read (publish_to e u) = es_read u"
  "es_phase (publish_to e u) = es_phase u" "es_sent (publish_to e u) = es_sent u"
  "es_last (publish_to e u) = es_last u" "es_channel (publish_to e u) = es_channel u"
  "es_session (publish_to e u) = publishEvent e (es_session u)"
  by (simp_all add: publish_to_def Let_def)

lemma publish_ok:
  assumes "subscription_ok u"
  shows "subscription_ok (publish_to e u)"
proof -
  obtain m where u: "events_ok u" "channel_ok u m" "phase_ok u m" using assms by (auto simp: subscription_ok_def)
  have "history_ok (es_session u)" using u(1) by (simp add: events_ok_def history_ok_def retainedEvents_def)
  then have "events_ok (publish_to e u)"
    using u(1) by (simp add: events_ok_def publish_history published_def publish_sequence retainedEvents_def
        last_n_append numbered_append)
  moreover note c = publish_channel [OF u(1,2), of e]
  have d: "due (publish_to e u) k = due u k" if "k \<le> length (es_published u)" for k
    using that by (rule due_published) simp_all
  have le: "es_read u \<le> length (es_published u)" "es_cut u \<le> length (es_published u)" "m \<le> es_cut u"
    using u(1,2) by (simp_all add: events_ok_def channel_ok_def)
  have more: "\<exists>rest'. due u (max (es_read u) (es_cut u)) @ rest' =
      due (publish_to e u) (max (es_read u) (es_cut (publish_to e u)))"
    using due_mono [of "max (es_read u) (es_cut u)" "max (es_read u) (es_cut (publish_to e u))" "publish_to e u"]
      c(2) d [of "max (es_read u) (es_cut u)"] le by simp
  have "phase_ok (publish_to e u) m"
  proof (cases "es_phase u = Concluded False")
    case True
    then obtain rest where "es_sent u @ rest = due u (max (es_read u) (es_cut u))" using u(3) by (auto simp: phase_ok_def)
    then show ?thesis using True more by (auto simp: phase_ok_def) (metis append_assoc)
  next
    case False
    then show ?thesis using u(3) c(3) d le
      by (auto simp: phase_ok_def split: subscription_phase.splits bool.splits)
  qed
  ultimately show ?thesis using c(1) by (auto simp: subscription_ok_def)
qed

text \<open>A session change that keeps the events and at most closes the channel.\<close>

lemma session_change_ok:
  assumes "subscription_ok u" "ss_history s = ss_history (es_session u)" "ss_event_sequence s = ss_event_sequence (es_session u)"
    and "fst (channel_of (u\<lparr>es_session := s\<rparr>)) = fst (channel_of u)"
    and "snd (channel_of (u\<lparr>es_session := s\<rparr>)) \<longrightarrow> snd (channel_of u)"
  shows "subscription_ok (u\<lparr>es_session := s\<rparr>)"
proof -
  obtain m where u: "events_ok u" "channel_ok u m" "phase_ok u m" using assms(1) by (auto simp: subscription_ok_def)
  have "events_ok (u\<lparr>es_session := s\<rparr>)" using u(1) assms(2,3) by (simp add: events_ok_def)
  moreover have "channel_ok (u\<lparr>es_session := s\<rparr>) m" using u(2) assms(4,5) by (auto simp: channel_ok_def)
  moreover have "phase_ok (u\<lparr>es_session := s\<rparr>) m"
    using u(3) assms(5) by (auto simp: phase_ok_def split: subscription_phase.splits bool.splits)
  ultimately show ?thesis by (auto simp: subscription_ok_def)
qed

lemma received_ok:
  assumes "events_ok u" "channel_ok u m" "es_phase u = Relaying" "phase_ok u m" "es_channel u = Some j"
    and "receive j (es_session u) = (Some e, s)"
  shows "events_ok (u\<lparr>es_session := s\<rparr>) \<and> channel_ok (u\<lparr>es_session := s\<rparr>) (Suc m) \<and>
     es_sent u @ (if ev_sequence e > es_last u then [e] else []) = due u (max (es_read u) (Suc m)) \<and>
     max (es_read u) (Suc m) \<le> max (es_read u) (es_cut u)"
proof -
  obtain es b where s: "ss_subscribers (es_session u) j = Some (e # es, b)"
      "s = (es_session u)\<lparr>ss_subscribers := (ss_subscribers (es_session u))(j \<mapsto> (es, b))\<rparr>"
    using receive_some [OF assms(6)] by blast
  have ch: "channel_of u = (e # es, b)" "channel_of (u\<lparr>es_session := s\<rparr>) = (es, b)"
    using s assms(5) by (simp_all add: channel_of_def)
  let ?xs = "take (es_cut u) (es_published u)"
  have "drop m (numbered 0 ?xs) = e # es" using assms(2) ch by (simp add: channel_ok_def)
  from drop_numbered_Cons [OF this] have e: "m < length ?xs" "e = (?xs ! m)\<lparr>ev_sequence := Suc m\<rparr>"
    "es = drop (Suc m) (numbered 0 ?xs)" by simp_all
  have m: "m < es_cut u" "m < length (es_published u)" "?xs ! m = es_published u ! m" using e(1) by simp_all
  have "events_ok (u\<lparr>es_session := s\<rparr>)" using assms(1) s(2) by (simp add: events_ok_def)
  moreover have "channel_ok (u\<lparr>es_session := s\<rparr>) (Suc m)" using assms(2) ch e m by (simp add: channel_ok_def)
  moreover have "es_sent u @ (if ev_sequence e > es_last u then [e] else []) = due u (max (es_read u) (Suc m))"
  proof (cases "es_read u \<le> m")
    case True
    then show ?thesis using assms(3,4) e(2) m due_Suc [OF m(2) True] by (simp add: phase_ok_def max_def)
  next
    case False
    then have "max (es_read u) m = es_read u" "max (es_read u) (Suc m) = es_read u" by simp_all
    then show ?thesis using False assms(3,4) e(2) by (simp add: phase_ok_def)
  qed
  ultimately show ?thesis using m by simp
qed

lemma read_ok:
  assumes "subscription_ok u" "es_phase u = Reading"
  shows "subscription_ok (u\<lparr>es_read := length (es_published u),
           es_phase := Awaiting (replay_of (EventsAfter 0 (es_session u)))\<rparr>)"
proof -
  obtain m where u: "events_ok u" "channel_ok u m" "phase_ok u m" using assms(1) by (auto simp: subscription_ok_def)
  let ?P = "es_published u"
  have "ev_sequence e > 0" if "e \<in> set (numbered 0 xs)" for e and xs :: "terminal_event list"
    using filter_numbered [of 0 0 xs] that by (simp add: filter_id_conv)
  then have "EventsAfter 0 (es_session u) = last_n 256 (numbered 0 ?P)"
    using u(1) by (auto simp: EventsAfter_def events_ok_def last_n_def intro!: filter_True dest!: in_set_dropD)
  moreover have n: "length ?P - (length ?P - 256 + 64) + (length ?P - 256) = length ?P - 64" by simp
  ultimately have r: "replay_of (EventsAfter 0 (es_session u)) = drop (length ?P - 64) (numbered 0 ?P)"
    by (simp add: replay_of_def replayedEvents_def last_n_def n)
  have "m \<le> length ?P" using u(2) by (simp add: channel_ok_def)
  then show ?thesis
    using u assms(2) r unfolding subscription_ok_def
    by (intro conjI exI [of _ m]) (simp_all add: events_ok_def channel_ok_def phase_ok_def due_def)
qed

lemma register_ok:
  assumes "subscription_ok u" "es_phase u = Registering" "Events (es_session u) = (c, s)"
  shows "subscription_ok (u\<lparr>es_session := s, es_channel := c, es_cut := length (es_published u), es_phase := Reading\<rparr>)"
proof -
  let ?v = "u\<lparr>es_session := s, es_channel := c, es_cut := length (es_published u), es_phase := Reading\<rparr>"
  have u: "events_ok u" "es_sent u = []" "es_read u = 0" "es_last u = 0"
    using assms(1,2) by (auto simp: subscription_ok_def phase_ok_def)
  have e: "ss_history s = ss_history (es_session u)" "ss_event_sequence s = ss_event_sequence (es_session u)"
      "fst (channel_of ?v) = []"
    using assms(3) by (auto simp: Events_def Let_def channel_of_def split: if_splits)
  have "events_ok ?v" using u(1) e by (simp add: events_ok_def)
  moreover have "channel_ok ?v (length (es_published u))" using e(3) by (simp add: channel_ok_def)
  moreover have "phase_ok ?v (length (es_published u))" using u by (simp add: phase_ok_def)
  ultimately show ?thesis unfolding subscription_ok_def by blast
qed

lemma last_sequence_snoc [simp]: "last_sequence (es @ [e]) = ev_sequence e"
  by (simp add: last_sequence_def)

lemma subscription_step:
  assumes "event_step u v" "subscription_ok u"
  shows "subscription_ok v"
  using assms(1)
proof cases
  case (publish e)
  then show ?thesis using publish_ok [OF assms(2)] by simp
next
  case (other s)
  have "channel_of (u\<lparr>es_session := s\<rparr>) = channel_of u"
    using other(2) by (simp add: same_events_def channel_of_def split: option.split)
  then show ?thesis unfolding other(1) using other(2) by (intro session_change_ok assms) (simp_all add: same_events_def)
next
  case (session_ended err)
  show ?thesis unfolding session_ended
    by (rule session_change_ok [OF assms(2)]) (simp_all add: finish_def channel_of_def split: option.split)
next
  case (cancelled j)
  show ?thesis unfolding cancelled(1)
    by (rule session_change_ok [OF assms(2)]) (simp_all add: unsubscribe_def channel_of_def cancelled(2) split: option.split)
next
  case (register c s)
  then show ?thesis using register_ok [OF assms(2)] by simp
next
  case read_history
  then show ?thesis using read_ok [OF assms(2)] by simp
next
  case (known j e s)
  obtain m where u: "events_ok u" "channel_ok u m" "phase_ok u m" using assms(2) by (auto simp: subscription_ok_def)
  have "phase_ok (u\<lparr>es_session := s\<rparr>) (Suc m)"
    using received_ok [OF u(1,2) known(2) u(3) known(3,4)] known(2,5) u(3) by (simp add: phase_ok_def)
  then show ?thesis unfolding known(1) subscription_ok_def
    using received_ok [OF u(1,2) known(2) u(3) known(3,4)] by blast
next
  case (notified j e s)
  obtain m where u: "events_ok u" "channel_ok u m" "phase_ok u m" using assms(2) by (auto simp: subscription_ok_def)
  note r = received_ok [OF u(1,2) notified(2) u(3) notified(3,4)]
  have "phase_ok v (Suc m)" using r notified u(3) by (simp add: phase_ok_def)
  moreover have "events_ok v" "channel_ok v (Suc m)" using r by (simp_all add: notified(1) events_ok_def channel_ok_def)
  ultimately show ?thesis unfolding subscription_ok_def by blast
next
  case (notify_failed j e s)
  obtain m where u: "events_ok u" "channel_ok u m" "phase_ok u m" using assms(2) by (auto simp: subscription_ok_def)
  note r = received_ok [OF u(1,2) notify_failed(2) u(3) notify_failed(3,4)]
  have "\<exists>rest. es_sent u @ rest = due u (max (es_read u) (es_cut u))"
    using r notify_failed(5) due_mono [of "max (es_read u) (Suc m)" "max (es_read u) (es_cut u)" u]
    by auto (metis append_assoc)
  then have "phase_ok v (Suc m)" by (simp add: phase_ok_def notify_failed(1))
  moreover have "events_ok v" "channel_ok v (Suc m)" using r by (simp_all add: notify_failed(1) events_ok_def channel_ok_def)
  ultimately show ?thesis unfolding subscription_ok_def by blast
next
  case drained
  obtain m where u: "events_ok u" "channel_ok u m" "phase_ok u m" using assms(2) by (auto simp: subscription_ok_def)
  have "m = es_cut u" using u(2) drained(3) by (auto simp: channel_ok_def)
  then show ?thesis using u drained unfolding subscription_ok_def
    by (intro conjI exI [of _ m]) (simp_all add: events_ok_def channel_ok_def phase_ok_def)
next
  case (never_started r)
  obtain m where u: "events_ok u" "channel_ok u m" "phase_ok u m" using assms(2) by (auto simp: subscription_ok_def)
  then show ?thesis using never_started unfolding subscription_ok_def
    by (intro conjI exI [of _ m]) (simp_all add: events_ok_def channel_ok_def phase_ok_def)
next
  case (replay_failed e r)
  obtain m where u: "events_ok u" "channel_ok u m" "phase_ok u m" using assms(2) by (auto simp: subscription_ok_def)
  have "\<exists>rest. es_sent u @ rest = due u (max (es_read u) (es_cut u))"
    using u(3) replay_failed(2) due_mono [of "es_read u" "max (es_read u) (es_cut u)" u]
    by (auto simp: phase_ok_def) (metis append_assoc append_Cons)
  then show ?thesis using u replay_failed unfolding subscription_ok_def
    by (intro conjI exI [of _ m]) (simp_all add: events_ok_def channel_ok_def phase_ok_def)
next
  case replay_done
  obtain m where u: "events_ok u" "channel_ok u m" "phase_ok u m" using assms(2) by (auto simp: subscription_ok_def)
  then show ?thesis using replay_done due_last [of u] unfolding subscription_ok_def
    by (intro conjI exI [of _ m]) (simp_all add: events_ok_def channel_ok_def phase_ok_def)
next
  case (started r)
  obtain m where u: "events_ok u" "channel_ok u m" "phase_ok u m" using assms(2) by (auto simp: subscription_ok_def)
  then show ?thesis using started unfolding subscription_ok_def
    by (intro conjI exI [of _ m]) (simp_all add: events_ok_def channel_ok_def phase_ok_def last_sequence_def)
next
  case (replayed e r)
  obtain m where u: "events_ok u" "channel_ok u m" "phase_ok u m" using assms(2) by (auto simp: subscription_ok_def)
  then show ?thesis using replayed unfolding subscription_ok_def
    by (intro conjI exI [of _ m]) (simp_all add: events_ok_def channel_ok_def phase_ok_def)
qed

lemma runs_subscription: "event_runs u \<Longrightarrow> subscription_ok u"
proof (induction rule: event_runs.induct)
  case (opened T i now t c)
  show ?case unfolding subscription_ok_def
    by (intro conjI exI [of _ 0])
      (simp_all add: events_ok_def channel_ok_def phase_ok_def new_subscription_def channel_of_def newSession_def Let_def last_n_def)
qed (rule subscription_step)

text \<open>
  C21: In any interleaving of a subscription with its session: once the history was read, what has been
  sent is at every moment the beginning of the sequence of the last 64 events retained by then and every later
  one, each once, in order and without a gap in their numbers, up to the point where the channel was
  closed. As long as the channel is open that point is the present; when the channel is drained, and when
  the goroutine has ended on a drained channel, all of it was sent. Publishing closes the channel only if
  64 events wait in it, so a client that keeps up gets every event.
\<close>

theorem subscription_gapless:
  assumes "event_runs u"
  defines "owed \<equiv> drop (es_read u - 64)
     (numbered 0 (take (max (es_read u) (es_cut u)) (es_published u)))"
  shows "(\<exists>rest. es_sent u @ rest = owed) \<and>
     (es_phase u = Relaying \<and> fst (channel_of u) = [] \<longrightarrow> es_sent u = owed) \<and>
     (es_phase u = Concluded True \<longrightarrow> es_sent u = owed) \<and>
     (snd (channel_of u) \<longrightarrow> es_cut u = length (es_published u)) \<and>
     (snd (channel_of u) \<and> length (fst (channel_of u)) < 64 \<longrightarrow> snd (channel_of (publish_to e u)))"
proof -
  obtain m where u: "events_ok u" "channel_ok u m" "phase_ok u m"
    using runs_subscription [OF assms(1)] by (auto simp: subscription_ok_def)
  have o: "owed = due u (max (es_read u) (es_cut u))" by (simp add: owed_def due_def)
  have "\<exists>rest. es_sent u @ rest = owed"
  proof (cases "es_phase u")
    case Relaying
    have "m \<le> es_cut u" using u(2) by (simp add: channel_ok_def)
    then show ?thesis
      using u(3) Relaying due_mono [of "max (es_read u) m" "max (es_read u) (es_cut u)" u] by (simp add: o phase_ok_def)
  next
    case (Replaying r)
    then show ?thesis
      using u(3) due_mono [of "es_read u" "max (es_read u) (es_cut u)" u] by (auto simp: o phase_ok_def) (metis append_assoc)
  next
    case (Concluded b)
    then show ?thesis using u(3) by (cases b) (simp_all add: o phase_ok_def)
  qed (use u(3) in \<open>simp_all add: phase_ok_def\<close>)
  moreover have "es_cut u = m" if "fst (channel_of u) = []" using u(2) that by (auto simp: channel_ok_def)
  then have "es_sent u = owed" if "es_phase u = Relaying \<and> fst (channel_of u) = []"
    using u(3) that by (simp add: o phase_ok_def)
  moreover have "es_sent u = owed" if "es_phase u = Concluded True" using u(3) that by (simp add: o phase_ok_def)
  moreover have "snd (channel_of u) \<longrightarrow> es_cut u = length (es_published u)" using u(2) by (simp add: channel_ok_def)
  ultimately show ?thesis using publish_channel(4) [OF u(1,2), of e] by blast
qed

definition bell :: terminal_event where
  "bell = \<lparr>ev_sequence = 0, ev_type = EventBell, ev_data = []\<rparr>"

text \<open>A bell before the subscription, one after it: both are sent.\<close>

theorem subscription_gapless_witness:
  "\<exists>u :: (unit parser \<times> terminal, stream) event_subscription. event_runs u \<and> es_phase u = Relaying \<and>
     es_sent u = [bell\<lparr>ev_sequence := 1\<rparr>, bell\<lparr>ev_sequence := 2\<rparr>]"
proof -
  let ?s = "newSession (ansi_ops (\<lambda>_. 1) id plain_lib plain_parser) 7 0
     (\<lparr>ps_parser = (), ps_continuation = 0\<rparr>, t32) (newStream new_conn [] 3 2) :: stack_session"
  define u1 where "u1 = publish_to bell (new_subscription ?s)"
  have u1: "event_runs u1"
    unfolding u1_def by (rule event_runs.step [OF event_runs.opened event_step.publish])
  have f1: "es_phase u1 = Registering" "es_published u1 = [bell]" "\<not> ss_done (es_session u1)"
      "ss_history (es_session u1) = [bell\<lparr>ev_sequence := 1\<rparr>]" "es_sent u1 = []"
    by (simp_all add: u1_def new_subscription_def publishEvent_def newSession_def Let_def retainedEvents_def)
  obtain j s where e: "Events (es_session u1) = (Some j, s)" "ss_subscribers s j = Some ([], True)"
      "ss_history s = ss_history (es_session u1)"
    using f1(3) by (simp add: Events_def Let_def)
  define u2 where "u2 = u1\<lparr>es_session := s, es_channel := Some j, es_cut := length (es_published u1), es_phase := Reading\<rparr>"
  have u2: "event_runs u2" unfolding u2_def by (rule event_runs.step [OF u1 event_step.register [OF f1(1) e(1)]])
  define u3 where "u3 = u2\<lparr>es_read := 1, es_phase := Awaiting [bell\<lparr>ev_sequence := 1\<rparr>]\<rparr>"
  have "replay_of (EventsAfter 0 (es_session u2)) = [bell\<lparr>ev_sequence := 1\<rparr>]"
    by (simp add: u2_def e(3) f1(4) EventsAfter_def replay_of_def replayedEvents_def)
  then have u3: "event_runs u3"
    unfolding u3_def using event_runs.step [OF u2 event_step.read_history] by (simp add: u2_def f1(2))
  define u4 where "u4 = publish_to bell (u3\<lparr>es_phase := Replaying [bell\<lparr>ev_sequence := 1\<rparr>]\<rparr>)"
  have u4: "event_runs u4" unfolding u4_def
    by (rule event_runs.step [OF event_runs.step [OF u3 event_step.started] event_step.publish]) (simp add: u3_def)
  define u5 where "u5 = u4\<lparr>es_sent := es_sent u4 @ [bell\<lparr>ev_sequence := 1\<rparr>], es_last := 1, es_phase := Replaying []\<rparr>"
  have u5: "event_runs u5"
    unfolding u5_def using event_runs.step [OF u4 event_step.replayed, of "bell\<lparr>ev_sequence := 1\<rparr>" "[]"]
    by (simp add: u4_def)
  have u6: "event_runs (u5\<lparr>es_phase := Relaying\<rparr>)" (is "event_runs ?u6")
    by (rule event_runs.step [OF u5 event_step.replay_done]) (simp add: u5_def)
  have j: "es_channel ?u6 = Some j" by (simp add: u5_def u4_def u3_def u2_def)
  have seq: "ss_event_sequence s = 1"
    using e(1) by (auto simp: Events_def u1_def new_subscription_def publishEvent_def newSession_def Let_def split: if_splits)
  obtain s' where "receive j (es_session ?u6) = (Some (bell\<lparr>ev_sequence := 2\<rparr>), s')"
    using e(2) seq by (simp add: receive_def u5_def u4_def u3_def u2_def publishEvent_def Let_def offer_def subscriberBuffer_def)
  from event_runs.step [OF u6 event_step.notified [OF _ j this]]
  have u7: "event_runs (?u6\<lparr>es_session := s', es_sent := es_sent ?u6 @ [bell\<lparr>ev_sequence := 2\<rparr>]\<rparr>)" (is "event_runs ?u7")
    by (simp add: u5_def)
  have "\<exists>rest. es_sent ?u7 @ rest = drop (es_read ?u7 - 64)
      (numbered 0 (take (max (es_read ?u7) (es_cut ?u7)) (es_published ?u7)))"
    using subscription_gapless [OF u7, of bell] by blast
  moreover have "es_phase ?u7 = Relaying" "es_sent ?u7 = [bell\<lparr>ev_sequence := 1\<rparr>, bell\<lparr>ev_sequence := 2\<rparr>]"
    by (simp_all add: u5_def u4_def u3_def u2_def f1(5))
  ultimately show ?thesis using u7 by blast
qed

subsection \<open>Snapshots\<close>

lemma sorted_ids_spec:
  assumes "bounded_map m n"
  shows "set (sorted_ids m n) = dom m" "sorted_wrt (<) (sorted_ids m n)"
  using assms by (auto simp: sorted_ids_def bounded_map_def less_Suc_eq_le simp del: upt_Suc intro: sorted_wrt_filter)

lemma snapshot_ids:
  assumes "\<And>i. f i = map_option (g i) (m i)" "\<And>i r. h (g i r) = i" "\<forall>i \<in> set xs. m i \<noteq> None"
  shows "map h (List.map_filter f xs) = xs"
  using assms(3)
proof (induction xs)
  case (Cons x xs)
  then show ?case using assms(1,2) by (auto simp: List.map_filter_def)
qed (simp add: List.map_filter_def)

text \<open>
  A snapshot of the driver lists exactly the registered connections and sessions, in ascending order
  of their identifiers, and every session it lists belongs to a connection it lists.
\<close>

theorem driver_snapshot_exact:
  assumes "driver_runs w"
  shows "sorted_wrt (<) (map cs_id (ds_connections (DriverSnapshot T core (wl_driver w)))) \<and>
     set (map cs_id (ds_connections (DriverSnapshot T core (wl_driver w)))) = dom (dr_connections (wl_driver w)) \<and>
     sorted_wrt (<) (map sn_id (ds_sessions (DriverSnapshot T core (wl_driver w)))) \<and>
     set (map sn_id (ds_sessions (DriverSnapshot T core (wl_driver w)))) = dom (dr_sessions (wl_driver w)) \<and>
     sn_connectionID ` set (ds_sessions (DriverSnapshot T core (wl_driver w))) \<subseteq>
       cs_id ` set (ds_connections (DriverSnapshot T core (wl_driver w)))"
proof -
  let ?d = "wl_driver w"
  have reg: "sessions_connected ?d" "bounded_map (dr_connections ?d) (dr_nextConnection ?d)"
      "bounded_map (dr_sessions ?d) (dr_nextSession ?d)"
    using runs_registry [OF assms] by (simp_all add: registry_ok_def ids_bounded_def)
  note cs = sorted_ids_spec [OF reg(2)] and ss = sorted_ids_spec [OF reg(3)]
  have c: "map cs_id (ds_connections (DriverSnapshot T core ?d)) = sorted_ids (dr_connections ?d) (dr_nextConnection ?d)"
    unfolding DriverSnapshot_def driverSnapshot.simps
    by (rule snapshot_ids [where m = "dr_connections ?d"]) (auto simp: connection_snapshot_def cs)
  have s: "map sn_id (ds_sessions (DriverSnapshot T core ?d)) = sorted_ids (dr_sessions ?d) (dr_nextSession ?d)"
    unfolding DriverSnapshot_def driverSnapshot.simps
    by (rule snapshot_ids [where m = "dr_sessions ?d"]) (auto simp: session_snapshot_def Let_def ss)
  have "sn_connectionID n \<in> dom (dr_connections ?d)" if n: "n \<in> set (ds_sessions (DriverSnapshot T core ?d))" for n
  proof -
    obtain i where "session_snapshot T core ?d i = Some n"
      using n by (auto simp: DriverSnapshot_def List.map_filter_def)
    then obtain r where "dr_sessions ?d i = Some r" "sn_connectionID n = sr_connectionID r"
      by (auto simp: session_snapshot_def Let_def)
    then show ?thesis using reg(1) by (auto simp: sessions_connected_def)
  qed
  moreover have "cs_id ` set (ds_connections (DriverSnapshot T core ?d)) = dom (dr_connections ?d)"
    using c cs(1) by (metis set_map)
  ultimately show ?thesis using c s cs ss by auto
qed

theorem driver_snapshot_exact_witness:
  "set (map sn_id (ds_sessions (DriverSnapshot (op_terminals stack_core) (\<lambda>_. stack_session) run_open))) = {1}"
  using driver_snapshot_exact [OF runs_open, of "op_terminals stack_core" "\<lambda>_. stack_session"]
  by (simp add: run_open_def new_driver_def)

end
