(* ===== verification/Workbench.thy ===== *)
theory Workbench
  imports Matchers Keys
begin

text \<open>
  The recorder of terminal workflows (\<open>workbench/recording.go\<close>). It uses a session only through the
  interface \<open>SessionControl\<close>, whose operations are the fields of \<open>control_ops\<close> over a world \<open>'w\<close> and
  handles \<open>'h\<close>; an operation whose value is \<open>None\<close> has not returned. \<open>None\<close> is also the nil
  dereference of a recording without its control.
\<close>

record ('h, 'e, 'w) control_ops =
  co_acquire :: "nat \<Rightarrow> 'w \<Rightarrow> (('e + 'h) \<times> 'w) option"
  co_send :: "'h \<Rightarrow> byte list \<Rightarrow> 'w \<Rightarrow> ('e option \<times> 'w) option"
  co_press :: "'h \<Rightarrow> key \<Rightarrow> key_modifiers list \<Rightarrow> 'w \<Rightarrow> ('e option \<times> 'w) option"
  co_wait :: "'h \<Rightarrow> matcher \<Rightarrow> int \<Rightarrow> 'w \<Rightarrow> ('e option \<times> 'w) option"
  co_screen :: "'h \<Rightarrow> 'w \<Rightarrow> screen"
  co_release :: "'h \<Rightarrow> 'w \<Rightarrow> 'w option"

subsection \<open>Recordings\<close>

record wb_session =
  ws_id :: nat
  ws_terminal :: string
  ws_width :: int
  ws_height :: int

record step =
  sp_action :: string
  sp_text :: string
  sp_parameter :: string
  sp_key :: string
  sp_modifiers :: "string list"
  sp_matcher :: "MatcherSpec option"
  sp_timeout :: int
  sp_stable :: int
  sp_quiet :: int

record recording =
  rc_version :: string
  rc_session :: wb_session
  rc_steps :: "step list"

definition empty_step :: step where
  "empty_step = \<lparr>sp_action = [], sp_text = [], sp_parameter = [], sp_key = [], sp_modifiers = [],
     sp_matcher = None, sp_timeout = 0, sp_stable = 0, sp_quiet = 0\<rparr>"

definition RecordingVersion :: string where "RecordingVersion = ''1''"

datatype 'e workbench_error =
    TextRequired
  | BadParameter
  | SessionRequired
  | ProfileRequired
  | AcquireFailed 'e
  | AlreadyRecording nat
  | NoRecording nat
  | NotRecording nat
  | ControlError 'e
  | TimeoutRequired
  | NotOnScreen string
  | StopFirst nat
  | StepParameterRequired nat string
  | StepFailed nat 'e
  | StepBadModifier nat string
  | StepUnsupported nat string

definition name_char :: "nat \<Rightarrow> bool" where
  "name_char c \<longleftrightarrow> (c \<ge> 97 \<and> c \<le> 122) \<or> (c \<ge> 65 \<and> c \<le> 90) \<or> (c \<ge> 48 \<and> c \<le> 57) \<or> c = 95 \<or> c = 45"

definition validParameter :: "string \<Rightarrow> bool" where
  "validParameter v \<longleftrightarrow> list_all name_char (runes_of v) \<and> v \<noteq> []"

definition TypeStep :: "string \<Rightarrow> string \<Rightarrow> 'e workbench_error + step" where
  "TypeStep t parameter =
     (if t = [] then Inl TextRequired
      else if parameter = [] then Inr (empty_step\<lparr>sp_action := ''type'', sp_text := t\<rparr>)
      else if \<not> validParameter parameter then Inl BadParameter
      else Inr (empty_step\<lparr>sp_action := ''type'', sp_parameter := parameter\<rparr>))"

text \<open>\<open>modifierNames\<close>: the loop keeps the names seen so far.\<close>

definition modifier_name :: "key_modifiers \<Rightarrow> string" where
  "modifier_name m =
     (if m = ModifierShift then ''Shift'' else if m = ModifierAlt then ''Alt''
      else if m = ModifierControl then ''Control'' else ''Unknown('' @ itoa (uint m) @ '')'')"

primrec modifier_names_from :: "key_modifiers list \<Rightarrow> string list \<Rightarrow> string list" where
  "modifier_names_from [] result = result"
| "modifier_names_from (m # ms) result =
     modifier_names_from ms
       (if modifier_name m \<in> set result then result else result @ [modifier_name m])"

definition modifierNames :: "key_modifiers list \<Rightarrow> string list" where
  "modifierNames ms = modifier_names_from ms []"

primrec parseModifiers :: "string list \<Rightarrow> string + key_modifiers list" where
  "parseModifiers [] = Inr []"
| "parseModifiers (n # ns) =
     (if n = ''Shift'' then map_sum id (Cons ModifierShift) (parseModifiers ns)
      else if n = ''Alt'' \<or> n = ''Meta'' then map_sum id (Cons ModifierAlt) (parseModifiers ns)
      else if n = ''Control'' then map_sum id (Cons ModifierControl) (parseModifiers ns)
      else Inl n)"

definition PressStep :: "key \<Rightarrow> key_modifiers list \<Rightarrow> step" where
  "PressStep key ms = empty_step\<lparr>sp_action := ''press'', sp_key := key, sp_modifiers := modifierNames ms\<rparr>"

text \<open>\<open>time.Duration.Milliseconds\<close>, and \<open>time.Duration(ms) * time.Millisecond\<close> in 64 bits.\<close>

definition milliseconds_of :: "int \<Rightarrow> int" where
  "milliseconds_of d = (if d < 0 then - (- d div 1000000) else d div 1000000)"

definition duration_of :: "int \<Rightarrow> int" where
  "duration_of ms = sint (word_of_int ms * word_of_int 1000000 :: 64 word)"

subsection \<open>The manager\<close>

record 'h recordingState =
  rs_active :: bool
  rs_control :: "'h option"
  rs_recording :: recording

type_synonym 'h manager = "nat \<rightharpoonup> 'h recordingState"

type_synonym ('a, 'h, 'e, 'w) managed = "(('e workbench_error + 'a) \<times> 'h manager \<times> 'w) option"

text \<open>\<open>copyRecording\<close> copies the steps and the modifiers of each.\<close>

definition copyRecording :: "recording \<Rightarrow> recording" where
  "copyRecording r = r\<lparr>rc_steps := map (\<lambda>p. p\<lparr>sp_modifiers := sp_modifiers p @ []\<rparr>) (rc_steps r)\<rparr>"

lemma copyRecording_id [simp]: "copyRecording r = r"
  by (simp add: copyRecording_def)

definition Start ::
  "('h, 'e, 'w) control_ops \<Rightarrow> wb_session \<Rightarrow> 'h manager \<Rightarrow> 'w \<Rightarrow> (recording, 'h, 'e, 'w) managed" where
  "Start K session m w =
     (if ws_id session = 0 then Some (Inl SessionRequired, m, w)
      else if ws_terminal session = [] \<or> ws_width session \<le> 0 \<or> ws_height session \<le> 0
      then Some (Inl ProfileRequired, m, w)
      else do { (acquired, w1) \<leftarrow> co_acquire K (ws_id session) w;
                case acquired of
                  Inl e \<Rightarrow> Some (Inl (AcquireFailed e), m, w1)
                | Inr control \<Rightarrow>
                    (let active = (case m (ws_id session) of None \<Rightarrow> False | Some state \<Rightarrow> rs_active state)
                     in if active
                        then do { w2 \<leftarrow> co_release K control w1;
                                  Some (Inl (AlreadyRecording (ws_id session)), m, w2) }
                        else (let recording = \<lparr>rc_version = RecordingVersion, rc_session = session, rc_steps = []\<rparr>
                              in Some (Inr (copyRecording recording),
                                  m(ws_id session \<mapsto> \<lparr>rs_active = True, rs_control = Some control,
                                                       rs_recording = recording\<rparr>), w1))) })"

definition append_step :: "nat \<Rightarrow> step \<Rightarrow> 'h recordingState \<Rightarrow> 'h manager \<Rightarrow> recording \<times> 'h manager" where
  "append_step i p state m =
     (let recording = (rs_recording state)\<lparr>rc_steps := rc_steps (rs_recording state) @ [p]\<rparr>
      in (copyRecording recording, m(i \<mapsto> state\<lparr>rs_recording := recording\<rparr>)))"

definition Type ::
  "('h, 'e, 'w) control_ops \<Rightarrow> nat \<Rightarrow> string \<Rightarrow> string \<Rightarrow> 'h manager \<Rightarrow> 'w \<Rightarrow>
     (recording, 'h, 'e, 'w) managed" where
  "Type K i t parameter m w =
     (case TypeStep t parameter of
        Inl e \<Rightarrow> Some (Inl e, m, w)
      | Inr p \<Rightarrow>
          (case m i of
             None \<Rightarrow> Some (Inl (NoRecording i), m, w)
           | Some state \<Rightarrow>
               if \<not> rs_active state then Some (Inl (NotRecording i), m, w)
               else do { control \<leftarrow> rs_control state;
                         (failure, w1) \<leftarrow> co_send K control (bytes_of t) w;
                         case failure of
                           Some e \<Rightarrow> Some (Inl (ControlError e), m, w1)
                         | None \<Rightarrow> (case append_step i p state m of (r, m1) \<Rightarrow> Some (Inr r, m1, w1)) }))"

definition PressRecorded ::
  "('h, 'e, 'w) control_ops \<Rightarrow> nat \<Rightarrow> key \<Rightarrow> key_modifiers list \<Rightarrow> 'h manager \<Rightarrow> 'w \<Rightarrow>
     (recording, 'h, 'e, 'w) managed" where
  "PressRecorded K i key ms m w =
     (case m i of
        None \<Rightarrow> Some (Inl (NoRecording i), m, w)
      | Some state \<Rightarrow>
          if \<not> rs_active state then Some (Inl (NotRecording i), m, w)
          else do { control \<leftarrow> rs_control state;
                    (failure, w1) \<leftarrow> co_press K control key ms w;
                    case failure of
                      Some e \<Rightarrow> Some (Inl (ControlError e), m, w1)
                    | None \<Rightarrow> (case append_step i (PressStep key ms) state m of (r, m1) \<Rightarrow> Some (Inr r, m1, w1)) })"

definition AssertText ::
  "('h, 'e, 'w) control_ops \<Rightarrow> nat \<Rightarrow> string \<Rightarrow> int \<Rightarrow> 'h manager \<Rightarrow> 'w \<Rightarrow>
     (recording, 'h, 'e, 'w) managed" where
  "AssertText K i t timeout m w =
     (if t = [] then Some (Inl TextRequired, m, w)
      else if milliseconds_of timeout \<le> 0 then Some (Inl TimeoutRequired, m, w)
      else case m i of
          None \<Rightarrow> Some (Inl (NoRecording i), m, w)
        | Some state \<Rightarrow>
            if \<not> rs_active state then Some (Inl (NotRecording i), m, w)
            else do { control \<leftarrow> rs_control state;
                      if \<not> contains (Text (co_screen K control w)) t then Some (Inl (NotOnScreen t), m, w)
                      else (case append_step i (empty_step\<lparr>sp_action := ''waitForText'', sp_text := t,
                                sp_timeout := milliseconds_of timeout\<rparr>) state m of
                              (r, m1) \<Rightarrow> Some (Inr r, m1, w)) })"

definition Stop ::
  "('h, 'e, 'w) control_ops \<Rightarrow> nat \<Rightarrow> 'h manager \<Rightarrow> 'w \<Rightarrow> (recording, 'h, 'e, 'w) managed" where
  "Stop K i m w =
     (case m i of
        None \<Rightarrow> Some (Inl (NoRecording i), m, w)
      | Some state \<Rightarrow>
          if \<not> rs_active state then Some (Inl (NotRecording i), m, w)
          else do { control \<leftarrow> rs_control state;
                    w1 \<leftarrow> co_release K control w;
                    Some (Inr (copyRecording (rs_recording state)),
                      m(i \<mapsto> state\<lparr>rs_active := False, rs_control := None\<rparr>), w1) })"

text \<open>\<open>Close\<close>: the loop over the states in the order \<open>ids\<close> in which the map is ranged.\<close>

primrec close_all ::
  "('h, 'e, 'w) control_ops \<Rightarrow> nat list \<Rightarrow> 'h manager \<Rightarrow> 'w \<Rightarrow> ('h manager \<times> 'w) option" where
  "close_all K [] m w = Some (m, w)"
| "close_all K (i # ids) m w =
     (case m i of
        None \<Rightarrow> close_all K ids m w
      | Some state \<Rightarrow>
          if \<not> rs_active state then close_all K ids m w
          else do { control \<leftarrow> rs_control state;
                    w1 \<leftarrow> co_release K control w;
                    close_all K ids (m(i \<mapsto> state\<lparr>rs_active := False, rs_control := None\<rparr>)) w1 })"

definition current_recording :: "nat \<Rightarrow> 'h manager \<Rightarrow> 'e workbench_error + recording \<times> bool" where
  "current_recording i m =
     (case m i of
        None \<Rightarrow> Inl (NoRecording i)
      | Some state \<Rightarrow> Inr (copyRecording (rs_recording state), rs_active state))"

subsection \<open>Replay\<close>

text \<open>One step; \<open>Inl\<close> is the error \<open>Replay\<close> returns. \<open>index\<close> counts from one.\<close>

definition replay_step ::
  "('h, 'e, 'w) control_ops \<Rightarrow> (string \<Rightarrow> string) \<Rightarrow> (string \<rightharpoonup> string) \<Rightarrow> 'h \<Rightarrow> nat \<Rightarrow> step \<Rightarrow> 'w \<Rightarrow>
     ('e workbench_error option \<times> 'w) option" where
  "replay_step K quote parameters control index p w =
     (if sp_action p = ''waitForText''
      then map_option (map_prod (map_option (StepFailed index)) id)
             (co_wait K control (ScreenContains quote (sp_text p)) (duration_of (sp_timeout p)) w)
      else if sp_action p = ''type''
      then (case (if sp_parameter p \<noteq> [] then parameters (sp_parameter p) else Some (sp_text p)) of
              None \<Rightarrow> Some (Some (StepParameterRequired index (sp_parameter p)), w)
            | Some t \<Rightarrow> map_option (map_prod (map_option (StepFailed index)) id) (co_send K control (bytes_of t) w))
      else if sp_action p = ''press''
      then (case parseModifiers (sp_modifiers p) of
              Inl n \<Rightarrow> Some (Some (StepBadModifier index n), w)
            | Inr ms \<Rightarrow>
                map_option (map_prod (map_option (StepFailed index)) id) (co_press K control (sp_key p) ms w))
      else Some (Some (StepUnsupported index (sp_action p)), w))"

primrec replay_steps ::
  "('h, 'e, 'w) control_ops \<Rightarrow> (string \<Rightarrow> string) \<Rightarrow> (string \<rightharpoonup> string) \<Rightarrow> 'h \<Rightarrow> nat \<Rightarrow> step list \<Rightarrow> 'w \<Rightarrow>
     ('e workbench_error option \<times> 'w) option" where
  "replay_steps K quote parameters control index [] w = Some (None, w)"
| "replay_steps K quote parameters control index (p # ps) w =
     do { (failure, w1) \<leftarrow> replay_step K quote parameters control index p w;
          case failure of
            Some e \<Rightarrow> Some (Some e, w1)
          | None \<Rightarrow> replay_steps K quote parameters control (Suc index) ps w1 }"

definition Replay ::
  "('h, 'e, 'w) control_ops \<Rightarrow> (string \<Rightarrow> string) \<Rightarrow> nat \<Rightarrow> (string \<rightharpoonup> string) \<Rightarrow> 'h manager \<Rightarrow> 'w \<Rightarrow>
     ('e workbench_error option \<times> 'w) option" where
  "Replay K quote i parameters m w =
     (case m i of
        None \<Rightarrow> Some (Some (NoRecording i), w)
      | Some state \<Rightarrow>
          if rs_active state then Some (Some (StopFirst i), w)
          else do { (acquired, w1) \<leftarrow> co_acquire K i w;
                    case acquired of
                      Inl e \<Rightarrow> Some (Some (AcquireFailed e), w1)
                    | Inr control \<Rightarrow>
                        do { (failure, w2) \<leftarrow>
                               replay_steps K quote parameters control 1 (rc_steps (copyRecording (rs_recording state))) w1;
                             w3 \<leftarrow> co_release K control w2;
                             Some (failure, w3) } })"

end
