(* ===== verification/Workbench_Props.thy ===== *)
theory Workbench_Props
  imports Workbench Driver_Requests
begin

text \<open>
  Recording and replaying: what a recording holds, that it never holds a parameter's value, and that
  replaying it gives the session the input it was recorded from. The workbench is proved against its
  interface (locale \<open>session_control\<close>) and then placed on the driver's exclusive controllers.
\<close>

subsection \<open>Commands\<close>

datatype wb_command = TypeCommand string string | PressCommand key "key_modifiers list" | AssertCommand string int

primrec run_command ::
  "('h, 'e, 'w) control_ops \<Rightarrow> nat \<Rightarrow> wb_command \<Rightarrow> 'h manager \<Rightarrow> 'w \<Rightarrow> (recording, 'h, 'e, 'w) managed" where
  "run_command K i (TypeCommand t parameter) m w = Type K i t parameter m w"
| "run_command K i (PressCommand key ms) m w = PressRecorded K i key ms m w"
| "run_command K i (AssertCommand t timeout) m w = AssertText K i t timeout m w"

text \<open>A sequence of commands, with those that succeeded.\<close>

primrec run_commands ::
  "('h, 'e, 'w) control_ops \<Rightarrow> nat \<Rightarrow> wb_command list \<Rightarrow> 'h manager \<Rightarrow> 'w \<Rightarrow>
     (wb_command list \<times> 'h manager \<times> 'w) option" where
  "run_commands K i [] m w = Some ([], m, w)"
| "run_commands K i (c # cs) m w =
     do { (result, m1, w1) \<leftarrow> run_command K i c m w;
          (succeeded, m2, w2) \<leftarrow> run_commands K i cs m1 w1;
          Some (case result of Inl _ \<Rightarrow> succeeded | Inr _ \<Rightarrow> c # succeeded, m2, w2) }"

primrec step_of :: "wb_command \<Rightarrow> step" where
  "step_of (TypeCommand t parameter) =
     (if parameter = [] then empty_step\<lparr>sp_action := ''type'', sp_text := t\<rparr>
      else empty_step\<lparr>sp_action := ''type'', sp_parameter := parameter\<rparr>)"
| "step_of (PressCommand key ms) = PressStep key ms"
| "step_of (AssertCommand t timeout) =
     empty_step\<lparr>sp_action := ''waitForText'', sp_text := t, sp_timeout := milliseconds_of timeout\<rparr>"

definition recording_at :: "nat \<Rightarrow> 'h manager \<Rightarrow> 'h \<Rightarrow> recording \<Rightarrow> bool" where
  "recording_at i m h r \<longleftrightarrow> m i = Some \<lparr>rs_active = True, rs_control = Some h, rs_recording = r\<rparr>"

definition add_steps :: "step list \<Rightarrow> recording \<Rightarrow> recording" where
  "add_steps ps r = r\<lparr>rc_steps := rc_steps r @ ps\<rparr>"

lemma add_steps_simps [simp]:
  "add_steps [] r = r" "add_steps qs (add_steps ps r) = add_steps (ps @ qs) r" "rc_steps (add_steps ps r) = rc_steps r @ ps"
  "rc_session (add_steps ps r) = rc_session r" "rc_version (add_steps ps r) = rc_version r"
  by (simp_all add: add_steps_def)

lemma append_step_at:
  "recording_at i m h r \<Longrightarrow> append_step i p \<lparr>rs_active = True, rs_control = Some h, rs_recording = r\<rparr> m =
     (add_steps [p] r, m(i \<mapsto> \<lparr>rs_active = True, rs_control = Some h, rs_recording = add_steps [p] r\<rparr>))"
  by (simp add: append_step_def add_steps_def Let_def)

text \<open>
  A command on a recording session returns; when it succeeds its step is appended, and when it fails the
  recording stays as it is.
\<close>

lemma run_command_at:
  assumes at: "recording_at i m h r" and run: "run_command K i c m w = Some (result, m1, w1)"
  shows "recording_at i m1 h (case result of Inl _ \<Rightarrow> r | Inr _ \<Rightarrow> add_steps [step_of c] r)"
proof -
  note mi = at [unfolded recording_at_def]
  show ?thesis
  proof (cases c)
    case (TypeCommand t parameter)
    then show ?thesis using run mi at
      by (auto simp: Type_def TypeStep_def bind_Some_iff append_step_at recording_at_def split: sum.splits if_splits option.splits)
  next
    case (PressCommand key ms)
    then show ?thesis using run mi at
      by (auto simp: PressRecorded_def bind_Some_iff append_step_at recording_at_def split: sum.splits if_splits option.splits)
  next
    case (AssertCommand t timeout)
    then show ?thesis using run mi at
      by (auto simp: AssertText_def bind_Some_iff append_step_at recording_at_def split: sum.splits if_splits option.splits)
  qed
qed

lemma run_commands_at:
  "recording_at i m h r \<Longrightarrow> run_commands K i cs m w = Some (succeeded, m1, w1) \<Longrightarrow>
     recording_at i m1 h (add_steps (map step_of succeeded) r)"
proof (induction cs arbitrary: m w r succeeded)
  case (Cons c cs)
  obtain result m2 w2 rest where c: "run_command K i c m w = Some (result, m2, w2)"
    "run_commands K i cs m2 w2 = Some (rest, m1, w1)"
    "succeeded = (case result of Inl _ \<Rightarrow> rest | Inr _ \<Rightarrow> c # rest)"
    using Cons.prems(2) by (auto simp: bind_Some_iff)
  show ?case using Cons.IH [OF run_command_at [OF Cons.prems(1) c(1)] c(2)] c(3) by (auto split: sum.splits)
qed simp

lemma Start_at:
  assumes "Start K session m w = Some (Inr r0, m0, w0)"
  shows "\<exists>h. recording_at (ws_id session) m0 h r0 \<and> rc_steps r0 = [] \<and> co_acquire K (ws_id session) w = Some (Inr h, w0)"
proof -
  have ok: "ws_id session \<noteq> 0" "\<not> (ws_terminal session = [] \<or> ws_width session \<le> 0 \<or> ws_height session \<le> 0)"
    using assms by (auto simp: Start_def split: if_splits)
  obtain acquired w1 where a: "co_acquire K (ws_id session) w = Some (acquired, w1)"
    using assms ok by (cases "co_acquire K (ws_id session) w") (auto simp: Start_def)
  then show ?thesis using assms ok
    by (cases acquired) (auto simp: Start_def Let_def recording_at_def bind_Some_iff split: if_splits)
qed

lemma Stop_at:
  assumes "recording_at i m h r" "Stop K i m w = Some (result, m1, w1)"
  shows "result = Inr r \<and> co_release K h w = Some w1 \<and>
     m1 = m(i \<mapsto> \<lparr>rs_active = False, rs_control = None, rs_recording = r\<rparr>)"
  using assms by (auto simp: Stop_def recording_at_def bind_Some_iff)

subsection \<open>Modifier names\<close>

definition single_modifiers :: "key_modifiers list \<Rightarrow> bool" where
  "single_modifiers ms \<longleftrightarrow> set ms \<subseteq> {ModifierShift, ModifierAlt, ModifierControl}"

lemma parse_append:
  "parseModifiers xs = Inr a \<Longrightarrow> parseModifiers ys = Inr b \<Longrightarrow> parseModifiers (xs @ ys) = Inr (a @ b)"
proof (induction xs arbitrary: a)
  case (Cons x xs)
  then obtain a' where "parseModifiers xs = Inr a'"
    by (cases "parseModifiers xs") (auto split: if_splits)
  then show ?case using Cons by (auto split: if_splits)
qed simp

lemma modifier_values:
  "ModifierShift \<noteq> ModifierAlt" "ModifierAlt \<noteq> ModifierShift" "ModifierShift \<noteq> ModifierControl"
  "ModifierControl \<noteq> ModifierShift" "ModifierAlt \<noteq> ModifierControl" "ModifierControl \<noteq> ModifierAlt"
  by (simp_all add: ModifierShift_def ModifierAlt_def ModifierControl_def)

lemma parse_name: "m \<in> {ModifierShift, ModifierAlt, ModifierControl} \<Longrightarrow> parseModifiers [modifier_name m] = Inr [m]"
  by (auto simp: modifier_name_def modifier_values)

lemma single_name_inj:
  "m \<in> {ModifierShift, ModifierAlt, ModifierControl} \<Longrightarrow> n \<in> {ModifierShift, ModifierAlt, ModifierControl} \<Longrightarrow>
     modifier_name m = modifier_name n \<longleftrightarrow> m = n"
  by (auto simp: modifier_name_def modifier_values)

primrec distinct_from :: "key_modifiers list \<Rightarrow> key_modifiers list \<Rightarrow> key_modifiers list" where
  "distinct_from [] kept = kept"
| "distinct_from (m # ms) kept = distinct_from ms (if m \<in> set kept then kept else kept @ [m])"

lemma names_from_distinct:
  "single_modifiers ms \<Longrightarrow> single_modifiers kept \<Longrightarrow>
     modifier_names_from ms (map modifier_name kept) = map modifier_name (distinct_from ms kept) \<and>
     single_modifiers (distinct_from ms kept) \<and> set (distinct_from ms kept) = set kept \<union> set ms"
proof (induction ms arbitrary: kept)
  case (Cons m ms)
  have m: "m \<in> {ModifierShift, ModifierAlt, ModifierControl}" and ms: "single_modifiers ms"
    using Cons.prems(1) by (auto simp: single_modifiers_def)
  have "modifier_name m \<in> modifier_name ` set kept \<longleftrightarrow> m \<in> set kept"
    using single_name_inj m Cons.prems(2) by (auto simp: single_modifiers_def)
  moreover have "single_modifiers (kept @ [m])" using m Cons.prems(2) by (auto simp: single_modifiers_def)
  ultimately show ?case using Cons.IH [OF ms Cons.prems(2)] Cons.IH [OF ms, of "kept @ [m]"] by auto
qed simp

lemma parse_names: "single_modifiers ms \<Longrightarrow> parseModifiers (map modifier_name ms) = Inr ms"
proof (induction ms)
  case (Cons m ms)
  have "m \<in> {ModifierShift, ModifierAlt, ModifierControl}" "single_modifiers ms"
    using Cons.prems by (auto simp: single_modifiers_def)
  from parse_append [OF parse_name [OF this(1)] Cons.IH [OF this(2)]] show ?case by simp
qed simp

lemma combine_or:
  "single_modifiers ms \<Longrightarrow> combine_modifiers c ms = Inr (fold (OR) ms c)"
proof (induction ms arbitrary: c)
  case (Cons m ms)
  have "m \<in> {ModifierShift, ModifierAlt, ModifierControl}" "single_modifiers ms"
    using Cons.prems by (auto simp: single_modifiers_def)
  then show ?case using Cons.IH
    by (auto simp: ModifierShift_def ModifierAlt_def ModifierControl_def known_modifiers_def or.commute)
qed simp

lemma fold_or_set:
  fixes c :: key_modifiers
  shows "set ms = set ns \<Longrightarrow> fold (OR) ms c = fold (OR) ns c"
proof -
  have "bit (fold (OR) ms c) k \<longleftrightarrow> (\<exists>m \<in> set ms. bit m k) \<or> bit c k" for ms and c :: key_modifiers and k
    by (induction ms arbitrary: c) (auto simp: bit_or_iff)
  then show "set ms = set ns \<Longrightarrow> fold (OR) ms c = fold (OR) ns c" by (intro bit_eqI) simp
qed

lemma recorded_modifiers:
  assumes "single_modifiers ms"
  shows "\<exists>ns. parseModifiers (modifierNames ms) = Inr ns \<and> NewKeyPress key ns = NewKeyPress key ms"
proof -
  have e: "single_modifiers []" by (simp add: single_modifiers_def)
  let ?ns = "distinct_from ms []"
  have ns: "modifierNames ms = map modifier_name ?ns" "single_modifiers ?ns" "set ?ns = set ms"
    using names_from_distinct [OF assms e] by (simp_all add: modifierNames_def)
  have "NewKeyPress key ?ns = NewKeyPress key ms"
    using fold_or_set [OF ns(3)] by (simp add: NewKeyPress_def combine_or ns(2) assms)
  then show ?thesis using parse_names [OF ns(2)] ns(1) by auto
qed

subsection \<open>Replaying a recording\<close>

text \<open>What a recorded command does when it is replayed.\<close>

definition perform ::
  "('h, 'e, 'w) control_ops \<Rightarrow> (string \<Rightarrow> string) \<Rightarrow> 'h \<Rightarrow> nat \<Rightarrow> wb_command \<Rightarrow> 'w \<Rightarrow>
     ('e workbench_error option \<times> 'w) option" where
  "perform K quote h index c w =
     map_option (map_prod (map_option (StepFailed index)) id)
       (case c of
          TypeCommand t _ \<Rightarrow> co_send K h (bytes_of t) w
        | PressCommand key ms \<Rightarrow> co_press K h key ms w
        | AssertCommand t timeout \<Rightarrow> co_wait K h (ScreenContains quote t) (timeout - timeout mod 1000000) w)"

primrec perform_all ::
  "('h, 'e, 'w) control_ops \<Rightarrow> (string \<Rightarrow> string) \<Rightarrow> 'h \<Rightarrow> nat \<Rightarrow> wb_command list \<Rightarrow> 'w \<Rightarrow>
     ('e workbench_error option \<times> 'w) option" where
  "perform_all K quote h index [] w = Some (None, w)"
| "perform_all K quote h index (c # cs) w =
     do { (failure, w1) \<leftarrow> perform K quote h index c w;
          case failure of Some e \<Rightarrow> Some (Some e, w1) | None \<Rightarrow> perform_all K quote h (Suc index) cs w1 }"

text \<open>
  The parameters give a parameterised command its text back, its modifiers are single ones, and a timeout
  is a 64-bit duration.
\<close>

definition replayable :: "(string \<rightharpoonup> string) \<Rightarrow> wb_command \<Rightarrow> bool" where
  "replayable parameters c \<longleftrightarrow>
     (case c of
        TypeCommand t parameter \<Rightarrow> parameter \<noteq> [] \<longrightarrow> parameters parameter = Some t
      | PressCommand _ ms \<Rightarrow> single_modifiers ms
      | AssertCommand _ timeout \<Rightarrow> 0 \<le> timeout \<and> timeout < 2 ^ 63)"

lemma recorded_duration:
  assumes "0 \<le> timeout" "timeout < 2 ^ 63"
  shows "duration_of (milliseconds_of timeout) = timeout - timeout mod 1000000"
proof -
  have e: "timeout div 1000000 * 1000000 = timeout - timeout mod 1000000" by (simp add: minus_mod_eq_div_mult)
  have "0 \<le> timeout mod 1000000" by simp
  then have "timeout - timeout mod 1000000 < 2 ^ 63" using assms(2) by linarith
  moreover have "0 \<le> timeout div 1000000 * 1000000" using assms(1) by (simp add: pos_imp_zdiv_nonneg_iff)
  ultimately show ?thesis
    using product_64 [of "timeout div 1000000" 1000000] assms(1) by (simp add: duration_of_def milliseconds_of_def e)
qed

text \<open>
  The interface: what a key press does depends on the key and the combined modifiers only.
\<close>

locale session_control =
  fixes K :: "('h, 'e, 'w) control_ops"
  assumes press_combined: "NewKeyPress key ms = NewKeyPress key ns \<Longrightarrow> co_press K h key ms w = co_press K h key ns w"
begin

lemma replay_step_of:
  assumes "replayable parameters c"
  shows "replay_step K quote parameters h index (step_of c) w = perform K quote h index c w"
proof (cases c)
  case (TypeCommand t parameter)
  then show ?thesis using assms by (simp add: replay_step_def perform_def empty_step_def replayable_def)
next
  case (PressCommand key ms)
  then obtain ns where "parseModifiers (modifierNames ms) = Inr ns" "NewKeyPress key ns = NewKeyPress key ms"
    using assms recorded_modifiers [of ms key] by (auto simp: replayable_def)
  then show ?thesis using PressCommand press_combined [of key ns ms]
    by (simp add: replay_step_def perform_def empty_step_def PressStep_def)
next
  case (AssertCommand t timeout)
  then show ?thesis using assms recorded_duration
    by (simp add: replay_step_def perform_def empty_step_def replayable_def)
qed

lemma replay_steps_of:
  "\<forall>c \<in> set cs. replayable parameters c \<Longrightarrow>
     replay_steps K quote parameters h index (map step_of cs) w = perform_all K quote h index cs w"
proof (induction cs arbitrary: index w)
  case (Cons c cs)
  have "replay_step K quote parameters h index (step_of c) w = perform K quote h index c w"
    using Cons.prems replay_step_of by simp
  then show ?case using Cons.IH Cons.prems
    by (simp cong: option.case_cong)
qed simp

lemma replay_of_recording:
  assumes "Start K session m w = Some (Inr r0, m0, w0)" "run_commands K (ws_id session) cs m0 w0 = Some (succeeded, m1, w1)"
    "Stop K (ws_id session) m1 w1 = Some (stopped, m2, w2)" "\<forall>c \<in> set succeeded. replayable parameters c"
  shows "stopped = Inr (add_steps (map step_of succeeded) r0)"
    "Replay K quote (ws_id session) parameters m2 v =
       do { (acquired, v1) \<leftarrow> co_acquire K (ws_id session) v;
            case acquired of
              Inl e \<Rightarrow> Some (Some (AcquireFailed e), v1)
            | Inr h \<Rightarrow> do { (failure, v2) \<leftarrow> perform_all K quote h 1 succeeded v1;
                             v3 \<leftarrow> co_release K h v2; Some (failure, v3) } }"
proof -
  obtain h where h: "recording_at (ws_id session) m0 h r0" "rc_steps r0 = []" using Start_at [OF assms(1)] by blast
  from Stop_at [OF run_commands_at [OF h(1) assms(2)] assms(3)] h(2) replay_steps_of [OF assms(4)]
  show "stopped = Inr (add_steps (map step_of succeeded) r0)"
    "Replay K quote (ws_id session) parameters m2 v =
       do { (acquired, v1) \<leftarrow> co_acquire K (ws_id session) v;
            case acquired of
              Inl e \<Rightarrow> Some (Some (AcquireFailed e), v1)
            | Inr h \<Rightarrow> do { (failure, v2) \<leftarrow> perform_all K quote h 1 succeeded v1;
                             v3 \<leftarrow> co_release K h v2; Some (failure, v3) } }"
    by (simp_all add: Replay_def cong: sum.case_cong)
qed

end

subsection \<open>On the driver's controllers\<close>

text \<open>
  The driver's \<open>SessionControl\<close> (\<open>driver/control.go\<close>) as the workbench's: \<open>rounds\<close> is what a wait
  observes.
\<close>

datatype control_failure = Refused control_error | Unmatched wait_result

definition driver_controls ::
  "('t, 'c, 'w) core_ops \<Rightarrow> (control \<Rightarrow> int \<Rightarrow> ('t, 'c, 'w) rpc \<Rightarrow> (view \<times> wake) list) \<Rightarrow>
     (control, control_failure, ('t, 'c, 'w) rpc) control_ops" where
  "driver_controls C rounds =
     \<lparr>co_acquire = (\<lambda>i st. map_option (\<lambda>r. (map_sum Refused id (fst r), st\<lparr>rp_driver := snd r\<rparr>))
                                (AcquireSessionControl i (rp_driver st))),
      co_send = (\<lambda>c data st. Some (map_prod (map_option Refused) id (control_send C c data st))),
      co_press = (\<lambda>c key ms st. Some (map_prod (map_option Refused) id (control_press C c key ms st))),
      co_wait = (\<lambda>c m timeout st. map_option (\<lambda>r. (case r of
            Inl e \<Rightarrow> Some (Refused e)
          | Inr (Matched _) \<Rightarrow> None
          | Inr failed \<Rightarrow> Some (Unmatched failed), st)) (control_wait c m (rounds c timeout st) st)),
      co_screen = (\<lambda>c st. to_snapshot (op_terminals C) (ss_terminal (rp_sessions st (ct_session c)))),
      co_release = (\<lambda>c st. map_option (\<lambda>d. st\<lparr>rp_driver := d\<rparr>) (Release c (rp_driver st)))\<rparr>"

interpretation driver_control: session_control "driver_controls C rounds"
  by unfold_locales (simp add: driver_controls_def control_press_def Press_def)

text \<open>
  C22: Replaying a stopped recording, with each parameter given the text that was typed for it, acquires the
  session, does to it again exactly what its successful commands did, in their order, with the texts, the
  modifiers combined and the timeouts in whole milliseconds, up to the first failure, and releases it. It
  holds for recordings whose key presses name each modifier by itself (Shift, Ctrl, Alt) and whose
  assertions have no negative timeout; a press with several modifiers in one \<open>KeyModifier\<close> value is recorded as
  an unknown modifier and cannot be replayed (\<open>combined_modifier_not_replayable\<close>).
\<close>

theorem replay_reproduces_recording:
  assumes "Start (driver_controls C rounds) session m w = Some (Inr r0, m0, w0)"
    "run_commands (driver_controls C rounds) (ws_id session) cs m0 w0 = Some (succeeded, m1, w1)"
    "Stop (driver_controls C rounds) (ws_id session) m1 w1 = Some (stopped, m2, w2)"
    "\<forall>c \<in> set succeeded. replayable parameters c"
  shows "Replay (driver_controls C rounds) quote (ws_id session) parameters m2 v =
       do { (acquired, v1) \<leftarrow> co_acquire (driver_controls C rounds) (ws_id session) v;
            case acquired of
              Inl e \<Rightarrow> Some (Some (AcquireFailed e), v1)
            | Inr h \<Rightarrow> do { (failure, v2) \<leftarrow> perform_all (driver_controls C rounds) quote h 1 succeeded v1;
                             v3 \<leftarrow> co_release (driver_controls C rounds) h v2; Some (failure, v3) } }"
  by (rule driver_control.replay_of_recording(2) [OF assms])

definition example_session :: wb_session where
  "example_session = \<lparr>ws_id = 1, ws_terminal = ''vt220'', ws_width = 80, ws_height = 24\<rparr>"

definition example_controls :: "(control, control_failure, (unit parser \<times> terminal, stream, unit) rpc) control_ops" where
  "example_controls = driver_controls stack_core (\<lambda>_ _ _. [])"

lemma example_acquire:
  "co_acquire example_controls 1 stack_rpc =
     Some (Inr \<lparr>ct_id = 1, ct_token = 1, ct_session = 7\<rparr>,
       stack_rpc\<lparr>rp_driver := run_open\<lparr>dr_nextControl := 1, dr_controls := [1 \<mapsto> 1]\<rparr>\<rparr>)"
  by (simp add: example_controls_def driver_controls_def AcquireSessionControl_def acquire_control_def stack_rpc_def
      run_open_def new_driver_def example_record_def Let_def)

lemma example_recording:
  "\<exists>r0 m0 w0 m1 w1 m2 w2 r. Start example_controls example_session Map.empty stack_rpc = Some (Inr r0, m0, w0) \<and>
     run_commands example_controls 1 [TypeCommand ''hi'' ''word''] m0 w0 = Some ([TypeCommand ''hi'' ''word''], m1, w1) \<and>
     Stop example_controls 1 m1 w1 = Some (Inr r, m2, w2) \<and> dr_controls (rp_driver w2) = Map.empty"
proof -
  let ?h = "\<lparr>ct_id = 1, ct_token = 1, ct_session = 7\<rparr>"
  let ?w0 = "stack_rpc\<lparr>rp_driver := run_open\<lparr>dr_nextControl := 1, dr_controls := [1 \<mapsto> 1]\<rparr>\<rparr>"
  have "healthy (st_conn (ss_stream stack_session))" "\<not> ss_closing stack_session" "\<not> ss_done stack_session"
    by (simp_all add: stack_session_def newSession_def newStream_def new_conn_def healthy_def Let_def)
  from Send_healthy [OF this, of "bytes_of ''hi''"] obtain s' where
    s': "Send telnet_ops (bytes_of ''hi'') stack_session = (None, s')" by blast
  have send: "co_send example_controls ?h (bytes_of ''hi'') ?w0 = Some (None, put_session 7 s' ?w0)"
    using s' by (simp add: example_controls_def driver_controls_def control_send_def control_active_def
        stack_core_def stack_rpc_def)
  have "list_all name_char (runes_of ''word'')" by code_simp
  then have par: "TypeStep ''hi'' ''word'' = Inr (empty_step\<lparr>sp_action := ''type'', sp_parameter := ''word''\<rparr>)"
    by (simp add: TypeStep_def validParameter_def)
  have release: "co_release example_controls ?h (put_session 7 s' ?w0) =
      Some ((put_session 7 s' ?w0)\<lparr>rp_driver := run_open\<lparr>dr_nextControl := 1, dr_controls := Map.empty\<rparr>\<rparr>)"
    by (simp add: example_controls_def driver_controls_def Release_def release_control_def control_active_def
        put_session_def run_open_def new_driver_def)
  show ?thesis
    by (simp add: Start_def example_session_def example_acquire Type_def par send release append_step_def Stop_def Let_def
        del: One_nat_def)
qed

theorem replay_reproduces_recording_witness:
  "\<exists>m2 w2. Replay example_controls id 1 [''word'' \<mapsto> ''hi''] m2 w2 =
     do { (acquired, v1) \<leftarrow> co_acquire example_controls 1 w2;
          case acquired of
            Inl e \<Rightarrow> Some (Some (AcquireFailed e), v1)
          | Inr h \<Rightarrow> do { (failure, v2) \<leftarrow> perform_all example_controls id h 1 [TypeCommand ''hi'' ''word''] v1;
                           v3 \<leftarrow> co_release example_controls h v2; Some (failure, v3) } }"
proof -
  have i: "ws_id example_session = 1" by (simp add: example_session_def)
  obtain r0 m0 w0 m1 w1 m2 w2 r where
    e: "Start example_controls example_session Map.empty stack_rpc = Some (Inr r0, m0, w0)"
      "run_commands example_controls 1 [TypeCommand ''hi'' ''word''] m0 w0 = Some ([TypeCommand ''hi'' ''word''], m1, w1)"
      "Stop example_controls 1 m1 w1 = Some (Inr r, m2, w2)"
    using example_recording by blast
  have p: "\<forall>c \<in> set [TypeCommand ''hi'' ''word'']. replayable [''word'' \<mapsto> ''hi''] c" by (simp add: replayable_def)
  show ?thesis
    using replay_reproduces_recording [OF e(1) [unfolded example_controls_def] e(2) [folded i, unfolded example_controls_def]
        e(3) [folded i, unfolded example_controls_def] p]
    unfolding i example_controls_def [symmetric] by blast
qed

definition same_but_values :: "wb_command \<Rightarrow> wb_command \<Rightarrow> bool" where
  "same_but_values c d \<longleftrightarrow>
     (case (c, d) of
        (TypeCommand t p, TypeCommand u q) \<Rightarrow> p = q \<and> (p = [] \<longrightarrow> t = u)
      | _ \<Rightarrow> c = d)"

lemma step_hides: "same_but_values c d \<Longrightarrow> step_of c = step_of d"
  by (auto simp: same_but_values_def split: wb_command.splits)

text \<open>
  C23: Two recordings whose successful commands differ only in the values of parameterised texts are the same
  recording, so a recording reveals nothing of these values; and it holds exactly the steps of the
  commands that succeeded, in their order.
\<close>

theorem recording_hides_parameters:
  assumes "recording_at i m h r" "run_commands K i cs m w = Some (succeeded, m1, w1)"
    and "recording_at i m' h' r" "run_commands K' i cs' m' w' = Some (succeeded', m1', w1')"
    and "list_all2 same_but_values succeeded succeeded'"
  shows "current_recording i m1 = Inr (add_steps (map step_of succeeded) r, True) \<and>
     current_recording i m1' = current_recording i m1"
proof -
  have "map step_of succeeded = map step_of succeeded'"
    using assms(5) by (induction rule: list_all2_induct) (simp_all add: step_hides)
  then show ?thesis
    using run_commands_at [OF assms(1,2)] run_commands_at [OF assms(3,4)]
    by (simp add: current_recording_def recording_at_def)
qed

definition instant_controls :: "(unit, unit, nat) control_ops" where
  "instant_controls = \<lparr>co_acquire = (\<lambda>_ n. Some (Inr (), n)), co_send = (\<lambda>_ data n. Some (None, n + length data)),
     co_press = (\<lambda>_ _ _ n. Some (None, n)), co_wait = (\<lambda>_ _ _ n. Some (None, n)),
     co_screen = (\<lambda>_ _. vw_screen (cursor_view 0)), co_release = (\<lambda>_ n. Some n)\<rparr>"

subsection \<open>Exclusive control\<close>

lemma driver_kept:
  assumes "run_command (driver_controls C rounds) i c m w = Some (result, m1, w1)"
  shows "rp_driver w1 = rp_driver w"
proof (cases c)
  case (TypeCommand t parameter)
  then show ?thesis using assms
    by (auto simp: Type_def driver_controls_def control_send_def put_session_def bind_Some_iff
        split: sum.splits option.splits if_splits prod.splits)
next
  case (PressCommand key ms)
  then show ?thesis using assms
    by (auto simp: PressRecorded_def driver_controls_def control_press_def put_session_def bind_Some_iff
        split: sum.splits option.splits if_splits prod.splits)
next
  case (AssertCommand t timeout)
  then show ?thesis using assms
    by (auto simp: AssertText_def bind_Some_iff split: option.splits if_splits prod.splits)
qed

lemma driver_kept_all:
  "run_commands (driver_controls C rounds) i cs m w = Some (succeeded, m1, w1) \<Longrightarrow> rp_driver w1 = rp_driver w"
proof (induction cs arbitrary: m w succeeded)
  case (Cons c cs)
  then obtain result m2 w2 rest where "run_command (driver_controls C rounds) i c m w = Some (result, m2, w2)"
    "run_commands (driver_controls C rounds) i cs m2 w2 = Some (rest, m1, w1)"
    by (auto simp: bind_Some_iff)
  then show ?case using Cons.IH driver_kept by metis
qed simp

lemma acquired_control:
  assumes "co_acquire (driver_controls C rounds) i w = Some (Inr h, w1)"
  shows "i \<notin> dr_gates (rp_driver w)" "dr_controls (rp_driver w) i = None" "ct_id h = i"
    "rp_driver w1 = (rp_driver w)\<lparr>dr_nextControl := ct_token h, dr_controls := (dr_controls (rp_driver w))(i \<mapsto> ct_token h)\<rparr>"
  using assms by (auto simp: driver_controls_def AcquireSessionControl_def acquire_control_def Let_def
      split: option.splits if_splits sum.splits)

text \<open>
  From its start, through any commands, a recording keeps every other client's input off its session,
  and \<open>Stop\<close> always succeeds and leaves the driver's controllers as they were before the start.
\<close>

theorem recording_holds_control:
  assumes "Start (driver_controls C rounds) session m w = Some (Inr r0, m0, w0)"
    "run_commands (driver_controls C rounds) (ws_id session) cs m0 w0 = Some (succeeded, m1, w1)"
  shows "(\<exists>e. begin_mutation (ws_id session) registered (rp_driver w1) = Some (Inl e, rp_driver w1)) \<and>
     (\<exists>r m2 w2. Stop (driver_controls C rounds) (ws_id session) m1 w1 = Some (Inr r, m2, w2) \<and>
        dr_controls (rp_driver w2) = dr_controls (rp_driver w) \<and> dr_sessions (rp_driver w2) = dr_sessions (rp_driver w) \<and>
        rp_sessions w2 = rp_sessions w1)"
proof -
  obtain h where h: "recording_at (ws_id session) m0 h r0"
      "co_acquire (driver_controls C rounds) (ws_id session) w = Some (Inr h, w0)"
    using Start_at [OF assms(1)] by blast
  note acq = acquired_control [OF h(2)]
  have d: "rp_driver w1 = (rp_driver w)\<lparr>dr_nextControl := ct_token h,
      dr_controls := (dr_controls (rp_driver w))(ws_id session \<mapsto> ct_token h)\<rparr>"
    using driver_kept_all [OF assms(2)] acq(4) by simp
  have "\<exists>e. begin_mutation (ws_id session) registered (rp_driver w1) = Some (Inl e, rp_driver w1)"
    using acq(1) by (auto simp: begin_mutation_def d split: option.splits)
  moreover have "\<exists>w2. co_release (driver_controls C rounds) h w1 = Some w2 \<and>
      dr_controls (rp_driver w2) = dr_controls (rp_driver w) \<and> dr_sessions (rp_driver w2) = dr_sessions (rp_driver w) \<and>
      rp_sessions w2 = rp_sessions w1"
    using acq(1-3) by (auto simp: driver_controls_def Release_def release_control_def control_active_def d fun_upd_idem)
  ultimately show ?thesis using run_commands_at [OF h(1) assms(2)]
    by (auto simp: Stop_def recording_at_def)
qed

theorem recording_holds_control_witness:
  "\<exists>m0 w0. (\<exists>r0. Start example_controls example_session Map.empty stack_rpc = Some (Inr r0, m0, w0)) \<and>
     (\<exists>e. begin_mutation 1 example_record (rp_driver w0) = Some (Inl e, rp_driver w0))"
proof -
  have i: "ws_id example_session = 1" by (simp add: example_session_def)
  obtain r0 m0 w0 where e: "Start example_controls example_session Map.empty stack_rpc = Some (Inr r0, m0, w0)"
    using example_recording by blast
  have c: "run_commands (driver_controls stack_core (\<lambda>_ _ _. [])) (ws_id example_session) [] m0 w0 = Some ([], m0, w0)" by simp
  show ?thesis using recording_holds_control [OF e [unfolded example_controls_def] c, of example_record] e unfolding i by blast
qed

definition instant_state :: "unit manager" where
  "instant_state = [1 \<mapsto> \<lparr>rs_active = True, rs_control = Some (),
     rs_recording = \<lparr>rc_version = RecordingVersion, rc_session = example_session, rc_steps = []\<rparr>\<rparr>]"

lemma instant_command:
  "t \<noteq> [] \<Longrightarrow> \<exists>m1 w1. run_commands instant_controls 1 [TypeCommand t ''word''] instant_state 0 =
     Some ([TypeCommand t ''word''], m1, w1)"
proof -
  assume t: "t \<noteq> []"
  have "list_all name_char (runes_of ''word'')" by code_simp
  then have par: "TypeStep t ''word'' = Inr (empty_step\<lparr>sp_action := ''type'', sp_parameter := ''word''\<rparr>)"
    using t by (simp add: TypeStep_def validParameter_def)
  show ?thesis
    by (simp add: Type_def par instant_state_def instant_controls_def append_step_def Let_def del: One_nat_def)
qed

theorem recording_hides_parameters_witness:
  "\<exists>m1 w1 m2 w2. run_commands instant_controls 1 [TypeCommand ''secret'' ''word''] instant_state 0 =
       Some ([TypeCommand ''secret'' ''word''], m1, w1) \<and>
     run_commands instant_controls 1 [TypeCommand ''other'' ''word''] instant_state 0 =
       Some ([TypeCommand ''other'' ''word''], m2, w2) \<and>
     current_recording 1 m2 = current_recording 1 m1"
proof -
  obtain m1 w1 m2 w2 where e:
    "run_commands instant_controls 1 [TypeCommand ''secret'' ''word''] instant_state 0 =
       Some ([TypeCommand ''secret'' ''word''], m1, w1)"
    "run_commands instant_controls 1 [TypeCommand ''other'' ''word''] instant_state 0 =
       Some ([TypeCommand ''other'' ''word''], m2, w2)"
    using instant_command [of "''secret''"] instant_command [of "''other''"] by auto
  have at: "recording_at 1 instant_state () \<lparr>rc_version = RecordingVersion, rc_session = example_session, rc_steps = []\<rparr>"
    by (simp add: recording_at_def instant_state_def)
  have "list_all2 same_but_values [TypeCommand ''secret'' ''word''] [TypeCommand ''other'' ''word'']"
    by (simp add: same_but_values_def)
  from recording_hides_parameters [OF at e(1) at e(2) this] e show ?thesis by blast
qed

subsection \<open>Combined modifiers\<close>

text \<open>
  A modifier that combines two bits is accepted by the key encoder but has no name, so a recording that
  holds it cannot be replayed.
\<close>

lemma combined_modifier_not_replayable:
  "NewKeyPress key [ModifierShift OR ModifierControl] = Inr \<lparr>press_key = key, press_modifiers = 5\<rparr> \<and>
   parseModifiers (modifierNames [ModifierShift OR ModifierControl]) = Inl ''Unknown(5)''"
proof -
  have v: "ModifierShift OR ModifierControl = 5" by (simp add: ModifierShift_def ModifierControl_def)
  have "NOT known_modifiers = (248 :: 8 word)"
    by (simp add: known_modifiers_def ModifierShift_def ModifierAlt_def ModifierControl_def) 
  then have "NewKeyPress key [5] = Inr \<lparr>press_key = key, press_modifiers = 5\<rparr>" by (simp add: NewKeyPress_def)
  moreover have "modifier_name 5 = ''Unknown(5)''" by code_simp
  ultimately show ?thesis by (simp add: v modifierNames_def)
qed

end
