(* ===== verification/Sdk_Client.thy ===== *)
theory Sdk_Client
  imports Prelude
begin

text \<open>
  The Go client's connection to a driver process (\<open>sdk/go/client.go\<close>, and the subscriptions of
  \<open>sdk/go/session.go\<close>). Every goroutine that calls the driver is a record of \<open>calls\<close>; the reader
  goroutine decodes what the driver writes, answers calls and routes notifications. The steps are the
  sections the code runs under \<open>mu\<close>, the sends on the calls' channels of capacity one, and the effects of
  the process, so \<open>client_step\<close> holds every interleaving. A channel send that does not fit its channel
  does not happen: the sender waits.
\<close>

type_synonym json = string

datatype client_error =
    WritingRequest
  | ReadingResponse string
  | UnsupportedVersion string
  | IdentifierRequired

text \<open>A decoded object: \<open>rm_id = 0\<close> is an absent identifier.\<close>

record rpc_message =
  rm_version :: string
  rm_id :: nat
  rm_method :: string
  rm_params :: json
  rm_result :: json
  rm_error :: "json option"

datatype reply = Reply rpc_message | ReplyError client_error

datatype call_result = Answered rpc_message | FailedWith client_error | Cancelled | WriteFailed

text \<open>
  A call: registered and about to write its request, with its request written, after a failed write
  whose \<open>fail\<close> is still to run, or returned.
\<close>

datatype phase = Registered | Waiting | Failing | Returned call_result

record call =
  ca_method :: string
  ca_phase :: phase
  ca_channel :: "reply list"

subsection \<open>Subscriptions\<close>

datatype delivery = ScreenDelivery | EventDelivery

text \<open>
  \<open>subscriptionBase\<close> with its channel: an event channel has room for 64 notifications, a screen channel
  for one, which a newer one replaces. The base of the subscription that call \<open>k\<close> asked for has handle \<open>k\<close>.
\<close>

record subscription =
  su_id :: nat
  su_kind :: delivery
  su_channel :: "json list"
  su_channelClosed :: bool
  su_unsubscribed :: bool

definition eventBuffer :: nat where "eventBuffer = 64"

definition deliverFunc :: "json \<Rightarrow> subscription \<Rightarrow> bool \<times> subscription" where
  "deliverFunc params s =
     (case su_kind s of
        ScreenDelivery \<Rightarrow> (True, s\<lparr>su_channel := [params]\<rparr>)
      | EventDelivery \<Rightarrow>
          if length (su_channel s) < eventBuffer then (True, s\<lparr>su_channel := su_channel s @ [params]\<rparr>)
          else (False, s))"

definition deliver :: "json \<Rightarrow> subscription \<Rightarrow> subscription" where
  "deliver params s =
     (if su_channelClosed s then s
      else case deliverFunc params s of
          (True, s') \<Rightarrow> s'
        | (False, s') \<Rightarrow> s'\<lparr>su_channelClosed := True\<rparr>)"

definition finish :: "subscription \<Rightarrow> subscription" where
  "finish s = s\<lparr>su_unsubscribed := True, su_channelClosed := True\<rparr>"

text \<open>The first section of \<open>close\<close>; \<open>None\<close>: it had been called before.\<close>

definition begin_close :: "subscription \<Rightarrow> subscription option" where
  "begin_close s =
     (if su_unsubscribed s then None else Some (s\<lparr>su_unsubscribed := True, su_channelClosed := True\<rparr>))"

subsection \<open>The client\<close>

text \<open>
  \<open>cl_sending\<close> are the sends on calls' channels that a goroutine has begun, \<open>cl_finishing\<close> the
  subscriptions a \<open>fail\<close> still has to finish, \<open>cl_delivering\<close> the notifications on their way to a
  subscription, in the reader (from \<open>routeNotification\<close>) or in the goroutine that subscribes (the queued
  ones, in order). \<open>cl_read\<close> is the history of responses read.
\<close>

record client =
  cl_nextID :: nat
  cl_calls :: "nat \<rightharpoonup> call"
  cl_pending :: "nat set"
  cl_sending :: "(nat \<times> reply) list"
  cl_subscriptions :: "nat \<rightharpoonup> nat"
  cl_handles :: "nat \<rightharpoonup> subscription"
  cl_queued :: "nat \<Rightarrow> json list"
  cl_routing :: "(nat \<times> json) option"
  cl_delivering :: "nat \<Rightarrow> json list"
  cl_finishing :: "nat set"
  cl_failure :: "client_error option"
  cl_reading :: bool
  cl_read :: "rpc_message list"

definition new_client :: client where
  "new_client = \<lparr>cl_nextID = 0, cl_calls = Map.empty, cl_pending = {}, cl_sending = [],
     cl_subscriptions = Map.empty, cl_handles = Map.empty, cl_queued = (\<lambda>_. []), cl_routing = None,
     cl_delivering = (\<lambda>_. []), cl_finishing = {}, cl_failure = None, cl_reading = True, cl_read = []\<rparr>"

definition set_call :: "nat \<Rightarrow> call \<Rightarrow> client \<Rightarrow> client" where
  "set_call i a c = c\<lparr>cl_calls := (cl_calls c)(i \<mapsto> a)\<rparr>"

text \<open>The first section of \<open>call\<close>.\<close>

definition begin_call :: "string \<Rightarrow> client \<Rightarrow> (client_error + nat) \<times> client" where
  "begin_call method c =
     (case cl_failure c of
        Some e \<Rightarrow> (Inl e, c)
      | None \<Rightarrow>
          (let i = cl_nextID c + 1
           in (Inr i, set_call i \<lparr>ca_method = method, ca_phase = Registered, ca_channel = []\<rparr>
                        (c\<lparr>cl_nextID := i, cl_pending := insert i (cl_pending c)\<rparr>))))"

definition removePending :: "nat \<Rightarrow> client \<Rightarrow> client" where
  "removePending i c = c\<lparr>cl_pending := cl_pending c - {i}\<rparr>"

text \<open>The section of \<open>fail\<close>; \<open>ids\<close> is the order in which it ranges over the pending calls.\<close>

definition begin_fail :: "client_error \<Rightarrow> nat list \<Rightarrow> client \<Rightarrow> client" where
  "begin_fail e ids c =
     c\<lparr>cl_failure := (case cl_failure c of None \<Rightarrow> Some e | Some e' \<Rightarrow> Some e'),
       cl_pending := {}, cl_sending := cl_sending c @ map (\<lambda>i. (i, ReplyError e)) ids,
       cl_finishing := cl_finishing c \<union> ran (cl_subscriptions c),
       cl_subscriptions := Map.empty, cl_queued := (\<lambda>_. [])\<rparr>"

definition result_of :: "reply \<Rightarrow> call_result" where
  "result_of r = (case r of Reply m \<Rightarrow> Answered m | ReplyError e \<Rightarrow> FailedWith e)"

text \<open>The section of \<open>read\<close> on a response.\<close>

definition take_pending :: "rpc_message \<Rightarrow> client \<Rightarrow> client" where
  "take_pending m c =
     (if rm_id m \<in> cl_pending c
      then c\<lparr>cl_pending := cl_pending c - {rm_id m}, cl_sending := cl_sending c @ [(rm_id m, Reply m)],
             cl_read := cl_read c @ [m]\<rparr>
      else c\<lparr>cl_read := cl_read c @ [m]\<rparr>)"

text \<open>
  The section of \<open>routeNotification\<close>; \<open>envelope\<close> is the field \<open>subscriptionId\<close> of a JSON object, if it decodes.
\<close>

definition queue_notification :: "string \<Rightarrow> nat \<Rightarrow> json \<Rightarrow> client \<Rightarrow> client" where
  "queue_notification method i params c =
     (if method = ''session.screen'' then c\<lparr>cl_queued := (cl_queued c)(i := [params])\<rparr>
      else if length (cl_queued c i) < 64 then c\<lparr>cl_queued := (cl_queued c)(i := cl_queued c i @ [params])\<rparr>
      else c)"

definition routeNotification :: "(json \<Rightarrow> nat option) \<Rightarrow> string \<Rightarrow> json \<Rightarrow> client \<Rightarrow> client" where
  "routeNotification envelope method params c =
     (if method \<noteq> ''session.screen'' \<and> method \<noteq> ''session.event'' then c
      else case envelope params of
          None \<Rightarrow> c
        | Some i \<Rightarrow>
            (case cl_subscriptions c i of
               None \<Rightarrow> queue_notification method i params c
             | Some h \<Rightarrow> c\<lparr>cl_routing := Some (h, params)\<rparr>))"

text \<open>The section of \<open>addSubscription\<close> after its call: \<open>h\<close> is the new \<open>subscriptionBase\<close>.\<close>

definition add_client_subscription :: "nat \<Rightarrow> delivery \<Rightarrow> nat \<Rightarrow> client \<Rightarrow> client" where
  "add_client_subscription i kind h c =
     c\<lparr>cl_handles := (cl_handles c)(h \<mapsto> \<lparr>su_id = i, su_kind = kind, su_channel = [],
                                      su_channelClosed = False, su_unsubscribed = False\<rparr>),
       cl_subscriptions := (cl_subscriptions c)(i \<mapsto> h),
       cl_delivering := (cl_delivering c)(h := cl_queued c i), cl_queued := (cl_queued c)(i := [])\<rparr>"

definition on_handle :: "(subscription \<Rightarrow> subscription) \<Rightarrow> nat \<Rightarrow> client \<Rightarrow> client" where
  "on_handle f h c = c\<lparr>cl_handles := (cl_handles c)(h := map_option f (cl_handles c h))\<rparr>"

definition subscribe_kind :: "string \<Rightarrow> delivery option" where
  "subscribe_kind method =
     (if method = ''session.subscribe'' then Some ScreenDelivery
      else if method = ''session.subscribeEvents'' then Some EventDelivery else None)"

subsection \<open>Steps\<close>

text \<open>
  \<open>closed\<close> joins the two sections of a subscription's \<open>close\<close>: a notification delivered between them finds
  its channel closed. \<open>envelope\<close> also reads the identifier in the result of a subscribe call.
\<close>

inductive client_step :: "(json \<Rightarrow> nat option) \<Rightarrow> client \<Rightarrow> client \<Rightarrow> bool" for envelope where
  call_begins: "begin_call method c = (r, c') \<Longrightarrow> client_step envelope c c'"
| request_written: "cl_calls c i = Some a \<Longrightarrow> ca_phase a = Registered \<Longrightarrow>
     client_step envelope c (set_call i (a\<lparr>ca_phase := Waiting\<rparr>) c)"
| write_fails: "cl_calls c i = Some a \<Longrightarrow> ca_phase a = Registered \<Longrightarrow>
     client_step envelope c (removePending i (set_call i (a\<lparr>ca_phase := Failing\<rparr>) c))"
| write_failed: "cl_calls c i = Some a \<Longrightarrow> ca_phase a = Failing \<Longrightarrow> set ids = cl_pending c \<Longrightarrow> distinct ids \<Longrightarrow>
     client_step envelope c
       (begin_fail WritingRequest ids (set_call i (a\<lparr>ca_phase := Returned WriteFailed\<rparr>) c))"
| cancelled: "cl_calls c i = Some a \<Longrightarrow> ca_phase a = Waiting \<Longrightarrow>
     client_step envelope c (removePending i (set_call i (a\<lparr>ca_phase := Returned Cancelled\<rparr>) c))"
| reply_received: "cl_calls c i = Some a \<Longrightarrow> ca_phase a = Waiting \<Longrightarrow> ca_channel a = r # rs \<Longrightarrow>
     client_step envelope c (set_call i (a\<lparr>ca_phase := Returned (result_of r), ca_channel := rs\<rparr>) c)"
| reply_sent: "cl_sending c = before @ (i, r) # after \<Longrightarrow> cl_calls c i = Some a \<Longrightarrow> ca_channel a = [] \<Longrightarrow>
     client_step envelope c (set_call i (a\<lparr>ca_channel := [r]\<rparr>) (c\<lparr>cl_sending := before @ after\<rparr>))"
| reading_fails: "cl_reading c \<Longrightarrow> cl_routing c = None \<Longrightarrow> set ids = cl_pending c \<Longrightarrow> distinct ids \<Longrightarrow>
     client_step envelope c (begin_fail (ReadingResponse e) ids (c\<lparr>cl_reading := False\<rparr>))"
| bad_version: "cl_reading c \<Longrightarrow> cl_routing c = None \<Longrightarrow> rm_version (m :: rpc_message) \<noteq> ''2.0'' \<Longrightarrow>
     set ids = cl_pending c \<Longrightarrow> distinct ids \<Longrightarrow>
     client_step envelope c (begin_fail (UnsupportedVersion (rm_version m)) ids (c\<lparr>cl_reading := False\<rparr>))"
| no_identifier: "cl_reading c \<Longrightarrow> cl_routing c = None \<Longrightarrow> rm_version (m :: rpc_message) = ''2.0'' \<Longrightarrow> rm_id m = 0 \<Longrightarrow> rm_method m = [] \<Longrightarrow>
     set ids = cl_pending c \<Longrightarrow> distinct ids \<Longrightarrow>
     client_step envelope c (begin_fail IdentifierRequired ids (c\<lparr>cl_reading := False\<rparr>))"
| response_read: "cl_reading c \<Longrightarrow> cl_routing c = None \<Longrightarrow> rm_version m = ''2.0'' \<Longrightarrow> rm_id m \<noteq> 0 \<Longrightarrow>
     client_step envelope c (take_pending m c)"
| notification_read: "cl_reading c \<Longrightarrow> cl_routing c = None \<Longrightarrow> rm_version (m :: rpc_message) = ''2.0'' \<Longrightarrow> rm_id m = 0 \<Longrightarrow> rm_method m \<noteq> [] \<Longrightarrow>
     client_step envelope c (routeNotification envelope (rm_method m) (rm_params m) c)"
| notification_delivered: "cl_routing c = Some (h, params) \<Longrightarrow>
     client_step envelope c (on_handle (deliver params) h (c\<lparr>cl_routing := None\<rparr>))"
| subscribed: "cl_calls c k = Some a \<Longrightarrow> ca_phase a = Returned (Answered m) \<Longrightarrow> rm_error m = None \<Longrightarrow>
     envelope (rm_result m) = Some i \<Longrightarrow> subscribe_kind (ca_method a) = Some kind \<Longrightarrow> cl_handles c k = None \<Longrightarrow>
     client_step envelope c (add_client_subscription i kind k c)"
| queued_delivered: "cl_delivering c h = params # rest \<Longrightarrow>
     client_step envelope c (on_handle (deliver params) h (c\<lparr>cl_delivering := (cl_delivering c)(h := rest)\<rparr>))"
| finished: "h \<in> cl_finishing c \<Longrightarrow>
     client_step envelope c (on_handle finish h (c\<lparr>cl_finishing := cl_finishing c - {h}\<rparr>))"
| closed: "cl_handles c h = Some s \<Longrightarrow> begin_close s = Some s' \<Longrightarrow>
     client_step envelope c (c\<lparr>cl_handles := (cl_handles c)(h \<mapsto> s'),
                               cl_subscriptions := (cl_subscriptions c)(su_id s := None)\<rparr>)"
| consumed: "cl_handles c h = Some s \<Longrightarrow> su_channel s = x # xs \<Longrightarrow>
     client_step envelope c (on_handle (\<lambda>s. s\<lparr>su_channel := xs\<rparr>) h c)"

inductive client_runs :: "(json \<Rightarrow> nat option) \<Rightarrow> client \<Rightarrow> bool" for envelope where
  fresh: "client_runs envelope new_client"
| step: "client_runs envelope c \<Longrightarrow> client_step envelope c c' \<Longrightarrow> client_runs envelope c'"

end
