(* ===== verification/Sdk_Client_Props.thy ===== *)
theory Sdk_Client_Props
  imports Sdk_Client "HOL-Library.Multiset"
begin

text \<open>
  The Go client under every interleaving of its goroutines: a call gets the response to its own request,
  the reader never waits for a caller, and after a failure no call is left waiting. Two interleavings in
  which a subscription does not behave as documented close the theory.
\<close>

subsection \<open>One reply for every call\<close>

text \<open>
  The replies a call \<open>i\<close> has coming: its entry among the pending calls, the sends begun for it, and what
  its channel holds.
\<close>

definition coming :: "nat \<Rightarrow> client \<Rightarrow> nat" where
  "coming i c =
     (if i \<in> cl_pending c then 1 else 0) + count (mset (map fst (cl_sending c))) i +
     (case cl_calls c i of None \<Rightarrow> 0 | Some a \<Rightarrow> length (ca_channel a))"

definition call_ok :: "nat \<Rightarrow> client \<Rightarrow> bool" where
  "call_ok i c \<longleftrightarrow>
     (case cl_calls c i of
        None \<Rightarrow> coming i c = 0
      | Some a \<Rightarrow> i \<le> cl_nextID c \<and> coming i c \<le> 1 \<and> (ca_phase a \<in> {Registered, Waiting} \<longrightarrow> coming i c = 1))"

definition calls_ok :: "client \<Rightarrow> bool" where
  "calls_ok c \<longleftrightarrow> (\<forall>i. call_ok i c) \<and> (cl_failure c \<noteq> None \<longrightarrow> cl_pending c = {})"

lemma coming_fail:
  assumes "set ids = cl_pending c" "distinct ids"
  shows "coming i (begin_fail e ids c) = coming i c"
proof -
  have "count (mset ids) i = (if i \<in> cl_pending c then 1 else 0)"
    using assms distinct_count_atmost_1 [of ids] by auto
  then show ?thesis by (simp add: coming_def begin_fail_def comp_def)
qed

lemma call_okD:
  assumes "calls_ok c" "cl_calls c i = Some a"
  shows "i \<le> cl_nextID c" "coming i c \<le> 1" "ca_phase a \<in> {Registered, Waiting} \<Longrightarrow> coming i c = 1"
  using assms by (auto simp: calls_ok_def call_ok_def dest: spec [of _ i])

lemma call_ok_same:
  "call_ok i c \<Longrightarrow> cl_calls c' i = cl_calls c i \<Longrightarrow> coming i c' = coming i c \<Longrightarrow> cl_nextID c \<le> cl_nextID c' \<Longrightarrow> call_ok i c'"
  by (auto simp: call_ok_def split: option.splits)

text \<open>A step that touches call \<open>i\<close> only.\<close>

lemma focus:
  assumes "calls_ok c" "cl_nextID c \<le> cl_nextID c'" "call_ok i c'"
    and "\<And>j. j \<noteq> i \<Longrightarrow> cl_calls c' j = cl_calls c j \<and> coming j c' = coming j c"
    and "cl_failure c' = cl_failure c" "cl_pending c' \<subseteq> cl_pending c \<or> cl_failure c = None"
  shows "calls_ok c'"
proof -
  have "call_ok j c'" for j
  proof (cases "j = i")
    case False
    have "call_ok j c" using assms(1) by (simp add: calls_ok_def)
    then show ?thesis using call_ok_same assms(2,4) False by simp
  qed (use assms(3) in simp)
  then show ?thesis using assms(1,5,6) by (auto simp: calls_ok_def)
qed

lemma unchanged:
  "calls_ok c \<Longrightarrow> cl_calls c' = cl_calls c \<Longrightarrow> cl_nextID c' = cl_nextID c \<Longrightarrow> cl_pending c' = cl_pending c \<Longrightarrow>
    cl_sending c' = cl_sending c \<Longrightarrow> cl_failure c' = cl_failure c \<Longrightarrow> calls_ok c'"
  by (rule focus [where c = c and i = 0]) (auto simp: coming_def calls_ok_def intro!: call_ok_same [of 0 c c'])

lemma fail_ok:
  assumes "calls_ok c" "set ids = cl_pending c" "distinct ids"
  shows "calls_ok (begin_fail e ids c)"
proof -
  have "call_ok i (begin_fail e ids c)" for i
  proof (rule call_ok_same [of i c])
    show "call_ok i c" using assms(1) by (simp add: calls_ok_def)
  qed (use coming_fail [OF assms(2,3)] in \<open>simp_all add: begin_fail_def\<close>)
  then show ?thesis by (simp add: calls_ok_def) (simp add: begin_fail_def)
qed

lemma coming_set_call:
  "cl_calls c i = Some a \<Longrightarrow> coming j (set_call i b c) =
     (if j = i then coming i c - length (ca_channel a) + length (ca_channel b) else coming j c)"
  by (auto simp: coming_def set_call_def)

lemma set_call_fields [simp]:
  "cl_nextID (set_call i b c) = cl_nextID c" "cl_pending (set_call i b c) = cl_pending c"
  "cl_failure (set_call i b c) = cl_failure c" "cl_calls (set_call i b c) = (cl_calls c)(i \<mapsto> b)"
  "cl_sending (set_call i b c) = cl_sending c" "cl_read (set_call i b c) = cl_read c"
  "cl_reading (set_call i b c) = cl_reading c" "cl_routing (set_call i b c) = cl_routing c"
  "cl_finishing (set_call i b c) = cl_finishing c" "cl_queued (set_call i b c) = cl_queued c"
  "cl_delivering (set_call i b c) = cl_delivering c" "cl_handles (set_call i b c) = cl_handles c"
  "cl_subscriptions (set_call i b c) = cl_subscriptions c"
  by (simp_all add: set_call_def)

lemma removePending_fields [simp]:
  "cl_nextID (removePending i c) = cl_nextID c" "cl_pending (removePending i c) = cl_pending c - {i}"
  "cl_failure (removePending i c) = cl_failure c" "cl_calls (removePending i c) = cl_calls c"
  "cl_sending (removePending i c) = cl_sending c" "cl_read (removePending i c) = cl_read c"
  by (simp_all add: removePending_def)

lemma coming_removePending: "coming j (removePending i c) = (if j = i \<and> i \<in> cl_pending c then coming j c - 1 else coming j c)"
  by (auto simp: coming_def removePending_def)

lemma set_call_ok:
  assumes "calls_ok c" "cl_calls c i = Some a" "length (ca_channel b) \<le> length (ca_channel a)"
    "ca_phase b \<in> {Registered, Waiting} \<Longrightarrow> ca_phase a \<in> {Registered, Waiting} \<and> length (ca_channel b) = length (ca_channel a)"
  shows "calls_ok (set_call i b c)"
proof (rule focus [where i = i, OF assms(1)])
  have "length (ca_channel a) \<le> coming i c" using assms(2) by (simp add: coming_def)
  then show "call_ok i (set_call i b c)"
    using call_okD [OF assms(1,2)] assms(3,4) by (simp add: call_ok_def coming_set_call [OF assms(2)])
qed (simp_all add: coming_set_call [OF assms(2)])

lemma removePending_ok:
  assumes "calls_ok c" "cl_calls c i = Some a" "ca_phase a \<notin> {Registered, Waiting}"
  shows "calls_ok (removePending i c)"
proof (rule focus [where i = i, OF assms(1)])
  show "call_ok i (removePending i c)"
    using call_okD [OF assms(1,2)] assms(2,3) by (simp add: call_ok_def coming_removePending)
qed (auto simp: coming_removePending)

lemma reader_fails_ok:
  "calls_ok c \<Longrightarrow> set ids = cl_pending c \<Longrightarrow> distinct ids \<Longrightarrow> calls_ok (begin_fail e ids (c\<lparr>cl_reading := False\<rparr>))"
  by (intro fail_ok unchanged [of c "c\<lparr>cl_reading := False\<rparr>"]) simp_all

lemma begin_call_ok:
  assumes "calls_ok c" "begin_call name c = (r, c')"
  shows "calls_ok c'"
proof (cases "cl_failure c")
  case None
  have "call_ok (cl_nextID c + 1) c" using assms(1) by (simp add: calls_ok_def)
  then have "coming (cl_nextID c + 1) c = 0" "cl_calls c (cl_nextID c + 1) = None"
    by (auto simp: call_ok_def split: option.splits)
  then have c: "cl_nextID c + 1 \<notin> cl_pending c" "count (mset (map fst (cl_sending c))) (cl_nextID c + 1) = 0"
    by (auto simp: coming_def split: if_splits)
  have c': "c' = set_call (cl_nextID c + 1) \<lparr>ca_method = name, ca_phase = Registered, ca_channel = []\<rparr>
      (c\<lparr>cl_nextID := cl_nextID c + 1, cl_pending := insert (cl_nextID c + 1) (cl_pending c)\<rparr>)"
    using assms(2) None by (simp add: begin_call_def Let_def)
  show ?thesis unfolding c'
    by (rule focus [where i = "cl_nextID c + 1", OF assms(1)])
      (use c None in \<open>auto simp: call_ok_def coming_def\<close>)
qed (use assms in \<open>simp add: begin_call_def\<close>)

lemma step_calls: "client_step envelope c c' \<Longrightarrow> calls_ok c \<Longrightarrow> calls_ok c'"
proof (induction rule: client_step.induct)
  case (call_begins name c r c')
  then show ?case using begin_call_ok by blast
next
  case (request_written c i a)
  show ?case by (rule set_call_ok [OF request_written(3,1)]) (use request_written in auto)
next
  case (write_fails c i a)
  have "calls_ok (set_call i (a\<lparr>ca_phase := Failing\<rparr>) c)"
    by (rule set_call_ok [OF write_fails(3,1)]) auto
  then show ?case by (rule removePending_ok [where i = i]) auto
next
  case (write_failed c i a ids)
  have "calls_ok (set_call i (a\<lparr>ca_phase := Returned WriteFailed\<rparr>) c)"
    by (rule set_call_ok [OF write_failed(5,1)]) auto
  then show ?case using write_failed(3,4) fail_ok by simp
next
  case (cancelled c i a)
  have "calls_ok (set_call i (a\<lparr>ca_phase := Returned Cancelled\<rparr>) c)"
    by (rule set_call_ok [OF cancelled(3,1)]) auto
  then show ?case by (rule removePending_ok [where i = i]) auto
next
  case (reply_received c i a r rs)
  show ?case by (rule set_call_ok [OF reply_received(4,1)]) (use reply_received in auto)
next
  case (reply_sent c before i r after a)
  have coming: "coming j (set_call i (a\<lparr>ca_channel := [r]\<rparr>) (c\<lparr>cl_sending := before @ after\<rparr>)) = coming j c" for j
    using reply_sent(1-3) by (auto simp: coming_def)
  show ?case
    by (rule focus [where i = i, OF reply_sent(4)])
      (use call_okD [OF reply_sent(4,2)] in \<open>auto simp: call_ok_def coming simp del: One_nat_def\<close>)
next
  case (response_read c m)
  have "coming j (take_pending m c) = coming j c" for j by (auto simp: coming_def take_pending_def)
  then have "call_ok j (take_pending m c)" for j
    using response_read(5) call_ok_same [of j c "take_pending m c"]
    by (simp add: calls_ok_def) (simp add: take_pending_def)
  then show ?case using response_read(5) by (auto simp: calls_ok_def take_pending_def)
qed ((rule reader_fails_ok; assumption) | ((rule unchanged, assumption);
    simp add: routeNotification_def queue_notification_def on_handle_def add_client_subscription_def split: option.splits; fail))+

subsection \<open>The right reply\<close>

definition reply_for :: "nat \<Rightarrow> client \<Rightarrow> reply \<Rightarrow> bool" where
  "reply_for i c r \<longleftrightarrow> (case r of Reply m \<Rightarrow> rm_id m = i \<and> m \<in> set (cl_read c) | ReplyError _ \<Rightarrow> cl_failure c \<noteq> None)"

definition phase_ok :: "nat \<Rightarrow> client \<Rightarrow> phase \<Rightarrow> bool" where
  "phase_ok i c p \<longleftrightarrow> (\<forall>r. p = Returned (result_of r) \<longrightarrow> reply_for i c r)"

definition replies_ok :: "client \<Rightarrow> bool" where
  "replies_ok c \<longleftrightarrow>
     (\<forall>(i, r) \<in> set (cl_sending c). reply_for i c r) \<and>
     (\<forall>i a. cl_calls c i = Some a \<longrightarrow> list_all (reply_for i c) (ca_channel a) \<and> phase_ok i c (ca_phase a))"

lemma reply_for_mono:
  "reply_for i c r \<Longrightarrow> set (cl_read c) \<subseteq> set (cl_read c') \<Longrightarrow> (cl_failure c \<noteq> None \<longrightarrow> cl_failure c' \<noteq> None) \<Longrightarrow> reply_for i c' r"
  by (auto simp: reply_for_def split: reply.splits)

lemma phase_ok_simps [simp]:
  "phase_ok i c Registered" "phase_ok i c Waiting" "phase_ok i c Failing" "phase_ok i c (Returned Cancelled)"
  "phase_ok i c (Returned WriteFailed)"
  by (simp_all add: phase_ok_def result_of_def split: reply.splits)

lemma phase_ok_result [simp]: "phase_ok i c (Returned (result_of r)) \<longleftrightarrow> reply_for i c r"
  by (auto simp: phase_ok_def result_of_def reply_for_def split: reply.splits)

lemma replies_grow:
  assumes "replies_ok c" "cl_calls c' = cl_calls c" "set (cl_read c) \<subseteq> set (cl_read c')"
    "cl_failure c \<noteq> None \<longrightarrow> cl_failure c' \<noteq> None"
    "\<And>i r. (i, r) \<in> set (cl_sending c') \<Longrightarrow> (i, r) \<in> set (cl_sending c) \<or> reply_for i c' r"
  shows "replies_ok c'"
proof -
  note mono = reply_for_mono [OF _ assms(3,4)]
  have "reply_for i c' r" if "(i, r) \<in> set (cl_sending c')" for i r
    using assms(1,5) that mono by (fastforce simp: replies_ok_def)
  moreover have "list_all (reply_for i c') (ca_channel a) \<and> phase_ok i c' (ca_phase a)" if "cl_calls c' i = Some a" for i a
  proof -
    have "list_all (reply_for i c) (ca_channel a)" "phase_ok i c (ca_phase a)"
      using assms(1,2) that by (simp_all add: replies_ok_def)
    then show ?thesis using mono by (auto simp: phase_ok_def list_all_iff)
  qed
  ultimately show ?thesis by (auto simp: replies_ok_def)
qed

lemma reply_for_set_call [simp]: "reply_for i (set_call j a c) = reply_for i c"
  by (simp add: fun_eq_iff reply_for_def split: reply.splits)

lemma phase_ok_set_call [simp]: "phase_ok i (set_call j a c) = phase_ok i c"
  by (simp add: fun_eq_iff phase_ok_def)

lemma reply_for_sending [simp]: "reply_for i (c\<lparr>cl_sending := x\<rparr>) = reply_for i c"
  by (simp add: fun_eq_iff reply_for_def split: reply.splits)

lemma phase_ok_sending [simp]: "phase_ok i (c\<lparr>cl_sending := x\<rparr>) = phase_ok i c"
  by (simp add: fun_eq_iff phase_ok_def)

lemma replies_set_call:
  "replies_ok c \<Longrightarrow> list_all (reply_for i c) (ca_channel b) \<Longrightarrow> phase_ok i c (ca_phase b) \<Longrightarrow> replies_ok (set_call i b c)"
  by (auto simp: replies_ok_def)

lemma replies_fail: "replies_ok c \<Longrightarrow> replies_ok (begin_fail e ids c)"
  by (rule replies_grow [where c = c]) (auto simp: begin_fail_def reply_for_def split: option.splits)

lemma replies_same:
  "replies_ok c \<Longrightarrow> cl_calls c' = cl_calls c \<Longrightarrow> cl_read c' = cl_read c \<Longrightarrow> cl_failure c' = cl_failure c \<Longrightarrow>
     cl_sending c' = cl_sending c \<Longrightarrow> replies_ok c'"
  by (rule replies_grow [where c = c]) simp_all

lemma replies_at:
  assumes "replies_ok c" "cl_calls c i = Some a"
  shows "list_all (reply_for i c) (ca_channel a)" "phase_ok i c (ca_phase a)"
  using assms by (simp_all add: replies_ok_def)

lemma replies_reader_fails: "replies_ok c \<Longrightarrow> replies_ok (begin_fail e ids (c\<lparr>cl_reading := False\<rparr>))"
  by (intro replies_fail replies_same [of c "c\<lparr>cl_reading := False\<rparr>"]) simp_all

lemma step_replies: "client_step envelope c c' \<Longrightarrow> replies_ok c \<Longrightarrow> replies_ok c'"
proof (induction rule: client_step.induct)
  case (call_begins name c r c')
  show ?case
  proof (cases "cl_failure c")
    case None
    let ?d = "c\<lparr>cl_nextID := cl_nextID c + 1, cl_pending := insert (cl_nextID c + 1) (cl_pending c)\<rparr>"
    have "replies_ok ?d" by (rule replies_same [OF call_begins.prems]) simp_all
    from replies_set_call [OF this, of "cl_nextID c + 1" "\<lparr>ca_method = name, ca_phase = Registered, ca_channel = []\<rparr>"]
    show ?thesis using call_begins.hyps None by (simp add: begin_call_def Let_def)
  qed (use call_begins in \<open>simp add: begin_call_def\<close>)
next
  case (request_written c i a)
  then show ?case using replies_at [of c i a] by (intro replies_set_call) auto
next
  case (write_fails c i a)
  have "replies_ok (set_call i (a\<lparr>ca_phase := Failing\<rparr>) c)"
    using write_fails replies_at [of c i a] by (intro replies_set_call) auto
  then show ?case by (rule replies_same) simp_all
next
  case (write_failed c i a ids)
  then show ?case using replies_at [of c i a] by (intro replies_fail replies_set_call) auto
next
  case (cancelled c i a)
  have "replies_ok (set_call i (a\<lparr>ca_phase := Returned Cancelled\<rparr>) c)"
    using cancelled replies_at [of c i a] by (intro replies_set_call) auto
  then show ?case by (rule replies_same) simp_all
next
  case (reply_received c i a r rs)
  then show ?case using replies_at [of c i a] by (intro replies_set_call) auto
next
  case (reply_sent c before i r after a)
  have "replies_ok (c\<lparr>cl_sending := before @ after\<rparr>)"
    by (rule replies_grow [OF reply_sent(4)]) (use reply_sent(1) in auto)
  moreover have "reply_for i c r" using reply_sent(1,4) by (auto simp: replies_ok_def)
  ultimately show ?case using replies_at [OF reply_sent(4,2)]
    by (intro replies_set_call) auto
next
  case (response_read c m)
  show ?case by (rule replies_grow [OF response_read(5)]) (auto simp: take_pending_def reply_for_def split: if_splits)
qed ((rule replies_reader_fails, assumption) | ((rule replies_same, assumption);
    simp add: routeNotification_def queue_notification_def on_handle_def add_client_subscription_def split: option.splits; fail))+

lemma sends_count: "count (mset (map fst xs)) i = 0 \<longleftrightarrow> i \<notin> fst ` set xs"
  by (simp add: count_eq_zero_iff)

lemma in_flight:
  assumes "call_ok i c" "i \<in> fst ` set (cl_sending c)"
  shows "\<exists>a. cl_calls c i = Some a \<and> ca_channel a = []"
proof -
  have "count (mset (map fst (cl_sending c))) i \<noteq> 0" using assms(2) by (simp only: sends_count not_not)
  then obtain n where "count (mset (map fst (cl_sending c))) i = Suc n" by (meson not0_implies_Suc)
  then show ?thesis using assms(1) by (auto simp: call_ok_def coming_def simp del: mset_map split: option.splits)
qed

lemma runs_ok: "client_runs envelope c \<Longrightarrow> calls_ok c \<and> replies_ok c"
proof (induction rule: client_runs.induct)
  case fresh
  show ?case by (simp add: new_client_def calls_ok_def call_ok_def coming_def replies_ok_def)
qed (simp add: step_calls step_replies)

text \<open>
  C26: Under every interleaving of callers, reader and failures, a call that returns with an answer returns a
  response the driver sent to its own request, one that returns with an error of the connection does so
  only after the connection failed, and a reply on its way finds the channel of its call empty, so that
  neither the reader nor a failing goroutine ever waits for a caller.
\<close>

theorem client_calls_matched:
  assumes "client_runs envelope c"
  shows "(\<forall>i a. cl_calls c i = Some a \<longrightarrow>
       (\<forall>m. ca_phase a = Returned (Answered m) \<longrightarrow> rm_id m = i \<and> m \<in> set (cl_read c)) \<and>
       (\<forall>e. ca_phase a = Returned (FailedWith e) \<longrightarrow> cl_failure c \<noteq> None)) \<and>
     (\<forall>(i, r) \<in> set (cl_sending c). \<exists>a. cl_calls c i = Some a \<and> ca_channel a = [])"
proof -
  have ok: "calls_ok c" "replies_ok c" using runs_ok [OF assms] by simp_all
  have "reply_for i c r" if "cl_calls c i = Some a" "ca_phase a = Returned (result_of r)" for i a r
    using replies_at(2) [OF ok(2) that(1)] that(2) by (simp only: phase_ok_result)
  note this [where r = "Reply _"] this [where r = "ReplyError _"]
  moreover have "\<exists>a. cl_calls c i = Some a \<and> ca_channel a = []" if "(i, r) \<in> set (cl_sending c)" for i r
    using in_flight [of i c] ok(1) that by (force simp: calls_ok_def)
  ultimately show ?thesis by (force simp: reply_for_def result_of_def)
qed


subsection \<open>Runs\<close>

text \<open>The client after one call of \<open>method\<close> that was answered by \<open>m\<close>.\<close>

definition answered :: "string \<Rightarrow> rpc_message \<Rightarrow> client" where
  "answered method m = new_client\<lparr>cl_nextID := 1,
     cl_calls := [1 \<mapsto> \<lparr>ca_method = method, ca_phase = Returned (Answered m), ca_channel = []\<rparr>], cl_read := [m]\<rparr>"

lemma runs_call:
  "client_runs envelope c \<Longrightarrow> cl_failure c = None \<Longrightarrow>
     client_runs envelope (set_call (cl_nextID c + 1) \<lparr>ca_method = method, ca_phase = Waiting, ca_channel = []\<rparr>
        (c\<lparr>cl_nextID := cl_nextID c + 1, cl_pending := insert (cl_nextID c + 1) (cl_pending c)\<rparr>))"
proof -
  assume c: "client_runs envelope c" "cl_failure c = None"
  let ?a = "\<lparr>ca_method = method, ca_phase = Registered, ca_channel = []\<rparr>"
  let ?c = "set_call (cl_nextID c + 1) ?a
      (c\<lparr>cl_nextID := cl_nextID c + 1, cl_pending := insert (cl_nextID c + 1) (cl_pending c)\<rparr>)"
  have "begin_call method c = (Inr (cl_nextID c + 1), ?c)" using c(2) by (simp add: begin_call_def Let_def)
  then have "client_runs envelope ?c" by (rule client_runs.step [OF c(1) client_step.call_begins])
  from client_runs.step [OF this client_step.request_written [of ?c "cl_nextID c + 1" ?a]]
  show ?thesis by (simp add: set_call_def)
qed

lemma runs_answered:
  assumes "rm_version m = ''2.0''" "rm_id m = 1"
  shows "client_runs envelope (answered method m)"
proof -
  let ?a = "\<lparr>ca_method = method, ca_phase = Waiting, ca_channel = []\<rparr>"
  let ?c = "set_call 1 ?a (new_client\<lparr>cl_nextID := 1, cl_pending := {1}\<rparr>)"
  let ?d = "?c\<lparr>cl_pending := {}, cl_sending := [(1, Reply m)], cl_read := [m]\<rparr>"
  let ?e = "set_call 1 (?a\<lparr>ca_channel := [Reply m]\<rparr>) (?d\<lparr>cl_sending := []\<rparr>)"
  have "client_runs envelope ?c"
    using runs_call [OF client_runs.fresh] by (simp add: new_client_def)
  moreover have "client_step envelope ?c ?d"
    using client_step.response_read [of ?c m] assms by (simp add: take_pending_def new_client_def set_call_def)
  moreover have "client_step envelope ?d ?e"
    using client_step.reply_sent [of ?d "[]" 1 "Reply m" "[]" ?a] by (simp add: new_client_def set_call_def)
  moreover have "client_step envelope ?e (answered method m)"
    using client_step.reply_received [of ?e 1 "?a\<lparr>ca_channel := [Reply m]\<rparr>" "Reply m" "[]"]
    by (simp add: new_client_def set_call_def answered_def result_of_def)
  ultimately show ?thesis using client_runs.step by metis
qed

definition pong :: rpc_message where
  "pong = \<lparr>rm_version = ''2.0'', rm_id = 1, rm_method = [], rm_params = [], rm_result = ''pong'', rm_error = None\<rparr>"

theorem client_calls_matched_witness:
  "\<exists>a m. cl_calls (answered ''driver.ping'' pong) 1 = Some a \<and> ca_phase a = Returned (Answered m) \<and>
     rm_id m = 1 \<and> m \<in> set (cl_read (answered ''driver.ping'' pong))"
proof -
  let ?c = "answered ''driver.ping'' pong"
  have "client_runs (\<lambda>_. None) ?c" by (rule runs_answered) (simp_all add: pong_def)
  moreover obtain a where "cl_calls ?c 1 = Some a" "ca_phase a = Returned (Answered pong)" by (simp add: answered_def)
  ultimately show ?thesis using client_calls_matched [of "\<lambda>_. None" ?c] by blast
qed



subsection \<open>Subscriptions out of step\<close>

definition subscribed_reply :: rpc_message where
  "subscribed_reply = \<lparr>rm_version = ''2.0'', rm_id = 1, rm_method = [], rm_params = [], rm_result = ''5'', rm_error = None\<rparr>"

definition event :: "json \<Rightarrow> rpc_message" where
  "event x = \<lparr>rm_version = ''2.0'', rm_id = 0, rm_method = ''session.event'', rm_params = x, rm_result = [], rm_error = None\<rparr>"

text \<open>
  The reader can deliver an event that arrives after the subscription is registered before the
  subscribing goroutine has delivered those that were queued for it: two events that the driver sent as
  first and second reach the subscription's channel as second and first.
\<close>

theorem client_events_reordered:
  "\<exists>c0 c1 c2 s. client_runs (\<lambda>_. Some 5) c0 \<and>
     client_step (\<lambda>_. Some 5) c0 (routeNotification (\<lambda>_. Some 5) ''session.event'' ''first'' c0) \<and>
     (client_step (\<lambda>_. Some 5))\<^sup>*\<^sup>* (routeNotification (\<lambda>_. Some 5) ''session.event'' ''first'' c0) c1 \<and>
     client_step (\<lambda>_. Some 5) c1 (routeNotification (\<lambda>_. Some 5) ''session.event'' ''second'' c1) \<and>
     (client_step (\<lambda>_. Some 5))\<^sup>*\<^sup>* (routeNotification (\<lambda>_. Some 5) ''session.event'' ''second'' c1) c2 \<and>
     cl_handles c2 1 = Some s \<and> \<not> su_channelClosed s \<and> su_channel s = [''second'', ''first'']"
proof -
  let ?env = "\<lambda>_ :: json. Some (5 :: nat)"
  let ?s = "\<lambda>ch. \<lparr>su_id = 5, su_kind = EventDelivery, su_channel = ch, su_channelClosed = False, su_unsubscribed = False\<rparr>"
  let ?c0 = "answered ''session.subscribeEvents'' subscribed_reply"
  let ?q = "?c0\<lparr>cl_queued := (\<lambda>_. [])(5 := [''first''])\<rparr>"
  let ?c1 = "add_client_subscription 5 EventDelivery 1 ?q"
  let ?r = "?c1\<lparr>cl_routing := Some (1, ''second'')\<rparr>"
  let ?d = "on_handle (deliver ''second'') 1 (?r\<lparr>cl_routing := None\<rparr>)"
  let ?c2 = "on_handle (deliver ''first'') 1 (?d\<lparr>cl_delivering := (cl_delivering ?d)(1 := [])\<rparr>)"
  have runs: "client_runs ?env ?c0" by (rule runs_answered) (simp_all add: subscribed_reply_def)
  have q: "routeNotification ?env ''session.event'' ''first'' ?c0 = ?q"
    by (simp add: routeNotification_def queue_notification_def answered_def new_client_def)
  have r: "routeNotification ?env ''session.event'' ''second'' ?c1 = ?r"
    by (simp add: routeNotification_def add_client_subscription_def)
  have s1: "client_step ?env ?c0 ?q"
    using client_step.notification_read [of ?c0 "event ''first''" ?env] q
    by (simp add: answered_def new_client_def event_def)
  have "client_step ?env ?q ?c1"
    by (rule client_step.subscribed [of _ 1 _ subscribed_reply])
      (auto simp: answered_def new_client_def subscribed_reply_def subscribe_kind_def)
  then have s2: "(client_step ?env)\<^sup>*\<^sup>* ?q ?c1" by (rule r_into_rtranclp)
  have s3: "client_step ?env ?c1 ?r"
    using client_step.notification_read [of ?c1 "event ''second''" ?env] r
    by (simp add: answered_def new_client_def event_def add_client_subscription_def)
  have "client_step ?env ?r ?d" by (rule client_step.notification_delivered) simp
  moreover have "client_step ?env ?d ?c2"
    by (rule client_step.queued_delivered) (simp add: on_handle_def add_client_subscription_def)
  ultimately have s4: "(client_step ?env)\<^sup>*\<^sup>* ?r ?c2" by (meson converse_rtranclp_into_rtranclp r_into_rtranclp)
  have "cl_handles ?c2 1 = Some (?s [''second'', ''first''])"
    by (simp add: on_handle_def add_client_subscription_def deliver_def deliverFunc_def eventBuffer_def)
  then show ?thesis
    by (intro exI [of _ ?c0] exI [of _ ?c1] exI [of _ ?c2] exI [of _ "?s [''second'', ''first'']"] conjI)
      (simp_all only: q r runs s1 s2 s3 s4, simp_all)
qed

definition ended :: "client \<Rightarrow> bool" where
  "ended c \<longleftrightarrow> cl_failure c \<noteq> None \<and> \<not> cl_reading c \<and> cl_routing c = None \<and> cl_finishing c = {} \<and>
     cl_queued c = (\<lambda>_. []) \<and> cl_delivering c = (\<lambda>_. []) \<and>
     (\<forall>i a. cl_calls c i = Some a \<longrightarrow> (\<exists>r. ca_phase a = Returned r)) \<and>
     (\<forall>h s. cl_handles c h = Some s \<longrightarrow> su_channelClosed s = su_unsubscribed s \<and> su_channel s = [])"

lemma ended_phase: "ended c \<Longrightarrow> cl_calls c i = Some a \<Longrightarrow> \<exists>r. ca_phase a = Returned r"
  by (simp add: ended_def)

lemma step_ended: "client_step envelope c c' \<Longrightarrow> ended c \<Longrightarrow> ended c'"
proof (induction rule: client_step.induct)
  case (subscribed c k a m i kind)
  then show ?case by (auto simp: ended_def add_client_subscription_def fun_eq_iff)
next
  case (consumed c h s x xs)
  then show ?case by (auto simp: ended_def on_handle_def split: if_splits)
next
  case (closed c h s s')
  then show ?case by (auto simp: ended_def begin_close_def split: if_splits)
next
  case (reply_sent c before i r after a)
  then show ?case by (auto simp: ended_def split: if_splits)
next
  case (request_written c i a)
  then show ?case using ended_phase by fastforce
next
  case (write_fails c i a)
  then show ?case using ended_phase by fastforce
next
  case (write_failed c i a ids)
  then show ?case using ended_phase by fastforce
next
  case (cancelled c i a)
  then show ?case using ended_phase by fastforce
next
  case (reply_received c i a r rs)
  then show ?case using ended_phase by fastforce
qed (auto simp: ended_def begin_call_def split: if_splits)

text \<open>
  A subscription that is registered after the connection has failed is not finished: once every other
  goroutine is done its channel stays open until its owner closes it, and it receives nothing.
\<close>

theorem client_late_subscription_open:
  "\<exists>c s. client_runs (\<lambda>_. Some 5) c \<and> cl_failure c \<noteq> None \<and> cl_handles c 1 = Some s \<and> \<not> su_channelClosed s \<and>
     {s'. \<exists>c'. (client_step (\<lambda>_. Some 5))\<^sup>*\<^sup>* c c' \<and> cl_handles c' 1 = Some s'} \<subseteq>
       {s'. su_channelClosed s' = su_unsubscribed s' \<and> su_channel s' = []}"
proof -
  let ?env = "\<lambda>_ :: json. Some (5 :: nat)"
  let ?start = "answered ''session.subscribeEvents'' subscribed_reply"
  let ?f = "begin_fail (ReadingResponse ''EOF'') [] (?start\<lparr>cl_reading := False\<rparr>)"
  let ?c = "add_client_subscription 5 EventDelivery 1 ?f"
  have c0: "client_runs ?env ?start" by (rule runs_answered) (simp_all add: subscribed_reply_def)
  have f: "client_step ?env ?start ?f" by (rule client_step.reading_fails) (simp_all add: answered_def new_client_def)
  have s: "client_step ?env ?f ?c"
    by (rule client_step.subscribed [of _ 1 _ subscribed_reply])
      (auto simp: answered_def new_client_def subscribed_reply_def subscribe_kind_def begin_fail_def)
  have c: "client_runs ?env ?c" by (rule client_runs.step [OF client_runs.step [OF c0 f] s])
  have e: "ended ?c"
    by (auto simp: ended_def add_client_subscription_def begin_fail_def answered_def new_client_def fun_eq_iff)
  have "ended c'" if "(client_step ?env)\<^sup>*\<^sup>* ?c c'" for c'
    using that e by (induction rule: rtranclp_induct) (simp_all add: step_ended)
  then have "{s'. \<exists>c'. (client_step ?env)\<^sup>*\<^sup>* ?c c' \<and> cl_handles c' 1 = Some s'} \<subseteq>
       {s'. su_channelClosed s' = su_unsubscribed s' \<and> su_channel s' = []}"
    by (auto simp: ended_def)
  moreover have "\<exists>s. cl_handles ?c 1 = Some s \<and> \<not> su_channelClosed s" by (simp add: add_client_subscription_def)
  moreover have "cl_failure ?c \<noteq> None" using e by (simp add: ended_def)
  ultimately show ?thesis using c by blast
qed

text \<open>
  The queue of a subscription that is not registered yet holds 64 events; the next one is dropped without
  closing anything, so the subscription's events have a gap.
\<close>

lemma queue_drops_silently:
  "length (cl_queued c i) = 64 \<Longrightarrow> cl_subscriptions c i = None \<Longrightarrow>
     routeNotification (\<lambda>_. Some i) ''session.event'' params c = c"
  by (simp add: routeNotification_def queue_notification_def)

end
