(* ===== verification/Sdk_Requests.thy ===== *)
theory Sdk_Requests
  imports Driver_Requests Matchers
begin

text \<open>
  What the Go client puts into its requests (\<open>sdk/go/connection.go\<close>, \<open>session.go\<close>, \<open>matcher.go\<close>): durations,
  connection parameters, session and wait options and matchers, and what the driver makes of them.
  A map of JSON parameters is a record of its entries; durations are nanoseconds.
\<close>

datatype sdk_error =
    NotPositive
  | AddressRequired
  | UsernameRequired
  | CredentialRequired
  | OneVerificationOption
  | UnsupportedProfile string
  | SizeNotPositive
  | AnswerbackOverlong
  | AnswerbackUnprintable
  | OptionRequired
  | MatcherMissing
  | StablePeriodDoesNotApply

subsection \<open>Strings on the wire\<close>

text \<open>
  What a Go string arrives as after \<open>encoding/json\<close> wrote and read it: \<open>Marshal\<close> writes the replacement
  character for every byte that is not part of valid UTF-8, and every other character decodes to itself.
\<close>

fun json_bytes :: "nat list \<Rightarrow> nat list" where
  "json_bytes [] = []"
| "json_bytes (b # bs) =
     (case utf8_decode (b # bs) of
        (r, w) \<Rightarrow>
          (if r = rune_error \<and> w = 1 then utf8_encode rune_error else b # take (w - 1) bs) @ json_bytes (drop (w - 1) bs))"

declare json_bytes.simps(2) [simp del]

definition json_string :: "string \<Rightarrow> string" where
  "json_string s = map char_of (json_bytes (map of_char s))"

definition utf8_string :: "string \<Rightarrow> bool" where
  "utf8_string s \<longleftrightarrow> valid_utf8 (map of_char s)"

lemma json_bytes_char:
  assumes "scalar_value r"
  shows "json_bytes (utf8_encode r @ bs) = utf8_encode r @ json_bytes bs"
proof -
  obtain b rest where b: "utf8_encode r = b # rest" by (cases "utf8_encode r") auto
  have d: "utf8_decode (b # rest @ bs) = (r, Suc (length rest))"
    using utf8_encode_decode [OF assms, of bs] by (simp add: b)
  have "\<not> (r = rune_error \<and> Suc (length rest) = 1)"
    using b by (auto simp: utf8_encode_def encode_scalar_def rune_error_def scalar_value_def)
  then show ?thesis unfolding b append_Cons json_bytes.simps(2) d prod.case by auto
qed

lemma json_string_utf8:
  assumes "utf8_string s"
  shows "json_string s = s"
proof -
  obtain rs where rs: "\<forall>r \<in> set rs. scalar_value r" "map of_char s = concat (map utf8_encode rs)"
    using assms by (auto simp: utf8_string_def valid_utf8_def)
  have "json_bytes (concat (map utf8_encode rs)) = concat (map utf8_encode rs)"
    using rs(1) by (induction rs) (simp_all add: json_bytes_char)
  then have "json_bytes (map of_char s) = map of_char s" by (simp only: rs(2))
  then show ?thesis by (simp add: json_string_def comp_def)
qed

lemma utf8_string_ascii:
  assumes "\<forall>c \<in> set s. (of_char c :: nat) < 0x80"
  shows "utf8_string s"
proof -
  have "utf8_encode (int n) = [n]" "scalar_value (int n)" if "n < 0x80" for n
    using that by (simp_all add: utf8_encode_def scalar_value_def encode_scalar_def)
  then have "\<forall>r \<in> set (map (\<lambda>c. int (of_char c)) s). scalar_value r"
    "map of_char s = concat (map utf8_encode (map (\<lambda>c. int (of_char c)) s))"
    using assms by (auto, induction s) auto
  then show ?thesis unfolding utf8_string_def valid_utf8_def by blast
qed

lemma json_string_empty [simp]: "json_string s = [] \<longleftrightarrow> s = []"
proof (cases s)
  case (Cons c cs)
  then show ?thesis by (simp add: json_string_def json_bytes.simps(2) split: prod.split)
qed (simp add: json_string_def)

text \<open>An invalid byte does not arrive: typing the byte FF sends the three bytes of the replacement character.\<close>

lemma invalid_byte_replaced: "json_string [CHR 0xFF] = [CHR 0xEF, CHR 0xBF, CHR 0xBD]"
  by (simp add: json_string_def json_bytes.simps(2) utf8_decode.simps(2) accept_range_def utf8_encode_def
      scalar_value_def encode_scalar_def rune_error_def char_of_def bit_0)

subsection \<open>Durations\<close>

definition positiveMilliseconds :: "int \<Rightarrow> sdk_error + int" where
  "positiveMilliseconds d =
     (if d \<le> 0 then Inl NotPositive
      else Inr (d div 1000000 + (if d mod 1000000 \<noteq> 0 then 1 else 0)))"

text \<open>The second result of \<open>positiveMilliseconds\<close> is dropped by the waits.\<close>

definition milliseconds_or_zero :: "int \<Rightarrow> int" where
  "milliseconds_or_zero d = (case positiveMilliseconds d of Inl _ \<Rightarrow> 0 | Inr ms \<Rightarrow> ms)"

definition maxDuration :: int where "maxDuration = 2 ^ 63 - 1"

definition responseGrace :: int where "responseGrace = 1000000000"

text \<open>The timeout \<open>driverOperationContext\<close> sets, and that of \<open>operationContext\<close>.\<close>

definition driverOperationContext :: "int \<Rightarrow> int" where
  "driverOperationContext timeout =
     (if timeout \<le> maxDuration - responseGrace then timeout + responseGrace else timeout)"

definition operationContext :: "int \<Rightarrow> int" where
  "operationContext timeout = timeout"

subsection \<open>Connections\<close>

record telnet_config =
  tc_address :: string
  tc_timeout :: int

record ssh_config =
  sc_address :: string
  sc_username :: string
  sc_password :: string
  sc_privateKey :: string
  sc_passphrase :: string
  sc_knownHosts :: string
  sc_fingerprint :: string
  sc_insecure :: bool
  sc_timeout :: int

datatype connection_params =
    TelnetParams string int
  | SSHParams string string string string string string string bool int

definition telnet_driverParams :: "int \<Rightarrow> telnet_config \<Rightarrow> sdk_error + connection_params \<times> int" where
  "telnet_driverParams defaultTimeout config =
     (if tc_address config = [] then Inl AddressRequired
      else let timeout = (if tc_timeout config = 0 then defaultTimeout else tc_timeout config)
           in case positiveMilliseconds timeout of
                Inl e \<Rightarrow> Inl e
              | Inr ms \<Rightarrow> Inr (TelnetParams (tc_address config) ms, timeout))"

definition ssh_driverParams :: "int \<Rightarrow> ssh_config \<Rightarrow> sdk_error + connection_params \<times> int" where
  "ssh_driverParams defaultTimeout config =
     (if sc_address config = [] then Inl AddressRequired
      else if sc_username config = [] then Inl UsernameRequired
      else if sc_password config = [] \<and> sc_privateKey config = [] then Inl CredentialRequired
      else if (if sc_knownHosts config \<noteq> [] then 1 else 0) + (if sc_fingerprint config \<noteq> [] then 1 else 0) +
              (if sc_insecure config then 1 else 0) \<noteq> (1 :: nat)
      then Inl OneVerificationOption
      else let timeout = (if sc_timeout config = 0 then defaultTimeout else sc_timeout config)
           in case positiveMilliseconds timeout of
                Inl e \<Rightarrow> Inl e
              | Inr ms \<Rightarrow> Inr (SSHParams (sc_address config) (sc_username config) (sc_password config)
                                 (sc_privateKey config) (sc_passphrase config) (sc_knownHosts config)
                                 (sc_fingerprint config) (sc_insecure config) ms, timeout))"

subsection \<open>Session options\<close>

record session_config =
  sf_terminal :: string
  sf_width :: int
  sf_height :: int
  sf_answerback :: string

datatype session_option = WithTerminal string | WithSize int int | WithAnswerback string | NilOption

definition apply_session_option :: "session_option \<Rightarrow> session_config \<Rightarrow> sdk_error + session_config" where
  "apply_session_option opt config =
     (case opt of
        WithTerminal profile \<Rightarrow>
          (if profile \<noteq> ''vt220'' \<and> profile \<noteq> ''xterm-256color'' then Inl (UnsupportedProfile profile)
           else Inr (config\<lparr>sf_terminal := profile\<rparr>))
      | WithSize width height \<Rightarrow>
          (if width \<le> 0 \<or> height \<le> 0 then Inl SizeNotPositive
           else Inr (config\<lparr>sf_width := width, sf_height := height\<rparr>))
      | WithAnswerback answerback \<Rightarrow>
          (if length answerback > 20 then Inl AnswerbackOverlong
           else if list_ex (\<lambda>c. (of_char c :: nat) < 0x20 \<or> (of_char c :: nat) > 0x7E) answerback
           then Inl AnswerbackUnprintable
           else Inr (config\<lparr>sf_answerback := answerback\<rparr>))
      | NilOption \<Rightarrow> Inl OptionRequired)"

text \<open>A loop over options that returns the first error.\<close>

primrec apply_options :: "('o \<Rightarrow> 'c \<Rightarrow> sdk_error + 'c) \<Rightarrow> 'o list \<Rightarrow> 'c \<Rightarrow> sdk_error + 'c" where
  "apply_options f [] config = Inr config"
| "apply_options f (x # xs) config =
     (case f x config of Inl e \<Rightarrow> Inl e | Inr config' \<Rightarrow> apply_options f xs config')"

definition default_session :: session_config where
  "default_session = \<lparr>sf_terminal = ''vt220'', sf_width = 80, sf_height = 24, sf_answerback = []\<rparr>"

text \<open>The parameters of \<open>OpenSession\<close> on a connection.\<close>

definition open_request :: "nat \<Rightarrow> session_option list \<Rightarrow> sdk_error + open_params" where
  "open_request connection opts =
     (case apply_options apply_session_option opts default_session of
        Inl e \<Rightarrow> Inl e
      | Inr config \<Rightarrow>
          Inr \<lparr>op_connectionID = connection, op_profile = sf_terminal config, op_width = sf_width config,
               op_height = sf_height config, op_answer = sf_answerback config\<rparr>)"

subsection \<open>Matchers\<close>

text \<open>
  The matchers a program builds; a nil child is \<open>None\<close>. \<open>driverMatcher\<close> is the struct the constructors
  build, \<open>wire\<close> what its JSON form with \<open>omitempty\<close> decodes to in the driver: an empty list is left out, a text
  arrives as \<open>json_string\<close> of it.
\<close>

datatype sdk_matcher =
    SdkContains string
  | SdkLineEquals int string
  | SdkCursorAt int int
  | SdkAll "sdk_matcher option list"
  | SdkAny "sdk_matcher option list"
  | SdkNot "sdk_matcher option"

definition empty_spec :: MatcherSpec where
  "empty_spec = MatcherSpec None None None None None None"

fun driverMatcher :: "sdk_matcher \<Rightarrow> MatcherSpec" where
  "driverMatcher (SdkContains t) = MatcherSpec (Some t) None None None None None"
| "driverMatcher (SdkLineEquals r t) = MatcherSpec None (Some \<lparr>lm_row = r, lm_text = t\<rparr>) None None None None"
| "driverMatcher (SdkCursorAt c r) = MatcherSpec None None (Some \<lparr>cm_column = c, cm_row = r\<rparr>) None None None"
| "driverMatcher (SdkAll ms) =
     MatcherSpec None None None (Some (map (\<lambda>x. case x of None \<Rightarrow> empty_spec | Some m \<Rightarrow> driverMatcher m) ms)) None None"
| "driverMatcher (SdkAny ms) =
     MatcherSpec None None None None (Some (map (\<lambda>x. case x of None \<Rightarrow> empty_spec | Some m \<Rightarrow> driverMatcher m) ms)) None"
| "driverMatcher (SdkNot None) = empty_spec"
| "driverMatcher (SdkNot (Some m)) = MatcherSpec None None None None None (Some (driverMatcher m))"

definition nonempty :: "'a list option \<Rightarrow> 'a list option" where
  "nonempty xs = (if xs = Some [] then None else xs)"

fun wire :: "MatcherSpec \<Rightarrow> MatcherSpec" where
  "wire (MatcherSpec co li cu al an no) =
     MatcherSpec (map_option json_string co) (map_option (\<lambda>l. l\<lparr>lm_text := json_string (lm_text l)\<rparr>) li) cu
       (nonempty (map_option (map wire) al)) (nonempty (map_option (map wire) an)) (map_option wire no)"

subsection \<open>Waits\<close>

record wait_config =
  wc_timeout :: int
  wc_stableFor :: int

datatype wait_option = WaitTimeout int | StableFor int | NilWaitOption

definition apply_wait_option :: "wait_option \<Rightarrow> wait_config \<Rightarrow> sdk_error + wait_config" where
  "apply_wait_option opt config =
     (case opt of
        WaitTimeout d \<Rightarrow> (if d \<le> 0 then Inl NotPositive else Inr (config\<lparr>wc_timeout := d\<rparr>))
      | StableFor d \<Rightarrow> (if d \<le> 0 then Inl NotPositive else Inr (config\<lparr>wc_stableFor := d\<rparr>))
      | NilWaitOption \<Rightarrow> Inl OptionRequired)"

text \<open>The parameters of \<open>WaitFor\<close> and the timeout of its context.\<close>

definition wait_request ::
  "int \<Rightarrow> nat \<Rightarrow> sdk_matcher option \<Rightarrow> wait_option list \<Rightarrow> sdk_error + wait_params \<times> int" where
  "wait_request defaultTimeout session matcher opts =
     (case matcher of
        None \<Rightarrow> Inl MatcherMissing
      | Some m \<Rightarrow>
          (case apply_options apply_wait_option opts \<lparr>wc_timeout = defaultTimeout, wc_stableFor = 0\<rparr> of
             Inl e \<Rightarrow> Inl e
           | Inr config \<Rightarrow>
               Inr (\<lparr>wp_sessionID = session, wp_matcher = wire (driverMatcher m),
                     wp_timeoutMilliseconds = milliseconds_or_zero (wc_timeout config),
                     wp_stableMilliseconds =
                       (if wc_stableFor config > 0 then milliseconds_or_zero (wc_stableFor config) else 0)\<rparr>,
                    driverOperationContext (wc_timeout config))))"

definition wait_for_text_request where
  "wait_for_text_request defaultTimeout session t opts = wait_request defaultTimeout session (Some (SdkContains t)) opts"

definition wait_for_text_gone_request where
  "wait_for_text_gone_request defaultTimeout session t opts =
     wait_request defaultTimeout session (Some (SdkNot (Some (SdkContains t)))) opts"

record idle_config =
  ic_timeout :: int
  ic_quiet :: int

datatype idle_option = IdleTimeout int | IdleFor int | NilIdleOption

definition apply_idle_option :: "idle_option \<Rightarrow> idle_config \<Rightarrow> sdk_error + idle_config" where
  "apply_idle_option opt config =
     (case opt of
        IdleTimeout d \<Rightarrow> (if d \<le> 0 then Inl NotPositive else Inr (config\<lparr>ic_timeout := d\<rparr>))
      | IdleFor d \<Rightarrow> (if d \<le> 0 then Inl NotPositive else Inr (config\<lparr>ic_quiet := d\<rparr>))
      | NilIdleOption \<Rightarrow> Inl OptionRequired)"

definition defaultIdlePeriod :: int where "defaultIdlePeriod = 100000000"

text \<open>The parameters of \<open>WaitForIdle\<close> (session, timeout and quiet period) and of \<open>WaitForEnd\<close>.\<close>

definition idle_request :: "int \<Rightarrow> nat \<Rightarrow> idle_option list \<Rightarrow> sdk_error + (nat \<times> int \<times> int) \<times> int" where
  "idle_request defaultTimeout session opts =
     (case apply_options apply_idle_option opts \<lparr>ic_timeout = defaultTimeout, ic_quiet = defaultIdlePeriod\<rparr> of
        Inl e \<Rightarrow> Inl e
      | Inr config \<Rightarrow>
          Inr ((session, milliseconds_or_zero (ic_timeout config), milliseconds_or_zero (ic_quiet config)),
               driverOperationContext (ic_timeout config)))"

definition end_request :: "int \<Rightarrow> nat \<Rightarrow> wait_option list \<Rightarrow> sdk_error + (nat \<times> int) \<times> int" where
  "end_request defaultTimeout session opts =
     (case apply_options apply_wait_option opts \<lparr>wc_timeout = defaultTimeout, wc_stableFor = 0\<rparr> of
        Inl e \<Rightarrow> Inl e
      | Inr config \<Rightarrow>
          if wc_stableFor config > 0 then Inl StablePeriodDoesNotApply
          else Inr ((session, milliseconds_or_zero (wc_timeout config)), driverOperationContext (wc_timeout config)))"

text \<open>Input as it arrives: \<open>Type\<close> sends text, \<open>Send\<close> the base64 encoding of bytes, which is ASCII.\<close>

definition type_request :: "nat \<Rightarrow> string \<Rightarrow> nat \<times> string option \<times> string option" where
  "type_request session t = (session, Some (json_string t), None)"

definition send_request :: "nat \<Rightarrow> byte list \<Rightarrow> nat \<times> string option \<times> string option" where
  "send_request session data = (session, None, Some (encode64 (map unat data)))"

subsection \<open>What the driver makes of the matchers\<close>

text \<open>The meaning of a matcher, and its nesting; a nil or childless combinator has none.\<close>

fun holds :: "sdk_matcher \<Rightarrow> screen \<Rightarrow> bool" where
  "holds (SdkContains t) s \<longleftrightarrow> (\<exists>before after. Text s = before @ t @ after)"
| "holds (SdkLineEquals r t) s \<longleftrightarrow> 0 \<le> r \<and> r < scr_height s \<and> Line s r = t"
| "holds (SdkCursorAt c r) s \<longleftrightarrow> cur_column (scr_cursor s) = c \<and> cur_row (scr_cursor s) = r"
| "holds (SdkAll ms) s \<longleftrightarrow> (\<forall>x \<in> set ms. \<forall>m \<in> set_option x. holds m s)"
| "holds (SdkAny ms) s \<longleftrightarrow> (\<exists>x \<in> set ms. \<exists>m \<in> set_option x. holds m s)"
| "holds (SdkNot x) s \<longleftrightarrow> (\<forall>m \<in> set_option x. \<not> holds m s)"

fun proper :: "sdk_matcher \<Rightarrow> bool" where
  "proper (SdkAll ms) \<longleftrightarrow> ms \<noteq> [] \<and> (\<forall>x \<in> set ms. x \<noteq> None \<and> (\<forall>m \<in> set_option x. proper m))"
| "proper (SdkAny ms) \<longleftrightarrow> ms \<noteq> [] \<and> (\<forall>x \<in> set ms. x \<noteq> None \<and> (\<forall>m \<in> set_option x. proper m))"
| "proper (SdkNot x) \<longleftrightarrow> x \<noteq> None \<and> (\<forall>m \<in> set_option x. proper m)"
| "proper m \<longleftrightarrow> True"

fun nesting :: "sdk_matcher \<Rightarrow> nat" where
  "nesting (SdkAll ms) = Suc (Max (insert 0 ((\<lambda>x. case x of None \<Rightarrow> 0 | Some m \<Rightarrow> nesting m) ` set ms)))"
| "nesting (SdkAny ms) = Suc (Max (insert 0 ((\<lambda>x. case x of None \<Rightarrow> 0 | Some m \<Rightarrow> nesting m) ` set ms)))"
| "nesting (SdkNot x) = Suc (case x of None \<Rightarrow> 0 | Some m \<Rightarrow> nesting m)"
| "nesting m = 0"

text \<open>The matcher with the texts that arrive, and the matchers whose texts arrive as they are.\<close>

fun arriving :: "sdk_matcher \<Rightarrow> sdk_matcher" where
  "arriving (SdkContains t) = SdkContains (json_string t)"
| "arriving (SdkLineEquals r t) = SdkLineEquals r (json_string t)"
| "arriving (SdkCursorAt c r) = SdkCursorAt c r"
| "arriving (SdkAll ms) = SdkAll (map (map_option arriving) ms)"
| "arriving (SdkAny ms) = SdkAny (map (map_option arriving) ms)"
| "arriving (SdkNot x) = SdkNot (map_option arriving x)"

fun utf8_texts :: "sdk_matcher \<Rightarrow> bool" where
  "utf8_texts (SdkContains t) \<longleftrightarrow> utf8_string t"
| "utf8_texts (SdkLineEquals r t) \<longleftrightarrow> utf8_string t"
| "utf8_texts (SdkCursorAt c r) \<longleftrightarrow> True"
| "utf8_texts (SdkAll ms) \<longleftrightarrow> (\<forall>x \<in> set ms. \<forall>m \<in> set_option x. utf8_texts m)"
| "utf8_texts (SdkAny ms) \<longleftrightarrow> (\<forall>x \<in> set ms. \<forall>m \<in> set_option x. utf8_texts m)"
| "utf8_texts (SdkNot x) \<longleftrightarrow> (\<forall>m \<in> set_option x. utf8_texts m)"

lemma arriving_utf8: "utf8_texts m \<Longrightarrow> arriving m = m"
proof (induction m)
  case (SdkAll ms)
  have "map_option arriving x = x" if "x \<in> set ms" for x using SdkAll that by (cases x) auto
  then show ?case by (simp add: map_idI)
next
  case (SdkAny ms)
  have "map_option arriving x = x" if "x \<in> set ms" for x using SdkAny that by (cases x) auto
  then show ?case by (simp add: map_idI)
next
  case (SdkNot x)
  then show ?case by (cases x) auto
qed (simp_all add: json_string_utf8)

definition child_spec :: "sdk_matcher option \<Rightarrow> MatcherSpec" where
  "child_spec x = wire (case x of None \<Rightarrow> empty_spec | Some m \<Rightarrow> driverMatcher m)"

lemma child_spec_None [simp]: "child_spec None = empty_spec"
  by (simp add: child_spec_def empty_spec_def nonempty_def)

lemma child_spec_Some [simp]: "child_spec (Some m) = wire (driverMatcher m)"
  by (simp add: child_spec_def)

lemma wire_empty [simp]: "wire empty_spec = empty_spec"
  by (simp add: empty_spec_def nonempty_def)

lemma wire_shapes [simp]:
  "wire (driverMatcher (SdkAll ms)) =
     MatcherSpec None None None (if ms = [] then None else Some (map child_spec ms)) None None"
  "wire (driverMatcher (SdkAny ms)) =
     MatcherSpec None None None None (if ms = [] then None else Some (map child_spec ms)) None"
  "wire (driverMatcher (SdkNot (Some m))) = MatcherSpec None None None None None (Some (wire (driverMatcher m)))"
  "wire (driverMatcher (SdkNot None)) = empty_spec"
  "wire (driverMatcher (SdkContains t)) = MatcherSpec (Some (json_string t)) None None None None None"
  "wire (driverMatcher (SdkLineEquals r t)) = MatcherSpec None (Some \<lparr>lm_row = r, lm_text = json_string t\<rparr>) None None None None"
  "wire (driverMatcher (SdkCursorAt c r)) = MatcherSpec None None (Some \<lparr>cm_column = c, cm_row = r\<rparr>) None None None"
  by (auto simp: nonempty_def child_spec_def comp_def)

lemma empty_not_ok [simp]: "\<not> spec_ok empty_spec"
  by (simp add: empty_spec_def spec_ok.simps fields_set_def)

declare driverMatcher.simps [simp del] wire.simps [simp del]

lemma proper_ok: "spec_ok (wire (driverMatcher m)) \<longleftrightarrow> proper m"
proof (induction m)
  case (SdkAll ms)
  have "spec_ok (child_spec x) \<longleftrightarrow> x \<noteq> None \<and> (\<forall>m \<in> set_option x. proper m)" if "x \<in> set ms" for x
    using SdkAll that by (cases x) auto
  then show ?case by (auto simp: spec_ok.simps fields_set_def)
next
  case (SdkAny ms)
  have "spec_ok (child_spec x) \<longleftrightarrow> x \<noteq> None \<and> (\<forall>m \<in> set_option x. proper m)" if "x \<in> set ms" for x
    using SdkAny that by (cases x) auto
  then show ?case by (auto simp: spec_ok.simps fields_set_def)
next
  case (SdkNot x)
  then show ?case by (cases x) (auto simp: spec_ok.simps fields_set_def)
qed (simp_all add: spec_ok.simps fields_set_def)

lemma Max_insert_0:
  assumes "xs \<noteq> []" "\<And>x. x \<in> set xs \<Longrightarrow> f x = (g x :: nat)"
  shows "Max (f ` set xs) = Max (insert 0 (g ` set xs))"
proof -
  have "f ` set xs = g ` set xs" using assms(2) by auto
  then show ?thesis using assms(1) by (simp add: max_def)
qed

lemma proper_depth: "proper m \<Longrightarrow> spec_depth (wire (driverMatcher m)) = nesting m"
proof (induction m)
  case (SdkAll ms)
  have "spec_depth (child_spec x) = (case x of None \<Rightarrow> 0 | Some m \<Rightarrow> nesting m)" if "x \<in> set ms" for x
    using SdkAll that by (cases x) auto
  then show ?case using SdkAll.prems Max_insert_0 [of ms "\<lambda>x. spec_depth (child_spec x)"]
    by (simp add: spec_depth.simps image_image)
next
  case (SdkAny ms)
  have "spec_depth (child_spec x) = (case x of None \<Rightarrow> 0 | Some m \<Rightarrow> nesting m)" if "x \<in> set ms" for x
    using SdkAny that by (cases x) auto
  then show ?case using SdkAny.prems Max_insert_0 [of ms "\<lambda>x. spec_depth (child_spec x)"]
    by (simp add: spec_depth.simps image_image)
next
  case (SdkNot x)
  then show ?case by (cases x) (auto simp: spec_depth.simps)
qed (simp_all add: spec_depth.simps)

lemma proper_denotes: "proper m \<Longrightarrow> denotes (wire (driverMatcher m)) s \<longleftrightarrow> holds (arriving m) s"
proof (induction m)
  case (SdkAll ms)
  have "denotes (child_spec x) s \<longleftrightarrow> (\<forall>m \<in> set_option x. holds (arriving m) s)" if "x \<in> set ms" for x
    using SdkAll that by (cases x) auto
  then show ?case using SdkAll.prems by (auto simp: denotes.simps option.set_map)
next
  case (SdkAny ms)
  have "denotes (child_spec x) s \<longleftrightarrow> (\<exists>m \<in> set_option x. holds (arriving m) s)" if "x \<in> set ms" for x
    using SdkAny that by (cases x) auto
  then show ?case using SdkAny.prems by (auto simp: denotes.simps option.set_map)
next
  case (SdkNot x)
  then show ?case by (cases x) (auto simp: denotes.simps)
qed (simp_all add: denotes.simps)

lemma built_matcher:
  assumes "proper m" "nesting m \<le> 64"
  shows "\<exists>mm. ScreenMatcher q (wire (driverMatcher m)) = Inr mm \<and> (\<forall>s. match mm s = holds (arriving m) s)"
  using build_iff(1) [where q = q and d = 0 and s = "wire (driverMatcher m)"] proper_ok [of m] proper_depth [OF assms(1)]
    proper_denotes [OF assms(1)] assms
  by (auto simp: ScreenMatcher_def buildable_def implements_def maximumMatcherSpecDepth_def split: sum.splits)

subsection \<open>What the driver makes of the durations\<close>

lemma rounded:
  assumes "0 < d" "d \<le> 9223372036854000000"
  shows "\<exists>ms d'. positiveMilliseconds d = Inr ms \<and> 0 < ms \<and> milliseconds ms zero = Inr d' \<and> d \<le> d' \<and> d' < d + 1000000"
proof -
  define q where "q = d div 1000000"
  define r where "r = d mod 1000000"
  define ms where "ms = q + (if r \<noteq> 0 then 1 else 0)"
  have d: "d = q * 1000000 + r" "0 \<le> r" "r < 1000000" by (simp_all add: q_def r_def)
  have ms: "positiveMilliseconds d = Inr ms" using assms(1) by (simp add: positiveMilliseconds_def ms_def q_def r_def)
  have "0 < ms" "ms \<le> 9223372036854" "d \<le> ms * 1000000" "ms * 1000000 < d + 1000000"
    using assms d by (auto simp: ms_def)
  then show ?thesis using ms by (auto simp: milliseconds_def)
qed

lemma stable_never_negative:
  "apply_options apply_wait_option opts config = Inr config' \<Longrightarrow> 0 \<le> wc_stableFor config \<Longrightarrow> 0 \<le> wc_stableFor config'"
proof (induction opts arbitrary: config)
  case (Cons opt opts)
  then obtain c where c: "apply_wait_option opt config = Inr c" "apply_options apply_wait_option opts c = Inr config'"
    by (auto split: sum.splits)
  have "0 \<le> wc_stableFor c" using c(1) Cons.prems(2)
    by (auto simp: apply_wait_option_def split: wait_option.splits if_splits)
  then show ?case by (rule Cons.IH [OF c(2)])
qed simp

definition longest_wait :: int where "longest_wait = maxDuration - responseGrace"

text \<open>
  C29: A wait of the Go client with a matcher that has children where it needs them and nests at most 64 deep,
  a positive timeout and a stable period of at most \<open>longest_wait\<close> (the maximal duration less one second)
  is accepted by the driver for a registered session as the wait it means: for a matcher that holds on
  exactly the screens the client's matcher, with its texts as they arrive, holds on, which is the
  client's matcher itself when its texts are valid UTF-8; with a timeout and a stable period that are the
  client's rounded up to milliseconds; and the client's own context outlasts the driver's timeout.
\<close>

theorem sdk_wait_understood:
  assumes "wait_request defaultTimeout i (Some m) opts = Inr (p, limit)" "proper m" "nesting m \<le> 64"
    and "dr_sessions d i = Some r"
    and "apply_options apply_wait_option opts \<lparr>wc_timeout = defaultTimeout, wc_stableFor = 0\<rparr> = Inr config"
    and "0 < wc_timeout config" "wc_timeout config \<le> longest_wait" "wc_stableFor config \<le> longest_wait"
  shows "\<exists>mm timeout period. plan_wait quote (Params p) d =
       Inr (sr_session r, if wc_stableFor config > 0 then StableWait mm timeout period else PlainWait mm timeout) \<and>
     (\<forall>s. match mm s = holds (arriving m) s) \<and> (utf8_texts m \<longrightarrow> (\<forall>s. match mm s = holds m s)) \<and>
     wc_timeout config \<le> timeout \<and> timeout < wc_timeout config + 1000000 \<and> timeout < limit \<and>
     wc_stableFor config \<le> period \<and> period < wc_stableFor config + 1000000"
proof -
  have bound: "longest_wait \<le> 9223372036854000000" by (simp add: longest_wait_def maxDuration_def responseGrace_def)
  have stable: "0 \<le> wc_stableFor config" using stable_never_negative [OF assms(5)] by simp
  obtain mm where mm: "ScreenMatcher quote (wire (driverMatcher m)) = Inr mm" "\<forall>s. match mm s = holds (arriving m) s"
    using built_matcher [OF assms(2,3)] by blast
  obtain ms t where t: "positiveMilliseconds (wc_timeout config) = Inr ms" "0 < ms" "milliseconds ms False = Inr t"
      "wc_timeout config \<le> t" "t < wc_timeout config + 1000000"
    using rounded [OF assms(6), of False] assms(7) bound by auto
  obtain ss q where q: "(if wc_stableFor config > 0 then milliseconds_or_zero (wc_stableFor config) else 0) = ss" "0 \<le> ss"
      "(0 < ss) = (wc_stableFor config > 0)" "milliseconds ss True = Inr q" "wc_stableFor config \<le> q" "q < wc_stableFor config + 1000000"
  proof (cases "wc_stableFor config > 0")
    case True
    then show ?thesis using that rounded [OF True, of True] assms(8) bound by (auto simp: milliseconds_or_zero_def)
  next
    case False
    then show ?thesis using that [of 0 0] stable by (simp add: milliseconds_def)
  qed
  have p: "p = \<lparr>wp_sessionID = i, wp_matcher = wire (driverMatcher m), wp_timeoutMilliseconds = ms, wp_stableMilliseconds = ss\<rparr>"
      "limit = driverOperationContext (wc_timeout config)"
    using assms(1,5) q(1) t(1) by (simp_all add: wait_request_def milliseconds_or_zero_def)
  have "t < limit" using t(5) assms(7)
    by (simp add: p(2) driverOperationContext_def longest_wait_def responseGrace_def)
  moreover have "plan_wait quote (Params p) d =
       Inr (sr_session r, if wc_stableFor config > 0 then StableWait mm t q else PlainWait mm t)"
    using q(2,3,4) t(2,3) mm(1) assms(4) by (simp add: p(1) plan_wait_def getSession_def checked_milliseconds_def)
  moreover have "\<forall>s. match mm s = holds m s" if "utf8_texts m" using mm(2) arriving_utf8 [OF that] by simp
  ultimately show ?thesis using mm(2) t(4,5) q(5,6) by blast
qed

theorem sdk_wait_understood_witness:
  "\<exists>p limit mm timeout period.
     wait_request 30000000000 1 (Some (SdkAll [Some (SdkContains ''ready''), Some (SdkNot (Some (SdkContains ''busy'')))]))
       [WaitTimeout 1500000, StableFor 1] = Inr (p, limit) \<and>
     plan_wait id (Params p) run_open = Inr (7, StableWait mm timeout period) \<and> timeout < limit"
proof -
  let ?m = "SdkAll [Some (SdkContains ''ready''), Some (SdkNot (Some (SdkContains ''busy'')))]"
  let ?opts = "[WaitTimeout 1500000, StableFor 1]"
  let ?config = "\<lparr>wc_timeout = 1500000, wc_stableFor = 1\<rparr>"
  have config: "apply_options apply_wait_option ?opts \<lparr>wc_timeout = 30000000000, wc_stableFor = 0\<rparr> = Inr ?config"
    by (simp add: apply_wait_option_def)
  then obtain p limit where p: "wait_request 30000000000 1 (Some ?m) ?opts = Inr (p, limit)"
    by (simp add: wait_request_def)
  have m: "proper ?m" "nesting ?m \<le> 64" by simp_all
  have d: "dr_sessions run_open 1 = Some example_record" by (simp add: run_open_def)
  show ?thesis
    using sdk_wait_understood [OF p m d config, of id] p
    by (auto simp: longest_wait_def maxDuration_def responseGrace_def example_record_def)
qed

text \<open>
  The longest durations: a Go duration near its maximum, which the client's \<open>driverOperationContext\<close>
  provides for, rounds up to milliseconds that the driver refuses.
\<close>

lemma longest_duration_refused:
  "positiveMilliseconds maxDuration = Inr 9223372036855 \<and> milliseconds 9223372036855 False = Inl ''value is too large''"
  by (simp add: positiveMilliseconds_def maxDuration_def milliseconds_def)

end
