(* ===== verification/Telnet_Connector.thy ===== *)
theory Telnet_Connector
  imports Telnet_Protocol
begin

text \<open>
  The Telnet connector (\<open>telnet/connector.go\<close>): one network connection with at most one session, and the
  conversation with which a session and the reference server open. Dialing is the parameter \<open>dial\<close>.
\<close>

datatype connector_error =
    AddressRequired
  | DialFailed string
  | ContextEndedBefore string
  | ConnectionIsClosed
  | SessionExists
  | DimensionsRequired
  | DimensionsBeyondNAWS
  | ClosingConnection

record connector =
  co_address :: string
  co_dial :: "string \<Rightarrow> string + conn"

text \<open>\<open>NewConnector\<close>: a nil \<open>DialContext\<close> becomes the network's dialer, the parameter \<open>dialer\<close>.\<close>

definition NewConnector ::
  "(string \<Rightarrow> string + conn) \<Rightarrow> string \<Rightarrow> (string \<Rightarrow> string + conn) option \<Rightarrow> connector_error + connector" where
  "NewConnector dialer address dial =
     (if address = [] then Inl AddressRequired
      else Inr \<lparr>co_address = address, co_dial = (case dial of None \<Rightarrow> dialer | Some d \<Rightarrow> d)\<rparr>)"

record connection =
  cn_conn :: conn
  cn_opened :: bool
  cn_closed :: bool

definition Connect :: "connector \<Rightarrow> connector_error + connection" where
  "Connect c =
     (case co_dial c (co_address c) of
        Inl e \<Rightarrow> Inl (DialFailed e)
      | Inr conn \<Rightarrow> Inr \<lparr>cn_conn = conn, cn_opened = False, cn_closed = False\<rparr>)"

text \<open>\<open>OpenSession\<close>; \<open>ended\<close> is the error of a context that is done. The stream owns the connection from then on.\<close>

definition OpenSession ::
  "string option \<Rightarrow> byte list \<Rightarrow> int \<Rightarrow> int \<Rightarrow> connection \<Rightarrow> (connector_error + stream) \<times> connection" where
  "OpenSession ended ttype width height c =
     (case ended of
        Some e \<Rightarrow> (Inl (ContextEndedBefore e), c)
      | None \<Rightarrow>
          if cn_closed c then (Inl ConnectionIsClosed, c)
          else if cn_opened c then (Inl SessionExists, c)
          else if width \<le> 0 \<or> height \<le> 0 then (Inl DimensionsRequired, c)
          else if width > 65535 \<or> height > 65535 then (Inl DimensionsBeyondNAWS, c)
          else (Inr (newStream (cn_conn c) ttype width height), c\<lparr>cn_opened := True\<rparr>))"

definition CloseConnection :: "connection \<Rightarrow> connector_error option \<times> connection" where
  "CloseConnection c =
     (if cn_closed c then (None, c)
      else (case conn_close (cn_conn c) of
              (e, conn) \<Rightarrow>
                (if e \<noteq> None \<and> e \<noteq> Some ErrClosed then Some ClosingConnection else None,
                 c\<lparr>cn_closed := True, cn_conn := conn\<rparr>)))"

datatype connection_call = CallOpen "string option" "byte list" int int | CallClose

fun run_call :: "connection_call \<Rightarrow> connection \<Rightarrow> stream option \<times> connection" where
  "run_call (CallOpen ended ttype width height) c =
     (case OpenSession ended ttype width height c of
        (Inl _, c') \<Rightarrow> (None, c') | (Inr s, c') \<Rightarrow> (Some s, c'))"
| "run_call CallClose c = (None, snd (CloseConnection c))"

text \<open>The streams a sequence of calls opens.\<close>

primrec run_calls :: "connection_call list \<Rightarrow> connection \<Rightarrow> stream list \<times> connection" where
  "run_calls [] c = ([], c)"
| "run_calls (x # xs) c =
     (case run_call x c of (s, c') \<Rightarrow> (case run_calls xs c' of (ss, c2) \<Rightarrow> ((case s of None \<Rightarrow> ss | Some s' \<Rightarrow> s' # ss), c2)))"

lemma no_more_sessions: "cn_opened c \<or> cn_closed c \<Longrightarrow> fst (run_calls xs c) = []"
proof (induction xs arbitrary: c)
  case (Cons x xs)
  have "fst (run_call x c) = None \<and> (cn_opened (snd (run_call x c)) \<or> cn_closed (snd (run_call x c)))"
    using Cons.prems
    by (cases x) (auto simp: OpenSession_def CloseConnection_def split: option.splits prod.splits)
  then show ?case using Cons.IH [of "snd (run_call x c)"] by (simp split: prod.splits) fastforce
qed simp

lemma opened_size:
  "run_call x c = (Some s, c') \<Longrightarrow> cn_opened c' \<and> 0 < st_width s \<and> st_width s \<le> 65535 \<and> 0 < st_height s \<and> st_height s \<le> 65535"
  by (cases x) (auto simp: OpenSession_def newStream_def split: option.splits if_splits)

text \<open>
  Whatever is asked of a Telnet connection, it opens at most one session, none after it is closed, and
  the session it opens has a size that fits the window size option.
\<close>

theorem telnet_single_session:
  "length (fst (run_calls xs c)) \<le> 1 \<and>
   set (fst (run_calls xs c)) \<subseteq> {s. 0 < st_width s \<and> st_width s \<le> 65535 \<and> 0 < st_height s \<and> st_height s \<le> 65535} \<and>
   fst (run_calls xs (snd (CloseConnection c))) = []"
proof -
  have "length (fst (run_calls xs c)) \<le> 1 \<and>
      set (fst (run_calls xs c)) \<subseteq> {s. 0 < st_width s \<and> st_width s \<le> 65535 \<and> 0 < st_height s \<and> st_height s \<le> 65535}"
  proof (induction xs arbitrary: c)
    case (Cons x xs)
    obtain s c' where x: "run_call x c = (s, c')" by fastforce
    then show ?case using Cons.IH [of c'] opened_size [of x c _ c'] no_more_sessions [of c' xs]
      by (cases s) (auto split: prod.splits)
  qed simp
  moreover have "cn_closed (snd (CloseConnection c))" by (auto simp: CloseConnection_def split: prod.splits)
  ultimately show ?thesis using no_more_sessions by blast
qed

subsection \<open>The opening conversation\<close>

definition opening_replies :: "int \<Rightarrow> int \<Rightarrow> byte list" where
  "opening_replies width height =
     [commandIAC, commandDO, optionEcho, commandIAC, commandDO, optionSuppressGoAhead,
      commandIAC, commandWILL, optionTerminalType, commandIAC, commandWILL, optionNegotiateWindow] @
     window_message width height"

lemma send_healthy:
  assumes "healthy (st_conn s)"
  shows "\<exists>c. send data s = (None, s\<lparr>st_conn := c\<rparr>) \<and> healthy c \<and> conn_sent c = conn_sent (st_conn s) @ data"
proof -
  have "fst (writeBytes data (st_conn s)) = None" "healthy (snd (writeBytes data (st_conn s)))"
    using writeBytes_healthy [OF assms] by auto
  then show ?thesis using writeBytes_all [of data "st_conn s"] by (auto simp: send_def split: prod.splits)
qed

text \<open>A request for an option that is not enabled yet, on a healthy connection.\<close>

lemma process_will:
  assumes "healthy (st_conn s)" "st_state s = stateData" "supportsRemote option" "option \<notin> st_remote s"
  shows "\<exists>c. process [commandIAC, commandWILL, option] s =
     (None, s\<lparr>st_negotiation := commandWILL, st_state := stateData, st_remote := insert option (st_remote s), st_conn := c\<rparr>) \<and>
     healthy c \<and> conn_sent c = conn_sent (st_conn s) @ [commandIAC, commandDO, option]"
proof -
  let ?s = "s\<lparr>st_negotiation := commandWILL, st_state := stateData, st_remote := insert option (st_remote s)\<rparr>"
  obtain c where c: "send [commandIAC, commandDO, option] ?s = (None, ?s\<lparr>st_conn := c\<rparr>)" "healthy c"
    "conn_sent c = conn_sent (st_conn ?s) @ [commandIAC, commandDO, option]"
    using send_healthy [of ?s] assms(1) by auto
  then show ?thesis using assms
    by (auto simp: process_byte_def is_negotiation_def negotiate_def sendCommand_def command_bytes)
qed

lemma process_do:
  assumes "healthy (st_conn s)" "st_state s = stateData" "supportsLocal option" "option \<notin> st_local s"
  shows "\<exists>c. process [commandIAC, commandDO, option] s =
     (None, s\<lparr>st_negotiation := commandDO, st_state := stateData, st_local := insert option (st_local s), st_conn := c\<rparr>) \<and>
     healthy c \<and> conn_sent c = conn_sent (st_conn s) @ [commandIAC, commandWILL, option] @
       (if option = optionNegotiateWindow then window_message (st_width s) (st_height s) else [])"
proof -
  let ?s = "s\<lparr>st_negotiation := commandDO, st_state := stateData, st_local := insert option (st_local s)\<rparr>"
  obtain c where c: "send [commandIAC, commandWILL, option] ?s = (None, ?s\<lparr>st_conn := c\<rparr>)" "healthy c"
    "conn_sent c = conn_sent (st_conn ?s) @ [commandIAC, commandWILL, option]"
    using send_healthy [of ?s] assms(1) by auto
  obtain c2 where c2: "send (window_message (st_width s) (st_height s)) (?s\<lparr>st_conn := c\<rparr>) = (None, ?s\<lparr>st_conn := c2\<rparr>)"
    "healthy c2" "conn_sent c2 = conn_sent c @ window_message (st_width s) (st_height s)"
    using send_healthy [of "?s\<lparr>st_conn := c\<rparr>"] c(2) by auto
  show ?thesis using assms c c2
    by (cases "option = optionNegotiateWindow")
      (auto simp: process_byte_def is_negotiation_def negotiate_def sendCommand_def sendWindowSize_def command_bytes)
qed

text \<open>The client's answer to the server's opening bytes.\<close>

lemma client_opens:
  assumes "healthy c"
  shows "\<exists>c'. process opening_bytes (newStream c ttype width height) =
     (None, (newStream c ttype width height)\<lparr>st_negotiation := commandDO,
        st_remote := {optionEcho, optionSuppressGoAhead}, st_local := {optionTerminalType, optionNegotiateWindow}, st_conn := c'\<rparr>) \<and>
     healthy c' \<and> conn_sent c' = conn_sent c @ opening_replies width height"
proof -
  let ?s0 = "newStream c ttype width height"
  obtain c1 where s1: "process [commandIAC, commandWILL, optionEcho] ?s0 =
      (None, ?s0\<lparr>st_negotiation := commandWILL, st_state := stateData, st_remote := {optionEcho}, st_conn := c1\<rparr>)"
      "healthy c1" "conn_sent c1 = conn_sent c @ [commandIAC, commandDO, optionEcho]"
    using process_will [of ?s0 optionEcho] assms by (auto simp: newStream_def supportsRemote_def)
  let ?s1 = "?s0\<lparr>st_negotiation := commandWILL, st_state := stateData, st_remote := {optionEcho}, st_conn := c1\<rparr>"
  obtain c2 where s2: "process [commandIAC, commandWILL, optionSuppressGoAhead] ?s1 =
      (None, ?s0\<lparr>st_negotiation := commandWILL, st_state := stateData, st_remote := {optionEcho, optionSuppressGoAhead}, st_conn := c2\<rparr>)"
      "healthy c2" "conn_sent c2 = conn_sent c1 @ [commandIAC, commandDO, optionSuppressGoAhead]"
    using process_will [of ?s1 optionSuppressGoAhead] s1(2)
    by (auto simp: newStream_def supportsRemote_def option_bytes insert_commute)
  let ?s2 = "?s0\<lparr>st_negotiation := commandWILL, st_state := stateData, st_remote := {optionEcho, optionSuppressGoAhead}, st_conn := c2\<rparr>"
  obtain c3 where s3: "process [commandIAC, commandDO, optionTerminalType] ?s2 =
      (None, ?s2\<lparr>st_negotiation := commandDO, st_state := stateData, st_local := {optionTerminalType}, st_conn := c3\<rparr>)"
      "healthy c3" "conn_sent c3 = conn_sent c2 @ [commandIAC, commandWILL, optionTerminalType]"
    using process_do [of ?s2 optionTerminalType] s2(2)
    by (auto simp: newStream_def supportsLocal_def option_bytes)
  let ?s3 = "?s2\<lparr>st_negotiation := commandDO, st_state := stateData, st_local := {optionTerminalType}, st_conn := c3\<rparr>"
  obtain c4 where s4: "process [commandIAC, commandDO, optionNegotiateWindow] ?s3 =
      (None, ?s3\<lparr>st_negotiation := commandDO, st_state := stateData, st_local := {optionNegotiateWindow, optionTerminalType}, st_conn := c4\<rparr>)"
      "healthy c4" "conn_sent c4 = conn_sent c3 @ [commandIAC, commandWILL, optionNegotiateWindow] @ window_message width height"
    using process_do [of ?s3 optionNegotiateWindow] s3(2)
    by (auto simp: newStream_def supportsLocal_def option_bytes)
  have split: "opening_bytes = [commandIAC, commandWILL, optionEcho] @ [commandIAC, commandWILL, optionSuppressGoAhead] @
      [commandIAC, commandDO, optionTerminalType] @ [commandIAC, commandDO, optionNegotiateWindow]"
    by (simp add: opening_bytes_def)
  show ?thesis unfolding split process_append s1(1) prod.case option.case s2(1) s3(1) s4(1)
    using s1(3) s2(3) s3(3) s4(2,3) by (auto simp: newStream_def opening_replies_def insert_commute)
qed

lemma server_send_healthy:
  assumes "healthy (pl_conn s)"
  shows "\<exists>c. writeProtocol data s = (None, s\<lparr>pl_conn := c\<rparr>) \<and> healthy c \<and> conn_sent c = conn_sent (pl_conn s) @ data"
proof -
  have "fst (writeBytes data (pl_conn s)) = None" "healthy (snd (writeBytes data (pl_conn s)))"
    using writeBytes_healthy [OF assms] by auto
  then show ?thesis using writeBytes_all [of data "pl_conn s"] by (auto simp: writeProtocol_def split: prod.splits)
qed

text \<open>The server's side: it asks for the terminal type and takes the window size.\<close>

lemma server_opens:
  assumes "healthy d" "0 < width" "width \<le> 65535" "0 < height" "height \<le> 65535"
  shows "\<exists>d'. server_process (opening_replies width height) (new_protocol_stream d) =
     (None, (new_protocol_stream d)\<lparr>pl_conn := d', pl_command := commandWILL, pl_sub_option := optionNegotiateWindow,
        pl_sub_data := window_bytes width height, pl_resizes := Some (width, height)\<rparr>) \<and>
     healthy d' \<and> conn_sent d' = conn_sent d @ terminal_request"
proof -
  let ?p = "new_protocol_stream d"
  have a: "server_process [commandIAC, commandDO, optionEcho, commandIAC, commandDO, optionSuppressGoAhead] ?p =
      (None, ?p\<lparr>pl_command := commandDO\<rparr>)"
    by (simp add: server_byte_def new_protocol_stream_def command_bytes option_bytes)
  obtain d' where d': "writeProtocol terminal_request (?p\<lparr>pl_command := commandWILL\<rparr>) =
      (None, ?p\<lparr>pl_command := commandWILL, pl_conn := d'\<rparr>)" "healthy d'" "conn_sent d' = conn_sent d @ terminal_request"
    using server_send_healthy [of "?p\<lparr>pl_command := commandWILL\<rparr>"] assms(1) by (auto simp: new_protocol_stream_def)
  have b: "server_process [commandIAC, commandWILL, optionTerminalType] (?p\<lparr>pl_command := commandDO\<rparr>) =
      (None, ?p\<lparr>pl_command := commandWILL, pl_conn := d'\<rparr>)"
    using d'(1) by (simp add: server_byte_def new_protocol_stream_def command_bytes)
  have c: "server_process [commandIAC, commandWILL, optionNegotiateWindow] (?p\<lparr>pl_command := commandWILL, pl_conn := d'\<rparr>) =
      (None, ?p\<lparr>pl_command := commandWILL, pl_conn := d'\<rparr>)"
    by (simp add: server_byte_def new_protocol_stream_def command_bytes option_bytes)
  have split: "opening_replies width height =
      [commandIAC, commandDO, optionEcho, commandIAC, commandDO, optionSuppressGoAhead] @
      [commandIAC, commandWILL, optionTerminalType] @ [commandIAC, commandWILL, optionNegotiateWindow] @ window_message width height"
    by (simp add: opening_replies_def)
  have w: "server_process (window_message width height) (?p\<lparr>pl_command := commandWILL, pl_conn := d'\<rparr>) =
      (None, ?p\<lparr>pl_conn := d', pl_command := commandWILL, pl_sub_option := optionNegotiateWindow,
        pl_sub_data := window_bytes width height, pl_resizes := Some (width, height)\<rparr>)"
    using server_window [OF assms(2-5), of "?p\<lparr>pl_command := commandWILL, pl_conn := d'\<rparr>"]
    by (simp add: new_protocol_stream_def)
  show ?thesis unfolding split server_process_append a b c w prod.case option.case using d'(2,3) by blast
qed

lemma client_names_terminal:
  assumes "healthy (st_conn s)" "st_state s = stateData"
  shows "\<exists>c. process terminal_request s =
     (None, s\<lparr>st_sub_option := optionTerminalType, st_sub_data := [terminalTypeSend], st_state := stateData, st_conn := c\<rparr>) \<and>
     healthy c \<and> conn_sent c = conn_sent (st_conn s) @ terminal_message (st_terminal s)"
proof -
  let ?s = "s\<lparr>st_sub_option := optionTerminalType, st_sub_data := [terminalTypeSend], st_state := stateData\<rparr>"
  obtain c where "send (terminal_message (st_terminal s)) ?s = (None, ?s\<lparr>st_conn := c\<rparr>)" "healthy c"
    "conn_sent c = conn_sent (st_conn ?s) @ terminal_message (st_terminal s)"
    using send_healthy [of ?s] assms(1) by auto
  then show ?thesis using assms(2)
    by (auto simp: terminal_request_def process_byte_def is_negotiation_def subnegotiate_def command_bytes option_bytes)
qed

lemma server_hears_terminal:
  assumes "pl_state p = stateData"
  shows "server_process (terminal_message ttype) p =
     (None, p\<lparr>pl_state := stateData, pl_sub_option := optionTerminalType, pl_sub_data := terminalTypeIs # ttype\<rparr>)"
proof -
  let ?p = "p\<lparr>pl_state := stateSubData, pl_sub_option := optionTerminalType, pl_sub_data := [terminalTypeIs]\<rparr>"
  have a: "server_process [commandIAC, commandSB, optionTerminalType, terminalTypeIs] p = (None, ?p)"
    using assms by (simp add: server_byte_def command_bytes option_bytes)
  have b: "server_process (escape ttype) ?p = (None, ?p\<lparr>pl_sub_data := terminalTypeIs # ttype\<rparr>)"
    using server_process_sub [of ?p ttype] by simp
  have c: "server_process [commandIAC, commandSE] (?p\<lparr>pl_sub_data := terminalTypeIs # ttype\<rparr>) =
      (None, p\<lparr>pl_state := stateData, pl_sub_option := optionTerminalType, pl_sub_data := terminalTypeIs # ttype\<rparr>)"
    by (simp add: server_byte_def command_bytes applySubnegotiation_def option_bytes)
  show ?thesis unfolding terminal_message_def appendEscaped_def
    by (simp only: append_assoc server_process_append a b c prod.case option.case)
qed

text \<open>
  A session and the reference server that open on a connection without faults agree after four messages: the
  server has the session's window size and its terminal type, both have enabled exactly the options they
  offered, no byte of the conversation is taken for data, and neither has anything more to say.
\<close>

theorem telnet_handshake:
  assumes "healthy c" "healthy d" "0 < width" "width \<le> 65535" "0 < height" "height \<le> 65535"
  shows "\<exists>r1 r2 s1 s2 p1 p2. process opening_bytes (newStream c ttype width height) = (None, s1) \<and>
     conn_sent (st_conn s1) = conn_sent c @ r1 \<and> server_process r1 (new_protocol_stream d) = (None, p1) \<and>
     conn_sent (pl_conn p1) = conn_sent d @ terminal_request \<and> process terminal_request s1 = (None, s2) \<and>
     conn_sent (st_conn s2) = conn_sent (st_conn s1) @ r2 \<and> server_process r2 p1 = (None, p2) \<and>
     pl_conn p2 = pl_conn p1 \<and> pl_resizes p2 = Some (width, height) \<and>
     pl_sub_option p2 = optionTerminalType \<and> pl_sub_data p2 = terminalTypeIs # ttype \<and>
     st_local s2 = {optionTerminalType, optionNegotiateWindow} \<and> st_remote s2 = {optionEcho, optionSuppressGoAhead} \<and>
     st_pending s2 = [] \<and> pl_pending p2 = [] \<and> st_state s2 = stateData \<and> pl_state p2 = stateData"
proof -
  obtain c1 where c1: "process opening_bytes (newStream c ttype width height) =
     (None, (newStream c ttype width height)\<lparr>st_negotiation := commandDO,
        st_remote := {optionEcho, optionSuppressGoAhead}, st_local := {optionTerminalType, optionNegotiateWindow}, st_conn := c1\<rparr>)"
     "healthy c1" "conn_sent c1 = conn_sent c @ opening_replies width height"
    using client_opens [OF assms(1)] by blast
  obtain d1 where d1: "server_process (opening_replies width height) (new_protocol_stream d) =
     (None, (new_protocol_stream d)\<lparr>pl_conn := d1, pl_command := commandWILL, pl_sub_option := optionNegotiateWindow,
        pl_sub_data := window_bytes width height, pl_resizes := Some (width, height)\<rparr>)"
     "conn_sent d1 = conn_sent d @ terminal_request"
    using server_opens [OF assms(2-6)] by blast
  let ?s1 = "(newStream c ttype width height)\<lparr>st_negotiation := commandDO,
        st_remote := {optionEcho, optionSuppressGoAhead}, st_local := {optionTerminalType, optionNegotiateWindow}, st_conn := c1\<rparr>"
  let ?p1 = "(new_protocol_stream d)\<lparr>pl_conn := d1, pl_command := commandWILL, pl_sub_option := optionNegotiateWindow,
        pl_sub_data := window_bytes width height, pl_resizes := Some (width, height)\<rparr>"
  obtain c2 where "process terminal_request ?s1 =
     (None, ?s1\<lparr>st_sub_option := optionTerminalType, st_sub_data := [terminalTypeSend], st_state := stateData, st_conn := c2\<rparr>)"
     "conn_sent c2 = conn_sent c1 @ terminal_message ttype"
    using client_names_terminal [of ?s1] c1(2) by (auto simp: newStream_def)
  moreover note server_hears_terminal [of ?p1 ttype]
  ultimately show ?thesis using c1(1,3) d1
    by (intro exI [of _ "opening_replies width height"] exI [of _ "terminal_message ttype"] exI conjI)
      (assumption | simp add: newStream_def new_protocol_stream_def)+
qed

theorem telnet_handshake_witness:
  "\<exists>s1. process opening_bytes (newStream new_conn [120] 80 24) = (None, s1) \<and>
     (\<exists>r p. conn_sent (st_conn s1) = r \<and> server_process r (new_protocol_stream new_conn) = (None, p))"
  using telnet_handshake [of new_conn new_conn 80 24 "[120]"] by (fastforce simp: healthy_def new_conn_def)

end
