(* ===== verification/Driver_Factories.thy ===== *)
theory Driver_Factories
  imports Sdk_Requests Telnet_Connector
begin

text \<open>
  What the driver command makes of connection options and terminal profiles
  (\<open>cmd/tuicast-driver/main.go\<close>, \<open>ssh.NewConnector\<close>, \<open>vt220.New\<close>, \<open>xterm.New\<close>), and that it accepts what
  the Go client sends. The SSH library is a parameter: how private keys are parsed (with and without a
  passphrase), how a known-hosts file is loaded, and the fingerprint of a host key.
\<close>

record ('s, 'k) ssh_library =
  lib_ParsePrivateKey :: "string \<Rightarrow> string + 's"
  lib_ParsePrivateKeyWithPassphrase :: "string \<Rightarrow> string \<Rightarrow> string + 's"
  lib_knownhosts :: "string \<Rightarrow> string + ('k \<Rightarrow> bool)"
  lib_FingerprintSHA256 :: "'k \<Rightarrow> string"

datatype 's auth_method = PasswordAuth string | PublicKeys 's

record ('s, 'k) ssh_connector =
  sx_address :: string
  sx_user :: string
  sx_auth :: "'s auth_method list"
  sx_hostKey :: "'k \<Rightarrow> bool"
  sx_timeout :: int

datatype ('s, 'k) any_connector = TelnetConnector string | SSHConnector "('s, 'k) ssh_connector"

datatype factory_error =
    UnsupportedProtocol string
  | CreatingTelnet
  | SSHUsernameRequired
  | SSHCredentialRequired
  | ParsingKey string
  | OneHostKeyOption
  | LoadingKnownHosts string
  | SSHAddressRequired
  | UnsupportedTerminal string
  | CreatingTerminal

definition parsePrivateKey :: "('s, 'k) ssh_library \<Rightarrow> string \<Rightarrow> string \<Rightarrow> factory_error + 's" where
  "parsePrivateKey L privateKey passphrase =
     (case (if passphrase = [] then lib_ParsePrivateKey L privateKey
            else lib_ParsePrivateKeyWithPassphrase L privateKey passphrase) of
        Inl e \<Rightarrow> Inl (ParsingKey e)
      | Inr signer \<Rightarrow> Inr signer)"

text \<open>The callback as the set of host keys it accepts.\<close>

definition makeHostKeyCallback :: "('s, 'k) ssh_library \<Rightarrow> connection_options \<Rightarrow> factory_error + ('k \<Rightarrow> bool)" where
  "makeHostKeyCallback L options =
     (let configured = (if opt_knownHostsFile options \<noteq> [] then 1 else 0) +
                       (if opt_hostKeyFingerprint options \<noteq> [] then 1 else 0) +
                       (if opt_insecureSkipHostKeyCheck options then 1 else (0 :: nat))
      in if configured \<noteq> 1 then Inl OneHostKeyOption
         else if opt_knownHostsFile options \<noteq> [] then
           (case lib_knownhosts L (opt_knownHostsFile options) of
              Inl e \<Rightarrow> Inl (LoadingKnownHosts e)
            | Inr callback \<Rightarrow> Inr callback)
         else if opt_hostKeyFingerprint options \<noteq> [] then
           Inr (\<lambda>key. lib_FingerprintSHA256 L key = opt_hostKeyFingerprint options)
         else Inr (\<lambda>_. True))"

definition sshConnector :: "('s, 'k) ssh_library \<Rightarrow> connection_options \<Rightarrow> factory_error + ('s, 'k) ssh_connector" where
  "sshConnector L options =
     (if opt_username options = [] then Inl SSHUsernameRequired
      else
        (let passwords = (if opt_password options \<noteq> [] then [PasswordAuth (opt_password options)] else [])
         in case (if opt_privateKey options \<noteq> []
                  then (case parsePrivateKey L (opt_privateKey options) (opt_privateKeyPassphrase options) of
                          Inl e \<Rightarrow> Inl e
                        | Inr signer \<Rightarrow> Inr (passwords @ [PublicKeys signer]))
                  else Inr passwords) of
              Inl e \<Rightarrow> Inl e
            | Inr authentication \<Rightarrow>
                if authentication = [] then Inl SSHCredentialRequired
                else (case makeHostKeyCallback L options of
                        Inl e \<Rightarrow> Inl e
                      | Inr callback \<Rightarrow>
                          (let timeout = (if opt_connectTimeoutMilliseconds options > 0
                                 then sint (word_of_int (opt_connectTimeoutMilliseconds options) * word_of_int 1000000 :: 64 word)
                                 else 30000000000)
                           in if opt_address options = [] then Inl SSHAddressRequired
                              else Inr \<lparr>sx_address = opt_address options, sx_user = opt_username options,
                                        sx_auth = authentication, sx_hostKey = callback, sx_timeout = timeout\<rparr>))))"

definition connector :: "('s, 'k) ssh_library \<Rightarrow> connection_options \<Rightarrow> factory_error + ('s, 'k) any_connector" where
  "connector L options =
     (if opt_protocol options = ''telnet'' then
        (case NewConnector (\<lambda>_. Inl []) (opt_address options) None of
           Inl _ \<Rightarrow> Inl CreatingTelnet
         | Inr c \<Rightarrow> Inr (TelnetConnector (co_address c)))
      else if opt_protocol options = ''ssh'' then map_sum id SSHConnector (sshConnector L options)
      else Inl (UnsupportedProtocol (opt_protocol options)))"

text \<open>The terminal of a profile; \<open>None\<close> is a panic of \<open>ansi.New\<close>.\<close>

definition profile_New :: "profile \<Rightarrow> int \<Rightarrow> int \<Rightarrow> (factory_error + terminal) option" where
  "profile_New p width height =
     (if width \<le> 0 \<or> height \<le> 0 then Some (Inl CreatingTerminal)
      else map_option (map_sum (\<lambda>_. CreatingTerminal) id) (New width height p))"

definition terminal_for :: "string \<Rightarrow> int \<Rightarrow> int \<Rightarrow> (factory_error + terminal) option" where
  "terminal_for profile width height =
     (if profile = ''vt220'' then profile_New VT220 width height
      else if profile = ''xterm-256color'' then profile_New XTerm width height
      else Some (Inl (UnsupportedTerminal profile)))"

subsection \<open>Host keys\<close>

text \<open>
  An SSH connection that the driver opens accepts a host key without checking it only when the request
  asked for that explicitly; otherwise the key is in the named known-hosts file or has exactly the
  fingerprint that was configured, and it authenticates with nothing but the request's credentials.
\<close>

theorem ssh_host_key_checked:
  assumes "connector L options = Inr (SSHConnector c)"
  shows "(opt_insecureSkipHostKeyCheck options \<or>
      (\<forall>key. sx_hostKey c key \<longleftrightarrow>
         (if opt_knownHostsFile options \<noteq> []
          then \<exists>check. lib_knownhosts L (opt_knownHostsFile options) = Inr check \<and> check key
          else lib_FingerprintSHA256 L key = opt_hostKeyFingerprint options \<and> opt_hostKeyFingerprint options \<noteq> []))) \<and>
     (opt_insecureSkipHostKeyCheck options \<longrightarrow> opt_knownHostsFile options = [] \<and> opt_hostKeyFingerprint options = []) \<and>
     sx_user c = opt_username options \<and> sx_address c = opt_address options \<and> sx_auth c \<noteq> [] \<and>
     (\<forall>password. PasswordAuth password \<in> set (sx_auth c) \<longrightarrow> password = opt_password options)"
proof -
  obtain callback where cb: "makeHostKeyCallback L options = Inr callback" "sx_hostKey c = callback"
      "sx_user c = opt_username options" "sx_address c = opt_address options" "sx_auth c \<noteq> []"
      "\<forall>password. PasswordAuth password \<in> set (sx_auth c) \<longrightarrow> password = opt_password options"
    using assms by (auto simp: connector_def sshConnector_def Let_def split: if_splits sum.splits)
  then show ?thesis
    by (auto simp: makeHostKeyCallback_def Let_def split: if_splits sum.splits)
qed

definition sample_library :: "(string, string) ssh_library" where
  "sample_library = \<lparr>lib_ParsePrivateKey = Inr, lib_ParsePrivateKeyWithPassphrase = (\<lambda>k _. Inr k),
     lib_knownhosts = (\<lambda>_. Inr (\<lambda>_. False)), lib_FingerprintSHA256 = id\<rparr>"

definition sample_config :: ssh_config where
  "sample_config = \<lparr>sc_address = ''host:22'', sc_username = ''me'', sc_password = ''pw'', sc_privateKey = [],
     sc_passphrase = [], sc_knownHosts = [], sc_fingerprint = ''SHA256:x'', sc_insecure = False, sc_timeout = 1500000\<rparr>"

subsection \<open>The client's requests\<close>

text \<open>The options a client's parameters decode to: strings as they arrive, absent entries as zero values.\<close>

definition no_options :: connection_options where
  "no_options = \<lparr>opt_protocol = [], opt_address = [], opt_username = [], opt_password = [], opt_privateKey = [],
     opt_privateKeyPassphrase = [], opt_knownHostsFile = [], opt_hostKeyFingerprint = [],
     opt_insecureSkipHostKeyCheck = False, opt_connectTimeoutMilliseconds = 0\<rparr>"

definition options_of :: "connection_params \<Rightarrow> connection_options" where
  "options_of p =
     (case p of
        TelnetParams address ms \<Rightarrow>
          no_options\<lparr>opt_protocol := ''telnet'', opt_address := json_string address, opt_connectTimeoutMilliseconds := ms\<rparr>
      | SSHParams address user password privateKey passphrase hosts fingerprint insecure ms \<Rightarrow>
          \<lparr>opt_protocol = ''ssh'', opt_address = json_string address, opt_username = json_string user,
           opt_password = json_string password, opt_privateKey = json_string privateKey,
           opt_privateKeyPassphrase = json_string passphrase, opt_knownHostsFile = json_string hosts,
           opt_hostKeyFingerprint = json_string fingerprint, opt_insecureSkipHostKeyCheck = insecure,
           opt_connectTimeoutMilliseconds = ms\<rparr>)"

theorem ssh_host_key_checked_witness:
  "\<exists>c. connector sample_library (no_options\<lparr>opt_protocol := ''ssh'', opt_address := ''host:22'', opt_username := ''me'',
       opt_password := ''pw'', opt_hostKeyFingerprint := ''SHA256:x''\<rparr>) = Inr (SSHConnector c) \<and>
     sx_hostKey c ''SHA256:x'' \<and> \<not> sx_hostKey c ''SHA256:y''"
proof -
  let ?options = "no_options\<lparr>opt_protocol := ''ssh'', opt_address := ''host:22'', opt_username := ''me'',
       opt_password := ''pw'', opt_hostKeyFingerprint := ''SHA256:x''\<rparr>"
  obtain c where c: "connector sample_library ?options = Inr (SSHConnector c)"
    by (simp add: connector_def sshConnector_def makeHostKeyCallback_def no_options_def sample_library_def Let_def)
  show ?thesis using ssh_host_key_checked [OF c] c by (auto simp: no_options_def sample_library_def)
qed

lemma accepted_timeout:
  assumes "positiveMilliseconds timeout = Inr ms" "timeout \<le> maxDuration - responseGrace"
  shows "\<exists>t. milliseconds ms zero = Inr t \<and> timeout \<le> t \<and> t < driverOperationContext timeout \<and> ms > 0 \<and>
     sint (word_of_int ms * word_of_int 1000000 :: 64 word) = t"
proof -
  have pos: "0 < timeout" using assms(1) by (auto simp: positiveMilliseconds_def split: if_splits)
  have "timeout \<le> 9223372036854000000" using assms(2) by (simp add: maxDuration_def responseGrace_def)
  from rounded [OF pos this] obtain t where t: "milliseconds ms zero = Inr t" "0 < ms" "timeout \<le> t" "t < timeout + 1000000"
    using assms(1) by fastforce
  have "t = ms * 1000000" "ms * 1000000 < 2 ^ 63"
    using t(1) by (auto simp: milliseconds_def split: if_splits)
  then have "sint (word_of_int ms * word_of_int 1000000 :: 64 word) = t" using product_64 [of ms 1000000] t(2) by simp
  moreover have "t < driverOperationContext timeout"
    using t(4) assms(2) by (simp add: driverOperationContext_def responseGrace_def)
  ultimately show ?thesis using t by blast
qed

text \<open>
  The driver opens a connector for every SSH configuration that the Go client accepts, if its key
  parses and its known-hosts file loads, with the same address, user and timeout (in whole milliseconds,
  rounded up) and before the client gives the request up.
\<close>

theorem sdk_connection_accepted:
  assumes "ssh_driverParams defaultTimeout config = Inr (params, timeout)" "timeout \<le> maxDuration - responseGrace"
    and "sc_privateKey config = [] \<or> (\<exists>s. parsePrivateKey L (json_string (sc_privateKey config)) (json_string (sc_passphrase config)) = Inr s)"
    and "sc_knownHosts config = [] \<or> (\<exists>h. lib_knownhosts L (json_string (sc_knownHosts config)) = Inr h)"
  shows "\<exists>c t. connector L (options_of params) = Inr (SSHConnector c) \<and> sx_address c = json_string (sc_address config) \<and>
     sx_user c = json_string (sc_username config) \<and> milliseconds (opt_connectTimeoutMilliseconds (options_of params)) True = Inr t \<and>
     sx_timeout c = t \<and> timeout \<le> t \<and> t < driverOperationContext timeout"
proof -
  obtain ms where p: "positiveMilliseconds timeout = Inr ms"
    "params = SSHParams (sc_address config) (sc_username config) (sc_password config) (sc_privateKey config)
       (sc_passphrase config) (sc_knownHosts config) (sc_fingerprint config) (sc_insecure config) ms"
    using assms(1) by (auto simp: ssh_driverParams_def Let_def split: if_splits sum.splits)
  have given: "sc_address config \<noteq> []" "sc_username config \<noteq> []" "sc_password config \<noteq> [] \<or> sc_privateKey config \<noteq> []"
    "(if sc_knownHosts config \<noteq> [] then 1 else 0) + (if sc_fingerprint config \<noteq> [] then 1 else 0) +
     (if sc_insecure config then 1 else 0) = (1 :: nat)"
    using assms(1) by (auto simp: ssh_driverParams_def split: if_splits)
  obtain t where t: "milliseconds ms True = Inr t" "timeout \<le> t" "t < driverOperationContext timeout" "ms > 0"
      "sint (word_of_int ms * word_of_int 1000000 :: 64 word) = t"
    using accepted_timeout [OF p(1) assms(2)] by blast
  have "\<exists>callback. makeHostKeyCallback L (options_of params) = Inr callback"
    using given(4) assms(4) by (auto simp: makeHostKeyCallback_def options_of_def p(2) Let_def split: if_splits)
  then show ?thesis using given(1-3) assms(3) t
    by (auto simp: connector_def sshConnector_def options_of_def p(2) Let_def)
qed

theorem sdk_connection_accepted_witness:
  "\<exists>params c. ssh_driverParams 30000000000 sample_config = Inr (params, 1500000) \<and>
     connector sample_library (options_of params) = Inr (SSHConnector c) \<and> sx_timeout c \<ge> 1500000"
proof -
  have p: "\<exists>params. ssh_driverParams 30000000000 sample_config = Inr (params, 1500000)"
    by (simp add: ssh_driverParams_def sample_config_def positiveMilliseconds_def Let_def)
  then obtain params where p: "ssh_driverParams 30000000000 sample_config = Inr (params, 1500000)" by blast
  have c: "sc_privateKey sample_config = []" "sc_knownHosts sample_config = []" by (simp_all add: sample_config_def)
  show ?thesis using sdk_connection_accepted [OF p, where L = sample_library] c p
    by (fastforce simp: maxDuration_def responseGrace_def)
qed

lemma options_ok:
  assumes "apply_options apply_session_option opts config = Inr config'"
    and "sf_terminal config \<in> {''vt220'', ''xterm-256color''}" "0 < sf_width config" "0 < sf_height config"
    and "length (sf_answerback config) \<le> 20" "\<not> list_ex (\<lambda>c. (of_char c :: nat) < 0x20 \<or> (of_char c :: nat) > 0x7E) (sf_answerback config)"
  shows "sf_terminal config' \<in> {''vt220'', ''xterm-256color''} \<and> 0 < sf_width config' \<and> 0 < sf_height config' \<and>
     length (sf_answerback config') \<le> 20 \<and> \<not> list_ex (\<lambda>c. (of_char c :: nat) < 0x20 \<or> (of_char c :: nat) > 0x7E) (sf_answerback config')"
  using assms
proof (induction opts arbitrary: config)
  case (Cons opt opts)
  obtain c where c: "apply_session_option opt config = Inr c" "apply_options apply_session_option opts c = Inr config'"
    using Cons.prems(1) by (auto split: sum.splits)
  show ?case by (rule Cons.IH [OF c(2)])
      (use c(1) Cons.prems(2-) in \<open>auto simp: apply_session_option_def split: session_option.splits if_splits\<close>)
qed simp

text \<open>
  C33: Every session the Go client asks for, with any options it accepts, gets a terminal of the driver,
  provided its size is one a terminal can have (at most \<open>2 ^ 43\<close> cells): its profile exists, its
  size is positive, its answerback is accepted, and the terminal is well formed and has the size asked for.
\<close>

theorem sdk_session_accepted:
  assumes "open_request i opts = Inr p" "op_width p * op_height p \<le> maxCells"
  shows "0 < op_width p \<and> 0 < op_height p \<and> (\<exists>t t'. terminal_for (op_profile p) (op_width p) (op_height p) = Some (Inr t) \<and>
     SetAnswerback (op_answer p) t = Inr t' \<and> well_formed t' \<and> tm_width t' = op_width p \<and> tm_height t' = op_height p) \<and>
     op_connectionID p = i"
proof -
  obtain config where config: "apply_options apply_session_option opts default_session = Inr config"
    "p = \<lparr>op_connectionID = i, op_profile = sf_terminal config, op_width = sf_width config,
        op_height = sf_height config, op_answer = sf_answerback config\<rparr>"
    using assms by (auto simp: open_request_def split: sum.splits)
  have ok: "sf_terminal config \<in> {''vt220'', ''xterm-256color''}" "0 < sf_width config" "0 < sf_height config"
     "length (sf_answerback config) \<le> 20"
     "\<not> list_ex (\<lambda>c. (of_char c :: nat) < 0x20 \<or> (of_char c :: nat) > 0x7E) (sf_answerback config)"
    using options_ok [OF config(1)] by (simp_all add: default_session_def)
  have fit: "dims_fit (sf_width config) (sf_height config)"
    using ok(2,3) assms(2) by (simp add: dims_fit_def config(2))
  have "\<exists>t. terminal_for (sf_terminal config) (sf_width config) (sf_height config) = Some (Inr t) \<and> well_formed t \<and>
      tm_width t = sf_width config \<and> tm_height t = sf_height config"
    using ok(1-3) New_wf [OF fit, of VT220] New_wf [OF fit, of XTerm]
    by (auto simp: terminal_for_def profile_New_def dest: New_dims)
  then obtain t where t: "terminal_for (sf_terminal config) (sf_width config) (sf_height config) = Some (Inr t)" "well_formed t"
      "tm_width t = sf_width config" "tm_height t = sf_height config"
    by blast
  have "\<exists>t'. SetAnswerback (sf_answerback config) t = Inr t' \<and> tm_width t' = tm_width t \<and> tm_height t' = tm_height t"
    using ok(4,5) by (auto simp: SetAnswerback_def list_ex_iff)
  then show ?thesis using t ok(2,3) SetAnswerback_wf [OF t(2)] by (auto simp: config(2))
qed

theorem sdk_session_accepted_witness:
  "\<exists>p t. open_request 3 [WithSize 132 50, WithAnswerback ''VT220''] = Inr p \<and>
     terminal_for (op_profile p) (op_width p) (op_height p) = Some (Inr t) \<and> tm_width t = 132"
proof -
  obtain p where p: "open_request 3 [WithSize 132 50, WithAnswerback ''VT220''] = Inr p" "op_width p = 132" "op_height p = 50"
    by (simp add: open_request_def apply_session_option_def default_session_def)
  then have "op_width p * op_height p \<le> maxCells" by (simp add: maxCells_def)
  from sdk_session_accepted [OF p(1) this] p show ?thesis by (auto simp: SetAnswerback_def split: if_splits)
qed

end
