(* ===== verification/Go_Strings.thy ===== *)
theory Go_Strings
  imports Prelude
begin

text \<open>
  The functions of Go's \<open>strings\<close> and \<open>path/filepath\<close> (in its Unix form) the configuration and the
  reference pages use, on strings of bytes. The white space \<open>TrimSpace\<close> removes is that of
  \<open>unicode.IsSpace\<close>, as UTF-8; a prefix or suffix of a string is one of these encodings exactly when its
  first or last rune is that space, since UTF-8 synchronizes itself.
\<close>

definition spaces :: "string list" where
  "spaces =
     [[CHR 0x09], [CHR 0x0A], [CHR 0x0B], [CHR 0x0C], [CHR 0x0D], [CHR 0x20], [CHR 0xC2, CHR 0x85],
      [CHR 0xC2, CHR 0xA0], [CHR 0xE1, CHR 0x9A, CHR 0x80], [CHR 0xE2, CHR 0x80, CHR 0x80],
      [CHR 0xE2, CHR 0x80, CHR 0x81], [CHR 0xE2, CHR 0x80, CHR 0x82],
      [CHR 0xE2, CHR 0x80, CHR 0x83], [CHR 0xE2, CHR 0x80, CHR 0x84],
      [CHR 0xE2, CHR 0x80, CHR 0x85], [CHR 0xE2, CHR 0x80, CHR 0x86],
      [CHR 0xE2, CHR 0x80, CHR 0x87], [CHR 0xE2, CHR 0x80, CHR 0x88],
      [CHR 0xE2, CHR 0x80, CHR 0x89], [CHR 0xE2, CHR 0x80, CHR 0x8A],
      [CHR 0xE2, CHR 0x80, CHR 0xA8], [CHR 0xE2, CHR 0x80, CHR 0xA9],
      [CHR 0xE2, CHR 0x80, CHR 0xAF], [CHR 0xE2, CHR 0x81, CHR 0x9F],
      [CHR 0xE3, CHR 0x80, CHR 0x80]]"

primrec prefix_length :: "string list \<Rightarrow> string \<Rightarrow> nat" where
  "prefix_length [] s = 0"
| "prefix_length (p # ps) s = (if take (length p) s = p then length p else prefix_length ps s)"

lemma prefix_length_le: "prefix_length ps s \<le> length s"
  by (induction ps) (auto dest: arg_cong [of _ _ length])

function trim_prefixes :: "string list \<Rightarrow> string \<Rightarrow> string" where
  "trim_prefixes ps s =
     (let n = prefix_length ps s in if n = 0 then s else trim_prefixes ps (drop n s))"
  by pat_completeness auto
termination
proof (relation "measure (\<lambda>(ps, s). length s)")
  fix ps s n
  assume "n = prefix_length ps s" "n \<noteq> 0"
  then show "((ps, drop n s), ps, s) \<in> measure (\<lambda>(ps, s). length s)"
    using prefix_length_le [of ps s] by simp
qed simp

declare trim_prefixes.simps [simp del]

definition TrimSpace :: "string \<Rightarrow> string" where
  "TrimSpace s = rev (trim_prefixes (map rev spaces) (rev (trim_prefixes spaces s)))"

lemma TrimSpace_Nil [simp]: "TrimSpace [] = []"
proof -
  have "trim_prefixes ps [] = []" for ps
    using prefix_length_le [of ps "[]"] by (simp add: trim_prefixes.simps)
  then show ?thesis by (simp add: TrimSpace_def)
qed

lemma TrimSpace_examples:
  "TrimSpace ''  ab c '' = ''ab c''" "TrimSpace '' '' = []" "TrimSpace ''ab'' = ''ab''"
  by code_simp+

definition HasSuffix :: "string \<Rightarrow> string \<Rightarrow> bool" where
  "HasSuffix s suf \<longleftrightarrow> length suf \<le> length s \<and> drop (length s - length suf) s = suf"

definition TrimSuffix :: "string \<Rightarrow> string \<Rightarrow> string" where
  "TrimSuffix s suf = (if HasSuffix s suf then take (length s - length suf) s else s)"

definition Contains :: "string \<Rightarrow> string \<Rightarrow> bool" where
  "Contains s sub \<longleftrightarrow> list_ex (\<lambda>i. take (length sub) (drop i s) = sub) [0..<Suc (length s)]"

lemma Contains_iff: "Contains s sub \<longleftrightarrow> (\<exists>u v. s = u @ sub @ v)"
proof
  assume "Contains s sub"
  then obtain i where "take (length sub) (drop i s) = sub" by (auto simp: Contains_def list_ex_iff)
  then have "s = take i s @ sub @ drop (length sub) (drop i s)" by (metis append_take_drop_id)
  then show "\<exists>u v. s = u @ sub @ v" by blast
next
  assume "\<exists>u v. s = u @ sub @ v"
  then obtain u v where s: "s = u @ sub @ v" by blast
  have "take (length sub) (drop (length u) s) = sub" "length u \<in> set [0..<Suc (length s)]" by (simp_all add: s)
  then show "Contains s sub" unfolding Contains_def list_ex_iff by blast
qed

subsection \<open>Numbers\<close>

definition digit_value :: "char \<Rightarrow> int option" where
  "digit_value c = (let n = of_char c in if 48 \<le> n \<and> n \<le> 57 then Some (n - 48) else None)"

fun digits_value :: "int \<Rightarrow> string \<Rightarrow> int option" where
  "digits_value acc [] = Some acc"
| "digits_value acc (c # cs) =
     (case digit_value c of None \<Rightarrow> None | Some d \<Rightarrow> digits_value (acc * 10 + d) cs)"

text \<open>\<open>strconv.Atoi\<close> with a 64-bit \<open>int\<close>; \<open>None\<close> is an error.\<close>

definition Atoi :: "string \<Rightarrow> int option" where
  "Atoi s =
     (let (negative, digits) =
        (case s of c # cs \<Rightarrow> if c = CHR ''-'' then (True, cs) else if c = CHR ''+'' then (False, cs) else (False, s)
         | [] \<Rightarrow> (False, []))
      in if digits = [] then None
         else case digits_value 0 digits of
                None \<Rightarrow> None
              | Some n \<Rightarrow>
                  (let v = (if negative then - n else n)
                   in if - (2 ^ 63) \<le> v \<and> v < 2 ^ 63 then Some v else None))"

subsection \<open>Paths\<close>

fun split_on :: "char \<Rightarrow> string \<Rightarrow> string list" where
  "split_on c [] = [[]]"
| "split_on c (x # xs) =
     (if x = c then [] # split_on c xs
      else case split_on c xs of [] \<Rightarrow> [[x]] | p # ps \<Rightarrow> (x # p) # ps)"

fun join_with :: "string \<Rightarrow> string list \<Rightarrow> string" where
  "join_with sep [] = []"
| "join_with sep [p] = p"
| "join_with sep (p # q # ps) = p @ sep @ join_with sep (q # ps)"

definition IsAbs :: "string \<Rightarrow> bool" where
  "IsAbs path \<longleftrightarrow> take 1 path = ''/''"

text \<open>One element of a path under \<open>Clean\<close>, on the elements kept so far, the last one first.\<close>

definition clean_element :: "bool \<Rightarrow> string list \<Rightarrow> string \<Rightarrow> string list" where
  "clean_element rooted kept e =
     (if e = [] \<or> e = ''.'' then kept
      else if e = ''..'' then
        (case kept of
           k # ks \<Rightarrow> if k = ''..'' then ''..'' # kept else ks
         | [] \<Rightarrow> if rooted then [] else [''..''])
      else e # kept)"

definition Clean :: "string \<Rightarrow> string" where
  "Clean path =
     (let rooted = take 1 path = ''/'';
          joined = join_with ''/'' (rev (foldl (clean_element rooted) [] (split_on (CHR ''/'') path)))
      in if rooted then CHR ''/'' # joined else if joined = [] then ''.'' else joined)"

definition Join :: "string \<Rightarrow> string \<Rightarrow> string" where
  "Join a b = (case [x \<leftarrow> [a, b]. x \<noteq> []] of [] \<Rightarrow> [] | xs \<Rightarrow> Clean (join_with ''/'' xs))"

lemma path_examples:
  "Join ''/etc/tuicast'' ''../keys/./id'' = ''/etc/keys/id''" "Clean ''../../a/..'' = ''../..''"
  "Clean ''/../a//b/'' = ''/a/b''" "Join [] [] = []" "Clean [] = ''.''"
  by code_simp+

end
