(* ===== verification/Trace_Dump.thy ===== *)
theory Trace_Dump
  imports Session_Wait Base64
begin

text \<open>
  Trace dumps (\<open>trace/dump.go\<close>): a failed wait's flight recording as JSON lines. A line is the struct that
  is encoded; the JSON encoder with the writer below it is the operation \<open>put\<close>, which may fail.
  \<open>start_text\<close> is the RFC 3339 rendering of the start and \<open>cause_text\<close> the text of the cause.
\<close>

record screen_line =
  sn_width :: int
  sn_height :: int
  sn_revision :: nat
  sn_cursor :: cursor
  sn_title :: string
  sn_text :: string

datatype trace_line =
    HeaderLine nat string string int int int
  | OutputLine int nat string
  | ResizeLine int int int
  | UnsupportedLine string nat
  | FailureLine int string string screen_line

datatype 'e dump_error = NoRecordingToDump | DumpWrite 'e

text \<open>A failed wait, with the flight recording that was taken for it.\<close>

type_synonym failure = "wait_error \<times> unsupported_sequence flight_recording option"

definition dump_version :: nat where "dump_version = 1"

text \<open>\<open>time.Duration.Microseconds\<close>\<close>

definition microseconds_of :: "int \<Rightarrow> int" where
  "microseconds_of d = (if d < 0 then - (- d div 1000) else d div 1000)"

fun record_line :: "flight_record \<Rightarrow> trace_line" where
  "record_line (FlightOutput offset data revision) =
     OutputLine (microseconds_of offset) revision (encode64 (map unat data))"
| "record_line (FlightResize offset width height) = ResizeLine (microseconds_of offset) width height"

definition screen_line_of :: "screen \<Rightarrow> screen_line" where
  "screen_line_of s =
     \<lparr>sn_width = scr_width s, sn_height = scr_height s, sn_revision = scr_revision s,
      sn_cursor = scr_cursor s, sn_title = scr_title s, sn_text = Text s\<rparr>"

definition failure_line :: "(wait_cause \<Rightarrow> string) \<Rightarrow> wait_error \<Rightarrow> 'u flight_recording \<Rightarrow> trace_line" where
  "failure_line cause_text e r =
     FailureLine (microseconds_of (rec_captured r)) (we_expected e) (cause_text (we_cause e))
       (screen_line_of (we_screen e))"

text \<open>The loops of \<open>WriteDump\<close>: each stops at the first line that cannot be written.\<close>

primrec write_records ::
  "(trace_line \<Rightarrow> 'w \<Rightarrow> 'e option \<times> 'w) \<Rightarrow> flight_record list \<Rightarrow> 'w \<Rightarrow> 'e dump_error option \<times> 'w" where
  "write_records put [] w = (None, w)"
| "write_records put (r # rs) w =
     (case put (record_line r) w of
        (Some e, w1) \<Rightarrow> (Some (DumpWrite e), w1)
      | (None, w1) \<Rightarrow> write_records put rs w1)"

primrec write_unsupported ::
  "(trace_line \<Rightarrow> 'w \<Rightarrow> 'e option \<times> 'w) \<Rightarrow> unsupported_sequence list \<Rightarrow> 'w \<Rightarrow> 'e dump_error option \<times> 'w" where
  "write_unsupported put [] w = (None, w)"
| "write_unsupported put (u # us) w =
     (case put (UnsupportedLine (us_sequence u) (us_count u)) w of
        (Some e, w1) \<Rightarrow> (Some (DumpWrite e), w1)
      | (None, w1) \<Rightarrow> write_unsupported put us w1)"

definition WriteDump ::
  "(trace_line \<Rightarrow> 'w \<Rightarrow> 'e option \<times> 'w) \<Rightarrow> (int \<Rightarrow> string) \<Rightarrow> (wait_cause \<Rightarrow> string) \<Rightarrow> failure \<Rightarrow> 'w \<Rightarrow>
     'e dump_error option \<times> 'w" where
  "WriteDump put start_text cause_text failure w =
     (case snd failure of
        None \<Rightarrow> (Some NoRecordingToDump, w)
      | Some r \<Rightarrow>
          (case put (HeaderLine dump_version (flight_recording.rec_profile r) (start_text (rec_start r)) (rec_width r)
                      (rec_height r) (rec_dropped r)) w of
             (Some e, w1) \<Rightarrow> (Some (DumpWrite e), w1)
           | (None, w1) \<Rightarrow>
               (case write_records put (rec_records r) w1 of
                  (Some e, w2) \<Rightarrow> (Some e, w2)
                | (None, w2) \<Rightarrow>
                    (case write_unsupported put (rec_unsupported r) w2 of
                       (Some e, w3) \<Rightarrow> (Some e, w3)
                     | (None, w3) \<Rightarrow>
                         (case put (failure_line cause_text (fst failure) r) w3 of
                            (Some e, w4) \<Rightarrow> (Some (DumpWrite e), w4)
                          | (None, w4) \<Rightarrow> (None, w4))))))"

subsection \<open>Reading a dump back\<close>

text \<open>What a reader of a dump finds in it; it accepts the lines only in the order of the format.\<close>

fun read_entry :: "trace_line \<Rightarrow> flight_record option" where
  "read_entry (OutputLine offset revision base64) =
     map_option (\<lambda>bs. FlightOutput offset (map of_nat bs) revision) (decode64 base64)"
| "read_entry (ResizeLine offset width height) = Some (FlightResize offset width height)"
| "read_entry _ = None"

fun read_tail ::
  "trace_line list \<Rightarrow> flight_record list \<Rightarrow> unsupported_sequence list \<Rightarrow>
     (flight_record list \<times> unsupported_sequence list \<times> trace_line) option" where
  "read_tail [FailureLine offset expected cause screen] rs us =
     Some (rs, us, FailureLine offset expected cause screen)"
| "read_tail (UnsupportedLine sequence n # ls) rs us =
     read_tail ls rs (us @ [\<lparr>us_sequence = sequence, us_count = n\<rparr>])"
| "read_tail (l # ls) rs us =
     (if us \<noteq> [] then None
      else case read_entry l of None \<Rightarrow> None | Some r \<Rightarrow> read_tail ls (rs @ [r]) us)"
| "read_tail [] rs us = None"

fun in_microseconds :: "flight_record \<Rightarrow> flight_record" where
  "in_microseconds (FlightOutput offset data revision) = FlightOutput (microseconds_of offset) data revision"
| "in_microseconds (FlightResize offset width height) = FlightResize (microseconds_of offset) width height"

lemma read_record_line: "read_entry (record_line r) = Some (in_microseconds r)"
proof (cases r)
  case (FlightOutput offset data revision)
  have "\<forall>b \<in> set (map unat data). b < 256" using unsigned_less [where ?'b = 8] by auto
  then show ?thesis using FlightOutput by (simp add: decode_encode comp_def)
qed simp

lemma read_tail_record:
  "read_tail (record_line r # ls) rs [] = read_tail ls (rs @ [in_microseconds r]) []"
  using read_record_line [of r] by (cases r) auto

lemma read_tail_records:
  "read_tail (map record_line rs @ ls) acc [] = read_tail ls (acc @ map in_microseconds rs) []"
  by (induction rs arbitrary: acc) (simp_all add: read_tail_record)

lemma read_tail_unsupported:
  "read_tail (map (\<lambda>u. UnsupportedLine (us_sequence u) (us_count u)) us @ [failure_line cause_text e r]) rs acc =
     Some (rs, acc @ us, failure_line cause_text e r)"
  by (induction us arbitrary: acc) (simp_all add: failure_line_def)

fun read_dump ::
  "trace_line list \<Rightarrow>
     (int \<times> int \<times> int \<times> flight_record list \<times> unsupported_sequence list \<times> trace_line) option" where
  "read_dump (HeaderLine version terminal start width height dropped # ls) =
     map_option (\<lambda>p. (width, height, dropped, p)) (read_tail ls [] [])"
| "read_dump _ = None"

definition dump_lines ::
  "(int \<Rightarrow> string) \<Rightarrow> (wait_cause \<Rightarrow> string) \<Rightarrow> wait_error \<Rightarrow> unsupported_sequence flight_recording \<Rightarrow> trace_line list" where
  "dump_lines start_text cause_text e r =
     HeaderLine dump_version (flight_recording.rec_profile r) (start_text (rec_start r)) (rec_width r) (rec_height r)
       (rec_dropped r) #
     map record_line (rec_records r) @
     map (\<lambda>u. UnsupportedLine (us_sequence u) (us_count u)) (rec_unsupported r) @ [failure_line cause_text e r]"

subsection \<open>Writers that fill up\<close>

text \<open>A writer that takes \<open>n\<close> lines and then fails.\<close>

definition room_for :: "nat \<Rightarrow> trace_line \<Rightarrow> trace_line list \<Rightarrow> string option \<times> trace_line list" where
  "room_for n l ls = (if length ls < n then (None, ls @ [l]) else (Some ''full'', ls))"

definition written :: "nat \<Rightarrow> trace_line list \<Rightarrow> trace_line list \<Rightarrow> string dump_error option \<times> trace_line list" where
  "written n ls w =
     (if length w + length ls \<le> n then (None, w @ ls) else (Some (DumpWrite ''full''), take n (w @ ls)))"

lemma write_records_written:
  "length w \<le> n \<Longrightarrow> write_records (room_for n) rs w = written n (map record_line rs) w"
  by (induction rs arbitrary: w) (auto simp: written_def room_for_def)

lemma write_unsupported_written:
  "length w \<le> n \<Longrightarrow>
     write_unsupported (room_for n) us w =
       written n (map (\<lambda>u. UnsupportedLine (us_sequence u) (us_count u)) us) w"
  by (induction us arbitrary: w) (auto simp: written_def room_for_def)

text \<open>
  A dump that was written without an error holds the flight recording: reading its lines gives the
  output byte for byte, the resizes, the counts and the failure, in order and with the times in
  microseconds. When the writer fails, the dump reports it and has written the lines before the failure.
\<close>

theorem dump_roundtrip:
  "WriteDump (room_for n) start_text cause_text (e, Some r) [] =
     (if length (dump_lines start_text cause_text e r) \<le> n then (None, dump_lines start_text cause_text e r)
      else (Some (DumpWrite ''full''), take n (dump_lines start_text cause_text e r))) \<and>
   read_dump (dump_lines start_text cause_text e r) =
     Some (rec_width r, rec_height r, rec_dropped r, map in_microseconds (rec_records r), rec_unsupported r,
       failure_line cause_text e r)"
proof
  show "WriteDump (room_for n) start_text cause_text (e, Some r) [] =
     (if length (dump_lines start_text cause_text e r) \<le> n then (None, dump_lines start_text cause_text e r)
      else (Some (DumpWrite ''full''), take n (dump_lines start_text cause_text e r)))"
    by (cases n) (auto simp: WriteDump_def write_records_written write_unsupported_written dump_lines_def
        room_for_def written_def not_le less_Suc_eq_le)
  show "read_dump (dump_lines start_text cause_text e r) =
     Some (rec_width r, rec_height r, rec_dropped r, map in_microseconds (rec_records r), rec_unsupported r,
       failure_line cause_text e r)"
    by (simp add: dump_lines_def read_tail_records read_tail_unsupported)
qed

end
