(* ===== verification/Mcp_Service.thy ===== *)
theory Mcp_Service
  imports Go_Strings Trace_Dump Workbench "HOL-Library.List_Lexorder" "HOL-Library.Char_ord"
begin

text \<open>
  The terminal automation service of the MCP server (\<open>mcpserver/service.go\<close>): the registries of
  profiles, connections, sessions and recordings, the sections that change them under \<open>mu\<close>, and the
  operations over them. The core server, its connections and the terminal factory are the fields of
  \<open>mcp_core\<close>; a wait is a function of the rounds it goes through, and one that has not returned is \<open>None\<close>.
\<close>

subsection \<open>State\<close>

record mcp_profile =
  mp_name :: string
  mp_description :: string
  mp_protocol :: string
  mp_terminal :: string
  mp_width :: int
  mp_height :: int
  mp_connector :: "nat option"

record profile_info =
  pi_name :: string
  pi_description :: string
  pi_protocol :: string
  pi_terminal :: string
  pi_width :: int
  pi_height :: int

record session_info =
  si_session :: nat
  si_connection :: nat
  si_terminal :: string
  si_width :: int
  si_height :: int

record managed_connection =
  mc_connection :: nat
  mc_profile :: mcp_profile

text \<open>How far the function of \<open>closeOnce\<close> has come.\<close>

datatype once = NotCalled | Running | Finished

record managed_session =
  ms_session :: nat
  ms_info :: session_info
  ms_failure :: "failure option"

record service =
  sv_profiles :: "string \<rightharpoonup> mcp_profile"
  sv_connections :: "nat \<rightharpoonup> managed_connection"
  sv_sessions :: "nat \<rightharpoonup> managed_session"
  sv_recordings :: "nat \<rightharpoonup> recording"
  sv_closed :: bool
  sv_closeOnce :: once
  sv_closeErr :: "string option"

datatype mcp_error =
    FactoryRequired
  | ProfileNameRequired
  | ProfileNameWhitespace string
  | ProtocolRequired string
  | TerminalRequired string
  | ProfileDimensions string
  | ProfileConnectorRequired string
  | DuplicateProfile string
  | ProfilesRequired
  | ServiceClosed
  | UnknownProfileName string
  | UnknownConnectionID nat
  | UnknownSessionID nat
  | ConnectionGone nat
  | FactoryFailed string
  | CoreError string
  | McpTextRequired
  | InvalidTimeout
  | InvalidStable
  | InvalidQuiet
  | InvalidMatcherSpec matcher_error
  | WaitRejected wait_cause
  | WaitError wait_error
  | KeyRequired
  | InvalidStep "string workbench_error"
  | AlreadyRecordingSession nat
  | NotRecordingSession nat
  | NoFailedWait nat
  | DumpFailed "string dump_error"
  | UnknownFormat
  | SessionFailed session_error
  | UnknownModifier string
  | MillisecondsOutOfRange

definition validateProfile :: "mcp_profile \<Rightarrow> mcp_error option" where
  "validateProfile p =
     (if mp_name p = [] then Some ProfileNameRequired
      else if TrimSpace (mp_name p) \<noteq> mp_name p then Some (ProfileNameWhitespace (mp_name p))
      else if mp_protocol p = [] then Some (ProtocolRequired (mp_name p))
      else if mp_terminal p = [] then Some (TerminalRequired (mp_name p))
      else if mp_width p \<le> 0 \<or> mp_height p \<le> 0 then Some (ProfileDimensions (mp_name p))
      else if mp_connector p = None then Some (ProfileConnectorRequired (mp_name p))
      else None)"

primrec add_profiles ::
  "mcp_profile list \<Rightarrow> (string \<rightharpoonup> mcp_profile) \<Rightarrow> mcp_error + (string \<rightharpoonup> mcp_profile)" where
  "add_profiles [] available = Inr available"
| "add_profiles (p # ps) available =
     (case validateProfile p of
        Some e \<Rightarrow> Inl e
      | None \<Rightarrow>
          if available (mp_name p) \<noteq> None then Inl (DuplicateProfile (mp_name p))
          else add_profiles ps (available(mp_name p \<mapsto> p)))"

definition new_service :: "mcp_profile list \<Rightarrow> mcp_error + service" where
  "new_service profiles =
     (case add_profiles profiles Map.empty of
        Inl e \<Rightarrow> Inl e
      | Inr available \<Rightarrow>
          if available = Map.empty then Inl ProfilesRequired
          else Inr \<lparr>sv_profiles = available, sv_connections = Map.empty, sv_sessions = Map.empty,
                    sv_recordings = Map.empty, sv_closed = False, sv_closeOnce = NotCalled, sv_closeErr = None\<rparr>)"

definition profile_info_of :: "mcp_profile \<Rightarrow> profile_info" where
  "profile_info_of p =
     \<lparr>pi_name = mp_name p, pi_description = mp_description p, pi_protocol = mp_protocol p,
      pi_terminal = mp_terminal p, pi_width = mp_width p, pi_height = mp_height p\<rparr>"

text \<open>\<open>Profiles\<close>: sorted by name; \<open>names\<close> is the order in which the map is ranged.\<close>

definition Profiles :: "string list \<Rightarrow> service \<Rightarrow> profile_info list" where
  "Profiles names sv = sort_key pi_name (map (\<lambda>n. profile_info_of (the (sv_profiles sv n))) names)"

subsection \<open>Sections\<close>

definition find_profile :: "string \<Rightarrow> service \<Rightarrow> mcp_error + mcp_profile" where
  "find_profile name sv =
     (if sv_closed sv then Inl ServiceClosed
      else case sv_profiles sv name of None \<Rightarrow> Inl (UnknownProfileName name) | Some p \<Rightarrow> Inr p)"

definition register_mcp_connection :: "nat \<Rightarrow> mcp_profile \<Rightarrow> service \<Rightarrow> service option" where
  "register_mcp_connection connection p sv =
     (if sv_closed sv then None
      else Some (sv\<lparr>sv_connections := (sv_connections sv)(connection \<mapsto> \<lparr>mc_connection = connection, mc_profile = p\<rparr>)\<rparr>))"

definition find_connection :: "nat \<Rightarrow> service \<Rightarrow> mcp_error + managed_connection" where
  "find_connection i sv =
     (if sv_closed sv then Inl ServiceClosed
      else case sv_connections sv i of None \<Rightarrow> Inl (UnknownConnectionID i) | Some m \<Rightarrow> Inr m)"

definition register_mcp_session ::
  "nat \<Rightarrow> managed_connection \<Rightarrow> nat \<Rightarrow> service \<Rightarrow> (mcp_error + session_info) \<times> service" where
  "register_mcp_session i managed session sv =
     (if sv_closed sv then (Inl ServiceClosed, sv)
      else case sv_connections sv i of
          None \<Rightarrow> (Inl (ConnectionGone i), sv)
        | Some current \<Rightarrow>
            if mc_connection current \<noteq> mc_connection managed then (Inl (ConnectionGone i), sv)
            else (let p = mc_profile managed;
                      info = \<lparr>si_session = session, si_connection = i, si_terminal = mp_terminal p,
                              si_width = mp_width p, si_height = mp_height p\<rparr>
                  in (Inr info, sv\<lparr>sv_sessions := (sv_sessions sv)(session \<mapsto>
                        \<lparr>ms_session = session, ms_info = info, ms_failure = None\<rparr>)\<rparr>)))"

definition findSession :: "nat \<Rightarrow> service \<Rightarrow> mcp_error + managed_session" where
  "findSession i sv =
     (if sv_closed sv then Inl ServiceClosed
      else case sv_sessions sv i of None \<Rightarrow> Inl (UnknownSessionID i) | Some m \<Rightarrow> Inr m)"

definition rememberFailure :: "nat \<Rightarrow> failure \<Rightarrow> service \<Rightarrow> service" where
  "rememberFailure i failure sv =
     (if snd failure = None then sv
      else case sv_sessions sv i of
          None \<Rightarrow> sv
        | Some m \<Rightarrow> sv\<lparr>sv_sessions := (sv_sessions sv)(i \<mapsto> m\<lparr>ms_failure := Some failure\<rparr>)\<rparr>)"

definition record_step :: "nat \<Rightarrow> step \<Rightarrow> service \<Rightarrow> service" where
  "record_step i p sv =
     (case sv_recordings sv i of
        None \<Rightarrow> sv
      | Some r \<Rightarrow> sv\<lparr>sv_recordings := (sv_recordings sv)(i \<mapsto> r\<lparr>rc_steps := rc_steps r @ [p]\<rparr>)\<rparr>)"

definition StartRecording :: "nat \<Rightarrow> service \<Rightarrow> (mcp_error + recording) \<times> service" where
  "StartRecording i sv =
     (if sv_closed sv then (Inl ServiceClosed, sv)
      else case sv_sessions sv i of
          None \<Rightarrow> (Inl (UnknownSessionID i), sv)
        | Some m \<Rightarrow>
            if sv_recordings sv i \<noteq> None then (Inl (AlreadyRecordingSession i), sv)
            else (let r = \<lparr>rc_version = RecordingVersion,
                           rc_session = \<lparr>ws_id = i, ws_terminal = si_terminal (ms_info m),
                                         ws_width = si_width (ms_info m), ws_height = si_height (ms_info m)\<rparr>,
                           rc_steps = []\<rparr>
                  in (Inr r, sv\<lparr>sv_recordings := (sv_recordings sv)(i \<mapsto> r)\<rparr>)))"

definition StopRecording :: "nat \<Rightarrow> service \<Rightarrow> (mcp_error + recording) \<times> service" where
  "StopRecording i sv =
     (if sv_closed sv then (Inl ServiceClosed, sv)
      else if sv_sessions sv i = None then (Inl (UnknownSessionID i), sv)
      else case sv_recordings sv i of
          None \<Rightarrow> (Inl (NotRecordingSession i), sv)
        | Some r \<Rightarrow> (Inr r, sv\<lparr>sv_recordings := (sv_recordings sv)(i := None)\<rparr>))"

definition remove_mcp_session :: "nat \<Rightarrow> service \<Rightarrow> managed_session option \<times> service" where
  "remove_mcp_session i sv =
     (case sv_sessions sv i of
        None \<Rightarrow> (None, sv)
      | Some m \<Rightarrow> (Some m, sv\<lparr>sv_sessions := (sv_sessions sv)(i := None), sv_recordings := (sv_recordings sv)(i := None)\<rparr>))"

definition remove_mcp_connection :: "nat \<Rightarrow> service \<Rightarrow> managed_connection option \<times> service" where
  "remove_mcp_connection i sv =
     (case sv_connections sv i of
        None \<Rightarrow> (None, sv)
      | Some m \<Rightarrow>
          (let gone = {s. \<exists>x. sv_sessions sv s = Some x \<and> si_connection (ms_info x) = i}
           in (Some m, sv\<lparr>sv_connections := (sv_connections sv)(i := None),
                          sv_sessions := sv_sessions sv |` (- gone),
                          sv_recordings := sv_recordings sv |` (- gone)\<rparr>)))"

definition close_section :: "service \<Rightarrow> service" where
  "close_section sv =
     sv\<lparr>sv_closed := True, sv_sessions := Map.empty, sv_connections := Map.empty, sv_recordings := Map.empty\<rparr>"

subsection \<open>Timeouts\<close>

definition defaultWaitTimeout :: int where "defaultWaitTimeout = 10000000000"
definition maximumWaitTimeout :: int where "maximumWaitTimeout = 120000000000"

definition effectiveTimeout :: "int \<Rightarrow> mcp_error + int" where
  "effectiveTimeout timeout =
     (if timeout = 0 then Inr defaultWaitTimeout
      else if timeout < 1000000 \<or> timeout > maximumWaitTimeout then Inl InvalidTimeout
      else Inr timeout)"

end
