(* ===== verification/Core_Contract.thy ===== *)
theory Core_Contract
  imports Lifecycle_Safety
begin

text \<open>
  What the core server promises its clients about the lifetimes of connections and sessions, as an
  abstract specification: a connection or session is open or not, and closing the one that owns it
  closes it in the same step. \<open>core_contract_met\<close> is the simulation that shows that the goroutines of
  \<open>server.go\<close>, \<open>connection.go\<close> and \<open>session.go\<close> implement it.
\<close>

text \<open>Everything the core has ever handed out, with whether it is still open; a session with its connection.\<close>

record core =
  kc_closed :: bool
  kc_conns :: "nat \<rightharpoonup> bool"
  kc_sessions :: "nat \<rightharpoonup> nat \<times> bool"

definition new_core :: core where
  "new_core = \<lparr>kc_closed = False, kc_conns = Map.empty, kc_sessions = Map.empty\<rparr>"

definition core_add_connection :: "nat \<Rightarrow> core \<Rightarrow> core" where
  "core_add_connection c k = k\<lparr>kc_conns := (kc_conns k)(c \<mapsto> True)\<rparr>"

text \<open>A session that is added while the server closes is born closed.\<close>

definition core_add_session :: "nat \<Rightarrow> nat \<Rightarrow> core \<Rightarrow> core" where
  "core_add_session c s k = k\<lparr>kc_sessions := (kc_sessions k)(s \<mapsto> (c, kc_conns k c = Some True))\<rparr>"

definition core_close_session :: "nat \<Rightarrow> core \<Rightarrow> core" where
  "core_close_session s k =
     k\<lparr>kc_sessions := (\<lambda>j. if j = s then map_option (apsnd (\<lambda>_. False)) (kc_sessions k j) else kc_sessions k j)\<rparr>"

definition core_close_connection :: "nat \<Rightarrow> core \<Rightarrow> core" where
  "core_close_connection c k =
     k\<lparr>kc_conns := (\<lambda>j. if j = c then map_option (\<lambda>_. False) (kc_conns k j) else kc_conns k j),
       kc_sessions := (\<lambda>j. map_option (\<lambda>(d, up). (d, up \<and> d \<noteq> c)) (kc_sessions k j))\<rparr>"

definition core_close_server :: "core \<Rightarrow> core" where
  "core_close_server k =
     \<lparr>kc_closed = True, kc_conns = (\<lambda>j. map_option (\<lambda>_. False) (kc_conns k j)),
      kc_sessions = (\<lambda>j. map_option (apsnd (\<lambda>_. False)) (kc_sessions k j))\<rparr>"

inductive core_step :: "core \<Rightarrow> core \<Rightarrow> bool" where
  core_connects: "\<not> kc_closed k \<Longrightarrow> kc_conns k c = None \<Longrightarrow> core_step k (core_add_connection c k)"
| core_opens:
    "kc_conns k c \<noteq> None \<Longrightarrow> kc_conns k c = Some True \<or> kc_closed k \<Longrightarrow> kc_sessions k s = None \<Longrightarrow>
       core_step k (core_add_session c s k)"
| core_session_ends: "core_step k (core_close_session s k)"
| core_connection_closes: "core_step k (core_close_connection c k)"
| core_server_closes: "core_step k (core_close_server k)"

subsection \<open>The simulation\<close>

definition up_conns :: "bool \<Rightarrow> (nat \<rightharpoonup> conn_life) \<Rightarrow> nat \<rightharpoonup> bool" where
  "up_conns closed conns = (\<lambda>c. map_option (\<lambda>k. \<not> closed \<and> \<not> cl_closed k) (conns c))"

definition up_sessions :: "bool \<Rightarrow> (nat \<rightharpoonup> conn_life) \<Rightarrow> (nat \<rightharpoonup> sess_life) \<Rightarrow> nat \<rightharpoonup> nat \<times> bool" where
  "up_sessions closed conns sessions =
     (\<lambda>s. map_option (\<lambda>l. (sl_conn l, up_conns closed conns (sl_conn l) = Some True \<and>
                             \<not> sl_closing l \<and> \<not> sl_done l)) (sessions s))"

definition core_of :: "lifecycle \<Rightarrow> core" where
  "core_of \<sigma> = \<lparr>kc_closed = lf_closed \<sigma>, kc_conns = up_conns (lf_closed \<sigma>) (lf_conns \<sigma>),
     kc_sessions = up_sessions (lf_closed \<sigma>) (lf_conns \<sigma>) (lf_sessions \<sigma>)\<rparr>"

lemma core_of_same:
  "lf_closed \<tau> = lf_closed \<sigma> \<Longrightarrow> lf_conns \<tau> = lf_conns \<sigma> \<Longrightarrow> lf_sessions \<tau> = lf_sessions \<sigma> \<Longrightarrow> core_of \<tau> = core_of \<sigma>"
  by (simp add: core_of_def)


lemma core_of_call:
  assumes "call_step \<sigma> \<tau>"
  shows "core_of \<tau> = core_of \<sigma> \<or> core_step (core_of \<sigma>) (core_of \<tau>)"
  using assms
proof cases
  case (server_close i cs)
  then have "core_of \<tau> = core_close_server (core_of \<sigma>)"
    by (simp add: core_of_def core_close_server_def lifecycle up_conns_def up_sessions_def fun_eq_iff
        option.map_comp comp_def map_option.compositionality)
  then show ?thesis using core_server_closes by simp
qed (rule disjI1, rule core_of_same; simp add: lifecycle)+

lemma core_of_register:
  assumes "lf_conns \<sigma> c = None" "\<not> lf_closed \<sigma>" "registries_ok \<sigma>"
  shows "core_of (go i fs (add_connection c opener \<sigma>)) = core_add_connection c (core_of \<sigma>)"
proof -
  have *: "\<exists>k. lf_conns \<sigma> (sl_conn l) = Some k" if "lf_sessions \<sigma> s = Some l" for s l
    using known_conn [OF assms(3) that] .
  have "map_option (\<lambda>l. (sl_conn l, up_conns False ((lf_conns \<sigma>)(c \<mapsto> x)) (sl_conn l) = Some True \<and>
            \<not> sl_closing l \<and> \<not> sl_done l)) (lf_sessions \<sigma> s) =
        map_option (\<lambda>l. (sl_conn l, up_conns False (lf_conns \<sigma>) (sl_conn l) = Some True \<and>
            \<not> sl_closing l \<and> \<not> sl_done l)) (lf_sessions \<sigma> s)" for s x
    using * [of s] assms(1) by (cases "lf_sessions \<sigma> s") (auto simp: up_conns_def)
  then show ?thesis using assms(2)
    by (simp add: core_of_def core_add_connection_def lifecycle up_sessions_def up_conns_def fun_eq_iff)
qed

lemma core_of_conn_close:
  assumes "lf_conns \<sigma> c = Some k"
  shows "core_of (go i fs (put_conn c (k\<lparr>cl_closed := True\<rparr>) \<sigma>)) = core_close_connection c (core_of \<sigma>)"
  using assms
  by (auto simp: core_of_def core_close_connection_def lifecycle up_sessions_def up_conns_def fun_eq_iff
      map_option.compositionality comp_def split: if_splits intro!: map_option_cong)

lemma core_of_end:
  assumes "lf_sessions \<sigma> s = Some l" "sl_conn l' = sl_conn l" "sl_closing l' \<or> sl_done l'"
  shows "core_of (go i fs (put_sess s l' \<sigma>)) = core_close_session s (core_of \<sigma>)"
  using assms
  by (auto simp: core_of_def core_close_session_def lifecycle up_sessions_def fun_eq_iff)

lemma core_of_add_session:
  assumes "lf_conns \<sigma> c = Some k" "\<not> cl_closed k"
  shows "core_of (go i fs (add_session_to c k s \<sigma>)) = core_add_session c s (core_of \<sigma>)"
proof -
  have "up_conns b ((lf_conns \<sigma>)(c \<mapsto> k\<lparr>cl_sessions := S\<rparr>)) = up_conns b (lf_conns \<sigma>)" for b S
    using assms(1) by (auto simp: up_conns_def)
  then show ?thesis using assms
    by (simp add: core_of_def core_add_session_def lifecycle up_sessions_def fun_eq_iff)
qed

lemma core_of_same_flags:
  assumes "lf_conns \<sigma> c = Some k" "cl_closed k' = cl_closed k"
  shows "core_of (go i fs (put_conn c k' \<sigma>)) = core_of \<sigma>"
proof -
  have "up_conns b ((lf_conns \<sigma>)(c \<mapsto> k')) = up_conns b (lf_conns \<sigma>)" for b
    using assms by (auto simp: up_conns_def)
  then show ?thesis by (simp add: core_of_def lifecycle up_sessions_def)
qed

lemma core_of_work:
  assumes "work_step \<sigma> \<tau>" "sound \<sigma>"
  shows "core_of \<tau> = core_of \<sigma> \<or> core_step (core_of \<sigma>) (core_of \<tau>)"
  using assms(1)
proof cases
  case (register i opener fs c)
  have "bounded_ids \<sigma>" using assms(2) by (simp add: sound_def)
  then have none: "lf_conns \<sigma> c = None"
    using register(4) by (auto simp: bounded_ids_def) (metis Suc_n_not_le_n option.exhaust)
  then have "core_of \<tau> = core_add_connection c (core_of \<sigma>)"
    using register core_of_register assms(2) by (simp add: sound_def)
  then show ?thesis using none register
    by (simp add: core_step.core_connects core_of_def up_conns_def)
next
  case (conn_close i c fs k ss)
  then show ?thesis by (simp add: core_of_conn_close core_connection_closes)
next
  case (conn_finish i c fs k)
  then show ?thesis by (simp add: core_of_same_flags)
next
  case (add_session i c s fs k)
  then have "lf_threads \<sigma> i = [Opened c s]"
    using assms(2) shape_holds [of "Opened c s" fs s] by (auto simp: sound_def shapes_def) metis
  then have "lf_sessions \<sigma> s = None" using assms(2) by (auto simp: sound_def held_once_def)
  then have "core_step (core_of \<sigma>) (core_add_session c s (core_of \<sigma>))"
    using add_session by (intro core_opens) (auto simp: core_of_def up_conns_def up_sessions_def)
  then show ?thesis using add_session by (simp add: core_of_add_session)
next
  case (sess_close i s fs l)
  then show ?thesis by (simp add: core_of_end core_session_ends)
next
  case (sess_finish i s fs l)
  then show ?thesis by (simp add: core_of_end core_session_ends)
next
  case (sess_remove i s fs l k)
  then show ?thesis by (simp add: core_of_same_flags removeSession_def)
qed (rule disjI1, rule core_of_same; simp add: lifecycle)+

text \<open>
  C10: The goroutines of the core server implement the contract of its clients: every step of every
  interleaving leaves what is open unchanged or is one step of the contract, so that closing a
  connection or the server closes all it owns at once, whatever runs at the same time.
\<close>

theorem core_contract_met:
  assumes "live \<sigma>" "call_step \<sigma> \<tau> \<or> work_step \<sigma> \<tau>"
  shows "core_of \<tau> = core_of \<sigma> \<or> core_step (core_of \<sigma>) (core_of \<tau>)"
  using assms core_of_call core_of_work live_sound by blast

theorem core_contract_met_witness:
  "core_of run_dialed = new_core \<and> core_step new_core (core_of (go 0 [] (add_connection 1 0 run_dialed)))"
proof -
  have "work_step run_dialed (go 0 [] (add_connection 1 0 run_dialed))"
    by (rule work_step.register [of _ _ 0]) (simp_all add: run_dialed_def new_server_def lifecycle)
  note * = core_contract_met [OF live_dialed disjI2 [OF this]]
  have c: "core_of run_dialed = new_core"
    by (simp add: core_of_def new_core_def run_dialed_def new_server_def lifecycle up_conns_def up_sessions_def fun_eq_iff)
  moreover have "core_of (go 0 [] (add_connection 1 0 run_dialed)) \<noteq> new_core"
    by (simp add: core_of_def new_core_def run_dialed_def new_server_def lifecycle up_conns_def fun_eq_iff)
  ultimately show ?thesis using * by simp
qed

end
