(* ===== verification/Mcp_Calls.thy ===== *)
theory Mcp_Calls
  imports Mcp_Service Core_Contract
begin

text \<open>
  The calls of MCP clients that open and close connections and sessions (\<open>mcpserver/service.go\<close>:
  \<open>Connect\<close>, \<open>OpenSession\<close>, \<open>CloseSession\<close>, \<open>CloseConnection\<close>, \<open>Close\<close>), interleaved: a step is one
  section under \<open>mu\<close>, the effect of one call into the core, or something the core does by itself. The
  core is the contract of \<open>Core_Contract\<close>, which its goroutines implement.
\<close>

subsection \<open>Calls\<close>

text \<open>Where a call is between two of its steps.\<close>

datatype mcp_frame =
    Idle
  | Connecting mcp_profile
  | Connected mcp_profile nat
  | DroppingConnection nat
  | OpeningOn nat managed_connection
  | OpenedOn nat managed_connection nat
  | DroppingSession nat
  | ClosingSession nat
  | ClosingConnection nat
  | CloseCalled
  | ClosingServer

record mcp_state =
  mx_service :: service
  mx_core :: core
  mx_calls :: "nat \<Rightarrow> mcp_frame"

definition goes :: "nat \<Rightarrow> mcp_frame \<Rightarrow> mcp_state \<Rightarrow> mcp_state" where
  "goes j f x = x\<lparr>mx_calls := (mx_calls x)(j := f)\<rparr>"

definition with_service :: "service \<Rightarrow> mcp_state \<Rightarrow> mcp_state" where
  "with_service sv x = x\<lparr>mx_service := sv\<rparr>"

definition with_core :: "core \<Rightarrow> mcp_state \<Rightarrow> mcp_state" where
  "with_core k x = x\<lparr>mx_core := k\<rparr>"

definition new_mcp :: "service \<Rightarrow> mcp_state" where
  "new_mcp sv = \<lparr>mx_service = sv, mx_core = new_core, mx_calls = (\<lambda>_. Idle)\<rparr>"

text \<open>The first and the last section of \<open>Connect\<close>.\<close>

definition connect_begin :: "nat \<Rightarrow> string \<Rightarrow> mcp_state \<Rightarrow> mcp_state" where
  "connect_begin j name x =
     (case find_profile name (mx_service x) of Inl e \<Rightarrow> x | Inr p \<Rightarrow> goes j (Connecting p) x)"

definition connect_end :: "nat \<Rightarrow> mcp_profile \<Rightarrow> nat \<Rightarrow> mcp_state \<Rightarrow> mcp_state" where
  "connect_end j p c x =
     (case register_mcp_connection c p (mx_service x) of
        None \<Rightarrow> goes j (DroppingConnection c) x
      | Some sv \<Rightarrow> goes j Idle (with_service sv x))"

text \<open>The first and the last section of \<open>OpenSession\<close>.\<close>

definition open_begin :: "nat \<Rightarrow> nat \<Rightarrow> mcp_state \<Rightarrow> mcp_state" where
  "open_begin j i x =
     (case find_connection i (mx_service x) of Inl e \<Rightarrow> x | Inr m \<Rightarrow> goes j (OpeningOn i m) x)"

definition open_end :: "nat \<Rightarrow> nat \<Rightarrow> managed_connection \<Rightarrow> nat \<Rightarrow> mcp_state \<Rightarrow> mcp_state" where
  "open_end j i m s x =
     (case register_mcp_session i m s (mx_service x) of
        (Inl e, _) \<Rightarrow> goes j (DroppingSession s) x
      | (Inr info, sv) \<Rightarrow> goes j Idle (with_service sv x))"

text \<open>The first sections of \<open>CloseSession\<close> and \<open>CloseConnection\<close>.\<close>

definition close_session_begin :: "nat \<Rightarrow> nat \<Rightarrow> mcp_state \<Rightarrow> mcp_state" where
  "close_session_begin j i x =
     (case remove_mcp_session i (mx_service x) of
        (None, _) \<Rightarrow> x
      | (Some m, sv) \<Rightarrow> goes j (ClosingSession (ms_session m)) (with_service sv x))"

definition close_connection_begin :: "nat \<Rightarrow> nat \<Rightarrow> mcp_state \<Rightarrow> mcp_state" where
  "close_connection_begin j i x =
     (case remove_mcp_connection i (mx_service x) of
        (None, _) \<Rightarrow> x
      | (Some m, sv) \<Rightarrow> goes j (ClosingConnection (mc_connection m)) (with_service sv x))"

text \<open>\<open>closeOnce.Do\<close> lets one call of \<open>Close\<close> through; the others return when it has.\<close>

definition close_begin :: "nat \<Rightarrow> mcp_state \<Rightarrow> mcp_state" where
  "close_begin j x =
     (if sv_closeOnce (mx_service x) \<noteq> NotCalled then x
      else goes j CloseCalled (with_service ((mx_service x)\<lparr>sv_closeOnce := Running\<rparr>) x))"

definition close_end :: "nat \<Rightarrow> string option \<Rightarrow> mcp_state \<Rightarrow> mcp_state" where
  "close_end j failure x =
     goes j Idle (with_core (core_close_server (mx_core x))
       (with_service ((mx_service x)\<lparr>sv_closeOnce := Finished, sv_closeErr := failure\<rparr>) x))"

inductive mcp_step :: "mcp_state \<Rightarrow> mcp_state \<Rightarrow> bool" where
  connect_call: "mx_calls x j = Idle \<Longrightarrow> mcp_step x (connect_begin j name x)"
| connect_core:
    "mx_calls x j = Connecting p \<Longrightarrow> \<not> kc_closed (mx_core x) \<Longrightarrow> kc_conns (mx_core x) c = None \<Longrightarrow>
       mcp_step x (goes j (Connected p c) (with_core (core_add_connection c (mx_core x)) x))"
| connect_fails: "mx_calls x j = Connecting p \<Longrightarrow> mcp_step x (goes j Idle x)"
| connect_registers: "mx_calls x j = Connected p c \<Longrightarrow> mcp_step x (connect_end j p c x)"
| connection_dropped:
    "mx_calls x j = DroppingConnection c \<or> mx_calls x j = ClosingConnection c \<Longrightarrow>
       mcp_step x (goes j Idle (with_core (core_close_connection c (mx_core x)) x))"
| open_call: "mx_calls x j = Idle \<Longrightarrow> mcp_step x (open_begin j i x)"
| open_core:
    "mx_calls x j = OpeningOn i m \<Longrightarrow> kc_sessions (mx_core x) s = None \<Longrightarrow>
       kc_conns (mx_core x) (mc_connection m) = Some True \<or> kc_closed (mx_core x) \<Longrightarrow>
       mcp_step x (goes j (OpenedOn i m s) (with_core (core_add_session (mc_connection m) s (mx_core x)) x))"
| open_fails: "mx_calls x j = OpeningOn i m \<Longrightarrow> mcp_step x (goes j Idle x)"
| open_registers: "mx_calls x j = OpenedOn i m s \<Longrightarrow> mcp_step x (open_end j i m s x)"
| session_dropped:
    "mx_calls x j = DroppingSession s \<or> mx_calls x j = ClosingSession s \<Longrightarrow>
       mcp_step x (goes j Idle (with_core (core_close_session s (mx_core x)) x))"
| close_session_call: "mx_calls x j = Idle \<Longrightarrow> mcp_step x (close_session_begin j i x)"
| close_connection_call: "mx_calls x j = Idle \<Longrightarrow> mcp_step x (close_connection_begin j i x)"
| close_call: "mx_calls x j = Idle \<Longrightarrow> mcp_step x (close_begin j x)"
| close_clears:
    "mx_calls x j = CloseCalled \<Longrightarrow>
       mcp_step x (goes j ClosingServer (with_service (close_section (mx_service x)) x))"
| close_core: "mx_calls x j = ClosingServer \<Longrightarrow> mcp_step x (close_end j failure x)"
| session_call: "mcp_step x (with_service (rememberFailure i failure (mx_service x)) x)"
| recorded_call: "mcp_step x (with_service (record_step i p (mx_service x)) x)"
| recording_starts: "mcp_step x (with_service (snd (StartRecording i (mx_service x))) x)"
| recording_stops: "mcp_step x (with_service (snd (StopRecording i (mx_service x))) x)"
| host_ends: "mcp_step x (with_core (core_close_session s (mx_core x)) x)"

inductive mcp_run :: "service \<Rightarrow> mcp_state \<Rightarrow> bool" for sv where
  mcp_start: "mcp_run sv (new_mcp sv)"
| mcp_next: "mcp_run sv x \<Longrightarrow> mcp_step x y \<Longrightarrow> mcp_run sv y"

subsection \<open>The invariant\<close>

definition approved :: "service \<Rightarrow> mcp_profile \<Rightarrow> bool" where
  "approved sv p \<longleftrightarrow> (\<exists>n. sv_profiles sv n = Some p)"

definition knows :: "core \<Rightarrow> nat \<Rightarrow> bool" where
  "knows k c \<longleftrightarrow> kc_conns k c \<noteq> None"

definition knows_session :: "core \<Rightarrow> nat \<Rightarrow> nat \<Rightarrow> bool" where
  "knows_session k c s \<longleftrightarrow> (\<exists>up. kc_sessions k s = Some (c, up))"

definition core_ok :: "core \<Rightarrow> bool" where
  "core_ok k \<longleftrightarrow> (\<forall>c. kc_closed k \<longrightarrow> kc_conns k c \<noteq> Some True) \<and>
     (\<forall>s c up. kc_sessions k s = Some (c, up) \<longrightarrow> knows k c \<and> (up \<longrightarrow> kc_conns k c = Some True))"

definition connections_ok :: "mcp_state \<Rightarrow> bool" where
  "connections_ok x \<longleftrightarrow> (\<forall>c m. sv_connections (mx_service x) c = Some m \<longrightarrow>
     mc_connection m = c \<and> knows (mx_core x) c \<and> approved (mx_service x) (mc_profile m))"

definition sessions_ok :: "mcp_state \<Rightarrow> bool" where
  "sessions_ok x \<longleftrightarrow> (\<forall>i m. sv_sessions (mx_service x) i = Some m \<longrightarrow>
     ms_session m = i \<and> si_session (ms_info m) = i \<and>
     si_connection (ms_info m) \<in> dom (sv_connections (mx_service x)) \<and>
     knows_session (mx_core x) (si_connection (ms_info m)) i)"

definition recordings_ok :: "mcp_state \<Rightarrow> bool" where
  "recordings_ok x \<longleftrightarrow> dom (sv_recordings (mx_service x)) \<subseteq> dom (sv_sessions (mx_service x))"

definition closed_ok :: "mcp_state \<Rightarrow> bool" where
  "closed_ok x \<longleftrightarrow> (sv_closed (mx_service x) \<longrightarrow> sv_connections (mx_service x) = Map.empty \<and>
       sv_sessions (mx_service x) = Map.empty \<and> sv_recordings (mx_service x) = Map.empty) \<and>
     (sv_closeOnce (mx_service x) = Finished \<longrightarrow> sv_closed (mx_service x) \<and> kc_closed (mx_core x))"

fun frame_fits :: "mcp_state \<Rightarrow> mcp_frame \<Rightarrow> bool" where
  "frame_fits x (Connecting p) = approved (mx_service x) p"
| "frame_fits x (Connected p c) = (approved (mx_service x) p \<and> knows (mx_core x) c)"
| "frame_fits x (OpeningOn i m) = (mc_connection m = i \<and> knows (mx_core x) i)"
| "frame_fits x (OpenedOn i m s) = (mc_connection m = i \<and> knows_session (mx_core x) i s)"
| "frame_fits x ClosingServer = sv_closed (mx_service x)"
| "frame_fits x _ = True"

definition calls_ok :: "mcp_state \<Rightarrow> bool" where
  "calls_ok x \<longleftrightarrow> (\<forall>j. frame_fits x (mx_calls x j))"

text \<open>What an open connection or session is accounted to: a registry, or a call that will deal with it.\<close>

fun holds_connection :: "nat \<Rightarrow> mcp_frame \<Rightarrow> bool" where
  "holds_connection c (Connected p d) = (c = d)"
| "holds_connection c (DroppingConnection d) = (c = d)"
| "holds_connection c (ClosingConnection d) = (c = d)"
| "holds_connection c ClosingServer = True"
| "holds_connection c _ = False"

fun holds_session :: "nat \<Rightarrow> nat \<Rightarrow> mcp_frame \<Rightarrow> bool" where
  "holds_session c s (OpenedOn i m t) = (s = t)"
| "holds_session c s (DroppingSession t) = (s = t)"
| "holds_session c s (ClosingSession t) = (s = t)"
| "holds_session c s (ClosingConnection d) = (c = d)"
| "holds_session c s ClosingServer = True"
| "holds_session c s _ = False"

definition some_call :: "mcp_state \<Rightarrow> (mcp_frame \<Rightarrow> bool) \<Rightarrow> bool" where
  "some_call x P \<longleftrightarrow> (\<exists>j. P (mx_calls x j))"

definition other_call :: "nat \<Rightarrow> mcp_state \<Rightarrow> (mcp_frame \<Rightarrow> bool) \<Rightarrow> bool" where
  "other_call j x P \<longleftrightarrow> (\<exists>i. i \<noteq> j \<and> P (mx_calls x i))"

definition accounted :: "mcp_state \<Rightarrow> bool" where
  "accounted x \<longleftrightarrow>
     (\<forall>c. kc_conns (mx_core x) c = Some True \<longrightarrow>
        c \<in> dom (sv_connections (mx_service x)) \<or> some_call x (holds_connection c)) \<and>
     (\<forall>s c. kc_sessions (mx_core x) s = Some (c, True) \<longrightarrow>
        s \<in> dom (sv_sessions (mx_service x)) \<or> some_call x (holds_session c s))"

definition mcp_ok :: "mcp_state \<Rightarrow> bool" where
  "mcp_ok x \<longleftrightarrow> core_ok (mx_core x) \<and> connections_ok x \<and> sessions_ok x \<and> recordings_ok x \<and> closed_ok x \<and>
     calls_ok x \<and> accounted x"

named_theorems mcp

declare goes_def [mcp] with_service_def [mcp] with_core_def [mcp] core_add_connection_def [mcp]
  core_add_session_def [mcp] core_close_session_def [mcp] core_close_connection_def [mcp]
  core_close_server_def [mcp]

lemma some_call_at: "some_call x P \<longleftrightarrow> P (mx_calls x j) \<or> other_call j x P"
  by (auto simp: some_call_def other_call_def)

lemma other_goes [simp]: "other_call j (goes j f x) P = other_call j x P"
  by (auto simp: other_call_def goes_def)

lemma some_goes [simp]: "some_call (goes j f x) P = (P f \<or> other_call j x P)"
  by (auto simp: some_call_def other_call_def goes_def)

lemma calls_with [simp]:
  "mx_calls (with_service sv x) = mx_calls x" "mx_calls (with_core k x) = mx_calls x"
  "other_call j (with_service sv x) P = other_call j x P" "other_call j (with_core k x) P = other_call j x P"
  "some_call (with_service sv x) P = some_call x P" "some_call (with_core k x) P = some_call x P"
  "mx_calls (goes j f x) = (mx_calls x)(j := f)"
  by (simp_all add: mcp other_call_def some_call_def)

lemma service_with [simp]:
  "mx_service (with_service sv x) = sv" "mx_core (with_service sv x) = mx_core x"
  "mx_service (with_core k x) = mx_service x" "mx_core (with_core k x) = k"
  "mx_service (goes j f x) = mx_service x" "mx_core (goes j f x) = mx_core x"
  by (simp_all add: mcp)

lemma knows_simps [simp]:
  "knows (core_add_connection c k) d \<longleftrightarrow> d = c \<or> knows k d"
  "knows (core_add_session c s k) d = knows k d"
  "knows (core_close_session s k) d = knows k d"
  "knows (core_close_connection c k) d = knows k d"
  "knows (core_close_server k) d = knows k d"
  by (auto simp: knows_def mcp)

lemma knows_session_simps [simp]:
  "knows_session (core_add_connection c k) = knows_session k"
  "knows_session (core_add_session c s k) d t \<longleftrightarrow> (if s = t then c = d else knows_session k d t)"
  "knows_session (core_close_session s k) = knows_session k"
  "knows_session (core_close_connection c k) = knows_session k"
  "knows_session (core_close_server k) = knows_session k"
  by (auto simp: knows_session_def mcp fun_eq_iff)

lemma approved_same [simp]:
  "approved (sv\<lparr>sv_connections := cs\<rparr>) = approved sv" "approved (sv\<lparr>sv_sessions := ss\<rparr>) = approved sv"
  "approved (sv\<lparr>sv_recordings := rs\<rparr>) = approved sv" "approved (sv\<lparr>sv_closeOnce := o1\<rparr>) = approved sv"
  "approved (sv\<lparr>sv_closeErr := e\<rparr>) = approved sv" "approved (sv\<lparr>sv_closed := b\<rparr>) = approved sv"
  by (simp_all add: approved_def fun_eq_iff)

lemma core_ok_steps [simp]:
  "core_ok k \<Longrightarrow> \<not> kc_closed k \<Longrightarrow> core_ok (core_add_connection c k)"
  "core_ok k \<Longrightarrow> knows k c \<Longrightarrow> core_ok (core_add_session c s k)"
  "core_ok k \<Longrightarrow> core_ok (core_close_session s k)"
  "core_ok k \<Longrightarrow> core_ok (core_close_connection c k)"
  "core_ok k \<Longrightarrow> core_ok (core_close_server k)"
  by (auto simp: core_ok_def knows_def mcp split: if_splits)

lemmas call_defs = connect_begin_def connect_end_def open_begin_def open_end_def close_session_begin_def
  close_connection_begin_def close_begin_def close_end_def

lemmas section_defs = find_profile_def register_mcp_connection_def find_connection_def register_mcp_session_def
  rememberFailure_def record_step_def StartRecording_def StopRecording_def remove_mcp_session_def
  remove_mcp_connection_def close_section_def Let_def

lemmas section_splits = option.splits sum.splits if_splits prod.splits

lemma calls_fit: "calls_ok x \<Longrightarrow> mx_calls x j = f \<Longrightarrow> frame_fits x f"
  by (auto simp: calls_ok_def)

lemma mcp_core_ok:
  assumes "mcp_step x y" "core_ok (mx_core x)" "calls_ok x"
  shows "core_ok (mx_core y)"
  using assms(1)
  by cases (use assms(2) calls_fit [OF assms(3)] in \<open>fastforce simp: call_defs split: section_splits\<close>)+

lemma mcp_connections_ok:
  assumes "mcp_step x y" "connections_ok x" "calls_ok x"
  shows "connections_ok y"
  using assms(1)
proof cases
  case (connect_registers j p c)
  then show ?thesis using assms(2) calls_fit [OF assms(3), of j]
    by (auto simp: call_defs section_defs connections_ok_def split: section_splits)
qed (use assms(2) in \<open>auto simp: call_defs section_defs connections_ok_def split: section_splits\<close>)

lemma mcp_sessions_ok:
  assumes "mcp_step x y" "sessions_ok x" "connections_ok x" "calls_ok x"
  shows "sessions_ok y"
  using assms(1)
proof cases
  case (open_registers j i m s)
  then show ?thesis using assms(2) calls_fit [OF assms(4), of j]
    by (auto simp: call_defs section_defs sessions_ok_def split: section_splits)
next
  case (open_core j i m s)
  have "\<not> knows_session (mx_core x) c s" for c using open_core by (simp add: knows_session_def)
  then show ?thesis using open_core assms(2) by (auto simp: sessions_ok_def)
next
  case (close_connection_call j i)
  then show ?thesis using assms(2)
    by (auto simp: call_defs section_defs sessions_ok_def restrict_map_def split: section_splits)
qed (use assms(2) in \<open>auto simp: call_defs section_defs sessions_ok_def split: section_splits\<close>)

lemma mcp_recordings_ok:
  assumes "mcp_step x y" "recordings_ok x"
  shows "recordings_ok y"
  using assms(1)
  by cases (use assms(2) in \<open>force simp: call_defs section_defs recordings_ok_def split: section_splits\<close>)+

lemma mcp_closed_ok:
  assumes "mcp_step x y" "closed_ok x" "calls_ok x"
  shows "closed_ok y"
  using assms(1)
proof cases
  case (close_core j failure)
  then show ?thesis using assms(2) calls_fit [OF assms(3), of j]
    by (auto simp: call_defs closed_ok_def mcp)
qed (use assms(2) in \<open>auto simp: call_defs section_defs closed_ok_def core_add_connection_def core_add_session_def
       core_close_connection_def core_close_session_def split: section_splits\<close>)

lemma frame_fits_grows:
  assumes "frame_fits x f" "sv_profiles (mx_service y) = sv_profiles (mx_service x)"
    "sv_closed (mx_service x) \<Longrightarrow> sv_closed (mx_service y)" "\<And>c. knows (mx_core x) c \<Longrightarrow> knows (mx_core y) c"
    "\<And>c s. knows_session (mx_core x) c s \<Longrightarrow> knows_session (mx_core y) c s"
  shows "frame_fits y f"
  using assms by (cases f) (auto simp: approved_def)

lemma mcp_grows:
  assumes "mcp_step x y"
  shows "sv_profiles (mx_service y) = sv_profiles (mx_service x) \<and>
    (sv_closed (mx_service x) \<longrightarrow> sv_closed (mx_service y)) \<and>
    (\<forall>c. knows (mx_core x) c \<longrightarrow> knows (mx_core y) c) \<and>
    (\<forall>c s. knows_session (mx_core x) c s \<longrightarrow> knows_session (mx_core y) c s)"
  using assms
proof cases
  case (open_core j i m s)
  then have "\<not> knows_session (mx_core x) c s" for c by (simp add: knows_session_def)
  then show ?thesis using open_core by auto
qed (auto simp: call_defs section_defs split: section_splits)

lemma mcp_calls_ok:
  assumes "mcp_step x y" "connections_ok x" "calls_ok x"
  shows "calls_ok y"
proof -
  have grows: "frame_fits y f" if "frame_fits x f" for f
    using mcp_grows [OF assms(1)] by (intro frame_fits_grows [OF that]) simp_all
  note fit = calls_fit [OF assms(3)]
  have "frame_fits y (mx_calls y i)" for i
  proof (cases "mx_calls y i = mx_calls x i")
    case True
    then show ?thesis using grows fit by metis
  next
    case False
    show ?thesis using assms(1)
    proof cases
      case (connect_call j name)
      then show ?thesis using False
        by (auto simp: call_defs section_defs approved_def split: section_splits)
    next
      case (connect_core j p c)
      then show ?thesis using False fit [of j] by (auto split: if_splits)
    next
      case (open_call j k)
      then show ?thesis using False assms(2)
        by (auto simp: call_defs section_defs connections_ok_def split: section_splits)
    next
      case (open_core j k m s)
      then show ?thesis using False fit [of j] by (auto split: if_splits)
    qed (use False in \<open>auto simp: call_defs section_defs split: section_splits\<close>)
  qed
  then show ?thesis by (simp add: calls_ok_def)
qed

lemma core_up [simp]:
  "kc_conns (core_add_connection c k) d = Some True \<longleftrightarrow> d = c \<or> kc_conns k d = Some True"
  "kc_conns (core_add_session c s k) = kc_conns k"
  "kc_conns (core_close_session s k) = kc_conns k"
  "kc_conns (core_close_connection c k) d = Some True \<longleftrightarrow> d \<noteq> c \<and> kc_conns k d = Some True"
  "kc_conns (core_close_server k) d \<noteq> Some True"
  by (auto simp: mcp)

lemma core_session_up [simp]:
  "kc_sessions (core_add_connection c k) = kc_sessions k"
  "kc_sessions (core_add_session c s k) t = Some (d, True) \<longleftrightarrow>
     (if t = s then d = c \<and> kc_conns k c = Some True else kc_sessions k t = Some (d, True))"
  "kc_sessions (core_close_session s k) t = Some (d, True) \<longleftrightarrow> t \<noteq> s \<and> kc_sessions k t = Some (d, True)"
  "kc_sessions (core_close_connection c k) t = Some (d, True) \<longleftrightarrow> d \<noteq> c \<and> kc_sessions k t = Some (d, True)"
  "kc_sessions (core_close_server k) t \<noteq> Some (d, True)"
  by (auto simp: mcp)

text \<open>A call that moves on from \<open>f\<close> answers for what \<open>f\<close> held; the others answer as before.\<close>

lemma accounted_at:
  assumes "accounted x" "mx_calls x j = f"
  shows "(\<forall>c. kc_conns (mx_core x) c = Some True \<longrightarrow> c \<in> dom (sv_connections (mx_service x)) \<or>
            holds_connection c f \<or> other_call j x (holds_connection c)) \<and>
         (\<forall>s c. kc_sessions (mx_core x) s = Some (c, True) \<longrightarrow> s \<in> dom (sv_sessions (mx_service x)) \<or>
            holds_session c s f \<or> other_call j x (holds_session c s))"
  using assms unfolding accounted_def some_call_at [of _ _ j] by simp

lemma mcp_accounted:
  assumes "mcp_step x y" "mcp_ok x"
  shows "accounted y"
proof -
  have acc: "accounted x" and conns: "connections_ok x" and sess: "sessions_ok x" and calls: "calls_ok x"
    using assms(2) by (simp_all add: mcp_ok_def)
  show ?thesis using assms(1)
  proof cases
    case (connection_dropped j c)
    then have "holds_connection d (mx_calls x j) \<Longrightarrow> d = c" "holds_session d t (mx_calls x j) \<Longrightarrow> d = c" for d t
      by auto
    then show ?thesis using acc connection_dropped(1) unfolding accounted_def some_call_at [of _ _ j]
      by simp blast
  next
    case (session_dropped j s)
    then have "\<not> holds_connection d (mx_calls x j)" "holds_session d t (mx_calls x j) \<Longrightarrow> t = s" for d t
      by auto
    then show ?thesis using acc session_dropped(1) unfolding accounted_def some_call_at [of _ _ j]
      by simp blast
  next
    case (close_connection_call j i)
    have up: "si_connection (ms_info m) = c"
      if "sv_sessions (mx_service x) t = Some m" "kc_sessions (mx_core x) t = Some (c, True)" for t m c
      using sess that by (fastforce simp: sessions_ok_def knows_session_def)
    show ?thesis
    proof (cases "sv_connections (mx_service x) i")
      case None
      then show ?thesis using close_connection_call acc by (simp add: call_defs section_defs)
    next
      case (Some m)
      then have "mc_connection m = i" using conns by (simp add: connections_ok_def)
      then show ?thesis using acc close_connection_call Some up unfolding accounted_def some_call_at [of _ _ j]
        by (auto simp: call_defs section_defs restrict_map_def split: if_splits) (metis domIff)
    qed
  qed ((frule accounted_at [OF acc])?; use acc sess in \<open>auto simp: accounted_def call_defs section_defs sessions_ok_def split: section_splits\<close>; fail)+
qed


lemma mcp_ok_step: "mcp_step x y \<Longrightarrow> mcp_ok x \<Longrightarrow> mcp_ok y"
  using mcp_core_ok mcp_connections_ok mcp_sessions_ok mcp_recordings_ok mcp_closed_ok mcp_calls_ok mcp_accounted
  unfolding mcp_ok_def by blast

lemma new_service_empty:
  assumes "new_service profiles = Inr sv"
  shows "sv_connections sv = Map.empty" "sv_sessions sv = Map.empty" "sv_recordings sv = Map.empty"
    "\<not> sv_closed sv" "sv_closeOnce sv = NotCalled"
  using assms by (auto simp: new_service_def split: sum.splits if_splits)

lemma mcp_run_ok:
  assumes "new_service profiles = Inr sv" "mcp_run sv x"
  shows "mcp_ok x"
  using assms(2)
proof induction
  case mcp_start
  then show ?case using new_service_empty [OF assms(1)]
    by (simp add: mcp_ok_def new_mcp_def new_core_def core_ok_def connections_ok_def sessions_ok_def
        recordings_ok_def closed_ok_def calls_ok_def accounted_def)
next
  case (mcp_next x y)
  then show ?case using mcp_ok_step by blast
qed

end
