(* ===== verification/Mcp_Handlers.thy ===== *)
theory Mcp_Handlers
  imports Mcp_Service Session_Events
begin

text \<open>
  The operations of the MCP service on one session (\<open>mcpserver/service.go\<close>: events, screens, waits,
  failure dumps and input) and the tools in front of them (\<open>mcpserver/mcp.go\<close>). Other calls run between
  the sections of an operation: \<open>others\<close> is what they do to the service before its last section.
\<close>

subsection \<open>Events and screens\<close>

record events_info =
  ei_session :: nat
  ei_events :: "terminal_event list"
  ei_missed :: nat

definition service_events :: "nat \<Rightarrow> nat \<Rightarrow> (nat \<Rightarrow> ('t, 'c) session) \<Rightarrow> service \<Rightarrow> mcp_error + events_info" where
  "service_events i after ss sv =
     (case findSession i sv of
        Inl e \<Rightarrow> Inl e
      | Inr m \<Rightarrow>
          (let events = EventsAfter after (ss (ms_session m))
           in Inr \<lparr>ei_session = i, ei_events = events,
                   ei_missed = (case events of [] \<Rightarrow> 0 | e # _ \<Rightarrow> ev_sequence e - after - 1)\<rparr>))"

datatype session_state = Active | Ended "session_error option"

record screen_info =
  sc_session :: nat
  sc_text :: string
  sc_width :: int
  sc_height :: int
  sc_cursor :: cursor
  sc_revision :: nat
  sc_title :: string
  sc_state :: session_state

definition screenInfo :: "nat \<Rightarrow> ('t, 'c) session \<Rightarrow> screen \<Rightarrow> screen_info" where
  "screenInfo i s screen =
     \<lparr>sc_session = i, sc_text = Text screen, sc_width = scr_width screen, sc_height = scr_height screen,
      sc_cursor = scr_cursor screen, sc_revision = scr_revision screen, sc_title = scr_title screen,
      sc_state = (if ss_done s then Ended (ss_err s) else Active)\<rparr>"

definition service_screen ::
  "'t terminal_ops \<Rightarrow> nat \<Rightarrow> (nat \<Rightarrow> ('t, 'c) session) \<Rightarrow> service \<Rightarrow> mcp_error + screen_info" where
  "service_screen T i ss sv =
     (case findSession i sv of
        Inl e \<Rightarrow> Inl e
      | Inr m \<Rightarrow> (let s = ss (ms_session m) in Inr (screenInfo i s (to_snapshot T (ss_terminal s)))))"

subsection \<open>Waits\<close>

text \<open>
  What a wait meets: its rounds, what other calls did to the service until it is over, the flight
  recording a failure takes, and the session as it is then.
\<close>

record ('t, 'c) meeting =
  mt_rounds :: "(view \<times> wake) list"
  mt_stable :: "stable_round list"
  mt_others :: "service \<Rightarrow> service"
  mt_recording :: "unsupported_sequence flight_recording"
  mt_session :: "('t, 'c) session"

definition finish_wait ::
  "nat \<Rightarrow> step \<Rightarrow> ('t, 'c) meeting \<Rightarrow> service \<Rightarrow> wait_result \<Rightarrow> (mcp_error + screen_info) \<times> service" where
  "finish_wait i p mt sv result =
     (let sv1 = mt_others mt sv
      in case result of
           Rejected cause \<Rightarrow> (Inl (WaitRejected cause), sv1)
         | WaitFailed e \<Rightarrow> (Inl (WaitError e), rememberFailure i (e, Some (mt_recording mt)) sv1)
         | Matched screen \<Rightarrow> (Inr (screenInfo i (mt_session mt) screen), record_step i p sv1))"

definition service_wait_for_text ::
  "(string \<Rightarrow> string) \<Rightarrow> nat \<Rightarrow> string \<Rightarrow> int \<Rightarrow> ('t, 'c) meeting \<Rightarrow> service \<Rightarrow>
     ((mcp_error + screen_info) \<times> service) option" where
  "service_wait_for_text quote i t timeout mt sv =
     (if t = [] then Some (Inl McpTextRequired, sv)
      else case effectiveTimeout timeout of
          Inl e \<Rightarrow> Some (Inl e, sv)
        | Inr d \<Rightarrow>
            (case findSession i sv of
               Inl e \<Rightarrow> Some (Inl e, sv)
             | Inr m \<Rightarrow>
                 map_option
                   (finish_wait i (empty_step\<lparr>sp_action := ''waitForText'', sp_text := t,
                                     sp_timeout := milliseconds_of d\<rparr>) mt sv)
                   (WaitFor (ScreenContains quote t) (mt_rounds mt))))"

definition service_wait ::
  "(string \<Rightarrow> string) \<Rightarrow> nat \<Rightarrow> MatcherSpec \<Rightarrow> int \<Rightarrow> int \<Rightarrow> ('t, 'c) meeting \<Rightarrow> service \<Rightarrow>
     ((mcp_error + screen_info) \<times> service) option" where
  "service_wait quote i spec timeout stable_period mt sv =
     (case ScreenMatcher quote spec of
        Inl e \<Rightarrow> Some (Inl (InvalidMatcherSpec e), sv)
      | Inr m \<Rightarrow>
          (case effectiveTimeout timeout of
             Inl e \<Rightarrow> Some (Inl e, sv)
           | Inr d \<Rightarrow>
               if stable_period < 0 \<or> stable_period > maximumWaitTimeout then Some (Inl InvalidStable, sv)
               else (case findSession i sv of
                       Inl e \<Rightarrow> Some (Inl e, sv)
                     | Inr managed \<Rightarrow>
                         map_option
                           (finish_wait i (empty_step\<lparr>sp_action := ''wait'', sp_matcher := Some spec,
                                             sp_timeout := milliseconds_of d,
                                             sp_stable := milliseconds_of stable_period\<rparr>) mt sv)
                           (if stable_period > 0 then WaitForStable m stable_period (mt_stable mt)
                            else WaitFor m (mt_rounds mt)))))"

definition service_wait_for_idle ::
  "(int \<Rightarrow> string) \<Rightarrow> nat \<Rightarrow> int \<Rightarrow> int \<Rightarrow> ('t, 'c) meeting \<Rightarrow> service \<Rightarrow>
     ((mcp_error + screen_info) \<times> service) option" where
  "service_wait_for_idle show_duration i quiet timeout mt sv =
     (if quiet \<le> 0 \<or> quiet > maximumWaitTimeout then Some (Inl InvalidQuiet, sv)
      else case effectiveTimeout timeout of
          Inl e \<Rightarrow> Some (Inl e, sv)
        | Inr d \<Rightarrow>
            (case findSession i sv of
               Inl e \<Rightarrow> Some (Inl e, sv)
             | Inr m \<Rightarrow>
                 map_option
                   (finish_wait i (empty_step\<lparr>sp_action := ''waitForIdle'', sp_timeout := milliseconds_of d,
                                     sp_quiet := milliseconds_of quiet\<rparr>) mt sv)
                   (WaitForIdle show_duration quiet (mt_stable mt))))"

text \<open>\<open>WaitForEnd\<close> waits for the session or the deadline: \<open>None\<close> while neither has come.\<close>

datatype end_select = SessionDone | DeadlinePassed string

definition service_wait_for_end ::
  "'t terminal_ops \<Rightarrow> nat \<Rightarrow> int \<Rightarrow> end_select option \<Rightarrow> ('t, 'c) meeting \<Rightarrow> service \<Rightarrow>
     ((mcp_error + screen_info) \<times> service) option" where
  "service_wait_for_end T i timeout chosen mt sv =
     (case effectiveTimeout timeout of
        Inl e \<Rightarrow> Some (Inl e, sv)
      | Inr d \<Rightarrow>
          (case findSession i sv of
             Inl e \<Rightarrow> Some (Inl e, sv)
           | Inr m \<Rightarrow>
               (let screen = to_snapshot T (ss_terminal (mt_session mt))
                in map_option
                     (\<lambda>c. finish_wait i (empty_step\<lparr>sp_action := ''waitForEnd'', sp_timeout := milliseconds_of d\<rparr>) mt sv
                        (case c of
                           SessionDone \<Rightarrow> Matched screen
                         | DeadlinePassed e \<Rightarrow>
                             WaitFailed \<lparr>we_expected = ''session end'', we_screen = screen, we_cause = ContextEnded e\<rparr>))
                     chosen)))"

subsection \<open>Failure dumps\<close>

text \<open>A readable record: times in microseconds, output quoted with Go escapes (\<open>quote_go\<close>, without its quotes).\<close>

record record_info =
  ri_output :: bool
  ri_offset :: int
  ri_text :: string
  ri_revision :: nat
  ri_width :: int
  ri_height :: int

record dump_info =
  di_session :: nat
  di_expected :: string
  di_cause :: string
  di_revision :: nat
  di_terminal :: string
  di_width :: int
  di_height :: int
  di_dropped :: int
  di_records :: "record_info list"
  di_unsupported :: "unsupported_sequence list"
  di_dump :: "trace_line list"

fun record_info_of :: "(byte list \<Rightarrow> string) \<Rightarrow> flight_record \<Rightarrow> record_info" where
  "record_info_of quote_go (FlightOutput offset data revision) =
     \<lparr>ri_output = True, ri_offset = microseconds_of offset, ri_text = butlast (tl (quote_go data)), ri_revision = revision,
      ri_width = 0, ri_height = 0\<rparr>"
| "record_info_of quote_go (FlightResize offset width height) =
     \<lparr>ri_output = False, ri_offset = microseconds_of offset, ri_text = [], ri_revision = 0,
      ri_width = width, ri_height = height\<rparr>"

text \<open>The string builder a dump is written to takes every line.\<close>

definition builder :: "trace_line \<Rightarrow> trace_line list \<Rightarrow> string option \<times> trace_line list" where
  "builder l ls = (None, ls @ [l])"

definition FailureDump ::
  "(int \<Rightarrow> string) \<Rightarrow> (wait_cause \<Rightarrow> string) \<Rightarrow> (byte list \<Rightarrow> string) \<Rightarrow> nat \<Rightarrow> string \<Rightarrow> (service \<Rightarrow> service) \<Rightarrow> service \<Rightarrow>
     mcp_error + dump_info" where
  "FailureDump start_text cause_text quote_go i format others sv =
     (case findSession i sv of
        Inl e \<Rightarrow> Inl e
      | Inr m \<Rightarrow>
          (case Option.bind (sv_sessions (others sv) i) ms_failure of
             None \<Rightarrow> Inl (NoFailedWait i)
           | Some failure \<Rightarrow>
               (let e = fst failure;
                    info = \<lparr>di_session = i, di_expected = we_expected e, di_cause = cause_text (we_cause e),
                            di_revision = scr_revision (we_screen e), di_terminal = [], di_width = 0, di_height = 0,
                            di_dropped = 0, di_records = [], di_unsupported = [], di_dump = []\<rparr>
                in if format = ''jsonl'' then
                     (case WriteDump builder start_text cause_text failure [] of
                        (Some x, _) \<Rightarrow> Inl (DumpFailed x)
                      | (None, dump) \<Rightarrow> Inr (info\<lparr>di_dump := dump\<rparr>))
                   else if format \<noteq> [] \<and> format \<noteq> ''readable'' then Inl UnknownFormat
                   else (case snd failure of
                           None \<Rightarrow> Inl (DumpFailed NoRecordingToDump)
                         | Some r \<Rightarrow>
                             Inr (info\<lparr>di_terminal := flight_recording.rec_profile r, di_width := rec_width r,
                                       di_height := rec_height r, di_dropped := rec_dropped r,
                                       di_records := map (record_info_of quote_go) (rec_records r),
                                       di_unsupported := rec_unsupported r\<rparr>)))))"

subsection \<open>Input\<close>

text \<open>The text goes to the session, and a success to the recording, in two sections.\<close>

definition service_type ::
  "'c stream_ops \<Rightarrow> nat \<Rightarrow> string \<Rightarrow> string \<Rightarrow> (service \<Rightarrow> service) \<Rightarrow> service \<Rightarrow> (nat \<Rightarrow> ('t, 'c) session) \<Rightarrow>
     mcp_error option \<times> service \<times> (nat \<Rightarrow> ('t, 'c) session)" where
  "service_type S i t parameter others sv ss =
     (case TypeStep t parameter of
        Inl e \<Rightarrow> (Some (InvalidStep e), sv, ss)
      | Inr p \<Rightarrow>
          (case findSession i sv of
             Inl e \<Rightarrow> (Some e, sv, ss)
           | Inr m \<Rightarrow>
               (case Send S (bytes_of t) (ss (ms_session m)) of
                  (Some e, s) \<Rightarrow> (Some (SessionFailed e), others sv, ss(ms_session m := s))
                | (None, s) \<Rightarrow> (None, record_step i p (others sv), ss(ms_session m := s)))))"

definition service_press ::
  "'t terminal_ops \<Rightarrow> 'c stream_ops \<Rightarrow> nat \<Rightarrow> key \<Rightarrow> key_modifiers list \<Rightarrow> (service \<Rightarrow> service) \<Rightarrow> service \<Rightarrow>
     (nat \<Rightarrow> ('t, 'c) session) \<Rightarrow> mcp_error option \<times> service \<times> (nat \<Rightarrow> ('t, 'c) session)" where
  "service_press T S i k ms others sv ss =
     (if k = [] then (Some KeyRequired, sv, ss)
      else case findSession i sv of
          Inl e \<Rightarrow> (Some e, sv, ss)
        | Inr m \<Rightarrow>
            (case Press T S k ms (ss (ms_session m)) of
               (Some e, s) \<Rightarrow> (Some (SessionFailed e), others sv, ss(ms_session m := s))
             | (None, s) \<Rightarrow> (None, record_step i (PressStep k ms) (others sv), ss(ms_session m := s))))"

subsection \<open>Tools\<close>

text \<open>An \<open>int\<close> of milliseconds from a tool's input, as a duration.\<close>

definition boundedMilliseconds :: "int \<Rightarrow> mcp_error + int" where
  "boundedMilliseconds ms =
     (if ms < 0 \<or> ms > maximumWaitTimeout div 1000000 then Inl MillisecondsOutOfRange else Inr (ms * 1000000))"

primrec tool_modifiers :: "(string \<Rightarrow> string) \<Rightarrow> string list \<Rightarrow> mcp_error + key_modifiers list" where
  "tool_modifiers ToLower [] = Inr []"
| "tool_modifiers ToLower (n # ns) =
     (let l = ToLower n
      in if l = ''shift'' then map_sum id (Cons ModifierShift) (tool_modifiers ToLower ns)
         else if l = ''alt'' \<or> l = ''meta'' then map_sum id (Cons ModifierAlt) (tool_modifiers ToLower ns)
         else if l = ''control'' \<or> l = ''ctrl'' then map_sum id (Cons ModifierControl) (tool_modifiers ToLower ns)
         else Inl (UnknownModifier n))"

definition tool_wait_for_text ::
  "(string \<Rightarrow> string) \<Rightarrow> nat \<Rightarrow> string \<Rightarrow> int \<Rightarrow> ('t, 'c) meeting \<Rightarrow> service \<Rightarrow>
     ((mcp_error + screen_info) \<times> service) option" where
  "tool_wait_for_text quote i t ms mt sv =
     (case boundedMilliseconds ms of
        Inl e \<Rightarrow> Some (Inl e, sv)
      | Inr timeout \<Rightarrow> service_wait_for_text quote i t timeout mt sv)"

definition tool_wait ::
  "(string \<Rightarrow> string) \<Rightarrow> nat \<Rightarrow> MatcherSpec \<Rightarrow> int \<Rightarrow> int \<Rightarrow> ('t, 'c) meeting \<Rightarrow> service \<Rightarrow>
     ((mcp_error + screen_info) \<times> service) option" where
  "tool_wait quote i spec ms stable_ms mt sv =
     (case boundedMilliseconds ms of
        Inl e \<Rightarrow> Some (Inl e, sv)
      | Inr timeout \<Rightarrow>
          (case boundedMilliseconds stable_ms of
             Inl e \<Rightarrow> Some (Inl e, sv)
           | Inr stable_period \<Rightarrow> service_wait quote i spec timeout stable_period mt sv))"

definition tool_wait_for_idle ::
  "(int \<Rightarrow> string) \<Rightarrow> nat \<Rightarrow> int \<Rightarrow> int \<Rightarrow> ('t, 'c) meeting \<Rightarrow> service \<Rightarrow>
     ((mcp_error + screen_info) \<times> service) option" where
  "tool_wait_for_idle show_duration i quiet_ms ms mt sv =
     (case boundedMilliseconds quiet_ms of
        Inl e \<Rightarrow> Some (Inl e, sv)
      | Inr quiet \<Rightarrow>
          (case boundedMilliseconds ms of
             Inl e \<Rightarrow> Some (Inl e, sv)
           | Inr timeout \<Rightarrow> service_wait_for_idle show_duration i quiet timeout mt sv))"

definition tool_wait_for_end ::
  "'t terminal_ops \<Rightarrow> nat \<Rightarrow> int \<Rightarrow> end_select option \<Rightarrow> ('t, 'c) meeting \<Rightarrow> service \<Rightarrow>
     ((mcp_error + screen_info) \<times> service) option" where
  "tool_wait_for_end T i ms chosen mt sv =
     (case boundedMilliseconds ms of
        Inl e \<Rightarrow> Some (Inl e, sv)
      | Inr timeout \<Rightarrow> service_wait_for_end T i timeout chosen mt sv)"

definition tool_press ::
  "(string \<Rightarrow> string) \<Rightarrow> 't terminal_ops \<Rightarrow> 'c stream_ops \<Rightarrow> nat \<Rightarrow> key \<Rightarrow> string list \<Rightarrow> (service \<Rightarrow> service) \<Rightarrow>
     service \<Rightarrow> (nat \<Rightarrow> ('t, 'c) session) \<Rightarrow> mcp_error option \<times> service \<times> (nat \<Rightarrow> ('t, 'c) session)" where
  "tool_press ToLower T S i k names others sv ss =
     (case tool_modifiers ToLower names of
        Inl e \<Rightarrow> (Some e, sv, ss)
      | Inr ms \<Rightarrow> service_press T S i k ms others sv ss)"

end
