(* ===== verification/Mcp_Props.thy ===== *)
theory Mcp_Props
  imports Mcp_Calls Mcp_Handlers
begin

text \<open>
  The properties of the MCP service: nothing it opens is lost whatever its clients do, the events it
  reports are complete, and a failed wait can be read back from its dump.
\<close>

subsection \<open>Resources\<close>

text \<open>
  C24: In every interleaving of client calls, a recording belongs to a registered
  session, a session to a registered connection, and a connection to an approved profile; whatever is
  open in the core is registered or in the hands of a call that will register or close it; and once
  \<open>Close\<close> has returned nothing is open any more.
\<close>

theorem mcp_resources_accounted:
  assumes "new_service profiles = Inr sv" "mcp_run sv x"
  shows "dom (sv_recordings (mx_service x)) \<subseteq> dom (sv_sessions (mx_service x)) \<and>
     (\<forall>i m. sv_sessions (mx_service x) i = Some m \<longrightarrow>
        si_connection (ms_info m) \<in> dom (sv_connections (mx_service x))) \<and>
     (\<forall>c m. sv_connections (mx_service x) c = Some m \<longrightarrow> approved (mx_service x) (mc_profile m)) \<and>
     (\<forall>c. kc_conns (mx_core x) c = Some True \<longrightarrow>
        c \<in> dom (sv_connections (mx_service x)) \<or> some_call x (holds_connection c)) \<and>
     (\<forall>s c. kc_sessions (mx_core x) s = Some (c, True) \<longrightarrow>
        s \<in> dom (sv_sessions (mx_service x)) \<or> some_call x (holds_session c s)) \<and>
     (sv_closeOnce (mx_service x) = Finished \<longrightarrow>
        (\<forall>c. kc_conns (mx_core x) c \<noteq> Some True) \<and> (\<forall>s c. kc_sessions (mx_core x) s \<noteq> Some (c, True)))"
proof -
  have ok: "mcp_ok x" using assms by (rule mcp_run_ok)
  then have "sv_closeOnce (mx_service x) = Finished \<longrightarrow>
        (\<forall>c. kc_conns (mx_core x) c \<noteq> Some True) \<and> (\<forall>s c. kc_sessions (mx_core x) s \<noteq> Some (c, True))"
    unfolding mcp_ok_def closed_ok_def core_ok_def by blast
  with ok show ?thesis
    unfolding mcp_ok_def recordings_ok_def sessions_ok_def connections_ok_def accounted_def by blast
qed

definition wms :: mcp_profile where
  "wms = \<lparr>mp_name = ''wms'', mp_description = [], mp_protocol = ''telnet'', mp_terminal = ''vt220'',
          mp_width = 80, mp_height = 24, mp_connector = Some 0\<rparr>"

definition wms_service :: service where
  "wms_service = \<lparr>sv_profiles = [''wms'' \<mapsto> wms], sv_connections = Map.empty, sv_sessions = Map.empty,
     sv_recordings = Map.empty, sv_closed = False, sv_closeOnce = NotCalled, sv_closeErr = None\<rparr>"

lemma wms_service_new: "new_service [wms] = Inr wms_service"
proof -
  have "TrimSpace ''wms'' = ''wms''" by code_simp
  then show ?thesis by (simp add: new_service_def wms_def validateProfile_def wms_service_def fun_eq_iff)
qed

definition wms_connected :: mcp_state where
  "wms_connected = goes 0 (Connected wms 1) (with_core (core_add_connection 1 new_core) (new_mcp wms_service))"

lemma wms_run: "mcp_run wms_service wms_connected"
proof -
  let ?x = "connect_begin 0 ''wms'' (new_mcp wms_service)"
  have x: "?x = goes 0 (Connecting wms) (new_mcp wms_service)"
    by (simp add: connect_begin_def find_profile_def new_mcp_def wms_service_def)
  have "mcp_run wms_service ?x"
    by (rule mcp_next [OF mcp_start], rule connect_call) (simp add: new_mcp_def)
  moreover have "mcp_step ?x (goes 0 (Connected wms 1) (with_core (core_add_connection 1 (mx_core ?x)) ?x))"
    unfolding x by (rule connect_core) (simp_all add: new_mcp_def new_core_def)
  moreover have "goes 0 (Connected wms 1) (with_core (core_add_connection 1 (mx_core ?x)) ?x) = wms_connected"
    unfolding x by (simp add: wms_connected_def goes_def with_core_def new_mcp_def)
  ultimately show ?thesis using mcp_next [of wms_service ?x] by simp
qed

theorem mcp_resources_accounted_witness:
  "kc_conns (mx_core wms_connected) 1 = Some True \<and> some_call wms_connected (holds_connection 1)"
proof -
  have "kc_conns (mx_core wms_connected) 1 = Some True"
    by (simp add: wms_connected_def)
  moreover have "sv_connections (mx_service wms_connected) = Map.empty"
    by (simp add: wms_connected_def new_mcp_def wms_service_def)
  ultimately show ?thesis using mcp_resources_accounted [OF wms_service_new wms_run] by auto
qed

subsection \<open>Events\<close>

text \<open>
  A client that passes the last sequence number it has seen gets every later event
  that is still retained, in order, and \<open>missed\<close> is exactly the number of later events that are not.
\<close>

theorem mcp_events_exact:
  assumes "findSession i sv = Inr m" "ss (ms_session m) = fold publishEvent es (newSession T n now t c)"
  shows "service_events i after ss sv =
     Inr \<lparr>ei_session = i, ei_events = drop (max after (length es - 256)) (numbered 0 es),
          ei_missed = length es - 256 - after\<rparr>"
proof -
  let ?k = "max after (length es - 256)"
  have ev: "EventsAfter after (ss (ms_session m)) = drop ?k (numbered 0 es)"
    unfolding assms(2) by (rule history_window)
  show ?thesis
  proof (cases "drop ?k es")
    case Nil
    then have "length es \<le> ?k" by simp
    then have "length es - 256 - after = 0" by linarith
    then show ?thesis using Nil by (simp add: service_events_def assms(1) ev Let_def drop_numbered)
  next
    case (Cons e rest)
    then have "drop ?k (numbered 0 es) = e\<lparr>ev_sequence := ?k + 1\<rparr> # numbered (Suc ?k) rest"
      by (simp add: drop_numbered)
    moreover have "?k - after = length es - 256 - after" by simp
    ultimately show ?thesis by (simp add: service_events_def assms(1) ev Let_def)
  qed
qed

definition still_terminal :: "unit terminal_ops" where
  "still_terminal = \<lparr>to_profile = (\<lambda>_. ''vt220''), to_write = (\<lambda>_ t. Some (None, t)),
     to_snapshot = (\<lambda>_. vw_screen (cursor_view 0)), to_resize = (\<lambda>_ _ t. Some (None, t)),
     to_drain = None, to_revision = None, to_encode_press = None, to_encode_key = None\<rparr>"

definition ring :: terminal_event where
  "ring = \<lparr>ev_sequence = 0, ev_type = EventBell, ev_data = []\<rparr>"

definition wms_session :: managed_session where
  "wms_session = \<lparr>ms_session = 7, ms_info = \<lparr>si_session = 7, si_connection = 1, si_terminal = ''vt220'',
     si_width = 80, si_height = 24\<rparr>, ms_failure = None\<rparr>"

definition wms_open :: service where
  "wms_open = wms_service\<lparr>sv_connections := [1 \<mapsto> \<lparr>mc_connection = 1, mc_profile = wms\<rparr>],
     sv_sessions := [7 \<mapsto> wms_session]\<rparr>"

lemma wms_find: "findSession 7 wms_open = Inr wms_session"
  by (simp add: findSession_def wms_open_def wms_service_def)

theorem mcp_events_exact_witness:
  "service_events 7 0 (\<lambda>_. fold publishEvent [ring, ring] (newSession still_terminal 7 0 () ())) wms_open =
     Inr \<lparr>ei_session = 7, ei_events = [ring\<lparr>ev_sequence := 1\<rparr>, ring\<lparr>ev_sequence := 2\<rparr>], ei_missed = 0\<rparr>"
  using mcp_events_exact [OF wms_find, where es = "[ring, ring]" and after = 0 and ss = "\<lambda>_. fold publishEvent [ring, ring]
      (newSession still_terminal 7 0 () ())", OF refl]
  by simp

subsection \<open>Failure dumps\<close>

lemma service_wait_failure:
  assumes "service_wait quote i spec timeout stable_period mt sv = Some (Inl (WaitError e), sv1)"
  shows "sv1 = rememberFailure i (e, Some (mt_recording mt)) (mt_others mt sv)"
  using assms
  by (auto simp: service_wait_def finish_wait_def effectiveTimeout_def findSession_def Let_def
      split: sum.splits if_splits option.splits wait_result.splits)

lemma dump_builder [simp]:
  "write_records builder rs w = (None, w @ map record_line rs)"
  "write_unsupported builder us w = (None, w @ map (\<lambda>u. UnsupportedLine (us_sequence u) (us_count u)) us)"
proof -
  show "write_records builder rs w = (None, w @ map record_line rs)"
    by (induction rs arbitrary: w) (simp_all add: builder_def)
  show "write_unsupported builder us w = (None, w @ map (\<lambda>u. UnsupportedLine (us_sequence u) (us_count u)) us)"
    by (induction us arbitrary: w) (simp_all add: builder_def)
qed

lemma WriteDump_builder:
  "WriteDump builder start_text cause_text (e, Some r) [] = (None, dump_lines start_text cause_text e r)"
  by (simp add: WriteDump_def dump_lines_def) (simp add: builder_def)

lemma read_dump_lines:
  "read_dump (dump_lines start_text cause_text e r) =
     Some (rec_width r, rec_height r, rec_dropped r, map in_microseconds (rec_records r), rec_unsupported r,
       failure_line cause_text e r)"
  by (simp add: dump_lines_def read_tail_records read_tail_unsupported)

text \<open>
  After a wait of a registered session has failed, the dump that \<open>FailureDump\<close> gives
  of it reads back as the flight recording taken for the failure: the host output byte for byte, the
  resizes and the counts of unsupported sequences.
\<close>

theorem mcp_failure_dump:
  assumes "service_wait quote i spec timeout stable_period mt sv = Some (Inl (WaitError e), sv1)"
    and "sv_sessions (mt_others mt sv) i = Some m" "\<not> sv_closed (mt_others mt sv)"
    and "sv_sessions (others sv1) i = sv_sessions sv1 i"
  shows "\<exists>d. FailureDump start_text cause_text quote_go i ''jsonl'' others sv1 = Inr d \<and>
     di_expected d = we_expected e \<and>
     read_dump (di_dump d) = Some (rec_width (mt_recording mt), rec_height (mt_recording mt),
       rec_dropped (mt_recording mt), map in_microseconds (rec_records (mt_recording mt)),
       rec_unsupported (mt_recording mt), failure_line cause_text e (mt_recording mt))"
proof -
  have sv1: "sv_sessions sv1 i = Some (m\<lparr>ms_failure := Some (e, Some (mt_recording mt))\<rparr>)" "\<not> sv_closed sv1"
    using assms(2,3) service_wait_failure [OF assms(1)] by (simp_all add: rememberFailure_def)
  then show ?thesis
    by (simp add: FailureDump_def findSession_def assms(4) Let_def WriteDump_builder read_dump_lines)
qed

definition cursor_spec :: MatcherSpec where
  "cursor_spec = MatcherSpec None None (Some \<lparr>cm_column = 1, cm_row = 0\<rparr>) None None None"

definition empty_recording :: "unsupported_sequence flight_recording" where
  "empty_recording = Flight_Recorder.recording ''vt220'' 5 [] (newFlightRecorder 0 2 1)"

definition late :: "(unit, unit) meeting" where
  "late = \<lparr>mt_rounds = [(cursor_view 0, ContextDone ''deadline'')], mt_stable = [], mt_others = id,
     mt_recording = empty_recording, mt_session = newSession still_terminal 7 0 () ()\<rparr>"

theorem mcp_failure_dump_witness:
  "\<exists>sv1 d. FailureDump (\<lambda>_. []) (\<lambda>_. []) (\<lambda>_. []) 7 ''jsonl'' id sv1 = Inr d \<and> read_dump (di_dump d) \<noteq> None"
proof -
  have spec: "ScreenMatcher id cursor_spec = Inr (CursorAt 1 0)"
    by (simp add: ScreenMatcher_def screenMatcherAtDepth.simps cursor_spec_def fields_set_def maximumMatcherSpecDepth_def)
  have "\<exists>e sv1. service_wait id 7 cursor_spec 0 0 late wms_open = Some (Inl (WaitError e), sv1)"
    by (simp add: service_wait_def spec effectiveTimeout_def maximumWaitTimeout_def defaultWaitTimeout_def wms_find
        WaitFor_def CursorAt_def late_def cursor_view_def finish_wait_def Let_def)
  then obtain e sv1 where w: "service_wait id 7 cursor_spec 0 0 late wms_open = Some (Inl (WaitError e), sv1)"
    by blast
  have "sv_sessions (mt_others late wms_open) 7 = Some wms_session" "\<not> sv_closed (mt_others late wms_open)"
    by (simp_all add: late_def wms_open_def wms_service_def)
  from mcp_failure_dump [OF w this, of id "\<lambda>_. []" "\<lambda>_. []" "\<lambda>_. []"]
  obtain d where "FailureDump (\<lambda>_. []) (\<lambda>_. []) (\<lambda>_. []) 7 ''jsonl'' id sv1 = Inr d" "read_dump (di_dump d) \<noteq> None"
    by auto
  then show ?thesis by blast
qed

subsection \<open>The tools and their annotations\<close>

text \<open>The hints of the MCP library; \<open>None\<close> is an absent hint. The tools in the order they are registered.\<close>

record annotations =
  an_readOnly :: bool
  an_destructive :: "bool option"
  an_idempotent :: bool
  an_openWorld :: "bool option"

definition readOnly :: annotations where
  "readOnly = \<lparr>an_readOnly = True, an_destructive = None, an_idempotent = False, an_openWorld = Some False\<rparr>"

definition changesTerminal :: annotations where
  "changesTerminal = \<lparr>an_readOnly = False, an_destructive = Some False, an_idempotent = False, an_openWorld = Some True\<rparr>"

definition cleanup :: annotations where
  "cleanup = \<lparr>an_readOnly = False, an_destructive = Some False, an_idempotent = True, an_openWorld = Some True\<rparr>"

definition recordingControl :: annotations where
  "recordingControl = \<lparr>an_readOnly = False, an_destructive = Some False, an_idempotent = False, an_openWorld = Some False\<rparr>"

definition tool_annotations :: "(string \<times> annotations) list" where
  "tool_annotations =
     [(''tuicast_list_profiles'', readOnly), (''tuicast_connect'', changesTerminal),
      (''tuicast_open_session'', changesTerminal), (''tuicast_screen'', readOnly), (''tuicast_wait_for_text'', readOnly),
      (''tuicast_wait'', readOnly), (''tuicast_wait_for_idle'', readOnly), (''tuicast_wait_for_end'', readOnly),
      (''tuicast_events'', readOnly), (''tuicast_failure_dump'', readOnly), (''tuicast_type'', changesTerminal),
      (''tuicast_press'', changesTerminal), (''tuicast_start_recording'', recordingControl),
      (''tuicast_stop_recording'', recordingControl), (''tuicast_close_session'', cleanup),
      (''tuicast_close_connection'', cleanup)]"

lemma tools_distinct: "distinct (map fst tool_annotations)"
  by code_simp

text \<open>
  The waits are annotated as read-only, but one that succeeds while its session is recorded appends a
  step to the recording.
\<close>

lemma finish_wait_records:
  assumes "finish_wait i p mt sv result = (Inr info, sv1)" "sv_recordings (mt_others mt sv) i = Some r"
  shows "sv_recordings sv1 i = Some (r\<lparr>rc_steps := rc_steps r @ [p]\<rparr>)"
  using assms by (auto simp: finish_wait_def record_step_def Let_def split: wait_result.splits)

lemma read_only_wait_records:
  assumes "tool_wait_for_text quote i t ms mt sv = Some (Inr info, sv1)" "sv_recordings (mt_others mt sv) i = Some r"
  shows "map_of tool_annotations ''tuicast_wait_for_text'' = Some readOnly \<and>
     (\<exists>p. sp_action p = ''waitForText'' \<and> sp_text p = t \<and> sv_recordings sv1 i = Some (r\<lparr>rc_steps := rc_steps r @ [p]\<rparr>))"
proof -
  obtain d result where "finish_wait i (empty_step\<lparr>sp_action := ''waitForText'', sp_text := t, sp_timeout := milliseconds_of d\<rparr>)
      mt sv result = (Inr info, sv1)"
    using assms(1) by (auto simp: tool_wait_for_text_def service_wait_for_text_def split: sum.splits if_splits)
  from finish_wait_records [OF this assms(2)] have "\<exists>p. sp_action p = ''waitForText'' \<and> sp_text p = t \<and>
      sv_recordings sv1 i = Some (r\<lparr>rc_steps := rc_steps r @ [p]\<rparr>)"
    by (intro exI [of _ "empty_step\<lparr>sp_action := ''waitForText'', sp_text := t, sp_timeout := milliseconds_of d\<rparr>"]) simp
  then show ?thesis by (simp add: tool_annotations_def)
qed

subsection \<open>The schema of matchers\<close>

text \<open>
  \<open>waitInputSchema\<close> on the matcher a request decodes to: exactly one expression, rows and columns from
  zero, at least one matcher to combine. It says nothing of the depth.
\<close>

fun schema_ok :: "MatcherSpec \<Rightarrow> bool" where
  "schema_ok (MatcherSpec co li cu al an no) \<longleftrightarrow>
     fields_set (MatcherSpec co li cu al an no) = 1 \<and>
     (\<forall>l \<in> set_option li. 0 \<le> lm_row l) \<and>
     (\<forall>c \<in> set_option cu. 0 \<le> cm_column c \<and> 0 \<le> cm_row c) \<and>
     (\<forall>ss \<in> set_option al. 1 \<le> length ss \<and> (\<forall>s \<in> set ss. schema_ok s)) \<and>
     (\<forall>ss \<in> set_option an. 1 \<le> length ss \<and> (\<forall>s \<in> set ss. schema_ok s)) \<and>
     (\<forall>s \<in> set_option no. schema_ok s)"

definition wait_schema :: "int \<Rightarrow> MatcherSpec \<Rightarrow> int \<Rightarrow> int \<Rightarrow> bool" where
  "wait_schema sessionId matcher timeoutMilliseconds stableMilliseconds \<longleftrightarrow>
     1 \<le> sessionId \<and> schema_ok matcher \<and> 0 \<le> timeoutMilliseconds \<and> timeoutMilliseconds \<le> 120000 \<and>
     0 \<le> stableMilliseconds \<and> stableMilliseconds \<le> 120000"

lemma schema_ok_spec: "schema_ok s \<Longrightarrow> spec_ok s"
proof (induction s rule: schema_ok.induct)
  case (1 co li cu al an no)
  then show ?case by (auto simp: spec_ok.simps)
qed

text \<open>A wait that fits the schema is refused only for the depth of its matcher; its durations are accepted.\<close>

lemma schema_wait_accepted:
  assumes "wait_schema sessionId matcher ms stable_ms"
  shows "(\<exists>m. ScreenMatcher quote matcher = Inr m) \<longleftrightarrow> spec_depth matcher \<le> 64"
    and "\<exists>timeout quiet. boundedMilliseconds ms = Inr timeout \<and> boundedMilliseconds stable_ms = Inr quiet"
proof -
  show "(\<exists>m. ScreenMatcher quote matcher = Inr m) \<longleftrightarrow> spec_depth matcher \<le> 64"
    using build_iff(1) [where q = quote and d = 0 and s = matcher] assms schema_ok_spec
    by (auto simp: wait_schema_def ScreenMatcher_def buildable_def maximumMatcherSpecDepth_def split: sum.splits)
  show "\<exists>timeout quiet. boundedMilliseconds ms = Inr timeout \<and> boundedMilliseconds stable_ms = Inr quiet"
    using assms by (simp add: wait_schema_def boundedMilliseconds_def maximumWaitTimeout_def)
qed

end
