(* ===== verification/Mcp_Config.thy ===== *)
theory Mcp_Config
  imports Mcp_Service Driver_Factories Driver_Props
begin

text \<open>
  The profile configuration of the MCP command (\<open>cmd/tuicast-mcp/config.go\<close>, and the terminal factory
  and the start in \<open>main.go\<close>): which profiles, connectors and secrets it makes of a decoded file. The
  JSON decoder, the environment, the file system and the secret command are the fields of \<open>config_os\<close>,
  the SSH library is the one of the driver command. Log messages are left out.
\<close>

record ssh_settings =
  cs_username :: string
  cs_passwordEnv :: string
  cs_privateKeyFile :: string
  cs_privateKeyPassphraseEnv :: string
  cs_knownHostsFile :: string
  cs_hostKeyFingerprint :: string
  cs_insecureSkipHostKeyCheck :: bool
  cs_connectTimeoutMilliseconds :: int

record profileConfig =
  pc_description :: string
  pc_protocol :: string
  pc_address :: string
  pc_terminal :: string
  pc_width :: int
  pc_height :: int
  pc_ssh :: "ssh_settings option"

text \<open>How a run of the secret command ended: timeout, an error with the command's stderr, or its output.\<close>

datatype command_outcome = CommandTimeout | CommandError string "string option" | CommandOutput string

datatype secret_error =
    OpeningSecret string
  | ReadingSecret string
  | SecretTooLong
  | SecretEmpty
  | SecretCommandTimeout
  | SecretCommandFailed string string
  | SecretCommandOutput secret_error

datatype config_error =
    OpeningConfig string
  | DecodingConfig string
  | MultipleValues
  | ProfileRequired
  | ProfileNameInvalid string
  | AddressMissing string
  | TerminalUnsupported string string
  | DimensionsOutOfRange string
  | SSHForTelnet string
  | SSHSettingsRequired string
  | ProtocolUnsupported string string
  | TelnetConnectorFailed
  | UsernameMissing string
  | ReadingPrivateKey string string
  | ParsingPrivateKey string string
  | PassphraseWithoutKey string
  | CredentialMissing string
  | HostKeyOptions string
  | LoadingHosts string string
  | ConnectTimeoutTooLong string
  | CreatingSSHConnector string
  | SecretSetTwice string string
  | SecretFileFailed string string secret_error
  | SecretUnset string string
  | LoadingSecret string secret_error

subsection \<open>Secrets\<close>

definition maximumSecretBytes :: nat where
  "maximumSecretBytes = 65536"

definition trimSecret :: "string \<Rightarrow> secret_error + string" where
  "trimSecret raw =
     (if length raw > maximumSecretBytes then Inl SecretTooLong
      else (let value = (if HasSuffix raw [CHR 0x0D, CHR 0x0A] then take (length raw - 2) raw
                         else TrimSuffix raw [CHR 0x0A])
            in if value = [] then Inl SecretEmpty else Inr value))"

text \<open>\<open>os_Open\<close>: opening a file fails, or reading it fails or yields its contents.\<close>

record config_os =
  os_Getenv :: "string \<Rightarrow> string"
  os_Open :: "string \<Rightarrow> string + (string + string)"
  os_ReadFile :: "string \<Rightarrow> string + string"

definition readSecretFile :: "config_os \<Rightarrow> string \<Rightarrow> secret_error + string" where
  "readSecretFile os path =
     (case os_Open os path of
        Inl e \<Rightarrow> Inl (OpeningSecret e)
      | Inr contents \<Rightarrow>
          (case contents of
             Inl e \<Rightarrow> Inl (ReadingSecret e)
           | Inr bytes \<Rightarrow> trimSecret (take (maximumSecretBytes + 1) bytes)))"

text \<open>\<open>runSecretCommand\<close> on the outcome of the run; at most 512 bytes of stderr enter the error.\<close>

definition runSecretCommand :: "command_outcome \<Rightarrow> secret_error + string" where
  "runSecretCommand outcome =
     (case outcome of
        CommandTimeout \<Rightarrow> Inl SecretCommandTimeout
      | CommandError e stderr \<Rightarrow>
          (case stderr of
             None \<Rightarrow> Inl (SecretCommandFailed e [])
           | Some text \<Rightarrow>
               (let message = TrimSpace text
                in if message = [] then Inl (SecretCommandFailed e [])
                   else if length message > 512 then Inl (SecretCommandFailed e (take 512 message @ ''...''))
                   else Inl (SecretCommandFailed e message)))
      | CommandOutput output \<Rightarrow>
          (case trimSecret output of Inl e \<Rightarrow> Inl (SecretCommandOutput e) | Inr value \<Rightarrow> Inr value))"

text \<open>
  \<open>secret\<close>: a value known at the start, or the secret command with the name it gets; the function \<open>get\<close>
  of a deferred secret runs the command, whose outcome at that moment is \<open>run command name\<close>.
\<close>

datatype secret = StaticSecret string | CommandSecret string string string

definition deferred :: "secret \<Rightarrow> bool" where
  "deferred s = (case s of StaticSecret _ \<Rightarrow> False | CommandSecret _ _ _ \<Rightarrow> True)"

definition get_secret :: "(string \<Rightarrow> string \<Rightarrow> command_outcome) \<Rightarrow> secret \<Rightarrow> config_error + string" where
  "get_secret run s =
     (case s of
        StaticSecret value \<Rightarrow> Inr value
      | CommandSecret profileName command name \<Rightarrow>
          (case runSecretCommand (run command name) of
             Inl e \<Rightarrow> Inl (LoadingSecret profileName e)
           | Inr value \<Rightarrow> Inr value))"

definition resolveSecret :: "config_os \<Rightarrow> string \<Rightarrow> string \<Rightarrow> string \<Rightarrow> config_error + secret" where
  "resolveSecret os profileName name secretCommand =
     (let fileVariable = name @ ''_FILE''; value = os_Getenv os name; path = os_Getenv os fileVariable
      in if value \<noteq> [] \<and> path \<noteq> [] then Inl (SecretSetTwice profileName name)
         else if value \<noteq> [] then Inr (StaticSecret value)
         else if path \<noteq> [] then
           (case readSecretFile os path of
              Inl e \<Rightarrow> Inl (SecretFileFailed profileName fileVariable e)
            | Inr contents \<Rightarrow> Inr (StaticSecret contents))
         else if secretCommand \<noteq> [] then Inr (CommandSecret profileName secretCommand name)
         else Inl (SecretUnset profileName name))"

definition resolvePath :: "string \<Rightarrow> string \<Rightarrow> string" where
  "resolvePath baseDirectory path = (if IsAbs path then path else Join baseDirectory path)"

subsection \<open>SSH connectors\<close>

text \<open>The callback as the set of host keys it accepts.\<close>

definition makeProfileHostKeyCallback ::
  "('s, 'k) ssh_library \<Rightarrow> string \<Rightarrow> ssh_settings \<Rightarrow> string \<Rightarrow> config_error + ('k \<Rightarrow> bool)" where
  "makeProfileHostKeyCallback L profileName configured baseDirectory =
     (let methods = (if cs_knownHostsFile configured \<noteq> [] then 1 else 0) +
                    (if cs_hostKeyFingerprint configured \<noteq> [] then 1 else 0) +
                    (if cs_insecureSkipHostKeyCheck configured then 1 else (0 :: nat))
      in if methods \<noteq> 1 then Inl (HostKeyOptions profileName)
         else if cs_knownHostsFile configured \<noteq> [] then
           (case lib_knownhosts L (resolvePath baseDirectory (cs_knownHostsFile configured)) of
              Inl e \<Rightarrow> Inl (LoadingHosts profileName e)
            | Inr callback \<Rightarrow> Inr callback)
         else if cs_hostKeyFingerprint configured \<noteq> [] then
           Inr (\<lambda>key. lib_FingerprintSHA256 L key = cs_hostKeyFingerprint configured)
         else Inr (\<lambda>_. True))"

text \<open>
  The ways to authenticate: a password fetched when it is needed, a key parsed at the start, or a key
  decrypted with a deferred passphrase on each attempt.
\<close>

datatype 's config_auth = PasswordCallback secret | KeyAtStart 's | KeyCallback string secret

definition signers ::
  "('s, 'k) ssh_library \<Rightarrow> (string \<Rightarrow> string \<Rightarrow> command_outcome) \<Rightarrow> string \<Rightarrow> string \<Rightarrow> secret \<Rightarrow> config_error + 's" where
  "signers L run profileName privateKey passphrase =
     (case get_secret run passphrase of
        Inl e \<Rightarrow> Inl e
      | Inr value \<Rightarrow>
          (case lib_ParsePrivateKeyWithPassphrase L privateKey value of
             Inl e \<Rightarrow> Inl (ParsingPrivateKey profileName e)
           | Inr signer \<Rightarrow> Inr signer))"

definition password_auth ::
  "config_os \<Rightarrow> string \<Rightarrow> ssh_settings \<Rightarrow> string \<Rightarrow> config_error + 's config_auth list" where
  "password_auth os profileName configured secretCommand =
     (if cs_passwordEnv configured = [] then Inr []
      else case resolveSecret os profileName (cs_passwordEnv configured) secretCommand of
             Inl e \<Rightarrow> Inl e
           | Inr password \<Rightarrow> Inr [PasswordCallback password])"

definition key_auth ::
  "('s, 'k) ssh_library \<Rightarrow> config_os \<Rightarrow> (string \<Rightarrow> string \<Rightarrow> command_outcome) \<Rightarrow> string \<Rightarrow> ssh_settings \<Rightarrow>
     string \<Rightarrow> string \<Rightarrow> config_error + 's config_auth list" where
  "key_auth L os run profileName configured baseDirectory secretCommand =
     (if cs_privateKeyFile configured \<noteq> [] then
        (case os_ReadFile os (resolvePath baseDirectory (cs_privateKeyFile configured)) of
           Inl e \<Rightarrow> Inl (ReadingPrivateKey profileName e)
         | Inr privateKey \<Rightarrow>
             if cs_privateKeyPassphraseEnv configured = [] then
               (case lib_ParsePrivateKey L privateKey of
                  Inl e \<Rightarrow> Inl (ParsingPrivateKey profileName e)
                | Inr signer \<Rightarrow> Inr [KeyAtStart signer])
             else
               (case resolveSecret os profileName (cs_privateKeyPassphraseEnv configured) secretCommand of
                  Inl e \<Rightarrow> Inl e
                | Inr passphrase \<Rightarrow>
                    if deferred passphrase then Inr [KeyCallback privateKey passphrase]
                    else (case signers L run profileName privateKey passphrase of
                            Inl e \<Rightarrow> Inl e
                          | Inr signer \<Rightarrow> Inr [KeyAtStart signer])))
      else if cs_privateKeyPassphraseEnv configured \<noteq> [] then Inl (PassphraseWithoutKey profileName)
      else Inr [])"

record ('s, 'k) config_connector =
  cx_address :: string
  cx_user :: string
  cx_auth :: "'s config_auth list"
  cx_hostKey :: "'k \<Rightarrow> bool"
  cx_timeout :: int

text \<open>Durations are 64-bit nanoseconds: 30 seconds by default, at most 10 minutes.\<close>

definition makeSSHConnector ::
  "('s, 'k) ssh_library \<Rightarrow> config_os \<Rightarrow> (string \<Rightarrow> string \<Rightarrow> command_outcome) \<Rightarrow> string \<Rightarrow> string \<Rightarrow> ssh_settings \<Rightarrow>
     string \<Rightarrow> string \<Rightarrow> config_error + ('s, 'k) config_connector" where
  "makeSSHConnector L os run profileName address configured baseDirectory secretCommand =
     (if cs_username configured = [] then Inl (UsernameMissing profileName)
      else case password_auth os profileName configured secretCommand of
        Inl e \<Rightarrow> Inl e
      | Inr passwords \<Rightarrow>
          (case key_auth L os run profileName configured baseDirectory secretCommand of
             Inl e \<Rightarrow> Inl e
           | Inr keys \<Rightarrow>
               if passwords @ keys = [] then Inl (CredentialMissing profileName)
               else (case makeProfileHostKeyCallback L profileName configured baseDirectory of
                       Inl e \<Rightarrow> Inl e
                     | Inr hostKeyCallback \<Rightarrow>
                         (let ms = cs_connectTimeoutMilliseconds configured
                          in if ms < 0 \<or> ms > 600000 then Inl (ConnectTimeoutTooLong profileName)
                             else (let timeout = (if ms > 0
                                     then sint (word_of_int ms * word_of_int 1000000 :: 64 word) else 30000000000)
                                   in if address = [] then Inl (CreatingSSHConnector profileName)
                                      else Inr \<lparr>cx_address = address, cx_user = cs_username configured,
                                             cx_auth = passwords @ keys, cx_hostKey = hostKeyCallback,
                                             cx_timeout = timeout\<rparr>)))))"

subsection \<open>Profiles\<close>

datatype ('s, 'k) profile_connector = ProfileTelnet string | ProfileSSH "('s, 'k) config_connector"

text \<open>\<open>makeProfile\<close>; the connector is handed on beside the profile, which refers to it by \<open>i\<close>.\<close>

definition makeProfile ::
  "('s, 'k) ssh_library \<Rightarrow> config_os \<Rightarrow> (string \<Rightarrow> string \<Rightarrow> command_outcome) \<Rightarrow> nat \<Rightarrow> string \<Rightarrow> profileConfig \<Rightarrow>
     string \<Rightarrow> string \<Rightarrow> config_error + mcp_profile \<times> ('s, 'k) profile_connector" where
  "makeProfile L os run i name configured baseDirectory secretCommand =
     (if TrimSpace name = [] \<or> TrimSpace name \<noteq> name then Inl (ProfileNameInvalid name)
      else if pc_address configured = [] then Inl (AddressMissing name)
      else if pc_terminal configured \<noteq> ''vt220'' \<and> pc_terminal configured \<noteq> ''xterm-256color''
      then Inl (TerminalUnsupported name (pc_terminal configured))
      else if pc_width configured \<le> 0 \<or> pc_height configured \<le> 0 \<or>
              pc_width configured > 1000 \<or> pc_height configured > 1000
      then Inl (DimensionsOutOfRange name)
      else (case (if pc_protocol configured = ''telnet'' then
                    (if pc_ssh configured \<noteq> None then Inl (SSHForTelnet name)
                     else case NewConnector (\<lambda>_. Inl []) (pc_address configured) None of
                            Inl _ \<Rightarrow> Inl TelnetConnectorFailed
                          | Inr c \<Rightarrow> Inr (ProfileTelnet (co_address c)))
                  else if pc_protocol configured = ''ssh'' then
                    (case pc_ssh configured of
                       None \<Rightarrow> Inl (SSHSettingsRequired name)
                     | Some ssh \<Rightarrow>
                         map_sum id ProfileSSH
                           (makeSSHConnector L os run name (pc_address configured) ssh baseDirectory secretCommand))
                  else Inl (ProtocolUnsupported name (pc_protocol configured))) of
              Inl e \<Rightarrow> Inl e
            | Inr made \<Rightarrow>
                Inr (\<lparr>mp_name = name, mp_description = pc_description configured,
                      mp_protocol = pc_protocol configured, mp_terminal = pc_terminal configured,
                      mp_width = pc_width configured, mp_height = pc_height configured,
                      mp_connector = Some i\<rparr>, made)))"

text \<open>The loop of \<open>loadProfiles\<close> over the names in the order the map is ranged.\<close>

primrec make_profiles ::
  "('s, 'k) ssh_library \<Rightarrow> config_os \<Rightarrow> (string \<Rightarrow> string \<Rightarrow> command_outcome) \<Rightarrow> (string \<rightharpoonup> profileConfig) \<Rightarrow>
     string \<Rightarrow> string \<Rightarrow> nat \<Rightarrow> string list \<Rightarrow> config_error + (mcp_profile \<times> ('s, 'k) profile_connector) list" where
  "make_profiles L os run configs baseDirectory secretCommand i [] = Inr []"
| "make_profiles L os run configs baseDirectory secretCommand i (name # names) =
     (case makeProfile L os run i name (the (configs name)) baseDirectory secretCommand of
        Inl e \<Rightarrow> Inl e
      | Inr p \<Rightarrow>
          (case make_profiles L os run configs baseDirectory secretCommand (Suc i) names of
             Inl e \<Rightarrow> Inl e
           | Inr ps \<Rightarrow> Inr (p # ps)))"

text \<open>
  What opening and decoding the file yields, and what follows the first JSON value: nothing (\<open>io.EOF\<close>),
  another value, or something that is none.
\<close>

datatype json_rest = AtEnd | AnotherValue | Garbage string

datatype config_file =
    CannotOpen string
  | CannotDecode string
  | Decoded "string \<rightharpoonup> profileConfig" json_rest

definition requireJSONEnd :: "json_rest \<Rightarrow> config_error option" where
  "requireJSONEnd rest =
     (case rest of AtEnd \<Rightarrow> None | AnotherValue \<Rightarrow> Some MultipleValues | Garbage e \<Rightarrow> Some (DecodingConfig e))"

definition loadProfiles ::
  "('s, 'k) ssh_library \<Rightarrow> config_os \<Rightarrow> (string \<Rightarrow> string \<Rightarrow> command_outcome) \<Rightarrow> config_file \<Rightarrow> string list \<Rightarrow>
     string \<Rightarrow> string \<Rightarrow> config_error + (mcp_profile \<times> ('s, 'k) profile_connector) list" where
  "loadProfiles L os run file names baseDirectory secretCommand =
     (case file of
        CannotOpen e \<Rightarrow> Inl (OpeningConfig e)
      | CannotDecode e \<Rightarrow> Inl (DecodingConfig e)
      | Decoded configs rest \<Rightarrow>
          (case requireJSONEnd rest of
             Some e \<Rightarrow> Inl e
           | None \<Rightarrow>
               if configs = Map.empty then Inl ProfileRequired
               else make_profiles L os run configs baseDirectory secretCommand 0 names))"

text \<open>\<open>terminal\<close>, the factory of the command; \<open>None\<close> is a panic of \<open>ansi.New\<close>.\<close>

definition mcp_terminal :: "string \<Rightarrow> int \<Rightarrow> int \<Rightarrow> (factory_error + terminal) option" where
  "mcp_terminal profile width height =
     (if profile = ''vt220'' then profile_New VT220 width height
      else if profile = ''xterm-256color'' then profile_New XTerm width height
      else Some (Inl (UnsupportedTerminal profile)))"

section \<open>What an accepted profile file is good for\<close>

text \<open>
  What a profile file the MCP command accepts is good for: the service accepts the profiles, their
  terminals can be created, SSH connectors check host keys, and every secret has one source.
\<close>

subsection \<open>What a loaded configuration is good for\<close>

definition ssh_checked :: "('s, 'k) ssh_library \<Rightarrow> string \<Rightarrow> ssh_settings \<Rightarrow> ('s, 'k) config_connector \<Rightarrow> bool" where
  "ssh_checked L baseDirectory ssh c \<longleftrightarrow>
     cx_user c = cs_username ssh \<and> cx_auth c \<noteq> [] \<and> 0 < cx_timeout c \<and> cx_timeout c \<le> 600000000000 \<and>
     (cs_insecureSkipHostKeyCheck ssh \<and> cs_knownHostsFile ssh = [] \<and> cs_hostKeyFingerprint ssh = [] \<or>
      \<not> cs_insecureSkipHostKeyCheck ssh \<and>
      (\<forall>key. cx_hostKey c key \<longleftrightarrow>
         (if cs_knownHostsFile ssh \<noteq> []
          then \<exists>check. lib_knownhosts L (resolvePath baseDirectory (cs_knownHostsFile ssh)) = Inr check \<and> check key
          else lib_FingerprintSHA256 L key = cs_hostKeyFingerprint ssh)))"

lemma timeout_bounds:
  assumes "0 < ms" "ms \<le> 600000"
  shows "sint (word_of_int ms * word_of_int 1000000 :: 64 word) = ms * 1000000"
proof -
  have "word_of_int ms * word_of_int 1000000 = (word_of_int (ms * 1000000) :: 64 word)" by simp
  moreover have "sint (word_of_int (ms * 1000000) :: 64 word) = ms * 1000000"
    using assms by (intro sint_small) auto
  ultimately show ?thesis by simp
qed

lemma host_key_callback:
  assumes "makeProfileHostKeyCallback L name ssh baseDirectory = Inr callback"
  shows "cs_insecureSkipHostKeyCheck ssh \<and> cs_knownHostsFile ssh = [] \<and> cs_hostKeyFingerprint ssh = [] \<or>
      \<not> cs_insecureSkipHostKeyCheck ssh \<and>
      (\<forall>key. callback key \<longleftrightarrow>
         (if cs_knownHostsFile ssh \<noteq> []
          then \<exists>check. lib_knownhosts L (resolvePath baseDirectory (cs_knownHostsFile ssh)) = Inr check \<and> check key
          else lib_FingerprintSHA256 L key = cs_hostKeyFingerprint ssh))"
  using assms by (auto simp: makeProfileHostKeyCallback_def Let_def split: if_splits sum.splits)

lemma makeSSHConnector_checked:
  assumes "makeSSHConnector L os run name address ssh baseDirectory secretCommand = Inr c"
  shows "ssh_checked L baseDirectory ssh c \<and> cx_address c = address"
proof -
  have c: "cx_auth c \<noteq> []" "cx_user c = cs_username ssh"
      "makeProfileHostKeyCallback L name ssh baseDirectory = Inr (cx_hostKey c)" "cx_address c = address"
      "0 \<le> cs_connectTimeoutMilliseconds ssh" "cs_connectTimeoutMilliseconds ssh \<le> 600000"
      "cx_timeout c = (if cs_connectTimeoutMilliseconds ssh > 0
         then sint (word_of_int (cs_connectTimeoutMilliseconds ssh) * word_of_int 1000000 :: 64 word) else 30000000000)"
    using assms unfolding makeSSHConnector_def Let_def by (auto split: if_splits sum.splits)
  then show ?thesis
    using host_key_callback [OF c(3)] timeout_bounds [of "cs_connectTimeoutMilliseconds ssh"]
    by (auto simp: ssh_checked_def)
qed

text \<open>What \<open>makeProfile\<close> guarantees of a profile it makes for \<open>name\<close>.\<close>

definition profile_good ::
  "('s, 'k) ssh_library \<Rightarrow> string \<Rightarrow> profileConfig \<Rightarrow> string \<Rightarrow> mcp_profile \<times> ('s, 'k) profile_connector \<Rightarrow> bool" where
  "profile_good L baseDirectory configured name p \<longleftrightarrow>
     mp_name (fst p) = name \<and> validateProfile (fst p) = None \<and>
     mp_description (fst p) = pc_description configured \<and> mp_terminal (fst p) = pc_terminal configured \<and>
     mp_width (fst p) = pc_width configured \<and> mp_height (fst p) = pc_height configured \<and>
     (\<exists>t. mcp_terminal (mp_terminal (fst p)) (mp_width (fst p)) (mp_height (fst p)) = Some (Inr t)) \<and>
     (case snd p of
        ProfileTelnet address \<Rightarrow> address = pc_address configured \<and> pc_ssh configured = None
      | ProfileSSH c \<Rightarrow> cx_address c = pc_address configured \<and>
          (\<exists>ssh. pc_ssh configured = Some ssh \<and> ssh_checked L baseDirectory ssh c))"

lemma mcp_terminal_New:
  assumes "0 < width" "0 < height" "width \<le> 1000" "height \<le> 1000" "p = ''vt220'' \<or> p = ''xterm-256color''"
  shows "\<exists>t. mcp_terminal p width height = Some (Inr t)"
  using New_wf [OF dims_fit_1000, of width height VT220] New_wf [OF dims_fit_1000, of width height XTerm] assms
  by (auto simp: mcp_terminal_def profile_New_def)

lemma makeProfile_good:
  assumes "makeProfile L os run i name configured baseDirectory secretCommand = Inr p"
  shows "profile_good L baseDirectory configured name p"
proof -
  have ok: "TrimSpace name = name" "name \<noteq> []" "0 < pc_width configured" "0 < pc_height configured"
      "pc_width configured \<le> 1000" "pc_height configured \<le> 1000"
      "pc_terminal configured = ''vt220'' \<or> pc_terminal configured = ''xterm-256color''"
      "fst p = \<lparr>mp_name = name, mp_description = pc_description configured,
                mp_protocol = pc_protocol configured, mp_terminal = pc_terminal configured,
                mp_width = pc_width configured, mp_height = pc_height configured, mp_connector = Some i\<rparr>"
      "pc_protocol configured \<noteq> []"
    using assms by (auto simp: makeProfile_def split: if_splits sum.splits option.splits)
  have "case snd p of
        ProfileTelnet address \<Rightarrow> address = pc_address configured \<and> pc_ssh configured = None
      | ProfileSSH c \<Rightarrow> cx_address c = pc_address configured \<and>
          (\<exists>ssh. pc_ssh configured = Some ssh \<and> ssh_checked L baseDirectory ssh c)"
  proof (cases "pc_ssh configured")
    case None
    then show ?thesis
      using assms by (auto simp: makeProfile_def NewConnector_def split: if_splits sum.splits)
  next
    case (Some ssh)
    then obtain c where "makeSSHConnector L os run name (pc_address configured) ssh baseDirectory secretCommand = Inr c"
        "snd p = ProfileSSH c"
      using assms by (auto simp: makeProfile_def map_sum_def split: if_splits sum.splits)
    then show ?thesis using Some makeSSHConnector_checked [of L os run name] by simp
  qed
  then show ?thesis
    using ok mcp_terminal_New [OF ok(3-7)] by (auto simp: profile_good_def validateProfile_def)
qed

lemma make_profiles_good:
  assumes "make_profiles L os run configs baseDirectory secretCommand i names = Inr ps"
  shows "list_all2 (\<lambda>name p. profile_good L baseDirectory (the (configs name)) name p) names ps"
  using assms
proof (induction names arbitrary: i ps)
  case (Cons name names)
  then show ?case by (auto simp: makeProfile_good split: sum.splits)
qed simp

lemma add_good_profiles:
  assumes "list_all2 (\<lambda>name p. mp_name p = name \<and> validateProfile p = None) names ps"
    "distinct names" "set names \<inter> dom available = {}"
  shows "\<exists>av. add_profiles ps available = Inr av \<and> dom av = dom available \<union> set names \<and>
     (\<forall>p \<in> set ps. av (mp_name p) = Some p) \<and> (\<forall>n \<in> dom available. av n = available n)"
  using assms
proof (induction names ps arbitrary: available rule: list_all2_induct)
  case (Cons name names p ps)
  have new: "available name = None" "set names \<inter> dom (available(name \<mapsto> p)) = {}"
    using Cons.prems by auto
  obtain av where av: "add_profiles ps (available(name \<mapsto> p)) = Inr av"
      "dom av = dom (available(name \<mapsto> p)) \<union> set names" "\<forall>q \<in> set ps. av (mp_name q) = Some q"
      "\<forall>n \<in> dom (available(name \<mapsto> p)). av n = (available(name \<mapsto> p)) n"
    using Cons.IH [OF _ new(2)] Cons.prems(1) unfolding distinct.simps by blast
  have "\<forall>n \<in> dom available. av n = available n" using av(4) new(1) by (auto simp: dom_def)
  then show ?case using av Cons.hyps new(1) by auto
qed auto

text \<open>
  C25: Whatever profile file the MCP command accepts, the service accepts too, with
  exactly the configured names: every profile is valid, its terminal can be created with its
  dimensions, a Telnet connector has no SSH settings, and an SSH connector has a credential, a connect
  timeout of at most ten minutes, and checks the host key in the one way configured, skipping the check
  only where the file asks for that.
\<close>

theorem mcp_config_accepted:
  assumes "loadProfiles L os run (Decoded configs rest) names baseDirectory secretCommand = Inr ps"
    and "distinct names" "set names = dom configs"
  shows "\<exists>sv. new_service (map fst ps) = Inr sv \<and> dom (sv_profiles sv) = dom configs \<and>
     (\<forall>p \<in> set ps. \<exists>configured. configs (mp_name (fst p)) = Some configured \<and>
        sv_profiles sv (mp_name (fst p)) = Some (fst p) \<and>
        mp_width (fst p) = pc_width configured \<and> mp_height (fst p) = pc_height configured \<and>
        (\<exists>t. mcp_terminal (mp_terminal (fst p)) (mp_width (fst p)) (mp_height (fst p)) = Some (Inr t)) \<and>
        (case snd p of
           ProfileTelnet address \<Rightarrow> address = pc_address configured \<and> pc_ssh configured = None
         | ProfileSSH c \<Rightarrow> cx_address c = pc_address configured \<and>
             (\<exists>ssh. pc_ssh configured = Some ssh \<and> ssh_checked L baseDirectory ssh c)))"
proof -
  have made: "make_profiles L os run configs baseDirectory secretCommand 0 names = Inr ps" "configs \<noteq> Map.empty"
    using assms(1) by (auto simp: loadProfiles_def split: option.splits if_splits)
  note good = make_profiles_good [OF made(1)]
  have "list_all2 (\<lambda>name p. mp_name p = name \<and> validateProfile p = None) names (map fst ps)"
    using good by (auto simp: list_all2_map2 profile_good_def elim: list_all2_mono)
  then obtain av where av: "add_profiles (map fst ps) Map.empty = Inr av" "dom av = set names"
      "\<forall>p \<in> set (map fst ps). av (mp_name p) = Some p"
    using add_good_profiles [OF _ assms(2), of "map fst ps" Map.empty] by auto
  moreover have "av \<noteq> Map.empty" using av(2) made(2) assms(3) by (metis dom_eq_empty_conv)
  ultimately have sv: "\<exists>sv. new_service (map fst ps) = Inr sv \<and> sv_profiles sv = av"
    by (auto simp: new_service_def)
  have "\<exists>configured. configs (mp_name (fst p)) = Some configured \<and> profile_good L baseDirectory configured (mp_name (fst p)) p"
    if p: "p \<in> set ps" for p
  proof -
    obtain k where k: "k < length ps" "p = ps ! k" using p by (auto simp: in_set_conv_nth)
    then have g: "profile_good L baseDirectory (the (configs (names ! k))) (names ! k) p"
      using good by (simp add: list_all2_conv_all_nth)
    have "names ! k \<in> dom configs"
      using k(1) good assms(3) by (metis list_all2_lengthD nth_mem)
    then obtain configured where "configs (names ! k) = Some configured" by auto
    moreover have "mp_name (fst p) = names ! k" using g by (simp add: profile_good_def)
    ultimately show ?thesis using g by simp
  qed
  then show ?thesis using sv av(2,3) assms(3) unfolding profile_good_def by fastforce
qed

definition wms_config :: profileConfig where
  "wms_config = \<lparr>pc_description = [], pc_protocol = ''telnet'', pc_address = ''wms:23'', pc_terminal = ''vt220'',
     pc_width = 80, pc_height = 24, pc_ssh = None\<rparr>"

definition sample_os :: config_os where
  "sample_os = \<lparr>os_Getenv = (\<lambda>_. []), os_Open = (\<lambda>_. Inl []), os_ReadFile = (\<lambda>_. Inl [])\<rparr>"

theorem mcp_config_accepted_witness:
  "\<exists>ps sv. loadProfiles sample_library sample_os (\<lambda>_ _. CommandTimeout) (Decoded [''wms'' \<mapsto> wms_config] AtEnd)
       [''wms''] ''/etc'' [] = Inr ps \<and> ps \<noteq> [] \<and> new_service (map fst ps) = Inr sv"
proof -
  have trim: "TrimSpace ''wms'' = ''wms''" by code_simp
  have empty: "[''wms'' \<mapsto> wms_config] \<noteq> Map.empty" by simp
  obtain ps where ps: "loadProfiles sample_library sample_os (\<lambda>_ _. CommandTimeout) (Decoded [''wms'' \<mapsto> wms_config] AtEnd)
       [''wms''] ''/etc'' [] = Inr ps" "ps \<noteq> []"
    by (simp add: loadProfiles_def requireJSONEnd_def makeProfile_def wms_config_def NewConnector_def trim)
  show ?thesis using mcp_config_accepted [OF ps(1)] ps by auto
qed

subsection \<open>Secrets have one source\<close>

lemma HasSuffix_split: "HasSuffix s suf \<Longrightarrow> s = take (length s - length suf) s @ suf"
  unfolding HasSuffix_def by (metis append_take_drop_id)

lemma trimSecret_value:
  assumes "trimSecret raw = Inr v"
  shows "v \<noteq> [] \<and> length raw \<le> 65536 \<and> raw \<in> {v, v @ [CHR 0x0A], v @ [CHR 0x0D, CHR 0x0A]}"
proof (cases "HasSuffix raw [CHR 0x0D, CHR 0x0A]")
  case True
  then show ?thesis
    using assms HasSuffix_split [OF True]
    by (simp add: trimSecret_def maximumSecretBytes_def numeral_2_eq_2 split: if_splits)
next
  case False
  then show ?thesis
    using assms HasSuffix_split [of raw "[CHR 0x0A]"]
    by (auto simp: trimSecret_def TrimSuffix_def maximumSecretBytes_def split: if_splits)
qed

text \<open>
  A secret has exactly one source: the value of its environment variable as it is
  (and then the variable with the file must be unset), otherwise the contents of the file without one
  line ending, at most 64 KiB of them, and the output of the secret command, treated the same way, only
  when neither variable is set. It is never empty.
\<close>

theorem secret_resolved:
  assumes "resolveSecret os profileName name secretCommand = Inr s" "get_secret run s = Inr value"
  shows "value \<noteq> [] \<and>
     (if os_Getenv os name \<noteq> [] then value = os_Getenv os name \<and> os_Getenv os (name @ ''_FILE'') = []
      else \<exists>raw. length raw \<le> 65536 \<and> raw \<in> {value, value @ [CHR 0x0A], value @ [CHR 0x0D, CHR 0x0A]} \<and>
        (if os_Getenv os (name @ ''_FILE'') \<noteq> [] then os_Open os (os_Getenv os (name @ ''_FILE'')) = Inr (Inr raw)
         else run secretCommand name = CommandOutput raw))"
proof -
  have from_file: "\<exists>raw. os_Open os path = Inr (Inr raw) \<and> trimSecret raw = Inr v"
    if ok: "readSecretFile os path = Inr v" for path v
  proof -
    obtain raw where raw: "os_Open os path = Inr (Inr raw)"
        "trimSecret (take (maximumSecretBytes + 1) raw) = Inr v"
      using ok unfolding readSecretFile_def by (auto split: sum.splits)
    then have "length raw \<le> maximumSecretBytes"
      using trimSecret_value [OF raw(2)] by (auto simp: maximumSecretBytes_def)
    then show ?thesis using raw by simp
  qed
  have from_command: "\<exists>raw. outcome = CommandOutput raw \<and> trimSecret raw = Inr v"
    if "runSecretCommand outcome = Inr v" for outcome v
    using that by (auto simp: runSecretCommand_def Let_def split: command_outcome.splits option.splits sum.splits if_splits)
  show ?thesis
    using assms trimSecret_value [of _ "value"] from_file from_command
    by (fastforce simp: resolveSecret_def get_secret_def Let_def split: if_splits sum.splits)
qed

theorem secret_resolved_witness:
  "\<exists>raw. length raw \<le> 65536 \<and> raw \<in> {''pw'', ''pw'' @ [CHR 0x0A], ''pw'' @ [CHR 0x0D, CHR 0x0A]} \<and>
     (\<lambda>_ _. CommandOutput [CHR ''p'', CHR ''w'', CHR 0x0A]) ''pass'' ''PW'' = CommandOutput raw"
proof -
  have "HasSuffix [CHR ''p'', CHR ''w'', CHR 0x0A] [CHR 0x0A]" "\<not> HasSuffix [CHR ''p'', CHR ''w'', CHR 0x0A] [CHR 0x0D, CHR 0x0A]"
    by code_simp+
  then have "trimSecret [CHR ''p'', CHR ''w'', CHR 0x0A] = Inr ''pw''"
    by (simp add: trimSecret_def TrimSuffix_def maximumSecretBytes_def)
  then have "get_secret (\<lambda>_ _. CommandOutput [CHR ''p'', CHR ''w'', CHR 0x0A]) (CommandSecret ''wms'' ''pass'' ''PW'') = Inr ''pw''"
    by (simp add: get_secret_def runSecretCommand_def)
  moreover have "resolveSecret sample_os ''wms'' ''PW'' ''pass'' = Inr (CommandSecret ''wms'' ''pass'' ''PW'')"
    by (simp add: resolveSecret_def sample_os_def)
  ultimately show ?thesis
    using secret_resolved [of sample_os "''wms''" "''PW''" "''pass''"] by (simp add: sample_os_def)
qed

end
