(* ===== verification/Ssh_Transport.thy ===== *)
theory Ssh_Transport
  imports Prelude "HOL-Library.Multiset"
begin

text \<open>
  The SSH client transport (\<open>ssh/connector.go\<close>): establishing a connection, opening a session on it,
  and the stream with its goroutine. The library \<open>golang.org/x/crypto/ssh\<close>, the dialer and \<open>io.Pipe\<close>
  are seen through the calls made to them: a function of this theory is given the outcome \<open>world k c\<close>
  of the \<open>k\<close>-th call, should it be \<open>c\<close>, and appends the calls it makes to a trace. What the code relies on is
  only that a call returns an error or none.
\<close>

text \<open>The errors the code tells apart with \<open>errors.Is\<close>.\<close>

datatype io_error = ErrClosed | ErrClosedPipe | EOF | OtherError string

datatype ssh_call =
    Dial
  | Handshake
  | NewSessionChannel
  | StdinPipe
  | MakePipe
  | RequestPty string int int
  | Shell
  | WindowChange int int
  | CloseRaw
  | CloseClient
  | CloseSession
  | CloseInput
  | CloseWriter
  | CloseReader

type_synonym ssh_world = "nat \<Rightarrow> ssh_call \<Rightarrow> io_error option"

definition perform :: "ssh_world \<Rightarrow> ssh_call \<Rightarrow> ssh_call list \<Rightarrow> io_error option \<times> ssh_call list" where
  "perform world c calls = (world (length calls) c, calls @ [c])"

datatype ssh_error =
    DialingServer io_error
  | HandshakeCanceled
  | ClosingCanceled io_error
  | Handshaking "ssh_error list"
  | HandshakeFailed io_error
  | ClosingFailed io_error
  | OpeningDimensions
  | OpeningCanceled
  | OpeningChannel io_error
  | OpeningInput io_error
  | RequestingPty io_error
  | StartingShell io_error
  | CleaningResource io_error
  | CleaningSession io_error
  | ClosingSSHClient io_error
  | ResizingDimensions
  | SendingWindowChange io_error
  | ClosingInput io_error
  | ClosingSession io_error
  | ClosingWriter io_error
  | ClosingReader io_error
  | ClosingCompleted io_error

text \<open>An error that counts: one the code does not expect at this place.\<close>

definition reported :: "(io_error \<Rightarrow> ssh_error) \<Rightarrow> io_error set \<Rightarrow> io_error option \<Rightarrow> ssh_error list" where
  "reported wrap expected e = (case e of Some x \<Rightarrow> if x \<in> expected then [] else [wrap x] | None \<Rightarrow> [])"

subsection \<open>Connecting\<close>

text \<open>
  \<open>newClientConn\<close>; \<open>canceled\<close> is whether the select takes the branch of \<open>ctx.Done()\<close>. In that branch the
  handshake's result is received and dropped.
\<close>

definition newClientConn ::
  "ssh_world \<Rightarrow> bool \<Rightarrow> ssh_call list \<Rightarrow> (ssh_error list + unit) \<times> ssh_call list" where
  "newClientConn world canceled calls =
     (let (e, calls1) = perform world Handshake calls
      in if canceled
         then (let (c, calls2) = perform world CloseRaw calls1
               in (Inl (HandshakeCanceled # reported ClosingCanceled {ErrClosed} c), calls2))
         else (case e of Some x \<Rightarrow> (Inl [HandshakeFailed x], calls1) | None \<Rightarrow> (Inr (), calls1)))"

definition ssh_Connect ::
  "ssh_world \<Rightarrow> bool \<Rightarrow> ssh_call list \<Rightarrow> (ssh_error list + unit) \<times> ssh_call list" where
  "ssh_Connect world canceled calls =
     (let (d, calls1) = perform world Dial calls
      in case d of
           Some x \<Rightarrow> (Inl [DialingServer x], calls1)
         | None \<Rightarrow>
             (case newClientConn world canceled calls1 of
                (Inr connected, calls2) \<Rightarrow> (Inr connected, calls2)
              | (Inl es, calls2) \<Rightarrow>
                  (let (c, calls3) = perform world CloseRaw calls2
                   in (Inl (Handshaking es # reported ClosingFailed {ErrClosed, ErrClosedPipe} c), calls3))))"

subsection \<open>Opening a session\<close>

primrec close_resources :: "ssh_world \<Rightarrow> ssh_call list \<Rightarrow> ssh_call list \<Rightarrow> ssh_error list \<times> ssh_call list" where
  "close_resources world [] calls = ([], calls)"
| "close_resources world (r # rs) calls =
     (let (e, calls1) = perform world r calls;
          (es, calls2) = close_resources world rs calls1
      in (reported CleaningResource {EOF, ErrClosedPipe} e @ es, calls2))"

definition cleanupSession :: "ssh_world \<Rightarrow> ssh_call list \<Rightarrow> ssh_call list \<Rightarrow> ssh_error list \<times> ssh_call list" where
  "cleanupSession world resources calls =
     (let (es, calls1) = close_resources world resources calls;
          (e, calls2) = perform world CloseSession calls1
      in (es @ reported CleaningSession {EOF} e, calls2))"

definition failing ::
  "ssh_error \<Rightarrow> ssh_error list \<times> ssh_call list \<Rightarrow> (ssh_error list + unit) \<times> ssh_call list" where
  "failing e r = (Inl (e # fst r), snd r)"

text \<open>\<open>OpenSession\<close>; \<open>Inr ()\<close> is the stream over the session, the input pipe and the two ends of the output pipe.\<close>

definition ssh_OpenSession ::
  "ssh_world \<Rightarrow> bool \<Rightarrow> string \<Rightarrow> int \<Rightarrow> int \<Rightarrow> ssh_call list \<Rightarrow> (ssh_error list + unit) \<times> ssh_call list" where
  "ssh_OpenSession world canceled terminalType width height calls =
     (if width \<le> 0 \<or> height \<le> 0 then (Inl [OpeningDimensions], calls)
      else if canceled then (Inl [OpeningCanceled], calls)
      else
        (case perform world NewSessionChannel calls of
           (Some x, calls1) \<Rightarrow> (Inl [OpeningChannel x], calls1)
         | (None, calls1) \<Rightarrow>
             (case perform world StdinPipe calls1 of
                (Some x, calls2) \<Rightarrow> failing (OpeningInput x) (cleanupSession world [] calls2)
              | (None, calls2) \<Rightarrow>
                  (let calls3 = snd (perform world MakePipe calls2);
                       resources = [CloseInput, CloseWriter, CloseReader]
                   in case perform world (RequestPty terminalType height width) calls3 of
                        (Some x, calls4) \<Rightarrow> failing (RequestingPty x) (cleanupSession world resources calls4)
                      | (None, calls4) \<Rightarrow>
                          (case perform world Shell calls4 of
                             (Some x, calls5) \<Rightarrow> failing (StartingShell x) (cleanupSession world resources calls5)
                           | (None, calls5) \<Rightarrow> (Inr (), calls5))))))"

definition ssh_Close :: "ssh_world \<Rightarrow> ssh_call list \<Rightarrow> ssh_error list \<times> ssh_call list" where
  "ssh_Close world calls =
     (let (e, calls1) = perform world CloseClient calls in (reported ClosingSSHClient {EOF} e, calls1))"

definition stream_Resize :: "ssh_world \<Rightarrow> int \<Rightarrow> int \<Rightarrow> ssh_call list \<Rightarrow> ssh_error list \<times> ssh_call list" where
  "stream_Resize world width height calls =
     (if width \<le> 0 \<or> height \<le> 0 then ([ResizingDimensions], calls)
      else (let (e, calls1) = perform world (WindowChange height width) calls
            in (reported SendingWindowChange {} e, calls1)))"

subsection \<open>The stream\<close>

text \<open>
  \<open>Close\<close> runs its function once (\<open>sync.Once\<close>): the four closes in order; callers that come later wait for
  it and get the same error. The goroutine \<open>wait\<close> closes the output writer when the remote session ends,
  at any time between.
\<close>

datatype once_state = NotClosed | ClosingAt nat | ClosedOnce

datatype waiter = Waiting | SessionEnded | WriterClosed "io_error option" | WaiterDone

record ssh_stream =
  st_once :: once_state
  st_closeErr :: "ssh_error list"
  st_waiter :: waiter
  st_waitErr :: "ssh_error list"
  st_calls :: "ssh_call list"

definition new_stream :: ssh_stream where
  "new_stream = \<lparr>st_once = NotClosed, st_closeErr = [], st_waiter = Waiting, st_waitErr = [], st_calls = []\<rparr>"

definition stream_closes :: "(ssh_call \<times> (io_error \<Rightarrow> ssh_error) \<times> io_error set) list" where
  "stream_closes =
     [(CloseInput, ClosingInput, {EOF}), (CloseSession, ClosingSession, {EOF}),
      (CloseWriter, ClosingWriter, {ErrClosedPipe}), (CloseReader, ClosingReader, {ErrClosedPipe})]"

definition close_turn :: "ssh_world \<Rightarrow> nat \<Rightarrow> ssh_stream \<Rightarrow> ssh_stream" where
  "close_turn world k st =
     (case stream_closes ! k of
        (c, wrap, expected) \<Rightarrow>
          (let (e, calls) = perform world c (st_calls st)
           in st\<lparr>st_calls := calls, st_closeErr := st_closeErr st @ reported wrap expected e,
                 st_once := (if k = 3 then ClosedOnce else ClosingAt (Suc k))\<rparr>))"

inductive stream_step :: "ssh_world \<Rightarrow> ssh_stream \<Rightarrow> ssh_stream \<Rightarrow> bool" for world where
  close_begin: "st_once st = NotClosed \<Longrightarrow> stream_step world st (st\<lparr>st_once := ClosingAt 0\<rparr>)"
| close_next: "st_once st = ClosingAt k \<Longrightarrow> stream_step world st (close_turn world k st)"
| session_ends: "st_waiter st = Waiting \<Longrightarrow> stream_step world st (st\<lparr>st_waiter := SessionEnded\<rparr>)"
| wait_closes: "st_waiter st = SessionEnded \<Longrightarrow>
    stream_step world st (st\<lparr>st_waiter := WriterClosed (fst (perform world CloseWriter (st_calls st))),
                             st_calls := st_calls st @ [CloseWriter]\<rparr>)"
| wait_done: "st_waiter st = WriterClosed e \<Longrightarrow>
    stream_step world st (st\<lparr>st_waiter := WaiterDone, st_waitErr := reported ClosingCompleted {ErrClosedPipe} e\<rparr>)"

inductive stream_run :: "ssh_world \<Rightarrow> ssh_stream \<Rightarrow> bool" for world where
  stream_start: "stream_run world new_stream"
| stream_next: "stream_run world st \<Longrightarrow> stream_step world st st' \<Longrightarrow> stream_run world st'"

text \<open>What a call of \<open>Close\<close> returns, once the function has run.\<close>

definition close_result :: "ssh_stream \<Rightarrow> ssh_error list option" where
  "close_result st = (case st_once st of ClosedOnce \<Rightarrow> Some (st_closeErr st @ st_waitErr st) | _ \<Rightarrow> None)"

inductive_cases stream_stepE: "stream_step world st st'"

subsection \<open>Nothing is left open\<close>

text \<open>What a successful call opens, by the calls that close it again.\<close>

definition opens :: "ssh_call \<Rightarrow> ssh_call list" where
  "opens c =
     (case c of
        Dial \<Rightarrow> [CloseRaw] | NewSessionChannel \<Rightarrow> [CloseSession] | StdinPipe \<Rightarrow> [CloseInput]
      | MakePipe \<Rightarrow> [CloseWriter, CloseReader] | _ \<Rightarrow> [])"

definition closer :: "ssh_call \<Rightarrow> bool" where
  "closer c \<longleftrightarrow> c \<in> {CloseRaw, CloseSession, CloseInput, CloseWriter, CloseReader}"

text \<open>The closes owed after a trace: those of everything opened; \<open>io.Pipe\<close> cannot fail.\<close>

primrec owed :: "ssh_world \<Rightarrow> nat \<Rightarrow> ssh_call list \<Rightarrow> ssh_call list" where
  "owed world k [] = []"
| "owed world k (c # cs) =
     (if world k c = None \<or> c = MakePipe then opens c else []) @ owed world (Suc k) cs"

text \<open>
  Whatever the SSH library and the dialer answer, a failed \<open>OpenSession\<close> has
  closed everything it had opened, each thing exactly once, and a successful one has closed nothing and
  leaves the session, the input pipe and both ends of the output pipe to the stream; a failed
  \<open>Connect\<close> has closed the network connection if there was one, a successful one has not.
\<close>

theorem ssh_nothing_left_open:
  "(case ssh_OpenSession world canceled terminalType width height [] of
      (Inl es, calls) \<Rightarrow> es \<noteq> [] \<and> mset (filter closer calls) = mset (owed world 0 calls)
    | (Inr _, calls) \<Rightarrow> 0 < width \<and> 0 < height \<and> filter closer calls = [] \<and>
        owed world 0 calls = [CloseSession, CloseInput, CloseWriter, CloseReader]) \<and>
   (case ssh_Connect world canceled [] of
      (Inl es, calls) \<Rightarrow> es \<noteq> [] \<and> set (filter closer calls) = set (owed world 0 calls)
    | (Inr _, calls) \<Rightarrow> filter closer calls = [] \<and> owed world 0 calls = [CloseRaw])"
proof (rule conjI)
  note defs = perform_def opens_def closer_def Let_def
  show "case ssh_OpenSession world canceled terminalType width height [] of
      (Inl es, calls) \<Rightarrow> es \<noteq> [] \<and> mset (filter closer calls) = mset (owed world 0 calls)
    | (Inr _, calls) \<Rightarrow> 0 < width \<and> 0 < height \<and> filter closer calls = [] \<and>
        owed world 0 calls = [CloseSession, CloseInput, CloseWriter, CloseReader]"
    by (auto simp: ssh_OpenSession_def failing_def cleanupSession_def defs split: option.splits)
  show "case ssh_Connect world canceled [] of
      (Inl es, calls) \<Rightarrow> es \<noteq> [] \<and> set (filter closer calls) = set (owed world 0 calls)
    | (Inr _, calls) \<Rightarrow> filter closer calls = [] \<and> owed world 0 calls = [CloseRaw]"
    by (cases "world 0 Dial"; cases canceled; cases "world 1 Handshake")
      (auto simp: ssh_Connect_def newClientConn_def defs)
qed

subsection \<open>The stream is closed once\<close>

definition close_index :: "ssh_stream \<Rightarrow> nat" where
  "close_index st = (case st_once st of NotClosed \<Rightarrow> 0 | ClosingAt k \<Rightarrow> k | ClosedOnce \<Rightarrow> 4)"

definition stream_ok :: "ssh_stream \<Rightarrow> bool" where
  "stream_ok st \<longleftrightarrow>
     (\<forall>k. st_once st = ClosingAt k \<longrightarrow> k < 4) \<and>
     filter (\<lambda>c. c \<noteq> CloseWriter) (st_calls st) =
       filter (\<lambda>c. c \<noteq> CloseWriter) (take (close_index st) (map fst stream_closes)) \<and>
     count_list (st_calls st) CloseWriter =
       (if 2 < close_index st then 1 else 0) + (if st_waiter st \<in> {Waiting, SessionEnded} then 0 else 1)"

lemma stream_ok_step: "stream_step world st st' \<Longrightarrow> stream_ok st \<Longrightarrow> stream_ok st'"
proof (induction rule: stream_step.induct)
  case (close_next st k)
  then have k: "k < 4" by (simp add: stream_ok_def)
  then have "k = 0 \<or> k = 1 \<or> k = 2 \<or> k = 3" by linarith
  then show ?case
    using close_next
    by (elim disjE) (simp_all add: stream_ok_def close_index_def close_turn_def stream_closes_def perform_def Let_def)
qed (auto simp: stream_ok_def close_index_def)

lemma stream_run_ok: "stream_run world st \<Longrightarrow> stream_ok st"
proof (induction rule: stream_run.induct)
  case stream_start
  show ?case by (simp add: stream_ok_def close_index_def new_stream_def)
next
  case (stream_next st st')
  then show ?case by (blast intro: stream_ok_step)
qed

lemma closed_iff: "close_result st \<noteq> None \<longleftrightarrow> st_once st = ClosedOnce"
  by (simp add: close_result_def split: once_state.splits)

text \<open>
  However the calls of \<open>Close\<close> and the end of the remote session interleave, the
  stream closes its input, its session and the reading end of its pipe at most once, and the writing
  end at most twice; a \<open>Close\<close> that returns has closed all four, in that order, and from then on
  every further step leaves the errors of the closing as they are.
\<close>

theorem ssh_stream_closed_once:
  assumes "stream_run world st"
  shows "count_list (st_calls st) CloseInput \<le> 1 \<and> count_list (st_calls st) CloseSession \<le> 1 \<and>
     count_list (st_calls st) CloseReader \<le> 1 \<and> count_list (st_calls st) CloseWriter \<le> 2 \<and>
     (close_result st \<noteq> None \<longrightarrow>
        filter (\<lambda>c. c \<noteq> CloseWriter) (st_calls st) = [CloseInput, CloseSession, CloseReader] \<and>
        CloseWriter \<in> set (st_calls st) \<and>
        (\<forall>st'. stream_step world st st' \<longrightarrow> close_result st' \<noteq> None \<and> st_closeErr st' = st_closeErr st))"
proof -
  note ok = stream_run_ok [OF assms]
  have count: "count_list xs c = count_list (filter (\<lambda>c. c \<noteq> CloseWriter) xs) c" if "c \<noteq> CloseWriter" for xs c
    using that by (induction xs) auto
  define own where "own = filter (\<lambda>c. c \<noteq> CloseWriter) (take (close_index st) (map fst stream_closes))"
  have own: "filter (\<lambda>c. c \<noteq> CloseWriter) (st_calls st) = own" using ok by (simp add: stream_ok_def own_def)
  have "close_index st \<in> {0, 1, 2, 3, 4}"
    using ok by (cases "st_once st") (auto simp: stream_ok_def close_index_def less_Suc_eq numeral_eq_Suc)
  then have one: "count_list own c \<le> 1" for c by (auto simp: own_def stream_closes_def)
  have all: "own = [CloseInput, CloseSession, CloseReader] \<and> CloseWriter \<in> set (st_calls st)"
    if "close_result st \<noteq> None"
  proof -
    have "st_once st = ClosedOnce" using that unfolding closed_iff .
    then have "close_index st = 4" by (simp add: close_index_def)
    moreover from this have "count_list (st_calls st) CloseWriter \<noteq> 0" using ok by (simp add: stream_ok_def)
    ultimately show ?thesis by (simp add: own_def stream_closes_def count_list_0_iff)
  qed
  have still: "close_result st' \<noteq> None \<and> st_closeErr st' = st_closeErr st"
    if "close_result st \<noteq> None" "stream_step world st st'" for st'
    using that(2,1) unfolding closed_iff by cases simp_all
  have writer: "count_list (st_calls st) CloseWriter \<le> 2" using ok by (simp add: stream_ok_def)
  have others: "count_list (st_calls st) c \<le> 1" if "c \<noteq> CloseWriter" for c
    using count [OF that, of "st_calls st"] one [of c] unfolding own by simp
  show ?thesis
    using writer others [of CloseInput] others [of CloseSession] others [of CloseReader] all still
    unfolding own by blast
qed

theorem ssh_stream_closed_once_witness:
  "count_list (st_calls (new_stream\<lparr>st_once := ClosingAt 0, st_waiter := SessionEnded\<rparr>)) CloseInput \<le> 1"
proof -
  have "stream_run (\<lambda>_ _. None) (new_stream\<lparr>st_once := ClosingAt 0\<rparr>)"
    by (rule stream_next [OF stream_start], rule close_begin) (simp add: new_stream_def)
  then have "stream_run (\<lambda>_ _. None) (new_stream\<lparr>st_once := ClosingAt 0, st_waiter := SessionEnded\<rparr>)"
  proof (rule stream_next)
    have "stream_step (\<lambda>_ _. None) (new_stream\<lparr>st_once := ClosingAt 0\<rparr>)
        ((new_stream\<lparr>st_once := ClosingAt 0\<rparr>)\<lparr>st_waiter := SessionEnded\<rparr>)"
      by (rule session_ends) (simp add: new_stream_def)
    then show "stream_step (\<lambda>_ _. None) (new_stream\<lparr>st_once := ClosingAt 0\<rparr>)
        (new_stream\<lparr>st_once := ClosingAt 0, st_waiter := SessionEnded\<rparr>)" by simp
  qed
  then show ?thesis using ssh_stream_closed_once by blast
qed

end
