(* ===== verification/Ref_Components.thy ===== *)
theory Ref_Components
  imports Terminal_Control Go_Strings
begin

text \<open>
  What the pages of the reference application (\<open>reference/\<close>) build on: key presses and commands of
  Bubble Tea, the styles of Lip Gloss, and the text input, text area and table of Bubbles. These
  libraries are parameters: a style is a function on strings, a component a type with the operations
  the pages use, collected in a record. The verbs \<open>%5d\<close>, \<open>%05d\<close> and \<open>%-9s\<close> of \<open>fmt\<close> are the paddings below.
\<close>

subsection \<open>Keys, messages and commands\<close>

text \<open>A key press with the results of the library's functions on it: \<open>String()\<close> and \<open>Keystroke()\<close>.\<close>

record key_press =
  kp_String :: string
  kp_Keystroke :: string
  kp_Text :: string
  kp_Code :: int
  kp_Mod :: int
  kp_IsRepeat :: bool

text \<open>The key codes and modifier bits of the library the pages name.\<close>

record key_codes =
  kc_Esc :: int
  kc_Left :: int
  kc_Right :: int
  kc_Up :: int
  kc_Down :: int
  kc_Home :: int
  kc_F1 :: int
  kc_F2 :: int
  kc_F3 :: int
  kc_F4 :: int
  kc_F13 :: int
  kc_F24 :: int
  kc_ModCtrl :: int
  kc_ModAlt :: int
  kc_ModShift :: int
  kc_ModMeta :: int

datatype input_msg = KeyInput key_press | PasteInput string

type_synonym generation = "64 word"

text \<open>
  A command: nil, the cursor blink of the text input, a command a component returned, a tick that
  delivers its generation later, quitting, raw output, and running VTTEST.
\<close>

datatype tui_cmd =
    NoCmd
  | Blink
  | ComponentCmd nat
  | ScrollTick generation
  | PartialTick generation
  | LongTick generation
  | QuitCmd
  | RawCmd string
  | ExecVTTest

subsection \<open>Styles\<close>

record styles =
  sy_title :: "string \<Rightarrow> string"
  sy_heading :: "string \<Rightarrow> string"
  sy_selected :: "string \<Rightarrow> string"
  sy_help :: "string \<Rightarrow> string"
  sy_error :: "string \<Rightarrow> string"
  sy_success :: "string \<Rightarrow> string"
  sy_MaxWidth :: "int \<Rightarrow> string \<Rightarrow> string"
  sy_Width :: "int \<Rightarrow> string \<Rightarrow> string"

subsection \<open>Components\<close>

record input_settings =
  is_prompt :: string
  is_placeholder :: string
  is_limit :: int
  is_password :: bool
  is_suggestions :: "string list"

record 'i text_inputs =
  ti_new :: "input_settings \<Rightarrow> 'i"
  ti_Update :: "input_msg \<Rightarrow> 'i \<Rightarrow> 'i \<times> tui_cmd"
  ti_Value :: "'i \<Rightarrow> string"
  ti_SetValue :: "string \<Rightarrow> 'i \<Rightarrow> 'i"
  ti_Width :: "'i \<Rightarrow> int"
  ti_SetWidth :: "int \<Rightarrow> 'i \<Rightarrow> 'i"
  ti_Focus :: "'i \<Rightarrow> 'i \<times> tui_cmd"
  ti_Blur :: "'i \<Rightarrow> 'i"
  ti_View :: "'i \<Rightarrow> string"

record 'n text_areas =
  ta_new :: "string \<Rightarrow> int \<Rightarrow> int \<Rightarrow> 'n"
  ta_Update :: "input_msg \<Rightarrow> 'n \<Rightarrow> 'n \<times> tui_cmd"
  ta_SetWidth :: "int \<Rightarrow> 'n \<Rightarrow> 'n"
  ta_Focus :: "'n \<Rightarrow> 'n \<times> tui_cmd"
  ta_Blur :: "'n \<Rightarrow> 'n"
  ta_View :: "'n \<Rightarrow> string"

record 't tables =
  tb_new :: 't
  tb_Update :: "key_press \<Rightarrow> 't \<Rightarrow> 't"
  tb_SetRows :: "string list list \<Rightarrow> 't \<Rightarrow> 't"
  tb_Rows :: "'t \<Rightarrow> string list list"
  tb_SetColumns :: "(string \<times> int) list \<Rightarrow> 't \<Rightarrow> 't"
  tb_SetWidth :: "int \<Rightarrow> 't \<Rightarrow> 't"
  tb_SetHeight :: "int \<Rightarrow> 't \<Rightarrow> 't"
  tb_Cursor :: "'t \<Rightarrow> int"
  tb_SetCursor :: "int \<Rightarrow> 't \<Rightarrow> 't"
  tb_SelectedRow :: "'t \<Rightarrow> string list"
  tb_View :: "'t \<Rightarrow> string"

subsection \<open>Formatting\<close>

definition pad_left :: "char \<Rightarrow> nat \<Rightarrow> string \<Rightarrow> string" where
  "pad_left c n s = replicate (n - length s) c @ s"

definition pad_right :: "nat \<Rightarrow> string \<Rightarrow> string" where
  "pad_right n s = s @ replicate (n - length s) (CHR '' '')"

definition newline :: string where
  "newline = [CHR 0x0A]"

definition join_lines :: "string list \<Rightarrow> string" where
  "join_lines = join_with newline"

definition repeat_string :: "int \<Rightarrow> string \<Rightarrow> string option" where
  "repeat_string n s = (if n < 0 then None else Some (concat (replicate (nat n) s)))"

definition onOff :: "bool \<Rightarrow> string" where
  "onOff b = (if b then ''ON'' else ''OFF'')"

definition controlLine :: "bool \<Rightarrow> string \<Rightarrow> string" where
  "controlLine focused s = (if focused then ''> '' @ s else ''  '' @ s)"

text \<open>Go's \<open>/\<close> and \<open>%\<close> by a positive number truncate towards zero.\<close>

definition go_quo :: "int \<Rightarrow> int \<Rightarrow> int" where
  "go_quo a b = (if a < 0 then - ((- a) div b) else a div b)"

definition go_rem :: "int \<Rightarrow> int \<Rightarrow> int" where
  "go_rem a b = (if a < 0 then - ((- a) mod b) else a mod b)"

lemma go_nonneg [simp]: "0 \<le> a \<Longrightarrow> go_quo a b = a div b" "0 \<le> a \<Longrightarrow> go_rem a b = a mod b"
  by (simp_all add: go_quo_def go_rem_def)

end
