(* ===== verification/Ref_Streams.thy ===== *)
theory Ref_Streams
  imports Ref_Components
begin

text \<open>
  The three pages of the reference application that change while nobody types (\<open>reference/scrolling.go\<close>,
  \<open>partial.go\<close>, \<open>long_running.go\<close>): a tick carries the generation of the run it belongs to, and the page
  drops ticks of other generations. A function that indexes returns an \<open>option\<close>.
\<close>

subsection \<open>The event log\<close>

record scrollingModel =
  sm_width :: int
  sm_height :: int
  sm_events :: "string list"
  sm_cursor :: int
  sm_follow :: bool
  sm_streaming :: bool
  sm_remaining :: int
  sm_generation :: generation
  sm_status :: string

definition initialEventCount :: nat where
  "initialEventCount = 100"

definition eventRow :: "int \<Rightarrow> string option" where
  "eventRow number =
     do { source \<leftarrow> get_at [''PICKER'', ''PACKER'', ''SORTER'', ''GATEWAY''] (go_rem (number - 1) 4);
          level \<leftarrow> get_at [''INFO'', ''WARN'', ''DEBUG'', ''INFO''] (go_rem (number - 1) 4);
          Some (pad_left (CHR ''0'') 5 (itoa number) @ ''   '' @ pad_right 9 source @ '' '' @ pad_right 6 level @
                '' Processed deterministic event '' @ pad_left (CHR ''0'') 3 (itoa number)) }"

primrec event_rows :: "int list \<Rightarrow> string list option" where
  "event_rows [] = Some []"
| "event_rows (n # ns) = do { row \<leftarrow> eventRow n; rows \<leftarrow> event_rows ns; Some (row # rows) }"

definition scrolling_pageSize :: "scrollingModel \<Rightarrow> int" where
  "scrolling_pageSize m = max 1 (sm_height m - 8)"

definition scrolling_clampCursor :: "scrollingModel \<Rightarrow> scrollingModel" where
  "scrolling_clampCursor m = m\<lparr>sm_cursor := max 0 (min (sm_cursor m) (int (length (sm_events m)) - 1))\<rparr>"

definition scrolling_reset :: "scrollingModel \<Rightarrow> scrollingModel option" where
  "scrolling_reset m =
     do { events \<leftarrow> event_rows [1..int initialEventCount];
          Some (m\<lparr>sm_events := events, sm_cursor := 0, sm_follow := False, sm_streaming := False,
                  sm_remaining := 0, sm_generation := sm_generation m + 1, sm_status := []\<rparr>) }"

definition newScrollingModel :: "int \<Rightarrow> int \<Rightarrow> scrollingModel option" where
  "newScrollingModel width height =
     scrolling_reset \<lparr>sm_width = width, sm_height = height, sm_events = [], sm_cursor = 0, sm_follow = False,
       sm_streaming = False, sm_remaining = 0, sm_generation = 0, sm_status = []\<rparr>"

definition scrolling_appendEvent :: "scrollingModel \<Rightarrow> scrollingModel option" where
  "scrolling_appendEvent m =
     do { row \<leftarrow> eventRow (int (length (sm_events m)) + 1);
          let m1 = m\<lparr>sm_events := sm_events m @ [row]\<rparr>
          in Some (if sm_follow m1 then m1\<lparr>sm_cursor := int (length (sm_events m1)) - 1\<rparr> else m1) }"

definition scrolling_move :: "int \<Rightarrow> scrollingModel \<Rightarrow> scrollingModel" where
  "scrolling_move delta m =
     (let m1 = scrolling_clampCursor (m\<lparr>sm_cursor := sm_cursor m + delta\<rparr>)
      in if sm_cursor m1 \<noteq> int (length (sm_events m1)) - 1 then m1\<lparr>sm_follow := False\<rparr> else m1)"

definition scrolling_tick :: "generation \<Rightarrow> scrollingModel \<Rightarrow> (scrollingModel \<times> tui_cmd) option" where
  "scrolling_tick generation m =
     (if \<not> sm_streaming m \<or> generation \<noteq> sm_generation m then Some (m, NoCmd)
      else do { m1 \<leftarrow> scrolling_appendEvent m;
                let m2 = m1\<lparr>sm_remaining := sm_remaining m1 - 1\<rparr>
                in if sm_remaining m2 = 0
                   then Some (m2\<lparr>sm_streaming := False, sm_status := ''STREAM COMPLETE (5 EVENTS)''\<rparr>, NoCmd)
                   else Some (m2, ScrollTick (sm_generation m2)) })"

text \<open>The result is whether to go back to the menu, the new model and the command.\<close>

definition scrolling_key :: "string \<Rightarrow> scrollingModel \<Rightarrow> (bool \<times> scrollingModel \<times> tui_cmd) option" where
  "scrolling_key key m =
     (if key = ''esc'' \<or> key = ''f2'' then
        Some (True, m\<lparr>sm_streaming := False, sm_generation := sm_generation m + 1\<rparr>, NoCmd)
      else if key = ''up'' then Some (False, scrolling_move (-1) m, NoCmd)
      else if key = ''down'' then Some (False, scrolling_move 1 m, NoCmd)
      else if key = ''pgup'' then Some (False, scrolling_move (- scrolling_pageSize m) m, NoCmd)
      else if key = ''pgdown'' then Some (False, scrolling_move (scrolling_pageSize m) m, NoCmd)
      else if key = ''home'' then Some (False, m\<lparr>sm_cursor := 0, sm_follow := False\<rparr>, NoCmd)
      else if key = ''end'' then Some (False, m\<lparr>sm_cursor := int (length (sm_events m)) - 1\<rparr>, NoCmd)
      else if key = ''f'' \<or> key = ''F'' then
        (let m1 = m\<lparr>sm_follow := \<not> sm_follow m\<rparr>;
             m2 = (if sm_follow m1 then m1\<lparr>sm_cursor := int (length (sm_events m1)) - 1\<rparr> else m1)
         in Some (False, m2\<lparr>sm_status := ''FOLLOW '' @ onOff (sm_follow m2)\<rparr>, NoCmd))
      else if key = ''a'' \<or> key = ''A'' then
        do { m1 \<leftarrow> scrolling_appendEvent m; Some (False, m1\<lparr>sm_status := ''APPENDED 1 EVENT''\<rparr>, NoCmd) }
      else if key = ''r'' \<or> key = ''R'' then
        do { m1 \<leftarrow> scrolling_reset m; Some (False, m1\<lparr>sm_status := ''RESET TO 100 EVENTS''\<rparr>, NoCmd) }
      else if key = ''s'' \<or> key = ''S'' then
        (let m1 = m\<lparr>sm_streaming := True, sm_remaining := 5, sm_generation := sm_generation m + 1,
                    sm_status := ''STREAMING''\<rparr>
         in Some (False, m1, ScrollTick (sm_generation m1)))
      else Some (False, m, NoCmd))"

definition scrolling_resize :: "int \<Rightarrow> int \<Rightarrow> scrollingModel \<Rightarrow> scrollingModel" where
  "scrolling_resize width height m = scrolling_clampCursor (m\<lparr>sm_width := width, sm_height := height\<rparr>)"

primrec scrolling_rows :: "styles \<Rightarrow> scrollingModel \<Rightarrow> int list \<Rightarrow> string list option" where
  "scrolling_rows S m [] = Some []"
| "scrolling_rows S m (i # is) =
     do { row \<leftarrow> get_at (sm_events m) i;
          rows \<leftarrow> scrolling_rows S m is;
          Some ((if i = sm_cursor m then sy_selected S row else row) # rows) }"

definition scrolling_view :: "styles \<Rightarrow> scrollingModel \<Rightarrow> string option" where
  "scrolling_view S m =
     (let n = int (length (sm_events m));
          pageSize = scrolling_pageSize m;
          start0 = max 0 (sm_cursor m - pageSize + 1);
          start = (if start0 > n - pageSize \<and> n - pageSize \<ge> 0 then n - pageSize else start0);
          stop = min n (start + pageSize);
          state = ''Row '' @ itoa (sm_cursor m + 1) @ ''/'' @ itoa n @ ''  Follow: '' @ onOff (sm_follow m) @
                  (if sm_streaming m then ''  STREAMING'' else [])
      in do { rows \<leftarrow> scrolling_rows S m [start..stop - 1];
              Some (sy_MaxWidth S (sm_width m) (join_lines
                ([sy_heading S ''DETERMINISTIC EVENT LOG'',
                  ''EVENT   SOURCE    LEVEL  MESSAGE                         ['' @ itoa n @ '' total]''] @
                 rows @ [state] @
                 (if sm_status m \<noteq> [] then [sy_success S (sm_status m)] else []) @
                 [sy_help S ''Up/Down PgUp/PgDn Home/End Navigate  F Follow  A Append  S Stream  R Reset  Esc/F2 Menu'']))) })"

subsection \<open>Partial screen updates\<close>

datatype partialMode = PartialNone | PrematureReady | IndependentRegions | PartialProgress

record partialModel =
  pm_width :: int
  pm_height :: int
  pm_mode :: partialMode
  pm_step :: int
  pm_running :: bool
  pm_generation :: generation
  pm_ignored :: int
  pm_accepted :: string

definition newPartialModel :: "int \<Rightarrow> int \<Rightarrow> partialModel" where
  "newPartialModel width height = \<lparr>pm_width = width, pm_height = height, pm_mode = PartialNone, pm_step = 0,
     pm_running = False, pm_generation = 0, pm_ignored = 0, pm_accepted = []\<rparr>"

definition lastStep :: "partialModel \<Rightarrow> int" where
  "lastStep m =
     (case pm_mode m of PrematureReady \<Rightarrow> 4 | IndependentRegions \<Rightarrow> 5 | PartialProgress \<Rightarrow> 10 | PartialNone \<Rightarrow> 0)"

definition partial_start :: "partialMode \<Rightarrow> partialModel \<Rightarrow> partialModel \<times> tui_cmd" where
  "partial_start mode m =
     (let m1 = m\<lparr>pm_mode := mode, pm_step := 0, pm_running := True, pm_generation := pm_generation m + 1,
                 pm_ignored := 0, pm_accepted := []\<rparr>
      in (m1, PartialTick (pm_generation m1)))"

definition partial_tick :: "generation \<Rightarrow> partialModel \<Rightarrow> partialModel \<times> tui_cmd" where
  "partial_tick generation m =
     (if \<not> pm_running m \<or> generation \<noteq> pm_generation m then (m, NoCmd)
      else (let m1 = m\<lparr>pm_step := pm_step m + 1\<rparr>
            in if pm_step m1 \<ge> lastStep m1 then (m1\<lparr>pm_running := False\<rparr>, NoCmd)
               else (m1, PartialTick (pm_generation m1))))"

definition partial_key :: "key_press \<Rightarrow> partialModel \<Rightarrow> bool \<times> partialModel \<times> tui_cmd" where
  "partial_key key m =
     (let s = kp_String key
      in if s = ''esc'' \<or> s = ''f2'' then
           (True, m\<lparr>pm_running := False, pm_generation := pm_generation m + 1\<rparr>, NoCmd)
         else if s = ''1'' then (False, partial_start PrematureReady m)
         else if s = ''2'' then (False, partial_start IndependentRegions m)
         else if s = ''3'' then (False, partial_start PartialProgress m)
         else if (s = ''r'' \<or> s = ''R'') \<and> pm_mode m \<noteq> PartialNone then (False, partial_start (pm_mode m) m)
         else if pm_mode m = PrematureReady \<and> kp_Text key \<noteq> [] then
           (if pm_running m \<or> pm_step m < lastStep m then (False, m\<lparr>pm_ignored := pm_ignored m + 1\<rparr>, NoCmd)
            else (False, m\<lparr>pm_accepted := pm_accepted m @ kp_Text key\<rparr>, NoCmd))
         else (False, m, NoCmd))"

definition partial_resize :: "int \<Rightarrow> int \<Rightarrow> partialModel \<Rightarrow> partialModel" where
  "partial_resize width height m = m\<lparr>pm_width := width, pm_height := height\<rparr>"

definition prematureReadyView :: "styles \<Rightarrow> partialModel \<Rightarrow> string list" where
  "prematureReadyView S m =
     (let top = [''PREMATURE READY / INPUT GATING'', []]; n = pm_step m
      in if n = 0 then top @ [''INITIALIZING'']
         else top @ [sy_success S ''READY'', []] @
           (if n \<ge> 2 then [''Order: ORD-10002342''] else []) @
           (if n \<ge> 3 then [''Zone: PICK-FACE-07''] else []) @
           (if n \<ge> 4 then
              [''Inventory: VERIFIED'', [], sy_success S ''SCREEN COMPLETE / INPUT ENABLED'',
               ''Ignored early key events: '' @ itoa (pm_ignored m), ''Accepted input: '' @ pm_accepted m]
            else [''Input remains disabled while the screen is rendering.'']))"

definition independentRegionsView :: "partialModel \<Rightarrow> string list" where
  "independentRegionsView m =
     (let n = pm_step m;
          footer = (if n \<ge> 5 then ''REGIONS COMPLETE'' else if n \<ge> 1 then ''connection active'' else ''waiting'');
          order = (if n \<ge> 5 then ''ORD-10002342 / SHIPPED'' else if n \<ge> 2 then ''ORD-10002342 / PICKING'' else ''pending'');
          header = (if n \<ge> 3 then ''WAVE-17 ACTIVE'' else ''STARTING'');
          counters = (if n \<ge> 5 then ''20 processed / 0 remaining''
                      else if n \<ge> 4 then ''18 processed / 2 remaining'' else ''0 / 0'')
      in [''INDEPENDENT REGIONS'', [], ''Header:   '' @ header, ''Order:    '' @ order,
          ''Counters: '' @ counters, ''Footer:   '' @ footer])"

definition progressView :: "partialModel \<Rightarrow> string list option" where
  "progressView m =
     (let percent = min 100 (pm_step m * 10); filled = go_quo percent 10
      in do { spinner \<leftarrow> get_at [''|'', ''/'', ''-'', [CHR 0x5C]] (go_rem (pm_step m) 4);
              bar \<leftarrow> repeat_string filled ''#'';
              Some [''IN-PLACE PROGRESS'', [], ''Spinner: '' @ spinner,
                    ''Progress: ['' @ pad_right 10 bar @ ''] '' @ pad_left (CHR '' '') 3 (itoa percent) @ ''%'',
                    ''Status: '' @ (if percent = 100 then ''COMPLETE'' else ''RUNNING'')] })"

definition partial_view :: "styles \<Rightarrow> partialModel \<Rightarrow> string option" where
  "partial_view S m =
     do { body \<leftarrow> (case pm_mode m of
              PartialNone \<Rightarrow>
                Some [''1. Premature READY and gated input'', ''2. Independently updating screen regions'',
                      ''3. In-place spinner and progress bar'', [], ''Each scenario uses deterministic timed updates.'']
            | PrematureReady \<Rightarrow> Some (prematureReadyView S m @ [[], ''R Restart this scenario''])
            | IndependentRegions \<Rightarrow> Some (independentRegionsView m @ [[], ''R Restart this scenario''])
            | PartialProgress \<Rightarrow> do { ls \<leftarrow> progressView m; Some (ls @ [[], ''R Restart this scenario'']) });
          Some (sy_MaxWidth S (pm_width m) (join_lines
            ([sy_heading S ''PARTIAL SCREEN UPDATES'', []] @ body @
             [[], sy_help S ''1/2/3 Start scenario  R Restart  Esc/F2 Menu'']))) }"

subsection \<open>Long-running operations\<close>

datatype longRunningMode = LongNone | LongFinite | LongContinuous | LongFailure

record longRunningModel =
  lm_width :: int
  lm_height :: int
  lm_mode :: longRunningMode
  lm_running :: bool
  lm_paused :: bool
  lm_generation :: generation
  lm_heartbeats :: int
  lm_processed :: int
  lm_succeeded :: int
  lm_failed :: int
  lm_remaining :: int
  lm_status :: string
  lm_events :: "string list"

definition newLongRunningModel :: "int \<Rightarrow> int \<Rightarrow> longRunningModel" where
  "newLongRunningModel width height = \<lparr>lm_width = width, lm_height = height, lm_mode = LongNone,
     lm_running = False, lm_paused = False, lm_generation = 0, lm_heartbeats = 0, lm_processed = 0,
     lm_succeeded = 0, lm_failed = 0, lm_remaining = 0, lm_status = [], lm_events = []\<rparr>"

definition long_start :: "longRunningMode \<Rightarrow> longRunningModel \<Rightarrow> longRunningModel \<times> tui_cmd" where
  "long_start mode m =
     (let m1 = m\<lparr>lm_mode := mode, lm_running := True, lm_paused := False, lm_generation := lm_generation m + 1,
                 lm_heartbeats := 0, lm_processed := 0, lm_succeeded := 0, lm_failed := 0, lm_events := [],
                 lm_status := ''OPERATION RUNNING''\<rparr>;
          m2 = (case mode of
                  LongFinite \<Rightarrow> m1\<lparr>lm_remaining := 120\<rparr>
                | LongContinuous \<Rightarrow> m1\<lparr>lm_remaining := - 1\<rparr>
                | LongFailure \<Rightarrow> m1\<lparr>lm_remaining := 100\<rparr>
                | LongNone \<Rightarrow> m1)
      in (m2, LongTick (lm_generation m2)))"

definition long_appendEvent :: "string \<Rightarrow> longRunningModel \<Rightarrow> longRunningModel" where
  "long_appendEvent e m =
     (let es = lm_events m @ [e]
      in m\<lparr>lm_events := (if length es > 8 then drop (length es - 8) es else es)\<rparr>)"

definition long_stop :: "string \<Rightarrow> longRunningModel \<Rightarrow> longRunningModel" where
  "long_stop status m =
     m\<lparr>lm_running := False, lm_paused := False, lm_generation := lm_generation m + 1, lm_status := status\<rparr>"

definition heartbeat :: "longRunningModel \<Rightarrow> string" where
  "heartbeat m = ''Heartbeat '' @ pad_left (CHR ''0'') 3 (itoa (lm_heartbeats m))"

definition long_advance :: "longRunningModel \<Rightarrow> longRunningModel" where
  "long_advance m0 =
     (let m = m0\<lparr>lm_heartbeats := lm_heartbeats m0 + 1\<rparr>
      in case lm_mode m of
           LongFinite \<Rightarrow>
             (let batch = min 3 (lm_remaining m);
                  m1 = m\<lparr>lm_processed := lm_processed m + batch, lm_remaining := lm_remaining m - batch\<rparr>;
                  m2 = m1\<lparr>lm_failed := go_quo (lm_processed m1) 30\<rparr>;
                  m3 = m2\<lparr>lm_succeeded := lm_processed m2 - lm_failed m2\<rparr>;
                  m4 = (if go_rem (lm_heartbeats m3) 4 = 0
                        then long_appendEvent (heartbeat m3 @ '': processed '' @ itoa (lm_processed m3) @ '' of 120'') m3
                        else m3)
              in if lm_remaining m4 = 0 then long_stop ''OPERATION COMPLETE'' m4 else m4)
         | LongContinuous \<Rightarrow>
             (let m1 = m\<lparr>lm_processed := lm_processed m + 1\<rparr>;
                  m2 = m1\<lparr>lm_succeeded := lm_processed m1\<rparr>
              in if go_rem (lm_heartbeats m2) 4 = 0
                 then long_appendEvent (heartbeat m2 @ '': continuous session active'') m2
                 else m2)
         | LongFailure \<Rightarrow>
             (let m1 = m\<lparr>lm_processed := lm_processed m + 10, lm_remaining := lm_remaining m - 10\<rparr>;
                  m2 = m1\<lparr>lm_succeeded := lm_processed m1\<rparr>
              in if lm_processed m2 = 60
                 then long_stop ''OPERATION FAILED / E-WAVE-060''
                        (m2\<lparr>lm_failed := 1, lm_succeeded := lm_processed m2 - 1\<rparr>)
                 else m2)
         | LongNone \<Rightarrow> m)"

definition long_tick :: "generation \<Rightarrow> longRunningModel \<Rightarrow> longRunningModel \<times> tui_cmd" where
  "long_tick generation m =
     (if \<not> lm_running m \<or> lm_paused m \<or> generation \<noteq> lm_generation m then (m, NoCmd)
      else (let m1 = long_advance m
            in if \<not> lm_running m1 then (m1, NoCmd) else (m1, LongTick (lm_generation m1))))"

definition long_key :: "string \<Rightarrow> longRunningModel \<Rightarrow> bool \<times> longRunningModel \<times> tui_cmd" where
  "long_key key m =
     (if key = ''esc'' \<or> key = ''f2'' then (True, long_stop ''OPERATION CANCELED'' m, NoCmd)
      else if key = ''1'' then (False, long_start LongFinite m)
      else if key = ''2'' then (False, long_start LongContinuous m)
      else if key = ''3'' then (False, long_start LongFailure m)
      else if key = ''p'' \<or> key = ''P'' then
        (if lm_running m
         then (let m1 = m\<lparr>lm_paused := \<not> lm_paused m, lm_generation := lm_generation m + 1\<rparr>
               in if lm_paused m1 then (False, m1\<lparr>lm_status := ''OPERATION PAUSED''\<rparr>, NoCmd)
                  else (False, m1\<lparr>lm_status := ''OPERATION RUNNING''\<rparr>, LongTick (lm_generation m1)))
         else (False, m, NoCmd))
      else if key = ''c'' \<or> key = ''C'' then
        (False, if lm_running m then long_stop ''OPERATION CANCELED'' m else m, NoCmd)
      else if key = ''s'' \<or> key = ''S'' then
        (False, if lm_running m \<and> lm_mode m = LongContinuous then long_stop ''SESSION STOPPED'' m else m, NoCmd)
      else if (key = ''r'' \<or> key = ''R'') \<and> lm_mode m \<noteq> LongNone then (False, long_start (lm_mode m) m)
      else (False, m, NoCmd))"

definition long_resize :: "int \<Rightarrow> int \<Rightarrow> longRunningModel \<Rightarrow> longRunningModel" where
  "long_resize width height m = m\<lparr>lm_width := width, lm_height := height\<rparr>"

definition mode_title :: "longRunningMode \<Rightarrow> string" where
  "mode_title mode =
     (case mode of
        LongFinite \<Rightarrow> ''FINITE WAREHOUSE WAVE''
      | LongContinuous \<Rightarrow> ''CONTINUOUS SESSION''
      | LongFailure \<Rightarrow> ''FAILURE SIMULATION''
      | LongNone \<Rightarrow> [])"

definition long_view :: "styles \<Rightarrow> longRunningModel \<Rightarrow> string" where
  "long_view S m =
     (let body = (if lm_mode m = LongNone then
            [''1. Finite warehouse wave (approximately 10 seconds)'', ''2. Continuous bounded session / soak mode'',
             ''3. Deterministic failure at 60%'']
          else
            [mode_title (lm_mode m), [], ''Heartbeats: '' @ itoa (lm_heartbeats m),
             ''Processed: '' @ itoa (lm_processed m), ''Succeeded: '' @ itoa (lm_succeeded m),
             ''Failed: '' @ itoa (lm_failed m),
             ''Remaining: '' @ (if lm_remaining m < 0 then ''unbounded'' else itoa (lm_remaining m)),
             ''Status: '' @ lm_status m, [], ''Recent events (bounded to 8):''] @
            (if lm_events m = [] then [''  none''] else map (\<lambda>e. ''  '' @ e) (lm_events m)))
      in sy_MaxWidth S (lm_width m) (join_lines
           ([sy_heading S ''LONG-RUNNING OPERATION'', []] @ body @
            [[], sy_help S ''1/2/3 Start  P Pause/Resume  C Cancel  S Stop continuous  R Retry  Esc/F2 Menu''])))"

end
