(* ===== verification/Ref_Form.thy ===== *)
theory Ref_Form
  imports Ref_Components
begin

text \<open>
  The receiving form of the reference application (\<open>reference/form.go\<close>): four text inputs, a text area,
  a priority and two buttons under one focus. The four inputs are a list of length 4, the five errors a
  list of length 5; an index out of range is a panic, \<open>None\<close>.
\<close>

record ('i, 'n) formModel =
  fm_width :: int
  fm_height :: int
  fm_inputs :: "'i list"
  fm_notes :: 'n
  fm_focus :: int
  fm_priority :: int
  fm_errors :: "string list"
  fm_result :: string
  fm_submitted :: bool

text \<open>The controls, by the constants of the code.\<close>

definition formNotes :: int where "formNotes = 4"
definition formPriority :: int where "formPriority = 5"
definition formSubmit :: int where "formSubmit = 6"
definition formCancel :: int where "formCancel = 7"
definition formControlCount :: int where "formControlCount = 8"

definition formLabels :: "string list" where
  "formLabels = [''Purchase order'', ''SKU'', ''Quantity'', ''Bin location'']"

definition form_settings :: "input_settings list" where
  "form_settings =
     [\<lparr>is_prompt = [], is_placeholder = ''PO-10002341'', is_limit = 20, is_password = False, is_suggestions = []\<rparr>,
      \<lparr>is_prompt = [], is_placeholder = ''WIDGET-42'', is_limit = 24, is_password = False,
       is_suggestions = [''WIDGET-42'', ''CAST-ROD-8'', ''REEL-2500'', ''LINE-6WT'', ''FLY-ADAMS'', ''PACK-DRY'']\<rparr>,
      \<lparr>is_prompt = [], is_placeholder = ''25'', is_limit = 6, is_password = False, is_suggestions = []\<rparr>,
      \<lparr>is_prompt = [], is_placeholder = ''A-01-02'', is_limit = 12, is_password = False, is_suggestions = []\<rparr>]"

definition form_resize ::
  "'i text_inputs \<Rightarrow> 'n text_areas \<Rightarrow> int \<Rightarrow> int \<Rightarrow> ('i, 'n) formModel \<Rightarrow> ('i, 'n) formModel" where
  "form_resize T N width height m =
     (let w = min 48 (max 10 (width - 18))
      in m\<lparr>fm_width := width, fm_height := height, fm_inputs := map (ti_SetWidth T w) (fm_inputs m),
           fm_notes := ta_SetWidth N w (fm_notes m)\<rparr>)"

definition newFormModel :: "'i text_inputs \<Rightarrow> 'n text_areas \<Rightarrow> int \<Rightarrow> int \<Rightarrow> ('i, 'n) formModel" where
  "newFormModel T N width height =
     (let inputs = map (ti_new T) form_settings;
          focused = inputs[0 := fst (ti_Focus T (inputs ! 0))]
      in form_resize T N width height
           \<lparr>fm_width = width, fm_height = height, fm_inputs = focused,
            fm_notes = ta_new N ''Optional receiving note'' 200 3, fm_focus = 0, fm_priority = 0,
            fm_errors = replicate 5 [], fm_result = [], fm_submitted = False\<rparr>)"

text \<open>A component handles a message; its error and the result of the last submission are cleared.\<close>

definition form_input ::
  "'i text_inputs \<Rightarrow> input_msg \<Rightarrow> ('i, 'n) formModel \<Rightarrow> (('i, 'n) formModel \<times> tui_cmd) option" where
  "form_input T msg m =
     do { x \<leftarrow> get_at (fm_inputs m) (fm_focus m);
          let (x', command) = ti_Update T msg x
          in do { inputs \<leftarrow> set_at (fm_inputs m) (fm_focus m) x';
                  errors \<leftarrow> set_at (fm_errors m) (fm_focus m) [];
                  Some (m\<lparr>fm_inputs := inputs, fm_errors := errors, fm_result := []\<rparr>, command) } }"

definition form_updateNotes ::
  "'n text_areas \<Rightarrow> input_msg \<Rightarrow> ('i, 'n) formModel \<Rightarrow> (('i, 'n) formModel \<times> tui_cmd) option" where
  "form_updateNotes N msg m =
     (let (n', command) = ta_Update N msg (fm_notes m)
      in do { errors \<leftarrow> set_at (fm_errors m) formNotes [];
              Some (m\<lparr>fm_notes := n', fm_errors := errors, fm_result := []\<rparr>, command) })"

definition form_moveFocus ::
  "'i text_inputs \<Rightarrow> 'n text_areas \<Rightarrow> int \<Rightarrow> ('i, 'n) formModel \<Rightarrow> (('i, 'n) formModel \<times> tui_cmd) option" where
  "form_moveFocus T N delta m =
     (let m1 = m\<lparr>fm_inputs := map (ti_Blur T) (fm_inputs m), fm_notes := ta_Blur N (fm_notes m),
                 fm_focus := go_rem (fm_focus m + delta + formControlCount) formControlCount\<rparr>
      in if fm_focus m1 < int (length (fm_inputs m1)) then
           do { x \<leftarrow> get_at (fm_inputs m1) (fm_focus m1);
                let (x', command) = ti_Focus T x
                in do { inputs \<leftarrow> set_at (fm_inputs m1) (fm_focus m1) x';
                        Some (m1\<lparr>fm_inputs := inputs\<rparr>, command) } }
         else if fm_focus m1 = formNotes then
           (let (n', command) = ta_Focus N (fm_notes m1) in Some (m1\<lparr>fm_notes := n'\<rparr>, command))
         else Some (m1, NoCmd))"

definition blank_field :: "'i text_inputs \<Rightarrow> 'i list \<Rightarrow> int \<Rightarrow> bool option" where
  "blank_field T inputs i = do { x \<leftarrow> get_at inputs i; Some (TrimSpace (ti_Value T x) = []) }"

text \<open>The errors after validation; the notes never have one.\<close>

definition form_errors :: "'i text_inputs \<Rightarrow> 'i list \<Rightarrow> string list option" where
  "form_errors T inputs =
     do { po \<leftarrow> blank_field T inputs 0;
          sku \<leftarrow> blank_field T inputs 1;
          q \<leftarrow> get_at inputs 2;
          bin \<leftarrow> blank_field T inputs 3;
          Some [if po then ''purchase order is required'' else [],
                if sku then ''SKU is required'' else [],
                case Atoi (ti_Value T q) of
                  Some n \<Rightarrow> if n \<le> 0 then ''quantity must be a positive number'' else []
                | None \<Rightarrow> ''quantity must be a positive number'',
                if bin then ''bin location is required'' else [],
                []] }"

fun first_invalid :: "int \<Rightarrow> string list \<Rightarrow> int" where
  "first_invalid i [] = - 1"
| "first_invalid i (e # es) = (if e \<noteq> [] then i else first_invalid (i + 1) es)"

definition receipt :: "string list \<Rightarrow> int \<Rightarrow> int \<Rightarrow> string" where
  "receipt values quantity priority =
     ''Receipt submitted: '' @ values ! 0 @ '' / '' @ values ! 1 @ '' / quantity '' @ itoa quantity @ '' / '' @
     values ! 3 @ '' / '' @ (if priority = 1 then ''Urgent'' else ''Normal'')"

definition form_submit ::
  "'i text_inputs \<Rightarrow> 'n text_areas \<Rightarrow> ('i, 'n) formModel \<Rightarrow> ('i, 'n) formModel option" where
  "form_submit T N m =
     do { errors \<leftarrow> form_errors T (fm_inputs m);
          let m1 = m\<lparr>fm_errors := errors\<rparr>; firstInvalid = first_invalid 0 errors
          in if firstInvalid \<ge> 0 then
               (let blurred = map (ti_Blur T) (fm_inputs m1)
                in do { x \<leftarrow> get_at blurred firstInvalid;
                        inputs \<leftarrow> set_at blurred firstInvalid (fst (ti_Focus T x));
                        Some (m1\<lparr>fm_result := ''Correct the highlighted fields'', fm_focus := firstInvalid,
                                 fm_inputs := inputs, fm_notes := ta_Blur N (fm_notes m1)\<rparr>) })
             else do { q \<leftarrow> get_at (fm_inputs m1) 2;
                       quantity \<leftarrow> Atoi (ti_Value T q);
                       Some (m1\<lparr>fm_submitted := True,
                                fm_result := receipt (map (ti_Value T) (fm_inputs m1)) quantity (fm_priority m1)\<rparr>) } }"

text \<open>The result of a key is whether to go back to the menu, the new model and the command.\<close>

definition stay :: "('m \<times> tui_cmd) option \<Rightarrow> (bool \<times> 'm \<times> tui_cmd) option" where
  "stay r = map_option (Pair False) r"

definition form_rest ::
  "'i text_inputs \<Rightarrow> 'n text_areas \<Rightarrow> key_press \<Rightarrow> ('i, 'n) formModel \<Rightarrow>
     (bool \<times> ('i, 'n) formModel \<times> tui_cmd) option" where
  "form_rest T N key m =
     (if fm_focus m < int (length (fm_inputs m)) then stay (form_input T (KeyInput key) m)
      else if fm_focus m = formNotes then stay (form_updateNotes N (KeyInput key) m)
      else Some (False, m, NoCmd))"

definition form_key ::
  "'i text_inputs \<Rightarrow> 'n text_areas \<Rightarrow> key_press \<Rightarrow> ('i, 'n) formModel \<Rightarrow>
     (bool \<times> ('i, 'n) formModel \<times> tui_cmd) option" where
  "form_key T N key m =
     (let s = kp_String key
      in if fm_submitted m then
           (if s \<in> {''enter'', ''esc'', ''f2''} then Some (True, m, NoCmd)
            else if s = ''r'' then Some (False, newFormModel T N (fm_width m) (fm_height m), Blink)
            else Some (False, m, NoCmd))
         else if s = ''esc'' \<or> s = ''f2'' then Some (True, m, NoCmd)
         else if s = ''tab'' then stay (form_moveFocus T N 1 m)
         else if s = ''shift+tab'' then stay (form_moveFocus T N (- 1) m)
         else if s = ''down'' then
           (if fm_focus m = formNotes then stay (form_updateNotes N (KeyInput key) m)
            else stay (form_moveFocus T N 1 m))
         else if s = ''up'' then
           (if fm_focus m = formNotes then stay (form_updateNotes N (KeyInput key) m)
            else stay (form_moveFocus T N (- 1) m))
         else if s = ''enter'' then
           (if fm_focus m = formNotes then stay (form_updateNotes N (KeyInput key) m)
            else if fm_focus m = formSubmit then do { m' \<leftarrow> form_submit T N m; Some (False, m', NoCmd) }
            else if fm_focus m = formCancel then Some (True, m, NoCmd)
            else stay (form_moveFocus T N 1 m))
         else if s \<in> {''left'', ''right'', '' ''} \<and> fm_focus m = formPriority then
           Some (False, m\<lparr>fm_priority := 1 - fm_priority m\<rparr>, NoCmd)
         else form_rest T N key m)"

definition form_paste ::
  "'i text_inputs \<Rightarrow> 'n text_areas \<Rightarrow> string \<Rightarrow> ('i, 'n) formModel \<Rightarrow> (('i, 'n) formModel \<times> tui_cmd) option" where
  "form_paste T N content m =
     (if fm_submitted m then Some (m, NoCmd)
      else if fm_focus m < int (length (fm_inputs m)) then form_input T (PasteInput content) m
      else if fm_focus m = formNotes then form_updateNotes N (PasteInput content) m
      else Some (m, NoCmd))"

primrec form_input_lines ::
  "'i text_inputs \<Rightarrow> styles \<Rightarrow> ('i, 'n) formModel \<Rightarrow> nat \<Rightarrow> 'i list \<Rightarrow> string list option" where
  "form_input_lines T S m i [] = Some []"
| "form_input_lines T S m i (x # xs) =
     do { label \<leftarrow> get_at formLabels (int i);
          e \<leftarrow> get_at (fm_errors m) (int i);
          ls \<leftarrow> form_input_lines T S m (Suc i) xs;
          Some (((if fm_focus m = int i then ''> '' else ''  '') @ pad_right 15 (label @ '':'') @ '' '' @ ti_View T x) #
                (if e \<noteq> [] then [''  '' @ sy_error S e] else []) @ ls) }"

definition form_view :: "'i text_inputs \<Rightarrow> 'n text_areas \<Rightarrow> styles \<Rightarrow> ('i, 'n) formModel \<Rightarrow> string option" where
  "form_view T N S m =
     (if fm_submitted m then
        Some (join_lines [sy_heading S ''RECEIVING FORM'', [], sy_success S ''RECEIPT ACCEPTED'', [], fm_result m, [],
                sy_help S ''Enter/Esc Return to menu    R Enter another receipt''])
      else
        do { ls \<leftarrow> form_input_lines T S m 0 (fm_inputs m);
             priority \<leftarrow> get_at [''[x] Normal  [ ] Urgent'', ''[ ] Normal  [x] Urgent''] (fm_priority m);
             let buttons = (if fm_focus m = formSubmit then sy_selected S ''[ Submit ]'' @ ''    [ Cancel ]''
                            else if fm_focus m = formCancel then ''[ Submit ]    '' @ sy_selected S ''[ Cancel ]''
                            else ''[ Submit ]    [ Cancel ]'')
             in Some (sy_MaxWidth S (fm_width m) (join_lines
                  ([sy_heading S ''RECEIVING FORM'', []] @ ls @
                   [(if fm_focus m = formNotes then ''> '' else ''  '') @ ''Notes:'', ta_View N (fm_notes m),
                    controlLine (fm_focus m = formPriority) (''Priority:      '' @ priority), [], buttons] @
                   (if fm_result m \<noteq> [] then [[], sy_error S (fm_result m)] else []) @
                   [[], sy_help S ''Tab/Shift-Tab Move  Ctrl-N/P/Y SKU suggestions  Enter Select  Esc/F2 Menu'']))) })"

end
