(* ===== verification/Ref_Table.thy ===== *)
theory Ref_Table
  imports Ref_Components "HOL-Library.List_Lexorder" "HOL-Library.Char_ord" "HOL-Library.Product_Lexorder"
begin

text \<open>
  The order table of the reference application (\<open>reference/table.go\<close>): thirty fixed orders shown in a
  table component with a filter, three sort orders, a detail view and one of three column layouts.
  \<open>sort.SliceStable\<close> by a lexicographic comparison is \<open>sort_key\<close>, which is stable; strings compare
  bytewise. \<open>lower\<close> is \<open>strings.ToLower\<close>, whose case tables are not modelled.
\<close>

record orderRecord =
  od_order :: string
  od_customer :: string
  od_status :: string
  od_quantity :: int
  od_location :: string
  od_item :: string

record ('i, 't) tableModel =
  tm_twidth :: int
  tm_theight :: int
  tm_table :: 't
  tm_records :: "orderRecord list"
  tm_filter :: 'i
  tm_filtering :: bool
  tm_detail :: bool
  tm_sortField :: int
  tm_columns :: int

definition two_digits :: "int \<Rightarrow> string" where
  "two_digits n = pad_left (CHR ''0'') 2 (itoa n)"

definition reference_order :: "nat \<Rightarrow> orderRecord" where
  "reference_order i =
     \<lparr>od_order = ''ORD-'' @ pad_left (CHR ''0'') 8 (itoa (10002341 + int i)),
      od_customer = [''ACME'', ''Acme Corp'', ''Widget Inc'', ''Northwind'', ''Contoso'', ''Adventure Works''] ! (i mod 6),
      od_status = [''ALLOCATED'', ''PICKING'', ''SHIPPED'', ''HOLD''] ! (i mod 4),
      od_quantity = 6 + int ((i * 17) mod 94),
      od_location = [char_of (65 + i mod 4)] @ ''-'' @ two_digits (1 + int ((i div 4) mod 8)) @ ''-'' @
                    two_digits (1 + int (i mod 12)),
      od_item = [''WIDGET-42'', ''CAST-ROD-8'', ''REEL-2500'', ''LINE-6WT'', ''FLY-ADAMS'', ''PACK-DRY''] ! (i mod 6)\<rparr>"

definition referenceOrders :: "orderRecord list" where
  "referenceOrders = map reference_order [0..<30]"

definition sorted_records :: "int \<Rightarrow> orderRecord list \<Rightarrow> orderRecord list" where
  "sorted_records field rs =
     (if field = 1 then sort_key (\<lambda>r. (od_status r, od_order r)) rs
      else if field = 2 then sort_key (\<lambda>r. (od_quantity r, od_order r)) rs
      else sort_key od_order rs)"

definition searchable :: "(string \<Rightarrow> string) \<Rightarrow> orderRecord \<Rightarrow> string" where
  "searchable lower r =
     lower (od_order r @ '' '' @ od_customer r @ '' '' @ od_status r @ '' '' @ od_location r @ '' '' @ od_item r)"

definition matches_query :: "(string \<Rightarrow> string) \<Rightarrow> string \<Rightarrow> orderRecord \<Rightarrow> bool" where
  "matches_query lower query r \<longleftrightarrow> query = [] \<or> Contains (searchable lower r) query"

definition table_row :: "int \<Rightarrow> orderRecord \<Rightarrow> string list" where
  "table_row columns r =
     (if columns = 5 then [od_order r, od_customer r, od_status r, itoa (od_quantity r), od_location r]
      else if columns = 4 then [od_order r, od_status r, itoa (od_quantity r), od_location r]
      else [od_order r, od_status r, itoa (od_quantity r)])"

definition shown_records :: "(string \<Rightarrow> string) \<Rightarrow> string \<Rightarrow> int \<Rightarrow> orderRecord list \<Rightarrow> orderRecord list" where
  "shown_records lower filter_text field rs =
     filter (matches_query lower (lower (TrimSpace filter_text))) (sorted_records field rs)"

definition applyRows ::
  "'i text_inputs \<Rightarrow> 't tables \<Rightarrow> (string \<Rightarrow> string) \<Rightarrow> ('i, 't) tableModel \<Rightarrow> ('i, 't) tableModel" where
  "applyRows T B lower m =
     (let rows = map (table_row (tm_columns m))
                   (shown_records lower (ti_Value T (tm_filter m)) (tm_sortField m) (tm_records m));
          t1 = tb_SetRows B rows (tm_table m);
          n = int (length rows);
          t2 = (if n > 0 \<and> tb_Cursor B t1 < 0 then tb_SetCursor B 0 t1
                else if tb_Cursor B t1 \<ge> n then tb_SetCursor B (max 0 (n - 1)) t1
                else t1)
      in m\<lparr>tm_table := t2\<rparr>)"

text \<open>The loop that restores the selected order: every row is indexed until the order is found.\<close>

fun find_row :: "string \<Rightarrow> int \<Rightarrow> string list list \<Rightarrow> int option option" where
  "find_row order i [] = Some None"
| "find_row order i (r # rs) =
     do { x \<leftarrow> get_at r 0; if x = order then Some (Some i) else find_row order (i + 1) rs }"

definition columns_for :: "int \<Rightarrow> int \<times> (string \<times> int) list" where
  "columns_for width =
     (if width \<ge> 76 then
        (5, [(''Order'', 13), (''Customer'', 18), (''Status'', 11), (''Qty'', 6), (''Location'', 10)])
      else if width \<ge> 52 then (4, [(''Order'', 13), (''Status'', 11), (''Qty'', 6), (''Location'', 10)])
      else (3, [(''Order'', max 10 (width - 24)), (''Status'', 10), (''Qty'', 5)]))"

definition table_resize ::
  "'i text_inputs \<Rightarrow> 't tables \<Rightarrow> (string \<Rightarrow> string) \<Rightarrow> int \<Rightarrow> int \<Rightarrow> ('i, 't) tableModel \<Rightarrow> ('i, 't) tableModel option" where
  "table_resize T B lower width height m =
     (let m1 = m\<lparr>tm_twidth := width, tm_theight := height,
                 tm_filter := ti_SetWidth T (max 10 (min 40 (width - 8))) (tm_filter m)\<rparr>;
          selectedOrder = (case tb_SelectedRow B (tm_table m1) of [] \<Rightarrow> [] | x # _ \<Rightarrow> x);
          (n, columns) = columns_for width;
          t1 = tb_SetHeight B (max 4 (height - 9))
                 (tb_SetWidth B width (tb_SetColumns B columns (tb_SetRows B [] (tm_table m1))));
          m2 = applyRows T B lower (m1\<lparr>tm_table := t1, tm_columns := n\<rparr>)
      in do { found \<leftarrow> find_row selectedOrder 0 (tb_Rows B (tm_table m2));
              Some (case found of
                      Some i \<Rightarrow> m2\<lparr>tm_table := tb_SetCursor B i (tm_table m2)\<rparr>
                    | None \<Rightarrow> m2) })"

definition newTableModel ::
  "'i text_inputs \<Rightarrow> 't tables \<Rightarrow> (string \<Rightarrow> string) \<Rightarrow> int \<Rightarrow> int \<Rightarrow> ('i, 't) tableModel option" where
  "newTableModel T B lower width height =
     table_resize T B lower width height
       \<lparr>tm_twidth = width, tm_theight = height, tm_table = tb_new B, tm_records = referenceOrders,
        tm_filter = ti_new T \<lparr>is_prompt = ''Filter: '', is_placeholder = ''order, customer, status, or location'',
                              is_limit = 30, is_password = False, is_suggestions = []\<rparr>,
        tm_filtering = False, tm_detail = False, tm_sortField = 0, tm_columns = 0\<rparr>"

text \<open>The boolean is whether to go back to the menu.\<close>

definition table_key ::
  "'i text_inputs \<Rightarrow> 't tables \<Rightarrow> (string \<Rightarrow> string) \<Rightarrow> key_press \<Rightarrow> ('i, 't) tableModel \<Rightarrow> bool \<times> ('i, 't) tableModel" where
  "table_key T B lower key m =
     (let s = kp_String key
      in if tm_detail m then
           (False, if s \<in> {''enter'', ''esc'', ''f2''} then m\<lparr>tm_detail := False\<rparr> else m)
         else if tm_filtering m then
           (if s = ''enter'' then (False, m\<lparr>tm_filtering := False, tm_filter := ti_Blur T (tm_filter m)\<rparr>)
            else if s = ''esc'' then
              (False, applyRows T B lower
                 (m\<lparr>tm_filtering := False, tm_filter := ti_Blur T (ti_SetValue T [] (tm_filter m))\<rparr>))
            else (False, applyRows T B lower (m\<lparr>tm_filter := fst (ti_Update T (KeyInput key) (tm_filter m))\<rparr>)))
         else if s = ''esc'' \<or> s = ''f2'' then (True, m)
         else if s = ''enter'' then
           (False, if tb_SelectedRow B (tm_table m) \<noteq> [] then m\<lparr>tm_detail := True\<rparr> else m)
         else if s = ''/'' then
           (False, m\<lparr>tm_filtering := True, tm_filter := fst (ti_Focus T (tm_filter m))\<rparr>)
         else if s = ''s'' \<or> s = ''S'' then
           (False, applyRows T B lower (m\<lparr>tm_sortField := go_rem (tm_sortField m + 1) 3\<rparr>))
         else (False, m\<lparr>tm_table := tb_Update B key (tm_table m)\<rparr>))"

definition table_paste ::
  "'i text_inputs \<Rightarrow> 't tables \<Rightarrow> (string \<Rightarrow> string) \<Rightarrow> string \<Rightarrow> ('i, 't) tableModel \<Rightarrow> ('i, 't) tableModel \<times> tui_cmd" where
  "table_paste T B lower content m =
     (if \<not> tm_filtering m \<or> tm_detail m then (m, NoCmd)
      else (let (f, command) = ti_Update T (PasteInput content) (tm_filter m)
            in (applyRows T B lower (m\<lparr>tm_filter := f\<rparr>), command)))"

definition selectedRecord :: "'t tables \<Rightarrow> ('i, 't) tableModel \<Rightarrow> orderRecord option" where
  "selectedRecord B m =
     (case tb_SelectedRow B (tm_table m) of
        [] \<Rightarrow> None
      | x # _ \<Rightarrow> find (\<lambda>r. od_order r = x) (tm_records m))"

definition table_view :: "'i text_inputs \<Rightarrow> 't tables \<Rightarrow> styles \<Rightarrow> ('i, 't) tableModel \<Rightarrow> string option" where
  "table_view T B S m =
     (if tm_detail m then
        (case selectedRecord B m of
           None \<Rightarrow>
             Some (sy_heading S ''ORDER DETAILS'' @ newline @ newline @ ''No order selected'' @ newline @ newline @
                   sy_help S ''Esc Return'')
         | Some r \<Rightarrow>
             Some (join_lines
               [sy_heading S ''ORDER DETAILS'', [], ''Order:     '' @ od_order r, ''Customer:  '' @ od_customer r,
                ''Status:    '' @ od_status r, ''Quantity:  '' @ itoa (od_quantity r),
                ''Location:  '' @ od_location r, ''Item:      '' @ od_item r, [],
                sy_help S ''Enter/Esc/F2 Return to table'']))
      else
        do { sortName \<leftarrow> get_at [''Order'', ''Status'', ''Quantity''] (tm_sortField m);
             Some (sy_MaxWidth S (tm_twidth m) (join_lines
               ([sy_heading S ''WAREHOUSE ORDERS'', ''Sort: '' @ sortName] @
                (if tm_filtering m \<or> ti_Value T (tm_filter m) \<noteq> [] then [ti_View T (tm_filter m)] else []) @
                [tb_View B (tm_table m)] @
                (if tb_Rows B (tm_table m) = [] then [sy_error S ''No matching orders''] else []) @
                [sy_help S ''Arrows/PgUp/PgDn/Home/End Navigate  Enter Details  / Filter  S Sort  Esc/F2 Menu'']))) })"

end
