(* ===== verification/Ref_Pages.thy ===== *)
theory Ref_Pages
  imports Ref_Components
begin

text \<open>
  The diagnostic pages of the reference application: cursor movement, function keys, bell and answerback,
  resizing, colours and Unicode (\<open>reference/cursor.go\<close>, \<open>keys.go\<close>, \<open>bell_enq.go\<close>, \<open>resize.go\<close>, \<open>colors.go\<close>,
  \<open>unicode.go\<close>), and what becomes of the result of VTTEST (\<open>vttest.go\<close>). \<open>Q\<close> is \<open>strconv.Quote\<close>, which needs
  the Unicode tables.
\<close>

subsection \<open>Cursor movement\<close>

record cursorModel =
  cm_width :: int
  cm_height :: int
  cm_column :: int
  cm_row :: int
  cm_visible :: bool
  cm_saved :: bool
  cm_savedX :: int
  cm_savedY :: int

definition cursor_clamp :: "cursorModel \<Rightarrow> cursorModel" where
  "cursor_clamp m =
     m\<lparr>cm_column := min (max 0 (cm_column m)) (max 0 (cm_width m - 1)),
       cm_row := min (max 0 (cm_row m)) (max 0 (cm_height m - 1))\<rparr>"

definition cursor_center :: "cursorModel \<Rightarrow> cursorModel" where
  "cursor_center m = m\<lparr>cm_column := go_quo (cm_width m - 1) 2, cm_row := go_quo (cm_height m - 1) 2\<rparr>"

definition cursor_move :: "int \<Rightarrow> int \<Rightarrow> cursorModel \<Rightarrow> cursorModel" where
  "cursor_move dx dy m = cursor_clamp (m\<lparr>cm_column := cm_column m + dx, cm_row := cm_row m + dy\<rparr>)"

definition cursor_resize :: "int \<Rightarrow> int \<Rightarrow> cursorModel \<Rightarrow> cursorModel" where
  "cursor_resize width height m =
     (let m1 = cursor_clamp (m\<lparr>cm_width := max 1 width, cm_height := max 1 height\<rparr>)
      in if cm_saved m1
         then m1\<lparr>cm_savedX := min (max 0 (cm_savedX m1)) (cm_width m1 - 1),
                 cm_savedY := min (max 0 (cm_savedY m1)) (cm_height m1 - 1)\<rparr>
         else m1)"

definition newCursorModel :: "int \<Rightarrow> int \<Rightarrow> cursorModel" where
  "newCursorModel width height =
     cursor_center (cursor_resize width height
       \<lparr>cm_width = 0, cm_height = 0, cm_column = 0, cm_row = 0, cm_visible = True, cm_saved = False,
        cm_savedX = 0, cm_savedY = 0\<rparr>)"

definition cursor_key :: "key_codes \<Rightarrow> key_press \<Rightarrow> cursorModel \<Rightarrow> bool \<times> cursorModel" where
  "cursor_key K key m =
     (let c = kp_Code key
      in if c = kc_Esc K then (True, m)
         else (False, cursor_clamp
           (if c = kc_Left K then m\<lparr>cm_column := cm_column m - 1\<rparr>
            else if c = kc_Right K then m\<lparr>cm_column := cm_column m + 1\<rparr>
            else if c = kc_Up K then m\<lparr>cm_row := cm_row m - 1\<rparr>
            else if c = kc_Down K then m\<lparr>cm_row := cm_row m + 1\<rparr>
            else if c = kc_Home K then cursor_center m
            else if c = kc_F1 K then m\<lparr>cm_savedX := cm_column m, cm_savedY := cm_row m, cm_saved := True\<rparr>
            else if c = kc_F2 K then
              (if cm_saved m then m\<lparr>cm_column := cm_savedX m, cm_row := cm_savedY m\<rparr> else m)
            else if c = kc_F3 K then m\<lparr>cm_visible := \<not> cm_visible m\<rparr>
            else if c = kc_F4 K then cursor_move (- 1) 0 (cursor_move 0 1 (cursor_move 0 1 (cursor_move 1 0 m)))
            else m)))"

text \<open>The middle dot of the grid, in UTF-8; a line is a list of its cells.\<close>

definition grid_line :: "cursorModel \<Rightarrow> int \<Rightarrow> int \<Rightarrow> int \<Rightarrow> string option" where
  "grid_line m left width y =
     do { dots \<leftarrow> make_slice width [CHR 0xC2, CHR 0xB7];
          line \<leftarrow> (if cm_visible m \<and> y = cm_row m then set_at dots (cm_column m - left) ''X'' else Some dots);
          Some (pad_left (CHR '' '') 3 (itoa y) @ '' '' @ concat line) }"

primrec grid_lines :: "cursorModel \<Rightarrow> int \<Rightarrow> int \<Rightarrow> int list \<Rightarrow> string list option" where
  "grid_lines m left width [] = Some []"
| "grid_lines m left width (y # ys) =
     do { l \<leftarrow> grid_line m left width y; ls \<leftarrow> grid_lines m left width ys; Some (l # ls) }"

definition cursor_view :: "styles \<Rightarrow> cursorModel \<Rightarrow> string option" where
  "cursor_view S m =
     (let gridWidth = min (cm_width m) 40; gridHeight = min (cm_height m) 8;
          left = min (max 0 (cm_column m - go_quo gridWidth 2)) (cm_width m - gridWidth);
          top = min (max 0 (cm_row m - go_quo gridHeight 2)) (cm_height m - gridHeight)
      in do { rows \<leftarrow> grid_lines m left gridWidth [top..top + gridHeight - 1];
              Some (join_lines
                ([sy_heading S ''CURSOR MOVEMENT'', [],
                  ''Expected terminal cursor: column='' @ itoa (cm_column m) @ '' row='' @ itoa (cm_row m) @
                    '' visible='' @ (if cm_visible m then ''true'' else ''false''),
                  ''Coordinates are zero-based and match session.screen.cursor.'',
                  ''Grid viewport: columns '' @ itoa left @ ''-'' @ itoa (left + gridWidth - 1) @ '', rows '' @
                    itoa top @ ''-'' @ itoa (top + gridHeight - 1)] @ rows @
                 [[], sy_help S ''Arrows Move  Home Center  F1 Save  F2 Restore  F3 Show/Hide  F4 Script  Esc Return''])) })"

subsection \<open>Function keys\<close>

definition keyHistoryLimit :: nat where
  "keyHistoryLimit = 8"

record keyModel =
  km_width :: int
  km_height :: int
  km_last :: key_press
  km_hasLast :: bool
  km_paste :: string
  km_count :: int
  km_history :: "string list"

definition no_key :: key_press where
  "no_key = \<lparr>kp_String = [], kp_Keystroke = [], kp_Text = [], kp_Code = 0, kp_Mod = 0, kp_IsRepeat = False\<rparr>"

definition newKeyModel :: "int \<Rightarrow> int \<Rightarrow> keyModel" where
  "newKeyModel width height =
     \<lparr>km_width = max 1 width, km_height = max 1 height, km_last = no_key, km_hasLast = False, km_paste = [],
      km_count = 0, km_history = []\<rparr>"

definition describeKey :: "key_codes \<Rightarrow> key_press \<Rightarrow> string" where
  "describeKey K key =
     (let name = kp_String key;
          name1 = (if kp_Code key \<ge> kc_F13 K \<and> kp_Code key \<le> kc_F24 K
                   then ''f'' @ itoa (kp_Code key - kc_F1 K + 1) @ '' (legacy shift+f'' @
                        itoa (kp_Code key - kc_F13 K + 1) @ '' convention)''
                   else if name = [] then ''unknown key code '' @ itoa (kp_Code key) else name)
      in name1 @ (if kp_IsRepeat key then '' [repeat]'' else []))"

definition push_history :: "string \<Rightarrow> keyModel \<Rightarrow> keyModel" where
  "push_history entry m =
     (let h = km_history m @ [entry]
      in m\<lparr>km_history := (if length h > keyHistoryLimit then drop (length h - keyHistoryLimit) h else h)\<rparr>)"

definition keys_key :: "key_codes \<Rightarrow> key_press \<Rightarrow> keyModel \<Rightarrow> bool \<times> keyModel" where
  "keys_key K key m =
     (if kp_Code key = kc_Esc K \<and> kp_Mod key = 0 then (True, m)
      else (False, push_history (describeKey K key)
                     (m\<lparr>km_last := key, km_hasLast := True, km_count := km_count m + 1\<rparr>)))"

definition keys_paste :: "(string \<Rightarrow> string) \<Rightarrow> string \<Rightarrow> keyModel \<Rightarrow> keyModel" where
  "keys_paste Q content m =
     push_history (''paste '' @ Q content)
       (m\<lparr>km_hasLast := False, km_paste := content, km_count := km_count m + 1\<rparr>)"

definition keys_resize :: "int \<Rightarrow> int \<Rightarrow> keyModel \<Rightarrow> keyModel" where
  "keys_resize width height m = m\<lparr>km_width := max 1 width, km_height := max 1 height\<rparr>"

definition has_modifier :: "int \<Rightarrow> key_press \<Rightarrow> bool" where
  "has_modifier flag key \<longleftrightarrow> and (kp_Mod key) flag \<noteq> 0"

definition keyModifiers :: "key_codes \<Rightarrow> key_press \<Rightarrow> string" where
  "keyModifiers K key =
     (let names = (if has_modifier (kc_ModCtrl K) key then [''control''] else []) @
                  (if has_modifier (kc_ModAlt K) key then [''alt''] else []) @
                  (if has_modifier (kc_ModShift K) key \<or>
                      (kp_Code key \<ge> kc_F13 K \<and> kp_Code key \<le> kc_F24 K) then [''shift''] else []) @
                  (if has_modifier (kc_ModMeta K) key then [''meta''] else [])
      in if names = [] then ''none'' else join_with '', '' names)"

fun numbered_lines :: "int \<Rightarrow> string list \<Rightarrow> string list" where
  "numbered_lines n [] = []"
| "numbered_lines n (e # es) = (''  '' @ itoa n @ ''. '' @ e) # numbered_lines (n + 1) es"

definition keys_view :: "key_codes \<Rightarrow> (string \<Rightarrow> string) \<Rightarrow> styles \<Rightarrow> keyModel \<Rightarrow> string" where
  "keys_view K Q S m =
     join_lines
       ([sy_heading S ''FUNCTION KEYS'', [], ''Captured count: '' @ itoa (km_count m)] @
        (if km_hasLast m then
           [''Last: '' @ describeKey K (km_last m),
            ''Code: '' @ itoa (kp_Code (km_last m)) @ '' ('' @ kp_Keystroke (km_last m) @ '')'',
            ''Text: '' @ Q (kp_Text (km_last m)), ''Modifiers: '' @ keyModifiers K (km_last m)]
         else if km_paste m \<noteq> [] then [''Last: paste '' @ Q (km_paste m), ''Modifiers: none'']
         else [''Last: none'', ''Modifiers: none'']) @
        [[], ''Exercise F1-F12 and Shift/Control/Alt/Meta combinations.'',
         ''Legacy Shift-F1..F12 may arrive as F13..F24.'', [], ''Recent (oldest to newest):''] @
        (if km_history m = [] then [''  none'']
         else numbered_lines (km_count m - int (length (km_history m)) + 1) (km_history m)) @
        [[], sy_help S ''Press keys to inspect them (including Ctrl-C)  Esc Return''])"

subsection \<open>Bell and answerback\<close>

record bellENQModel =
  be_width :: int
  be_height :: int
  be_bellCount :: int
  be_enqCount :: int
  be_answerback :: string
  be_waiting :: bool
  be_events :: "string list"

definition newBellENQModel :: "int \<Rightarrow> int \<Rightarrow> bellENQModel" where
  "newBellENQModel width height = \<lparr>be_width = width, be_height = height, be_bellCount = 0, be_enqCount = 0,
     be_answerback = [], be_waiting = False, be_events = []\<rparr>"

definition be_log :: "string \<Rightarrow> bellENQModel \<Rightarrow> bellENQModel" where
  "be_log s m = m\<lparr>be_events := be_events m @ [itoa (int (length (be_events m)) + 1) @ ''. '' @ s]\<rparr>"

definition bell_key :: "(string \<Rightarrow> string) \<Rightarrow> key_press \<Rightarrow> bellENQModel \<Rightarrow> bool \<times> bellENQModel \<times> tui_cmd" where
  "bell_key Q key m =
     (let s = kp_String key
      in if be_waiting m \<and> kp_Text key \<noteq> [] \<and> \<not> kp_IsRepeat key then
           (False, be_log (''Answerback received: '' @ Q (kp_Text key))
              (m\<lparr>be_answerback := be_answerback m @ kp_Text key\<rparr>), NoCmd)
         else if s = ''esc'' \<or> s = ''f2'' then (True, m, NoCmd)
         else if s = ''b'' \<or> s = ''B'' then
           (if be_bellCount m = 0
            then (False, be_log ''BEL emitted'' (m\<lparr>be_bellCount := 1\<rparr>), RawCmd [CHR 0x07])
            else (False, m, NoCmd))
         else if s = ''e'' \<or> s = ''E'' then
           (if be_bellCount m = 1 \<and> be_enqCount m = 0
            then (False, be_log ''ENQ emitted'' (m\<lparr>be_enqCount := 1, be_waiting := True\<rparr>), RawCmd [CHR 0x05])
            else (False, m, NoCmd))
         else (False, m, NoCmd))"

definition bell_resize :: "int \<Rightarrow> int \<Rightarrow> bellENQModel \<Rightarrow> bellENQModel" where
  "bell_resize width height m = m\<lparr>be_width := width, be_height := height\<rparr>"

definition bell_view :: "(string \<Rightarrow> string) \<Rightarrow> styles \<Rightarrow> bellENQModel \<Rightarrow> string" where
  "bell_view Q S m =
     (let status = (if be_answerback m \<noteq> [] then ''ANSWERBACK RECEIVED''
                    else if be_waiting m then ''WAITING FOR ANSWERBACK'' else ''NOT REQUESTED'')
      in join_lines
        ([sy_heading S ''BELL / ENQ ANSWERBACK'', [], ''BEL emitted: '' @ itoa (be_bellCount m) @ '' / 1'',
          ''ENQ emitted: '' @ itoa (be_enqCount m) @ '' / 1'', ''Status: '' @ status,
          ''Answerback: '' @ (if be_answerback m \<noteq> [] then Q (be_answerback m) else ''none''), [], ''Event order:''] @
         (if be_events m = [] then [''  none''] else be_events m) @
         [[], sy_help S ''B Emit BEL once  E Emit ENQ once (after BEL)  Esc/F2 Menu'']))"

end
