(* ===== verification/Ref_Demos.thy ===== *)
theory Ref_Demos
  imports Ref_Components
begin

text \<open>
  The pages of the reference application that show the terminal's size, colours and Unicode
  (\<open>reference/resize.go\<close>, \<open>colors.go\<close>, \<open>unicode.go\<close>), and the error values of VTTEST (\<open>vttest.go\<close>).
\<close>

subsection \<open>Terminal resize\<close>

definition resizeOrders :: "string list" where
  "resizeOrders = [''ORD-10002341'', ''ORD-10002342'', ''ORD-10002343'']"

record 'i resizeModel =
  rm_width :: int
  rm_height :: int
  rm_targetWidth :: int
  rm_targetHeight :: int
  rm_resizeCount :: int
  rm_selected :: int
  rm_input :: 'i

definition resize_setInputWidth :: "'i text_inputs \<Rightarrow> 'i resizeModel \<Rightarrow> 'i resizeModel" where
  "resize_setInputWidth T m = m\<lparr>rm_input := ti_SetWidth T (min 32 (max 8 (rm_width m - 18))) (rm_input m)\<rparr>"

definition newResizeModel :: "'i text_inputs \<Rightarrow> int \<Rightarrow> int \<Rightarrow> 'i resizeModel" where
  "newResizeModel T width height =
     (let input = ti_new T \<lparr>is_prompt = ''Retained input: '', is_placeholder = ''type before resizing'', is_limit = 32,
                            is_password = False, is_suggestions = []\<rparr>
      in resize_setInputWidth T
           \<lparr>rm_width = width, rm_height = height, rm_targetWidth = 80, rm_targetHeight = 24, rm_resizeCount = 0,
            rm_selected = 0, rm_input = fst (ti_Focus T input)\<rparr>)"

definition resize_key :: "'i text_inputs \<Rightarrow> key_press \<Rightarrow> 'i resizeModel \<Rightarrow> bool \<times> 'i resizeModel" where
  "resize_key T key m =
     (let s = kp_String key; n = int (length resizeOrders)
      in if s = ''esc'' \<or> s = ''f2'' then (True, m)
         else if s = ''t'' \<or> s = ''T'' then
           (False, m\<lparr>rm_targetWidth := (if rm_targetWidth m = 80 then 132 else 80), rm_targetHeight := 24\<rparr>)
         else if s = ''up'' then (False, m\<lparr>rm_selected := go_rem (rm_selected m - 1 + n) n\<rparr>)
         else if s = ''down'' then (False, m\<lparr>rm_selected := go_rem (rm_selected m + 1) n\<rparr>)
         else (False, m\<lparr>rm_input := fst (ti_Update T (KeyInput key) (rm_input m))\<rparr>))"

definition resize_paste :: "'i text_inputs \<Rightarrow> string \<Rightarrow> 'i resizeModel \<Rightarrow> 'i resizeModel \<times> tui_cmd" where
  "resize_paste T content m =
     (let (x, command) = ti_Update T (PasteInput content) (rm_input m) in (m\<lparr>rm_input := x\<rparr>, command))"

definition resize_resize :: "'i text_inputs \<Rightarrow> int \<Rightarrow> int \<Rightarrow> 'i resizeModel \<Rightarrow> 'i resizeModel" where
  "resize_resize T width height m =
     resize_setInputWidth T (m\<lparr>rm_width := width, rm_height := height, rm_resizeCount := rm_resizeCount m + 1\<rparr>)"

definition resize_order_lines :: "int \<Rightarrow> string list" where
  "resize_order_lines selected =
     map (\<lambda>i. controlLine (int i = selected) (resizeOrders ! i)) [0..<length resizeOrders]"

definition resize_view :: "'i text_inputs \<Rightarrow> styles \<Rightarrow> 'i resizeModel \<Rightarrow> string" where
  "resize_view T S m =
     (let breakpoint = (if rm_width m \<ge> 100 then ''Wide'' else if rm_width m \<ge> 60 then ''Medium'' else ''Narrow'');
          status = (if rm_width m = rm_targetWidth m \<and> rm_height m = rm_targetHeight m
                    then sy_success S ''MATCH'' else sy_error S ''WAITING'')
      in sy_MaxWidth S (rm_width m) (join_lines
        ([sy_heading S ''TERMINAL RESIZE'', [],
          ''Actual dimensions: '' @ itoa (rm_width m) @ ''x'' @ itoa (rm_height m),
          ''Target dimensions: '' @ itoa (rm_targetWidth m) @ ''x'' @ itoa (rm_targetHeight m),
          ''Resize events: '' @ itoa (rm_resizeCount m), ''Breakpoint: '' @ breakpoint, ''Status: '' @ status, [],
          ''Retained state:''] @ resize_order_lines (rm_selected m) @
         [ti_View T (rm_input m), [], ''This application cannot force a remote PTY resize.'',
          ''Automation: press T to toggle the target, then call driver session.resize.'', [],
          sy_help S ''T Toggle  Up/Down Select  Type to edit  Esc/F2 Menu''])))"

subsection \<open>Colours\<close>

record colorsModel =
  co_width :: int
  co_height :: int

definition newColorsModel :: "int \<Rightarrow> int \<Rightarrow> colorsModel" where
  "newColorsModel width height = \<lparr>co_width = width, co_height = height\<rparr>"

definition colors_key :: "key_press \<Rightarrow> bool" where
  "colors_key key \<longleftrightarrow> kp_String key = ''esc'' \<or> kp_String key = ''f2''"

definition esc :: "string \<Rightarrow> string" where
  "esc s = [CHR 0x1B] @ ''['' @ s"

definition ansi :: "string \<Rightarrow> string \<Rightarrow> string" where
  "ansi code s = esc code @ ''m'' @ s @ esc ''0m''"

definition zeros :: "nat \<Rightarrow> int \<Rightarrow> string" where
  "zeros n i = pad_left (CHR ''0'') n (itoa i)"

definition colorSwatches :: "int \<Rightarrow> nat \<Rightarrow> int \<Rightarrow> string" where
  "colorSwatches firstCode count labelOffset =
     join_with '' '' (map (\<lambda>i. esc (itoa (firstCode + int i)) @ ''m '' @ zeros 2 (labelOffset + int i) @ '' '' @ esc ''0m'')
       [0..<count])"

definition backgroundSwatches :: "int \<Rightarrow> nat \<Rightarrow> int \<Rightarrow> string" where
  "backgroundSwatches firstCode count labelOffset =
     join_with '' '' (map (\<lambda>i. esc (itoa (if i = 0 \<or> i = 4 then 97 else 30)) @ '';'' @ itoa (firstCode + int i) @ ''m '' @
         zeros 2 (labelOffset + int i) @ '' '' @ esc ''0m'') [0..<count])"

definition contrastingColor :: "int \<Rightarrow> int" where
  "contrastingColor color = (if color = 16 \<or> color = 21 \<or> color = 196 \<or> color < 244 then 15 else 0)"

definition xtermSwatches :: "int list \<Rightarrow> string" where
  "xtermSwatches colors =
     join_with '' '' (map (\<lambda>c. esc (''48;5;'' @ itoa c) @ ''m'' @ esc (''38;5;'' @ itoa (contrastingColor c)) @ ''m '' @
         zeros 3 c @ '' '' @ esc ''0m'') colors)"

definition colors_view :: "styles \<Rightarrow> colorsModel \<Rightarrow> string" where
  "colors_view S m =
     sy_MaxWidth S (co_width m) (join_lines
       [sy_heading S ''ANSI COLORS AND ATTRIBUTES'', [],
        ''ANSI 8 COLORS (foreground)'', colorSwatches 30 8 0,
        ''ANSI 8 COLORS (background)'', backgroundSwatches 40 8 0,
        ''ANSI 16 COLORS (bright foreground)'', colorSwatches 90 8 8,
        ''ANSI 16 COLORS (bright background)'', backgroundSwatches 100 8 8, [],
        ''XTERM 256 SELECTED COLOR CUBE SAMPLES'', xtermSwatches [16, 21, 46, 51, 196, 201, 226, 231],
        ''XTERM 256 SELECTED GRAYSCALE SAMPLES'', xtermSwatches [232, 236, 240, 244, 248, 252, 255], [],
        ''DEFAULT RESET: '' @ ansi ''31'' ''RED'' @ '' '' @ esc ''39mDEFAULT'' @ esc ''0m'',
        ''ATTRIBUTES: '' @ join_with ''  '' [ansi ''1'' ''BOLD'', ansi ''4'' ''UNDERLINE'', ansi ''5'' ''BLINK'',
          ansi ''7'' ''REVERSE'', ''CONCEAL '' @ ansi ''8'' ''HIDDEN'' @ '' END''], [],
        sy_help S ''Esc/F2 Menu''])"

definition colors_resize :: "int \<Rightarrow> int \<Rightarrow> colorsModel \<Rightarrow> colorsModel" where
  "colors_resize width height m = m\<lparr>co_width := width, co_height := height\<rparr>"

subsection \<open>Unicode\<close>

definition unicodeSamples :: "(string \<times> string \<times> int) list" where
  "unicodeSamples =
     [
      (''ASCII'', ''Hello'', 5),
      (''Combining accent'', [CHR 0x65, CHR 0xCC, CHR 0x81], 1),
      (''CJK'', [CHR 0xE6, CHR 0xBC, CHR 0xA2, CHR 0xE5, CHR 0xAD, CHR 0x97], 4),
      (''Emoji'', [CHR 0xF0, CHR 0x9F, CHR 0x99, CHR 0x82], 2),
      (''ZWJ'', [CHR 0xF0, CHR 0x9F, CHR 0x91, CHR 0xA9, CHR 0xE2, CHR 0x80, CHR 0x8D, CHR 0xF0, CHR 0x9F, CHR 0x92, CHR 0xBB], 2),
      (''Flag'', [CHR 0xF0, CHR 0x9F, CHR 0x87, CHR 0xBA, CHR 0xF0, CHR 0x9F, CHR 0x87, CHR 0xB8], 2),
      (''Skin tone'', [CHR 0xF0, CHR 0x9F, CHR 0x91, CHR 0x8D, CHR 0xF0, CHR 0x9F, CHR 0x8F, CHR 0xBD], 2)
     ]"

record 'i unicodeModel =
  um_width :: int
  um_height :: int
  um_input :: 'i
  um_focused :: bool

definition unicode_setInputWidth :: "'i text_inputs \<Rightarrow> 'i unicodeModel \<Rightarrow> 'i unicodeModel" where
  "unicode_setInputWidth T m = m\<lparr>um_input := ti_SetWidth T (min 48 (max 8 (um_width m - 4))) (um_input m)\<rparr>"

definition newUnicodeModel :: "'i text_inputs \<Rightarrow> int \<Rightarrow> int \<Rightarrow> 'i unicodeModel" where
  "newUnicodeModel T width height =
     (let input = ti_new T \<lparr>is_prompt = ''> '', is_placeholder = ''edit Unicode graphemes here'', is_limit = 64,
                            is_password = False, is_suggestions = []\<rparr>
      in unicode_setInputWidth T
           \<lparr>um_width = width, um_height = height, um_input = fst (ti_Focus T input), um_focused = True\<rparr>)"

definition unicode_key :: "'i text_inputs \<Rightarrow> key_press \<Rightarrow> 'i unicodeModel \<Rightarrow> bool \<times> 'i unicodeModel" where
  "unicode_key T key m =
     (let s = kp_String key
      in if s = ''esc'' \<or> s = ''f2'' then (True, m)
         else if s = ''tab'' then
           (let m1 = m\<lparr>um_focused := \<not> um_focused m\<rparr>
            in (False, m1\<lparr>um_input := (if um_focused m1 then fst (ti_Focus T (um_input m1)) else ti_Blur T (um_input m1))\<rparr>))
         else if um_focused m then (False, m\<lparr>um_input := fst (ti_Update T (KeyInput key) (um_input m))\<rparr>)
         else (False, m))"

definition unicode_paste :: "'i text_inputs \<Rightarrow> string \<Rightarrow> 'i unicodeModel \<Rightarrow> 'i unicodeModel \<times> tui_cmd" where
  "unicode_paste T content m =
     (if \<not> um_focused m then (m, NoCmd)
      else (let (x, command) = ti_Update T (PasteInput content) (um_input m) in (m\<lparr>um_input := x\<rparr>, command)))"

definition unicode_resize :: "'i text_inputs \<Rightarrow> int \<Rightarrow> int \<Rightarrow> 'i unicodeModel \<Rightarrow> 'i unicodeModel" where
  "unicode_resize T width height m = unicode_setInputWidth T (m\<lparr>um_width := width, um_height := height\<rparr>)"

definition unicode_view :: "'i text_inputs \<Rightarrow> styles \<Rightarrow> 'i unicodeModel \<Rightarrow> string" where
  "unicode_view T S m =
     sy_MaxWidth S (um_width m) (join_lines
       ([sy_heading S ''UNICODE ALIGNMENT'', [], ''Sample              |Text      | Expected width''] @
        map (\<lambda>(label, s, w). pad_right 19 label @ '' |'' @ sy_Width S 10 s @ ''| '' @ itoa w) unicodeSamples @
        [[], ''Editable grapheme input ('' @ (if um_focused m then ''focused'' else ''unfocused'') @ ''):'',
         ti_View T (um_input m), ''Value is retained across resize events.'', [],
         sy_help S ''Tab Toggle input focus  Esc/F2 Menu'']))"

subsection \<open>VTTEST\<close>

text \<open>
  The result of the runner: nothing, an error that wraps \<open>FatalVTTestError\<close>, or any other error; \<open>Run\<close> of the
  exec command turns it into what the page receives, or the terminal's release and restore around it
  fails with an error of its own.
\<close>

datatype runner_result = RunOk | RunFatal string | RunError string

datatype vttest_error = VTFatal string | VTUnavailable string | VTTerminal string

definition vtTest_Run :: "runner_result \<Rightarrow> vttest_error option" where
  "vtTest_Run r =
     (case r of RunOk \<Rightarrow> None | RunFatal e \<Rightarrow> Some (VTFatal e) | RunError e \<Rightarrow> Some (VTUnavailable e))"

text \<open>The launcher of the command: the executable is found or not, and runs with or without an error.\<close>

definition CommandVTTestRunner_Run :: "string option \<Rightarrow> string option \<Rightarrow> runner_result" where
  "CommandVTTestRunner_Run notFound failed =
     (case notFound of
        Some e \<Rightarrow> RunError (''finding vttest executable: '' @ e)
      | None \<Rightarrow> (case failed of Some e \<Rightarrow> RunError (''running vttest: '' @ e) | None \<Rightarrow> RunOk))"

end
