(* ===== verification/Ref_Application.thy ===== *)
theory Ref_Application
  imports Ref_Streams Ref_Form Ref_Table Ref_Pages Ref_Demos Utf8
begin

text \<open>
  The reference application (\<open>reference/application.go\<close>): the login screen, the menu and the pages, the
  messages Bubble Tea delivers and the view. \<open>Update\<close> and \<open>View\<close> are \<open>None\<close> where the code would panic.
  The component libraries, \<open>strings.ToLower\<close>, \<open>strconv.Quote\<close> and the key codes are the record \<open>app_lib\<close>.
\<close>

record ('i, 'n, 't) app_lib =
  al_inputs :: "'i text_inputs"
  al_areas :: "'n text_areas"
  al_tables :: "'t tables"
  al_lower :: "string \<Rightarrow> string"
  al_quote :: "string \<Rightarrow> string"
  al_keys :: key_codes

datatype page =
    PageLogin | PageMenu | PageForm | PageTable | PageScrolling | PageColors | PageCursor | PageKeys
  | PagePartial | PageLongRunning | PageResize | PageUnicode | PageBellENQ

definition menuItems :: "string list" where
  "menuItems =
     [''Login / Authentication'', ''Forms and Input Fields'', ''Tables'', ''Scrolling'', ''Colors and Attributes'',
      ''Cursor Movement'', ''Function Keys'', ''Partial Screen Updates'', ''Long Running Operation'',
      ''Terminal Resize'', ''Unicode'', ''BELL / ENQ Answerback'', ''ANSI / VT220 Tests'']"

record credentials =
  cr_Username :: string
  cr_Password :: string

record ('i, 'n, 't) application =
  ap_width :: int
  ap_height :: int
  ap_credentials :: credentials
  ap_page :: page
  ap_loginFocus :: int
  ap_loginInputs :: "'i list"
  ap_selected :: int
  ap_message :: string
  ap_form :: "('i, 'n) formModel"
  ap_table :: "('i, 't) tableModel"
  ap_scrolling :: scrollingModel
  ap_colors :: colorsModel
  ap_cursor :: cursorModel
  ap_keys :: keyModel
  ap_partial :: partialModel
  ap_longRunning :: longRunningModel
  ap_resizeDemo :: "'i resizeModel"
  ap_unicode :: "'i unicodeModel"
  ap_bellENQ :: bellENQModel
  ap_runErr :: "vttest_error option"

datatype tui_msg =
    WindowSize int int
  | VTTestFinished "vttest_error option"
  | ScrollTickMsg generation
  | PartialTickMsg generation
  | LongTickMsg generation
  | PasteMsg string
  | KeyPress key_press
  | OtherMsg

subsection \<open>Construction\<close>

datatype app_error = AppDimensions | CredentialsRequired | CredentialsTooLong

definition loginFieldLimit :: nat where
  "loginFieldLimit = 24"

definition Credentials_Validate :: "credentials \<Rightarrow> app_error option" where
  "Credentials_Validate c =
     (if cr_Username c = [] \<or> cr_Password c = [] then Some CredentialsRequired
      else if rune_count (map of_char (cr_Username c)) > loginFieldLimit \<or> rune_count (map of_char (cr_Password c)) > loginFieldLimit
      then Some CredentialsTooLong else None)"

definition login_settings :: "bool \<Rightarrow> input_settings" where
  "login_settings password = \<lparr>is_prompt = [], is_placeholder = [], is_limit = int loginFieldLimit,
     is_password = password, is_suggestions = []\<rparr>"

definition New_application ::
  "('i, 'n, 't) app_lib \<Rightarrow> int \<Rightarrow> int \<Rightarrow> credentials \<Rightarrow> (app_error + ('i, 'n, 't) application) option" where
  "New_application L width height c =
     (let T = al_inputs L; N = al_areas L; B = al_tables L
      in if width \<le> 0 \<or> height \<le> 0 then Some (Inl AppDimensions)
         else case Credentials_Validate c of
           Some e \<Rightarrow> Some (Inl e)
         | None \<Rightarrow>
             (let username = ti_SetWidth T (min 24 (max 8 (width - 12))) (ti_new T (login_settings False));
                  password = ti_SetWidth T (ti_Width T username) (ti_new T (login_settings True))
              in do { table \<leftarrow> newTableModel T B (al_lower L) width height;
                      scrolling \<leftarrow> newScrollingModel width height;
                      Some (Inr \<lparr>ap_width = width, ap_height = height, ap_credentials = c, ap_page = PageLogin,
                        ap_loginFocus = 0, ap_loginInputs = [fst (ti_Focus T username), password], ap_selected = 0,
                        ap_message = [], ap_form = newFormModel T N width height, ap_table = table,
                        ap_scrolling = scrolling, ap_colors = newColorsModel width height,
                        ap_cursor = newCursorModel width height, ap_keys = newKeyModel width height,
                        ap_partial = newPartialModel width height,
                        ap_longRunning = newLongRunningModel width height,
                        ap_resizeDemo = newResizeModel T width height, ap_unicode = newUnicodeModel T width height,
                        ap_bellENQ = newBellENQModel width height, ap_runErr = None\<rparr>) }))"

subsection \<open>Login\<close>

type_synonym ('i, 'n, 't) app = "('i, 'n, 't) application"

definition focusLogin :: "'i text_inputs \<Rightarrow> int \<Rightarrow> ('i, 'n, 't) app \<Rightarrow> ('i, 'n, 't) app option" where
  "focusLogin T index a =
     (let blurred = map (ti_Blur T) (ap_loginInputs a)
      in do { x \<leftarrow> get_at blurred index;
              inputs \<leftarrow> set_at blurred index (fst (ti_Focus T x));
              Some (a\<lparr>ap_loginFocus := index, ap_loginInputs := inputs\<rparr>) })"

definition resetLogin :: "'i text_inputs \<Rightarrow> string \<Rightarrow> ('i, 'n, 't) app \<Rightarrow> ('i, 'n, 't) app option" where
  "resetLogin T message a =
     do { a1 \<leftarrow> focusLogin T 0 (a\<lparr>ap_loginInputs := map (ti_SetValue T []) (ap_loginInputs a)\<rparr>);
          Some (a1\<lparr>ap_message := message\<rparr>) }"

definition authenticate :: "'i text_inputs \<Rightarrow> ('i, 'n, 't) app \<Rightarrow> ('i, 'n, 't) app option" where
  "authenticate T a =
     do { username \<leftarrow> get_at (ap_loginInputs a) 0;
          password \<leftarrow> get_at (ap_loginInputs a) 1;
          if ti_Value T username \<noteq> cr_Username (ap_credentials a) \<or>
             ti_Value T password \<noteq> cr_Password (ap_credentials a)
          then do { inputs \<leftarrow> set_at (ap_loginInputs a) 1 (ti_SetValue T [] password);
                    a1 \<leftarrow> focusLogin T 0 (a\<lparr>ap_loginInputs := inputs\<rparr>);
                    Some (a1\<lparr>ap_message := ''Invalid user ID or password''\<rparr>) }
          else do { i0 \<leftarrow> set_at (ap_loginInputs a) 0 (ti_Blur T username);
                    i1 \<leftarrow> set_at i0 1 (ti_Blur T password);
                    Some (a\<lparr>ap_loginInputs := i1, ap_page := PageMenu, ap_selected := 0,
                            ap_message := ''Authenticated as '' @ cr_Username (ap_credentials a)\<rparr>) } }"

definition login_input :: "'i text_inputs \<Rightarrow> input_msg \<Rightarrow> ('i, 'n, 't) app \<Rightarrow> (('i, 'n, 't) app \<times> tui_cmd) option" where
  "login_input T msg a =
     do { x \<leftarrow> get_at (ap_loginInputs a) (ap_loginFocus a);
          let (x', command) = ti_Update T msg x
          in do { inputs \<leftarrow> set_at (ap_loginInputs a) (ap_loginFocus a) x';
                  Some (a\<lparr>ap_loginInputs := inputs, ap_message := []\<rparr>, command) } }"

definition updateLogin :: "'i text_inputs \<Rightarrow> key_press \<Rightarrow> ('i, 'n, 't) app \<Rightarrow> (('i, 'n, 't) app \<times> tui_cmd) option" where
  "updateLogin T key a =
     (let s = kp_String key; n = int (length (ap_loginInputs a));
          with = (\<lambda>command r. map_option (\<lambda>a'. (a', command)) r)
      in if s = ''tab'' \<or> s = ''down'' then with Blink (focusLogin T (go_rem (ap_loginFocus a + 1) n) a)
         else if s = ''shift+tab'' \<or> s = ''up'' then with Blink (focusLogin T (go_rem (ap_loginFocus a - 1 + n) n) a)
         else if s = ''enter'' then
           (if ap_loginFocus a = 0 then with Blink (focusLogin T 1 a) else with NoCmd (authenticate T a))
         else if s = ''f1'' then with NoCmd (authenticate T a)
         else if s = ''f2'' then with NoCmd (resetLogin T ''Login cleared'' a)
         else login_input T (KeyInput key) a)"

subsection \<open>Menu\<close>

definition selected_message :: "('i, 'n, 't) app \<Rightarrow> ('i, 'n, 't) app option" where
  "selected_message a =
     do { item \<leftarrow> get_at menuItems (ap_selected a); Some (a\<lparr>ap_message := item @ '' scenario selected''\<rparr>) }"

definition open_page :: "('i, 'n, 't) app_lib \<Rightarrow> ('i, 'n, 't) app \<Rightarrow> (('i, 'n, 't) app \<times> tui_cmd) option" where
  "open_page L a =
     (let T = al_inputs L; w = ap_width a; h = ap_height a; i = ap_selected a
      in if i = 1 then Some (a\<lparr>ap_form := newFormModel T (al_areas L) w h, ap_page := PageForm\<rparr>, NoCmd)
         else if i = 2 then
           do { t \<leftarrow> newTableModel T (al_tables L) (al_lower L) w h; Some (a\<lparr>ap_table := t, ap_page := PageTable\<rparr>, NoCmd) }
         else if i = 3 then
           do { m \<leftarrow> newScrollingModel w h; Some (a\<lparr>ap_scrolling := m, ap_page := PageScrolling\<rparr>, NoCmd) }
         else if i = 4 then Some (a\<lparr>ap_colors := newColorsModel w h, ap_page := PageColors\<rparr>, NoCmd)
         else if i = 5 then Some (a\<lparr>ap_cursor := newCursorModel w h, ap_page := PageCursor\<rparr>, NoCmd)
         else if i = 6 then Some (a\<lparr>ap_keys := newKeyModel w h, ap_page := PageKeys\<rparr>, NoCmd)
         else if i = 7 then Some (a\<lparr>ap_partial := newPartialModel w h, ap_page := PagePartial\<rparr>, NoCmd)
         else if i = 8 then Some (a\<lparr>ap_longRunning := newLongRunningModel w h, ap_page := PageLongRunning\<rparr>, NoCmd)
         else if i = 9 then Some (a\<lparr>ap_resizeDemo := newResizeModel T w h, ap_page := PageResize\<rparr>, NoCmd)
         else if i = 10 then Some (a\<lparr>ap_unicode := newUnicodeModel T w h, ap_page := PageUnicode\<rparr>, NoCmd)
         else if i = 11 then Some (a\<lparr>ap_bellENQ := newBellENQModel w h, ap_page := PageBellENQ\<rparr>, NoCmd)
         else if i = int (length menuItems) - 1 then Some (a\<lparr>ap_message := ''Launching VTTEST''\<rparr>, ExecVTTest)
         else map_option (\<lambda>a'. (a', NoCmd)) (selected_message a))"

text \<open>The rune of a text of exactly one rune between 1 and 9 is its only byte.\<close>

definition menu_digit :: "string \<Rightarrow> int option" where
  "menu_digit s =
     (case s of
        [c] \<Rightarrow> (let n = of_char c :: int in if 49 \<le> n \<and> n \<le> 57 then Some (n - 49) else None)
      | _ \<Rightarrow> None)"

definition updateMenu ::
  "('i, 'n, 't) app_lib \<Rightarrow> key_press \<Rightarrow> ('i, 'n, 't) app \<Rightarrow> (('i, 'n, 't) app \<times> tui_cmd) option" where
  "updateMenu L key a =
     (let s = kp_String key; n = int (length menuItems)
      in if s = ''up'' then Some (a\<lparr>ap_selected := go_rem (ap_selected a - 1 + n) n\<rparr>, NoCmd)
         else if s = ''down'' then Some (a\<lparr>ap_selected := go_rem (ap_selected a + 1) n\<rparr>, NoCmd)
         else if s = ''f2'' then
           map_option (\<lambda>a'. (a', NoCmd)) (resetLogin (al_inputs L) ''Signed out'' (a\<lparr>ap_page := PageLogin\<rparr>))
         else if s = ''enter'' \<or> s = ''f1'' then open_page L a
         else case menu_digit (kp_Text key) of
           Some i \<Rightarrow> map_option (\<lambda>a'. (a', NoCmd)) (selected_message (a\<lparr>ap_selected := i\<rparr>))
         | None \<Rightarrow> Some (a, NoCmd))"

subsection \<open>Messages\<close>

definition completeScenario :: "string \<Rightarrow> ('i, 'n, 't) app \<Rightarrow> ('i, 'n, 't) app" where
  "completeScenario name a = a\<lparr>ap_page := PageMenu, ap_message := name @ '' completed''\<rparr>"

definition leave :: "bool \<Rightarrow> string \<Rightarrow> ('i, 'n, 't) app \<Rightarrow> ('i, 'n, 't) app" where
  "leave back name a = (if back then completeScenario name a else a)"

definition finishVTTest :: "vttest_error option \<Rightarrow> ('i, 'n, 't) app \<Rightarrow> ('i, 'n, 't) app \<times> tui_cmd" where
  "finishVTTest e a =
     (case e of
        None \<Rightarrow> (a\<lparr>ap_message := ''VTTEST completed''\<rparr>, NoCmd)
      | Some err \<Rightarrow>
          (case err of
             VTUnavailable cause \<Rightarrow> (a\<lparr>ap_message := ''VTTEST unavailable: '' @ cause\<rparr>, NoCmd)
           | _ \<Rightarrow> (a\<lparr>ap_runErr := Some err\<rparr>, QuitCmd)))"

definition app_resize ::
  "('i, 'n, 't) app_lib \<Rightarrow> int \<Rightarrow> int \<Rightarrow> ('i, 'n, 't) app \<Rightarrow> ('i, 'n, 't) app option" where
  "app_resize L width height a =
     (let T = al_inputs L
      in if width \<le> 0 \<or> height \<le> 0 then Some a
         else do { table \<leftarrow> table_resize T (al_tables L) (al_lower L) width height (ap_table a);
                   Some (a\<lparr>ap_width := width, ap_height := height,
                     ap_loginInputs := map (ti_SetWidth T (min 24 (max 8 (width - 12)))) (ap_loginInputs a),
                     ap_form := form_resize T (al_areas L) width height (ap_form a), ap_table := table,
                     ap_scrolling := scrolling_resize width height (ap_scrolling a),
                     ap_colors := colors_resize width height (ap_colors a),
                     ap_cursor := cursor_resize width height (ap_cursor a),
                     ap_keys := keys_resize width height (ap_keys a),
                     ap_partial := partial_resize width height (ap_partial a),
                     ap_longRunning := long_resize width height (ap_longRunning a),
                     ap_resizeDemo := resize_resize T width height (ap_resizeDemo a),
                     ap_unicode := unicode_resize T width height (ap_unicode a),
                     ap_bellENQ := bell_resize width height (ap_bellENQ a)\<rparr>) })"

definition updatePaste ::
  "('i, 'n, 't) app_lib \<Rightarrow> string \<Rightarrow> ('i, 'n, 't) app \<Rightarrow> (('i, 'n, 't) app \<times> tui_cmd) option" where
  "updatePaste L content a =
     (let T = al_inputs L
      in case ap_page a of
           PageLogin \<Rightarrow> login_input T (PasteInput content) a
         | PageForm \<Rightarrow>
             do { (m, command) \<leftarrow> form_paste T (al_areas L) content (ap_form a); Some (a\<lparr>ap_form := m\<rparr>, command) }
         | PageTable \<Rightarrow>
             (let (m, command) = table_paste T (al_tables L) (al_lower L) content (ap_table a)
              in Some (a\<lparr>ap_table := m\<rparr>, command))
         | PageKeys \<Rightarrow> Some (a\<lparr>ap_keys := keys_paste (al_quote L) content (ap_keys a)\<rparr>, NoCmd)
         | PageResize \<Rightarrow>
             (let (m, command) = resize_paste T content (ap_resizeDemo a) in Some (a\<lparr>ap_resizeDemo := m\<rparr>, command))
         | PageUnicode \<Rightarrow>
             (let (m, command) = unicode_paste T content (ap_unicode a) in Some (a\<lparr>ap_unicode := m\<rparr>, command))
         | _ \<Rightarrow> Some (a, NoCmd))"

definition page_key ::
  "('i, 'n, 't) app_lib \<Rightarrow> key_press \<Rightarrow> ('i, 'n, 't) app \<Rightarrow> (('i, 'n, 't) app \<times> tui_cmd) option" where
  "page_key L key a =
     (let T = al_inputs L; s = kp_String key
      in case ap_page a of
           PageLogin \<Rightarrow> updateLogin T key a
         | PageMenu \<Rightarrow> updateMenu L key a
         | PageForm \<Rightarrow>
             do { (back, m, command) \<leftarrow> form_key T (al_areas L) key (ap_form a);
                  Some (leave back ''Forms and Input Fields'' (a\<lparr>ap_form := m\<rparr>), command) }
         | PageTable \<Rightarrow>
             (let (back, m) = table_key T (al_tables L) (al_lower L) key (ap_table a)
              in Some (leave back ''Tables'' (a\<lparr>ap_table := m\<rparr>), NoCmd))
         | PageScrolling \<Rightarrow>
             do { (back, m, command) \<leftarrow> scrolling_key s (ap_scrolling a);
                  Some (leave back ''Scrolling'' (a\<lparr>ap_scrolling := m\<rparr>), command) }
         | PageColors \<Rightarrow> Some (leave (colors_key key) ''Colors and Attributes'' a, NoCmd)
         | PageCursor \<Rightarrow>
             (let (back, m) = cursor_key (al_keys L) key (ap_cursor a)
              in Some (leave back ''Cursor Movement'' (a\<lparr>ap_cursor := m\<rparr>), NoCmd))
         | PageKeys \<Rightarrow>
             (let (back, m) = keys_key (al_keys L) key (ap_keys a)
              in Some (leave back ''Function Keys'' (a\<lparr>ap_keys := m\<rparr>), NoCmd))
         | PagePartial \<Rightarrow>
             (let (back, m, command) = partial_key key (ap_partial a)
              in Some (leave back ''Partial Screen Updates'' (a\<lparr>ap_partial := m\<rparr>), command))
         | PageLongRunning \<Rightarrow>
             (let (back, m, command) = long_key s (ap_longRunning a)
              in Some (leave back ''Long Running Operation'' (a\<lparr>ap_longRunning := m\<rparr>), command))
         | PageResize \<Rightarrow>
             (let (back, m) = resize_key T key (ap_resizeDemo a)
              in Some (leave back ''Terminal Resize'' (a\<lparr>ap_resizeDemo := m\<rparr>), NoCmd))
         | PageUnicode \<Rightarrow>
             (let (back, m) = unicode_key T key (ap_unicode a)
              in Some (leave back ''Unicode'' (a\<lparr>ap_unicode := m\<rparr>), NoCmd))
         | PageBellENQ \<Rightarrow>
             (let (back, m, command) = bell_key (al_quote L) key (ap_bellENQ a)
              in Some (leave back ''BELL / ENQ Answerback'' (a\<lparr>ap_bellENQ := m\<rparr>), command)))"

definition app_Update ::
  "('i, 'n, 't) app_lib \<Rightarrow> tui_msg \<Rightarrow> ('i, 'n, 't) app \<Rightarrow> (('i, 'n, 't) app \<times> tui_cmd) option" where
  "app_Update L msg a =
     (case msg of
        WindowSize width height \<Rightarrow> map_option (\<lambda>a'. (a', NoCmd)) (app_resize L width height a)
      | VTTestFinished e \<Rightarrow> Some (finishVTTest e a)
      | ScrollTickMsg g \<Rightarrow>
          (if ap_page a = PageScrolling
           then do { (m, command) \<leftarrow> scrolling_tick g (ap_scrolling a); Some (a\<lparr>ap_scrolling := m\<rparr>, command) }
           else Some (a, NoCmd))
      | PartialTickMsg g \<Rightarrow>
          (if ap_page a = PagePartial
           then (let (m, command) = partial_tick g (ap_partial a) in Some (a\<lparr>ap_partial := m\<rparr>, command))
           else Some (a, NoCmd))
      | LongTickMsg g \<Rightarrow>
          (if ap_page a = PageLongRunning
           then (let (m, command) = long_tick g (ap_longRunning a) in Some (a\<lparr>ap_longRunning := m\<rparr>, command))
           else Some (a, NoCmd))
      | PasteMsg content \<Rightarrow> updatePaste L content a
      | KeyPress key \<Rightarrow>
          (if kp_String key = ''ctrl+c'' \<and> ap_page a \<noteq> PageKeys then Some (a, QuitCmd) else page_key L key a)
      | OtherMsg \<Rightarrow> Some (a, NoCmd))"

subsection \<open>The view\<close>

text \<open>\<open>strings.Repeat\<close> of the box-drawing line, in UTF-8.\<close>

definition rule :: "int \<Rightarrow> string option" where
  "rule n = repeat_string n [CHR 0xE2, CHR 0x94, CHR 0x80]"

definition viewLogin :: "'i text_inputs \<Rightarrow> styles \<Rightarrow> ('i, 'n, 't) app \<Rightarrow> string option" where
  "viewLogin T S a =
     do { username \<leftarrow> get_at (ap_loginInputs a) 0;
          password \<leftarrow> get_at (ap_loginInputs a) 1;
          line0 \<leftarrow> rule (ti_Width T username);
          line1 \<leftarrow> rule (ti_Width T password);
          Some (join_lines
            ([sy_heading S ''LOGIN / AUTHENTICATION'', [], ''User ID:  '' @ ti_View T username, ''          '' @ line0,
              [], ''Password: '' @ ti_View T password, ''          '' @ line1, [],
              sy_help S ''F1 Login    F2 Clear    Ctrl-C Exit'', [],
              ''Test credentials: '' @ cr_Username (ap_credentials a) @ '' / '' @ cr_Password (ap_credentials a)] @
             (if ap_message a \<noteq> [] then [[], sy_error S (ap_message a)] else []))) }"

definition viewMenu :: "styles \<Rightarrow> ('i, 'n, 't) app \<Rightarrow> string" where
  "viewMenu S a =
     join_lines
       ([sy_heading S ''TERMINAL TEST SYSTEM'', []] @
        map (\<lambda>i. let line = pad_left (CHR '' '') 2 (itoa (int i + 1)) @ ''. '' @ menuItems ! i
                 in if int i = ap_selected a then sy_selected S line else line) [0..<length menuItems] @
        (if ap_message a \<noteq> [] then [[], sy_success S (ap_message a)] else []) @
        [[], sy_help S ''Arrows Select  Enter/F1 Open  F2 Sign out  Ctrl-C Exit''])"

definition page_body :: "('i, 'n, 't) app_lib \<Rightarrow> styles \<Rightarrow> ('i, 'n, 't) app \<Rightarrow> string option" where
  "page_body L S a =
     (case ap_page a of
        PageLogin \<Rightarrow> viewLogin (al_inputs L) S a
      | PageMenu \<Rightarrow> Some (viewMenu S a)
      | PageForm \<Rightarrow> form_view (al_inputs L) (al_areas L) S (ap_form a)
      | PageTable \<Rightarrow> table_view (al_inputs L) (al_tables L) S (ap_table a)
      | PageScrolling \<Rightarrow> scrolling_view S (ap_scrolling a)
      | PageColors \<Rightarrow> Some (colors_view S (ap_colors a))
      | PageCursor \<Rightarrow> cursor_view S (ap_cursor a)
      | PageKeys \<Rightarrow> Some (keys_view (al_keys L) (al_quote L) S (ap_keys a))
      | PagePartial \<Rightarrow> partial_view S (ap_partial a)
      | PageLongRunning \<Rightarrow> Some (long_view S (ap_longRunning a))
      | PageResize \<Rightarrow> Some (resize_view (al_inputs L) S (ap_resizeDemo a))
      | PageUnicode \<Rightarrow> Some (unicode_view (al_inputs L) S (ap_unicode a))
      | PageBellENQ \<Rightarrow> Some (bell_view (al_quote L) S (ap_bellENQ a)))"

record app_view =
  av_content :: string
  av_altScreen :: bool
  av_cursor :: "(int \<times> int) option"

definition app_View :: "('i, 'n, 't) app_lib \<Rightarrow> styles \<Rightarrow> ('i, 'n, 't) app \<Rightarrow> app_view option" where
  "app_View L S a =
     do { body \<leftarrow> page_body L S a;
          Some \<lparr>av_content = sy_MaxWidth S (ap_width a)
                  (sy_title S ''TUICAST REFERENCE TERMINAL'' @ newline @ newline @ body),
                av_altScreen = True,
                av_cursor = (if ap_page a = PageCursor \<and> cm_visible (ap_cursor a)
                             then Some (cm_column (ap_cursor a), cm_row (ap_cursor a)) else None)\<rparr> }"

end
