(* ===== verification/Ref_Safe.thy ===== *)
theory Ref_Safe
  imports Ref_Application
begin

text \<open>
  The pages of the reference application never index out of range: an invariant for each page that can
  panic, that every operation of the page keeps it without a panic, and that the view of a page that
  satisfies it is defined. The last part assembles the pages into the application: an invariant of
  \<open>Application\<close> that \<open>New\<close> establishes and every message keeps.
\<close>

named_theorems page_simps \<open>the operations of a page, for its safety proof\<close>

lemma safe_map_option [simp]: "safe (map_option f r) Q \<longleftrightarrow> safe r (\<lambda>x. Q (f x))"
  by (cases r) simp_all

lemma safe_get_at: "safe (get_at xs i) Q \<longleftrightarrow> 0 \<le> i \<and> i < int (length xs) \<and> Q (xs ! nat i)"
  by (auto simp: get_at_def)

lemma safe_set_at: "safe (set_at xs i v) Q \<longleftrightarrow> 0 \<le> i \<and> i < int (length xs) \<and> Q (xs[nat i := v])"
  by (auto simp: set_at_def)

lemmas index_simps = safe_get_at safe_set_at

lemma safe_prod: "safe (case p of (x, y) \<Rightarrow> f x y) Q \<longleftrightarrow> safe (f (fst p) (snd p)) Q"
  by (cases p) simp

section \<open>What the component libraries promise\<close>

definition lawful_inputs :: "'i text_inputs \<Rightarrow> bool" where
  "lawful_inputs T \<longleftrightarrow>
     (\<forall>w x. ti_Width T (ti_SetWidth T w x) = w \<and> ti_Value T (ti_SetWidth T w x) = ti_Value T x) \<and>
     (\<forall>x. ti_Width T (fst (ti_Focus T x)) = ti_Width T x \<and> ti_Value T (fst (ti_Focus T x)) = ti_Value T x) \<and>
     (\<forall>x. ti_Width T (ti_Blur T x) = ti_Width T x \<and> ti_Value T (ti_Blur T x) = ti_Value T x) \<and>
     (\<forall>s x. ti_Width T (ti_SetValue T s x) = ti_Width T x) \<and>
     (\<forall>x. ti_Value T (ti_SetValue T [] x) = []) \<and>
     (\<forall>msg x. ti_Width T (fst (ti_Update T msg x)) = ti_Width T x)"

lemma lawful_inputsD:
  assumes "lawful_inputs T"
  shows "ti_Width T (ti_SetWidth T w x) = w" "ti_Value T (ti_SetWidth T w x) = ti_Value T x"
    "ti_Width T (fst (ti_Focus T x)) = ti_Width T x" "ti_Value T (fst (ti_Focus T x)) = ti_Value T x"
    "ti_Width T (ti_Blur T x) = ti_Width T x" "ti_Value T (ti_Blur T x) = ti_Value T x"
    "ti_Width T (ti_SetValue T s x) = ti_Width T x" "ti_Value T (ti_SetValue T [] x) = []"
    "ti_Width T (fst (ti_Update T msg x)) = ti_Width T x"
  using assms by (simp_all add: lawful_inputs_def)

definition lawful_tables :: "'t tables \<Rightarrow> bool" where
  "lawful_tables B \<longleftrightarrow>
     (\<forall>rs t. tb_Rows B (tb_SetRows B rs t) = rs) \<and>
     (\<forall>n t. tb_Rows B (tb_SetCursor B n t) = tb_Rows B t) \<and>
     (\<forall>key t. tb_Rows B (tb_Update B key t) = tb_Rows B t)"

lemma lawful_tablesD:
  assumes "lawful_tables B"
  shows "tb_Rows B (tb_SetRows B rs t) = rs" "tb_Rows B (tb_SetCursor B n t) = tb_Rows B t"
    "tb_Rows B (tb_Update B key t) = tb_Rows B t"
  using assms by (simp_all add: lawful_tables_def)

text \<open>
  Plain components that keep the promises: a text input is its value and its width, a text area its value,
  a table its rows and its cursor. They show that the promises can be kept.
\<close>

definition typed :: "input_msg \<Rightarrow> string" where
  "typed msg = (case msg of KeyInput key \<Rightarrow> kp_Text key | PasteInput s \<Rightarrow> s)"

definition plain_inputs :: "(string \<times> int) text_inputs" where
  "plain_inputs = \<lparr>ti_new = (\<lambda>_. ([], 0)), ti_Update = (\<lambda>msg x. ((fst x @ typed msg, snd x), NoCmd)), ti_Value = fst,
     ti_SetValue = (\<lambda>s x. (s, snd x)), ti_Width = snd, ti_SetWidth = (\<lambda>w x. (fst x, w)), ti_Focus = (\<lambda>x. (x, NoCmd)),
     ti_Blur = (\<lambda>x. x), ti_View = fst\<rparr>"

definition plain_areas :: "string text_areas" where
  "plain_areas = \<lparr>ta_new = (\<lambda>_ _ _. []), ta_Update = (\<lambda>msg x. (x @ typed msg, NoCmd)), ta_SetWidth = (\<lambda>_ x. x),
     ta_Focus = (\<lambda>x. (x, NoCmd)), ta_Blur = (\<lambda>x. x), ta_View = (\<lambda>x. x)\<rparr>"

definition plain_tables :: "(string list list \<times> int) tables" where
  "plain_tables = \<lparr>tb_new = ([], 0), tb_Update = (\<lambda>_ t. t), tb_SetRows = (\<lambda>rs t. (rs, snd t)), tb_Rows = fst,
     tb_SetColumns = (\<lambda>_ t. t), tb_SetWidth = (\<lambda>_ t. t), tb_SetHeight = (\<lambda>_ t. t), tb_Cursor = snd,
     tb_SetCursor = (\<lambda>n t. (fst t, n)), tb_SelectedRow = (\<lambda>t. []), tb_View = (\<lambda>_. [])\<rparr>"

lemma lawful_plain: "lawful_inputs plain_inputs" "lawful_tables plain_tables"
  by (simp_all add: lawful_inputs_def lawful_tables_def plain_inputs_def plain_tables_def)

section \<open>The receiving form\<close>

definition form_ok :: "('i, 'n) formModel \<Rightarrow> bool" where
  "form_ok m \<longleftrightarrow> length (fm_inputs m) = 4 \<and> length (fm_errors m) = 5 \<and> 0 \<le> fm_focus m \<and> fm_focus m < 8 \<and>
     fm_priority m \<in> {0, 1}"

lemmas form_controls = formNotes_def formPriority_def formSubmit_def formCancel_def formControlCount_def

lemma form_resize_ok: "form_ok m \<Longrightarrow> form_ok (form_resize T N w h m)"
  by (simp add: form_ok_def form_resize_def Let_def)

lemma newFormModel_ok: "form_ok (newFormModel T N w h)"
  unfolding newFormModel_def Let_def
  by (rule form_resize_ok) (simp add: form_ok_def form_settings_def)

lemma form_moveFocus_ok:
  assumes "form_ok m" "delta \<in> {1, -1}"
  shows "safe (form_moveFocus T N delta m) (\<lambda>r. form_ok (fst r))"
proof -
  define f where "f = go_rem (fm_focus m + delta + 8) 8"
  have f: "0 \<le> f" "f < 8" using assms by (auto simp: f_def form_ok_def)
  show ?thesis
    using assms(1) f
    by (auto simp: form_moveFocus_def form_ok_def Let_def form_controls f_def [symmetric] index_simps safe_prod
          intro!: safe_ifI)
qed

lemma form_input_ok:
  "form_ok m \<Longrightarrow> fm_focus m < 4 \<Longrightarrow> safe (form_input T msg m) (\<lambda>r. form_ok (fst r))"
  by (auto simp: form_input_def form_ok_def index_simps safe_prod)

lemma form_updateNotes_ok: "form_ok m \<Longrightarrow> safe (form_updateNotes N msg m) (\<lambda>r. form_ok (fst r))"
  by (auto simp: form_updateNotes_def form_ok_def form_controls index_simps safe_prod)

lemma safe_stay [simp]: "safe (stay r) Q \<longleftrightarrow> safe r (\<lambda>(m, c). Q (False, m, c))"
  by (simp add: stay_def split_def)

lemma form_errors_total:
  "length inputs = 4 \<Longrightarrow> safe (form_errors T inputs) (\<lambda>es. length es = 5 \<and> es ! 4 = [] \<and>
     (es ! 2 = [] \<longrightarrow> (\<exists>q > 0. Atoi (ti_Value T (inputs ! 2)) = Some q)) \<and>
     (\<forall>i \<in> {0, 1, 3}. es ! i = [] \<longrightarrow> TrimSpace (ti_Value T (inputs ! i)) \<noteq> []))"
  by (auto simp: form_errors_def blank_field_def index_simps split: option.splits)

lemma first_invalid_bound:
  "first_invalid i es = - 1 \<or> (i \<le> first_invalid i es \<and> first_invalid i es < i + int (length es) \<and>
     es ! nat (first_invalid i es - i) \<noteq> [])" if "0 \<le> i"
  using that
proof (induction es arbitrary: i)
  case (Cons e es)
  show ?case
  proof (cases "e = []")
    case True
    then show ?thesis using Cons.IH [of "i + 1"] Cons.prems by (auto simp: nth_Cons' nat_diff_distrib Suc_nat_eq_nat_zadd1 add.commute)
  qed simp
qed simp

lemma first_invalid_none: "first_invalid i es = - 1 \<longleftrightarrow> (\<forall>e \<in> set es. e = [])" if "0 \<le> i"
  using that by (induction es arbitrary: i) auto

lemma form_submit_ok:
  assumes "form_ok m"
  shows "safe (form_submit T N m) form_ok"
proof -
  have len: "length (fm_inputs m) = 4" using assms by (simp add: form_ok_def)
  obtain es where es: "form_errors T (fm_inputs m) = Some es" "length es = 5" "es ! 4 = []"
    "es ! 2 = [] \<longrightarrow> (\<exists>q > 0. Atoi (ti_Value T (fm_inputs m ! 2)) = Some q)"
    using form_errors_total [OF len, of T] by (auto elim: safeE)
  show ?thesis
  proof (cases "first_invalid 0 es = - 1")
    case True
    then have "es ! 2 = []" using es(2) by (simp add: first_invalid_none)
    then obtain q where "Atoi (ti_Value T (fm_inputs m ! 2)) = Some q" using es(4) by blast
    then show ?thesis using assms es True by (simp add: form_submit_def form_ok_def Let_def index_simps)
  next
    case False
    then have b: "0 \<le> first_invalid 0 es" "first_invalid 0 es < 5" "es ! nat (first_invalid 0 es) \<noteq> []"
      using first_invalid_bound [of 0 es] es(2) by auto
    have "nat (first_invalid 0 es) \<noteq> 4" using b(3) es(3) by metis
    then have "first_invalid 0 es < 4" using b by linarith
    then show ?thesis using assms es b by (simp add: form_submit_def form_ok_def Let_def index_simps)
  qed
qed

lemma form_rest_ok: "form_ok m \<Longrightarrow> safe (form_rest T N key m) (\<lambda>r. form_ok (fst (snd r)))"
  unfolding form_rest_def
  by (intro safe_ifI) (auto simp: split_def form_ok_def [of m] intro: form_input_ok form_updateNotes_ok)

lemma form_key_ok: "form_ok m \<Longrightarrow> safe (form_key T N key m) (\<lambda>r. form_ok (fst (snd r)))"
  unfolding form_key_def Let_def
  apply (intro safe_ifI)
  apply (simp_all add: split_def newFormModel_ok form_moveFocus_ok form_updateNotes_ok form_submit_ok form_rest_ok)
  apply (auto simp: form_ok_def)
  done

lemma form_paste_ok: "form_ok m \<Longrightarrow> safe (form_paste T N content m) (\<lambda>r. form_ok (fst r))"
  unfolding form_paste_def
  by (intro safe_ifI) (auto simp: form_ok_def [of m] intro: form_input_ok form_updateNotes_ok)

lemma form_input_lines_total:
  "i + length xs \<le> 4 \<Longrightarrow> form_ok m \<Longrightarrow> safe (form_input_lines T S m i xs) (\<lambda>_. True)"
  by (induction xs arbitrary: i) (auto simp: index_simps form_ok_def formLabels_def)

lemma form_view_total: "form_ok m \<Longrightarrow> safe (form_view T N S m) (\<lambda>_. True)"
  using form_input_lines_total [of 0 "fm_inputs m" m T S]
  by (auto simp: form_view_def Let_def index_simps form_ok_def intro: safe_mono)

section \<open>The order table\<close>

definition table_ok :: "('i, 't) tableModel \<Rightarrow> bool" where
  "table_ok m \<longleftrightarrow> 0 \<le> tm_sortField m \<and> tm_sortField m < 3"

lemma applyRows_sortField [simp]: "tm_sortField (applyRows T B lower m) = tm_sortField m"
  by (simp add: applyRows_def Let_def)

lemma applyRows_ok [simp]: "table_ok (applyRows T B lower m) \<longleftrightarrow> table_ok m"
  by (simp add: table_ok_def)

lemma applyRows_rows:
  assumes "lawful_tables B"
  shows "tb_Rows B (tm_table (applyRows T B lower m)) =
    map (table_row (tm_columns m)) (shown_records lower (ti_Value T (tm_filter m)) (tm_sortField m) (tm_records m))"
  by (simp add: applyRows_def Let_def lawful_tablesD [OF assms])

lemma find_row_total: "[] \<notin> set rs \<Longrightarrow> safe (find_row order i rs) (\<lambda>_. True)"
  by (induction rs arbitrary: i) (auto simp: index_simps safe_if)

lemma table_row_nonempty: "table_row n r \<noteq> []"
  by (simp add: table_row_def)

lemma table_resize_ok:
  assumes "lawful_tables B" "table_ok m"
  shows "safe (table_resize T B lower w h m) table_ok"
proof -
  obtain n columns where c: "columns_for w = (n, columns)" by (cases "columns_for w")
  show ?thesis
    using assms(2)
    by (auto simp: table_resize_def Let_def c applyRows_rows [OF assms(1)] table_ok_def split: option.split
          intro!: safe_mono [OF find_row_total] dest!: sym [of "[]"] simp: table_row_nonempty)
qed

lemma newTableModel_ok: "lawful_tables B \<Longrightarrow> safe (newTableModel T B lower w h) table_ok"
  unfolding newTableModel_def by (rule table_resize_ok) (simp_all add: table_ok_def)

lemma table_key_ok: "table_ok m \<Longrightarrow> table_ok (snd (table_key T B lower key m))"
  by (simp add: table_key_def Let_def) (simp add: table_ok_def)

lemma table_paste_ok: "table_ok m \<Longrightarrow> table_ok (fst (table_paste T B lower content m))"
  by (simp add: table_paste_def split_def Let_def) (simp add: table_ok_def)

lemma table_view_total: "table_ok m \<Longrightarrow> safe (table_view T B S m) (\<lambda>_. True)"
  by (auto simp: table_view_def index_simps table_ok_def split: option.split)

section \<open>The event log\<close>

definition scrolling_ok :: "scrollingModel \<Rightarrow> bool" where
  "scrolling_ok m \<longleftrightarrow> sm_events m \<noteq> [] \<and> 0 \<le> sm_cursor m \<and> sm_cursor m < int (length (sm_events m))"

lemma scrolling_ok_update [simp]:
  "scrolling_ok (m\<lparr>sm_status := st\<rparr>) = scrolling_ok m" "scrolling_ok (m\<lparr>sm_generation := g\<rparr>) = scrolling_ok m"
  "scrolling_ok (m\<lparr>sm_remaining := n\<rparr>) = scrolling_ok m" "scrolling_ok (m\<lparr>sm_streaming := b\<rparr>) = scrolling_ok m"
  "scrolling_ok (m\<lparr>sm_follow := b\<rparr>) = scrolling_ok m"
  by (simp_all add: scrolling_ok_def)

lemma eventRow_total: "0 < n \<Longrightarrow> \<exists>row. eventRow n = Some row"
  by (simp add: eventRow_def get_at_def)

lemma event_rows_total: "\<forall>n \<in> set ns. 0 < n \<Longrightarrow> \<exists>rows. event_rows ns = Some rows \<and> length rows = length ns"
  using eventRow_total by (induction ns) fastforce+

lemma scrolling_reset_ok: "safe (scrolling_reset m) scrolling_ok"
proof -
  obtain rows where "event_rows [1..int initialEventCount] = Some rows" "length rows = 100"
    using event_rows_total [of "[1..int initialEventCount]"] by (auto simp: initialEventCount_def)
  then show ?thesis by (auto simp: scrolling_reset_def scrolling_ok_def)
qed

lemma newScrollingModel_ok: "safe (newScrollingModel w h) scrolling_ok"
  by (simp add: newScrollingModel_def scrolling_reset_ok)

lemma scrolling_appendEvent_ok:
  assumes "scrolling_ok m"
  shows "safe (scrolling_appendEvent m) scrolling_ok"
  using eventRow_total [of "int (length (sm_events m)) + 1"] assms
  by (auto simp: scrolling_appendEvent_def scrolling_ok_def Let_def)

lemma scrolling_clampCursor_ok: "sm_events m \<noteq> [] \<Longrightarrow> scrolling_ok (scrolling_clampCursor m)"
  by (cases "sm_events m") (auto simp: scrolling_clampCursor_def scrolling_ok_def)

lemma scrolling_move_ok: "scrolling_ok m \<Longrightarrow> scrolling_ok (scrolling_move d m)"
  using scrolling_clampCursor_ok [of "m\<lparr>sm_cursor := sm_cursor m + d\<rparr>"]
  by (simp add: scrolling_move_def Let_def scrolling_ok_def)

lemma scrolling_tick_ok: "scrolling_ok m \<Longrightarrow> safe (scrolling_tick g m) (\<lambda>r. scrolling_ok (fst r))"
  unfolding scrolling_tick_def Let_def by (simp add: safe_if if_distrib [of fst] scrolling_appendEvent_ok)

lemma scrolling_ends_ok:
  "scrolling_ok m \<Longrightarrow> scrolling_ok (m\<lparr>sm_cursor := 0\<rparr>)"
  "scrolling_ok m \<Longrightarrow> scrolling_ok (m\<lparr>sm_cursor := int (length (sm_events m)) - 1\<rparr>)"
  "scrolling_ok m \<Longrightarrow> scrolling_ok (m\<lparr>sm_follow := b, sm_cursor := int (length (sm_events m)) - 1\<rparr>)"
  by (cases "sm_events m"; simp add: scrolling_ok_def)+

lemma scrolling_key_ok: "scrolling_ok m \<Longrightarrow> safe (scrolling_key key m) (\<lambda>r. scrolling_ok (fst (snd r)))"
  unfolding scrolling_key_def Let_def
  by (intro safe_ifI)
    (simp_all add: scrolling_move_ok scrolling_appendEvent_ok scrolling_reset_ok scrolling_ends_ok)

lemma scrolling_resize_ok: "scrolling_ok m \<Longrightarrow> scrolling_ok (scrolling_resize w h m)"
  unfolding scrolling_resize_def by (rule scrolling_clampCursor_ok) (simp add: scrolling_ok_def)

lemma scrolling_rows_total:
  "\<forall>i \<in> set is. 0 \<le> i \<and> i < int (length (sm_events m)) \<Longrightarrow> safe (scrolling_rows S m is) (\<lambda>_. True)"
  by (induction "is") (auto simp: index_simps)

lemma scrolling_view_total: "scrolling_ok m \<Longrightarrow> safe (scrolling_view S m) (\<lambda>_. True)"
  unfolding scrolling_view_def Let_def
  by (auto intro!: safe_mono [OF scrolling_rows_total] simp: scrolling_ok_def scrolling_pageSize_def)

section \<open>Partial updates and the cursor\<close>

definition partial_ok :: "partialModel \<Rightarrow> bool" where
  "partial_ok m \<longleftrightarrow> 0 \<le> pm_step m"

lemma partial_ok_steps:
  "partial_ok (newPartialModel w h)"
  "partial_ok m \<Longrightarrow> partial_ok (fst (partial_tick g m))"
  "partial_ok m \<Longrightarrow> partial_ok (fst (snd (partial_key key m)))"
  "partial_ok m \<Longrightarrow> partial_ok (partial_resize w h m)"
  by (simp_all add: partial_ok_def newPartialModel_def partial_tick_def partial_key_def partial_start_def
        partial_resize_def Let_def)

lemma partial_view_total: "partial_ok m \<Longrightarrow> safe (partial_view S m) (\<lambda>_. True)"
  by (auto simp: partial_view_def partial_ok_def progressView_def repeat_string_def index_simps Let_def go_quo_def
        split: partialMode.split)

definition cursor_ok :: "cursorModel \<Rightarrow> bool" where
  "cursor_ok m \<longleftrightarrow> 1 \<le> cm_width m \<and> 1 \<le> cm_height m \<and> 0 \<le> cm_column m \<and> cm_column m < cm_width m \<and>
     0 \<le> cm_row m \<and> cm_row m < cm_height m"

lemma cursor_clamp_ok: "1 \<le> cm_width m \<Longrightarrow> 1 \<le> cm_height m \<Longrightarrow> cursor_ok (cursor_clamp m)"
  by (auto simp: cursor_ok_def cursor_clamp_def)

lemma cursor_size [simp]:
  "cm_width (cursor_clamp m) = cm_width m" "cm_height (cursor_clamp m) = cm_height m"
  "cm_width (cursor_center m) = cm_width m" "cm_height (cursor_center m) = cm_height m"
  "cm_width (cursor_move dx dy m) = cm_width m" "cm_height (cursor_move dx dy m) = cm_height m"
  by (simp_all add: cursor_clamp_def cursor_center_def cursor_move_def)

lemma cursor_resize_ok: "cursor_ok (cursor_resize w h m)"
  using cursor_clamp_ok [of "m\<lparr>cm_width := max 1 w, cm_height := max 1 h\<rparr>"]
  by (simp add: cursor_resize_def Let_def cursor_ok_def)

lemma half_below: "1 \<le> n \<Longrightarrow> (n - 1) div 2 < n" for n :: int
  by presburger

lemma cursor_center_ok: "cursor_ok m \<Longrightarrow> cursor_ok (cursor_center m)"
  using half_below [of "cm_width m"] half_below [of "cm_height m"] by (simp add: cursor_center_def cursor_ok_def)

lemma newCursorModel_ok: "cursor_ok (newCursorModel w h)"
  unfolding newCursorModel_def by (rule cursor_center_ok [OF cursor_resize_ok])

lemma cursor_key_ok: "cursor_ok m \<Longrightarrow> cursor_ok (snd (cursor_key K key m))"
  using cursor_clamp_ok
  unfolding cursor_key_def Let_def cursor_ok_def [of m] if_distrib [of snd] snd_conv
  by (intro if_predI [of _ cursor_ok]) (simp_all add: cursor_ok_def)

lemma grid_lines_total:
  "0 \<le> width \<Longrightarrow> 0 \<le> cm_column m - left \<Longrightarrow> cm_column m - left < width \<Longrightarrow>
     safe (grid_lines m left width ys) (\<lambda>_. True)"
  by (induction ys) (auto simp: grid_line_def go_simps index_simps safe_if)

lemma cursor_view_total:
  assumes "cursor_ok m"
  shows "safe (cursor_view S m) (\<lambda>_. True)"
proof -
  define g where "g = min (cm_width m) 40"
  define left where "left = min (max 0 (cm_column m - go_quo g 2)) (cm_width m - g)"
  have "0 \<le> g" "0 \<le> cm_column m - left" "cm_column m - left < g"
    using assms by (auto simp: cursor_ok_def g_def left_def)
  then show ?thesis
    unfolding cursor_view_def Let_def g_def [symmetric] left_def [symmetric]
    by (auto intro: safe_mono [OF grid_lines_total])
qed

section \<open>The application\<close>

definition login_ok :: "'i text_inputs \<Rightarrow> 'i list \<Rightarrow> int \<Rightarrow> bool" where
  "login_ok T inputs focus \<longleftrightarrow> length inputs = 2 \<and> 0 \<le> focus \<and> focus < 2 \<and> (\<forall>x \<in> set inputs. 0 \<le> ti_Width T x)"

definition app_ok :: "('i, 'n, 't) app_lib \<Rightarrow> ('i, 'n, 't) app \<Rightarrow> bool" where
  "app_ok L a \<longleftrightarrow> login_ok (al_inputs L) (ap_loginInputs a) (ap_loginFocus a) \<and>
     0 \<le> ap_selected a \<and> ap_selected a < 13 \<and> form_ok (ap_form a) \<and> table_ok (ap_table a) \<and>
     scrolling_ok (ap_scrolling a) \<and> partial_ok (ap_partial a) \<and> cursor_ok (ap_cursor a)"

definition lawful :: "('i, 'n, 't) app_lib \<Rightarrow> bool" where
  "lawful L \<longleftrightarrow> lawful_inputs (al_inputs L) \<and> lawful_tables (al_tables L)"

definition plain_lib :: "(string \<times> int, string, string list list \<times> int) app_lib" where
  "plain_lib = \<lparr>al_inputs = plain_inputs, al_areas = plain_areas, al_tables = plain_tables, al_lower = (\<lambda>s. s),
     al_quote = (\<lambda>s. s), al_keys = \<lparr>kc_Esc = 27, kc_Left = 200, kc_Right = 201, kc_Up = 202, kc_Down = 203,
       kc_Home = 204, kc_F1 = 301, kc_F2 = 302, kc_F3 = 303, kc_F4 = 304, kc_F13 = 313, kc_F24 = 324, kc_ModCtrl = 4,
       kc_ModAlt = 2, kc_ModShift = 1, kc_ModMeta = 8\<rparr>\<rparr>"

lemma lawful_plain_lib: "lawful plain_lib"
  by (simp add: lawful_def plain_lib_def lawful_plain)

lemma lawfulD: "lawful L \<Longrightarrow> lawful_inputs (al_inputs L)" "lawful L \<Longrightarrow> lawful_tables (al_tables L)"
  by (simp_all add: lawful_def)

lemma login_ok_update:
  assumes "lawful_inputs T" "login_ok T inputs focus" "0 \<le> i" "i < 2" "0 \<le> ti_Width T x"
  shows "login_ok T (inputs[nat i := x]) focus"
  using assms set_update_subset_insert [of inputs "nat i" x] by (auto simp: login_ok_def)

lemma login_ok_map:
  assumes "login_ok T inputs focus" "\<And>x. 0 \<le> ti_Width T x \<Longrightarrow> 0 \<le> ti_Width T (f x)"
  shows "login_ok T (map f inputs) focus"
  using assms by (auto simp: login_ok_def)

lemma focusLogin_ok:
  assumes "lawful_inputs T" "login_ok T (ap_loginInputs a) (ap_loginFocus a)" "0 \<le> i" "i < 2"
  shows "safe (focusLogin T i a) (\<lambda>a'. login_ok T (ap_loginInputs a') (ap_loginFocus a') \<and>
     (\<exists>f is. a' = a\<lparr>ap_loginFocus := f, ap_loginInputs := is\<rparr>))"
proof -
  have b: "login_ok T (map (ti_Blur T) (ap_loginInputs a)) i"
    using assms by (auto simp: login_ok_def lawful_inputsD [OF assms(1)])
  then have "0 \<le> ti_Width T (map (ti_Blur T) (ap_loginInputs a) ! nat i)"
    using assms(3,4) nth_mem [of "nat i" "map (ti_Blur T) (ap_loginInputs a)"]
    by (metis (no_types, lifting) login_ok_def nat_less_iff of_nat_numeral)
  then have "login_ok T ((map (ti_Blur T) (ap_loginInputs a))
      [nat i := fst (ti_Focus T (map (ti_Blur T) (ap_loginInputs a) ! nat i))]) i"
    using b assms by (intro login_ok_update) (simp_all add: lawful_inputsD [OF assms(1)])
  then show ?thesis
    using b assms(3,4) by (auto simp: focusLogin_def Let_def index_simps login_ok_def)
qed

end
