(* ===== verification/Ref_App_Safe.thy ===== *)
theory Ref_App_Safe
  imports Ref_Safe
begin

text \<open>
  The application (\<open>reference/application.go\<close>) never panics: \<open>New\<close> establishes \<open>app_ok\<close>, every message keeps it,
  and under it the view is defined. Also who may leave the login screen.
\<close>

section \<open>Login\<close>

lemma focus_app_ok:
  assumes "lawful L" "app_ok L a" "0 \<le> i" "i < 2"
  shows "safe (focusLogin (al_inputs L) i a) (app_ok L)"
proof (rule safe_mono [OF focusLogin_ok [OF lawfulD(1) [OF assms(1)] _ assms(3,4)]])
  show "login_ok (al_inputs L) (ap_loginInputs a) (ap_loginFocus a)" using assms(2) by (simp add: app_ok_def)
qed (use assms(2) in \<open>auto simp: app_ok_def\<close>)

lemma app_ok_message [simp]: "app_ok L (a\<lparr>ap_message := s\<rparr>) = app_ok L a"
  by (simp add: app_ok_def)

lemma app_ok_page [simp]: "app_ok L (a\<lparr>ap_page := p\<rparr>) = app_ok L a"
  by (simp add: app_ok_def)

lemma app_ok_inputs:
  "app_ok L a \<Longrightarrow> login_ok (al_inputs L) inputs (ap_loginFocus a) \<Longrightarrow> app_ok L (a\<lparr>ap_loginInputs := inputs\<rparr>)"
  by (simp add: app_ok_def)

lemma login_entry:
  assumes "app_ok L a" "0 \<le> i" "i < 2"
  shows "safe (get_at (ap_loginInputs a) i) (\<lambda>x. 0 \<le> ti_Width (al_inputs L) x)"
  using assms nth_mem [of "nat i" "ap_loginInputs a"]
  by (auto simp: index_simps app_ok_def login_ok_def)

lemma login_set:
  assumes "lawful L" "app_ok L a" "0 \<le> i" "i < 2" "0 \<le> ti_Width (al_inputs L) x"
  shows "safe (set_at (ap_loginInputs a) i x) (\<lambda>inputs. app_ok L (a\<lparr>ap_loginInputs := inputs\<rparr>))"
  using assms
  by (auto simp: index_simps app_ok_def login_ok_def [of _ "ap_loginInputs a"]
        intro!: login_ok_update [OF lawfulD(1)])

lemma resetLogin_ok:
  assumes "lawful L" "app_ok L a"
  shows "safe (resetLogin (al_inputs L) s a) (app_ok L)"
proof -
  have "app_ok L (a\<lparr>ap_loginInputs := map (ti_SetValue (al_inputs L) []) (ap_loginInputs a)\<rparr>)"
    using assms by (auto simp: app_ok_def lawfulD lawful_inputsD intro!: login_ok_map)
  then show ?thesis using assms(1) by (simp add: resetLogin_def focus_app_ok)
qed

lemma authenticate_ok:
  assumes L: "lawful L" and a: "app_ok L a"
  shows "safe (authenticate (al_inputs L) a) (app_ok L)"
proof -
  note T = lawful_inputsD [OF lawfulD(1) [OF L]]
  have 2: "length (ap_loginInputs a) = 2" using a by (simp add: app_ok_def login_ok_def)
  have w: "0 \<le> ti_Width (al_inputs L) (ap_loginInputs a ! 0)" "0 \<le> ti_Width (al_inputs L) (ap_loginInputs a ! 1)"
    using login_entry [OF a, of 0] login_entry [OF a, of 1] by (simp_all add: index_simps)
  have i1: "app_ok L (a\<lparr>ap_loginInputs := (ap_loginInputs a)[Suc 0 := x]\<rparr>)" if "0 \<le> ti_Width (al_inputs L) x" for x
    using login_set [OF L a, of 1 x] that by (simp add: index_simps)
  have i0: "app_ok L (a\<lparr>ap_loginInputs := (ap_loginInputs a)[0 := x]\<rparr>)" if "0 \<le> ti_Width (al_inputs L) x" for x
    using login_set [OF L a, of 0 x] that by (simp add: index_simps)
  have i01: "app_ok L (a\<lparr>ap_loginInputs := (ap_loginInputs a)[0 := x, Suc 0 := y]\<rparr>)"
    if "0 \<le> ti_Width (al_inputs L) x" "0 \<le> ti_Width (al_inputs L) y" for x y
    using login_set [OF L i0 [OF that(1)], of 1 y] that 2 by (simp add: index_simps)
  show ?thesis
    unfolding authenticate_def
    using focus_app_ok [OF L i1, of "ti_SetValue (al_inputs L) [] (ap_loginInputs a ! 1)" 0]
      i01 [of "ti_Blur (al_inputs L) (ap_loginInputs a ! 0)" "ti_Blur (al_inputs L) (ap_loginInputs a ! 1)"] w
    by (simp add: 2 index_simps safe_if T) (simp add: app_ok_def)
qed

lemma login_input_ok:
  assumes L: "lawful L" and a: "app_ok L a"
  shows "safe (login_input (al_inputs L) msg a) (\<lambda>r. app_ok L (fst r))"
proof -
  have f: "0 \<le> ap_loginFocus a" "ap_loginFocus a < 2" using a by (simp_all add: app_ok_def login_ok_def)
  show ?thesis
    unfolding login_input_def
    using login_entry [OF a f] login_set [OF L a f]
    by (auto simp: safe_prod lawful_inputsD [OF lawfulD(1) [OF L]] elim!: safe_mono)
qed

lemma updateLogin_ok:
  assumes L: "lawful L" and a: "app_ok L a"
  shows "safe (updateLogin (al_inputs L) key a) (\<lambda>r. app_ok L (fst r))"
proof -
  have n: "int (length (ap_loginInputs a)) = 2" and f: "0 \<le> ap_loginFocus a" "ap_loginFocus a < 2"
    using a by (simp_all add: app_ok_def login_ok_def)
  show ?thesis
    unfolding updateLogin_def Let_def n
    using f by (intro safe_ifI)
      (simp_all add: focus_app_ok [OF L a] authenticate_ok [OF L a] resetLogin_ok [OF L a] login_input_ok [OF L a])
qed

section \<open>The menu\<close>

lemma menuItems_count [simp]: "length menuItems = 13"
  by (simp add: menuItems_def)

lemma selected_message_ok:
  "app_ok L a \<Longrightarrow> safe (selected_message a) (app_ok L)"
  by (simp add: selected_message_def index_simps app_ok_def [of _ a] flip: app_ok_message) (simp add: app_ok_def)

lemma open_page_ok:
  assumes L: "lawful L" and a: "app_ok L a"
  shows "safe (open_page L a) (\<lambda>r. app_ok L (fst r))"
proof -
  note parts = newTableModel_ok [OF lawfulD(2) [OF L]] newScrollingModel_ok newFormModel_ok newCursorModel_ok
    partial_ok_steps
  show ?thesis
    unfolding open_page_def Let_def
    apply (intro safe_ifI)
    apply (simp_all add: selected_message_ok [OF a] a)
    apply (use a in \<open>simp_all add: app_ok_def parts\<close>)
    done
qed

lemma menu_digit_bound: "menu_digit s = Some i \<Longrightarrow> 0 \<le> i \<and> i < 9"
  by (auto simp: menu_digit_def Let_def split: list.splits if_splits)

lemma updateMenu_ok:
  assumes L: "lawful L" and a: "app_ok L a"
  shows "safe (updateMenu L key a) (\<lambda>r. app_ok L (fst r))"
proof -
  have sel: "0 \<le> ap_selected a" "ap_selected a < 13" using a by (simp_all add: app_ok_def)
  have move: "app_ok L (a\<lparr>ap_selected := i\<rparr>)" if "0 \<le> i" "i < 13" for i
    using that a by (simp add: app_ok_def)
  have r: "0 \<le> (ap_selected a + 12) mod 13" "(ap_selected a + 12) mod 13 < 13"
    "0 \<le> (ap_selected a + 1) mod 13" "(ap_selected a + 1) mod 13 < 13" by simp_all
  have digit: "safe (selected_message (a\<lparr>ap_selected := i\<rparr>)) (app_ok L)" if "menu_digit s = Some i" for s i
    using menu_digit_bound [OF that] by (intro selected_message_ok move) simp_all
  show ?thesis
    unfolding updateMenu_def Let_def
    apply (intro safe_ifI)
    using sel
    apply (simp_all add: move resetLogin_ok [OF L] a open_page_ok [OF L a])
    apply (simp add: a digit split: option.split)
    done
qed

section \<open>Messages\<close>

lemma app_resize_ok:
  assumes L: "lawful L" and a: "app_ok L a"
  shows "safe (app_resize L w h a) (app_ok L)"
proof -
  have t: "safe (table_resize (al_inputs L) (al_tables L) (al_lower L) w h (ap_table a)) table_ok"
    using a by (simp add: table_resize_ok [OF lawfulD(2) [OF L]] app_ok_def)
  show ?thesis
    unfolding app_resize_def Let_def
    by (rule safe_ifI; simp add: a)
      (rule safe_mono [OF t], use a in
        \<open>simp add: app_ok_def form_resize_ok scrolling_resize_ok partial_ok_steps cursor_resize_ok login_ok_map
           lawful_inputsD [OF lawfulD(1) [OF L]]\<close>)
qed

lemma app_ok_page_models:
  assumes "app_ok L a"
  shows "form_ok f \<Longrightarrow> app_ok L (a\<lparr>ap_form := f\<rparr>)" "table_ok t \<Longrightarrow> app_ok L (a\<lparr>ap_table := t\<rparr>)"
    "scrolling_ok s \<Longrightarrow> app_ok L (a\<lparr>ap_scrolling := s\<rparr>)" "partial_ok p \<Longrightarrow> app_ok L (a\<lparr>ap_partial := p\<rparr>)"
    "cursor_ok c \<Longrightarrow> app_ok L (a\<lparr>ap_cursor := c\<rparr>)" "app_ok L (a\<lparr>ap_keys := k\<rparr>)"
    "app_ok L (a\<lparr>ap_longRunning := l\<rparr>)" "app_ok L (a\<lparr>ap_resizeDemo := r\<rparr>)" "app_ok L (a\<lparr>ap_unicode := u\<rparr>)"
    "app_ok L (a\<lparr>ap_bellENQ := b\<rparr>)" "app_ok L (a\<lparr>ap_runErr := e\<rparr>)"
  using assms by (simp_all add: app_ok_def)

lemma leave_ok [simp]: "app_ok L (leave back name a) = app_ok L a"
  by (simp add: leave_def completeScenario_def)

lemma app_ok_parts:
  assumes "app_ok L a"
  shows "form_ok (ap_form a)" "table_ok (ap_table a)" "scrolling_ok (ap_scrolling a)" "partial_ok (ap_partial a)"
    "cursor_ok (ap_cursor a)"
  using assms by (simp_all add: app_ok_def)

lemma updatePaste_ok:
  assumes L: "lawful L" and a: "app_ok L a"
  shows "safe (updatePaste L s a) (\<lambda>r. app_ok L (fst r))"
proof -
  note parts = app_ok_parts [OF a] and models = app_ok_page_models [OF a]
  have f: "safe (form_paste (al_inputs L) (al_areas L) s (ap_form a)) (\<lambda>r. app_ok L (a\<lparr>ap_form := fst r\<rparr>))"
    by (rule safe_mono [OF form_paste_ok [OF parts(1)]]) (rule models)
  show ?thesis
    unfolding updatePaste_def Let_def
    by (cases "ap_page a") (simp_all add: safe_prod split_def login_input_ok [OF L a] f a models table_paste_ok parts)
qed

lemma page_key_ok:
  assumes L: "lawful L" and a: "app_ok L a"
  shows "safe (page_key L key a) (\<lambda>r. app_ok L (fst r))"
proof -
  note parts = app_ok_parts [OF a] and models = app_ok_page_models [OF a]
  have f: "safe (form_key (al_inputs L) (al_areas L) key (ap_form a)) (\<lambda>r. app_ok L (a\<lparr>ap_form := fst (snd r)\<rparr>))"
    by (rule safe_mono [OF form_key_ok [OF parts(1)]]) (rule models)
  have s: "safe (scrolling_key (kp_String key) (ap_scrolling a)) (\<lambda>r. app_ok L (a\<lparr>ap_scrolling := fst (snd r)\<rparr>))"
    by (rule safe_mono [OF scrolling_key_ok [OF parts(3)]]) (rule models)
  show ?thesis
    unfolding page_key_def Let_def
    by (cases "ap_page a")
      (simp_all add: safe_prod split_def updateLogin_ok [OF L a] updateMenu_ok [OF L a] f s a models table_key_ok
        cursor_key_ok partial_ok_steps parts)
qed

lemma app_Update_ok:
  assumes L: "lawful L" and a: "app_ok L a"
  shows "safe (app_Update L msg a) (\<lambda>r. app_ok L (fst r))"
proof -
  note parts = app_ok_parts [OF a] and models = app_ok_page_models [OF a]
  have s: "safe (scrolling_tick g (ap_scrolling a)) (\<lambda>r. app_ok L (a\<lparr>ap_scrolling := fst r\<rparr>))" for g
    by (rule safe_mono [OF scrolling_tick_ok [OF parts(3)]]) (rule models)
  have v: "app_ok L (fst (finishVTTest e a))" for e
    by (auto simp: finishVTTest_def a models split: option.split vttest_error.split)
  show ?thesis
    unfolding app_Update_def Let_def
    by (cases msg) (simp_all add: safe_prod split_def app_resize_ok [OF L a] page_key_ok [OF L a]
      updatePaste_ok [OF L a] s v a models partial_ok_steps parts)
qed

lemma New_application_ok:
  assumes "lawful L"
  shows "safe (New_application L w h c) (\<lambda>r. case r of Inl _ \<Rightarrow> True
    | Inr a \<Rightarrow> app_ok L a \<and> ap_page a = PageLogin \<and> ap_credentials a = c)"
proof -
  note T = lawful_inputsD [OF lawfulD(1) [OF assms]]
  have t: "safe (newTableModel (al_inputs L) (al_tables L) (al_lower L) w h) (\<lambda>t. table_ok t)"
    by (rule newTableModel_ok [OF lawfulD(2) [OF assms]])
  have s: "safe (newScrollingModel w h) (\<lambda>s. scrolling_ok s)" by (rule newScrollingModel_ok)
  show ?thesis
    unfolding New_application_def Let_def
    by (cases "Credentials_Validate c")
      (auto simp: app_ok_def login_ok_def T newFormModel_ok newCursorModel_ok partial_ok_steps
        intro!: safe_mono [OF t] safe_mono [OF s])
qed

lemma app_View_ok:
  assumes "app_ok L a"
  shows "safe (app_View L S a) (\<lambda>_. True)"
proof -
  note parts = app_ok_parts [OF assms]
  have 2: "length (ap_loginInputs a) = 2" using assms by (simp add: app_ok_def login_ok_def)
  have "safe (page_body L S a) (\<lambda>_. True)"
    unfolding page_body_def
    using login_entry [OF assms, of 0] login_entry [OF assms, of 1]
    by (cases "ap_page a")
      (simp_all add: viewLogin_def rule_def repeat_string_def index_simps 2 form_view_total table_view_total
        scrolling_view_total partial_view_total cursor_view_total parts)
  then show ?thesis by (simp add: app_View_def)
qed

lemma New_application_login:
  assumes "lawful L" "0 < w" "0 < h" "Credentials_Validate c = None"
  shows "\<exists>a. New_application L w h c = Some (Inr a) \<and> ap_page a = PageLogin \<and> ap_loginFocus a = 0 \<and>
    ap_credentials a = c \<and> ap_width a = w \<and>
    (\<exists>n. ap_loginInputs a =
      [fst (ti_Focus (al_inputs L) (ti_SetWidth (al_inputs L) n (ti_new (al_inputs L) (login_settings False)))),
       ti_SetWidth (al_inputs L) n (ti_new (al_inputs L) (login_settings True))])"
proof -
  obtain t where "newTableModel (al_inputs L) (al_tables L) (al_lower L) w h = Some t"
    using newTableModel_ok [OF lawfulD(2) [OF assms(1)]] by (rule safeE)
  moreover obtain s where "newScrollingModel w h = Some s" using newScrollingModel_ok by (rule safeE)
  ultimately show ?thesis
    using assms(2-4) by (auto simp: New_application_def Let_def lawful_inputsD [OF lawfulD(1) [OF assms(1)]])
qed

end
