(* ===== verification/Ref_Props.thy ===== *)
theory Ref_Props
  imports Ref_App_Safe
begin

text \<open>
  The properties of the reference application as a whole: runs of \<open>Update\<close> from \<open>New\<close>, and the login gate.
\<close>

subsection \<open>Runs\<close>

definition app_step :: "('i, 'n, 't) app_lib \<Rightarrow> tui_msg \<Rightarrow> ('i, 'n, 't) app \<Rightarrow> ('i, 'n, 't) app option" where
  "app_step L msg a = map_option fst (app_Update L msg a)"

text \<open>The credentials are never written: pages and login only replace other fields.\<close>

lemma focusLogin_credentials: "focusLogin T i a = Some a' \<Longrightarrow> ap_credentials a' = ap_credentials a"
  by (auto simp: focusLogin_def Let_def bind_Some_iff)

lemma resetLogin_credentials: "resetLogin T s a = Some a' \<Longrightarrow> ap_credentials a' = ap_credentials a"
  by (auto simp: resetLogin_def bind_Some_iff dest!: focusLogin_credentials)

lemma authenticate_credentials: "authenticate T a = Some a' \<Longrightarrow> ap_credentials a' = ap_credentials a"
  by (auto simp: authenticate_def bind_Some_iff split: if_splits dest!: focusLogin_credentials)

lemma login_input_frame: "login_input T msg a = Some (a', c) \<Longrightarrow> ap_credentials a' = ap_credentials a \<and> ap_page a' = ap_page a"
  by (auto simp: login_input_def bind_Some_iff split_def Let_def)

lemma leave_frame: "ap_credentials (leave b s a) = ap_credentials a"
  by (simp add: leave_def completeScenario_def)

lemma updateLogin_credentials: "updateLogin T key a = Some (a', c) \<Longrightarrow> ap_credentials a' = ap_credentials a"
  by (auto simp: updateLogin_def Let_def split: if_splits
      dest!: focusLogin_credentials authenticate_credentials resetLogin_credentials login_input_frame)

lemma open_page_credentials: "open_page L a = Some (a', c) \<Longrightarrow> ap_credentials a' = ap_credentials a"
  by (auto simp: open_page_def selected_message_def Let_def bind_Some_iff split: if_splits)

lemma updateMenu_credentials: "updateMenu L key a = Some (a', c) \<Longrightarrow> ap_credentials a' = ap_credentials a"
  by (auto simp: updateMenu_def Let_def selected_message_def bind_Some_iff split: if_splits option.splits
      dest!: resetLogin_credentials open_page_credentials)

lemma page_key_credentials: "page_key L key a = Some (a', c) \<Longrightarrow> ap_credentials a' = ap_credentials a"
  by (cases "ap_page a") (auto simp: page_key_def Let_def bind_Some_iff leave_frame split: prod.splits
      dest!: updateLogin_credentials updateMenu_credentials)

lemma updatePaste_credentials: "updatePaste L s a = Some (a', c) \<Longrightarrow> ap_credentials a' = ap_credentials a"
  by (cases "ap_page a") (auto simp: updatePaste_def Let_def bind_Some_iff split: prod.splits dest!: login_input_frame)

lemma app_step_credentials: "app_step L msg a = Some a' \<Longrightarrow> ap_credentials a' = ap_credentials a"
  by (cases msg) (auto simp: app_step_def app_Update_def app_resize_def finishVTTest_def Let_def bind_Some_iff
      split: if_splits prod.splits option.splits vttest_error.splits dest!: page_key_credentials updatePaste_credentials)

text \<open>The application is an event machine: no message makes it panic, and it keeps the credentials.\<close>

interpretation reference: event_machine "app_step L" "\<lambda>a. lawful L \<and> app_ok L a" "\<lambda>_. True"
  "\<lambda>a a'. ap_credentials a' = ap_credentials a" for L :: "('i, 'n, 't) app_lib"
proof
  show "safe (app_step L msg a) (\<lambda>a'. (lawful L \<and> app_ok L a') \<and> ap_credentials a' = ap_credentials a)"
    if "lawful L \<and> app_ok L a" for msg and a :: "('i, 'n, 't) app"
    using app_Update_ok [of L a msg] that app_step_credentials [of L msg a]
    by (cases "app_Update L msg a") (auto simp: app_step_def)
qed auto

text \<open>
  C34: From \<open>New\<close> with any dimensions and credentials, and through any sequence of messages (keys,
  pastes, window sizes, ticks with any generation, results of VTTEST), no page indexes out of range or
  repeats a string a negative number of times: every update and every view of every reachable state is
  defined, and the accepted credentials are those \<open>New\<close> was given. The component libraries return the
  width and the rows they were given.
\<close>

theorem reference_never_panics:
  assumes "lawful L"
  shows "\<exists>r. New_application L width height c = Some r \<and>
    (\<forall>a msgs. r = Inr a \<longrightarrow> (\<exists>a'. for_each msgs (app_step L) a = Some a' \<and>
        ap_credentials a' = c \<and> (\<forall>S. app_View L S a' \<noteq> None)))"
proof -
  obtain r where r: "New_application L width height c = Some r"
    "case r of Inl _ \<Rightarrow> True | Inr a \<Rightarrow> app_ok L a \<and> ap_page a = PageLogin \<and> ap_credentials a = c"
    using New_application_ok [OF assms, of width height c] by (auto elim: safeE)
  have "\<exists>a'. for_each msgs (app_step L) a = Some a' \<and> ap_credentials a' = c \<and> (\<forall>S. app_View L S a' \<noteq> None)"
    if "r = Inr a" for a msgs
  proof -
    have "app_ok L a" "ap_credentials a = c" using r(2) that by simp_all
    then obtain a' where a': "for_each msgs (app_step L) a = Some a'" "app_ok L a'" "ap_credentials a' = c"
      using reference.run_total [of msgs L a] assms by auto
    then have "\<forall>S. app_View L S a' \<noteq> None" using app_View_ok [OF a'(2)] by (auto simp: safe_ex)
    then show ?thesis using a' by blast
  qed
  then show ?thesis using r(1) by blast
qed

theorem reference_never_panics_witness:
  "lawful plain_lib \<and>
   (\<exists>a. New_application plain_lib 80 24 \<lparr>cr_Username = ''wms'', cr_Password = ''secret''\<rparr> = Some (Inr a) \<and>
     (\<forall>msgs. \<exists>a'. for_each msgs (app_step plain_lib) a = Some a' \<and> (\<forall>S. app_View plain_lib S a' \<noteq> None)))"
proof -
  let ?c = "\<lparr>cr_Username = ''wms'', cr_Password = ''secret''\<rparr>"
  have "Credentials_Validate ?c = None" by code_simp
  then obtain a where a: "New_application plain_lib 80 24 ?c = Some (Inr a)"
    using New_application_login [OF lawful_plain_lib, of 80 24 ?c] by auto
  then show ?thesis using reference_never_panics [OF lawful_plain_lib, of 80 24 ?c] lawful_plain_lib by auto
qed

subsection \<open>The login gate\<close>

lemma focusLogin_values:
  assumes "lawful_inputs T" "focusLogin T i a = Some a'"
  shows "map (ti_Value T) (ap_loginInputs a') = map (ti_Value T) (ap_loginInputs a) \<and> ap_page a' = ap_page a \<and>
    ap_credentials a' = ap_credentials a"
proof -
  define b where "b = map (ti_Blur T) (ap_loginInputs a)"
  have v: "map (ti_Value T) (b[j := fst (ti_Focus T (b ! j))]) = map (ti_Value T) b" if "j < length b" for j
    using that by (simp add: map_update lawful_inputsD [OF assms(1)] list_update_same_conv)
  have "map (ti_Value T) b = map (ti_Value T) (ap_loginInputs a)"
    by (simp add: b_def o_def lawful_inputsD [OF assms(1)])
  then show ?thesis
    using assms(2) unfolding focusLogin_def Let_def b_def [symmetric]
    by (auto simp: bind_Some_iff set_at_def get_at_def v split: if_splits)
qed

lemma resetLogin_empty:
  assumes "lawful_inputs T" "resetLogin T s a = Some a'"
  shows "\<forall>x \<in> set (ap_loginInputs a'). ti_Value T x = []" "ap_page a' = ap_page a"
proof -
  obtain a1 where a1: "focusLogin T 0 (a\<lparr>ap_loginInputs := map (ti_SetValue T []) (ap_loginInputs a)\<rparr>) = Some a1"
    "a' = a1\<lparr>ap_message := s\<rparr>" using assms(2) by (auto simp: resetLogin_def bind_Some_iff)
  have v: "map (ti_Value T) (ap_loginInputs a1) = map (\<lambda>_. []) (ap_loginInputs a)"
    using focusLogin_values [OF assms(1) a1(1)] by (simp add: o_def lawful_inputsD [OF assms(1)])
  have "ti_Value T x = []" if "x \<in> set (ap_loginInputs a1)" for x
    using arg_cong [OF v, of set] that by (auto simp: image_constant_conv split: if_splits)
  then show "\<forall>x \<in> set (ap_loginInputs a'). ti_Value T x = []" "ap_page a' = ap_page a"
    using focusLogin_values [OF assms(1) a1(1)] a1(2) by simp_all
qed

lemma authenticate_page:
  assumes "lawful_inputs T" "authenticate T a = Some a'" "ap_page a = PageLogin" "ap_page a' \<noteq> PageLogin"
  shows "\<exists>u p. get_at (ap_loginInputs a) 0 = Some u \<and> get_at (ap_loginInputs a) 1 = Some p \<and>
    ti_Value T u = cr_Username (ap_credentials a) \<and> ti_Value T p = cr_Password (ap_credentials a) \<and>
    ap_page a' = PageMenu"
  using assms(2-4)
  by (auto simp: authenticate_def bind_Some_iff split: if_splits dest!: focusLogin_values [OF assms(1)])

definition holds_credentials :: "'i text_inputs \<Rightarrow> ('i, 'n, 't) app \<Rightarrow> bool" where
  "holds_credentials T a \<longleftrightarrow>
     (\<exists>u p. get_at (ap_loginInputs a) 0 = Some u \<and> get_at (ap_loginInputs a) 1 = Some p \<and>
        ti_Value T u = cr_Username (ap_credentials a) \<and> ti_Value T p = cr_Password (ap_credentials a))"

lemma login_input_page: "login_input T msg a = Some (a', c) \<Longrightarrow> ap_page a' = ap_page a"
  using login_input_frame by blast

lemma login_step:
  assumes "lawful L" "app_step L msg a = Some a'" "ap_page a = PageLogin" "ap_page a' \<noteq> PageLogin"
  shows "\<exists>key. msg = KeyPress key \<and> kp_String key \<in> {''enter'', ''f1''} \<and> holds_credentials (al_inputs L) a \<and>
    ap_page a' = PageMenu"
proof -
  note T = lawfulD(1) [OF assms(1)]
  obtain command where u: "app_Update L msg a = Some (a', command)" using assms(2) by (auto simp: app_step_def)
  obtain key where key: "msg = KeyPress key"
    using u assms(3,4)
    by (cases msg) (auto simp: app_Update_def app_resize_def finishVTTest_def updatePaste_def Let_def bind_Some_iff
        split: if_splits option.splits vttest_error.splits dest!: login_input_page)
  then have k: "updateLogin (al_inputs L) key a = Some (a', command)"
    using u assms(3,4) by (auto simp: app_Update_def page_key_def Let_def split: if_splits)
  have "kp_String key \<in> {''enter'', ''f1''} \<and> authenticate (al_inputs L) a = Some a'"
    using k assms(3,4)
    by (auto simp: updateLogin_def Let_def split: if_splits
        dest!: focusLogin_values [OF T] resetLogin_empty(2) [OF T] login_input_page)
  then show ?thesis
    using authenticate_page [OF T _ assms(3,4)] key by (auto simp: holds_credentials_def)
qed

lemma open_page_stays: "open_page L a = Some (a', c) \<Longrightarrow> ap_page a = PageMenu \<Longrightarrow> ap_page a' \<noteq> PageLogin"
  by (auto simp: open_page_def selected_message_def Let_def bind_Some_iff split: if_splits)

lemma leave_page: "ap_page (leave b s a) = (if b then PageMenu else ap_page a)"
  by (simp add: leave_def completeScenario_def)

lemma logout_step:
  assumes "lawful L" "app_step L msg a = Some a'" "ap_page a \<noteq> PageLogin" "ap_page a' = PageLogin"
  shows "\<forall>x \<in> set (ap_loginInputs a'). ti_Value (al_inputs L) x = []"
proof -
  note T = lawfulD(1) [OF assms(1)]
  obtain command where u: "app_Update L msg a = Some (a', command)" using assms(2) by (auto simp: app_step_def)
  obtain key where key: "page_key L key a = Some (a', command)"
    using u assms(3,4)
    by (cases msg; cases "ap_page a") (auto simp: app_Update_def app_resize_def finishVTTest_def updatePaste_def Let_def
        bind_Some_iff split_def split: if_splits option.splits vttest_error.splits)
  have "ap_page a = PageMenu"
    using key assms(3,4) by (cases "ap_page a") (auto simp: page_key_def Let_def bind_Some_iff leave_page split_def split: if_splits)
  then have "\<exists>s. resetLogin (al_inputs L) s (a\<lparr>ap_page := PageLogin\<rparr>) = Some a'"
    using key assms(4) by (auto simp: page_key_def updateMenu_def Let_def selected_message_def bind_Some_iff
        split: if_splits option.splits dest!: open_page_stays)
  then show ?thesis using resetLogin_empty(1) [OF T] by blast
qed

lemma new_credentials:
  assumes "New_application L width height c = Some (Inr a)"
  shows "cr_Username c \<noteq> [] \<and> cr_Password c \<noteq> []"
proof -
  have "Credentials_Validate c = None"
    using assms by (cases "Credentials_Validate c") (simp_all add: New_application_def Let_def split: if_splits)
  then show ?thesis by (simp add: Credentials_Validate_def split: if_splits)
qed

lemma holds_credentials_values:
  assumes "app_ok L b" "holds_credentials (al_inputs L) b"
  shows "map (ti_Value (al_inputs L)) (ap_loginInputs b) = [cr_Username (ap_credentials b), cr_Password (ap_credentials b)]"
proof -
  obtain u p where "ap_loginInputs b = [u, p]"
    using assms(1) by (auto simp: app_ok_def login_ok_def length_Suc_conv numeral_2_eq_2)
  then show ?thesis using assms(2) by (simp add: holds_credentials_def get_at_def)
qed

text \<open>In every run that ends past the login screen there was a login, and no sign-out after it.\<close>

lemma gate_run:
  assumes "lawful L" "ap_page a0 = PageLogin"
  shows "for_each msgs (app_step L) a0 = Some a \<Longrightarrow> ap_page a \<noteq> PageLogin \<Longrightarrow>
    \<exists>us key vs b. msgs = us @ KeyPress key # vs \<and> kp_String key \<in> {''enter'', ''f1''} \<and>
      for_each us (app_step L) a0 = Some b \<and> ap_page b = PageLogin \<and> holds_credentials (al_inputs L) b \<and>
      (\<forall>k \<le> length vs. \<exists>d. for_each (us @ KeyPress key # take k vs) (app_step L) a0 = Some d \<and> ap_page d \<noteq> PageLogin)"
proof (induction msgs arbitrary: a rule: rev_induct)
  case Nil
  then show ?case using assms(2) by simp
next
  case (snoc msg msgs)
  then obtain b where b: "for_each msgs (app_step L) a0 = Some b" "app_step L msg b = Some a"
    by (auto simp: for_each_append bind_Some_iff)
  show ?case
  proof (cases "ap_page b = PageLogin")
    case True
    then obtain key where "msg = KeyPress key" "kp_String key \<in> {''enter'', ''f1''}" "holds_credentials (al_inputs L) b"
      using login_step [OF assms(1) b(2) True snoc.prems(2)] by blast
    moreover have "for_each (msgs @ msg # take k []) (app_step L) a0 = Some a" for k using snoc.prems(1) by simp
    ultimately show ?thesis using b(1) True snoc.prems(2)
      by (intro exI [of _ msgs] exI [of _ key] exI [of _ "[]"] exI [of _ b]) simp
  next
    case False
    then obtain us key vs c where *: "msgs = us @ KeyPress key # vs" "kp_String key \<in> {''enter'', ''f1''}"
      "for_each us (app_step L) a0 = Some c" "ap_page c = PageLogin" "holds_credentials (al_inputs L) c"
      "\<forall>k \<le> length vs. \<exists>d. for_each (us @ KeyPress key # take k vs) (app_step L) a0 = Some d \<and> ap_page d \<noteq> PageLogin"
      using snoc.IH [OF b(1)] by blast
    have "\<exists>d. for_each (us @ KeyPress key # take k (vs @ [msg])) (app_step L) a0 = Some d \<and> ap_page d \<noteq> PageLogin"
      if "k \<le> length (vs @ [msg])" for k
    proof (cases "k \<le> length vs")
      case False
      then have "us @ KeyPress key # take k (vs @ [msg]) = msgs @ [msg]" using that *(1) by simp
      then show ?thesis using snoc.prems by metis
    qed (use *(6) in simp)
    then show ?thesis using *(1-5) snoc.prems
      by (intro exI [of _ us] exI [of _ key] exI [of _ "vs @ [msg]"] exI [of _ c]) simp
  qed
qed

text \<open>
  C35: Nobody gets past the login screen without the credentials: in every run from \<open>New\<close> that ends on
  another page, some key Enter or F1 was pressed on the login screen while its two fields held exactly the
  accepted user ID and password, and the application has not been back on the login screen since. A step
  that returns to the login screen leaves both fields empty, and the accepted ones are not empty, so signing
  out cannot be undone without typing them again.
\<close>

theorem login_required:
  assumes "lawful L" "New_application L width height c = Some (Inr a0)" "for_each msgs (app_step L) a0 = Some a"
    "ap_page a \<noteq> PageLogin"
  shows "(\<exists>us key vs b. msgs = us @ KeyPress key # vs \<and> kp_String key \<in> {''enter'', ''f1''} \<and>
      for_each us (app_step L) a0 = Some b \<and> ap_page b = PageLogin \<and>
      map (ti_Value (al_inputs L)) (ap_loginInputs b) = [cr_Username c, cr_Password c] \<and>
      (\<forall>k \<le> length vs. \<exists>d. for_each (us @ KeyPress key # take k vs) (app_step L) a0 = Some d \<and>
         ap_page d \<noteq> PageLogin)) \<and>
    (\<forall>msg a'. app_step L msg a = Some a' \<and> ap_page a' = PageLogin \<longrightarrow>
      map (ti_Value (al_inputs L)) (ap_loginInputs a') = [[], []]) \<and> cr_Username c \<noteq> [] \<and> cr_Password c \<noteq> []"
proof -
  have new: "app_ok L a0" "ap_page a0 = PageLogin" "ap_credentials a0 = c"
    using New_application_ok [OF assms(1), of width height c] assms(2) by (simp_all add: safe_def)
  have run: "app_ok L b \<and> ap_credentials b = c" if "for_each us (app_step L) a0 = Some b" for us b
    using reference.run_total [of us L a0] that new assms(1) by auto
  obtain us key vs b where *: "msgs = us @ KeyPress key # vs" "kp_String key \<in> {''enter'', ''f1''}"
    "for_each us (app_step L) a0 = Some b" "ap_page b = PageLogin" "holds_credentials (al_inputs L) b"
    "\<forall>k \<le> length vs. \<exists>d. for_each (us @ KeyPress key # take k vs) (app_step L) a0 = Some d \<and> ap_page d \<noteq> PageLogin"
    using gate_run [OF assms(1) new(2) assms(3,4)] by blast
  have v: "map (ti_Value (al_inputs L)) (ap_loginInputs b) = [cr_Username c, cr_Password c]"
    using holds_credentials_values [OF _ *(5)] run [OF *(3)] by simp
  have e: "map (ti_Value (al_inputs L)) (ap_loginInputs a') = [[], []]"
    if "app_step L msg a = Some a'" "ap_page a' = PageLogin" for msg a'
  proof -
    have "for_each (msgs @ [msg]) (app_step L) a0 = Some a'" using that(1) assms(3) by (simp add: for_each_append)
    then have "length (ap_loginInputs a') = 2" using run by (fastforce simp: app_ok_def login_ok_def)
    then show ?thesis using logout_step [OF assms(1) that(1) assms(4) that(2)]
      by (auto simp: length_Suc_conv numeral_2_eq_2)
  qed
  have "\<exists>us key vs b. msgs = us @ KeyPress key # vs \<and> kp_String key \<in> {''enter'', ''f1''} \<and>
      for_each us (app_step L) a0 = Some b \<and> ap_page b = PageLogin \<and>
      map (ti_Value (al_inputs L)) (ap_loginInputs b) = [cr_Username c, cr_Password c] \<and>
      (\<forall>k \<le> length vs. \<exists>d. for_each (us @ KeyPress key # take k vs) (app_step L) a0 = Some d \<and>
         ap_page d \<noteq> PageLogin)"
    using *(1-4,6) v by (intro exI [of _ us] exI [of _ key] exI [of _ vs] exI [of _ b] conjI)
  then show ?thesis using e new_credentials [OF assms(2)] by blast
qed

lemma plain_lib_inputs: "al_inputs plain_lib = plain_inputs"
  by (simp add: plain_lib_def)

definition press :: "string \<Rightarrow> string \<Rightarrow> tui_msg" where
  "press name s = KeyPress \<lparr>kp_String = name, kp_Keystroke = name, kp_Text = s, kp_Code = 0, kp_Mod = 0, kp_IsRepeat = False\<rparr>"

theorem login_required_witness:
  "\<exists>a0 a us key vs b. New_application plain_lib 80 24 \<lparr>cr_Username = ''u'', cr_Password = ''p''\<rparr> = Some (Inr a0) \<and>
     for_each [press ''u'' ''u'', press ''enter'' [], press ''p'' ''p'', press ''enter'' []] (app_step plain_lib) a0 = Some a \<and>
     ap_page a = PageMenu \<and>
     [press ''u'' ''u'', press ''enter'' [], press ''p'' ''p'', press ''enter'' []] = us @ KeyPress key # vs \<and>
     for_each us (app_step plain_lib) a0 = Some b \<and>
     map (ti_Value plain_inputs) (ap_loginInputs b) = [''u'', ''p'']"
proof -
  let ?c = "\<lparr>cr_Username = ''u'', cr_Password = ''p''\<rparr>"
  let ?msgs = "[press ''u'' ''u'', press ''enter'' [], press ''p'' ''p'', press ''enter'' []]"
  have "Credentials_Validate ?c = None" by code_simp
  then obtain a0 n where a0: "New_application plain_lib 80 24 ?c = Some (Inr a0)" "ap_page a0 = PageLogin"
    "ap_loginFocus a0 = 0" "ap_credentials a0 = ?c" "ap_loginInputs a0 = [([], n), ([], n)]"
    using New_application_login [OF lawful_plain_lib, of 80 24 ?c] by (auto simp: plain_lib_def plain_inputs_def)
  have "\<exists>a. for_each ?msgs (app_step plain_lib) a0 = Some a \<and> ap_page a = PageMenu"
    by (simp add: app_step_def app_Update_def page_key_def press_def updateLogin_def login_input_def focusLogin_def
        authenticate_def get_at_def set_at_def plain_lib_def plain_inputs_def typed_def a0 Let_def)
  then obtain a where a: "for_each ?msgs (app_step plain_lib) a0 = Some a" "ap_page a = PageMenu" by blast
  then have "ap_page a \<noteq> PageLogin" by simp
  note gate = conjunct1 [OF login_required [OF lawful_plain_lib a0(1) a(1) this], unfolded plain_lib_inputs credentials.select_convs]
  then have "\<exists>us key vs b. ?msgs = us @ KeyPress key # vs \<and> for_each us (app_step plain_lib) a0 = Some b \<and>
      map (ti_Value plain_inputs) (ap_loginInputs b) = [''u'', ''p'']"
    by (elim exE conjE) (intro exI conjI)
  then obtain us key vs b where "?msgs = us @ KeyPress key # vs" "for_each us (app_step plain_lib) a0 = Some b"
    "map (ti_Value plain_inputs) (ap_loginInputs b) = [''u'', ''p'']" by (elim exE conjE)
  then show ?thesis using a0(1) a
    by (intro exI [of _ a0] exI [of _ a] exI [of _ us] exI [of _ key] exI [of _ vs] exI [of _ b] conjI)
qed

end
