(* ===== verification/Ref_Ticks.thy ===== *)
theory Ref_Ticks
  imports Ref_Streams "HOL-Library.Multiset"
begin

text \<open>
  The ticks of the three pages that change by themselves. A page schedules its next tick when it handles
  one, and a key may start, stop or restart a run while a tick is still on its way; the generation in the
  tick tells the page whether it is the current run's. The locale \<open>ticker\<close> states what a page has to do
  for that to work and shows that then exactly one current tick is on its way while the page is active;
  the three pages are its instances.
\<close>

subsection \<open>Runs with ticks in flight\<close>

text \<open>
  A visit to a page: keys and resizes (\<open>user\<close>) and the arrival of a tick that was scheduled, in any
  order and with any delay. The multiset holds the ticks on their way; the number counts the steps.
\<close>

inductive tick_run ::
  "('m \<Rightarrow> 'm \<times> generation option \<Rightarrow> bool) \<Rightarrow> (generation \<Rightarrow> 'm \<Rightarrow> 'm \<times> generation option \<Rightarrow> bool) \<Rightarrow>
     'm \<Rightarrow> nat \<Rightarrow> 'm \<Rightarrow> generation multiset \<Rightarrow> bool"
  for user and tick and m0 where
  start: "tick_run user tick m0 0 m0 {#}"
| user_step: "tick_run user tick m0 n m F \<Longrightarrow> user m (m', c) \<Longrightarrow>
     tick_run user tick m0 (Suc n) m' (F + mset_set (set_option c))"
| tick_step: "tick_run user tick m0 n m F \<Longrightarrow> g \<in># F \<Longrightarrow> tick g m (m', c) \<Longrightarrow>
     tick_run user tick m0 (Suc n) m' (F - {#g#} + mset_set (set_option c))"

locale ticker =
  fixes user :: "'m \<Rightarrow> 'm \<times> generation option \<Rightarrow> bool"
    and tick :: "generation \<Rightarrow> 'm \<Rightarrow> 'm \<times> generation option \<Rightarrow> bool"
    and gen :: "'m \<Rightarrow> generation"
    and active :: "'m \<Rightarrow> bool"
  assumes user_law: "user m (m', c) \<Longrightarrow>
      c = None \<and> gen m' = gen m \<and> active m' = active m \<or>
      gen m' = gen m + 1 \<and> c = (if active m' then Some (gen m') else None)"
    and tick_stale: "tick g m (m', c) \<Longrightarrow> \<not> active m \<or> g \<noteq> gen m \<Longrightarrow> m' = m \<and> c = None"
    and tick_current: "tick (gen m) m (m', c) \<Longrightarrow> active m \<Longrightarrow>
      active m' \<and> gen m' = gen m \<and> c = Some (gen m) \<or>
      \<not> active m' \<and> gen m' \<in> {gen m, gen m + 1} \<and> c = None"
begin

definition settled :: "'m \<Rightarrow> generation multiset \<Rightarrow> bool" where
  "settled m F \<longleftrightarrow> count F (gen m) = (if active m then 1 else 0) \<and> (\<forall>g \<in># F. unat g \<le> unat (gen m))"

lemma unat_Suc: "unat g < 2 ^ 64 - 1 \<Longrightarrow> unat (g + 1) = Suc (unat g)" for g :: generation
  by (simp add: unat_plus_if' )

lemma fresh_settled:
  assumes "settled m F" "gen m' = gen m + 1" "unat (gen m) < 2 ^ 64 - 1"
  shows "settled m' (F + mset_set (set_option (if active m' then Some (gen m') else None)))"
proof -
  have u: "unat (gen m') = Suc (unat (gen m))" using assms(2,3) by (simp add: unat_Suc)
  then have "\<forall>g \<in># F. unat g < unat (gen m')" using assms(1) by (auto simp: settled_def)
  then have "gen m' \<notin># F" "\<forall>g \<in># F. unat g \<le> unat (gen m')" by auto
  then show ?thesis by (auto simp: settled_def count_eq_zero_iff)
qed

lemma settled_user:
  assumes "settled m F" "user m (m', c)" "unat (gen m) < 2 ^ 64 - 1"
  shows "settled m' (F + mset_set (set_option c)) \<and> unat (gen m') \<le> Suc (unat (gen m))"
  using user_law [OF assms(2)]
proof
  assume "c = None \<and> gen m' = gen m \<and> active m' = active m"
  then show ?thesis using assms(1) by (simp add: settled_def)
next
  assume "gen m' = gen m + 1 \<and> c = (if active m' then Some (gen m') else None)"
  then show ?thesis using fresh_settled [OF assms(1) _ assms(3), of m'] assms(3) by (simp add: unat_Suc)
qed

lemma settled_tick:
  assumes "settled m F" "g \<in># F" "tick g m (m', c)" "unat (gen m) < 2 ^ 64 - 1"
  shows "settled m' (F - {#g#} + mset_set (set_option c)) \<and> unat (gen m') \<le> Suc (unat (gen m))"
proof (cases "active m \<and> g = gen m")
  case False
  then have "m' = m" "c = None" using tick_stale [OF assms(3)] by auto
  moreover have "g \<noteq> gen m" using assms(1,2) False by (auto simp: settled_def count_eq_zero_iff)
  ultimately show ?thesis using assms(1) by (auto simp: settled_def dest: in_diffD)
next
  case True
  then have F: "F - {#gen m#} + {#gen m#} = F" "settled m F" "count F (gen m) = 1"
    using assms(1,2) by (simp_all add: settled_def)
  consider "active m'" "gen m' = gen m" "c = Some (gen m)"
    | "\<not> active m'" "gen m' \<in> {gen m, gen m + 1}" "c = None"
    using tick_current [of m m' c] assms(3) True by blast
  then show ?thesis
  proof cases
    case 1
    then show ?thesis using F True by (auto simp: settled_def dest: in_diffD)
  next
    case 2
    define G where "G = F - {#gen m#}"
    have old: "count G (gen m) = 0" "\<forall>x \<in># G. unat x \<le> unat (gen m)"
      using F by (auto simp: settled_def G_def dest: in_diffD)
    have "settled m' G \<and> unat (gen m') \<le> Suc (unat (gen m))"
    proof (cases "gen m' = gen m")
      case True
      then show ?thesis using 2 old by (simp add: settled_def)
    next
      case False
      then have n: "unat (gen m') = Suc (unat (gen m))" using 2 assms(4) by (simp add: unat_Suc)
      then have le: "\<forall>x \<in># G. unat x < unat (gen m')" using old(2) by fastforce
      then have "gen m' \<notin># G" by blast
      moreover have "\<forall>x \<in># G. unat x \<le> unat (gen m')" using le by (blast intro: less_imp_le)
      ultimately show ?thesis using 2 n by (simp add: settled_def count_eq_zero_iff)
    qed
    then show ?thesis using 2 True by (simp add: G_def)
  qed
qed

lemma one_tick:
  assumes "tick_run user tick m0 n m F" "\<not> active m0" "unat (gen m0) + n < 2 ^ 64"
  shows "settled m F \<and> unat (gen m) \<le> unat (gen m0) + n"
  using assms
proof (induction rule: tick_run.induct)
  case start
  then show ?case by (simp add: settled_def)
next
  case (user_step n m F m' c)
  then show ?case using settled_user [of m F m' c] by fastforce
next
  case (tick_step n m F g m' c)
  then show ?case using settled_tick [of m F g m' c] by fastforce
qed

end

subsection \<open>The event log\<close>

definition scroll_next :: "tui_cmd \<Rightarrow> generation option" where
  "scroll_next command = (case command of ScrollTick g \<Rightarrow> Some g | _ \<Rightarrow> None)"

definition scroll_user :: "scrollingModel \<Rightarrow> scrollingModel \<times> generation option \<Rightarrow> bool" where
  "scroll_user m r \<longleftrightarrow>
     (\<exists>key command. scrolling_key key m = Some (False, fst r, command) \<and> snd r = scroll_next command) \<or>
     (\<exists>width height. r = (scrolling_resize width height m, None))"

definition scroll_tick :: "generation \<Rightarrow> scrollingModel \<Rightarrow> scrollingModel \<times> generation option \<Rightarrow> bool" where
  "scroll_tick g m r \<longleftrightarrow> (\<exists>command. scrolling_tick g m = Some (fst r, command) \<and> snd r = scroll_next command)"

text \<open>What a key does to the stream: nothing, end it with a new generation, or start it with one.\<close>

definition same_stream :: "scrollingModel \<Rightarrow> scrollingModel \<Rightarrow> bool" where
  "same_stream m m' \<longleftrightarrow> sm_generation m' = sm_generation m \<and> sm_streaming m' = sm_streaming m \<and>
     sm_remaining m' = sm_remaining m"

definition scroll_effect :: "scrollingModel \<Rightarrow> (bool \<times> scrollingModel \<times> tui_cmd) option \<Rightarrow> bool" where
  "scroll_effect m r \<longleftrightarrow>
     (\<forall>m' command. r = Some (False, m', command) \<longrightarrow>
        same_stream m m' \<and> scroll_next command = None \<or>
        sm_generation m' = sm_generation m + 1 \<and>
          (if sm_streaming m' then sm_remaining m' = 5 \<and> scroll_next command = Some (sm_generation m')
           else sm_remaining m' = 0 \<and> scroll_next command = None))"

lemma same_stream_intros:
  "same_stream m (scrolling_move d m)" "same_stream m (scrolling_resize w h m)"
  by (simp_all add: same_stream_def scrolling_move_def scrolling_resize_def scrolling_clampCursor_def Let_def)

lemma appendEvent_same: "scrolling_appendEvent m = Some m' \<Longrightarrow> same_stream m m'"
  by (cases "sm_follow m") (auto simp: same_stream_def scrolling_appendEvent_def Let_def bind_Some_iff)

lemma scroll_effectI:
  "same_stream m m' \<Longrightarrow> scroll_effect m (Some (False, m', NoCmd))"
  by (simp add: scroll_effect_def scroll_next_def)

lemma scrolling_key_effect: "scroll_effect m (scrolling_key key m)"
proof -
  have append: "scroll_effect m (do { m1 \<leftarrow> scrolling_appendEvent m; Some (False, m1\<lparr>sm_status := s\<rparr>, NoCmd) })" for s
    by (cases "scrolling_appendEvent m")
      (auto simp: scroll_effect_def scroll_next_def same_stream_def dest!: appendEvent_same)
  have reset: "scroll_effect m (do { m1 \<leftarrow> scrolling_reset m; Some (False, m1\<lparr>sm_status := s\<rparr>, NoCmd) })" for s
    by (auto simp: scroll_effect_def scroll_next_def scrolling_reset_def bind_Some_iff)
  show ?thesis
    unfolding scrolling_key_def Let_def
    apply (intro if_predI [of _ "scroll_effect m"])
    apply (simp_all only: append reset)
    apply (simp_all only: scroll_effectI same_stream_intros)
    apply (simp_all add: scroll_effect_def same_stream_def scroll_next_def)
    done
qed

lemma scroll_tick_cases:
  assumes "scroll_tick g m (m', c)"
  shows "(\<not> sm_streaming m \<or> g \<noteq> sm_generation m) \<and> m' = m \<and> c = None \<or>
    sm_streaming m \<and> g = sm_generation m \<and> sm_generation m' = sm_generation m \<and>
      sm_remaining m' = sm_remaining m - 1 \<and> sm_streaming m' = (sm_remaining m \<noteq> 1) \<and>
      c = (if sm_streaming m' then Some (sm_generation m) else None)"
proof (cases "\<not> sm_streaming m \<or> g \<noteq> sm_generation m")
  case True
  then show ?thesis using assms by (auto simp: scroll_tick_def scrolling_tick_def scroll_next_def)
next
  case False
  then obtain m1 where m1: "scrolling_appendEvent m = Some m1"
    using assms by (auto simp: scroll_tick_def scrolling_tick_def bind_Some_iff)
  show ?thesis
    using assms False appendEvent_same [OF m1]
    by (auto simp: scroll_tick_def scrolling_tick_def m1 Let_def same_stream_def scroll_next_def split: if_splits)
qed

lemma scroll_user_cases:
  assumes "scroll_user m (m', c)"
  shows "same_stream m m' \<and> c = None \<or>
    sm_generation m' = sm_generation m + 1 \<and>
      (if sm_streaming m' then sm_remaining m' = 5 \<and> c = Some (sm_generation m') else sm_remaining m' = 0 \<and> c = None)"
  using assms unfolding scroll_user_def
proof (elim disjE exE)
  fix key command
  assume "scrolling_key key m = Some (False, fst (m', c), command) \<and> snd (m', c) = scroll_next command"
  then show ?thesis using scrolling_key_effect [of m key] unfolding scroll_effect_def fst_conv snd_conv by metis
qed (simp add: same_stream_intros)

interpretation scroll_ticks: ticker scroll_user scroll_tick sm_generation sm_streaming
proof
  show "c = None \<and> sm_generation m' = sm_generation m \<and> sm_streaming m' = sm_streaming m \<or>
      sm_generation m' = sm_generation m + 1 \<and> c = (if sm_streaming m' then Some (sm_generation m') else None)"
    if "scroll_user m (m', c)" for m m' c
    using scroll_user_cases [OF that] by (auto simp: same_stream_def split: if_splits)
next
  show "m' = m \<and> c = None" if "scroll_tick g m (m', c)" "\<not> sm_streaming m \<or> g \<noteq> sm_generation m" for g m m' c
    using scroll_tick_cases [OF that(1)] that(2) by blast
next
  show "sm_streaming m' \<and> sm_generation m' = sm_generation m \<and> c = Some (sm_generation m) \<or>
      \<not> sm_streaming m' \<and> sm_generation m' \<in> {sm_generation m, sm_generation m + 1} \<and> c = None"
    if "scroll_tick (sm_generation m) m (m', c)" "sm_streaming m" for m m' c
    using scroll_tick_cases [OF that(1)] that(2) by (auto split: if_splits)
qed

subsection \<open>Partial updates\<close>

definition partial_next :: "tui_cmd \<Rightarrow> generation option" where
  "partial_next command = (case command of PartialTick g \<Rightarrow> Some g | _ \<Rightarrow> None)"

definition partial_user :: "partialModel \<Rightarrow> partialModel \<times> generation option \<Rightarrow> bool" where
  "partial_user m r \<longleftrightarrow>
     (\<exists>key command. partial_key key m = (False, fst r, command) \<and> snd r = partial_next command) \<or>
     (\<exists>width height. r = (partial_resize width height m, None))"

definition partial_ticks :: "generation \<Rightarrow> partialModel \<Rightarrow> partialModel \<times> generation option \<Rightarrow> bool" where
  "partial_ticks g m r \<longleftrightarrow> (\<exists>command. partial_tick g m = (fst r, command) \<and> snd r = partial_next command)"

lemma partial_user_cases:
  assumes "partial_user m (m', c)"
  shows "c = None \<and> pm_generation m' = pm_generation m \<and> pm_running m' = pm_running m \<or>
    pm_generation m' = pm_generation m + 1 \<and> pm_running m' \<and> c = Some (pm_generation m')"
  using assms unfolding partial_user_def
  by (elim disjE exE)
    (auto simp: partial_key_def partial_start_def partial_resize_def partial_next_def Let_def split: if_splits)

interpretation partial_ticks: ticker partial_user partial_ticks pm_generation pm_running
proof
  show "c = None \<and> pm_generation m' = pm_generation m \<and> pm_running m' = pm_running m \<or>
      pm_generation m' = pm_generation m + 1 \<and> c = (if pm_running m' then Some (pm_generation m') else None)"
    if "partial_user m (m', c)" for m m' c
    using partial_user_cases [OF that] by auto
qed (auto simp: partial_ticks_def partial_tick_def partial_next_def Let_def split: if_splits)

subsection \<open>Long-running operations\<close>

definition long_next :: "tui_cmd \<Rightarrow> generation option" where
  "long_next command = (case command of LongTick g \<Rightarrow> Some g | _ \<Rightarrow> None)"

definition long_user :: "longRunningModel \<Rightarrow> longRunningModel \<times> generation option \<Rightarrow> bool" where
  "long_user m r \<longleftrightarrow>
     (\<exists>key command. long_key key m = (False, fst r, command) \<and> snd r = long_next command) \<or>
     (\<exists>width height. r = (long_resize width height m, None))"

definition long_ticks :: "generation \<Rightarrow> longRunningModel \<Rightarrow> longRunningModel \<times> generation option \<Rightarrow> bool" where
  "long_ticks g m r \<longleftrightarrow> (\<exists>command. long_tick g m = (fst r, command) \<and> snd r = long_next command)"

definition long_active :: "longRunningModel \<Rightarrow> bool" where
  "long_active m \<longleftrightarrow> lm_running m \<and> \<not> lm_paused m"

text \<open>What the counters are after a number of heartbeats of each mode.\<close>

definition long_counters :: "longRunningModel \<Rightarrow> bool" where
  "long_counters m \<longleftrightarrow>
     0 \<le> lm_heartbeats m \<and> lm_succeeded m + lm_failed m = lm_processed m \<and> (lm_paused m \<longrightarrow> lm_running m) \<and>
     (case lm_mode m of
        LongNone \<Rightarrow> lm_heartbeats m = 0 \<and> lm_processed m = 0 \<and> \<not> lm_running m
      | LongFinite \<Rightarrow> lm_processed m = 3 * lm_heartbeats m \<and> lm_remaining m = 120 - lm_processed m \<and>
          lm_failed m = lm_processed m div 30 \<and> lm_heartbeats m \<le> 40 \<and> (lm_running m \<longrightarrow> lm_heartbeats m < 40)
      | LongContinuous \<Rightarrow> lm_processed m = lm_heartbeats m \<and> lm_remaining m = - 1 \<and> lm_failed m = 0
      | LongFailure \<Rightarrow> lm_processed m = 10 * lm_heartbeats m \<and> lm_remaining m = 100 - lm_processed m \<and>
          lm_failed m = (if lm_heartbeats m = 6 then 1 else 0) \<and> lm_heartbeats m \<le> 6 \<and>
          (lm_running m \<longrightarrow> lm_heartbeats m < 6)) \<and>
     int (length (lm_events m)) =
       (if lm_mode m \<in> {LongFinite, LongContinuous} then min 8 (lm_heartbeats m div 4) else 0)"

text \<open>What a key does to the run: nothing, pause or stop it, resume it, or start it afresh.\<close>

definition long_effect :: "longRunningModel \<Rightarrow> bool \<times> longRunningModel \<times> tui_cmd \<Rightarrow> bool" where
  "long_effect m r \<longleftrightarrow>
     (case r of (back, m', command) \<Rightarrow> (long_counters m \<longrightarrow> long_counters m') \<and>
        (back \<or>
         long_next command = None \<and> lm_generation m' = lm_generation m \<and> long_active m' = long_active m \<or>
         lm_generation m' = lm_generation m + 1 \<and>
           long_next command = (if long_active m' then Some (lm_generation m') else None)))"

lemma long_stop_counters: "long_counters m \<Longrightarrow> long_counters (long_stop s m)"
  by (simp add: long_counters_def long_stop_def split: longRunningMode.splits)

lemma long_key_effect: "long_effect m (long_key key m)"
proof -
  have start: "long_effect m (False, long_start mode m)" if "mode \<noteq> LongNone" for mode
    using that by (cases mode)
      (simp_all add: long_start_def long_effect_def long_counters_def long_next_def long_active_def Let_def)
  have stop: "long_effect m (b, long_stop s m, NoCmd)" for b s
    by (simp add: long_effect_def long_stop_counters) (simp add: long_stop_def long_next_def long_active_def)
  have none: "long_effect m (False, m, NoCmd)" by (simp add: long_effect_def long_next_def)
  have pause: "long_effect m (False, m\<lparr>lm_paused := b, lm_generation := lm_generation m + 1, lm_status := s\<rparr>,
      if b then NoCmd else LongTick (lm_generation m + 1))" if "lm_running m" for b s
    using that by (simp add: long_effect_def long_next_def long_active_def long_counters_def split: longRunningMode.splits)
  show ?thesis
    unfolding long_key_def Let_def
    apply (intro if_predI [of _ "long_effect m"])
    apply (simp_all add: start stop none)
    using pause [where b = True] pause [where b = False] apply simp_all
    done
qed

lemma long_append_count: "length (lm_events (long_appendEvent e m)) = min 8 (Suc (length (lm_events m)))"
  by (simp add: long_appendEvent_def Let_def)

lemma long_append_others:
  "lm_mode (long_appendEvent e m) = lm_mode m" "lm_running (long_appendEvent e m) = lm_running m"
  "lm_paused (long_appendEvent e m) = lm_paused m" "lm_generation (long_appendEvent e m) = lm_generation m"
  "lm_heartbeats (long_appendEvent e m) = lm_heartbeats m" "lm_processed (long_appendEvent e m) = lm_processed m"
  "lm_succeeded (long_appendEvent e m) = lm_succeeded m" "lm_failed (long_appendEvent e m) = lm_failed m"
  "lm_remaining (long_appendEvent e m) = lm_remaining m"
  by (simp_all add: long_appendEvent_def Let_def)

lemma next_quarter: "(h + 1) div 4 = (if (h + 1) mod 4 = 0 then h div 4 + 1 else h div 4)" for h :: int
proof -
  define q r where "q = h div 4" and "r = h mod 4"
  have h: "h = 4 * q + r" and "0 \<le> r" "r < 4" by (simp_all add: q_def r_def)
  then have "r \<in> {0, 1, 2, 3}" by auto
  then show ?thesis unfolding h by auto
qed

lemma long_stop_others:
  "lm_mode (long_stop s m) = lm_mode m" "lm_running (long_stop s m) = False" "lm_paused (long_stop s m) = False"
  "lm_generation (long_stop s m) = lm_generation m + 1" "lm_heartbeats (long_stop s m) = lm_heartbeats m"
  "lm_processed (long_stop s m) = lm_processed m" "lm_succeeded (long_stop s m) = lm_succeeded m"
  "lm_failed (long_stop s m) = lm_failed m" "lm_remaining (long_stop s m) = lm_remaining m"
  "lm_events (long_stop s m) = lm_events m"
  by (simp_all add: long_stop_def)

text \<open>One heartbeat of each mode, with the arithmetic of the invariant done.\<close>

definition every_fourth :: "string \<Rightarrow> longRunningModel \<Rightarrow> longRunningModel" where
  "every_fourth e m = (if lm_heartbeats m mod 4 = 0 then long_appendEvent e m else m)"

lemma every_fourth_others:
  "lm_mode (every_fourth e m) = lm_mode m" "lm_running (every_fourth e m) = lm_running m"
  "lm_paused (every_fourth e m) = lm_paused m" "lm_generation (every_fourth e m) = lm_generation m"
  "lm_heartbeats (every_fourth e m) = lm_heartbeats m" "lm_processed (every_fourth e m) = lm_processed m"
  "lm_succeeded (every_fourth e m) = lm_succeeded m" "lm_failed (every_fourth e m) = lm_failed m"
  "lm_remaining (every_fourth e m) = lm_remaining m"
  by (simp_all add: every_fourth_def long_append_others)

lemma every_fourth_count:
  assumes "int (length (lm_events m)) = min 8 ((lm_heartbeats m - 1) div 4)"
  shows "int (length (lm_events (every_fourth e m))) = min 8 (lm_heartbeats m div 4)"
  using assms next_quarter [of "lm_heartbeats m - 1"]
  by (auto simp: every_fourth_def long_append_count min_def split: if_splits)

lemmas long_parts = every_fourth_others long_stop_others

lemma long_advance_finite:
  assumes "long_counters m" "lm_running m" "lm_mode m = LongFinite" "h = lm_heartbeats m + 1"
    "m1 = m\<lparr>lm_heartbeats := h, lm_processed := 3 * h, lm_remaining := 120 - 3 * h,
            lm_failed := h div 10, lm_succeeded := 3 * h - h div 10\<rparr>"
  shows "\<exists>e s. long_advance m = (if h = 40 then long_stop s (every_fourth e m1) else every_fourth e m1)"
proof -
  have c: "min 3 (lm_remaining m) = 3" "lm_processed m + 3 = 3 * h" "lm_remaining m - 3 = 120 - 3 * h"
    "go_quo (3 * h) 30 = h div 10" "go_rem h 4 = h mod 4" "120 - 3 * h = 0 \<longleftrightarrow> h = 40"
    using assms(1-4) by (auto simp: long_counters_def)
  show ?thesis
    unfolding long_advance_def Let_def assms(3) assms(4) [symmetric] every_fourth_def assms(5)
    by (simp add: c assms(3) assms(4) [symmetric] long_append_others) (safe; (simp; fail | (intro exI, rule refl)))
qed

lemma long_advance_failure:
  assumes "long_counters m" "lm_running m" "lm_mode m = LongFailure" "h = lm_heartbeats m + 1"
    "m1 = m\<lparr>lm_heartbeats := h, lm_processed := 10 * h, lm_remaining := 100 - 10 * h\<rparr>"
  shows "\<exists>s. long_advance m = (if h = 6 then long_stop s (m1\<lparr>lm_failed := 1, lm_succeeded := 59\<rparr>)
    else m1\<lparr>lm_succeeded := 10 * h\<rparr>)"
proof -
  have c: "lm_processed m + 10 = 10 * h" "lm_remaining m - 10 = 100 - 10 * h"
    using assms(1-4) by (auto simp: long_counters_def)
  show ?thesis
    unfolding long_advance_def Let_def assms(3) assms(4) [symmetric] assms(5)
    by (simp add: c assms(3)) auto
qed

lemma long_advance_counters:
  assumes "long_counters m" "lm_running m"
  shows "long_counters (long_advance m)"
    "lm_generation (long_advance m) = (if lm_running (long_advance m) then lm_generation m else lm_generation m + 1)"
    "lm_paused (long_advance m) = (lm_running (long_advance m) \<and> lm_paused m)"
proof -
  let ?goal = "\<lambda>r. long_counters r \<and> lm_generation r = (if lm_running r then lm_generation m else lm_generation m + 1) \<and>
     lm_paused r = (lm_running r \<and> lm_paused m)"
  have "?goal (long_advance m)"
  proof (cases "lm_mode m")
    case LongNone
    then show ?thesis using assms by (simp add: long_counters_def)
  next
    case LongContinuous
    define h where "h = lm_heartbeats m + 1"
    define m1 where "m1 = m\<lparr>lm_heartbeats := h, lm_processed := h, lm_succeeded := h\<rparr>"
    have c: "lm_processed m = lm_heartbeats m" "0 < h" "int (length (lm_events m)) = min 8 ((h - 1) div 4)"
      "lm_remaining m = - 1" "lm_failed m = 0" "lm_paused m \<longrightarrow> lm_running m"
      using assms LongContinuous by (simp_all add: long_counters_def h_def)
    then have "\<exists>e. long_advance m = every_fourth e m1"
      using LongContinuous by (auto simp: long_advance_def Let_def every_fourth_def m1_def h_def)
    then obtain e where e: "long_advance m = every_fourth e m1" by blast
    have "int (length (lm_events (every_fourth e m1))) = min 8 (h div 4)"
      using every_fourth_count [of m1 e] c by (simp add: m1_def)
    then show ?thesis using c assms(2) LongContinuous by (simp add: e long_counters_def long_parts) (simp add: m1_def)
  next
    case LongFailure
    define h where "h = lm_heartbeats m + 1"
    define m1 where "m1 = m\<lparr>lm_heartbeats := h, lm_processed := 10 * h, lm_remaining := 100 - 10 * h\<rparr>"
    have c: "0 < h" "h \<le> 6" "lm_failed m = 0" "lm_events m = []" "lm_paused m \<longrightarrow> lm_running m"
      using assms LongFailure by (simp_all add: long_counters_def h_def)
    obtain s where e: "long_advance m = (if h = 6 then long_stop s (m1\<lparr>lm_failed := 1, lm_succeeded := 59\<rparr>)
        else m1\<lparr>lm_succeeded := 10 * h\<rparr>)"
      using long_advance_failure [OF assms LongFailure h_def m1_def] by blast
    show ?thesis
      using c assms(2) LongFailure by (simp add: e long_counters_def long_parts) (simp add: m1_def long_parts)
  next
    case LongFinite
    define h where "h = lm_heartbeats m + 1"
    define m1 where "m1 = m\<lparr>lm_heartbeats := h, lm_processed := 3 * h, lm_remaining := 120 - 3 * h,
            lm_failed := h div 10, lm_succeeded := 3 * h - h div 10\<rparr>"
    have c: "0 < h" "h \<le> 40" "int (length (lm_events m)) = min 8 ((h - 1) div 4)" "lm_paused m \<longrightarrow> lm_running m"
      using assms LongFinite by (simp_all add: long_counters_def h_def)
    obtain e s where e: "long_advance m = (if h = 40 then long_stop s (every_fourth e m1) else every_fourth e m1)"
      using long_advance_finite [OF assms LongFinite h_def m1_def] by blast
    define r where "r = every_fourth e m1"
    have r: "lm_mode r = LongFinite" "lm_running r" "lm_paused r = lm_paused m" "lm_generation r = lm_generation m"
      "lm_heartbeats r = h" "lm_processed r = 3 * h" "lm_remaining r = 120 - 3 * h" "lm_failed r = h div 10"
      "lm_succeeded r = 3 * h - h div 10"
      using LongFinite assms(2) by (simp_all add: r_def every_fourth_others m1_def)
    have n: "int (length (lm_events r)) = min 8 (h div 4)"
      using every_fourth_count [of m1 e] c by (simp add: m1_def r_def)
    show ?thesis
      unfolding e r_def [symmetric]
      using c(1,2) r n assms(2) by (cases "h = 40") (simp_all add: long_counters_def long_stop_others)
  qed
  then show "long_counters (long_advance m)"
    "lm_generation (long_advance m) = (if lm_running (long_advance m) then lm_generation m else lm_generation m + 1)"
    "lm_paused (long_advance m) = (lm_running (long_advance m) \<and> lm_paused m)" by blast+
qed

lemma long_user_cases:
  assumes "long_user m (m', c)"
  shows "(long_counters m \<longrightarrow> long_counters m') \<and>
    (c = None \<and> lm_generation m' = lm_generation m \<and> long_active m' = long_active m \<or>
     lm_generation m' = lm_generation m + 1 \<and> c = (if long_active m' then Some (lm_generation m') else None))"
  using assms unfolding long_user_def
proof (elim disjE exE)
  fix key command
  assume "long_key key m = (False, fst (m', c), command) \<and> snd (m', c) = long_next command"
  then show ?thesis using long_key_effect [of m key] by (auto simp: long_effect_def)
next
  fix width height
  assume "(m', c) = (long_resize width height m, None)"
  then have m': "m' = long_resize width height m" "c = None" by simp_all
  have "long_counters m' = long_counters m"
    by (cases "lm_mode m") (simp_all add: m' long_resize_def long_counters_def)
  then show ?thesis by (simp add: m' long_resize_def long_active_def)
qed

lemma long_ticks_cases:
  assumes "long_ticks g m (m', c)"
  shows "(\<not> long_active m \<or> g \<noteq> lm_generation m) \<and> m' = m \<and> c = None \<or>
    long_active m \<and> g = lm_generation m \<and> m' = long_advance m \<and>
      c = (if lm_running m' then Some (lm_generation m') else None)"
  using assms
  by (auto simp: long_ticks_def long_tick_def long_active_def long_next_def Let_def split: if_splits)

text \<open>
  The page's part of the contract needs the counters, which bound how a run ends; they are carried
  along in the state of the instance.
\<close>

definition long_counted :: "(longRunningModel \<Rightarrow> 'r \<Rightarrow> bool) \<Rightarrow> longRunningModel \<Rightarrow> 'r \<Rightarrow> bool" where
  "long_counted R m r \<longleftrightarrow> long_counters m \<and> R m r"

interpretation long_ticks: ticker "long_counted long_user" "\<lambda>g. long_counted (long_ticks g)" lm_generation long_active
proof
  show "c = None \<and> lm_generation m' = lm_generation m \<and> long_active m' = long_active m \<or>
      lm_generation m' = lm_generation m + 1 \<and> c = (if long_active m' then Some (lm_generation m') else None)"
    if "long_counted long_user m (m', c)" for m m' c
    using that long_user_cases by (simp add: long_counted_def)
next
  show "m' = m \<and> c = None"
    if "long_counted (long_ticks g) m (m', c)" "\<not> long_active m \<or> g \<noteq> lm_generation m" for g m m' c
    using long_ticks_cases [of g m m' c] that by (simp add: long_counted_def) blast
next
  fix m m' c
  assume t: "long_counted (long_ticks (lm_generation m)) m (m', c)" and a: "long_active m"
  then have m': "m' = long_advance m" "c = (if lm_running m' then Some (lm_generation m') else None)"
    "lm_running m" "\<not> lm_paused m" "long_counters m"
    using long_ticks_cases [of "lm_generation m" m m' c] by (auto simp: long_counted_def long_active_def)
  then show "long_active m' \<and> lm_generation m' = lm_generation m \<and> c = Some (lm_generation m) \<or>
      \<not> long_active m' \<and> lm_generation m' \<in> {lm_generation m, lm_generation m + 1} \<and> c = None"
    using long_advance_counters [of m] by (simp add: long_active_def)
qed

lemma long_run_counted:
  "tick_run long_user long_ticks m0 n m F \<Longrightarrow> long_counters m0 \<Longrightarrow>
     long_counters m \<and> tick_run (long_counted long_user) (\<lambda>g. long_counted (long_ticks g)) m0 n m F"
proof (induction rule: tick_run.induct)
  case start
  then show ?case by (simp add: tick_run.start)
next
  case (user_step n m F m' c)
  then have "long_counted long_user m (m', c)" "long_counters m'"
    using long_user_cases [of m m' c] by (simp_all add: long_counted_def)
  then show ?case using user_step by (blast intro: tick_run.user_step)
next
  case (tick_step n m F g m' c)
  then have "long_counted (long_ticks g) m (m', c)" "long_counters m'"
    using long_ticks_cases [of g m m' c] long_advance_counters [of m] by (auto simp: long_counted_def long_active_def)
  then show ?case using tick_step by (blast intro: tick_run.tick_step)
qed

end
