(* ===== verification/Ref_Page_Props.thy ===== *)
theory Ref_Page_Props
  imports Ref_Safe Ref_Ticks
begin

text \<open>
  Properties of single pages of the reference application: what a submitted receipt says, which rows the
  order table shows, and the counters of the long-running page.
\<close>

subsection \<open>Receipts\<close>

datatype form_event = FormKey key_press | FormPaste string | FormResize int int

definition form_step ::
  "'i text_inputs \<Rightarrow> 'n text_areas \<Rightarrow> form_event \<Rightarrow> ('i, 'n) formModel \<Rightarrow> ('i, 'n) formModel option" where
  "form_step T N e m =
     (case e of
        FormKey key \<Rightarrow> map_option (\<lambda>(_, m', _). m') (form_key T N key m)
      | FormPaste s \<Rightarrow> map_option fst (form_paste T N s m)
      | FormResize w h \<Rightarrow> Some (form_resize T N w h m))"

definition receipt_ok :: "'i text_inputs \<Rightarrow> ('i, 'n) formModel \<Rightarrow> bool" where
  "receipt_ok T m \<longleftrightarrow>
     (fm_submitted m \<longrightarrow>
        (let values = map (ti_Value T) (fm_inputs m)
         in TrimSpace (values ! 0) \<noteq> [] \<and> TrimSpace (values ! 1) \<noteq> [] \<and> TrimSpace (values ! 3) \<noteq> [] \<and>
            (\<exists>quantity > 0. Atoi (values ! 2) = Some quantity \<and>
               fm_result m = receipt values quantity (fm_priority m))))"

lemma receipt_ok_open: "\<not> fm_submitted m \<Longrightarrow> receipt_ok T m"
  by (simp add: receipt_ok_def)

lemma receipt_resize:
  assumes "lawful_inputs T" "receipt_ok T m"
  shows "receipt_ok T (form_resize T N w h m)"
proof -
  have "map (ti_Value T) (fm_inputs (form_resize T N w h m)) = map (ti_Value T) (fm_inputs m)"
    by (simp add: form_resize_def Let_def o_def lawful_inputsD [OF assms(1)])
  moreover have "fm_submitted (form_resize T N w h m) = fm_submitted m" "fm_result (form_resize T N w h m) = fm_result m"
    "fm_priority (form_resize T N w h m) = fm_priority m" by (simp_all add: form_resize_def Let_def)
  ultimately show ?thesis using assms(2) by (simp only: receipt_ok_def)
qed

lemma submit_receipt:
  assumes "form_ok m" "form_submit T N m = Some m'" "\<not> fm_submitted m"
  shows "receipt_ok T m'"
proof (cases "fm_submitted m'")
  case True
  have len: "length (fm_inputs m) = 4" using assms(1) by (simp add: form_ok_def)
  obtain es where es: "form_errors T (fm_inputs m) = Some es" "length es = 5"
    "es ! 2 = [] \<longrightarrow> (\<exists>q > 0. Atoi (ti_Value T (fm_inputs m ! 2)) = Some q)"
    "\<forall>i \<in> {0, 1, 3}. es ! i = [] \<longrightarrow> TrimSpace (ti_Value T (fm_inputs m ! i)) \<noteq> []"
    using form_errors_total [OF len, of T] by (auto elim: safeE)
  have inv: "first_invalid 0 es = - 1"
  proof (rule ccontr)
    assume "first_invalid 0 es \<noteq> - 1"
    then have "0 \<le> first_invalid 0 es" using first_invalid_bound [of 0 es] by auto
    then show False using assms(2,3) True es(1) by (auto simp: form_submit_def Let_def bind_Some_iff)
  qed
  then have all: "es ! 0 = []" "es ! 1 = []" "es ! 2 = []" "es ! 3 = []" using es(2) by (simp_all add: first_invalid_none)
  obtain q where q: "Atoi (ti_Value T (fm_inputs m ! 2)) = Some q" "0 < q" using es(3) all(3) by blast
  have "m' = m\<lparr>fm_errors := es, fm_submitted := True,
      fm_result := receipt (map (ti_Value T) (fm_inputs m)) q (fm_priority m)\<rparr>"
    using assms(2) es(1) inv q len by (simp add: form_submit_def Let_def get_at_def)
  then show ?thesis using es(4) all q len by (simp add: receipt_ok_def Let_def)
qed (rule receipt_ok_open)

lemma form_moveFocus_open:
  "form_moveFocus T N d m = Some r \<Longrightarrow> fm_submitted (fst r) = fm_submitted m"
  by (cases r) (auto simp: form_moveFocus_def Let_def bind_Some_iff split_def split: if_splits)

lemma form_input_open: "form_input T msg m = Some r \<Longrightarrow> fm_submitted (fst r) = fm_submitted m"
  by (cases r) (auto simp: form_input_def Let_def bind_Some_iff split_def)

lemma form_updateNotes_open: "form_updateNotes N msg m = Some r \<Longrightarrow> fm_submitted (fst r) = fm_submitted m"
  by (cases r) (auto simp: form_updateNotes_def Let_def bind_Some_iff split_def)

lemmas form_opens = form_moveFocus_open form_input_open form_updateNotes_open

lemma newFormModel_open: "\<not> fm_submitted (newFormModel T N w h)"
  by (simp add: newFormModel_def form_resize_def Let_def)

lemma form_rest_open:
  "form_rest T N key m = Some r \<Longrightarrow> fm_submitted (fst (snd r)) = fm_submitted m"
  by (auto simp: form_rest_def stay_def split: if_splits dest!: form_opens)

lemma form_key_receipt:
  assumes "form_ok m" "receipt_ok T m" "form_key T N key m = Some (b, m', c)"
  shows "receipt_ok T m'"
proof (cases "fm_submitted m")
  case True
  then show ?thesis
    using assms(2,3) receipt_ok_open [OF newFormModel_open]
    by (auto simp: form_key_def Let_def split: if_splits)
next
  case False
  have "\<not> fm_submitted m' \<or> form_submit T N m = Some m'"
    using assms(3) False
    by (auto simp: form_key_def Let_def stay_def bind_Some_iff split: if_splits dest!: form_opens form_rest_open)
  then show ?thesis using submit_receipt [OF assms(1) _ False] receipt_ok_open by blast
qed

lemma form_paste_receipt:
  assumes "receipt_ok T m" "form_paste T N s m = Some (m', c)"
  shows "receipt_ok T m'"
proof (cases "fm_submitted m")
  case False
  then have "\<not> fm_submitted m'" using assms(2) by (auto simp: form_paste_def split: if_splits dest!: form_opens)
  then show ?thesis by (rule receipt_ok_open)
qed (use assms in \<open>simp add: form_paste_def\<close>)

interpretation receiving: event_machine "form_step T N" "\<lambda>m. lawful_inputs T \<and> form_ok m \<and> receipt_ok T m"
  "\<lambda>_. True" "\<lambda>_ _. True" for T :: "'i text_inputs" and N :: "'n text_areas"
proof
  show "safe (form_step T N e m) (\<lambda>m'. (lawful_inputs T \<and> form_ok m' \<and> receipt_ok T m') \<and> True)"
    if "lawful_inputs T \<and> form_ok m \<and> receipt_ok T m" for e and m :: "('i, 'n) formModel"
  proof (cases e)
    case (FormKey key)
    then show ?thesis
      using form_key_ok [of m T N key] form_key_receipt [of m T N key] that
      by (cases "form_key T N key m") (auto simp: form_step_def split_def)
  next
    case (FormPaste s)
    then show ?thesis
      using form_paste_ok [of m T N s] form_paste_receipt [of T m N s] that
      by (cases "form_paste T N s m") (auto simp: form_step_def)
  next
    case (FormResize w h)
    then show ?thesis using that by (simp add: form_step_def form_resize_ok receipt_resize)
  qed
qed simp_all

text \<open>
  The receiving form never accepts an invalid receipt: through any keys, pastes and resizes from a new
  form, nothing panics, and whenever the form is submitted its purchase order, SKU and bin location are not
  blank, its quantity reads as a positive number, and the receipt shown is the one of exactly the values in
  the fields.
\<close>

theorem receipts_valid:
  assumes "lawful_inputs T"
  shows "\<exists>m. for_each es (form_step T N) (newFormModel T N width height) = Some m \<and>
    (fm_submitted m \<longrightarrow>
      (\<exists>po sku q bin quantity. map (ti_Value T) (fm_inputs m) = [po, sku, q, bin] \<and>
         TrimSpace po \<noteq> [] \<and> TrimSpace sku \<noteq> [] \<and> TrimSpace bin \<noteq> [] \<and> Atoi q = Some quantity \<and> 0 < quantity \<and>
         fm_result m = receipt [po, sku, q, bin] quantity (fm_priority m)))"
proof -
  have "form_ok (newFormModel T N width height)" "receipt_ok T (newFormModel T N width height)"
    by (simp_all add: newFormModel_ok receipt_ok_open newFormModel_open)
  then obtain m where m: "for_each es (form_step T N) (newFormModel T N width height) = Some m" "form_ok m" "receipt_ok T m"
    using receiving.run_total [of es T _ N] assms by auto
  obtain a b c d where "fm_inputs m = [a, b, c, d]"
    using m(2) by (auto simp: form_ok_def length_Suc_conv numeral_eq_Suc)
  then show ?thesis using m(1,3) by (auto simp: receipt_ok_def Let_def)
qed

definition filled_form :: "form_event list" where
  "filled_form =
     (let key = (\<lambda>s. FormKey \<lparr>kp_String = s, kp_Keystroke = s, kp_Text = [], kp_Code = 0, kp_Mod = 0, kp_IsRepeat = False\<rparr>)
      in [FormPaste ''PO-1'', key ''tab'', FormPaste ''SKU'', key ''tab'', FormPaste ''12'', key ''tab'', FormPaste ''A-01'',
          key ''tab'', key ''tab'', key ''tab'', key ''enter''])"

theorem receipts_valid_witness:
  "lawful_inputs plain_inputs \<and>
   (\<exists>m. for_each filled_form (form_step plain_inputs plain_areas) (newFormModel plain_inputs plain_areas 80 24) = Some m \<and>
      fm_submitted m \<and> fm_result m = receipt [''PO-1'', ''SKU'', ''12'', ''A-01''] 12 0)"
proof -
  obtain m where m: "for_each filled_form (form_step plain_inputs plain_areas) (newFormModel plain_inputs plain_areas 80 24) =
      Some m"
    "fm_submitted m \<longrightarrow> (\<exists>po sku q bin quantity. map (ti_Value plain_inputs) (fm_inputs m) = [po, sku, q, bin] \<and>
       TrimSpace po \<noteq> [] \<and> TrimSpace sku \<noteq> [] \<and> TrimSpace bin \<noteq> [] \<and> Atoi q = Some quantity \<and> 0 < quantity \<and>
       fm_result m = receipt [po, sku, q, bin] quantity (fm_priority m))"
    using receipts_valid [OF lawful_plain(1), of filled_form plain_areas 80 24] by (elim exE conjE)
  have "map_option (\<lambda>m. (fm_submitted m, map fst (fm_inputs m), fm_priority m))
      (for_each filled_form (form_step plain_inputs plain_areas) (newFormModel plain_inputs plain_areas 80 24)) =
    Some (True, [''PO-1'', ''SKU'', ''12'', ''A-01''], 0)" by code_simp
  moreover have "Atoi ''12'' = Some 12" by code_simp
  ultimately show ?thesis using m lawful_plain(1) by (auto simp: plain_inputs_def)
qed

subsection \<open>The rows of the order table\<close>

datatype table_event = TableKey key_press | TablePaste string | TableResize int int

definition table_step ::
  "'i text_inputs \<Rightarrow> 't tables \<Rightarrow> (string \<Rightarrow> string) \<Rightarrow> table_event \<Rightarrow> ('i, 't) tableModel \<Rightarrow> ('i, 't) tableModel option" where
  "table_step T B lower e m =
     (case e of
        TableKey key \<Rightarrow> Some (snd (table_key T B lower key m))
      | TablePaste s \<Rightarrow> Some (fst (table_paste T B lower s m))
      | TableResize w h \<Rightarrow> table_resize T B lower w h m)"

definition rows_current :: "'i text_inputs \<Rightarrow> 't tables \<Rightarrow> (string \<Rightarrow> string) \<Rightarrow> ('i, 't) tableModel \<Rightarrow> bool" where
  "rows_current T B lower m \<longleftrightarrow> table_ok m \<and> tm_records m = referenceOrders \<and>
     tb_Rows B (tm_table m) =
       map (table_row (tm_columns m)) (shown_records lower (ti_Value T (tm_filter m)) (tm_sortField m) referenceOrders)"

lemma applyRows_frame:
  "tm_records (applyRows T B lower m) = tm_records m" "tm_columns (applyRows T B lower m) = tm_columns m"
  "tm_filter (applyRows T B lower m) = tm_filter m"
  by (simp_all add: applyRows_def Let_def)

lemma applyRows_current:
  assumes "lawful_tables B" "table_ok m" "tm_records m = referenceOrders"
  shows "rows_current T B lower (applyRows T B lower m)"
  using assms(2,3) by (simp add: rows_current_def applyRows_rows [OF assms(1)] applyRows_frame)

lemma rows_current_others:
  assumes "rows_current T B lower m"
  shows "rows_current T B lower (m\<lparr>tm_detail := b\<rparr>)" "rows_current T B lower (m\<lparr>tm_filtering := b\<rparr>)"
  using assms by (simp_all add: rows_current_def table_ok_def)

lemma rows_current_filter:
  assumes "rows_current T B lower m" "ti_Value T f = ti_Value T (tm_filter m)"
  shows "rows_current T B lower (m\<lparr>tm_filtering := b, tm_filter := f\<rparr>)"
  using assms by (simp add: rows_current_def table_ok_def)

lemma table_key_current:
  assumes B: "lawful_tables B" and T: "lawful_inputs T" and m: "rows_current T B lower m"
  shows "rows_current T B lower (snd (table_key T B lower key m))"
proof -
  have ok: "table_ok m" "tm_records m = referenceOrders" using m by (simp_all add: rows_current_def)
  have apply1: "rows_current T B lower (applyRows T B lower (m\<lparr>tm_filtering := b, tm_filter := f\<rparr>))" for b f
    using ok by (intro applyRows_current [OF B]) (simp_all add: table_ok_def)
  have apply2: "rows_current T B lower (applyRows T B lower (m\<lparr>tm_filter := f\<rparr>))" for f
    using ok by (intro applyRows_current [OF B]) (simp_all add: table_ok_def)
  have apply3: "rows_current T B lower (applyRows T B lower (m\<lparr>tm_sortField := go_rem (tm_sortField m + 1) 3\<rparr>))"
    using ok by (intro applyRows_current [OF B]) (simp_all add: table_ok_def)
  have update: "rows_current T B lower (m\<lparr>tm_table := tb_Update B key (tm_table m)\<rparr>)"
    using m by (simp add: rows_current_def table_ok_def lawful_tablesD [OF B])
  show ?thesis
    unfolding table_key_def Let_def if_distrib [of snd] snd_conv
    by (intro if_predI [of _ "rows_current T B lower"])
      (simp_all only: apply1 apply2 apply3 update m rows_current_others rows_current_filter [OF m] lawful_inputsD [OF T])
qed

lemma table_resize_current:
  assumes B: "lawful_tables B" and m: "table_ok m" "tm_records m = referenceOrders"
  shows "safe (table_resize T B lower w h m) (rows_current T B lower)"
proof -
  obtain n columns where c: "columns_for w = (n, columns)" by (cases "columns_for w")
  define m1 where "m1 = m\<lparr>tm_twidth := w, tm_theight := h, tm_filter := ti_SetWidth T (max 10 (min 40 (w - 8))) (tm_filter m)\<rparr>"
  define t1 where "t1 = tb_SetHeight B (max 4 (h - 9)) (tb_SetWidth B w (tb_SetColumns B columns (tb_SetRows B [] (tm_table m1))))"
  define m2 where "m2 = applyRows T B lower (m1\<lparr>tm_table := t1, tm_columns := n\<rparr>)"
  have m2: "rows_current T B lower m2"
    unfolding m2_def by (rule applyRows_current [OF B]) (simp_all add: m1_def m table_ok_def m(1) [unfolded table_ok_def])
  then have s: "rows_current T B lower (m2\<lparr>tm_table := tb_SetCursor B i (tm_table m2)\<rparr>)" for i
    by (simp add: rows_current_def table_ok_def lawful_tablesD [OF B])
  have "[] \<notin> set (tb_Rows B (tm_table m2))"
    using m2 by (auto simp: rows_current_def dest!: sym [of "[]"] simp: table_row_nonempty)
  then show ?thesis
    using m2 s
    by (auto simp: table_resize_def Let_def c m1_def [symmetric] t1_def [symmetric] m2_def [symmetric]
        intro!: safe_mono [OF find_row_total] split: option.split)
qed

lemma table_paste_current:
  assumes "lawful_tables B" "rows_current T B lower m"
  shows "rows_current T B lower (fst (table_paste T B lower s m))"
proof -
  have "rows_current T B lower (applyRows T B lower (m\<lparr>tm_filter := f\<rparr>))" for f
    using assms(2) by (intro applyRows_current [OF assms(1)]) (simp_all add: rows_current_def table_ok_def)
  then show ?thesis using assms(2) by (simp add: table_paste_def split_def Let_def)
qed

interpretation order_table: event_machine "table_step T B lower"
  "\<lambda>m. lawful_inputs T \<and> lawful_tables B \<and> rows_current T B lower m" "\<lambda>_. True" "\<lambda>_ _. True"
  for T :: "'i text_inputs" and B :: "'t tables" and lower
proof
  show "safe (table_step T B lower e m)
      (\<lambda>m'. (lawful_inputs T \<and> lawful_tables B \<and> rows_current T B lower m') \<and> True)"
    if "lawful_inputs T \<and> lawful_tables B \<and> rows_current T B lower m" for e and m :: "('i, 't) tableModel"
  proof (cases e)
    case (TableResize w h)
    moreover have "table_ok m" "tm_records m = referenceOrders" using that by (simp_all add: rows_current_def)
    ultimately show ?thesis
      using table_resize_current [of B m T lower w h] that by (simp add: table_step_def)
  qed (use that in \<open>simp_all add: table_step_def table_key_current table_paste_current\<close>)
qed simp_all

text \<open>Sorting is by the chosen field, then by the order number.\<close>

definition in_order :: "int \<Rightarrow> orderRecord \<Rightarrow> orderRecord \<Rightarrow> bool" where
  "in_order field r s \<longleftrightarrow>
     (if field = 1 then (od_status r, od_order r) \<le> (od_status s, od_order s)
      else if field = 2 then (od_quantity r, od_order r) \<le> (od_quantity s, od_order s)
      else od_order r \<le> od_order s)"

lemma sort_key_sorted: "sorted_wrt (\<lambda>r s. k r \<le> k s) (sort_key k rs)"
  using sorted_sort_key [of k rs] by (simp only: sorted_map)

lemma sorted_records_sorted: "sorted_wrt (in_order field) (sorted_records field rs)"
proof -
  have order: "in_order field = (\<lambda>r s. od_order r \<le> od_order s)" if "field \<noteq> 1" "field \<noteq> 2"
    using that by (intro ext) (simp only: in_order_def if_False)
  have status: "in_order 1 = (\<lambda>r s. (od_status r, od_order r) \<le> (od_status s, od_order s))"
    by (intro ext) (simp only: in_order_def if_True simp_thms)
  have quantity: "in_order 2 = (\<lambda>r s. (od_quantity r, od_order r) \<le> (od_quantity s, od_order s))"
    by (intro ext) (simp add: in_order_def del: less_eq_prod_simp)
  show ?thesis
    by (cases "field = 1"; cases "field = 2"; simp only: sorted_records_def if_True if_False simp_thms sort_key_sorted order status quantity)
qed

lemma shown_records_sorted: "sorted_wrt (in_order field) (shown_records lower f field rs)"
  unfolding shown_records_def by (rule sorted_wrt_filter [OF sorted_records_sorted])

lemma shown_records_mset:
  "mset (shown_records lower f field rs) = filter_mset (matches_query lower (lower (TrimSpace f))) (mset rs)"
  by (simp add: shown_records_def sorted_records_def)

text \<open>
  C36: The order table never shows a stale or wrong list: through any keys, pastes and resizes from a
  new table, nothing panics, and the rows of the component are the reference orders that contain the trimmed,
  lower-cased text of the filter, each exactly once, in the order of the chosen field, in the columns of the
  current width. An empty filter shows all of them.
\<close>

theorem table_shows_matches:
  assumes "lawful_inputs T" "lawful_tables B"
  shows "\<exists>m0 m. newTableModel T B lower width height = Some m0 \<and> for_each es (table_step T B lower) m0 = Some m \<and>
    (\<exists>shown. tb_Rows B (tm_table m) = map (table_row (tm_columns m)) shown \<and>
       sorted_wrt (in_order (tm_sortField m)) shown \<and>
       mset shown = filter_mset (matches_query lower (lower (TrimSpace (ti_Value T (tm_filter m))))) (mset referenceOrders))"
proof -
  have "safe (newTableModel T B lower width height) (rows_current T B lower)"
    unfolding newTableModel_def by (rule table_resize_current [OF assms(2)]) (simp_all add: table_ok_def)
  then obtain m0 where m0: "newTableModel T B lower width height = Some m0" "rows_current T B lower m0" by (auto elim: safeE)
  then obtain m where m: "for_each es (table_step T B lower) m0 = Some m" "rows_current T B lower m"
    using order_table.run_total [of es T B lower m0] assms by auto
  then show ?thesis using m0(1) shown_records_sorted shown_records_mset unfolding rows_current_def by metis
qed

theorem table_shows_matches_witness:
  "lawful_inputs plain_inputs \<and> lawful_tables plain_tables \<and>
   (\<exists>m0 m shown. newTableModel plain_inputs plain_tables (\<lambda>s. s) 80 24 = Some m0 \<and>
      for_each [TableResize 60 20] (table_step plain_inputs plain_tables (\<lambda>s. s)) m0 = Some m \<and>
      tb_Rows plain_tables (tm_table m) = map (table_row (tm_columns m)) shown)"
  using table_shows_matches [OF lawful_plain, of "\<lambda>s. s" 80 24 "[TableResize 60 20]"] lawful_plain by blast

subsection \<open>The counters of a long-running operation\<close>

text \<open>
  C37: Within one visit to the long-running page that begins with no tick of an earlier visit still on its way
  (see \<open>stale_tick_of_earlier_visit\<close> for what such a tick does) and has fewer than 2^64 steps, whatever keys are
  pressed and however late scheduled ticks arrive, exactly one tick of the current run is on its way while the run is active and none while it is
  paused, stopped or over, so no tick is lost and a run never goes at double speed. The counters are those of
  the number of heartbeats: the finite run processes three per heartbeat of 120 and ends after forty, the failing
  run ten per heartbeat and ends with one failure after six, the continuous run one; succeeded and failed add up to
  processed; and the event list has one entry per four heartbeats, at most eight.
\<close>

theorem long_running_exact:
  assumes "tick_run long_user long_ticks (newLongRunningModel width height) n m F" "n < 2 ^ 64"
  shows "count F (lm_generation m) = (if lm_running m \<and> \<not> lm_paused m then 1 else 0) \<and>
    0 \<le> lm_heartbeats m \<and> lm_succeeded m + lm_failed m = lm_processed m \<and>
    (case lm_mode m of
       LongNone \<Rightarrow> lm_processed m = 0 \<and> \<not> lm_running m
     | LongFinite \<Rightarrow> lm_processed m = 3 * lm_heartbeats m \<and> lm_remaining m = 120 - lm_processed m \<and>
         lm_failed m = lm_processed m div 30 \<and> lm_heartbeats m \<le> 40 \<and> (lm_running m \<longrightarrow> lm_heartbeats m < 40)
     | LongContinuous \<Rightarrow> lm_processed m = lm_heartbeats m \<and> lm_failed m = 0
     | LongFailure \<Rightarrow> lm_processed m = 10 * lm_heartbeats m \<and> lm_remaining m = 100 - lm_processed m \<and>
         lm_failed m = (if lm_heartbeats m = 6 then 1 else 0) \<and> lm_heartbeats m \<le> 6 \<and>
         (lm_running m \<longrightarrow> lm_heartbeats m < 6)) \<and>
    int (length (lm_events m)) =
      (if lm_mode m \<in> {LongFinite, LongContinuous} then min 8 (lm_heartbeats m div 4) else 0)"
proof -
  have new: "long_counters (newLongRunningModel width height)" "\<not> long_active (newLongRunningModel width height)"
    "lm_generation (newLongRunningModel width height) = 0"
    by (simp_all add: newLongRunningModel_def long_counters_def long_active_def)
  have c: "long_counters m"
    and run: "tick_run (long_counted long_user) (\<lambda>g. long_counted (long_ticks g)) (newLongRunningModel width height) n m F"
    using long_run_counted [OF assms(1) new(1)] by simp_all
  have "count F (lm_generation m) = (if lm_running m \<and> \<not> lm_paused m then 1 else 0)"
    using long_ticks.one_tick [OF run new(2)] assms(2) new(3)
    by (simp add: long_ticks.settled_def long_active_def)
  then show ?thesis using c by (cases "lm_mode m") (auto simp: long_counters_def)
qed

theorem long_running_exact_witness:
  "\<exists>m. tick_run long_user long_ticks (newLongRunningModel 80 24) 3 m {#1 :: generation#} \<and>
     lm_mode m = LongFinite \<and> lm_processed m = 6 \<and> lm_succeeded m + lm_failed m = 6"
proof -
  let ?m0 = "newLongRunningModel 80 24"
  let ?m1 = "fst (long_start LongFinite ?m0)"
  let ?m2 = "fst (long_tick 1 ?m1)"
  let ?m3 = "fst (long_tick 1 ?m2)"
  have key: "long_key ''1'' ?m0 = (False, ?m1, LongTick 1)" by code_simp
  have t1: "long_tick 1 ?m1 = (?m2, LongTick 1)" by code_simp
  have t2: "long_tick 1 ?m2 = (?m3, LongTick 1)" by code_simp
  have "long_user ?m0 (?m1, Some 1)" unfolding long_user_def using key by (force simp: long_next_def)
  then have r1: "tick_run long_user long_ticks ?m0 (Suc 0) ?m1 ({#} + mset_set (set_option (Some 1)))"
    by (rule tick_run.user_step [OF tick_run.start])
  have "long_ticks 1 ?m1 (?m2, Some 1)" "long_ticks 1 ?m2 (?m3, Some 1)"
    unfolding long_ticks_def using t1 t2 by (force simp: long_next_def)+
  then have "tick_run long_user long_ticks ?m0 3 ?m3 {#1#}"
    using tick_run.tick_step [OF tick_run.tick_step [OF r1, of 1 ?m2 "Some 1"], of 1 ?m3 "Some 1"]
    by (simp add: numeral_3_eq_3)
  moreover have "lm_mode ?m3 = LongFinite" "lm_processed ?m3 = 6" by code_simp+
  ultimately show ?thesis using long_running_exact [of 80 24 3 ?m3 "{#1#}"] by auto
qed

text \<open>
  Across visits it does not hold: the page is built anew on every visit and its generations start again, so
  a tick of the visit before is taken for one of the new run. After leaving with Esc, opening the page
  again and starting a run while the old tick is on its way, two ticks of generation 1 advance the run.
\<close>

lemma stale_tick_of_earlier_visit:
  "let first = newLongRunningModel 80 24;
       (_, running, c1) = long_key ''1'' first;
       (back, _, c2) = long_key ''esc'' running;
       again = newLongRunningModel 80 24;
       (_, restarted, c3) = long_key ''1'' again;
       (late, c4) = long_tick 1 restarted
   in c1 = LongTick 1 \<and> back \<and> c2 = NoCmd \<and> c3 = LongTick 1 \<and> c4 = LongTick 1 \<and> lm_heartbeats late = 1"
  by code_simp

end
