(* ===== verification/Web_Ui.thy ===== *)
theory Web_Ui
  imports Workbench Driver Go_Strings
begin

text \<open>
  The Inspector and the Workbench over HTTP (\<open>driverui/server.go\<close>, \<open>driverui/workbench.go\<close>): the routes,
  the handlers, the checks they make and the responses, on the driver's snapshot and the recorder of
  \<open>Workbench\<close>. The world \<open>'w\<close> is that of the recorder's controls. JSON decoding of a request is a parameter that
  returns the value and the bytes after it; responses carry the values that are encoded.
\<close>

subsection \<open>Requests and responses\<close>

record http_request =
  rq_method :: string
  rq_path :: string
  rq_segments :: "string list"
  rq_host :: string
  rq_origin :: string
  rq_body :: "byte list"

datatype ('e, 'r) http_body =
    PlainBody string
  | IndexPage
  | StaticFile "string list"
  | StateBody driverSnapshot
  | ReadyBody string
  | CapabilitiesBody bool
  | RecordingBody bool 'r
  | ErrorBody "'e workbench_error"
  | SessionEndedBody nat
  | ModifierBody string
  | ReplayedBody
  | EventStream "string list"

record ('e, 'r) http_response =
  rp_status :: nat
  rp_headers :: "string \<rightharpoonup> string"
  rp_body :: "('e, 'r) http_body"

type_synonym 'e wb_response = "('e, recording) http_response"

type_synonym headers = "string \<rightharpoonup> string"

definition json_headers :: "headers \<Rightarrow> headers" where
  "json_headers h = h(''Content-Type'' \<mapsto> ''application/json'', ''Cache-Control'' \<mapsto> ''no-store'')"

definition json_response :: "headers \<Rightarrow> nat \<Rightarrow> ('e, 'r) http_body \<Rightarrow> ('e, 'r) http_response" where
  "json_response h status body = \<lparr>rp_status = status, rp_headers = json_headers h, rp_body = body\<rparr>"

text \<open>\<open>http.Error\<close> and \<open>http.NotFound\<close>.\<close>

definition http_Error :: "headers \<Rightarrow> string \<Rightarrow> nat \<Rightarrow> ('e, 'r) http_response" where
  "http_Error h message status =
     \<lparr>rp_status = status,
      rp_headers = h(''Content-Type'' \<mapsto> ''text/plain; charset=utf-8'', ''X-Content-Type-Options'' \<mapsto> ''nosniff''),
      rp_body = PlainBody message\<rparr>"

definition NotFound :: "headers \<Rightarrow> ('e, 'r) http_response" where
  "NotFound h = http_Error h ''404 page not found'' 404"

subsection \<open>Checks\<close>

text \<open>\<open>strconv.ParseUint\<close> in base 10 with 64 bits: digits only, no sign.\<close>

definition ParseUint :: "string \<Rightarrow> nat option" where
  "ParseUint s =
     (if s = [] then None
      else case digits_value 0 s of
             None \<Rightarrow> None
           | Some n \<Rightarrow> if n < 2 ^ 64 then Some (nat n) else None)"

definition parseSessionID :: "string \<Rightarrow> nat option" where
  "parseSessionID v = (case ParseUint v of None \<Rightarrow> None | Some i \<Rightarrow> if i = 0 then None else Some i)"

definition sameOrigin :: "http_request \<Rightarrow> bool" where
  "sameOrigin request \<longleftrightarrow> rq_origin request = [] \<or> rq_origin request = ''http://'' @ rq_host request \<or>
     rq_origin request = ''https://'' @ rq_host request"

primrec workbenchModifiers :: "string list \<Rightarrow> string + key_modifiers list" where
  "workbenchModifiers [] = Inr []"
| "workbenchModifiers (name # names) =
     (if name = ''Shift'' then map_sum id (Cons ModifierShift) (workbenchModifiers names)
      else if name = ''Alt'' \<or> name = ''Meta'' then map_sum id (Cons ModifierAlt) (workbenchModifiers names)
      else if name = ''Control'' then map_sum id (Cons ModifierControl) (workbenchModifiers names)
      else Inl name)"

text \<open>
  A JSON value is decoded by the first \<open>Decode\<close>, which returns what is left of the body; the second one
  must then find the end: nothing but the white space of JSON.
\<close>

definition json_space :: "byte \<Rightarrow> bool" where
  "json_space b \<longleftrightarrow> b = 0x20 \<or> b = 0x09 \<or> b = 0x0A \<or> b = 0x0D"

definition decodeWorkbenchRequest :: "(byte list \<Rightarrow> ('a \<times> byte list) option) \<Rightarrow> http_request \<Rightarrow> 'a option" where
  "decodeWorkbenchRequest decode request =
     (case decode (rq_body request) of
        None \<Rightarrow> None
      | Some (v, rest) \<Rightarrow> if list_all json_space rest then Some v else None)"

text \<open>The parameters of the four requests with a body.\<close>

record request_decoders =
  dc_type :: "byte list \<Rightarrow> ((string \<times> string) \<times> byte list) option"
  dc_press :: "byte list \<Rightarrow> ((string \<times> string list) \<times> byte list) option"
  dc_assert :: "byte list \<Rightarrow> ((string \<times> int) \<times> byte list) option"
  dc_replay :: "byte list \<Rightarrow> ((string \<rightharpoonup> string) \<times> byte list) option"

subsection \<open>The Inspector\<close>

definition snapshot_state :: "driverSnapshot \<Rightarrow> string" where
  "snapshot_state s = (if ds_closed s then ''closed'' else ''running'')"

definition health :: "headers \<Rightarrow> ('e, 'r) http_response" where
  "health h = \<lparr>rp_status = 200,
     rp_headers = h(''Content-Type'' \<mapsto> ''text/plain; charset=utf-8'', ''Cache-Control'' \<mapsto> ''no-store''),
     rp_body = PlainBody (''ok'' @ [CHR 0x0A])\<rparr>"

definition ready :: "headers \<Rightarrow> driverSnapshot \<Rightarrow> ('e, 'r) http_response" where
  "ready h s =
     json_response h (if snapshot_state s \<noteq> ''running'' then 503 else 200) (ReadyBody (snapshot_state s))"

definition state_response :: "headers \<Rightarrow> driverSnapshot \<Rightarrow> ('e, 'r) http_response" where
  "state_response h s = json_response h 200 (StateBody s)"

definition capabilities :: "headers \<Rightarrow> bool \<Rightarrow> ('e, 'r) http_response" where
  "capabilities h workbench = json_response h 200 (CapabilitiesBody workbench)"

text \<open>\<open>PathValue(''id'')\<close> is empty on a route without the wildcard; the page is embedded.\<close>

definition application_page :: "headers \<Rightarrow> http_request \<Rightarrow> string \<Rightarrow> ('e, 'r) http_response" where
  "application_page h request pathID =
     (if rq_path request \<noteq> ''/'' \<and> parseSessionID pathID = None then NotFound h
      else \<lparr>rp_status = 200,
            rp_headers = h(''Content-Type'' \<mapsto> ''text/html; charset=utf-8'', ''Cache-Control'' \<mapsto> ''no-store''),
            rp_body = IndexPage\<rparr>)"

subsection \<open>Screens as server-sent events\<close>

record cellResult =
  ce_text :: string
  ce_width :: int
  ce_foreground :: int
  ce_background :: int
  ce_attributes :: nat

record screenResult =
  sr_width :: int
  sr_height :: int
  sr_cells :: "cellResult list"
  sr_column :: int
  sr_row :: int
  sr_visible :: bool
  sr_revision :: nat
  sr_text :: string
  sr_title :: string

definition int16 :: "int \<Rightarrow> int" where
  "int16 n = sint (word_of_int n :: 16 word)"

definition makeCell :: "cell \<Rightarrow> cellResult" where
  "makeCell c = \<lparr>ce_text = cell_text c, ce_width = cell_width c, ce_foreground = int16 (cell_foreground c),
     ce_background = int16 (cell_background c), ce_attributes = unat (cell_attributes c)\<rparr>"

definition makeScreen :: "screen \<Rightarrow> screenResult" where
  "makeScreen s = \<lparr>sr_width = scr_width s, sr_height = scr_height s, sr_cells = map makeCell (scr_cells s),
     sr_column = cur_column (scr_cursor s), sr_row = cur_row (scr_cursor s), sr_visible = cur_visible (scr_cursor s),
     sr_revision = scr_revision s, sr_text = Text s, sr_title = scr_title s\<rparr>"

text \<open>
  What the \<open>select\<close> of the stream receives: the end of the request, a screen, the end of the screens, or
  the keep-alive ticker. \<open>encode\<close> is \<open>json.Marshal\<close>; the \<open>n\<close>-th write to the client may fail.
\<close>

datatype feed = RequestDone | NextScreen screen | ScreensClosed | KeepaliveTick

definition sse_lines :: "string \<Rightarrow> string \<Rightarrow> string" where
  "sse_lines name content =
     ''event: '' @ name @ [CHR 0x0A] @ ''data: '' @ content @ [CHR 0x0A, CHR 0x0A]"

fun screen_stream :: "(screenResult \<Rightarrow> string option) \<Rightarrow> (nat \<Rightarrow> bool) \<Rightarrow> nat \<Rightarrow> feed list \<Rightarrow> string list" where
  "screen_stream encode fails n [] = []"
| "screen_stream encode fails n (f # fs) =
     (case f of
        RequestDone \<Rightarrow> []
      | ScreensClosed \<Rightarrow> if fails n then [] else [sse_lines ''end'' ''{}'']
      | NextScreen s \<Rightarrow>
          (case encode (makeScreen s) of
             None \<Rightarrow> []
           | Some content \<Rightarrow>
               if fails n then [] else sse_lines ''screen'' content # screen_stream encode fails (Suc n) fs)
      | KeepaliveTick \<Rightarrow>
          if fails n then [] else ('': keepalive'' @ [CHR 0x0A, CHR 0x0A]) # screen_stream encode fails (Suc n) fs)"

subsection \<open>The Workbench\<close>

text \<open>What a handler leaves: the response, the recordings and the world; \<open>None\<close> when a control has not returned.\<close>

type_synonym ('h, 'e, 'w) handled = "('e wb_response \<times> 'h manager \<times> 'w) option"

definition writeWorkbenchError :: "headers \<Rightarrow> 'e workbench_error \<Rightarrow> 'e wb_response" where
  "writeWorkbenchError h e = json_response h 409 (ErrorBody e)"

definition writeWorkbenchResult :: "headers \<Rightarrow> bool \<Rightarrow> 'e workbench_error + recording \<Rightarrow> 'e wb_response" where
  "writeWorkbenchResult h active r =
     (case r of Inl e \<Rightarrow> writeWorkbenchError h e | Inr rec \<Rightarrow> json_response h 200 (RecordingBody active rec))"

definition forbidden :: "headers \<Rightarrow> 'e wb_response" where
  "forbidden h = http_Error h ''cross-origin Workbench requests are forbidden'' 403"

definition invalid_request :: "headers \<Rightarrow> 'e wb_response" where
  "invalid_request h = http_Error h ''invalid Workbench request'' 400"

text \<open>The checks every changing route starts with: the origin, then the session of the path.\<close>

definition guarded ::
  "headers \<Rightarrow> http_request \<Rightarrow> string \<Rightarrow> (nat \<Rightarrow> ('h, 'e, 'w) handled) \<Rightarrow> 'h manager \<Rightarrow> 'w \<Rightarrow> ('h, 'e, 'w) handled" where
  "guarded h request pathID handler m w =
     (if \<not> sameOrigin request then Some (forbidden h, m, w)
      else case parseSessionID pathID of
             None \<Rightarrow> Some (NotFound h, m, w)
           | Some i \<Rightarrow> handler i)"

text \<open>The body is read after that; a malformed one leaves everything as it is.\<close>

definition with_body ::
  "headers \<Rightarrow> (byte list \<Rightarrow> ('a \<times> byte list) option) \<Rightarrow> http_request \<Rightarrow> ('a \<Rightarrow> ('h, 'e, 'w) handled) \<Rightarrow>
     'h manager \<Rightarrow> 'w \<Rightarrow> ('h, 'e, 'w) handled" where
  "with_body h decode request handler m w =
     (case decodeWorkbenchRequest decode request of None \<Rightarrow> Some (invalid_request h, m, w) | Some v \<Rightarrow> handler v)"

definition recorded ::
  "headers \<Rightarrow> bool \<Rightarrow> (recording, 'h, 'e, 'w) managed \<Rightarrow> ('h, 'e, 'w) handled" where
  "recorded h active r = map_option (\<lambda>(v, m, w). (writeWorkbenchResult h active v, m, w)) r"

definition startWorkbenchRecording ::
  "('h, 'e, 'w) control_ops \<Rightarrow> ('w \<Rightarrow> driverSnapshot) \<Rightarrow> headers \<Rightarrow> http_request \<Rightarrow> string \<Rightarrow> 'h manager \<Rightarrow> 'w \<Rightarrow>
     ('h, 'e, 'w) handled" where
  "startWorkbenchRecording K source h request pathID m w =
     guarded h request pathID (\<lambda>i.
       case find (\<lambda>s. sn_id s = i) (ds_sessions (source w)) of
         None \<Rightarrow> Some (NotFound h, m, w)
       | Some s \<Rightarrow>
           if sn_ended s then Some (json_response h 409 (SessionEndedBody i), m, w)
           else recorded h True (Start K \<lparr>ws_id = i, ws_terminal = sn_terminal s, ws_width = sn_width s,
                                          ws_height = sn_height s\<rparr> m w)) m w"

definition stopWorkbenchRecording ::
  "('h, 'e, 'w) control_ops \<Rightarrow> headers \<Rightarrow> http_request \<Rightarrow> string \<Rightarrow> 'h manager \<Rightarrow> 'w \<Rightarrow> ('h, 'e, 'w) handled" where
  "stopWorkbenchRecording K h request pathID m w =
     guarded h request pathID (\<lambda>i. recorded h False (Stop K i m w)) m w"

definition workbenchRecording :: "headers \<Rightarrow> string \<Rightarrow> 'h manager \<Rightarrow> 'e wb_response" where
  "workbenchRecording h pathID m =
     (case parseSessionID pathID of
        None \<Rightarrow> NotFound h
      | Some i \<Rightarrow>
          (case current_recording i m of
             Inl e \<Rightarrow> writeWorkbenchError h e
           | Inr (rec, active) \<Rightarrow> json_response h 200 (RecordingBody active rec)))"

definition workbenchType ::
  "('h, 'e, 'w) control_ops \<Rightarrow> request_decoders \<Rightarrow> headers \<Rightarrow> http_request \<Rightarrow> string \<Rightarrow> 'h manager \<Rightarrow> 'w \<Rightarrow>
     ('h, 'e, 'w) handled" where
  "workbenchType K D h request pathID m w =
     guarded h request pathID (\<lambda>i.
       with_body h (dc_type D) request (\<lambda>(t, parameter). recorded h True (Type K i t parameter m w)) m w) m w"

definition workbenchPress ::
  "('h, 'e, 'w) control_ops \<Rightarrow> request_decoders \<Rightarrow> headers \<Rightarrow> http_request \<Rightarrow> string \<Rightarrow> 'h manager \<Rightarrow> 'w \<Rightarrow>
     ('h, 'e, 'w) handled" where
  "workbenchPress K D h request pathID m w =
     guarded h request pathID (\<lambda>i.
       with_body h (dc_press D) request (\<lambda>(key, names).
         case workbenchModifiers names of
           Inl name \<Rightarrow> Some (json_response h 409 (ModifierBody name), m, w)
         | Inr ms \<Rightarrow> recorded h True (PressRecorded K i key ms m w)) m w) m w"

text \<open>\<open>time.Duration(ms) * time.Millisecond\<close> wraps in 64 bits: \<open>duration_of\<close>.\<close>

definition workbenchAssert ::
  "('h, 'e, 'w) control_ops \<Rightarrow> request_decoders \<Rightarrow> headers \<Rightarrow> http_request \<Rightarrow> string \<Rightarrow> 'h manager \<Rightarrow> 'w \<Rightarrow>
     ('h, 'e, 'w) handled" where
  "workbenchAssert K D h request pathID m w =
     guarded h request pathID (\<lambda>i.
       with_body h (dc_assert D) request (\<lambda>(t, timeoutMilliseconds).
         recorded h True (AssertText K i t (duration_of timeoutMilliseconds) m w)) m w) m w"

definition workbenchReplay ::
  "('h, 'e, 'w) control_ops \<Rightarrow> (string \<Rightarrow> string) \<Rightarrow> request_decoders \<Rightarrow> headers \<Rightarrow> http_request \<Rightarrow> string \<Rightarrow>
     'h manager \<Rightarrow> 'w \<Rightarrow> ('h, 'e, 'w) handled" where
  "workbenchReplay K quote D h request pathID m w =
     guarded h request pathID (\<lambda>i.
       with_body h (dc_replay D) request (\<lambda>parameters.
         map_option (\<lambda>(failure, w').
             (case failure of
                Some e \<Rightarrow> writeWorkbenchError h e
              | None \<Rightarrow> \<lparr>rp_status = 200, rp_headers = h(''Content-Type'' \<mapsto> ''application/json''), rp_body = ReplayedBody\<rparr>,
              m, w')) (Replay K quote i parameters m w)) m w) m w"

subsection \<open>Routes\<close>

text \<open>
  The multiplexer on a cleaned path without a trailing slash, by its segments: the most specific pattern
  wins, \<open>GET\<close> patterns also serve \<open>HEAD\<close>, and a path that only other methods have is answered with 405.
  The directory \<open>/assets/\<close> itself, to which the multiplexer redirects, is left out.
\<close>

datatype route =
    Health | Ready | StateRoute | Capabilities | ScreensRoute string | Page string | Assets "string list"
  | Recorded string | StartRoute string | StopRoute string | TypeRoute string | PressRoute string
  | AssertRoute string | ReplayRoute string | MethodNotAllowed

definition get_route :: "bool \<Rightarrow> string list \<Rightarrow> route" where
  "get_route workbench p =
     (case p of
        [a] \<Rightarrow> if a = ''healthz'' then Health else if a = ''readyz'' then Ready else Page []
      | [a, b] \<Rightarrow>
          if a = ''api'' \<and> b = ''state'' then StateRoute
          else if a = ''api'' \<and> b = ''capabilities'' then Capabilities
          else if a = ''sessions'' then Page b
          else if a = ''assets'' then Assets [b]
          else Page []
      | [a, b, c] \<Rightarrow>
          if workbench \<and> a = ''workbench'' \<and> b = ''sessions'' then Page c
          else if a = ''assets'' then Assets [b, c] else Page []
      | [a, b, c, d] \<Rightarrow>
          if a = ''api'' \<and> b = ''sessions'' \<and> d = ''screens'' then ScreensRoute c
          else if a = ''assets'' then Assets [b, c, d] else Page []
      | [a, b, c, d, e] \<Rightarrow>
          if workbench \<and> a = ''api'' \<and> b = ''workbench'' \<and> c = ''sessions'' \<and> e = ''recording'' then Recorded d
          else if a = ''assets'' then Assets [b, c, d, e] else Page []
      | a # rest \<Rightarrow> if a = ''assets'' then Assets rest else Page []
      | [] \<Rightarrow> Page [])"

definition post_route :: "bool \<Rightarrow> string list \<Rightarrow> route" where
  "post_route workbench p =
     (case p of
        [a, b, c, d, e] \<Rightarrow>
          if workbench \<and> a = ''api'' \<and> b = ''workbench'' \<and> c = ''sessions'' then
            (if e = ''type'' then TypeRoute d else if e = ''press'' then PressRoute d
             else if e = ''assert'' then AssertRoute d else if e = ''replay'' then ReplayRoute d
             else MethodNotAllowed)
          else MethodNotAllowed
      | [a, b, c, d, e, f] \<Rightarrow>
          if workbench \<and> a = ''api'' \<and> b = ''workbench'' \<and> c = ''sessions'' \<and> e = ''recording'' then
            (if f = ''start'' then StartRoute d else if f = ''stop'' then StopRoute d else MethodNotAllowed)
          else MethodNotAllowed
      | _ \<Rightarrow> MethodNotAllowed)"

definition route_of :: "bool \<Rightarrow> http_request \<Rightarrow> route" where
  "route_of workbench request =
     (if rq_method request = ''GET'' \<or> rq_method request = ''HEAD'' then get_route workbench (rq_segments request)
      else if rq_method request = ''POST'' then post_route workbench (rq_segments request)
      else MethodNotAllowed)"

definition HasPrefix :: "string \<Rightarrow> string \<Rightarrow> bool" where
  "HasPrefix s prefix \<longleftrightarrow> take (length prefix) s = prefix"

definition quoted_self :: string where
  "quoted_self = [CHR 0x27] @ ''self'' @ [CHR 0x27]"

definition content_policy :: string where
  "content_policy = ''default-src '' @ quoted_self @ ''; connect-src '' @ quoted_self @ ''; script-src '' @ quoted_self @
     ''; style-src '' @ quoted_self"

definition securityHeaders :: "http_request \<Rightarrow> headers" where
  "securityHeaders request =
     (let h = [''Content-Security-Policy'' \<mapsto>
                 content_policy,
               ''Referrer-Policy'' \<mapsto> ''no-referrer'', ''X-Content-Type-Options'' \<mapsto> ''nosniff'', ''X-Frame-Options'' \<mapsto> ''DENY'']
      in if HasPrefix (rq_path request) ''/api/'' then h(''Cache-Control'' \<mapsto> ''no-store'') else h)"

subsection \<open>One request\<close>

record ('h, 'e, 'w) web_server =
  wu_controls :: "('h, 'e, 'w) control_ops"
  wu_quote :: "string \<Rightarrow> string"
  wu_decoders :: request_decoders
  wu_source :: "'w \<Rightarrow> driverSnapshot"
  wu_screens :: "nat \<Rightarrow> 'w \<Rightarrow> feed list option"
  wu_encode :: "screenResult \<Rightarrow> string option"
  wu_fails :: "nat \<Rightarrow> bool"
  wu_workbench :: bool
  wu_asset :: "string list \<Rightarrow> bool"

text \<open>The stream of a session's screens; \<open>SessionScreens\<close> fails when the session is not registered.\<close>

definition screens_response ::
  "('h, 'e, 'w) web_server \<Rightarrow> headers \<Rightarrow> string \<Rightarrow> 'w \<Rightarrow> 'e wb_response" where
  "screens_response U h pathID w =
     (case parseSessionID pathID of
        None \<Rightarrow> NotFound h
      | Some i \<Rightarrow>
          (case wu_screens U i w of
             None \<Rightarrow> NotFound h
           | Some feeds \<Rightarrow>
               \<lparr>rp_status = 200,
                rp_headers = h(''Content-Type'' \<mapsto> ''text/event-stream'', ''Cache-Control'' \<mapsto> ''no-store'',
                               ''Connection'' \<mapsto> ''keep-alive''),
                rp_body = EventStream (screen_stream (wu_encode U) (wu_fails U) 0 feeds)\<rparr>))"

definition serve_route ::
  "('h, 'e, 'w) web_server \<Rightarrow> headers \<Rightarrow> http_request \<Rightarrow> route \<Rightarrow> 'h manager \<Rightarrow> 'w \<Rightarrow> ('h, 'e, 'w) handled" where
  "serve_route U h request r m w =
     (let K = wu_controls U; D = wu_decoders U
      in case r of
           Health \<Rightarrow> Some (health h, m, w)
         | Ready \<Rightarrow> Some (ready h (wu_source U w), m, w)
         | StateRoute \<Rightarrow> Some (state_response h (wu_source U w), m, w)
         | Capabilities \<Rightarrow> Some (capabilities h (wu_workbench U), m, w)
         | ScreensRoute i \<Rightarrow> Some (screens_response U h i w, m, w)
         | Page i \<Rightarrow> Some (application_page h request i, m, w)
         | Assets p \<Rightarrow>
             Some (if wu_asset U p then \<lparr>rp_status = 200, rp_headers = h, rp_body = StaticFile p\<rparr> else NotFound h, m, w)
         | Recorded i \<Rightarrow> Some (workbenchRecording h i m, m, w)
         | StartRoute i \<Rightarrow> startWorkbenchRecording K (wu_source U) h request i m w
         | StopRoute i \<Rightarrow> stopWorkbenchRecording K h request i m w
         | TypeRoute i \<Rightarrow> workbenchType K D h request i m w
         | PressRoute i \<Rightarrow> workbenchPress K D h request i m w
         | AssertRoute i \<Rightarrow> workbenchAssert K D h request i m w
         | ReplayRoute i \<Rightarrow> workbenchReplay K (wu_quote U) D h request i m w
         | MethodNotAllowed \<Rightarrow> Some (http_Error h ''Method Not Allowed'' 405, m, w))"

definition serve_http ::
  "('h, 'e, 'w) web_server \<Rightarrow> http_request \<Rightarrow> 'h manager \<Rightarrow> 'w \<Rightarrow> ('h, 'e, 'w) handled" where
  "serve_http U request m w =
     serve_route U (securityHeaders request) request (route_of (wu_workbench U) request) m w"

section \<open>Who may change what\<close>

text \<open>
  The Workbench over HTTP changes nothing for a request that is not its own: who may change the
  recordings and the sessions, and which headers every response has.
\<close>

subsection \<open>Session identifiers\<close>

lemma parseSessionID_range: "parseSessionID v = Some i \<Longrightarrow> 0 < i \<and> i < 2 ^ 64"
  by (auto simp: parseSessionID_def ParseUint_def split: option.splits if_splits)

subsection \<open>What a recorder operation may change\<close>

lemma Start_frame:
  assumes "Start K s m w = Some (r, m', w')" "j \<noteq> ws_id s"
  shows "m' j = m j"
proof (cases "co_acquire K (ws_id s) w")
  case (Some p)
  then obtain acquired w1 where "co_acquire K (ws_id s) w = Some (acquired, w1)" by (cases p) simp
  then show ?thesis
    using assms by (cases acquired) (auto simp: Start_def Let_def bind_Some_iff split: if_split_asm)
qed (use assms in \<open>auto simp: Start_def split: if_split_asm\<close>)

lemma append_step_frame: "append_step i p state m = (r, m') \<Longrightarrow> j \<noteq> i \<Longrightarrow> m' j = m j"
  by (auto simp: append_step_def Let_def)

lemma Type_frame: "Type K i t p m w = Some (r, m', w') \<Longrightarrow> j \<noteq> i \<Longrightarrow> m' j = m j"
  by (auto simp: Type_def bind_Some_iff append_step_def Let_def
      split: if_split_asm sum.split_asm prod.split_asm option.split_asm)

lemma Press_frame: "PressRecorded K i key ms m w = Some (r, m', w') \<Longrightarrow> j \<noteq> i \<Longrightarrow> m' j = m j"
  by (auto simp: PressRecorded_def bind_Some_iff append_step_def Let_def
      split: if_split_asm sum.split_asm prod.split_asm option.split_asm)

lemma Assert_frame: "AssertText K i t d m w = Some (r, m', w') \<Longrightarrow> j \<noteq> i \<Longrightarrow> m' j = m j"
  by (auto simp: AssertText_def bind_Some_iff append_step_def Let_def
      split: if_split_asm sum.split_asm prod.split_asm option.split_asm)

lemma Stop_frame: "Stop K i m w = Some (r, m', w') \<Longrightarrow> j \<noteq> i \<Longrightarrow> m' j = m j"
  by (auto simp: Stop_def bind_Some_iff split: if_splits option.splits)

lemmas recorder_frames = Start_frame Type_frame Press_frame Assert_frame Stop_frame

subsection \<open>The guards\<close>

text \<open>What a handler behind the guards leaves: nothing changed, or only the recording of its session.\<close>

definition confined :: "http_request \<Rightarrow> string \<Rightarrow> 'h manager \<Rightarrow> 'w \<Rightarrow> ('h, 'e, 'w) handled \<Rightarrow> bool" where
  "confined request pathID m w r \<longleftrightarrow>
     (\<forall>response m' w'. r = Some (response, m', w') \<and> (m' \<noteq> m \<or> w' \<noteq> w) \<longrightarrow>
        sameOrigin request \<and> (\<exists>i. parseSessionID pathID = Some i \<and> (\<forall>j. j \<noteq> i \<longrightarrow> m' j = m j)))"

lemma confined_same: "confined request pathID m w (Some (response, m, w))"
  by (simp add: confined_def)

lemma confined_guarded:
  assumes "\<And>i response m' w'. parseSessionID pathID = Some i \<Longrightarrow> handler i = Some (response, m', w') \<Longrightarrow>
     \<forall>j. j \<noteq> i \<longrightarrow> m' j = m j"
  shows "confined request pathID m w (guarded h request pathID handler m w)"
  using assms by (auto simp: confined_def guarded_def split: option.splits)

lemma with_body_frame:
  assumes "with_body h decode request handler m w = Some (response, m', w')"
    "\<And>v. handler v = Some (response, m', w') \<Longrightarrow> \<forall>j. j \<noteq> i \<longrightarrow> m' j = m j"
  shows "\<forall>j. j \<noteq> i \<longrightarrow> m' j = m j"
  using assms by (auto simp: with_body_def split: option.splits)

lemma recorded_frame:
  assumes "recorded h active r = Some (response, m', w')"
  obtains v where "r = Some (v, m', w')"
  using assms by (auto simp: recorded_def)

lemma workbench_confined:
  "confined request p m w (startWorkbenchRecording K source h request p m w)"
  "confined request p m w (stopWorkbenchRecording K h request p m w)"
  "confined request p m w (workbenchType K D h request p m w)"
  "confined request p m w (workbenchPress K D h request p m w)"
  "confined request p m w (workbenchAssert K D h request p m w)"
  "confined request p m w (workbenchReplay K quote D h request p m w)"
  unfolding startWorkbenchRecording_def stopWorkbenchRecording_def workbenchType_def workbenchPress_def
    workbenchAssert_def workbenchReplay_def
  by (rule confined_guarded;
      auto split: option.split_asm if_split_asm sum.split_asm prod.split_asm elim!: recorded_frame with_body_frame
        dest: recorder_frames)+

definition changing :: "route \<Rightarrow> string option" where
  "changing r =
     (case r of StartRoute i \<Rightarrow> Some i | StopRoute i \<Rightarrow> Some i | TypeRoute i \<Rightarrow> Some i | PressRoute i \<Rightarrow> Some i
      | AssertRoute i \<Rightarrow> Some i | ReplayRoute i \<Rightarrow> Some i | _ \<Rightarrow> None)"

definition action_of :: "route \<Rightarrow> string list" where
  "action_of r =
     (case r of StartRoute _ \<Rightarrow> [''recording'', ''start''] | StopRoute _ \<Rightarrow> [''recording'', ''stop''] | TypeRoute _ \<Rightarrow> [''type'']
      | PressRoute _ \<Rightarrow> [''press''] | AssertRoute _ \<Rightarrow> [''assert''] | ReplayRoute _ \<Rightarrow> [''replay''] | _ \<Rightarrow> [])"

lemma get_route_reads: "changing (get_route workbench p) = None"
  by (auto simp: get_route_def changing_def split: list.splits)

lemma post_route_path:
  "changing (post_route workbench p) = Some i \<Longrightarrow>
     workbench \<and> p = ''api'' # ''workbench'' # ''sessions'' # i # action_of (post_route workbench p)"
  by (auto simp: post_route_def changing_def action_of_def split: list.splits if_splits)

lemma changing_route:
  assumes "changing (route_of workbench request) = Some i"
  shows "rq_method request = ''POST'' \<and> workbench \<and>
    rq_segments request = ''api'' # ''workbench'' # ''sessions'' # i # action_of (route_of workbench request)"
  using assms post_route_path [of workbench "rq_segments request" i]
  by (auto simp: route_of_def get_route_reads split: if_splits) (simp_all add: changing_def)

subsection \<open>The action of a request\<close>

text \<open>
  What a request to the action \<open>action\<close> of session \<open>i\<close> does to the recordings and the world: the
  recorder's operation of that action, on the parameters in the body.
\<close>

definition performed ::
  "('h, 'e, 'w) web_server \<Rightarrow> http_request \<Rightarrow> nat \<Rightarrow> string list \<Rightarrow> 'h manager \<Rightarrow> 'w \<Rightarrow> 'h manager \<Rightarrow> 'w \<Rightarrow> bool" where
  "performed U request i action m w m' w' \<longleftrightarrow>
     action = [''recording'', ''start''] \<and>
       (\<exists>s v. s \<in> set (ds_sessions (wu_source U w)) \<and> sn_id s = i \<and> \<not> sn_ended s \<and>
          Start (wu_controls U) \<lparr>ws_id = i, ws_terminal = sn_terminal s, ws_width = sn_width s, ws_height = sn_height s\<rparr> m w =
            Some (v, m', w')) \<or>
     action = [''recording'', ''stop''] \<and> (\<exists>v. Stop (wu_controls U) i m w = Some (v, m', w')) \<or>
     action = [''type''] \<and>
       (\<exists>t p v. decodeWorkbenchRequest (dc_type (wu_decoders U)) request = Some (t, p) \<and>
          Type (wu_controls U) i t p m w = Some (v, m', w')) \<or>
     action = [''press''] \<and>
       (\<exists>key names ms v. decodeWorkbenchRequest (dc_press (wu_decoders U)) request = Some (key, names) \<and>
          workbenchModifiers names = Inr ms \<and> PressRecorded (wu_controls U) i key ms m w = Some (v, m', w')) \<or>
     action = [''assert''] \<and>
       (\<exists>t ms v. decodeWorkbenchRequest (dc_assert (wu_decoders U)) request = Some (t, ms) \<and>
          AssertText (wu_controls U) i t (duration_of ms) m w = Some (v, m', w')) \<or>
     action = [''replay''] \<and> m' = m \<and>
       (\<exists>ps v. decodeWorkbenchRequest (dc_replay (wu_decoders U)) request = Some ps \<and>
          Replay (wu_controls U) (wu_quote U) i ps m w = Some (v, w'))"

lemma guarded_changes:
  assumes "guarded h request p handler m w = Some (response, m', w')" "m' \<noteq> m \<or> w' \<noteq> w"
  shows "\<exists>i. parseSessionID p = Some i \<and> handler i = Some (response, m', w')"
  using assms by (auto simp: guarded_def split: if_splits option.splits)

lemma with_body_changes:
  assumes "with_body h decode request handler m w = Some (response, m', w')" "m' \<noteq> m \<or> w' \<noteq> w"
  shows "\<exists>v. decodeWorkbenchRequest decode request = Some v \<and> handler v = Some (response, m', w')"
  using assms by (auto simp: with_body_def split: option.splits)

lemma route_performed:
  assumes "serve_route U h request r m w = Some (response, m', w')" "m' \<noteq> m \<or> w' \<noteq> w" "changing r = Some p"
  shows "\<exists>i. parseSessionID p = Some i \<and> performed U request i (action_of r) m w m' w'"
proof (cases r)
  case (StartRoute q)
  then have "startWorkbenchRecording (wu_controls U) (wu_source U) h request p m w = Some (response, m', w')"
    using assms(1,3) by (simp add: serve_route_def changing_def Let_def)
  from guarded_changes [OF this [unfolded startWorkbenchRecording_def] assms(2)]
  obtain i where i: "parseSessionID p = Some i"
      "(case find (\<lambda>s. sn_id s = i) (ds_sessions (wu_source U w)) of
         None \<Rightarrow> Some (NotFound h, m, w)
       | Some s \<Rightarrow>
           if sn_ended s then Some (json_response h 409 (SessionEndedBody i), m, w)
           else recorded h True (Start (wu_controls U) \<lparr>ws_id = i, ws_terminal = sn_terminal s,
                  ws_width = sn_width s, ws_height = sn_height s\<rparr> m w)) = Some (response, m', w')" by blast
  then obtain s where s: "find (\<lambda>s. sn_id s = i) (ds_sessions (wu_source U w)) = Some s"
    using assms(2) by (auto split: option.split_asm)
  have "s \<in> set (ds_sessions (wu_source U w))" "sn_id s = i" using s by (auto simp: find_Some_iff)
  moreover have "\<not> sn_ended s" using i(2) assms(2) unfolding s option.case(2) by (auto split: if_split_asm)
  ultimately show ?thesis using i s unfolding StartRoute
    by (fastforce simp: performed_def action_of_def elim!: recorded_frame)
next
  case (StopRoute q)
  then have "stopWorkbenchRecording (wu_controls U) h request p m w = Some (response, m', w')"
    using assms(1,3) by (simp add: serve_route_def changing_def Let_def)
  from guarded_changes [OF this [unfolded stopWorkbenchRecording_def] assms(2)]
  show ?thesis unfolding StopRoute by (auto simp: performed_def action_of_def elim!: recorded_frame)
next
  case (TypeRoute q)
  then have "workbenchType (wu_controls U) (wu_decoders U) h request p m w = Some (response, m', w')"
    using assms(1,3) by (simp add: serve_route_def changing_def Let_def)
  from guarded_changes [OF this [unfolded workbenchType_def] assms(2)] obtain i where
    i: "parseSessionID p = Some i" "with_body h (dc_type (wu_decoders U)) request
      (\<lambda>(t, parameter). recorded h True (Type (wu_controls U) i t parameter m w)) m w = Some (response, m', w')" by blast
  from with_body_changes [OF i(2) assms(2)] show ?thesis
    using i(1) unfolding TypeRoute by (auto simp: performed_def action_of_def elim!: recorded_frame)
next
  case (PressRoute q)
  then have "workbenchPress (wu_controls U) (wu_decoders U) h request p m w = Some (response, m', w')"
    using assms(1,3) by (simp add: serve_route_def changing_def Let_def)
  from guarded_changes [OF this [unfolded workbenchPress_def] assms(2)] obtain i where
    i: "parseSessionID p = Some i" "with_body h (dc_press (wu_decoders U)) request
      (\<lambda>(key, names). case workbenchModifiers names of
         Inl name \<Rightarrow> Some (json_response h 409 (ModifierBody name), m, w)
       | Inr ms \<Rightarrow> recorded h True (PressRecorded (wu_controls U) i key ms m w)) m w = Some (response, m', w')" by blast
  obtain key names where k: "decodeWorkbenchRequest (dc_press (wu_decoders U)) request = Some (key, names)"
      "(case workbenchModifiers names of
         Inl name \<Rightarrow> Some (json_response h 409 (ModifierBody name), m, w)
       | Inr ms \<Rightarrow> recorded h True (PressRecorded (wu_controls U) i key ms m w)) = Some (response, m', w')"
    using with_body_changes [OF i(2) assms(2)] by auto
  then obtain ms where ms: "workbenchModifiers names = Inr ms"
      "recorded h True (PressRecorded (wu_controls U) i key ms m w) = Some (response, m', w')"
    using assms(2) by (cases "workbenchModifiers names") auto
  then show ?thesis using i(1) k(1) unfolding PressRoute
    by (auto simp: performed_def action_of_def elim!: recorded_frame)
next
  case (AssertRoute q)
  then have "workbenchAssert (wu_controls U) (wu_decoders U) h request p m w = Some (response, m', w')"
    using assms(1,3) by (simp add: serve_route_def changing_def Let_def)
  from guarded_changes [OF this [unfolded workbenchAssert_def] assms(2)] obtain i where
    i: "parseSessionID p = Some i" "with_body h (dc_assert (wu_decoders U)) request
      (\<lambda>(t, timeoutMilliseconds).
         recorded h True (AssertText (wu_controls U) i t (duration_of timeoutMilliseconds) m w)) m w = Some (response, m', w')" by blast
  from with_body_changes [OF i(2) assms(2)] show ?thesis
    using i(1) unfolding AssertRoute by (auto simp: performed_def action_of_def elim!: recorded_frame)
next
  case (ReplayRoute q)
  then have "workbenchReplay (wu_controls U) (wu_quote U) (wu_decoders U) h request p m w = Some (response, m', w')"
    using assms(1,3) by (simp add: serve_route_def changing_def Let_def)
  from guarded_changes [OF this [unfolded workbenchReplay_def] assms(2)] obtain i where
    i: "parseSessionID p = Some i" "with_body h (dc_replay (wu_decoders U)) request (\<lambda>parameters.
         map_option (\<lambda>(failure, w').
             (case failure of
                Some e \<Rightarrow> writeWorkbenchError h e
              | None \<Rightarrow> \<lparr>rp_status = 200, rp_headers = h(''Content-Type'' \<mapsto> ''application/json''), rp_body = ReplayedBody\<rparr>,
              m, w')) (Replay (wu_controls U) (wu_quote U) i parameters m w)) m w = Some (response, m', w')" by blast
  from with_body_changes [OF i(2) assms(2)] show ?thesis
    using i(1) unfolding ReplayRoute by (auto simp: performed_def action_of_def)
qed (use assms(3) in \<open>simp_all add: changing_def\<close>)

lemma serve_route_confined:
  "(case changing r of
      Some i \<Rightarrow> confined request i m w (serve_route U h request r m w)
    | None \<Rightarrow> \<exists>response. serve_route U h request r m w = Some (response, m, w))"
  by (cases r) (simp_all add: changing_def serve_route_def Let_def workbench_confined)

text \<open>
  C38: The HTTP interface is read-only except for the six changing actions of the Workbench, and no page of
  another origin can reach them: a request after which the recordings or the terminal sessions differ was
  a POST to one of these actions of an enabled Workbench, came without an \<open>Origin\<close> header or with that of
  the host itself, and named by its path a session identifier between 1 and 2^64 - 1; the change is
  exactly what the recorder's operation of that action does for that session with the parameters of the
  body, and the recording of every other session is as it was. Every other request (other methods, other
  routes, other origins, malformed identifiers or bodies) changes nothing.
\<close>

theorem web_requests_guarded:
  assumes "serve_http U request m w = Some (response, m', w')" "m' \<noteq> m \<or> w' \<noteq> w"
  shows "rq_method request = ''POST'' \<and> wu_workbench U \<and>
    (rq_origin request = [] \<or> rq_origin request \<in> {''http://'' @ rq_host request, ''https://'' @ rq_host request}) \<and>
    (\<exists>v i action. rq_segments request = ''api'' # ''workbench'' # ''sessions'' # v # action \<and>
       parseSessionID v = Some i \<and> 0 < i \<and> i < 2 ^ 64 \<and> performed U request i action m w m' w' \<and>
       (\<forall>j. j \<noteq> i \<longrightarrow> m' j = m j))"
proof -
  let ?r = "route_of (wu_workbench U) request"
  have served: "serve_route U (securityHeaders request) request ?r m w = Some (response, m', w')"
    using assms(1) by (simp add: serve_http_def)
  obtain v where v: "changing ?r = Some v"
    using serve_route_confined [where r = ?r and request = request and m = m and w = w and U = U and h = "securityHeaders request"] served assms(2)
    by (cases "changing ?r") auto
  then have "confined request v m w (Some (response, m', w'))"
    using serve_route_confined [where r = ?r and request = request and m = m and w = w and U = U and h = "securityHeaders request"] served by simp
  then obtain i where "sameOrigin request" "parseSessionID v = Some i" "\<forall>j. j \<noteq> i \<longrightarrow> m' j = m j"
    using assms(2) by (auto simp: confined_def)
  moreover obtain i' where "parseSessionID v = Some i'" "performed U request i' (action_of ?r) m w m' w'"
    using route_performed [OF served assms(2) v] by blast
  ultimately show ?thesis
    using changing_route [OF v] parseSessionID_range [of v i] by (auto simp: sameOrigin_def)
qed

definition example_server :: "(unit, string, nat) web_server" where
  "example_server =
     \<lparr>wu_controls = \<lparr>co_acquire = (\<lambda>_ w. Some (Inr (), w)), co_send = (\<lambda>_ _ w. Some (None, w)),
                      co_press = (\<lambda>_ _ _ w. Some (None, w)), co_wait = (\<lambda>_ _ _ w. Some (None, w)),
                      co_screen = (\<lambda>_ _. \<lparr>scr_width = 1, scr_height = 1, scr_cells = [zero_cell], scr_cursor = zero_cursor,
                                              scr_revision = 0, scr_title = []\<rparr>),
                      co_release = (\<lambda>_ w. Some (Suc w))\<rparr>,
      wu_quote = (\<lambda>s. s),
      wu_decoders = \<lparr>dc_type = (\<lambda>_. None), dc_press = (\<lambda>_. None), dc_assert = (\<lambda>_. None), dc_replay = (\<lambda>_. None)\<rparr>,
      wu_source = (\<lambda>_. \<lparr>ds_closed = False, ds_connections = [], ds_sessions = []\<rparr>),
      wu_screens = (\<lambda>_ _. None), wu_encode = (\<lambda>_. None), wu_fails = (\<lambda>_. False), wu_workbench = True,
      wu_asset = (\<lambda>_. False)\<rparr>"

definition stop_request :: http_request where
  "stop_request = \<lparr>rq_method = ''POST'', rq_path = ''/api/workbench/sessions/7/recording/stop'',
     rq_segments = [''api'', ''workbench'', ''sessions'', ''7'', ''recording'', ''stop''], rq_host = ''localhost:8080'',
     rq_origin = ''http://localhost:8080'', rq_body = []\<rparr>"

definition one_recording :: "unit manager" where
  "one_recording = [7 \<mapsto> \<lparr>rs_active = True, rs_control = Some (),
     rs_recording = \<lparr>rc_version = ''1'', rc_session = \<lparr>ws_id = 7, ws_terminal = ''xterm'', ws_width = 80, ws_height = 24\<rparr>,
                      rc_steps = []\<rparr>\<rparr>]"

theorem web_requests_guarded_witness:
  "\<exists>response m'. serve_http example_server stop_request one_recording 0 = Some (response, m', 1) \<and>
     rp_status response = 200 \<and> (\<exists>v i. rq_segments stop_request ! 3 = v \<and> parseSessionID v = Some i \<and>
       (\<forall>j. j \<noteq> i \<longrightarrow> m' j = one_recording j))"
proof -
  have id: "parseSessionID ''7'' = Some 7" by code_simp
  have "sameOrigin stop_request" by code_simp
  then have "\<exists>response m'. serve_http example_server stop_request one_recording 0 = Some (response, m', 1) \<and>
      rp_status response = 200"
    by (simp add: serve_http_def stop_request_def route_of_def post_route_def serve_route_def example_server_def
        stopWorkbenchRecording_def guarded_def id Stop_def one_recording_def recorded_def writeWorkbenchResult_def
        json_response_def Let_def)
  then obtain response m' where r: "serve_http example_server stop_request one_recording 0 = Some (response, m', 1)"
    "rp_status response = 200" by blast
  then show ?thesis using web_requests_guarded [OF r(1)] by (auto simp: stop_request_def)
qed

subsection \<open>Headers\<close>

lemma securityHeaders_set:
  "securityHeaders request ''X-Frame-Options'' = Some ''DENY''"
  "securityHeaders request ''X-Content-Type-Options'' = Some ''nosniff''"
  "securityHeaders request ''Referrer-Policy'' = Some ''no-referrer''"
  "securityHeaders request ''Content-Security-Policy'' = Some content_policy"
  "HasPrefix (rq_path request) ''/api/'' \<Longrightarrow> securityHeaders request ''Cache-Control'' = Some ''no-store''"
  by (simp_all add: securityHeaders_def Let_def)

text \<open>The headers a handler may set on top of those of the middleware.\<close>

definition good_headers :: "headers \<Rightarrow> headers \<Rightarrow> bool" where
  "good_headers h h' \<longleftrightarrow>
     (\<forall>k \<in> {''Content-Security-Policy'', ''Referrer-Policy'', ''X-Frame-Options''}. h' k = h k) \<and>
     h' ''X-Content-Type-Options'' \<in> {h ''X-Content-Type-Options'', Some ''nosniff''} \<and>
     h' ''Cache-Control'' \<in> {h ''Cache-Control'', Some ''no-store''}"

definition good_response :: "headers \<Rightarrow> ('h, 'e, 'w) handled \<Rightarrow> bool" where
  "good_response h r \<longleftrightarrow> (\<forall>response m w. r = Some (response, m, w) \<longrightarrow> good_headers h (rp_headers response))"

lemma good_updates:
  "good_headers h h"
  "good_headers h (h(''Content-Type'' \<mapsto> x))"
  "good_headers h (h(''Content-Type'' \<mapsto> x, ''Cache-Control'' \<mapsto> ''no-store''))"
  "good_headers h (h(''Content-Type'' \<mapsto> x, ''X-Content-Type-Options'' \<mapsto> ''nosniff''))"
  "good_headers h (h(''Content-Type'' \<mapsto> x, ''Cache-Control'' \<mapsto> ''no-store'', ''Connection'' \<mapsto> ''keep-alive''))"
  by (simp_all add: good_headers_def)

lemma good_responses [simp]:
  "good_headers h (rp_headers (json_response h status body))"
  "good_headers h (rp_headers (http_Error h message status))"
  "good_headers h (rp_headers (NotFound h))"
  "good_headers h (rp_headers (health h))"
  "good_headers h (rp_headers (application_page h request p))"
  by (simp_all add: json_response_def json_headers_def http_Error_def NotFound_def health_def application_page_def
      good_updates)

lemma good_defined [simp]:
  "good_headers h (rp_headers (ready h s))" "good_headers h (rp_headers (state_response h s))"
  "good_headers h (rp_headers (capabilities h b))" "good_headers h (rp_headers (forbidden h))"
  "good_headers h (rp_headers (invalid_request h))" "good_headers h (rp_headers (writeWorkbenchError h e))"
  by (simp_all add: ready_def state_response_def capabilities_def forbidden_def invalid_request_def
      writeWorkbenchError_def)

lemma good_cases [simp]:
  "good_headers h (rp_headers (writeWorkbenchResult h active v))"
  "good_headers h (rp_headers (workbenchRecording h p m))"
  "good_headers h (rp_headers (screens_response U h p w))"
  by (simp_all add: writeWorkbenchResult_def workbenchRecording_def screens_response_def good_updates
      split: sum.split option.split prod.split)

lemma good_some [simp]: "good_headers h (rp_headers response) \<Longrightarrow> good_response h (Some (response, m, w))"
  by (simp add: good_response_def)

lemma good_recorded [simp]: "good_response h (recorded h active r)"
  by (cases r) (auto simp: good_response_def recorded_def)

lemma good_guarded:
  "(\<And>i. good_response h (handler i)) \<Longrightarrow> good_response h (guarded h request p handler m w)"
  by (simp add: guarded_def split: option.split)

lemma good_body:
  "(\<And>v. good_response h (handler v)) \<Longrightarrow> good_response h (with_body h decode request handler m w)"
  by (simp add: with_body_def split: option.split)

lemma good_replay:
  "good_response h (map_option (\<lambda>(failure, w'). (case failure of Some e \<Rightarrow> writeWorkbenchError h e
     | None \<Rightarrow> \<lparr>rp_status = 200, rp_headers = h(''Content-Type'' \<mapsto> ''application/json''), rp_body = ReplayedBody\<rparr>,
     m, w')) r)"
  by (cases r) (simp_all add: good_updates split: prod.split option.split, simp add: good_response_def)

lemma good_workbench:
  "good_response h (startWorkbenchRecording K source h request p m w)"
  "good_response h (stopWorkbenchRecording K h request p m w)"
  "good_response h (workbenchType K D h request p m w)"
  "good_response h (workbenchPress K D h request p m w)"
  "good_response h (workbenchAssert K D h request p m w)"
  "good_response h (workbenchReplay K quote D h request p m w)"
  unfolding startWorkbenchRecording_def stopWorkbenchRecording_def workbenchType_def workbenchPress_def
    workbenchAssert_def workbenchReplay_def
  by (intro good_guarded good_body good_replay; simp split: option.split prod.split sum.split)+

text \<open>
  Every response carries the security headers, and no response under \<open>/api/\<close> may be cached, whichever
  handler wrote it.
\<close>

lemma every_response_protected:
  assumes "serve_http U request m w = Some (response, m', w')"
  shows "rp_headers response ''X-Frame-Options'' = Some ''DENY'' \<and>
    rp_headers response ''X-Content-Type-Options'' = Some ''nosniff'' \<and>
    rp_headers response ''Content-Security-Policy'' = Some content_policy \<and>
    (HasPrefix (rq_path request) ''/api/'' \<longrightarrow> rp_headers response ''Cache-Control'' = Some ''no-store'')"
proof -
  let ?h = "securityHeaders request"
  have "good_response ?h (serve_route U ?h request r m w)" for r
    by (cases r) (simp_all add: serve_route_def Let_def good_workbench good_updates)
  then have "good_headers ?h (rp_headers response)" using assms unfolding serve_http_def good_response_def by blast
  then show ?thesis using securityHeaders_set [of request] unfolding good_headers_def by auto
qed

subsection \<open>Time-outs\<close>

text \<open>
  The time-out of an assertion is multiplied in 64 bits without a bound: just above 2^64 nanoseconds it
  wraps around to a small one, which is recorded, although the driver refuses the same number.
\<close>

lemma assert_timeout_wraps:
  "milliseconds_of (duration_of 18446744073711) = 1" "milliseconds 18446744073711 False = Inl ''value is too large''"
  by code_simp+

end
