(* ===== verification/Sdk_Screen.thy ===== *)
theory Sdk_Screen
  imports Screens Go_Strings
begin

text \<open>
  The screens of the Go client (\<open>sdk/go/screen.go\<close>): the snapshot the driver encodes (\<open>screenResult\<close> in
  \<open>driver/protocol.go\<close>), decoded into the client's own \<open>Screen\<close>, and the client's readers. Cells and cursors have
  the same fields on both sides and the same record here; JSON itself is taken as exact on them.
\<close>

record sdk_screen =
  cs_width :: int
  cs_height :: int
  cs_cells :: "cell list"
  cs_cursor :: cursor
  cs_revision :: nat
  cs_content :: string
  cs_title :: string

text \<open>The zero value, which accompanies an error.\<close>

definition zero_screen :: sdk_screen where
  "zero_screen = \<lparr>cs_width = 0, cs_height = 0, cs_cells = [], cs_cursor = zero_cursor, cs_revision = 0,
     cs_content = [], cs_title = []\<rparr>"

text \<open>What the client decodes of a screen the driver encoded with its text.\<close>

definition received_screen :: "screen \<Rightarrow> string \<Rightarrow> sdk_screen" where
  "received_screen s content =
     \<lparr>cs_width = scr_width s, cs_height = scr_height s, cs_cells = scr_cells s, cs_cursor = scr_cursor s,
      cs_revision = scr_revision s, cs_content = content, cs_title = scr_title s\<rparr>"

subsection \<open>The readers\<close>

definition has_prefix :: "string \<Rightarrow> string \<Rightarrow> bool" where
  "has_prefix s p \<longleftrightarrow> take (length p) s = p"

lemma has_prefix_iff: "has_prefix s p \<longleftrightarrow> (\<exists>rest. s = p @ rest)"
  unfolding has_prefix_def by (metis append_eq_conv_conj append_take_drop_id)

definition sdk_Text :: "sdk_screen \<Rightarrow> string" where
  "sdk_Text s = cs_content s"

definition sdk_Contains :: "sdk_screen \<Rightarrow> string \<Rightarrow> bool" where
  "sdk_Contains s t = Contains (cs_content s) t"

definition sdk_CellAt :: "sdk_screen \<Rightarrow> int \<Rightarrow> int \<Rightarrow> cell option" where
  "sdk_CellAt s column row =
     (if column < 0 \<or> column \<ge> cs_width s \<or> row < 0 \<or> row \<ge> cs_height s then None
      else (let index = row * cs_width s + column
            in if index \<ge> int (length (cs_cells s)) then None
               else Some (cs_cells s ! nat index)))"

primrec sdk_line_from :: "sdk_screen \<Rightarrow> int \<Rightarrow> int list \<Rightarrow> string" where
  "sdk_line_from s row [] = []"
| "sdk_line_from s row (column # columns) =
     (case sdk_CellAt s column row of
        None \<Rightarrow> []
      | Some c \<Rightarrow> (if cell_width c \<noteq> 0 then cell_text c else []) @ sdk_line_from s row columns)"

definition sdk_Line :: "sdk_screen \<Rightarrow> int \<Rightarrow> string" where
  "sdk_Line s row = (if row < 0 \<or> row \<ge> cs_height s then [] else sdk_line_from s row [0..cs_width s - 1])"

text \<open>The innermost loop of \<open>Find\<close>: the candidate grows cell by cell until it decides.\<close>

primrec candidate_found :: "sdk_screen \<Rightarrow> string \<Rightarrow> int \<Rightarrow> string \<Rightarrow> int list \<Rightarrow> bool" where
  "candidate_found s t row candidate [] = False"
| "candidate_found s t row candidate (current # rest) =
     (case sdk_CellAt s current row of
        None \<Rightarrow> False
      | Some c \<Rightarrow>
          (let grown = (if cell_width c \<noteq> 0 then candidate @ cell_text c else candidate)
           in if has_prefix grown t then True
              else if \<not> has_prefix t grown then False
              else candidate_found s t row grown rest))"

primrec find_in_row :: "sdk_screen \<Rightarrow> string \<Rightarrow> int \<Rightarrow> int list \<Rightarrow> (int \<times> int) option" where
  "find_in_row s t row [] = None"
| "find_in_row s t row (column # columns) =
     (case sdk_CellAt s column row of
        None \<Rightarrow> find_in_row s t row columns
      | Some c \<Rightarrow>
          if cell_width c = 0 then find_in_row s t row columns
          else if candidate_found s t row [] [column..cs_width s - 1] then Some (column, row)
          else find_in_row s t row columns)"

primrec find_in_rows :: "sdk_screen \<Rightarrow> string \<Rightarrow> int list \<Rightarrow> (int \<times> int) option" where
  "find_in_rows s t [] = None"
| "find_in_rows s t (row # rows) =
     (case find_in_row s t row [0..cs_width s - 1] of
        None \<Rightarrow> find_in_rows s t rows
      | Some position \<Rightarrow> Some position)"

definition sdk_Find :: "sdk_screen \<Rightarrow> string \<Rightarrow> (int \<times> int) option" where
  "sdk_Find s t =
     (if t = [] \<and> cs_width s > 0 \<and> cs_height s > 0 then Some (0, 0)
      else find_in_rows s t [0..cs_height s - 1])"

subsection \<open>What the readers return\<close>

lemma received_readers:
  "sdk_CellAt (received_screen s content) column row = CellAt s column row"
  "sdk_line_from (received_screen s content) row columns = line_from s row columns"
  "sdk_Line (received_screen s content) row = Line s row"
proof -
  show cell: "sdk_CellAt (received_screen s content) column row = CellAt s column row" for column row
    by (simp add: sdk_CellAt_def CellAt_def received_screen_def Let_def)
  show line: "sdk_line_from (received_screen s content) row columns = line_from s row columns" for columns
    by (induction columns) (simp_all add: cell split: option.split)
  show "sdk_Line (received_screen s content) row = Line s row"
    unfolding sdk_Line_def Line_def line by (simp add: received_screen_def)
qed

text \<open>The text \<open>t\<close> begins in the cell at a position, which is not the continuation of a wide character.\<close>

definition begins_at :: "sdk_screen \<Rightarrow> string \<Rightarrow> int \<Rightarrow> int \<Rightarrow> bool" where
  "begins_at s t column row \<longleftrightarrow>
     (\<exists>c. sdk_CellAt s column row = Some c \<and> cell_width c \<noteq> 0) \<and>
     has_prefix (sdk_line_from s row [column..cs_width s - 1]) t"

lemma candidate_found_iff:
  assumes "has_prefix t candidate" "\<not> has_prefix candidate t"
  shows "candidate_found s t row candidate columns \<longleftrightarrow> has_prefix (candidate @ sdk_line_from s row columns) t"
  using assms
proof (induction columns arbitrary: candidate)
  case (Cons current rest)
  show ?case
  proof (cases "sdk_CellAt s current row")
    case (Some c)
    define grown where "grown = (if cell_width c \<noteq> 0 then candidate @ cell_text c else candidate)"
    have line: "candidate @ sdk_line_from s row (current # rest) = grown @ sdk_line_from s row rest"
      by (simp add: grown_def Some)
    consider "has_prefix grown t" | "\<not> has_prefix grown t" "has_prefix t grown"
      | "\<not> has_prefix grown t" "\<not> has_prefix t grown" by blast
    then show ?thesis
    proof cases
      case 1
      then have "has_prefix (grown @ sdk_line_from s row rest) t" by (auto simp: has_prefix_iff)
      then show ?thesis unfolding line using 1 by (simp add: Some grown_def)
    next
      case 2
      then show ?thesis unfolding line using Cons.IH [of grown] by (simp add: Some grown_def [symmetric] Let_def)
    next
      case 3
      have "\<not> has_prefix (grown @ sdk_line_from s row rest) t"
        using 3 by (auto simp: has_prefix_iff append_eq_append_conv2)
      then show ?thesis unfolding line using 3 by (simp add: Some grown_def [symmetric] Let_def)
    qed
  qed (use Cons.prems in simp)
qed simp

lemma find_in_row_none: "t \<noteq> [] \<Longrightarrow> find_in_row s t row columns = None \<longleftrightarrow> (\<forall>c \<in> set columns. \<not> begins_at s t c row)"
proof (induction columns)
  case (Cons column columns)
  have "candidate_found s t row [] cs \<longleftrightarrow> has_prefix (sdk_line_from s row cs) t" for cs
    using candidate_found_iff [of t "[]"] Cons.prems by (simp add: has_prefix_def)
  then show ?case using Cons by (auto simp: begins_at_def split: option.splits)
qed simp

lemma find_in_row_some:
  assumes "t \<noteq> []" "find_in_row s t row columns = Some (column, row')"
  shows "row' = row \<and> begins_at s t column row \<and>
     (\<exists>before after. columns = before @ column # after \<and> (\<forall>c \<in> set before. \<not> begins_at s t c row))"
  using assms(2)
proof (induction columns)
  case (Cons c columns)
  have found: "candidate_found s t row [] cs \<longleftrightarrow> has_prefix (sdk_line_from s row cs) t" for cs
    using candidate_found_iff [of t "[]"] assms(1) by (simp add: has_prefix_def)
  show ?case
  proof (cases "begins_at s t c row")
    case True
    then have "column = c \<and> row' = row" using Cons.prems by (auto simp: begins_at_def found)
    then show ?thesis using True by (auto intro: exI [of _ "[]"])
  next
    case False
    then have "find_in_row s t row columns = Some (column, row')"
      using Cons.prems by (auto simp: begins_at_def found split: option.splits if_splits)
    then obtain before after where *: "row' = row" "begins_at s t column row" "columns = before @ column # after"
        "\<forall>c \<in> set before. \<not> begins_at s t c row"
      using Cons.IH by blast
    then have "c # columns = (c # before) @ column # after" "\<forall>d \<in> set (c # before). \<not> begins_at s t d row"
      using False by simp_all
    with * show ?thesis by blast
  qed
qed simp

lemma upto_split:
  assumes "[a..b] = before @ x # after"
  shows "a \<le> x \<and> x \<le> b \<and> (\<forall>y. a \<le> y \<and> y < x \<longrightarrow> y \<in> set before)"
proof -
  have x: "x \<in> set [a..b]" unfolding assms by simp
  have "sorted_wrt (<) [a..b]" by simp
  then have later: "\<forall>y \<in> set after. x < y" unfolding assms by (simp add: sorted_wrt_append)
  have "y \<in> set before" if "a \<le> y" "y < x" for y
  proof -
    have "y \<in> set [a..b]" using that x by simp
    then show ?thesis unfolding assms using that later by auto
  qed
  then show ?thesis using x by simp
qed

lemma find_in_rows_none:
  "t \<noteq> [] \<Longrightarrow> find_in_rows s t rows = None \<longleftrightarrow> (\<forall>r \<in> set rows. \<forall>c \<in> set [0..cs_width s - 1]. \<not> begins_at s t c r)"
proof (induction rows)
  case (Cons r rows)
  then show ?case using find_in_row_none [OF Cons.prems, of s r "[0..cs_width s - 1]"]
    by (cases "find_in_row s t r [0..cs_width s - 1]") auto
qed simp

lemma find_in_rows_some:
  assumes "t \<noteq> []" "find_in_rows s t rows = Some p"
  shows "\<exists>before r after. rows = before @ r # after \<and> find_in_row s t r [0..cs_width s - 1] = Some p \<and>
     (\<forall>r' \<in> set before. find_in_row s t r' [0..cs_width s - 1] = None)"
  using assms(2)
proof (induction rows)
  case (Cons r rows)
  show ?case
  proof (cases "find_in_row s t r [0..cs_width s - 1]")
    case None
    then obtain before r' after where "rows = before @ r' # after" "find_in_row s t r' [0..cs_width s - 1] = Some p"
        "\<forall>r' \<in> set before. find_in_row s t r' [0..cs_width s - 1] = None"
      using Cons by auto
    then show ?thesis using None by (intro exI [of _ "r # before"] exI [of _ r'] exI [of _ after]) simp
  next
    case (Some q)
    then show ?thesis using Cons.prems by (auto intro: exI [of _ "[]"])
  qed
qed simp

lemma begins_in_line:
  assumes "begins_at s t column row"
  shows "0 \<le> column \<and> column < cs_width s \<and> 0 \<le> row \<and> row < cs_height s \<and> (\<exists>u v. sdk_Line s row = u @ t @ v)"
proof -
  have c: "0 \<le> column" "column < cs_width s" "0 \<le> row" "row < cs_height s"
      "row * cs_width s + column < int (length (cs_cells s))"
    using assms by (auto simp: begins_at_def sdk_CellAt_def Let_def split: if_split_asm)
  have cell: "sdk_CellAt s x row \<noteq> None" if "0 \<le> x" "x \<le> column" for x
    using that c by (simp add: sdk_CellAt_def Let_def)
  have split: "\<exists>u. sdk_line_from s row (xs @ ys) = u @ sdk_line_from s row ys"
    if "\<forall>x \<in> set xs. sdk_CellAt s x row \<noteq> None" for xs ys
    using that by (induction xs) auto
  have "[0..cs_width s - 1] = [0..column - 1] @ [column..cs_width s - 1]"
    using c upto_split1 [of 0 column "cs_width s - 1"] by simp
  then obtain u where "sdk_Line s row = u @ sdk_line_from s row [column..cs_width s - 1]"
    using split [of "[0..column - 1]" "[column..cs_width s - 1]"] cell c by (auto simp: sdk_Line_def)
  moreover obtain rest where "sdk_line_from s row [column..cs_width s - 1] = t @ rest"
    using assms by (auto simp: begins_at_def has_prefix_iff)
  ultimately show ?thesis using c by auto
qed

lemma sdk_Find_exact:
  assumes "t \<noteq> []"
  shows "case sdk_Find s t of
     None \<Rightarrow> \<forall>column row. \<not> begins_at s t column row
   | Some (column, row) \<Rightarrow> begins_at s t column row \<and>
       (\<forall>column' row'. row' < row \<or> row' = row \<and> column' < column \<longrightarrow> \<not> begins_at s t column' row')"
proof (cases "find_in_rows s t [0..cs_height s - 1]")
  case None
  then have "\<not> begins_at s t column row" for column row
    using find_in_rows_none [OF assms] begins_in_line [of s t column row] by fastforce
  then show ?thesis using None assms by (simp add: sdk_Find_def)
next
  case (Some p)
  obtain column row where p: "p = (column, row)" by (cases p)
  obtain before r after where r: "[0..cs_height s - 1] = before @ r # after"
      "find_in_row s t r [0..cs_width s - 1] = Some (column, row)"
      "\<forall>r' \<in> set before. find_in_row s t r' [0..cs_width s - 1] = None"
    using find_in_rows_some [OF assms Some] p by blast
  obtain left right where c: "row = r" "begins_at s t column row" "[0..cs_width s - 1] = left @ column # right"
      "\<forall>c \<in> set left. \<not> begins_at s t c row"
    using find_in_row_some [OF assms r(2)] by auto
  have "\<not> begins_at s t column' row'" if "row' < row \<or> row' = row \<and> column' < column" for column' row'
  proof
    assume b: "begins_at s t column' row'"
    note inside = begins_in_line [OF b]
    show False
    proof (cases "row' < row")
      case True
      then have "row' \<in> set before" using upto_split [OF r(1)] c(1) inside by auto
      then have "find_in_row s t row' [0..cs_width s - 1] = None" using r(3) by blast
      then show False using find_in_row_none [OF assms] b inside by fastforce
    next
      case False
      then have "column' \<in> set left" "row' = row" using that upto_split [OF c(3)] inside by auto
      then show False using c(4) b by blast
    qed
  qed
  then show ?thesis using Some p c(2) assms by (simp add: sdk_Find_def)
qed

lemma Line_in_Text:
  assumes "0 \<le> row" "row < scr_height s"
  shows "\<exists>u v. Text s = u @ Line s row @ v"
proof -
  have "row \<in> set [0..scr_height s - 1]" using assms by simp
  then obtain before after where rows: "[0..scr_height s - 1] = before @ row # after" by (meson split_list)
  let ?f = "\<lambda>row. (if row > 0 then [newline] else []) @ Line s row"
  have "Text s = (concat (map ?f before) @ (if row > 0 then [newline] else [])) @ Line s row @ concat (map ?f after)"
    unfolding Text_def rows by simp
  then show ?thesis by blast
qed

text \<open>
  C32: The screens of the Go client read like the driver's own. For every snapshot the driver sends, the
  client's cells, rows and text are those of the snapshot. \<open>Find\<close> returns the first position in row-major
  order at which the text begins in a cell, and no position when there is none: a position on the screen, outside the right half
  of a wide character, such that the row's text from there on starts with the text looked for; a text that was found
  is contained in the screen's text.
\<close>

theorem sdk_screen_faithful:
  fixes s :: screen and t :: string
  defines "r \<equiv> received_screen s (Text s)"
    and "begins \<equiv> \<lambda>column row. (\<exists>c. CellAt s column row = Some c \<and> cell_width c \<noteq> 0) \<and>
      (\<exists>rest. line_from s row [column..scr_width s - 1] = t @ rest)"
  shows "sdk_Text r = Text s \<and> (\<forall>column row. sdk_CellAt r column row = CellAt s column row) \<and>
     (\<forall>row. sdk_Line r row = Line s row) \<and> (sdk_Contains r t \<longleftrightarrow> (\<exists>u v. Text s = u @ t @ v)) \<and>
     (t \<noteq> [] \<longrightarrow>
       (case sdk_Find r t of
          None \<Rightarrow> \<forall>column row. \<not> begins column row
        | Some (column, row) \<Rightarrow> begins column row \<and> sdk_Contains r t \<and>
            (\<forall>column' row'. row' < row \<or> row' = row \<and> column' < column \<longrightarrow> \<not> begins column' row')))"
proof -
  have begins: "begins_at r t column row \<longleftrightarrow> begins column row" for column row
    by (simp add: begins_at_def begins_def r_def received_readers has_prefix_iff) (simp add: received_screen_def)
  have contains: "sdk_Contains r t \<longleftrightarrow> (\<exists>u v. Text s = u @ t @ v)"
    by (simp add: sdk_Contains_def Contains_iff r_def received_screen_def)
  have found: "sdk_Contains r t" if b: "begins_at r t column row" for column row
  proof -
    obtain u v where "Line s row = u @ t @ v" "0 \<le> row" "row < scr_height s"
      using begins_in_line [OF b] by (auto simp: r_def received_readers) (auto simp: received_screen_def)
    moreover from this obtain u' v' where "Text s = u' @ Line s row @ v'" using Line_in_Text by blast
    ultimately have "Text s = (u' @ u) @ t @ (v @ v')" by simp
    then show ?thesis unfolding contains by blast
  qed
  have "t \<noteq> [] \<longrightarrow>
       (case sdk_Find r t of
          None \<Rightarrow> \<forall>column row. \<not> begins column row
        | Some (column, row) \<Rightarrow> begins column row \<and> sdk_Contains r t \<and>
            (\<forall>column' row'. row' < row \<or> row' = row \<and> column' < column \<longrightarrow> \<not> begins column' row'))"
    using sdk_Find_exact [of t r] found unfolding begins by (cases "sdk_Find r t") auto
  moreover have "sdk_Text r = Text s" by (simp add: sdk_Text_def r_def received_screen_def)
  ultimately show ?thesis using contains by (simp add: r_def received_readers)
qed

definition wide_screen :: screen where
  "wide_screen = \<lparr>scr_width = 3, scr_height = 2,
     scr_cells = map (\<lambda>(t, w). zero_cell\<lparr>cell_text := t, cell_width := w\<rparr>)
       [('' '', 1), ([CHR 0xE4, CHR 0xB8, CHR 0xAD], 2), ([], 0), (''o'', 1), (''k'', 1), (''!'', 1)],
     scr_cursor = zero_cursor, scr_revision = 7, scr_title = []\<rparr>"

theorem sdk_screen_faithful_witness:
  "sdk_Find (received_screen wide_screen (Text wide_screen)) ''k!'' = Some (1, 1) \<and>
   sdk_Contains (received_screen wide_screen (Text wide_screen)) ''k!''"
proof -
  have f: "sdk_Find (received_screen wide_screen (Text wide_screen)) ''k!'' = Some (1, 1)" by code_simp
  have "''k!'' \<noteq> []" by simp
  note all = sdk_screen_faithful [of wide_screen "''k!''"]
  from all [THEN conjunct2, THEN conjunct2, THEN conjunct2, THEN conjunct2, THEN mp, OF \<open>''k!'' \<noteq> []\<close>]
  show ?thesis unfolding f option.case(2) prod.case by (elim conjE) (intro conjI refl)
qed

end
