(* ===== verification/Driver_Dumps.thy ===== *)
theory Driver_Dumps
  imports Driver_Serve Trace_Dump
begin

text \<open>
  The errors of the driver on the wire (\<open>driver/protocol.go\<close>), and the flight-recorder dump a failed wait
  carries (\<open>waitFailure\<close> and \<open>writeDumpFile\<close> in \<open>driver/server.go\<close>). The file system is seen through the calls made to
  it: the \<open>k\<close>-th call, should it be \<open>c\<close>, has the outcome \<open>world k c\<close>.
\<close>

subsection \<open>Dump files\<close>

datatype file_call = MkdirAll string | CreateTemp string nat | WriteFile string | CloseFile

type_synonym file_world = "nat \<Rightarrow> file_call \<Rightarrow> string option"

definition file_op :: "file_world \<Rightarrow> file_call \<Rightarrow> file_call list \<Rightarrow> string option \<times> file_call list" where
  "file_op world c calls = (world (length calls) c, calls @ [c])"

datatype dump_file_error =
    CreatingDirectory string
  | CreatingFile string
  | WritingFile string "string option"
  | ClosingFile string

text \<open>\<open>CreateTemp\<close> chooses the name: \<open>path\<close>.\<close>

definition writeDumpFile ::
  "file_world \<Rightarrow> string \<Rightarrow> string \<Rightarrow> nat \<Rightarrow> string \<Rightarrow> file_call list \<Rightarrow> (dump_file_error + string) \<times> file_call list" where
  "writeDumpFile world path directory session dump calls =
     (case file_op world (MkdirAll directory) calls of
        (Some e, calls1) \<Rightarrow> (Inl (CreatingDirectory e), calls1)
      | (None, calls1) \<Rightarrow>
          (case file_op world (CreateTemp directory session) calls1 of
             (Some e, calls2) \<Rightarrow> (Inl (CreatingFile e), calls2)
           | (None, calls2) \<Rightarrow>
               (case file_op world (WriteFile dump) calls2 of
                  (Some e, calls3) \<Rightarrow>
                    (case file_op world CloseFile calls3 of (closing, calls4) \<Rightarrow> (Inl (WritingFile e closing), calls4))
                | (None, calls3) \<Rightarrow>
                    (case file_op world CloseFile calls3 of
                       (Some e, calls4) \<Rightarrow> (Inl (ClosingFile e), calls4)
                     | (None, calls4) \<Rightarrow> (Inr path, calls4)))))"

subsection \<open>Errors on the wire\<close>

record wait_error_data =
  wd_kind :: string
  wd_expected :: string
  wd_screen :: screen
  wd_text :: string
  wd_dump :: string
  wd_dumpPath :: string

record response_error =
  re_code :: int
  re_message :: string
  re_data :: "wait_error_data option"

primrec kind_text :: "wait_kind \<Rightarrow> string" where
  "kind_text TimeoutKind = ''timeout''"
| "kind_text CanceledKind = ''canceled''"
| "kind_text WaitFailedKind = ''waitFailed''"

text \<open>\<open>applicationError\<close> on a failed wait and on any other error; \<open>message\<close> is the text of the error.\<close>

definition applicationError :: "string \<Rightarrow> wait_error option \<Rightarrow> response_error" where
  "applicationError message e =
     \<lparr>re_code = -32000, re_message = message,
      re_data = map_option (\<lambda>e. \<lparr>wd_kind = kind_text (wait_error_kind e), wd_expected = we_expected e,
        wd_screen = we_screen e, wd_text = Text (we_screen e), wd_dump = [], wd_dumpPath = []\<rparr>) e\<rparr>"

text \<open>The buffer a dump is written to; \<open>encode\<close> is the JSON encoder of a line, \<open>None\<close> if it cannot encode it.\<close>

definition buffer_line :: "(trace_line \<Rightarrow> string option) \<Rightarrow> trace_line \<Rightarrow> string \<Rightarrow> string option \<times> string" where
  "buffer_line encode l buffer =
     (case encode l of None \<Rightarrow> (Some ''unsupported value'', buffer) | Some t \<Rightarrow> (None, buffer @ t))"

text \<open>
  \<open>waitFailure\<close>. \<open>directory = []\<close> is a driver without a dump directory; the result is the response error with the
  file calls made.
\<close>

definition waitFailure ::
  "(trace_line \<Rightarrow> string option) \<Rightarrow> (int \<Rightarrow> string) \<Rightarrow> (wait_cause \<Rightarrow> string) \<Rightarrow> file_world \<Rightarrow> string \<Rightarrow> string \<Rightarrow> nat \<Rightarrow>
     string \<Rightarrow> failure \<Rightarrow> response_error \<times> file_call list" where
  "waitFailure encode start_text cause_text world path directory session message failed =
     (let plain = applicationError message (Some (fst failed))
      in case snd failed of
           None \<Rightarrow> (plain, [])
         | Some r \<Rightarrow>
             (case WriteDump (buffer_line encode) start_text cause_text failed [] of
                (Some e, _) \<Rightarrow> (plain, [])
              | (None, dump) \<Rightarrow>
                  if directory = [] then (plain\<lparr>re_data := map_option (\<lambda>d. d\<lparr>wd_dump := dump\<rparr>) (re_data plain)\<rparr>, [])
                  else (case writeDumpFile world path directory session dump [] of
                          (Inl e, calls) \<Rightarrow> (plain\<lparr>re_data := map_option (\<lambda>d. d\<lparr>wd_dump := dump\<rparr>) (re_data plain)\<rparr>, calls)
                        | (Inr name, calls) \<Rightarrow>
                            (plain\<lparr>re_data := map_option (\<lambda>d. d\<lparr>wd_dump := dump, wd_dumpPath := name\<rparr>) (re_data plain)\<rparr>,
                             calls))))"

subsection \<open>What a dump in a response is\<close>

lemma write_records_buffer:
  "case write_records (buffer_line encode) rs w of
     (None, w') \<Rightarrow> (\<forall>r \<in> set rs. encode (record_line r) \<noteq> None) \<and>
        w' = w @ concat (map (\<lambda>r. the (encode (record_line r))) rs)
   | (Some _, _) \<Rightarrow> \<exists>r \<in> set rs. encode (record_line r) = None"
proof (induction rs arbitrary: w)
  case (Cons r rs)
  show ?case
  proof (cases "encode (record_line r)")
    case (Some t)
    then show ?thesis using Cons [of "w @ t"] by (auto simp: buffer_line_def split: option.splits prod.splits)
  qed (simp add: buffer_line_def)
qed simp

lemma write_unsupported_buffer:
  "case write_unsupported (buffer_line encode) us w of
     (None, w') \<Rightarrow> (\<forall>u \<in> set us. encode (UnsupportedLine (us_sequence u) (us_count u)) \<noteq> None) \<and>
        w' = w @ concat (map (\<lambda>u. the (encode (UnsupportedLine (us_sequence u) (us_count u)))) us)
   | (Some _, _) \<Rightarrow> \<exists>u \<in> set us. encode (UnsupportedLine (us_sequence u) (us_count u)) = None"
proof (induction us arbitrary: w)
  case (Cons u us)
  show ?case
  proof (cases "encode (UnsupportedLine (us_sequence u) (us_count u))")
    case (Some t)
    then show ?thesis using Cons [of "w @ t"] by (auto simp: buffer_line_def split: option.splits prod.splits)
  qed (simp add: buffer_line_def)
qed simp

text \<open>A dump in a buffer is all of its lines or an error.\<close>

lemma WriteDump_buffer:
  "case WriteDump (buffer_line encode) start_text cause_text (e, Some r) [] of
     (None, dump) \<Rightarrow> (\<forall>l \<in> set (dump_lines start_text cause_text e r). encode l \<noteq> None) \<and>
        dump = concat (map (\<lambda>l. the (encode l)) (dump_lines start_text cause_text e r))
   | (Some _, _) \<Rightarrow> \<exists>l \<in> set (dump_lines start_text cause_text e r). encode l = None"
proof -
  define header where "header = HeaderLine dump_version (flight_recording.rec_profile r) (start_text (rec_start r))
    (rec_width r) (rec_height r) (rec_dropped r)"
  show ?thesis
  proof (cases "encode header")
    case None
    then show ?thesis by (simp add: WriteDump_def dump_lines_def buffer_line_def header_def)
  next
    case (Some t)
    obtain e1 w1 where w1: "write_records (buffer_line encode) (rec_records r) t = (e1, w1)" by fastforce
    obtain e2 w2 where w2: "write_unsupported (buffer_line encode) (rec_unsupported r) w1 = (e2, w2)" by fastforce
    note steps = write_records_buffer [where encode = encode and rs = "rec_records r" and w = t, unfolded w1]
      write_unsupported_buffer [where encode = encode and us = "rec_unsupported r" and w = w1, unfolded w2]
    show ?thesis
      using steps Some w1 w2
      by (cases e1; cases e2; cases "encode (failure_line cause_text e r)")
        (auto simp: WriteDump_def dump_lines_def buffer_line_def header_def [symmetric] comp_def)
  qed
qed

text \<open>The dump a response should carry: every line of the dump or, when one cannot be encoded, nothing.\<close>

definition complete_dump ::
  "(trace_line \<Rightarrow> string option) \<Rightarrow> (int \<Rightarrow> string) \<Rightarrow> (wait_cause \<Rightarrow> string) \<Rightarrow> failure \<Rightarrow> string" where
  "complete_dump encode start_text cause_text failed =
     (case snd failed of
        None \<Rightarrow> []
      | Some r \<Rightarrow>
          (let lines = dump_lines start_text cause_text (fst failed) r
           in if \<forall>l \<in> set lines. encode l \<noteq> None then concat (map (\<lambda>l. the (encode l)) lines) else []))"

lemma waitFailure_cases:
  assumes "waitFailure encode start_text cause_text world path directory session message failed = (response, calls)"
  obtains
    "response = applicationError message (Some (fst failed))" "calls = []"
    "complete_dump encode start_text cause_text failed = []"
  | dump where "dump = complete_dump encode start_text cause_text failed" "directory = []" "calls = []"
    "response = (applicationError message (Some (fst failed)))\<lparr>re_data :=
       map_option (\<lambda>d. d\<lparr>wd_dump := dump\<rparr>) (re_data (applicationError message (Some (fst failed))))\<rparr>"
  | dump e where "dump = complete_dump encode start_text cause_text failed" "directory \<noteq> []"
    "writeDumpFile world path directory session dump [] = (Inl e, calls)"
    "response = (applicationError message (Some (fst failed)))\<lparr>re_data :=
       map_option (\<lambda>d. d\<lparr>wd_dump := dump\<rparr>) (re_data (applicationError message (Some (fst failed))))\<rparr>"
  | dump name where "dump = complete_dump encode start_text cause_text failed" "directory \<noteq> []"
    "writeDumpFile world path directory session dump [] = (Inr name, calls)"
    "response = (applicationError message (Some (fst failed)))\<lparr>re_data :=
       map_option (\<lambda>d. d\<lparr>wd_dump := dump, wd_dumpPath := name\<rparr>) (re_data (applicationError message (Some (fst failed))))\<rparr>"
proof (cases "snd failed")
  case None
  then show ?thesis using that(1) assms by (simp add: waitFailure_def complete_dump_def Let_def)
next
  case (Some r)
  then have failed: "failed = (fst failed, Some r)" by (metis prod.collapse)
  note dump = WriteDump_buffer [where e = "fst failed" and r = r and encode = encode and start_text = start_text and cause_text = cause_text, folded failed]
  show ?thesis
  proof (cases "WriteDump (buffer_line encode) start_text cause_text failed []")
    case (Pair e dump')
    show ?thesis
    proof (cases e)
      case None
      then have d: "dump' = complete_dump encode start_text cause_text failed"
        using dump Pair Some by (auto simp: complete_dump_def)
      show ?thesis
      proof (cases "directory = []")
        case True
        then show ?thesis using that(2) [OF d] assms None Pair Some by (simp add: waitFailure_def Let_def)
      next
        case False
        then show ?thesis
          using that(3) [OF d False] that(4) [OF d False] assms None Pair Some
          by (auto simp: waitFailure_def Let_def split: prod.splits sum.splits)
      qed
    next
      case (Some x)
      then have "complete_dump encode start_text cause_text failed = []"
        using dump Pair \<open>snd failed = Some r\<close> by (auto simp: complete_dump_def Let_def)
      then show ?thesis using that(1) assms Some Pair \<open>snd failed = Some r\<close> by (simp add: waitFailure_def Let_def)
    qed
  qed
qed

text \<open>The files created and not closed again after a trace of calls, and whether all calls succeeded.\<close>

primrec files_open :: "file_world \<Rightarrow> nat \<Rightarrow> file_call list \<Rightarrow> int" where
  "files_open world k [] = 0"
| "files_open world k (c # cs) =
     (case c of CreateTemp _ _ \<Rightarrow> if world k c = None then 1 else 0 | CloseFile \<Rightarrow> -1 | _ \<Rightarrow> 0) +
     files_open world (Suc k) cs"

primrec all_succeed :: "file_world \<Rightarrow> nat \<Rightarrow> file_call list \<Rightarrow> bool" where
  "all_succeed world k [] = True"
| "all_succeed world k (c # cs) = (world k c = None \<and> all_succeed world (Suc k) cs)"

text \<open>A dump file is created and closed, and its path is known only once every call succeeded.\<close>

lemma writeDumpFile_calls:
  assumes "writeDumpFile world path directory session dump [] = (result, calls)"
  shows "files_open world 0 calls = 0 \<and>
     (case result of
        Inl _ \<Rightarrow> \<not> all_succeed world 0 calls
      | Inr name \<Rightarrow> name = path \<and> calls = [MkdirAll directory, CreateTemp directory session, WriteFile dump, CloseFile] \<and>
          all_succeed world 0 calls)"
  using assms
  by (auto simp: writeDumpFile_def file_op_def split: option.splits prod.splits)

text \<open>The response to a failed wait, whatever happens to its dump.\<close>

lemma waitFailure_response:
  assumes "waitFailure encode start_text cause_text world path directory session message failed = (response, calls)"
  shows "re_code response = -32000 \<and> re_message response = message \<and>
     (\<exists>d. re_data response = Some d \<and>
        wd_kind d = kind_text (wait_error_kind (fst failed)) \<and> wd_expected d = we_expected (fst failed) \<and>
        wd_screen d = we_screen (fst failed) \<and> wd_text d = Text (we_screen (fst failed)) \<and>
        wd_dump d = complete_dump encode start_text cause_text failed \<and>
        (if directory = [] then wd_dumpPath d = [] \<and> calls = []
         else wd_dumpPath d = [] \<or>
           wd_dumpPath d = path \<and> all_succeed world 0 calls \<and>
           calls = [MkdirAll directory, CreateTemp directory session, WriteFile (wd_dump d), CloseFile])) \<and>
     files_open world 0 calls = 0"
  using assms
proof (cases rule: waitFailure_cases)
  case (3 dump e)
  then show ?thesis using writeDumpFile_calls [OF 3(3)] by (auto simp: applicationError_def)
next
  case (4 dump name)
  then show ?thesis using writeDumpFile_calls [OF 4(3)] by (auto simp: applicationError_def)
qed (simp_all add: applicationError_def)

text \<open>
  The response to a failed wait says what failed and never half of it. It has the error code of
  application errors, the kind that tells a timeout from a cancellation and from an ended session, the expectation and
  the last screen with its text, whatever happens to the dump. Its dump is every line of the flight recording's dump in order, or
  nothing when there is no recording or a line cannot be encoded. Its path is given only for a file that was created, written
  whole and closed without an error; every file that was created has been closed, and without a dump directory
  the file system is not touched.
\<close>

theorem wait_failure_reported:
  "case waitFailure encode start_text cause_text world path directory session message failed of (response, calls) \<Rightarrow>
     re_code response = -32000 \<and> re_message response = message \<and>
     (\<exists>d. re_data response = Some d \<and>
        wd_kind d = kind_text (wait_error_kind (fst failed)) \<and> wd_expected d = we_expected (fst failed) \<and>
        wd_screen d = we_screen (fst failed) \<and> wd_text d = Text (we_screen (fst failed)) \<and>
        wd_dump d = complete_dump encode start_text cause_text failed \<and>
        (if directory = [] then wd_dumpPath d = [] \<and> calls = []
         else wd_dumpPath d = [] \<or>
           wd_dumpPath d = path \<and> all_succeed world 0 calls \<and>
           calls = [MkdirAll directory, CreateTemp directory session, WriteFile (wd_dump d), CloseFile])) \<and>
     files_open world 0 calls = 0"
proof (cases "waitFailure encode start_text cause_text world path directory session message failed")
  case (Pair response calls)
  show ?thesis unfolding Pair prod.case by (rule waitFailure_response [OF Pair])
qed

end
