(* ===== verification/Sdk_Session.thy ===== *)
theory Sdk_Session
  imports Sdk_Requests Sdk_Client Sdk_Screen Driver_Dumps
begin

text \<open>
  The operations of the Go client's \<open>Session\<close> and the errors they return (\<open>sdk/go/session.go\<close>, \<open>sdk/go/client.go\<close>). An
  operation makes one call: \<open>ask\<close> takes the request to the driver and brings its result or an error back, and is
  \<open>None\<close> while the driver has not answered. Errors are values with the chain that \<open>errors.Is\<close> and \<open>errors.As\<close> walk.
\<close>

subsection \<open>Errors\<close>

datatype context_error = DeadlineExceeded | ContextCanceled

datatype sdk_failure =
    ContextError context_error
  | ConnectionError client_error
  | RPCError int string json
  | WaitError string string sdk_screen string string sdk_failure
  | Prefixed string sdk_failure

text \<open>\<open>errors.Is(err, context.DeadlineExceeded)\<close> and \<open>errors.As\<close> for a \<open>*WaitError\<close>.\<close>

primrec is_deadline :: "sdk_failure \<Rightarrow> bool" where
  "is_deadline (ContextError e) = (e = DeadlineExceeded)"
| "is_deadline (ConnectionError e) = False"
| "is_deadline (RPCError code message data) = False"
| "is_deadline (WaitError kind expected screen dump path cause) = is_deadline cause"
| "is_deadline (Prefixed prefix e) = is_deadline e"

primrec as_wait_error :: "sdk_failure \<Rightarrow> sdk_failure option" where
  "as_wait_error (ContextError e) = None"
| "as_wait_error (ConnectionError e) = None"
| "as_wait_error (RPCError code message data) = None"
| "as_wait_error (WaitError kind expected screen dump path cause) = Some (WaitError kind expected screen dump path cause)"
| "as_wait_error (Prefixed prefix e) = as_wait_error e"

fun wait_kind_of :: "sdk_failure \<Rightarrow> string" where
  "wait_kind_of (WaitError kind expected screen dump path cause) = kind"
| "wait_kind_of _ = []"

definition IsTimeout :: "sdk_failure \<Rightarrow> bool" where
  "IsTimeout e \<longleftrightarrow>
     (if is_deadline e then True
      else case as_wait_error e of None \<Rightarrow> False | Some w \<Rightarrow> wait_kind_of w = ''timeout'')"

text \<open>\<open>WaitError.Error\<close>\<close>

definition wait_error_text :: "string \<Rightarrow> string \<Rightarrow> sdk_screen \<Rightarrow> string" where
  "wait_error_text kind expected screen =
     ''waiting for '' @ expected @ '': '' @ kind @ ''; last screen:'' @ [newline] @ sdk_Text screen"

text \<open>The error object of a response, and the data of a failed wait in it.\<close>

record rpc_error =
  er_code :: int
  er_message :: string
  er_data :: json

record failure_data =
  fd_kind :: string
  fd_expected :: string
  fd_screen :: sdk_screen
  fd_dump :: string
  fd_dumpPath :: string

definition makeClientError :: "(json \<Rightarrow> failure_data option) \<Rightarrow> rpc_error \<Rightarrow> sdk_failure" where
  "makeClientError unmarshal e =
     (let plain = RPCError (er_code e) (er_message e) (er_data e)
      in if er_data e = [] then plain
         else case unmarshal (er_data e) of
             None \<Rightarrow> plain
           | Some d \<Rightarrow>
               if fd_kind d = [] then plain
               else WaitError (fd_kind d) (fd_expected d) (fd_screen d) (fd_dump d) (fd_dumpPath d) plain)"

text \<open>
  The end of \<open>call\<close>: what it makes of the way its request ended. \<open>decode_error\<close> reads the error object, \<open>ended\<close> is
  why the context ended if it did.
\<close>

definition call_outcome ::
  "(json \<Rightarrow> rpc_error) \<Rightarrow> (json \<Rightarrow> failure_data option) \<Rightarrow> string \<Rightarrow> context_error \<Rightarrow> call_result \<Rightarrow> sdk_failure + json" where
  "call_outcome decode_error unmarshal method ended r =
     (case r of
        Cancelled \<Rightarrow> Inl (Prefixed (''calling '' @ method) (ContextError ended))
      | FailedWith e \<Rightarrow> Inl (Prefixed (''calling '' @ method) (ConnectionError e))
      | WriteFailed \<Rightarrow> Inl (Prefixed (''calling '' @ method) (ConnectionError WritingRequest))
      | Answered m \<Rightarrow>
          (case rm_error m of
             Some e \<Rightarrow> Inl (makeClientError unmarshal (decode_error e))
           | None \<Rightarrow> Inr (rm_result m)))"

subsection \<open>Operations\<close>

record sdk_session =
  sx_id :: nat
  sx_closed :: bool

type_synonym 'w sender = "rpc_method \<Rightarrow> 'w \<Rightarrow> ((sdk_failure + rpc_result) \<times> 'w) option"



text \<open>A call whose result is decoded by \<open>f\<close>; an error gets the operation's prefix.\<close>

definition request :: "'w sender \<Rightarrow> string \<Rightarrow> rpc_method \<Rightarrow> (rpc_result \<Rightarrow> 'a) \<Rightarrow> 'w \<Rightarrow> ((sdk_failure + 'a) \<times> 'w) option" where
  "request ask prefix m f w =
     (case ask m w of
        None \<Rightarrow> None
      | Some (Inl e, w1) \<Rightarrow> Some (Inl (Prefixed prefix e), w1)
      | Some (Inr r, w1) \<Rightarrow> Some (Inr (f r), w1))"

definition sdk_OpenSession ::
  "'w sender \<Rightarrow> nat \<Rightarrow> session_option list \<Rightarrow> 'w \<Rightarrow> (((sdk_error + sdk_failure) + sdk_session) \<times> 'w) option" where
  "sdk_OpenSession ask connection opts w =
     (case open_request connection opts of
        Inl e \<Rightarrow> Some (Inl (Inl e), w)
      | Inr p \<Rightarrow>
          (case request ask ''opening session'' (OpenSession (Params p))
                  (\<lambda>r. \<lparr>sx_id = (case r of SessionOpened i \<Rightarrow> i | _ \<Rightarrow> 0), sx_closed = False\<rparr>) w of
             None \<Rightarrow> None
           | Some (Inl e, w1) \<Rightarrow> Some (Inl (Inr e), w1)
           | Some (Inr s, w1) \<Rightarrow> Some (Inr s, w1)))"





definition sdk_Resize :: "'w sender \<Rightarrow> sdk_session \<Rightarrow> int \<Rightarrow> int \<Rightarrow> 'w \<Rightarrow> ((sdk_failure + unit) \<times> 'w) option" where
  "sdk_Resize ask s width height =
     request ask ''resizing session'' (ResizeTo (Params (sx_id s, width, height))) (\<lambda>_. ())"





text \<open>\<open>Close\<close>: only a close the driver confirmed makes later ones do nothing.\<close>

definition sdk_Close ::
  "'w sender \<Rightarrow> string \<Rightarrow> sdk_session \<Rightarrow> 'w \<Rightarrow> (sdk_failure option \<times> sdk_session \<times> 'w) option" where
  "sdk_Close ask prefix s w =
     (if sx_closed s then Some (None, s, w)
      else case request ask prefix (CloseSession (Params (sx_id s))) (\<lambda>_. ()) w of
          None \<Rightarrow> None
        | Some (Inl e, w1) \<Rightarrow> Some (Some e, s, w1)
        | Some (Inr _, w1) \<Rightarrow> Some (None, s\<lparr>sx_closed := True\<rparr>, w1))"

subsection \<open>Errors across the connection\<close>

text \<open>The error object the driver writes, and the data of a failed wait as the client's fields of the same names.\<close>

definition wire_error :: "(wait_error_data \<Rightarrow> json) \<Rightarrow> response_error \<Rightarrow> rpc_error" where
  "wire_error marshal r =
     \<lparr>er_code = re_code r, er_message = re_message r,
      er_data = (case re_data r of None \<Rightarrow> [] | Some d \<Rightarrow> marshal d)\<rparr>"

definition client_data :: "wait_error_data \<Rightarrow> failure_data" where
  "client_data d =
     \<lparr>fd_kind = wd_kind d, fd_expected = wd_expected d, fd_screen = received_screen (wd_screen d) (wd_text d),
      fd_dump = wd_dump d, fd_dumpPath = wd_dumpPath d\<rparr>"

text \<open>What JSON is relied on for: the data of this response survives encoding and decoding.\<close>

definition carried :: "(wait_error_data \<Rightarrow> json) \<Rightarrow> (json \<Rightarrow> failure_data option) \<Rightarrow> response_error \<Rightarrow> bool" where
  "carried marshal unmarshal r \<longleftrightarrow>
     (case re_data r of None \<Rightarrow> True | Some d \<Rightarrow> marshal d \<noteq> [] \<and> unmarshal (marshal d) = Some (client_data d))"

lemma kind_text_not_empty [simp]: "kind_text k \<noteq> []"
  by (cases k) simp_all

lemma kind_text_timeout [simp]: "kind_text k = ''timeout'' \<longleftrightarrow> k = TimeoutKind"
  by (cases k) simp_all

lemma kind_timeout_iff: "wait_error_kind e = TimeoutKind \<longleftrightarrow> we_cause e = ContextEnded deadlineExceeded"
  by (cases "we_cause e") (simp_all add: wait_error_kind_def)

text \<open>
  C31: A program can tell a timeout from every other failure. When the driver answers a wait with
  a failure, the error the client returns, under whatever prefixes, is a timeout for \<open>IsTimeout\<close> exactly when the
  driver's deadline ended the wait; \<open>errors.As\<close> finds the wait error with the expectation, the text of the last screen and the
  complete dump that the driver reported. An application error that is no failed wait is never a timeout. A call whose own context
  ended is one exactly when that was its deadline, and a broken connection never is.
\<close>

theorem sdk_timeout_recognised:
  assumes "waitFailure encode start_text cause_text world path directory session message failed = (response, calls)"
    and "carried marshal unmarshal response"
    and "rm_error m = Some x" "decode_error x = wire_error marshal response"
    and "rm_error m' = Some x'" "decode_error x' = wire_error marshal (applicationError message' None)"
  shows "(\<exists>e kind screen dumpPath cause.
       call_outcome decode_error unmarshal method ended (Answered m) = Inl e \<and>
       (IsTimeout (Prefixed prefix e) \<longleftrightarrow> we_cause (fst failed) = ContextEnded deadlineExceeded) \<and>
       as_wait_error (Prefixed prefix e) =
         Some (WaitError kind (we_expected (fst failed)) screen (complete_dump encode start_text cause_text failed) dumpPath cause) \<and>
       sdk_Text screen = Text (we_screen (fst failed)) \<and> sdk_CellAt screen = CellAt (we_screen (fst failed)) \<and>
       (dumpPath = [] \<or> all_succeed world 0 calls \<and> dumpPath = path)) \<and>
     (\<exists>e. call_outcome decode_error unmarshal method ended (Answered m') = Inl e \<and> \<not> IsTimeout (Prefixed prefix e)) \<and>
     (\<exists>e. call_outcome decode_error unmarshal method ended Cancelled = Inl e \<and>
        (IsTimeout (Prefixed prefix e) \<longleftrightarrow> ended = DeadlineExceeded)) \<and>
     (\<exists>e. call_outcome decode_error unmarshal method ended (FailedWith c) = Inl e \<and> \<not> IsTimeout (Prefixed prefix e))"
proof (intro conjI)
  obtain d where d: "re_data response = Some d" "re_code response = -32000" "re_message response = message"
      "wd_kind d = kind_text (wait_error_kind (fst failed))" "wd_expected d = we_expected (fst failed)"
      "wd_screen d = we_screen (fst failed)" "wd_text d = Text (we_screen (fst failed))"
      "wd_dump d = complete_dump encode start_text cause_text failed"
      "wd_dumpPath d = [] \<or> all_succeed world 0 calls \<and> wd_dumpPath d = path"
    using waitFailure_response [OF assms(1)] by (auto split: if_split_asm)
  define cause where "cause = RPCError (-32000) message (marshal d)"
  define e where "e = WaitError (kind_text (wait_error_kind (fst failed))) (we_expected (fst failed))
    (received_screen (we_screen (fst failed)) (Text (we_screen (fst failed))))
    (complete_dump encode start_text cause_text failed) (wd_dumpPath d) cause"
  have "call_outcome decode_error unmarshal method ended (Answered m) = Inl e"
    using assms(2-4) d by (simp add: call_outcome_def makeClientError_def wire_error_def carried_def client_data_def
        e_def cause_def Let_def)
  moreover have "IsTimeout (Prefixed prefix e) \<longleftrightarrow> we_cause (fst failed) = ContextEnded deadlineExceeded"
    by (simp add: IsTimeout_def e_def cause_def kind_timeout_iff)
  moreover have "sdk_CellAt (received_screen (we_screen (fst failed)) (Text (we_screen (fst failed)))) = CellAt (we_screen (fst failed))"
    by (intro ext) (simp add: received_readers)
  ultimately show "\<exists>e kind screen dumpPath cause.
       call_outcome decode_error unmarshal method ended (Answered m) = Inl e \<and>
       (IsTimeout (Prefixed prefix e) \<longleftrightarrow> we_cause (fst failed) = ContextEnded deadlineExceeded) \<and>
       as_wait_error (Prefixed prefix e) =
         Some (WaitError kind (we_expected (fst failed)) screen (complete_dump encode start_text cause_text failed) dumpPath cause) \<and>
       sdk_Text screen = Text (we_screen (fst failed)) \<and> sdk_CellAt screen = CellAt (we_screen (fst failed)) \<and>
       (dumpPath = [] \<or> all_succeed world 0 calls \<and> dumpPath = path)"
    by (intro exI [of _ e] exI [of _ "kind_text (wait_error_kind (fst failed))"]
        exI [of _ "received_screen (we_screen (fst failed)) (Text (we_screen (fst failed)))"]
        exI [of _ "wd_dumpPath d"] exI [of _ cause])
      (use d(9) in \<open>simp add: e_def sdk_Text_def received_screen_def\<close>)
  show "\<exists>e. call_outcome decode_error unmarshal method ended (Answered m') = Inl e \<and> \<not> IsTimeout (Prefixed prefix e)"
    using assms(5,6) by (simp add: call_outcome_def makeClientError_def wire_error_def applicationError_def IsTimeout_def)
qed (simp_all add: call_outcome_def IsTimeout_def)

definition late_failure :: failure where
  "late_failure = (\<lparr>we_expected = ''login'', we_screen = wide_screen, we_cause = ContextEnded deadlineExceeded\<rparr>, None)"

definition error_message :: "json \<Rightarrow> rpc_message" where
  "error_message e = \<lparr>rm_version = ''2.0'', rm_id = 1, rm_method = [], rm_params = [], rm_result = [], rm_error = Some e\<rparr>"

theorem sdk_timeout_recognised_witness:
  "\<exists>response marshal unmarshal decode_error e.
     waitFailure (\<lambda>_. None) (\<lambda>_. []) (\<lambda>_. []) (\<lambda>_ _. None) [] [] 1 ''late'' late_failure = (response, []) \<and>
     decode_error ''late'' = wire_error marshal response \<and>
     call_outcome decode_error unmarshal ''session.wait'' ContextCanceled (Answered (error_message ''late'')) = Inl e \<and>
     IsTimeout (Prefixed ''waiting for session screen'' e)"
proof -
  define response where "response = applicationError ''late'' (Some (fst late_failure))"
  define marshal where "marshal = (\<lambda>_ :: wait_error_data. ''{}'')"
  define unmarshal where "unmarshal = (\<lambda>_ :: json. map_option client_data (re_data response))"
  define decode_error where "decode_error =
    (\<lambda>x. if x = ''late'' then wire_error marshal response else wire_error marshal (applicationError ''other'' None))"
  have w: "waitFailure (\<lambda>_. None) (\<lambda>_. []) (\<lambda>_. []) (\<lambda>_ _. None) [] [] 1 ''late'' late_failure = (response, [])"
    by (simp add: waitFailure_def late_failure_def response_def Let_def)
  have c: "carried marshal unmarshal response"
    by (simp add: carried_def marshal_def unmarshal_def split: option.split)
  have m: "rm_error (error_message x) = Some x" for x by (simp add: error_message_def)
  have d: "decode_error ''late'' = wire_error marshal response"
      "decode_error ''other'' = wire_error marshal (applicationError ''other'' None)"
    by (simp_all add: decode_error_def)
  have t: "we_cause (fst late_failure) = ContextEnded deadlineExceeded" by (simp add: late_failure_def)
  obtain e where "call_outcome decode_error unmarshal ''session.wait'' ContextCanceled (Answered (error_message ''late'')) = Inl e"
      "IsTimeout (Prefixed ''waiting for session screen'' e)"
    using sdk_timeout_recognised [OF w c m d(1) m d(2), THEN conjunct1,
        of "''session.wait''" ContextCanceled "''waiting for session screen''"] t
    by (elim exE conjE) simp
  then show ?thesis using w d(1) by blast
qed

subsection \<open>Operations carried out by the driver\<close>








text \<open>Closing: after a close the driver confirmed the session asks nothing more.\<close>

lemma sdk_Close_once:
  assumes "sdk_Close ask prefix s w = Some (e, s1, w1)"
  shows "(if e = None then sdk_Close ask' prefix s1 w2 = Some (None, s1, w2) else s1 = s) \<and> sx_id s1 = sx_id s"
  using assms by (auto simp: sdk_Close_def split: if_split_asm option.splits prod.splits sum.splits)


end
