(* ===== verification/Sdk_Process.thy ===== *)
theory Sdk_Process
  imports Sdk_Session
begin

text \<open>
  The driver process of the Go client (\<open>sdk/go/client.go\<close>): the launch options, \<open>Launch\<close>, \<open>Close\<close> and
  \<open>stopProcess\<close>. The operating system is seen through the calls made to it: the \<open>k\<close>-th call, should it be \<open>c\<close>, ends with
  the error \<open>pw_error world k c\<close> or without one. The calls over the connection (\<open>driver.ping\<close> and
  \<open>driver.shutdown\<close>) are among them; \<open>AwaitExit\<close> receives what \<open>command.Wait\<close> returned.
\<close>

subsection \<open>Options\<close>

record launch_config =
  lc_path :: string
  lc_args :: "string list"
  lc_stderr :: nat
  lc_environment :: "string list"
  lc_timeout :: int

datatype launch_error =
    LaunchContextRequired
  | LaunchOptionRequired
  | PathRequired
  | WriterRequired
  | TimeoutNotPositive
  | OpeningStdin string
  | OpeningStdout string
  | StartingDriver string
  | CheckingProtocol string
  | ProtocolMismatch string

text \<open>A writer is known by a number; \<open>DriverStderr None\<close> is a nil writer, \<open>NilLaunchOption\<close> a nil option.\<close>

datatype launch_option =
    DriverPath string
  | DriverArgs "string list"
  | DriverStderr "nat option"
  | DriverEnvironment "string list"
  | DefaultTimeout int
  | NilLaunchOption

definition apply_launch_option :: "launch_option \<Rightarrow> launch_config \<Rightarrow> launch_error + launch_config" where
  "apply_launch_option opt config =
     (case opt of
        DriverPath path \<Rightarrow> (if path = [] then Inl PathRequired else Inr (config\<lparr>lc_path := path\<rparr>))
      | DriverArgs arguments \<Rightarrow> Inr (config\<lparr>lc_args := lc_args config @ arguments\<rparr>)
      | DriverStderr stderr \<Rightarrow>
          (case stderr of None \<Rightarrow> Inl WriterRequired | Some w \<Rightarrow> Inr (config\<lparr>lc_stderr := w\<rparr>))
      | DriverEnvironment environment \<Rightarrow> Inr (config\<lparr>lc_environment := lc_environment config @ environment\<rparr>)
      | DefaultTimeout timeout \<Rightarrow>
          (if timeout \<le> 0 then Inl TimeoutNotPositive else Inr (config\<lparr>lc_timeout := timeout\<rparr>))
      | NilLaunchOption \<Rightarrow> Inl LaunchOptionRequired)"

primrec apply_launch_options :: "launch_option list \<Rightarrow> launch_config \<Rightarrow> launch_error + launch_config" where
  "apply_launch_options [] config = Inr config"
| "apply_launch_options (opt # opts) config =
     (case apply_launch_option opt config of Inl e \<Rightarrow> Inl e | Inr config' \<Rightarrow> apply_launch_options opts config')"

definition defaultDriverPath :: string where "defaultDriverPath = ''tuicast-driver''"
definition sdk_defaultTimeout :: int where "sdk_defaultTimeout = 30 * 1000000000"
definition sdk_protocolVersion :: string where "sdk_protocolVersion = ''1''"
definition os_Stderr :: nat where "os_Stderr = 2"

subsection \<open>Launching\<close>

datatype process_call =
    StdinPipe
  | StdoutPipe
  | Start string "string list" "string list" nat
  | Ping
  | Shutdown
  | CloseStdin
  | Kill
  | AwaitExit

record process_world =
  pw_error :: "nat \<Rightarrow> process_call \<Rightarrow> string option"
  pw_version :: string

definition os_call :: "process_world \<Rightarrow> process_call \<Rightarrow> process_call list \<Rightarrow> string option \<times> process_call list" where
  "os_call world c calls = (pw_error world (length calls) c, calls @ [c])"

definition stopProcess :: "process_world \<Rightarrow> process_call list \<Rightarrow> string option \<times> process_call list" where
  "stopProcess world calls =
     (let calls1 = snd (os_call world CloseStdin calls);
          calls2 = snd (os_call world Kill calls1)
      in os_call world AwaitExit calls2)"

text \<open>\<open>Launch\<close>; the result is the configuration of the client it returns.\<close>

definition Launch ::
  "process_world \<Rightarrow> bool \<Rightarrow> launch_option list \<Rightarrow> process_call list \<Rightarrow> (launch_error + launch_config) \<times> process_call list" where
  "Launch world nil_context opts calls =
     (if nil_context then (Inl LaunchContextRequired, calls)
      else case apply_launch_options opts
               \<lparr>lc_path = defaultDriverPath, lc_args = [], lc_stderr = os_Stderr, lc_environment = [],
                lc_timeout = sdk_defaultTimeout\<rparr> of
          Inl e \<Rightarrow> (Inl e, calls)
        | Inr config \<Rightarrow>
            (case os_call world StdinPipe calls of
               (Some e, calls1) \<Rightarrow> (Inl (OpeningStdin e), calls1)
             | (None, calls1) \<Rightarrow>
                 (case os_call world StdoutPipe calls1 of
                    (Some e, calls2) \<Rightarrow> (Inl (OpeningStdout e), calls2)
                  | (None, calls2) \<Rightarrow>
                      (case os_call world (Start (lc_path config) (lc_args config) (lc_environment config) (lc_stderr config)) calls2 of
                         (Some e, calls3) \<Rightarrow> (Inl (StartingDriver e), calls3)
                       | (None, calls3) \<Rightarrow>
                           (case os_call world Ping calls3 of
                              (Some e, calls4) \<Rightarrow> (Inl (CheckingProtocol e), snd (stopProcess world calls4))
                            | (None, calls4) \<Rightarrow>
                                if pw_version world \<noteq> sdk_protocolVersion
                                then (Inl (ProtocolMismatch (pw_version world)), snd (stopProcess world calls4))
                                else (Inr config, calls4))))))"

subsection \<open>Closing\<close>

datatype close_error =
    ShutdownFailed string
  | ClosingStdin string
  | ProcessFailed string
  | DeadlineWaiting
  | KillFailed string

text \<open>
  \<open>close\<close>; \<open>disconnected\<close> is whether \<open>done\<close> is closed already, \<open>late\<close> whether the second select takes the branch of the deadline. The
  list is the joined error.
\<close>

definition close_process :: "process_world \<Rightarrow> bool \<Rightarrow> bool \<Rightarrow> process_call list \<Rightarrow> close_error list \<times> process_call list" where
  "close_process world disconnected late calls =
     (let (shutdown, calls1) = (if disconnected then (None, calls) else os_call world Shutdown calls);
          (stdin, calls2) = os_call world CloseStdin calls1;
          shutdownErr = (case (shutdown, stdin) of
              (Some e, _) \<Rightarrow> [ShutdownFailed e] | (None, Some e) \<Rightarrow> [ClosingStdin e] | (None, None) \<Rightarrow> [])
      in if late
         then (let (kill, calls3) = os_call world Kill calls2; (exit, calls4) = os_call world AwaitExit calls3
               in (shutdownErr @ [DeadlineWaiting] @ (case kill of None \<Rightarrow> [] | Some e \<Rightarrow> [KillFailed e]) @
                     (case exit of None \<Rightarrow> [] | Some e \<Rightarrow> [ProcessFailed e]), calls4))
         else (let (exit, calls3) = os_call world AwaitExit calls2
               in (shutdownErr @ (case exit of None \<Rightarrow> [] | Some e \<Rightarrow> [ProcessFailed e]), calls3)))"

text \<open>\<open>Close\<close> with its \<open>closeOnce\<close>: the first call closes, all later ones get its result.\<close>

definition Close ::
  "process_world \<Rightarrow> bool \<Rightarrow> bool \<Rightarrow> close_error list option \<times> process_call list \<Rightarrow>
     close_error list \<times> close_error list option \<times> process_call list" where
  "Close world disconnected late s =
     (case fst s of
        Some e \<Rightarrow> (e, s)
      | None \<Rightarrow> (case close_process world disconnected late (snd s) of (e, calls) \<Rightarrow> (e, Some e, calls)))"

text \<open>A client's life: \<open>Launch\<close>, then any number of \<open>Close\<close> calls with what each meets.\<close>

primrec closes ::
  "process_world \<Rightarrow> (bool \<times> bool) list \<Rightarrow> close_error list option \<times> process_call list \<Rightarrow>
     close_error list list \<times> close_error list option \<times> process_call list" where
  "closes world [] s = ([], s)"
| "closes world (m # ms) s =
     (case Close world (fst m) (snd m) s of (e, s1) \<Rightarrow> (case closes world ms s1 of (es, s2) \<Rightarrow> (e # es, s2)))"

subsection \<open>No process is left behind\<close>

text \<open>The processes started and not awaited yet after a trace of calls.\<close>

primrec unreaped :: "process_world \<Rightarrow> nat \<Rightarrow> process_call list \<Rightarrow> int" where
  "unreaped world k [] = 0"
| "unreaped world k (c # cs) =
     (case c of Start _ _ _ _ \<Rightarrow> if pw_error world k c = None then 1 else 0 | AwaitExit \<Rightarrow> -1 | _ \<Rightarrow> 0) +
     unreaped world (Suc k) cs"

lemma unreaped_append: "unreaped world k (xs @ ys) = unreaped world k xs + unreaped world (k + length xs) ys"
  by (induction xs arbitrary: k) simp_all

lemma launch_options_ok:
  "apply_launch_options opts config = Inr config' \<Longrightarrow> lc_path config \<noteq> [] \<Longrightarrow> 0 < lc_timeout config \<Longrightarrow>
     lc_path config' \<noteq> [] \<and> 0 < lc_timeout config'"
proof (induction opts arbitrary: config)
  case (Cons opt opts)
  then obtain c where c: "apply_launch_option opt config = Inr c" "apply_launch_options opts c = Inr config'"
    by (auto split: sum.splits)
  have "lc_path c \<noteq> [] \<and> 0 < lc_timeout c"
    using c(1) Cons.prems(2,3) by (auto simp: apply_launch_option_def split: launch_option.splits option.splits if_splits)
  then show ?case using Cons.IH [OF c(2)] by blast
qed simp

lemma closes_after_first: "closes world ms (Some e, calls) = (replicate (length ms) e, Some e, calls)"
  by (induction ms) (simp_all add: Close_def)

lemma Launch_cases:
  "case Launch world nil_context opts [] of
     (Inl e, calls) \<Rightarrow> unreaped world 0 calls = 0 \<and> count_list calls Kill = count_list calls AwaitExit
   | (Inr config, calls) \<Rightarrow> unreaped world 0 calls = 1 \<and> count_list calls AwaitExit = 0 \<and> count_list calls Kill = 0 \<and>
       lc_path config \<noteq> [] \<and> 0 < lc_timeout config \<and> pw_version world = sdk_protocolVersion"
  using launch_options_ok [of opts]
  by (auto simp: Launch_def os_call_def stopProcess_def Let_def defaultDriverPath_def sdk_defaultTimeout_def
      split: sum.split option.split)

lemma close_process_calls:
  assumes "close_process world disconnected late calls = (e, calls')"
  shows "\<exists>new. calls' = calls @ new \<and> unreaped world (length calls) new = -1 \<and> count_list new AwaitExit = 1 \<and>
     count_list new Kill = (if late then 1 else 0) \<and> count_list new Shutdown = (if disconnected then 0 else 1)"
  using assms by (auto simp: close_process_def os_call_def Let_def split: if_split_asm)

text \<open>
  C28: The client leaves no process behind. Whatever the operating system and the driver answer, a
  \<open>Launch\<close> that fails has awaited the process if it had started one, and killed it first; one that succeeds has
  started exactly one process, which speaks the client's protocol version, with a path and a positive timeout. The first
  \<open>Close\<close> awaits that process exactly once, after asking it to shut down unless the connection was gone, and kills it only
  when it did not exit in time; every later \<open>Close\<close> returns the same error and does nothing.
\<close>

theorem driver_process_reaped:
  "case Launch world nil_context opts [] of
     (Inl e, calls) \<Rightarrow> unreaped world 0 calls = 0 \<and> count_list calls Kill = count_list calls AwaitExit
   | (Inr config, calls) \<Rightarrow>
       unreaped world 0 calls = 1 \<and> pw_version world = sdk_protocolVersion \<and> lc_path config \<noteq> [] \<and> 0 < lc_timeout config \<and>
       (case closes world ((disconnected, late) # later) (None, calls) of
          (es, _, calls') \<Rightarrow>
            unreaped world 0 calls' = 0 \<and> count_list calls' AwaitExit = 1 \<and>
            count_list calls' Kill = (if late then 1 else 0) \<and> count_list calls' Shutdown = (if disconnected then 0 else 1) \<and>
            es = replicate (Suc (length later)) (hd es) \<and> fst (close_process world disconnected late calls) = hd es)"
proof (cases "Launch world nil_context opts []")
  case (Pair r calls)
  show ?thesis
  proof (cases r)
    case (Inl e)
    then show ?thesis using Launch_cases [of world nil_context opts] Pair by simp
  next
    case (Inr config)
    have launched: "unreaped world 0 calls = 1" "count_list calls AwaitExit = 0" "count_list calls Kill = 0"
        "lc_path config \<noteq> []" "0 < lc_timeout config" "pw_version world = sdk_protocolVersion"
      using Launch_cases [of world nil_context opts] Pair Inr by simp_all
    have asked: "count_list calls Shutdown = 0"
      using Pair Inr by (auto simp: Launch_def os_call_def Let_def split: sum.splits option.splits if_splits)
    obtain e calls' where closed: "close_process world disconnected late calls = (e, calls')" by fastforce
    obtain new where new: "calls' = calls @ new" "unreaped world (length calls) new = -1" "count_list new AwaitExit = 1"
        "count_list new Kill = (if late then 1 else 0)" "count_list new Shutdown = (if disconnected then 0 else 1)"
      using close_process_calls [OF closed] by blast
    have "closes world ((disconnected, late) # later) (None, calls) = (e # replicate (length later) e, Some e, calls')"
      by (simp add: Close_def closed closes_after_first)
    then show ?thesis
      using launched asked new closed by (simp add: Pair Inr unreaped_append)
  qed
qed

subsection \<open>Waiting and reading\<close>

text \<open>
  \<open>Launch\<close> calls \<open>command.Wait\<close> in a goroutine at once, while the reader still reads from \<open>StdoutPipe\<close>. \<open>Wait\<close>
  closes that pipe when it has seen the process exit; what is in the pipe then is lost, and the reader fails with
  \<open>os.ErrClosed\<close>.
\<close>

record 'm process_output =
  po_pipe :: "'m list"
  po_received :: "'m list"
  po_exited :: bool
  po_waited :: bool
  po_failed :: bool

inductive output_step :: "'m process_output \<Rightarrow> 'm process_output \<Rightarrow> bool" where
  driver_writes: "\<not> po_exited p \<Longrightarrow> output_step p (p\<lparr>po_pipe := po_pipe p @ [m]\<rparr>)"
| driver_exits: "output_step p (p\<lparr>po_exited := True\<rparr>)"
| wait_returns: "po_exited p \<Longrightarrow> output_step p (p\<lparr>po_waited := True\<rparr>)"
| reader_reads: "\<not> po_waited p \<Longrightarrow> \<not> po_failed p \<Longrightarrow> po_pipe p = m # rest \<Longrightarrow>
    output_step p (p\<lparr>po_pipe := rest, po_received := po_received p @ [m]\<rparr>)"
| reader_ends: "po_waited p \<or> po_exited p \<and> po_pipe p = [] \<Longrightarrow> output_step p (p\<lparr>po_failed := True\<rparr>)"

definition launched_output :: "'m process_output" where
  "launched_output = \<lparr>po_pipe = [], po_received = [], po_exited = False, po_waited = False, po_failed = False\<rparr>"

text \<open>
  So the response to \<open>driver.shutdown\<close> can be lost: the driver has answered and exited normally, and \<open>Close\<close> reports
  that the response could not be read.
\<close>

lemma shutdown_response_lost:
  "output_step\<^sup>*\<^sup>* launched_output
     \<lparr>po_pipe = [answer], po_received = [], po_exited = True, po_waited = True, po_failed = True\<rparr>"
proof -
  let ?p = "launched_output\<lparr>po_pipe := [answer]\<rparr>"
  have "output_step launched_output ?p"
    using driver_writes [of launched_output answer] by (simp add: launched_output_def)
  also have "output_step\<^sup>*\<^sup>* ?p (?p\<lparr>po_exited := True, po_waited := True, po_failed := True\<rparr>)"
  proof -
    have "output_step ?p (?p\<lparr>po_exited := True\<rparr>)" by (rule driver_exits)
    also have "output_step\<^sup>*\<^sup>* (?p\<lparr>po_exited := True\<rparr>) (?p\<lparr>po_exited := True, po_waited := True\<rparr>)"
      using wait_returns [of "?p\<lparr>po_exited := True\<rparr>"] by auto
    also have "output_step (?p\<lparr>po_exited := True, po_waited := True\<rparr>)
        ((?p\<lparr>po_exited := True, po_waited := True\<rparr>)\<lparr>po_failed := True\<rparr>)"
      by (rule reader_ends) simp
    finally show ?thesis by simp
  qed
  finally show ?thesis by (simp add: launched_output_def)
qed

end
