(* ===== verification/Memory_Transport.thy ===== *)
theory Memory_Transport
  imports Prelude
begin

text \<open>
  The in-memory transport (\<open>memory/connector.go\<close>): a connection hands out pipes, runs a handler at the other end of each, and
  closes them. Goroutines that close a stream or the connection are numbered; \<open>mm_goroutines\<close> says where each is. A step is
  one section under the connection's mutex, one effect on a stream, or the entry or the end of a stream's \<open>sync.Once\<close>, so
  \<open>memory_step\<close> holds every interleaving. \<open>net.Pipe\<close> and \<open>context.WithCancel\<close> are seen through what is
  done to them: \<open>mm_cancelled\<close> are the streams whose handler's context is cancelled, \<open>mm_pipeCloses\<close> counts the closes of
  the client's end.
\<close>

text \<open>Inside the function of \<open>closeOnce\<close>, before each of its effects, and before and after it.\<close>

datatype stage = Entering | Cancelling | ClosingPipe | Deregistering | Finishing

text \<open>
  A goroutine in \<open>stream.Close\<close>, called directly (\<open>None\<close>) or by the loop of \<open>connection.Close\<close> with the streams that remain, in
  that loop, or returned.
\<close>

datatype frame = Closing stage nat "nat list option" | Looping "nat list" | Returned

text \<open>A \<open>sync.Once\<close>; while its function runs, with the goroutine that runs it.\<close>

datatype once = Fresh | Running nat | Finished

record memory =
  mm_closed :: bool
  mm_closer :: "nat option"
  mm_next :: nat
  mm_streams :: "nat set"
  mm_once :: "nat \<Rightarrow> once"
  mm_cancelled :: "nat set"
  mm_pipeCloses :: "nat \<Rightarrow> nat"
  mm_remoteClosed :: "nat set"
  mm_goroutines :: "nat \<rightharpoonup> frame"

datatype memory_error = HandlerRequired | OpenCancelled | ConnectionIsClosed

definition NewConnector :: "'h option \<Rightarrow> memory_error + 'h" where
  "NewConnector handler = (case handler of None \<Rightarrow> Inl HandlerRequired | Some h \<Rightarrow> Inr h)"

text \<open>\<open>Connect\<close>\<close>

definition new_memory :: memory where
  "new_memory = \<lparr>mm_closed = False, mm_closer = None, mm_next = 0, mm_streams = {}, mm_once = (\<lambda>_. Fresh),
     mm_cancelled = {}, mm_pipeCloses = (\<lambda>_. 0), mm_remoteClosed = {}, mm_goroutines = Map.empty\<rparr>"

definition memory_OpenSession :: "bool \<Rightarrow> memory \<Rightarrow> (memory_error + nat) \<times> memory" where
  "memory_OpenSession cancelled m =
     (if cancelled then (Inl OpenCancelled, m)
      else if mm_closed m then (Inl ConnectionIsClosed, m)
      else (Inr (mm_next m), m\<lparr>mm_next := Suc (mm_next m), mm_streams := insert (mm_next m) (mm_streams m)\<rparr>))"

definition at_frame :: "nat \<Rightarrow> frame \<Rightarrow> memory \<Rightarrow> memory" where
  "at_frame t f m = m\<lparr>mm_goroutines := (mm_goroutines m)(t \<mapsto> f)\<rparr>"

text \<open>The first section of \<open>connection.Close\<close>; \<open>order\<close> is the order in which it ranges over the streams.\<close>

definition begin_close :: "nat \<Rightarrow> nat list \<Rightarrow> memory \<Rightarrow> memory" where
  "begin_close t order m =
     (if mm_closed m then at_frame t Returned m
      else at_frame t (Looping order) (m\<lparr>mm_closed := True, mm_closer := Some t\<rparr>))"

definition return_to :: "nat list option \<Rightarrow> frame" where
  "return_to rest = (case rest of None \<Rightarrow> Returned | Some xs \<Rightarrow> Looping xs)"

text \<open>One step of \<open>stream.Close\<close>; \<open>None\<close> while another goroutine runs the function.\<close>

definition stream_close_step :: "nat \<Rightarrow> stage \<Rightarrow> nat \<Rightarrow> nat list option \<Rightarrow> memory \<Rightarrow> memory option" where
  "stream_close_step t stage i rest m =
     (case stage of
        Entering \<Rightarrow>
          (case mm_once m i of
             Fresh \<Rightarrow> Some (at_frame t (Closing Cancelling i rest) (m\<lparr>mm_once := (mm_once m)(i := Running t)\<rparr>))
           | Running _ \<Rightarrow> None
           | Finished \<Rightarrow> Some (at_frame t (return_to rest) m))
      | Cancelling \<Rightarrow>
          Some (at_frame t (Closing ClosingPipe i rest) (m\<lparr>mm_cancelled := insert i (mm_cancelled m)\<rparr>))
      | ClosingPipe \<Rightarrow>
          Some (at_frame t (Closing Deregistering i rest)
            (m\<lparr>mm_pipeCloses := (mm_pipeCloses m)(i := Suc (mm_pipeCloses m i))\<rparr>))
      | Deregistering \<Rightarrow>
          Some (at_frame t (Closing Finishing i rest) (m\<lparr>mm_streams := mm_streams m - {i}\<rparr>))
      | Finishing \<Rightarrow>
          Some (at_frame t (return_to rest) (m\<lparr>mm_once := (mm_once m)(i := Finished)\<rparr>)))"

inductive memory_step :: "memory \<Rightarrow> memory \<Rightarrow> bool" where
  session_opens: "memory_OpenSession cancelled m = (r, m') \<Longrightarrow> memory_step m m'"
| handler_returns: "i < mm_next m \<Longrightarrow> memory_step m (m\<lparr>mm_remoteClosed := insert i (mm_remoteClosed m)\<rparr>)"
| stream_close_begins: "mm_goroutines m t = None \<Longrightarrow> i < mm_next m \<Longrightarrow>
    memory_step m (at_frame t (Closing Entering i None) m)"
| connection_close_begins: "mm_goroutines m t = None \<Longrightarrow> set order = mm_streams m \<Longrightarrow> distinct order \<Longrightarrow>
    memory_step m (begin_close t order m)"
| stream_close_goes_on: "mm_goroutines m t = Some (Closing stage i rest) \<Longrightarrow> stream_close_step t stage i rest m = Some m' \<Longrightarrow>
    memory_step m m'"
| loop_goes_on: "mm_goroutines m t = Some (Looping (i # rest)) \<Longrightarrow>
    memory_step m (at_frame t (Closing Entering i (Some rest)) m)"
| loop_ends: "mm_goroutines m t = Some (Looping []) \<Longrightarrow> memory_step m (at_frame t Returned m)"

inductive memory_run :: "memory \<Rightarrow> bool" where
  connected: "memory_run new_memory"
| goes_on: "memory_run m \<Longrightarrow> memory_step m m' \<Longrightarrow> memory_run m'"

subsection \<open>The invariant\<close>

text \<open>A stream of which everything is closed that \<open>Close\<close> closes.\<close>

definition shut :: "memory \<Rightarrow> nat \<Rightarrow> bool" where
  "shut m i \<longleftrightarrow> i \<in> mm_cancelled m \<and> mm_pipeCloses m i = 1 \<and> i \<notin> mm_streams m"

text \<open>What is true of a stream, by its \<open>sync.Once\<close> and the stage of the goroutine that runs it.\<close>

definition stream_state :: "memory \<Rightarrow> nat \<Rightarrow> bool" where
  "stream_state m i \<longleftrightarrow> (mm_next m \<le> i \<longrightarrow> mm_once m i = Fresh) \<and>
     (case mm_once m i of
        Fresh \<Rightarrow> i \<notin> mm_cancelled m \<and> mm_pipeCloses m i = 0 \<and> (i \<in> mm_streams m \<longleftrightarrow> i < mm_next m)
      | Running t \<Rightarrow>
          (\<exists>stage rest. mm_goroutines m t = Some (Closing stage i rest) \<and> stage \<noteq> Entering \<and>
             (i \<in> mm_cancelled m \<longleftrightarrow> stage \<noteq> Cancelling) \<and>
             mm_pipeCloses m i = (if stage \<in> {Deregistering, Finishing} then 1 else 0) \<and>
             (i \<in> mm_streams m \<longleftrightarrow> stage \<noteq> Finishing))
      | Finished \<Rightarrow> shut m i)"

definition frame_ok :: "memory \<Rightarrow> nat \<Rightarrow> frame \<Rightarrow> bool" where
  "frame_ok m t f \<longleftrightarrow>
     (case f of
        Closing stage i rest \<Rightarrow> i < mm_next m \<and> (stage \<noteq> Entering \<longrightarrow> mm_once m i = Running t) \<and>
          (\<forall>xs. rest = Some xs \<longrightarrow> mm_closer m = Some t \<and> (\<forall>j \<in> set xs. j < mm_next m))
      | Looping xs \<Rightarrow> mm_closer m = Some t \<and> (\<forall>j \<in> set xs. j < mm_next m)
      | Returned \<Rightarrow> True)"

text \<open>The streams a goroutine in \<open>connection.Close\<close> still has to close.\<close>

definition remaining :: "frame \<Rightarrow> nat set" where
  "remaining f =
     (case f of
        Closing stage i (Some xs) \<Rightarrow> insert i (set xs)
      | Closing stage i None \<Rightarrow> {}
      | Looping xs \<Rightarrow> set xs
      | Returned \<Rightarrow> {})"

definition closer_ok :: "memory \<Rightarrow> bool" where
  "closer_ok m \<longleftrightarrow>
     (case mm_closer m of
        None \<Rightarrow> \<not> mm_closed m
      | Some t \<Rightarrow> mm_closed m \<and>
          (\<exists>f. mm_goroutines m t = Some f \<and> (\<forall>stage i. f \<noteq> Closing stage i None) \<and>
             (\<forall>i < mm_next m. i \<notin> remaining f \<longrightarrow> shut m i)))"

definition memory_ok :: "memory \<Rightarrow> bool" where
  "memory_ok m \<longleftrightarrow>
     (\<forall>i. stream_state m i) \<and> (\<forall>t f. mm_goroutines m t = Some f \<longrightarrow> frame_ok m t f) \<and> closer_ok m \<and>
     mm_streams m \<subseteq> {..<mm_next m}"

lemma memory_okD:
  assumes "memory_ok m"
  shows "stream_state m i" "mm_goroutines m t = Some f \<Longrightarrow> frame_ok m t f" "closer_ok m" "mm_streams m \<subseteq> {..<mm_next m}"
  using assms by (simp_all add: memory_ok_def)

lemma at_frame_simps [simp]:
  "mm_closed (at_frame t f m) = mm_closed m" "mm_closer (at_frame t f m) = mm_closer m"
  "mm_next (at_frame t f m) = mm_next m" "mm_streams (at_frame t f m) = mm_streams m"
  "mm_once (at_frame t f m) = mm_once m" "mm_cancelled (at_frame t f m) = mm_cancelled m"
  "mm_pipeCloses (at_frame t f m) = mm_pipeCloses m"
  "mm_goroutines (at_frame t f m) = (mm_goroutines m)(t \<mapsto> f)"
  "shut (at_frame t f m) i = shut m i"
  by (simp_all add: at_frame_def shut_def)

text \<open>A step that leaves a stream and the goroutine running its \<open>sync.Once\<close> alone keeps what is true of it.\<close>

lemma stream_state_kept:
  assumes "stream_state m j" "mm_once m' j = mm_once m j" "j \<in> mm_cancelled m' \<longleftrightarrow> j \<in> mm_cancelled m"
    "mm_pipeCloses m' j = mm_pipeCloses m j" "j \<in> mm_streams m' \<longleftrightarrow> j \<in> mm_streams m"
    "j < mm_next m' \<longleftrightarrow> j < mm_next m"
    "\<And>t stage rest. mm_once m j = Running t \<Longrightarrow> mm_goroutines m t = Some (Closing stage j rest) \<Longrightarrow> stage \<noteq> Entering \<Longrightarrow>
       mm_goroutines m' t = mm_goroutines m t"
  shows "stream_state m' j"
proof (cases "mm_once m j")
  case (Running t)
  then obtain stage rest where "mm_goroutines m t = Some (Closing stage j rest)" "stage \<noteq> Entering"
    using assms(1) by (auto simp: stream_state_def)
  then show ?thesis using assms Running by (simp add: stream_state_def)
qed (use assms in \<open>simp_all add: stream_state_def shut_def\<close>)

lemma frame_ok_kept:
  assumes "frame_ok m t f" "mm_next m \<le> mm_next m'"
    "\<And>stage i rest. f = Closing stage i rest \<Longrightarrow> mm_once m i = Running t \<Longrightarrow> mm_once m' i = Running t"
    "mm_closer m = Some t \<Longrightarrow> mm_closer m' = Some t"
  shows "frame_ok m' t f"
  using assms by (auto simp: frame_ok_def split: frame.split) fastforce+

text \<open>The goroutine of the connection's \<open>Close\<close> is another one, or it goes on.\<close>

lemma closer_ok_kept:
  assumes "closer_ok m" "mm_closed m' = mm_closed m" "mm_closer m' = mm_closer m" "mm_next m' = mm_next m"
    "\<And>i. i < mm_next m \<Longrightarrow> shut m i \<Longrightarrow> shut m' i"
    "\<And>t. mm_closer m = Some t \<Longrightarrow> mm_goroutines m' t = mm_goroutines m t \<or>
       (\<exists>f f'. mm_goroutines m t = Some f \<and> mm_goroutines m' t = Some f' \<and> (\<forall>stage i. f' \<noteq> Closing stage i None) \<and>
          (\<forall>i \<in> remaining f - remaining f'. shut m' i))"
  shows "closer_ok m'"
proof (cases "mm_closer m")
  case (Some t)
  then obtain f where f: "mm_goroutines m t = Some f" "\<forall>stage i. f \<noteq> Closing stage i None" "mm_closed m"
      "\<forall>i < mm_next m. i \<notin> remaining f \<longrightarrow> shut m i"
    using assms(1) by (auto simp: closer_ok_def)
  from assms(6) [OF Some] show ?thesis
  proof (elim disjE exE conjE)
    assume "mm_goroutines m' t = mm_goroutines m t"
    then show ?thesis using f assms(2-5) Some by (auto simp: closer_ok_def)
  next
    fix g f' assume "mm_goroutines m t = Some g" "mm_goroutines m' t = Some f'" "\<forall>stage i. f' \<noteq> Closing stage i None"
      "\<forall>i \<in> remaining g - remaining f'. shut m' i"
    then show ?thesis using f assms(2-5) Some by (auto simp: closer_ok_def)
  qed
qed (use assms in \<open>simp add: closer_ok_def\<close>)

lemma open_ok:
  assumes "memory_ok m" "memory_OpenSession cancelled m = (r, m')"
  shows "memory_ok m'"
proof (cases "cancelled \<or> mm_closed m")
  case False
  let ?i = "mm_next m"
  have m': "m' = m\<lparr>mm_next := Suc ?i, mm_streams := insert ?i (mm_streams m)\<rparr>"
    using assms(2) False by (auto simp: memory_OpenSession_def)
  have new: "stream_state m ?i" "mm_once m ?i = Fresh"
    using memory_okD(1) [OF assms(1), of ?i] by (auto simp: stream_state_def)
  have "stream_state m' j" for j
  proof (cases "j = ?i")
    case True
    then show ?thesis using new by (simp add: m' stream_state_def)
  next
    case False
    then show ?thesis
      by (intro stream_state_kept [OF memory_okD(1) [OF assms(1)]]) (auto simp: m')
  qed
  moreover have "frame_ok m' t f" if "mm_goroutines m' t = Some f" for t f
  proof -
    have "frame_ok m t f" using that memory_okD(2) [OF assms(1)] by (simp add: m')
    then show ?thesis by (rule frame_ok_kept) (simp_all add: m')
  qed
  moreover have "closer_ok m'"
    using memory_okD(3) [OF assms(1)] False by (auto simp: closer_ok_def m' split: option.splits)
  ultimately show ?thesis using memory_okD(4) [OF assms(1)] by (auto simp: memory_ok_def m')
qed (use assms in \<open>auto simp: memory_OpenSession_def split: if_split_asm\<close>)

text \<open>A goroutine that moves without touching a stream's state.\<close>

lemma move_ok:
  assumes "memory_ok m" "frame_ok m t f'"
    "\<And>stage i rest. mm_goroutines m t = Some (Closing stage i rest) \<Longrightarrow> stage = Entering"
    "mm_closer m = Some t \<Longrightarrow> \<exists>f. mm_goroutines m t = Some f \<and> (\<forall>stage i. f' \<noteq> Closing stage i None) \<and>
       (\<forall>i \<in> remaining f - remaining f'. shut m i)"
  shows "memory_ok (at_frame t f' m)"
proof -
  have "stream_state (at_frame t f' m) j" for j
    using assms(3) by (intro stream_state_kept [OF memory_okD(1) [OF assms(1)]]) auto
  moreover have "frame_ok (at_frame t f' m) u f" if "mm_goroutines (at_frame t f' m) u = Some f" for u f
  proof -
    have "frame_ok m u f" using that assms(2) memory_okD(2) [OF assms(1)] by (auto split: if_split_asm)
    then show ?thesis by (rule frame_ok_kept) auto
  qed
  moreover have "closer_ok (at_frame t f' m)"
    using assms(4) by (intro closer_ok_kept [OF memory_okD(3) [OF assms(1)]]) auto
  ultimately show ?thesis using memory_okD(4) [OF assms(1)] by (simp add: memory_ok_def)
qed

text \<open>A goroutine in the function of the \<open>sync.Once\<close> of stream \<open>i\<close> goes on to \<open>f'\<close>, changing that stream only.\<close>

lemma work_ok:
  assumes "memory_ok m" "mm_goroutines m t = Some f" "m1 = at_frame t f' m'"
    and same: "mm_closed m' = mm_closed m" "mm_closer m' = mm_closer m" "mm_next m' = mm_next m" "mm_goroutines m' = mm_goroutines m"
    and others: "\<And>j. j \<noteq> i \<Longrightarrow> mm_once m' j = mm_once m j \<and> (j \<in> mm_cancelled m' \<longleftrightarrow> j \<in> mm_cancelled m) \<and>
       mm_pipeCloses m' j = mm_pipeCloses m j \<and> (j \<in> mm_streams m' \<longleftrightarrow> j \<in> mm_streams m)"
    and only: "\<And>stage j rest. f = Closing stage j rest \<Longrightarrow> j = i" "mm_streams m' \<subseteq> mm_streams m"
    and once: "mm_once m i = Fresh \<or> mm_once m i = Running t"
    and own: "stream_state m1 i" "frame_ok m1 t f'" "shut m i \<Longrightarrow> shut m1 i"
    and closer: "mm_closer m = Some t \<Longrightarrow> (\<forall>stage j. f' \<noteq> Closing stage j None) \<and> (\<forall>j \<in> remaining f - remaining f'. shut m1 j)"
  shows "memory_ok m1"
proof -
  have "stream_state m1 j" for j
  proof (cases "j = i")
    case False
    then show ?thesis
      using others [OF False] only assms(2) same
      by (intro stream_state_kept [OF memory_okD(1) [OF assms(1), of j]]) (auto simp: assms(3))
  qed (simp add: own)
  moreover have "frame_ok m1 u g" if "mm_goroutines m1 u = Some g" for u g
  proof (cases "u = t")
    case True
    then show ?thesis using that own(2) same by (simp add: assms(3))
  next
    case False
    then have "frame_ok m u g" using that memory_okD(2) [OF assms(1)] same by (simp add: assms(3))
    then show ?thesis
    proof (rule frame_ok_kept)
      fix stage j rest assume "mm_once m j = Running u"
      then have "j \<noteq> i" using once False by auto
      then show "mm_once m1 j = Running u" using \<open>mm_once m j = Running u\<close> others by (simp add: assms(3))
    qed (use same in \<open>auto simp: assms(3)\<close>)
  qed
  moreover have "closer_ok m1"
  proof (rule closer_ok_kept [OF memory_okD(3) [OF assms(1)]])
    fix j assume "j < mm_next m" "shut m j"
    then show "shut m1 j" using others own(3) by (cases "j = i") (simp_all add: assms(3) shut_def)
  next
    fix u assume "mm_closer m = Some u"
    then show "mm_goroutines m1 u = mm_goroutines m u \<or>
       (\<exists>f f'. mm_goroutines m u = Some f \<and> mm_goroutines m1 u = Some f' \<and> (\<forall>stage i. f' \<noteq> Closing stage i None) \<and>
          (\<forall>i \<in> remaining f - remaining f'. shut m1 i))"
      using closer assms(2) same by (cases "u = t") (auto simp: assms(3))
  qed (use same in \<open>auto simp: assms(3)\<close>)
  ultimately show ?thesis using memory_okD(4) [OF assms(1)] only(2) same by (auto simp: memory_ok_def assms(3))
qed

lemma remaining_same: "remaining (Closing s i rest) - remaining (Closing s' i rest) = {}"
  by (cases rest) (simp_all add: remaining_def)

lemma remaining_returns: "remaining (Closing s i rest) - remaining (return_to rest) \<subseteq> {i}"
  by (cases rest) (auto simp: remaining_def return_to_def)

lemma frame_ok_returns: "frame_ok m t (Closing stage i rest) \<Longrightarrow> frame_ok m t (return_to rest)"
  by (auto simp: frame_ok_def return_to_def split: option.split)

lemma closer_goes_on:
  "memory_ok m \<Longrightarrow> mm_goroutines m t = Some (Closing stage i rest) \<Longrightarrow> mm_closer m = Some t \<Longrightarrow> rest \<noteq> None"
  using memory_okD(3) [of m] by (auto simp: closer_ok_def)

lemma stream_enters_ok:
  assumes "memory_ok m" "mm_goroutines m t = Some (Closing Entering i rest)" "stream_close_step t Entering i rest m = Some m'"
  shows "memory_ok m'"
proof -
  have f: "frame_ok m t (Closing Entering i rest)" by (rule memory_okD(2) [OF assms(1,2)])
  have i: "stream_state m i" by (rule memory_okD(1) [OF assms(1)])
  note closer = closer_goes_on [OF assms(1,2)] and ret = frame_ok_returns [OF f]
  show ?thesis
  proof (cases "mm_once m i")
    case Fresh
    let ?m = "m\<lparr>mm_once := (mm_once m)(i := Running t)\<rparr>"
    have m': "m' = at_frame t (Closing Cancelling i rest) ?m"
      using assms(3) Fresh by (simp add: stream_close_step_def)
    show ?thesis
      by (rule work_ok [OF assms(1,2) m', where i = i])
        (use f i Fresh closer remaining_same [of _ i rest] in \<open>auto simp: m' stream_state_def frame_ok_def shut_def\<close>)
  next
    case Finished
    have m': "m' = at_frame t (return_to rest) m"
      using assms(3) Finished by (simp add: stream_close_step_def)
    have "shut m i" using i Finished by (simp add: stream_state_def)
    then show ?thesis unfolding m'
      by (intro move_ok [OF assms(1) ret])
        (use assms(2) closer remaining_returns [of Entering i rest] in \<open>auto simp: return_to_def split: option.splits\<close>)
  qed (use assms(3) in \<open>simp add: stream_close_step_def\<close>)
qed

lemma stream_close_ok:
  assumes "memory_ok m" "mm_goroutines m t = Some (Closing stage i rest)" "stream_close_step t stage i rest m = Some m'"
  shows "memory_ok m'"
proof -
  have f: "frame_ok m t (Closing stage i rest)" by (rule memory_okD(2) [OF assms(1,2)])
  have i: "stream_state m i" by (rule memory_okD(1) [OF assms(1)])
  note closer = closer_goes_on [OF assms(1,2)] and ret = frame_ok_returns [OF f]
  show ?thesis
  proof (cases stage)
    case Entering
    then show ?thesis using stream_enters_ok [OF assms(1)] assms(2,3) by blast
  next
    case Cancelling
    have m': "m' = at_frame t (Closing ClosingPipe i rest) (m\<lparr>mm_cancelled := insert i (mm_cancelled m)\<rparr>)"
      using assms(3) Cancelling by (simp add: stream_close_step_def)
    show ?thesis
      by (rule work_ok [OF assms(1,2) m', where i = i])
        (use f i Cancelling closer remaining_same [of _ i rest] assms(2) in \<open>auto simp: m' stream_state_def frame_ok_def shut_def\<close>)
  next
    case ClosingPipe
    have m': "m' = at_frame t (Closing Deregistering i rest) (m\<lparr>mm_pipeCloses := (mm_pipeCloses m)(i := Suc (mm_pipeCloses m i))\<rparr>)"
      using assms(3) ClosingPipe by (simp add: stream_close_step_def)
    show ?thesis
      by (rule work_ok [OF assms(1,2) m', where i = i])
        (use f i ClosingPipe closer remaining_same [of _ i rest] assms(2) in \<open>auto simp: m' stream_state_def frame_ok_def shut_def\<close>)
  next
    case Deregistering
    have m': "m' = at_frame t (Closing Finishing i rest) (m\<lparr>mm_streams := mm_streams m - {i}\<rparr>)"
      using assms(3) Deregistering by (simp add: stream_close_step_def)
    show ?thesis
      by (rule work_ok [OF assms(1,2) m', where i = i])
        (use f i Deregistering closer remaining_same [of _ i rest] assms(2) in \<open>auto simp: m' stream_state_def frame_ok_def shut_def\<close>)
  next
    case Finishing
    have m': "m' = at_frame t (return_to rest) (m\<lparr>mm_once := (mm_once m)(i := Finished)\<rparr>)"
      using assms(3) Finishing by (simp add: stream_close_step_def)
    have shut: "shut m i" using f i Finishing assms(2) by (auto simp: stream_state_def frame_ok_def shut_def)
    show ?thesis
      by (rule work_ok [OF assms(1,2) m', where i = i])
        (use f i Finishing closer remaining_returns [of Finishing i rest] assms(2) shut ret in
          \<open>auto simp: m' stream_state_def frame_ok_def shut_def return_to_def split: option.splits\<close>)
  qed
qed

lemma close_begins_ok:
  assumes "memory_ok m" "mm_goroutines m t = None" "set order = mm_streams m"
  shows "memory_ok (begin_close t order m)"
proof (cases "mm_closed m")
  case True
  then show ?thesis unfolding begin_close_def
    using assms memory_okD(3) [of m] by (auto intro!: move_ok simp: frame_ok_def closer_ok_def)
next
  case False
  let ?m = "m\<lparr>mm_closed := True, mm_closer := Some t\<rparr>"
  have m': "begin_close t order m = at_frame t (Looping order) ?m" using False by (simp add: begin_close_def)
  have none: "mm_closer m = None" using memory_okD(3) [of m] assms False by (auto simp: closer_ok_def split: option.splits)
  have "stream_state (begin_close t order m) j" for j
    using assms(2)
    by (intro stream_state_kept [OF memory_okD(1) [OF assms(1)]]) (auto simp: m')
  moreover have "frame_ok (begin_close t order m) u f" if "mm_goroutines (begin_close t order m) u = Some f" for u f
    using that memory_okD(2,4) [OF assms(1)] assms(3) none
    by (fastforce simp: m' frame_ok_def split: if_split_asm frame.splits)
  moreover have "shut m j" if "j < mm_next m" "j \<notin> set order" for j
    using memory_okD(1) [OF assms(1), of j] that assms(3)
    by (auto simp: stream_state_def shut_def split: once.splits)
  then have "closer_ok (begin_close t order m)" by (auto simp: closer_ok_def m' remaining_def shut_def)
  ultimately show ?thesis
    using memory_okD(4) [OF assms(1)] by (simp add: memory_ok_def m')
qed

lemma memory_step_ok: "memory_step m m' \<Longrightarrow> memory_ok m \<Longrightarrow> memory_ok m'"
proof (induction rule: memory_step.induct)
  case (session_opens cancelled m r m')
  then show ?case by (blast intro: open_ok)
next
  case (handler_returns i m)
  let ?m = "m\<lparr>mm_remoteClosed := insert i (mm_remoteClosed m)\<rparr>"
  have "stream_state ?m j" for j
    by (rule stream_state_kept [OF memory_okD(1) [OF handler_returns(2)]]) simp_all
  moreover have "frame_ok ?m t f" if "mm_goroutines m t = Some f" for t f
    by (rule frame_ok_kept [OF memory_okD(2) [OF handler_returns(2) that]]) simp_all
  moreover have "closer_ok ?m"
    by (rule closer_ok_kept [OF memory_okD(3) [OF handler_returns(2)]]) (simp_all add: shut_def)
  ultimately show ?case using memory_okD(4) [OF handler_returns(2)] by (simp add: memory_ok_def)
next
  case (stream_close_begins m t i)
  then show ?case
    by (intro move_ok) (use memory_okD(3) [of m] in \<open>auto simp: frame_ok_def closer_ok_def\<close>)
next
  case (connection_close_begins m t order)
  then show ?case by (blast intro: close_begins_ok)
next
  case (stream_close_goes_on m t stage i rest m')
  then show ?case by (blast intro: stream_close_ok)
next
  case (loop_goes_on m t i rest)
  then show ?case
    using memory_okD(2) [OF loop_goes_on(2,1)]
    by (intro move_ok) (auto simp: frame_ok_def remaining_def)
next
  case (loop_ends m t)
  then show ?case by (intro move_ok) (auto simp: frame_ok_def remaining_def)
qed

lemma memory_run_ok: "memory_run m \<Longrightarrow> memory_ok m"
proof (induction rule: memory_run.induct)
  case connected
  show ?case by (simp add: memory_ok_def new_memory_def stream_state_def closer_ok_def)
next
  case (goes_on m m')
  then show ?case by (blast intro: memory_step_ok)
qed

subsection \<open>Closing is complete\<close>

text \<open>A step of a goroutine that is in a \<open>Close\<close>, and a connection whose \<open>Close\<close> has returned where it closed.\<close>

definition goroutine_moves :: "memory \<Rightarrow> nat \<Rightarrow> memory \<Rightarrow> bool" where
  "goroutine_moves m t m' \<longleftrightarrow> memory_step m m' \<and> mm_goroutines m t \<noteq> None \<and> mm_goroutines m' t \<noteq> mm_goroutines m t"

definition close_returned :: "memory \<Rightarrow> bool" where
  "close_returned m \<longleftrightarrow> (\<exists>t. mm_closer m = Some t \<and> mm_goroutines m t = Some Returned)"

lemma holder_moves:
  assumes "mm_goroutines m t = Some (Closing stage i rest)" "stage \<noteq> Entering"
  shows "\<exists>m'. goroutine_moves m t m'"
proof -
  obtain m' where m': "stream_close_step t stage i rest m = Some m'" "mm_goroutines m' t \<noteq> mm_goroutines m t"
    using assms by (cases stage) (auto simp: stream_close_step_def return_to_def split: option.split)
  then show ?thesis using stream_close_goes_on [OF assms(1) m'(1)] assms(1) by (auto simp: goroutine_moves_def)
qed

lemma someone_moves:
  assumes "memory_ok m" "mm_goroutines m t = Some f" "f \<noteq> Returned"
  shows "\<exists>u m'. goroutine_moves m u m'"
proof (cases f)
  case (Closing stage i rest)
  show ?thesis
  proof (cases "stage = Entering")
    case True
    show ?thesis
    proof (cases "mm_once m i")
      case Fresh
      then have "stream_close_step t stage i rest m = Some (at_frame t (Closing Cancelling i rest) (m\<lparr>mm_once := (mm_once m)(i := Running t)\<rparr>))"
        using True by (simp add: stream_close_step_def)
      then show ?thesis
        using stream_close_goes_on [of m t stage i rest] assms(2) Closing True by (fastforce simp: goroutine_moves_def)
    next
      case (Running u)
      then obtain s r where "mm_goroutines m u = Some (Closing s i r)" "s \<noteq> Entering"
        using memory_okD(1) [OF assms(1), of i] by (auto simp: stream_state_def)
      then show ?thesis using holder_moves by blast
    next
      case Finished
      then have "stream_close_step t stage i rest m = Some (at_frame t (return_to rest) m)"
        using True by (simp add: stream_close_step_def)
      then show ?thesis
        using stream_close_goes_on [of m t stage i rest] assms(2) Closing True
        by (fastforce simp: goroutine_moves_def return_to_def split: option.splits)
    qed
  next
    case False
    then show ?thesis using holder_moves assms(2) Closing by blast
  qed
next
  case (Looping xs)
  show ?thesis
  proof (cases xs)
    case Nil
    then show ?thesis using loop_ends [of m t] assms(2) Looping by (fastforce simp: goroutine_moves_def)
  next
    case (Cons i rest)
    then show ?thesis using loop_goes_on [of m t i rest] assms(2) Looping by (fastforce simp: goroutine_moves_def)
  qed
qed (use assms(3) in simp)

text \<open>
  C11: However sessions are opened and streams and the connection closed at the same time, the client's end of a
  pipe is closed at most once. When the \<open>Close\<close> that closed the connection has returned, every session ever opened on it
  has its pipe closed and its handler's context cancelled, no stream is left registered, and no further session can be opened. The
  goroutines never block each other for good: as long as one is in a \<open>Close\<close>, one of them can go on.
\<close>

theorem memory_close_complete:
  assumes "memory_run m"
  shows "mm_pipeCloses m i \<le> 1 \<and>
     (close_returned m \<longrightarrow> mm_streams m = {} \<and> fst (memory_OpenSession False m) = Inl ConnectionIsClosed \<and>
        (\<forall>i < mm_next m. i \<in> mm_cancelled m \<and> mm_pipeCloses m i = 1)) \<and>
     ((\<exists>t f. mm_goroutines m t = Some f \<and> f \<noteq> Returned) \<longrightarrow> (\<exists>u m'. goroutine_moves m u m'))"
proof -
  note ok = memory_run_ok [OF assms]
  have "mm_pipeCloses m i \<le> 1"
    using memory_okD(1) [OF ok, of i] by (auto simp: stream_state_def shut_def split: once.splits)
  moreover have "mm_streams m = {} \<and> fst (memory_OpenSession False m) = Inl ConnectionIsClosed \<and>
        (\<forall>i < mm_next m. i \<in> mm_cancelled m \<and> mm_pipeCloses m i = 1)" if "close_returned m"
  proof -
    have "mm_closed m" "\<forall>i < mm_next m. shut m i"
      using memory_okD(3) [OF ok] that by (auto simp: closer_ok_def close_returned_def remaining_def)
    then show ?thesis using memory_okD(4) [OF ok] by (auto simp: shut_def memory_OpenSession_def)
  qed
  ultimately show ?thesis using someone_moves [OF ok] by blast
qed

text \<open>A stream whose owner closes it while the connection is being closed.\<close>

lemma memory_run_close:
  "\<exists>m. memory_run m \<and> close_returned m \<and> mm_next m = 1"
proof -
  define m1 where "m1 = snd (memory_OpenSession False new_memory)"
  define m2 where "m2 = begin_close 5 [0] m1"
  define m3 where "m3 = at_frame 5 (Closing Entering 0 (Some [])) m2"
  define m4 where "m4 = the (stream_close_step 5 Entering 0 (Some []) m3)"
  define m5 where "m5 = the (stream_close_step 5 Cancelling 0 (Some []) m4)"
  define m6 where "m6 = the (stream_close_step 5 ClosingPipe 0 (Some []) m5)"
  define m7 where "m7 = the (stream_close_step 5 Deregistering 0 (Some []) m6)"
  define m8 where "m8 = the (stream_close_step 5 Finishing 0 (Some []) m7)"
  note defs = m1_def m2_def m3_def m4_def m5_def m6_def m7_def m8_def memory_OpenSession_def new_memory_def begin_close_def
    at_frame_def stream_close_step_def return_to_def
  have r1: "memory_run m1" using memory_run.connected
    by (rule goes_on) (rule session_opens [of False _ "Inr 0"], simp add: defs)
  have r2: "memory_run m2" using r1 unfolding m2_def
    by (rule goes_on) (rule connection_close_begins, simp_all add: defs)
  have r3: "memory_run m3" using r2 unfolding m3_def
    by (rule goes_on) (rule loop_goes_on, simp add: defs)
  have r4: "memory_run m4" using r3
    by (rule goes_on) (rule stream_close_goes_on [of _ 5 Entering 0 "Some []"], simp_all add: defs)
  have r5: "memory_run m5" using r4
    by (rule goes_on) (rule stream_close_goes_on [of _ 5 Cancelling 0 "Some []"], simp_all add: defs)
  have r6: "memory_run m6" using r5
    by (rule goes_on) (rule stream_close_goes_on [of _ 5 ClosingPipe 0 "Some []"], simp_all add: defs)
  have r7: "memory_run m7" using r6
    by (rule goes_on) (rule stream_close_goes_on [of _ 5 Deregistering 0 "Some []"], simp_all add: defs)
  have r8: "memory_run m8" using r7
    by (rule goes_on) (rule stream_close_goes_on [of _ 5 Finishing 0 "Some []"], simp_all add: defs)
  have "memory_run (at_frame 5 Returned m8)" using r8
    by (rule goes_on) (rule loop_ends, simp add: defs)
  moreover have "close_returned (at_frame 5 Returned m8)" "mm_next (at_frame 5 Returned m8) = 1"
    by (simp_all add: close_returned_def defs)
  ultimately show ?thesis by blast
qed

theorem memory_close_complete_witness:
  "\<exists>m. memory_run m \<and> close_returned m \<and> mm_next m = 1 \<and> mm_streams m = {} \<and> mm_pipeCloses m 0 = 1"
proof -
  obtain m where m: "memory_run m" "close_returned m" "mm_next m = 1" using memory_run_close by blast
  then show ?thesis using memory_close_complete [OF m(1), THEN conjunct2, THEN conjunct1] by auto
qed

end
