(* ===== verification/Ref_Servers.thy ===== *)
theory Ref_Servers
  imports Prelude "HOL-Library.Sublist" Ref_App_Safe
begin

text \<open>
  The channel through which both reference servers hand window sizes to the application (\<open>applySubnegotiation\<close> in
  \<open>reference/telnet/server.go\<close>, the \<open>window-change\<close> branch in \<open>reference/ssh/server.go\<close>, and the goroutine of
  \<open>RunWithResizes\<close> in \<open>reference/application.go\<close>). It holds one size; a sender that finds it full takes the old size out and
  puts the new one in. These are two separate channel operations, with the receiver in between. A send on a closed
  channel panics, a receive from one returns at once.
\<close>

text \<open>Where the sending goroutine is: in no hand-over, before \<open><-resizes\<close>, before \<open>resizes <- size\<close>, or returned.\<close>

datatype 'a sending = Idle | Draining 'a | Refilling 'a | Gone

record 'a size_channel =
  sc_slot :: "'a option"
  sc_closed :: bool
  sc_sender :: "'a sending"
  sc_receiving :: bool
  sc_offered :: "'a list"
  sc_received :: "'a list"
  sc_panicked :: bool

definition new_channel :: "'a size_channel" where
  "new_channel = \<lparr>sc_slot = None, sc_closed = False, sc_sender = Idle, sc_receiving = True, sc_offered = [],
     sc_received = [], sc_panicked = False\<rparr>"

text \<open>The select of a hand-over.\<close>

definition offer :: "'a \<Rightarrow> 'a size_channel \<Rightarrow> 'a size_channel" where
  "offer v c =
     (let c1 = c\<lparr>sc_offered := sc_offered c @ [v]\<rparr>
      in if sc_closed c then c1\<lparr>sc_panicked := True, sc_sender := Gone\<rparr>
         else case sc_slot c of
             None \<Rightarrow> c1\<lparr>sc_slot := Some v\<rparr>
           | Some _ \<Rightarrow> c1\<lparr>sc_sender := Draining v\<rparr>)"

text \<open>\<open><-resizes\<close>; \<open>None\<close> while it blocks.\<close>

definition drain :: "'a \<Rightarrow> 'a size_channel \<Rightarrow> 'a size_channel option" where
  "drain v c =
     (if sc_slot c \<noteq> None \<or> sc_closed c then Some (c\<lparr>sc_slot := None, sc_sender := Refilling v\<rparr>) else None)"

text \<open>\<open>resizes <- size\<close>; \<open>None\<close> while it blocks.\<close>

definition refill :: "'a \<Rightarrow> 'a size_channel \<Rightarrow> 'a size_channel option" where
  "refill v c =
     (if sc_closed c then Some (c\<lparr>sc_panicked := True, sc_sender := Gone\<rparr>)
      else if sc_slot c = None then Some (c\<lparr>sc_slot := Some v, sc_sender := Idle\<rparr>) else None)"

text \<open>
  \<open>same\<close>: the goroutine that sends is the one that closes, after its loop, as in the SSH server. In the Telnet server the
  sizes are sent by the goroutine that reads the connection for the application, and the channel is closed by the one that ran the application,
  once it has ended.
\<close>

inductive channel_step :: "bool \<Rightarrow> 'a size_channel \<Rightarrow> 'a size_channel \<Rightarrow> bool" for same where
  offers: "sc_sender c = Idle \<Longrightarrow> channel_step same c (offer v c)"
| drains: "sc_sender c = Draining v \<Longrightarrow> drain v c = Some c' \<Longrightarrow> channel_step same c c'"
| refills: "sc_sender c = Refilling v \<Longrightarrow> refill v c = Some c' \<Longrightarrow> channel_step same c c'"
| receives: "sc_receiving c \<Longrightarrow> sc_slot c = Some x \<Longrightarrow>
    channel_step same c (c\<lparr>sc_slot := None, sc_received := sc_received c @ [x]\<rparr>)"
| receiver_stops: "channel_step same c (c\<lparr>sc_receiving := False\<rparr>)"
| sender_returns: "same \<Longrightarrow> sc_sender c = Idle \<Longrightarrow> channel_step same c (c\<lparr>sc_sender := Gone\<rparr>)"
| closes: "(if same then sc_sender c = Gone else \<not> sc_receiving c) \<Longrightarrow> channel_step same c (c\<lparr>sc_closed := True\<rparr>)"

text \<open>A panic ends the process and with it the run.\<close>

inductive channel_run :: "bool \<Rightarrow> 'a size_channel \<Rightarrow> bool" for same where
  made: "channel_run same new_channel"
| continues: "channel_run same c \<Longrightarrow> \<not> sc_panicked c \<Longrightarrow> channel_step same c c' \<Longrightarrow> channel_run same c'"

inductive_cases channel_stepE: "channel_step same c c'"

subsection \<open>The latest size\<close>

text \<open>The sizes that are received, waiting, or about to be put in, in order.\<close>

definition in_flight :: "'a size_channel \<Rightarrow> 'a list" where
  "in_flight c = sc_received c @ (case sc_slot c of None \<Rightarrow> [] | Some x \<Rightarrow> [x]) @
     (case sc_sender c of Draining v \<Rightarrow> [v] | Refilling v \<Rightarrow> [v] | _ \<Rightarrow> [])"

definition channel_ok :: "bool \<Rightarrow> 'a size_channel \<Rightarrow> bool" where
  "channel_ok same c \<longleftrightarrow>
     (if sc_panicked c then \<not> same \<and> subseq (sc_received c) (sc_offered c)
      else subseq (in_flight c) (sc_offered c) \<and>
        (sc_offered c \<noteq> [] \<longrightarrow> in_flight c \<noteq> [] \<and> last (in_flight c) = last (sc_offered c)) \<and>
        (same \<longrightarrow> sc_closed c \<longrightarrow> sc_sender c = Gone)) \<and>
     (\<forall>v. sc_sender c = Refilling v \<longrightarrow> sc_slot c = None)"

lemma subseq_appendD: "subseq (xs @ ys) zs \<Longrightarrow> subseq xs zs"
  by (metis prefixI prefix_imp_subseq subseq_order.order_trans)

lemma subseq_dropping: "subseq (xs @ ys @ zs) ws \<Longrightarrow> subseq (xs @ zs) ws"
  by (meson list_emb_append2 list_emb_append_mono subseq_order.order_refl subseq_order.order_trans)

lemma subseq_snoc: "subseq xs ys \<Longrightarrow> subseq (xs @ [v]) (ys @ [v])"
  by (simp add: list_emb_append_mono)

lemma channel_step_ok:
  assumes "channel_step same c c'" "channel_ok same c" "\<not> sc_panicked c"
  shows "channel_ok same c'"
proof -
  have ok: "subseq (in_flight c) (sc_offered c)" "sc_offered c \<noteq> [] \<longrightarrow> in_flight c \<noteq> [] \<and> last (in_flight c) = last (sc_offered c)"
      "same \<longrightarrow> sc_closed c \<longrightarrow> sc_sender c = Gone" "\<forall>v. sc_sender c = Refilling v \<longrightarrow> sc_slot c = None"
    using assms(2,3) by (simp_all add: channel_ok_def)
  have received: "subseq (sc_received c) (sc_offered c)" using ok(1) subseq_appendD by (auto simp: in_flight_def)
  from assms(1) show ?thesis
  proof cases
    case (offers v)
    have sent: "subseq (in_flight c @ [v]) (sc_offered c @ [v])" using ok(1) by (rule subseq_snoc)
    have "subseq (sc_received c) (sc_offered c @ [v])" using received by (rule subseq_rev_drop_many)
    then show ?thesis
      using offers sent ok assms(3)
      by (auto simp: channel_ok_def in_flight_def offer_def Let_def split: option.splits)
  next
    case (drains v)
    then show ?thesis
      using ok assms(3) subseq_dropping [of "sc_received c" "[the (sc_slot c)]" "[v]" "sc_offered c"]
      by (auto simp: channel_ok_def in_flight_def drain_def split: option.splits if_split_asm)
  next
    case (refills v)
    then show ?thesis
      using ok assms(3) received by (auto simp: channel_ok_def in_flight_def refill_def split: if_split_asm)
  qed (use ok assms(3) received in \<open>auto simp: channel_ok_def in_flight_def split: option.splits\<close>)
qed

lemma channel_run_ok: "channel_run same c \<Longrightarrow> channel_ok same c"
proof (induction rule: channel_run.induct)
  case made
  show ?case by (simp add: channel_ok_def new_channel_def in_flight_def)
next
  case (continues c c')
  then show ?case by (blast intro: channel_step_ok)
qed

text \<open>
  The application receives sizes in the order in which they came and none twice, and outside a hand-over the newest size is
  waiting for it or was the last it received.
\<close>

lemma latest_size_kept:
  assumes "channel_run same c" "\<not> sc_panicked c"
  shows "subseq (sc_received c) (sc_offered c) \<and>
     (sc_sender c \<in> {Idle, Gone} \<and> sc_offered c \<noteq> [] \<longrightarrow>
        (case sc_slot c of
           Some x \<Rightarrow> x = last (sc_offered c)
         | None \<Rightarrow> sc_received c \<noteq> [] \<and> last (sc_received c) = last (sc_offered c)))"
proof -
  have ok: "subseq (in_flight c) (sc_offered c)" "sc_offered c \<noteq> [] \<longrightarrow> in_flight c \<noteq> [] \<and> last (in_flight c) = last (sc_offered c)"
    using channel_run_ok [OF assms(1)] assms(2) by (simp_all add: channel_ok_def)
  then show ?thesis
    using subseq_appendD [of "sc_received c"] by (auto simp: in_flight_def split: option.splits)
qed

text \<open>During a hand-over the newest size is the one it carries, and it can go on unless the application was faster.\<close>

lemma hand_over_size:
  assumes "channel_run True c"
  shows "(case sc_sender c of
       Draining v \<Rightarrow> sc_offered c \<noteq> [] \<and> v = last (sc_offered c) \<and> \<not> sc_closed c \<and> (sc_slot c \<noteq> None \<longrightarrow> drain v c \<noteq> None)
     | Refilling v \<Rightarrow> sc_offered c \<noteq> [] \<and> v = last (sc_offered c) \<and> refill v c \<noteq> None
     | _ \<Rightarrow> True)"
proof -
  have ok: "channel_ok True c" by (rule channel_run_ok [OF assms])
  then have "\<not> sc_panicked c" by (auto simp: channel_ok_def)
  then have sub: "subseq (in_flight c) (sc_offered c)"
      and last: "sc_offered c \<noteq> [] \<longrightarrow> last (in_flight c) = last (sc_offered c)"
      and closed: "sc_closed c \<longrightarrow> sc_sender c = Gone" and slot: "\<forall>v. sc_sender c = Refilling v \<longrightarrow> sc_slot c = None"
    using ok by (simp_all add: channel_ok_def)
  have "sc_offered c \<noteq> [] \<and> v = last (sc_offered c)" if "sc_sender c = Draining v \<or> sc_sender c = Refilling v" for v
  proof -
    have "in_flight c \<noteq> []" "last (in_flight c) = v" using that by (auto simp: in_flight_def)
    moreover have "sc_offered c \<noteq> []" using sub calculation(1) by auto
    ultimately show ?thesis using last by simp
  qed
  then show ?thesis using closed slot by (auto simp: drain_def refill_def split: sending.splits)
qed

lemma same_never_panics: "channel_run True c \<Longrightarrow> \<not> sc_panicked c"
  using channel_run_ok [of True c] by (auto simp: channel_ok_def)

subsection \<open>The hand-over against the receiver\<close>

text \<open>
  Between the select that finds the channel full and \<open><-resizes\<close> the application may take the size itself. Then nothing is left to
  take out, and the sender waits for a size that only it would put in.
\<close>

definition stuck :: "'a size_channel \<Rightarrow> bool" where
  "stuck c \<longleftrightarrow> (\<exists>v. sc_sender c = Draining v) \<and> sc_slot c = None \<and> \<not> sc_closed c"

lemma stuck_reachable:
  "\<exists>c :: 'a size_channel. channel_run same c \<and> stuck c \<and> sc_receiving c \<and> sc_offered c = [x, y] \<and> sc_received c = [x]"
proof -
  define c1 where "c1 = offer x new_channel"
  define c2 where "c2 = offer y c1"
  define c3 where "c3 = c2\<lparr>sc_slot := None, sc_received := sc_received c2 @ [x]\<rparr>"
  note defs = c1_def c2_def c3_def offer_def new_channel_def Let_def
  have s1: "channel_step same new_channel c1" unfolding c1_def by (rule offers) (simp add: new_channel_def)
  have s2: "channel_step same c1 c2" unfolding c2_def by (rule offers) (simp add: defs)
  have s3: "channel_step same c2 c3" unfolding c3_def by (rule receives) (simp_all add: defs)
  have n: "\<not> sc_panicked (new_channel :: 'a size_channel)" "\<not> sc_panicked c1" "\<not> sc_panicked c2"
    by (simp_all add: defs)
  have "channel_run same c3"
    by (rule continues [OF continues [OF continues [OF made n(1) s1] n(2) s2] n(3) s3])
  then show ?thesis by (intro exI [of _ c3]) (simp add: stuck_def defs)
qed

text \<open>In the SSH server nothing ends that wait: its goroutine handles no further request and is never released.\<close>

lemma stuck_forever: "stuck c \<Longrightarrow> channel_step True c c' \<Longrightarrow> stuck c' \<and> sc_sender c' = sc_sender c \<and> sc_received c' = sc_received c"
  by (erule channel_step.cases) (auto simp: stuck_def offer_def drain_def refill_def)

text \<open>
  In the Telnet server the end of the application closes the channel, and a hand-over that was in progress, or comes after it, sends on
  the closed channel: the panic ends the whole server.
\<close>

lemma telnet_panics: "\<exists>c :: 'a size_channel. channel_run False c \<and> sc_panicked c"
proof -
  define c1 :: "'a size_channel" where "c1 = new_channel\<lparr>sc_receiving := False\<rparr>"
  define c2 where "c2 = c1\<lparr>sc_closed := True\<rparr>"
  define c3 where "c3 = offer undefined c2"
  note defs = c1_def c2_def c3_def offer_def new_channel_def Let_def
  have s1: "channel_step False new_channel c1" unfolding c1_def by (rule receiver_stops)
  have s2: "channel_step False c1 c2" unfolding c2_def by (rule closes) (simp add: defs)
  have s3: "channel_step False c2 c3" unfolding c3_def by (rule offers) (simp add: defs)
  have n: "\<not> sc_panicked (new_channel :: 'a size_channel)" "\<not> sc_panicked c1" "\<not> sc_panicked c2"
    by (simp_all add: defs)
  have "channel_run False c3"
    by (rule continues [OF continues [OF continues [OF made n(1) s1] n(2) s2] n(3) s3])
  then show ?thesis by (intro exI [of _ c3]) (simp add: defs)
qed

section \<open>The servers\<close>

text \<open>
  The servers of the reference application (\<open>reference/ssh/server.go\<close>, and \<open>Serve\<close> and \<open>serveConnection\<close> of
  \<open>reference/telnet/server.go\<close>): their configuration, the accept loop, SSH authentication and channels, and an SSH session,
  whose requests, application and window sizes interleave. The listener, the handshake and the channels are
  calls into the library; what they return is given.
\<close>

subsection \<open>Configuration\<close>

datatype serve_error =
    ServeContextRequired
  | ServeListenerRequired
  | ServeUserRequired
  | ServeEmptyCredential
  | ServeLogin app_error
  | ServeSignerRequired
  | AcceptingFailed string

text \<open>The users with their passwords; a key occurs once in a Go map.\<close>

type_synonym users = "(string \<times> string) list"

definition ssh_config_error :: "bool \<Rightarrow> bool \<Rightarrow> users \<Rightarrow> credentials \<Rightarrow> bool \<Rightarrow> serve_error option" where
  "ssh_config_error has_context has_listener users login has_signer =
     (if \<not> has_context then Some ServeContextRequired
      else if \<not> has_listener then Some ServeListenerRequired
      else if users = [] then Some ServeUserRequired
      else if list_ex (\<lambda>(username, password). username = [] \<or> password = []) users then Some ServeEmptyCredential
      else case Credentials_Validate login of
          Some e \<Rightarrow> Some (ServeLogin e)
        | None \<Rightarrow> if \<not> has_signer then Some ServeSignerRequired else None)"

definition telnet_config_error :: "bool \<Rightarrow> bool \<Rightarrow> credentials \<Rightarrow> serve_error option" where
  "telnet_config_error has_context has_listener login =
     (if \<not> has_context then Some ServeContextRequired
      else if \<not> has_listener then Some ServeListenerRequired
      else map_option ServeLogin (Credentials_Validate login))"

text \<open>\<open>PasswordCallback\<close>\<close>

definition password_accepted :: "users \<Rightarrow> string \<Rightarrow> string \<Rightarrow> bool" where
  "password_accepted users user password = (map_of users user = Some password)"

subsection \<open>Accepting\<close>

text \<open>
  What \<open>Accept\<close> returns: a connection, or an error, with whether the context has ended or the listener is closed. The result is the
  error of \<open>Serve\<close>, if any, with the connections served; a loop whose returns are used up still accepts.
\<close>

datatype 'c accepted = Accepted 'c | AcceptError string bool

primrec accept_loop :: "'c accepted list \<Rightarrow> 'c list \<Rightarrow> (serve_error option \<times> 'c list) option" where
  "accept_loop [] served = None"
| "accept_loop (a # as) served =
     (case a of
        Accepted c \<Rightarrow> accept_loop as (served @ [c])
      | AcceptError e over \<Rightarrow> Some (if over then None else Some (AcceptingFailed e), served))"

definition ssh_Serve ::
  "bool \<Rightarrow> bool \<Rightarrow> users \<Rightarrow> credentials \<Rightarrow> bool \<Rightarrow> 'c accepted list \<Rightarrow> (serve_error option \<times> 'c list) option" where
  "ssh_Serve has_context has_listener users login has_signer as =
     (case ssh_config_error has_context has_listener users login has_signer of
        Some e \<Rightarrow> Some (Some e, [])
      | None \<Rightarrow> accept_loop as [])"

definition telnet_Serve ::
  "bool \<Rightarrow> bool \<Rightarrow> credentials \<Rightarrow> 'c accepted list \<Rightarrow> (serve_error option \<times> 'c list) option" where
  "telnet_Serve has_context has_listener login as =
     (case telnet_config_error has_context has_listener login of
        Some e \<Rightarrow> Some (Some e, [])
      | None \<Rightarrow> accept_loop as [])"

text \<open>The channels a client requests on an SSH connection: its type and whether accepting it succeeds.\<close>

datatype channel_answer = Rejected | AcceptFailed | SessionStarted

definition serve_channel :: "string \<times> bool \<Rightarrow> channel_answer" where
  "serve_channel requested =
     (if fst requested \<noteq> ''session'' then Rejected else if \<not> snd requested then AcceptFailed else SessionStarted)"

text \<open>A connection whose handshake failed serves no channel; \<open>None\<close> is that failure.\<close>

definition serve_ssh_connection :: "(string \<times> bool) list option \<Rightarrow> channel_answer list" where
  "serve_ssh_connection channels = (case channels of None \<Rightarrow> [] | Some requested \<Rightarrow> map serve_channel requested)"

subsection \<open>A session\<close>

type_synonym dimensions = "int \<times> int"

text \<open>A request; the payload of the first and third is \<open>None\<close> when it does not decode.\<close>

datatype ssh_request =
    PtyRequest "dimensions option"
  | ShellRequest
  | WindowChange "dimensions option"
  | OtherRequest

text \<open>
  \<open>rs_started\<close> are the sizes of the applications started, \<open>rs_done\<close> is the channel \<open>applicationDone\<close>, \<open>rs_replies\<close> and
  \<open>rs_handled\<close> the history.
\<close>

record ssh_session =
  rs_size :: dimensions
  rs_channel :: "dimensions size_channel"
  rs_started :: "dimensions list"
  rs_done :: bool
  rs_ended :: bool
  rs_replies :: "bool list"
  rs_handled :: "ssh_request list"

definition new_ssh_session :: ssh_session where
  "new_ssh_session = \<lparr>rs_size = (80, 24), rs_channel = new_channel, rs_started = [], rs_done = False, rs_ended = False,
     rs_replies = [], rs_handled = []\<rparr>"

definition valid_size :: "dimensions option \<Rightarrow> bool" where
  "valid_size d \<longleftrightarrow> (case d of None \<Rightarrow> False | Some (width, height) \<Rightarrow> width \<noteq> 0 \<and> height \<noteq> 0)"

definition send_reply :: "bool \<Rightarrow> ssh_session \<Rightarrow> ssh_session" where
  "send_reply ok s = s\<lparr>rs_replies := rs_replies s @ [ok]\<rparr>"

definition ssh_handle :: "ssh_request \<Rightarrow> ssh_session \<Rightarrow> ssh_session" where
  "ssh_handle q s =
     (let s1 = s\<lparr>rs_handled := rs_handled s @ [q]\<rparr>
      in case q of
           PtyRequest d \<Rightarrow>
             if \<not> valid_size d then send_reply False s1 else send_reply True (s1\<lparr>rs_size := the d\<rparr>)
         | ShellRequest \<Rightarrow>
             if rs_started s \<noteq> [] then send_reply False s1
             else send_reply True (s1\<lparr>rs_started := [rs_size s]\<rparr>)
         | WindowChange d \<Rightarrow>
             if valid_size d then s1\<lparr>rs_channel := offer (the d) (rs_channel s)\<rparr> else s1
         | OtherRequest \<Rightarrow> send_reply False s1)"

text \<open>
  The session's goroutine handles a request when it is in no hand-over; the application's goroutine takes sizes and ends. The sizes on the
  wire are unsigned.
\<close>

definition unsigned_size :: "ssh_request \<Rightarrow> bool" where
  "unsigned_size q \<longleftrightarrow>
     (case q of
        PtyRequest (Some (width, height)) \<Rightarrow> 0 \<le> width \<and> 0 \<le> height
      | WindowChange (Some (width, height)) \<Rightarrow> 0 \<le> width \<and> 0 \<le> height
      | _ \<Rightarrow> True)"

inductive ssh_session_step :: "ssh_session \<Rightarrow> ssh_session \<Rightarrow> bool" where
  request_handled: "\<not> rs_ended s \<Longrightarrow> sc_sender (rs_channel s) = Idle \<Longrightarrow> unsigned_size q \<Longrightarrow>
    ssh_session_step s (ssh_handle q s)"
| hand_over_drains: "sc_sender (rs_channel s) = Draining v \<Longrightarrow> drain v (rs_channel s) = Some c \<Longrightarrow>
    ssh_session_step s (s\<lparr>rs_channel := c\<rparr>)"
| hand_over_refills: "sc_sender (rs_channel s) = Refilling v \<Longrightarrow> refill v (rs_channel s) = Some c \<Longrightarrow>
    ssh_session_step s (s\<lparr>rs_channel := c\<rparr>)"
| application_takes: "rs_started s \<noteq> [] \<Longrightarrow> sc_receiving (rs_channel s) \<Longrightarrow> sc_slot (rs_channel s) = Some x \<Longrightarrow>
    ssh_session_step s
      (s\<lparr>rs_channel := (rs_channel s)\<lparr>sc_slot := None, sc_received := sc_received (rs_channel s) @ [x]\<rparr>\<rparr>)"
| application_ends: "rs_started s \<noteq> [] \<Longrightarrow>
    ssh_session_step s (s\<lparr>rs_done := True, rs_channel := (rs_channel s)\<lparr>sc_receiving := False\<rparr>\<rparr>)"
| session_returns: "\<not> rs_ended s \<Longrightarrow> sc_sender (rs_channel s) = Idle \<Longrightarrow> rs_done s \<or> requests_closed \<Longrightarrow>
    ssh_session_step s
      (s\<lparr>rs_ended := True, rs_channel := (rs_channel s)\<lparr>sc_sender := Gone, sc_closed := True\<rparr>\<rparr>)"

inductive ssh_session_run :: "ssh_session \<Rightarrow> bool" where
  session_accepted: "ssh_session_run new_ssh_session"
| session_continues: "ssh_session_run s \<Longrightarrow> ssh_session_step s s' \<Longrightarrow> ssh_session_run s'"

subsection \<open>Sessions and their sizes\<close>

lemma ssh_channel_run: "ssh_session_run s \<Longrightarrow> channel_run True (rs_channel s)"
proof (induction rule: ssh_session_run.induct)
  case session_accepted
  show ?case by (simp add: new_ssh_session_def made)
next
  case (session_continues s s')
  note run = continues [OF session_continues.IH same_never_panics [OF session_continues.IH]]
  from session_continues(2) show ?case
  proof cases
    case (request_handled q)
    then have "rs_channel s' = rs_channel s \<or> (\<exists>v. rs_channel s' = offer v (rs_channel s))"
      by (cases q) (auto simp: ssh_handle_def send_reply_def Let_def simp del: split_paired_Ex)
    then show ?thesis using run session_continues.IH request_handled(3) offers by metis
  next
    case (hand_over_drains v c)
    then show ?thesis using run [OF drains [OF hand_over_drains(2,3)]] by simp
  next
    case (hand_over_refills v c)
    then show ?thesis using run [OF refills [OF hand_over_refills(2,3)]] by simp
  next
    case (application_takes x)
    then show ?thesis using run [OF receives [OF application_takes(3,4)]] by simp
  next
    case application_ends
    then show ?thesis using run [OF receiver_stops] by simp
  next
    case (session_returns closed)
    have gone: "channel_run True ((rs_channel s)\<lparr>sc_sender := Gone\<rparr>)"
      using run [OF sender_returns] session_returns(3) by simp
    then have "channel_run True ((rs_channel s)\<lparr>sc_sender := Gone, sc_closed := True\<rparr>)"
      using continues [OF gone same_never_panics [OF gone] closes] by simp
    then show ?thesis using session_returns by simp
  qed
qed

text \<open>The sizes a session was asked for, the replies it owes, and the size of the terminal before the shell.\<close>

definition window_changes :: "ssh_request list \<Rightarrow> dimensions list" where
  "window_changes qs = List.map_filter (\<lambda>q. case q of WindowChange d \<Rightarrow> if valid_size d then d else None | _ \<Rightarrow> None) qs"

definition owes_reply :: "ssh_request \<Rightarrow> bool" where
  "owes_reply q \<longleftrightarrow> (case q of WindowChange _ \<Rightarrow> False | _ \<Rightarrow> True)"

text \<open>The replies: a terminal of a valid size, the first shell, and nothing else is accepted.\<close>

primrec answers :: "bool \<Rightarrow> ssh_request list \<Rightarrow> bool list" where
  "answers running [] = []"
| "answers running (q # qs) =
     (case q of
        PtyRequest d \<Rightarrow> valid_size d # answers running qs
      | ShellRequest \<Rightarrow> (\<not> running) # answers True qs
      | WindowChange d \<Rightarrow> answers running qs
      | OtherRequest \<Rightarrow> False # answers running qs)"

lemma answers_snoc:
  "answers running (qs @ [q]) = answers running qs @
     (case q of PtyRequest d \<Rightarrow> [valid_size d] | ShellRequest \<Rightarrow> [\<not> running \<and> ShellRequest \<notin> set qs]
      | WindowChange d \<Rightarrow> [] | OtherRequest \<Rightarrow> [False])"
proof (induction qs arbitrary: running)
  case (Cons a qs)
  then show ?case by (cases a; cases q) simp_all
qed (cases q; simp)

lemma length_answers: "length (answers running qs) = length (filter owes_reply qs)"
  by (induction qs arbitrary: running) (simp_all add: owes_reply_def split: ssh_request.split)

primrec size_at_shell :: "dimensions \<Rightarrow> ssh_request list \<Rightarrow> dimensions list" where
  "size_at_shell d [] = []"
| "size_at_shell d (q # qs) =
     (case q of
        ShellRequest \<Rightarrow> [d]
      | PtyRequest p \<Rightarrow> size_at_shell (if valid_size p then the p else d) qs
      | _ \<Rightarrow> size_at_shell d qs)"

primrec last_pty :: "dimensions \<Rightarrow> ssh_request list \<Rightarrow> dimensions" where
  "last_pty d [] = d"
| "last_pty d (q # qs) =
     last_pty (case q of PtyRequest p \<Rightarrow> if valid_size p then the p else d | _ \<Rightarrow> d) qs"

lemma last_pty_snoc:
  "last_pty d (qs @ [q]) = (case q of PtyRequest p \<Rightarrow> if valid_size p then the p else last_pty d qs | _ \<Rightarrow> last_pty d qs)"
  by (induction qs arbitrary: d) (auto split: ssh_request.split)

lemma size_at_shell_snoc:
  "size_at_shell d (qs @ [q]) =
     (if size_at_shell d qs \<noteq> [] then size_at_shell d qs else case q of ShellRequest \<Rightarrow> [last_pty d qs] | _ \<Rightarrow> [])"
proof (induction qs arbitrary: d)
  case (Cons a qs)
  then show ?case by (cases a; cases q) simp_all
qed (cases q; simp)

lemma size_at_shell_some: "size_at_shell d qs = [] \<longleftrightarrow> ShellRequest \<notin> set qs"
  by (induction qs arbitrary: d) (auto split: ssh_request.split)

lemma window_changes_snoc:
  "window_changes (qs @ [q]) = window_changes qs @ (case q of WindowChange d \<Rightarrow> if valid_size d then [the d] else [] | _ \<Rightarrow> [])"
  by (auto simp: window_changes_def map_filter_def valid_size_def split: ssh_request.split option.split)

lemma last_pty_positive:
  "\<forall>q \<in> set qs. unsigned_size q \<Longrightarrow> 0 < fst d \<and> 0 < snd d \<Longrightarrow> 0 < fst (last_pty d qs) \<and> 0 < snd (last_pty d qs)"
  by (induction qs arbitrary: d)
    (auto simp: unsigned_size_def valid_size_def split: ssh_request.splits option.splits prod.splits)

definition ssh_session_ok :: "ssh_session \<Rightarrow> bool" where
  "ssh_session_ok s \<longleftrightarrow>
     rs_size s = last_pty (80, 24) (rs_handled s) \<and> rs_started s = size_at_shell (80, 24) (rs_handled s) \<and>
     rs_replies s = answers False (rs_handled s) \<and>
     sc_offered (rs_channel s) = window_changes (rs_handled s) \<and> (\<forall>q \<in> set (rs_handled s). unsigned_size q) \<and>
     (\<forall>d \<in> set (rs_started s). 0 < fst d \<and> 0 < snd d)"

lemma ssh_handle_ok:
  assumes "ssh_session_ok s" "unsigned_size q"
  shows "ssh_session_ok (ssh_handle q s)"
proof -
  have size: "0 < fst (rs_size s) \<and> 0 < snd (rs_size s)"
    using assms(1) last_pty_positive [of "rs_handled s" "(80, 24)"] by (simp add: ssh_session_ok_def)
  have offered: "sc_offered (offer v c) = sc_offered c @ [v]" for v and c :: "dimensions size_channel"
    by (simp add: offer_def Let_def split: option.split)
  show ?thesis
    using assms size
    by (cases q) (auto simp: ssh_session_ok_def ssh_handle_def send_reply_def last_pty_snoc size_at_shell_snoc
        window_changes_snoc answers_snoc size_at_shell_some offered Let_def)
qed

lemma ssh_session_run_ok: "ssh_session_run s \<Longrightarrow> ssh_session_ok s"
proof (induction rule: ssh_session_run.induct)
  case session_accepted
  show ?case by (simp add: ssh_session_ok_def new_ssh_session_def new_channel_def window_changes_def map_filter_def)
next
  case (session_continues s s')
  have same: "ssh_session_ok (s\<lparr>rs_channel := c\<rparr>)" if "sc_offered c = sc_offered (rs_channel s)" for c
    using session_continues.IH that by (simp add: ssh_session_ok_def)
  from session_continues(2) show ?case
  proof cases
    case (request_handled q)
    then show ?thesis using ssh_handle_ok session_continues.IH by simp
  next
    case (hand_over_drains v c)
    then show ?thesis using same by (auto simp: drain_def split: if_split_asm)
  next
    case (hand_over_refills v c)
    then show ?thesis using same by (auto simp: refill_def split: if_split_asm)
  next
    case (application_takes x)
    then show ?thesis using same by simp
  qed (use session_continues.IH in \<open>simp_all add: ssh_session_ok_def\<close>)
qed

text \<open>Where the newest size is in every state, and how a hand-over goes on.\<close>

lemma hand_over_progress:
  assumes "ssh_session_run s"
  shows "(case sc_sender (rs_channel s) of
        Draining v \<Rightarrow> v = last (sc_offered (rs_channel s)) \<and>
          (if sc_slot (rs_channel s) \<noteq> None then \<exists>s'. ssh_session_step s s' \<and> sc_sender (rs_channel s') = Refilling v
           else \<forall>s'. ssh_session_step s s' \<longrightarrow> rs_handled s' = rs_handled s \<and> rs_ended s' = rs_ended s \<and>
             sc_sender (rs_channel s') = Draining v \<and> sc_slot (rs_channel s') = None)
      | Refilling v \<Rightarrow> v = last (sc_offered (rs_channel s)) \<and>
          (\<exists>s'. ssh_session_step s s' \<and> sc_sender (rs_channel s') = Idle)
      | _ \<Rightarrow> sc_offered (rs_channel s) \<noteq> [] \<longrightarrow>
        (case sc_slot (rs_channel s) of
           Some x \<Rightarrow> x = last (sc_offered (rs_channel s))
         | None \<Rightarrow> sc_received (rs_channel s) \<noteq> [] \<and> last (sc_received (rs_channel s)) = last (sc_offered (rs_channel s))))"
proof -
  note run = ssh_channel_run [OF assms]
  note size = hand_over_size [OF run] and kept = latest_size_kept [OF run same_never_panics [OF run]]
  show ?thesis
  proof (cases "sc_sender (rs_channel s)")
    case (Draining v)
    have v: "v = last (sc_offered (rs_channel s))" "\<not> sc_closed (rs_channel s)" using size Draining by simp_all
    have "\<exists>s'. ssh_session_step s s' \<and> sc_sender (rs_channel s') = Refilling v" if "sc_slot (rs_channel s) \<noteq> None"
    proof -
      let ?c = "(rs_channel s)\<lparr>sc_slot := None, sc_sender := Refilling v\<rparr>"
      have "drain v (rs_channel s) = Some ?c" unfolding drain_def using that by (simp only: simp_thms if_True)
      then show ?thesis using hand_over_drains [OF Draining] by (intro exI [of _ "s\<lparr>rs_channel := ?c\<rparr>"]) simp
    qed
    moreover have "rs_handled s' = rs_handled s \<and> rs_ended s' = rs_ended s \<and>
        sc_sender (rs_channel s') = Draining v \<and> sc_slot (rs_channel s') = None"
      if "sc_slot (rs_channel s) = None" "ssh_session_step s s'" for s'
      using that(2) by cases (use that(1) v(2) Draining in \<open>auto simp: drain_def\<close>)
    ultimately show ?thesis using v(1) Draining by (cases "sc_slot (rs_channel s)") simp_all
  next
    case (Refilling v)
    then obtain c where c: "refill v (rs_channel s) = Some c" using size by auto
    have "sc_slot (rs_channel s) = None" "\<not> sc_closed (rs_channel s)"
      using channel_run_ok [OF run] same_never_panics [OF run] Refilling by (auto simp: channel_ok_def)
    then have "sc_sender c = Idle" using c by (auto simp: refill_def)
    then show ?thesis using size Refilling hand_over_refills [OF Refilling c]
      by (auto intro!: exI [of _ "s\<lparr>rs_channel := c\<rparr>"])
  qed (use kept in simp_all)
qed

text \<open>
  C40: However the requests of an SSH client, the hand-over of window sizes and the application interleave, the reference
  server starts at most one application per session, with the size of the last accepted terminal request before the shell or
  80x24, a size and a login with which the application can be constructed. Every request it has handled got exactly one
  reply, except a window change, which gets none: a terminal request is accepted if its size is valid, the first shell is, and
  nothing else. The application receives window sizes in order and none twice; the newest valid one is waiting for it, was
  the last it received, or is in the hand-over, which can always go on unless the application has just taken the size to be
  replaced: in that state, and only there, the session is stuck and handles no later request. Nothing is ever sent on the closed
  channel. A server that has started lets nobody in without a user's own non-empty name and password.
\<close>

theorem ssh_sessions_served:
  assumes "ssh_session_run s" "ssh_config_error has_context has_listener users login has_signer = None" "lawful L"
  shows "rs_started s = size_at_shell (80, 24) (rs_handled s) \<and> length (rs_started s) \<le> 1 \<and>
     (\<forall>d \<in> set (rs_started s). \<exists>a. New_application L (fst d) (snd d) login = Some (Inr a) \<and> ap_page a = PageLogin) \<and>
     rs_replies s = answers False (rs_handled s) \<and>
     length (rs_replies s) = length (filter owes_reply (rs_handled s)) \<and>
     subseq (sc_received (rs_channel s)) (window_changes (rs_handled s)) \<and>
     (case sc_sender (rs_channel s) of
        Draining v \<Rightarrow> v = last (window_changes (rs_handled s)) \<and>
          (if sc_slot (rs_channel s) \<noteq> None then \<exists>s'. ssh_session_step s s' \<and> sc_sender (rs_channel s') = Refilling v
           else \<forall>s'. ssh_session_step s s' \<longrightarrow> rs_handled s' = rs_handled s \<and> rs_ended s' = rs_ended s \<and>
             sc_sender (rs_channel s') = Draining v \<and> sc_slot (rs_channel s') = None)
      | Refilling v \<Rightarrow> v = last (window_changes (rs_handled s)) \<and>
          (\<exists>s'. ssh_session_step s s' \<and> sc_sender (rs_channel s') = Idle)
      | _ \<Rightarrow> window_changes (rs_handled s) \<noteq> [] \<longrightarrow>
        (case sc_slot (rs_channel s) of
           Some x \<Rightarrow> x = last (window_changes (rs_handled s))
         | None \<Rightarrow> sc_received (rs_channel s) \<noteq> [] \<and>
             last (sc_received (rs_channel s)) = last (window_changes (rs_handled s)))) \<and>
     \<not> sc_panicked (rs_channel s) \<and>
     (password_accepted users user password \<longrightarrow> user \<noteq> [] \<and> password \<noteq> [] \<and> (user, password) \<in> set users)"
proof -
  note run = ssh_channel_run [OF assms(1)]
  note safe = same_never_panics [OF run]
  have ok: "ssh_session_ok s" by (rule ssh_session_run_ok [OF assms(1)])
  have login: "Credentials_Validate login = None"
      and users: "\<forall>(username, password) \<in> set users. username \<noteq> [] \<and> password \<noteq> []"
    using assms(2) by (auto simp: ssh_config_error_def list_ex_iff split: if_splits option.splits)
  have "length (size_at_shell d qs) \<le> 1" for d qs by (induction qs arbitrary: d) (auto split: ssh_request.split)
  moreover have "\<exists>a. New_application L (fst d) (snd d) login = Some (Inr a) \<and> ap_page a = PageLogin"
    if "d \<in> set (rs_started s)" for d
    using New_application_login [OF assms(3), of "fst d" "snd d" login] ok that login by (auto simp: ssh_session_ok_def)
  moreover have "user \<noteq> [] \<and> password \<noteq> [] \<and> (user, password) \<in> set users" if "password_accepted users user password"
    using that users map_of_SomeD [of users user password] by (auto simp: password_accepted_def)
  moreover have offered: "sc_offered (rs_channel s) = window_changes (rs_handled s)"
    using ok by (simp add: ssh_session_ok_def)
  moreover note hand_over_progress [OF assms(1), unfolded offered]
  moreover have "rs_replies s = answers False (rs_handled s)" "rs_started s = size_at_shell (80, 24) (rs_handled s)"
    using ok by (simp_all add: ssh_session_ok_def)
  moreover have "subseq (sc_received (rs_channel s)) (window_changes (rs_handled s))"
    using latest_size_kept [OF run safe] offered by simp
  ultimately show ?thesis using safe length_answers [of False "rs_handled s"] by simp
qed

theorem ssh_sessions_served_witness:
  "\<exists>s a. ssh_session_run s \<and> rs_started s = [(100, 30)] \<and>
     New_application plain_lib 100 30 \<lparr>cr_Username = ''wms'', cr_Password = ''secret''\<rparr> = Some (Inr a) \<and> ap_page a = PageLogin"
proof -
  let ?login = "\<lparr>cr_Username = ''wms'', cr_Password = ''secret''\<rparr>"
  define s1 where "s1 = ssh_handle (PtyRequest (Some (100, 30))) new_ssh_session"
  define s2 where "s2 = ssh_handle ShellRequest s1"
  note defs = s1_def s2_def ssh_handle_def new_ssh_session_def send_reply_def valid_size_def new_channel_def Let_def
  have "ssh_session_step new_ssh_session s1" unfolding s1_def
    by (rule request_handled) (simp_all add: new_ssh_session_def new_channel_def unsigned_size_def)
  moreover have "ssh_session_step s1 s2" unfolding s2_def
    by (rule request_handled) (simp_all add: defs unsigned_size_def)
  ultimately have run: "ssh_session_run s2" using session_accepted session_continues by blast
  have config: "ssh_config_error True True [(''demo'', ''pw'')] ?login True = None"
  proof -
    have "Credentials_Validate ?login = None" by code_simp
    then show ?thesis by (simp add: ssh_config_error_def)
  qed
  have started: "rs_started s2 = [(100, 30)]" by (simp add: defs)
  moreover obtain a where "New_application plain_lib 100 30 ?login = Some (Inr a)" "ap_page a = PageLogin"
    using ssh_sessions_served [OF run config lawful_plain_lib, THEN conjunct2, THEN conjunct2, THEN conjunct1] started by auto
  ultimately show ?thesis using run by blast
qed

end
