(* ===== verification/Go_Flags.thy ===== *)
theory Go_Flags
  imports Go_Strings Terminal_Control
begin

text \<open>
  What the commands use of Go's packages \<open>flag\<close> (parsing a command line) and \<open>net\<close> (host and port, IP
  addresses), on strings of bytes, and the driver command's test for a loopback address.
\<close>

section \<open>Flags\<close>

text \<open>
  \<open>flag.FlagSet.Parse\<close> for string and boolean flags. A flag names the variable it sets, so two flags
  may share one; a value is the rest after \<open>=\<close> or, for strings, the next argument.
\<close>

datatype flag_variable = StringFlag string | BoolFlag string

datatype flag_error =
    BadSyntax string
  | NotDefined string
  | HelpRequested
  | InvalidBool string string
  | NeedsArgument string

record flag_values =
  fv_strings :: "string \<Rightarrow> string"
  fv_bools :: "string \<Rightarrow> bool"

definition ParseBool :: "string \<Rightarrow> bool option" where
  "ParseBool s =
     (if s \<in> {''1'', ''t'', ''T'', ''TRUE'', ''true'', ''True''} then Some True
      else if s \<in> {''0'', ''f'', ''F'', ''FALSE'', ''false'', ''False''} then Some False else None)"

text \<open>The name of a flag and its value: the first \<open>=\<close> after the first byte separates them.\<close>

definition flag_name :: "string \<Rightarrow> string \<times> string option" where
  "flag_name s =
     (let n = 1 + length (takeWhile (\<lambda>c. c \<noteq> CHR ''='') (tl s))
      in if n < length s then (take n s, Some (drop (n + 1) s)) else (s, None))"

datatype argument = NoFlag | EndOfFlags | BadFlag | Flag string "string option"

definition read_argument :: "string \<Rightarrow> argument" where
  "read_argument s =
     (if length s < 2 \<or> hd s \<noteq> CHR ''-'' then NoFlag
      else if s = ''--'' then EndOfFlags
      else (let rest = (if s ! 1 = CHR ''-'' then drop 2 s else drop 1 s)
            in if rest = [] \<or> hd rest = CHR ''-'' \<or> hd rest = CHR ''='' then BadFlag
               else case flag_name rest of (name, value) \<Rightarrow> Flag name value))"

definition set_string :: "string \<Rightarrow> string \<Rightarrow> flag_values \<Rightarrow> flag_values" where
  "set_string x value v = v\<lparr>fv_strings := (fv_strings v)(x := value)\<rparr>"

definition set_bool :: "string \<Rightarrow> bool \<Rightarrow> flag_values \<Rightarrow> flag_values" where
  "set_bool x value v = v\<lparr>fv_bools := (fv_bools v)(x := value)\<rparr>"

fun parse_flags :: "(string \<rightharpoonup> flag_variable) \<Rightarrow> string list \<Rightarrow> flag_values \<Rightarrow> flag_error + flag_values \<times> string list" where
  "parse_flags formal [] v = Inr (v, [])"
| "parse_flags formal (s # args) v =
     (case read_argument s of
        NoFlag \<Rightarrow> Inr (v, s # args)
      | EndOfFlags \<Rightarrow> Inr (v, args)
      | BadFlag \<Rightarrow> Inl (BadSyntax s)
      | Flag name given \<Rightarrow>
          (case formal name of
             None \<Rightarrow> Inl (if name = ''help'' \<or> name = ''h'' then HelpRequested else NotDefined name)
           | Some (BoolFlag x) \<Rightarrow>
               (case ParseBool (case given of None \<Rightarrow> ''true'' | Some value \<Rightarrow> value) of
                  None \<Rightarrow> Inl (InvalidBool name (the given))
                | Some b \<Rightarrow> parse_flags formal args (set_bool x b v))
           | Some (StringFlag x) \<Rightarrow>
               (case given of
                  Some value \<Rightarrow> parse_flags formal args (set_string x value v)
                | None \<Rightarrow>
                    (case args of
                       [] \<Rightarrow> Inl (NeedsArgument name)
                     | value # rest \<Rightarrow> parse_flags formal rest (set_string x value v)))))"

text \<open>How a command line gives its flags: \<open>-name=value\<close> for strings, \<open>-name=true\<close> for booleans.\<close>

definition string_argument :: "string \<Rightarrow> string \<Rightarrow> string" where
  "string_argument name value = CHR ''-'' # name @ ''='' @ value"

lemma flag_name_value:
  assumes "name \<noteq> []" "CHR ''='' \<notin> set name"
  shows "flag_name (name @ CHR ''='' # value) = (name, Some value)"
proof -
  obtain c cs where n: "name = c # cs" using assms(1) by (cases name) auto
  have "takeWhile (\<lambda>c. c \<noteq> CHR ''='') (cs @ CHR ''='' # value) = cs"
    using assms(2) n by (subst takeWhile_append2) auto
  then show ?thesis by (simp add: flag_name_def n)
qed

lemma read_string_argument:
  assumes "name \<noteq> []" "hd name \<noteq> CHR ''-''" "CHR ''='' \<notin> set name"
  shows "read_argument (string_argument name value) = Flag name (Some value)"
proof -
  obtain c cs where n: "name = c # cs" using assms(1) by (cases name) auto
  have "flag_name (name @ CHR ''='' # value) = (name, Some value)" using flag_name_value assms(1,3) by blast
  then show ?thesis using assms(2,3) n by (auto simp: read_argument_def string_argument_def)
qed

definition apply_settings :: "(string \<rightharpoonup> flag_variable) \<Rightarrow> (string \<times> string) list \<Rightarrow> flag_values \<Rightarrow> flag_values" where
  "apply_settings formal =
     fold (\<lambda>(name, value) v. case formal name of Some (StringFlag x) \<Rightarrow> set_string x value v | _ \<Rightarrow> v)"

text \<open>Every value of a string flag, whatever its bytes, arrives as it was given.\<close>

lemma flags_roundtrip:
  assumes "\<forall>(name, value) \<in> set settings. \<exists>x. formal name = Some (StringFlag x) \<and> name \<noteq> [] \<and>
      hd name \<noteq> CHR ''-'' \<and> CHR ''='' \<notin> set name"
    and "rest = [] \<or> read_argument (hd rest) = NoFlag"
  shows "parse_flags formal (map (\<lambda>(name, value). string_argument name value) settings @ rest) v =
     Inr (apply_settings formal settings v, rest)"
  using assms(1)
proof (induction settings arbitrary: v)
  case Nil
  then show ?case using assms(2) by (cases rest) (simp_all add: apply_settings_def)
next
  case (Cons s settings)
  obtain name val where s: "s = (name, val)" by force
  then obtain x where x: "formal name = Some (StringFlag x)" "name \<noteq> []" "hd name \<noteq> CHR ''-''" "CHR ''='' \<notin> set name"
    using Cons.prems by auto
  then show ?case using Cons by (simp add: s read_string_argument apply_settings_def)
qed

section \<open>Loopback addresses\<close>

text \<open>\<open>net.SplitHostPort\<close>; \<open>None\<close> is an error.\<close>

definition SplitHostPort :: "string \<Rightarrow> (string \<times> string) option" where
  "SplitHostPort s =
     (if CHR '':'' \<notin> set s then None
      else (let i = length s - 1 - length (takeWhile (\<lambda>c. c \<noteq> CHR '':'') (rev s)); port = drop (i + 1) s
            in if hd s = CHR ''['' then
                 (let end = length (takeWhile (\<lambda>c. c \<noteq> CHR '']'') s)
                  in if end = length s \<or> end + 1 \<noteq> i \<or> CHR ''['' \<in> set (drop 1 s) \<or> CHR '']'' \<in> set (drop (end + 1) s)
                     then None else Some (drop 1 (take end s), port))
               else if CHR '':'' \<in> set (take i s) \<or> CHR ''['' \<in> set s \<or> CHR '']'' \<in> set s then None
               else Some (take i s, port)))"

text \<open>
  \<open>net.ParseIP\<close>, with the 16 bytes of the address. An IPv4 address has four decimal fields without
  leading zeros; in an IPv6 address it may stand for the last two fields, and \<open>::\<close> for fields of zeros.
\<close>

definition octet :: "string \<Rightarrow> int option" where
  "octet f =
     (if f = [] \<or> 1 < length f \<and> hd f = CHR ''0'' then None
      else case digits_value 0 f of None \<Rightarrow> None | Some n \<Rightarrow> if n > 255 then None else Some n)"

definition parseIPv4 :: "string \<Rightarrow> int list option" where
  "parseIPv4 s =
     (let fields = map octet (split_on (CHR ''.'') s)
      in if length fields = 4 \<and> None \<notin> set fields then Some (map the fields) else None)"

definition hex_value :: "char \<Rightarrow> int option" where
  "hex_value c =
     (let n = of_char c
      in if 48 \<le> n \<and> n \<le> 57 then Some (n - 48) else if 97 \<le> n \<and> n \<le> 102 then Some (n - 87)
         else if 65 \<le> n \<and> n \<le> 70 then Some (n - 55) else None)"

definition hex_group :: "string \<Rightarrow> int" where
  "hex_group = foldl (\<lambda>acc c. acc * 16 + the (hex_value c)) 0"

text \<open>The loop of \<open>netip.parseIPv6\<close>: \<open>n\<close> fields may follow, \<open>ip\<close> are the bytes so far, \<open>e\<close> the place of \<open>::\<close>.\<close>

fun ipv6_fields :: "nat \<Rightarrow> string \<Rightarrow> int list \<Rightarrow> nat option \<Rightarrow> (int list \<times> nat option) option" where
  "ipv6_fields 0 s ip e = (if s = [] then Some (ip, e) else None)"
| "ipv6_fields (Suc n) s ip e =
     (let hex = takeWhile (\<lambda>c. hex_value c \<noteq> None) s; rest = drop (length hex) s
      in if hex = [] \<or> length hex > 4 then None
         else if take 1 rest = ''.'' then
           (if e = None \<and> length ip \<noteq> 12 \<or> length ip + 4 > 16 then None
            else map_option (\<lambda>fields. (ip @ fields, e)) (parseIPv4 s))
         else (let ip = ip @ [hex_group hex div 256, hex_group hex mod 256]
               in case rest of
                    [] \<Rightarrow> Some (ip, e)
                  | [c] \<Rightarrow> None
                  | c # d # after \<Rightarrow>
                      if c \<noteq> CHR '':'' then None
                      else if d \<noteq> CHR '':'' then ipv6_fields n (d # after) ip e
                      else if e \<noteq> None then None
                      else if after = [] then Some (ip, Some (length ip))
                      else ipv6_fields n after ip (Some (length ip))))"

definition parseIPv6 :: "string \<Rightarrow> int list option" where
  "parseIPv6 s =
     (if s = ''::'' then Some (replicate 16 0)
      else case (if take 2 s = ''::'' then ipv6_fields 8 (drop 2 s) [] (Some 0) else ipv6_fields 8 s [] None) of
             None \<Rightarrow> None
           | Some (ip, e) \<Rightarrow>
               (case e of
                  None \<Rightarrow> if length ip < 16 then None else Some ip
                | Some k \<Rightarrow>
                    if length ip < 16 then Some (take k ip @ replicate (16 - length ip) 0 @ drop k ip) else None))"

definition ParseIP :: "string \<Rightarrow> int list option" where
  "ParseIP s =
     (if CHR ''%'' \<in> set s then None
      else case dropWhile (\<lambda>c. c \<noteq> CHR ''.'' \<and> c \<noteq> CHR '':'') s of
             [] \<Rightarrow> None
           | c # _ \<Rightarrow>
               if c = CHR ''.'' then map_option (\<lambda>fields. replicate 10 0 @ [255, 255] @ fields) (parseIPv4 s)
               else parseIPv6 s)"

definition IsLoopback :: "int list \<Rightarrow> bool" where
  "IsLoopback ip =
     (if take 12 ip = replicate 10 0 @ [255, 255] then ip ! 12 = 127 else ip = replicate 15 0 @ [1])"

definition isLoopbackAddress :: "string \<Rightarrow> bool" where
  "isLoopbackAddress address =
     (case SplitHostPort address of
        None \<Rightarrow> False
      | Some (host, _) \<Rightarrow>
          host = ''localhost'' \<or> (case ParseIP host of None \<Rightarrow> False | Some ip \<Rightarrow> IsLoopback ip))"

lemma loopback_examples:
  "isLoopbackAddress ''127.0.0.1:8080''" "isLoopbackAddress ''[::1]:0''" "isLoopbackAddress ''localhost:0''"
  "isLoopbackAddress ''[::ffff:127.1.2.3]:80''" "isLoopbackAddress ''[0:0:0:0:0:0:0:1]:80''"
  "\<not> isLoopbackAddress '':8080''" "\<not> isLoopbackAddress ''0.0.0.0:80''" "\<not> isLoopbackAddress ''[::]:80''"
  "\<not> isLoopbackAddress ''::1:80''" "\<not> isLoopbackAddress ''127.0.0.1''" "\<not> isLoopbackAddress ''127.0.0.01:80''"
  "\<not> isLoopbackAddress ''127.1:80''" "\<not> isLoopbackAddress ''[::1%lo0]:80''" "\<not> isLoopbackAddress ''[1::2:3:4:5:6:7:8]:1''"
  by code_simp+

text \<open>An IPv4 address and a port in the usual notation is a loopback address just when it begins with 127.\<close>

definition dotted :: "nat \<Rightarrow> nat \<Rightarrow> nat \<Rightarrow> nat \<Rightarrow> string" where
  "dotted a b c d = show_nat a @ ''.'' @ show_nat b @ ''.'' @ show_nat c @ ''.'' @ show_nat d"

lemma digit_value_digit: "n < 10 \<Longrightarrow> digit_value (digit n) = Some (int n)"
proof -
  assume "n < 10"
  then have "(of_char (digit n) :: nat) = 48 + n" by (simp add: digit_def)
  then have "(of_char (digit n) :: int) = 48 + int n" by (metis of_nat_add of_nat_numeral of_nat_of_char)
  then show ?thesis using \<open>n < 10\<close> by (simp add: digit_value_def)
qed

lemma show_nat_nonempty: "show_nat n \<noteq> []"
  by (subst show_nat.simps) simp

lemma digits_value_append:
  "digits_value acc (xs @ ys) = (case digits_value acc xs of None \<Rightarrow> None | Some v \<Rightarrow> digits_value v ys)"
  by (induction acc xs rule: digits_value.induct) (simp_all split: option.split)

lemma show_nat_value: "digits_value 0 (show_nat n) = Some (int n)"
proof (induction n rule: show_nat.induct)
  case (1 n)
  show ?case
  proof (cases "n < 10")
    case False
    then have "digits_value 0 (show_nat (n div 10)) = Some (int (n div 10))" using 1 by blast
    moreover have "int (n div 10) * 10 + int (n mod 10) = int n" by (simp add: zdiv_int zmod_int)
    ultimately show ?thesis using False
      by (simp add: show_nat.simps [of n] digits_value_append digit_value_digit)
  qed (simp add: show_nat.simps [of n] digit_value_digit)
qed

lemma show_nat_digits: "c \<in> set (show_nat n) \<Longrightarrow> \<exists>k < 10. c = digit k"
proof (induction n rule: show_nat.induct)
  case (1 n)
  show ?case
  proof (cases "n < 10")
    case False
    then consider "c \<in> set (show_nat (n div 10))" | "c = digit (n mod 10)"
      using 1(2) by (auto simp: show_nat.simps [of n])
    then show ?thesis
    proof cases
      case 2
      then show ?thesis by (intro exI [of _ "n mod 10"]) simp
    qed (use 1(1) False in blast)
  qed (use 1(2) in \<open>auto simp: show_nat.simps [of n]\<close>)
qed

lemma show_nat_plain: "CHR ''.'' \<notin> set (show_nat n)" "CHR '':'' \<notin> set (show_nat n)" "CHR ''['' \<notin> set (show_nat n)"
    "CHR '']'' \<notin> set (show_nat n)" "CHR ''%'' \<notin> set (show_nat n)"
proof -
  have "digit k \<notin> {CHR ''.'', CHR '':'', CHR ''['', CHR '']'', CHR ''%''}" if "k < 10" for k
  proof -
    have "of_char (digit k) = (48 + k)" using that by (simp add: digit_def)
    then show ?thesis using that by auto
  qed
  then show "CHR ''.'' \<notin> set (show_nat n)" "CHR '':'' \<notin> set (show_nat n)" "CHR ''['' \<notin> set (show_nat n)"
    "CHR '']'' \<notin> set (show_nat n)" "CHR ''%'' \<notin> set (show_nat n)"
    using show_nat_digits by (metis insertI1 insertI2)+
qed

lemma show_nat_start: "show_nat n \<noteq> [] \<and> (hd (show_nat n) = CHR ''0'' \<longrightarrow> length (show_nat n) = 1)"
proof (induction n rule: show_nat.induct)
  case (1 n)
  show ?case
  proof (cases "n < 10")
    case False
    have zero: "digit k = CHR ''0'' \<longleftrightarrow> k = 0" if "k < 10" for k
    proof -
      have "of_char (digit k) = (48 + k)" using that by (simp add: digit_def)
      moreover have "of_char (CHR ''0'') = (48 :: nat)" by simp
      ultimately show ?thesis by (metis add.right_neutral add_left_cancel of_char_eq_iff)
    qed
    have ih: "show_nat (n div 10) \<noteq> []" "hd (show_nat (n div 10)) = CHR ''0'' \<longrightarrow> length (show_nat (n div 10)) = 1"
      using 1 False by auto
    have "hd (show_nat (n div 10)) \<noteq> CHR ''0''"
    proof
      assume "hd (show_nat (n div 10)) = CHR ''0''"
      then have "n div 10 < 10" "show_nat (n div 10) = [CHR ''0'']"
        using ih show_nat_nonempty [of "n div 10 div 10"]
        by (auto simp: show_nat.simps [of "n div 10"] length_Suc_conv split: if_splits)
      then have "n div 10 = 0" using zero [of "n div 10"] by (simp add: show_nat.simps [of "n div 10"])
      then show False using False by simp
    qed
    then show ?thesis using False ih by (simp add: show_nat.simps [of n])
  qed (simp add: show_nat.simps [of n])
qed

lemma octet_show_nat: "n < 256 \<Longrightarrow> octet (show_nat n) = Some (int n)"
  using show_nat_start [of n] by (auto simp: octet_def show_nat_value)

lemma split_on_plain: "c \<notin> set xs \<Longrightarrow> split_on c xs = [xs]"
  by (induction xs) auto

lemma split_on_append: "c \<notin> set xs \<Longrightarrow> split_on c (xs @ c # ys) = xs # split_on c ys"
  by (induction xs) auto

lemma dotted_IPv4:
  "a < 256 \<Longrightarrow> b < 256 \<Longrightarrow> c < 256 \<Longrightarrow> d < 256 \<Longrightarrow> parseIPv4 (dotted a b c d) = Some [int a, int b, int c, int d]"
  by (simp add: parseIPv4_def dotted_def split_on_append split_on_plain show_nat_plain octet_show_nat)

lemma dropWhile_plain: "(\<And>x. x \<in> set xs \<Longrightarrow> P x) \<Longrightarrow> \<not> P y \<Longrightarrow> dropWhile P (xs @ y # ys) = y # ys"
  by (subst dropWhile_append2) auto

lemma dotted_ParseIP:
  assumes "a < 256" "b < 256" "c < 256" "d < 256"
  shows "ParseIP (dotted a b c d) = Some (replicate 10 0 @ [255, 255, int a, int b, int c, int d])"
proof -
  have "CHR ''%'' \<notin> set (dotted a b c d)" by (simp add: dotted_def show_nat_plain)
  moreover have "dropWhile (\<lambda>x. x \<noteq> CHR ''.'' \<and> x \<noteq> CHR '':'') (dotted a b c d) =
      CHR ''.'' # show_nat b @ ''.'' @ show_nat c @ ''.'' @ show_nat d"
    unfolding dotted_def append_Cons append_Nil using show_nat_plain(1,2) [of a] by (intro dropWhile_plain) auto
  ultimately show ?thesis using dotted_IPv4 [OF assms] by (simp add: ParseIP_def)
qed

lemma SplitHostPort_plain:
  assumes "CHR '':'' \<notin> set host" "CHR ''['' \<notin> set host" "CHR '']'' \<notin> set host"
    "CHR '':'' \<notin> set port" "CHR ''['' \<notin> set port" "CHR '']'' \<notin> set port"
  shows "SplitHostPort (host @ CHR '':'' # port) = Some (host, port)"
proof -
  have "takeWhile (\<lambda>x. x \<noteq> CHR '':'') (rev port @ CHR '':'' # rev host) = rev port"
    using assms(4) by (subst takeWhile_append2) auto
  moreover have "hd (host @ CHR '':'' # port) \<noteq> CHR ''[''" using assms(2) by (cases host) auto
  ultimately show ?thesis using assms by (simp add: SplitHostPort_def Let_def)
qed

lemma dotted_loopback:
  assumes "a < 256" "b < 256" "c < 256" "d < 256" "set port \<inter> {CHR '':'', CHR ''['', CHR '']''} = {}"
  shows "isLoopbackAddress (dotted a b c d @ CHR '':'' # port) \<longleftrightarrow> a = 127"
proof -
  have p: "CHR '':'' \<notin> set (dotted a b c d)" "CHR ''['' \<notin> set (dotted a b c d)" "CHR '']'' \<notin> set (dotted a b c d)"
    by (simp_all add: dotted_def show_nat_plain)
  have "CHR ''.'' \<in> set (dotted a b c d)" by (simp add: dotted_def)
  then have "dotted a b c d \<noteq> ''localhost''" by auto
  then show ?thesis
    using p assms(5) SplitHostPort_plain [of "dotted a b c d" port] dotted_ParseIP [OF assms(1-4)]
    by (simp add: isLoopbackAddress_def IsLoopback_def nth_append)
qed

end
