(* ===== verification/Commands.thy ===== *)
theory Commands
  imports Mcp_Config Ref_Servers Go_Flags
begin

text \<open>
  The three commands: \<open>cmd/tuicast-driver\<close>, \<open>cmd/tuicast-mcp\<close> and \<open>cmd/reference-tui\<close>, from their
  arguments to what they start and to the errors they return. What the operating system and the started
  servers answer are the fields of an environment; what a command does is the list of its effects. The
  text of the usage and the version and the log messages, but for one warning, are left out.
\<close>

section \<open>The driver\<close>

subsection \<open>Constructors\<close>

text \<open>The constructors refuse \<open>nil\<close>; whether an argument is there is a truth value.\<close>

datatype new_error =
    LoggerRequired
  | ConnectorsRequired
  | TerminalsRequired
  | CoreLoggerRequired
  | AcquisitionRequired
  | SourceRequired
  | OptionRequired
  | ManagerRequired

definition core_NewServer :: "bool \<Rightarrow> new_error option" where
  "core_NewServer logger = (if logger then None else Some CoreLoggerRequired)"

text \<open>\<open>driver.New\<close> with its options, each a \<open>WithDumpDirectory\<close>: the new driver and its dump directory.\<close>

definition driver_New :: "bool \<Rightarrow> bool \<Rightarrow> bool \<Rightarrow> string list \<Rightarrow> new_error + driver \<times> string" where
  "driver_New logger connectors terminals options =
     (if \<not> logger then Inl LoggerRequired
      else if \<not> connectors then Inl ConnectorsRequired
      else if \<not> terminals then Inl TerminalsRequired
      else case core_NewServer logger of
          Some e \<Rightarrow> Inl e
        | None \<Rightarrow> Inr (new_driver, fold (\<lambda>directory _. directory) options []))"

definition workbench_New :: "bool \<Rightarrow> new_error option" where
  "workbench_New acquire = (if acquire then None else Some AcquisitionRequired)"

datatype ui_option = NoOption | WithWorkbench bool

primrec ui_options :: "ui_option list \<Rightarrow> bool \<Rightarrow> new_error + bool" where
  "ui_options [] workbench = Inr workbench"
| "ui_options (opt # opts) workbench =
     (case opt of
        NoOption \<Rightarrow> Inl OptionRequired
      | WithWorkbench manager \<Rightarrow> if manager then ui_options opts True else Inl ManagerRequired)"

text \<open>\<open>driverui.New\<close>: whether the server has a workbench.\<close>

definition driverui_New :: "bool \<Rightarrow> ui_option list \<Rightarrow> new_error + bool" where
  "driverui_New source options = (if \<not> source then Inl SourceRequired else ui_options options False)"

subsection \<open>What the command does\<close>

datatype command_error =
    FlagsError flag_error
  | WritingHelp string
  | WritingVersion string
  | WorkbenchAddressRequired
  | WorkbenchNotLoopback
  | Initializing new_error
  | ListeningFailed string
  | ClosingListener string
  | ClosingDriver string
  | DriverStopped string
  | ShuttingDown string
  | ServingInspector string

datatype driver_effect =
    PrintedHelp
  | PrintedVersion
  | NewDriver string
  | ClosedDriver
  | RanDriver
  | Listened string
  | ClosedListener
  | Warned
  | ServedUI string bool
  | ShutDownUI
  | ClosedWorkbench
  | AwaitedUI

text \<open>
  What the system and the servers answer: errors of writing, of listening on an address, of closing, of
  \<open>driver.Server.Run\<close>, of \<open>http.Server.Shutdown\<close>, and of \<open>http.Server.Serve\<close> other than \<open>ErrServerClosed\<close>.
\<close>

record driver_env =
  de_write :: "string option"
  de_listen :: "string \<Rightarrow> string option"
  de_closeListener :: "string option"
  de_closeDriver :: "string option"
  de_run :: "string option"
  de_shutdown :: "string option"
  de_serve :: "string option"

text \<open>\<open>errors.Join\<close>: the errors that are there, none for \<open>nil\<close>.\<close>

definition joined :: "('a \<Rightarrow> 'e) \<Rightarrow> 'a option \<Rightarrow> 'e list" where
  "joined f e = (case e of None \<Rightarrow> [] | Some x \<Rightarrow> [f x])"

definition common_flags :: "(string \<times> flag_variable) list" where
  "common_flags = [(''help'', BoolFlag ''showHelp''), (''h'', BoolFlag ''showHelp''),
     (''version'', BoolFlag ''showVersion''), (''v'', BoolFlag ''showVersion'')]"

definition driver_flags :: "string \<rightharpoonup> flag_variable" where
  "driver_flags = map_of ([(''ui-address'', StringFlag ''uiAddress''), (''workbench'', BoolFlag ''workbenchEnabled''),
     (''dump-dir'', StringFlag ''dumpDirectory'')] @ common_flags)"

definition no_flags :: flag_values where
  "no_flags = \<lparr>fv_strings = (\<lambda>_. []), fv_bools = (\<lambda>_. False)\<rparr>"

text \<open>\<open>driverui.Server.Shutdown\<close>\<close>

definition ui_Shutdown :: "bool \<Rightarrow> string option \<Rightarrow> command_error list \<times> driver_effect list" where
  "ui_Shutdown workbench err = (joined ShuttingDown err, ShutDownUI # (if workbench then [ClosedWorkbench] else []))"

text \<open>\<open>run\<close> from \<open>net.Listen\<close> on, when there is an address.\<close>

definition run_inspected :: "driver_env \<Rightarrow> string \<Rightarrow> bool \<Rightarrow> command_error list \<times> driver_effect list" where
  "run_inspected env address workbench =
     (case de_listen env address of
        Some e \<Rightarrow> (ListeningFailed e # joined ClosingDriver (de_closeDriver env), [ClosedDriver])
      | None \<Rightarrow>
          (let dropped = (\<lambda>e. (Initializing e # joined ClosingListener (de_closeListener env) @
                                 joined ClosingDriver (de_closeDriver env),
                               [Listened address, ClosedListener, ClosedDriver]))
           in case (if workbench then case workbench_New True of Some e \<Rightarrow> Inl e | None \<Rightarrow> Inr [WithWorkbench True]
                    else Inr []) of
                Inl e \<Rightarrow> dropped e
              | Inr options \<Rightarrow>
                  (case driverui_New True options of
                     Inl e \<Rightarrow> dropped e
                   | Inr enabled \<Rightarrow>
                       (case ui_Shutdown enabled (de_shutdown env) of
                          (shutdownErr, shut) \<Rightarrow>
                            (joined DriverStopped (de_run env) @ shutdownErr @ joined ServingInspector (de_serve env),
                             [Listened address] @ (if isLoopbackAddress address then [] else [Warned]) @
                             [ServedUI address enabled, RanDriver] @ shut @ [AwaitedUI])))))"

definition driver_run :: "driver_env \<Rightarrow> string list \<Rightarrow> command_error list \<times> driver_effect list" where
  "driver_run env arguments =
     (case parse_flags driver_flags arguments no_flags of
        Inl e \<Rightarrow> ([FlagsError e], [])
      | Inr (v, _) \<Rightarrow>
          (let uiAddress = fv_strings v ''uiAddress''; workbenchEnabled = fv_bools v ''workbenchEnabled'';
               dumpDirectory = fv_strings v ''dumpDirectory''
           in if fv_bools v ''showHelp'' then (joined WritingHelp (de_write env), [PrintedHelp])
              else if fv_bools v ''showVersion'' then (joined WritingVersion (de_write env), [PrintedVersion])
              else if workbenchEnabled \<and> uiAddress = [] then ([WorkbenchAddressRequired], [])
              else if workbenchEnabled \<and> \<not> isLoopbackAddress uiAddress then ([WorkbenchNotLoopback], [])
              else case driver_New True True True (if dumpDirectory = [] then [] else [dumpDirectory]) of
                  Inl e \<Rightarrow> ([Initializing e], [])
                | Inr (_, directory) \<Rightarrow>
                    if uiAddress = [] then (joined DriverStopped (de_run env), [NewDriver directory, RanDriver])
                    else map_prod id (Cons (NewDriver directory)) (run_inspected env uiAddress workbenchEnabled)))"

text \<open>What a run may have done, read off its definition.\<close>

lemma driver_run_effects:
  "snd (driver_run env arguments) \<in> {[], [PrintedHelp], [PrintedVersion]} \<or>
   (\<exists>d. snd (driver_run env arguments) = [NewDriver d, RanDriver]) \<or>
   (\<exists>d a. snd (driver_run env arguments) \<in> {[NewDriver d, ClosedDriver], [NewDriver d, Listened a, ClosedListener, ClosedDriver]} \<and>
      fst (driver_run env arguments) \<noteq> []) \<or>
   (\<exists>d a w. snd (driver_run env arguments) = [NewDriver d, Listened a] @ (if isLoopbackAddress a then [] else [Warned]) @
      [ServedUI a w, RanDriver, ShutDownUI] @ (if w then [ClosedWorkbench] else []) @ [AwaitedUI] \<and>
      (w \<longrightarrow> isLoopbackAddress a))"
proof -
  have d: "driver_New True True True options = Inr (new_driver, fold (\<lambda>x _. x) options [])" for options
    by (simp add: driver_New_def core_NewServer_def)
  have u: "(\<exists>a. snd (run_inspected env address w) \<in> {[ClosedDriver], [Listened a, ClosedListener, ClosedDriver]} \<and>
         fst (run_inspected env address w) \<noteq> []) \<or>
      snd (run_inspected env address w) = Listened address # (if isLoopbackAddress address then [] else [Warned]) @
        [ServedUI address w, RanDriver, ShutDownUI] @ (if w then [ClosedWorkbench] else []) @ [AwaitedUI]" for address w
    by (simp add: run_inspected_def workbench_New_def driverui_New_def ui_Shutdown_def split: option.split)
  show ?thesis
  proof (cases "parse_flags driver_flags arguments no_flags")
    case (Inl e)
    then show ?thesis by (simp add: driver_run_def)
  next
    case (Inr r)
    obtain v rest where r: "r = (v, rest)" by force
    show ?thesis
      using u [of "fv_strings v ''uiAddress''" "fv_bools v ''workbenchEnabled''"]
      by (auto simp: driver_run_def Inr r d Let_def split: if_splits)
  qed
qed

text \<open>The driver ignores arguments that are no flags, and every flag after the first of them.\<close>

lemma driver_ignores_arguments:
  assumes "read_argument s = NoFlag"
  shows "driver_run env (s # arguments) = driver_run env []"
  by (simp add: driver_run_def assms)

lemma driver_ignores_flags:
  "driver_run env [''serve'', ''-ui-address=127.0.0.1:0'', ''-workbench''] = driver_run env []"
  by (rule driver_ignores_arguments) (simp add: read_argument_def)

text \<open>
  C39: Whatever the arguments and however the system answers, the Workbench is served only at a loopback
  address, an Inspector at any other address is announced with a warning, and whatever \<open>run\<close> has
  made is ended exactly once: the driver by its own \<open>Run\<close> or by \<open>Close\<close>, the listener by \<open>Close\<close> or by
  shutting the Inspector down, the Workbench with it.
\<close>

theorem driver_command_guarded:
  assumes "driver_run env arguments = (errors, effects)"
  shows "(\<forall>address. ServedUI address True \<in> set effects \<longrightarrow> isLoopbackAddress address) \<and>
    (\<forall>a b c d port. a < 256 \<and> b < 256 \<and> c < 256 \<and> d < 256 \<and> set port \<inter> {CHR '':'', CHR ''['', CHR '']''} = {} \<and>
       ServedUI (dotted a b c d @ CHR '':'' # port) True \<in> set effects \<longrightarrow> a = 127) \<and>
    (\<forall>address workbench. ServedUI address workbench \<in> set effects \<longrightarrow> isLoopbackAddress address \<or> Warned \<in> set effects) \<and>
    (\<forall>directory. NewDriver directory \<in> set effects \<longrightarrow> count_list effects RanDriver + count_list effects ClosedDriver = 1) \<and>
    (\<forall>address. Listened address \<in> set effects \<longrightarrow> count_list effects ClosedListener + count_list effects ShutDownUI = 1) \<and>
    ((\<exists>address. ServedUI address True \<in> set effects) \<longleftrightarrow> count_list effects ClosedWorkbench = 1) \<and>
    (errors = [] \<longrightarrow> RanDriver \<in> set effects \<or> effects = [PrintedHelp] \<or> effects = [PrintedVersion])"
proof -
  have loopback: "isLoopbackAddress address" if "ServedUI address True \<in> set effects" for address
    using that driver_run_effects [of env arguments] by (auto simp: assms split: if_splits)
  have "a = 127" if "a < 256" "b < 256" "c < 256" "d < 256" "set port \<inter> {CHR '':'', CHR ''['', CHR '']''} = {}"
      "ServedUI (dotted a b c d @ CHR '':'' # port) True \<in> set effects" for a b c d port
    using loopback [OF that(6)] dotted_loopback [OF that(1-5)] by simp
  moreover have "errors \<noteq> []" if "effects = []"
    using that assms by (auto simp: driver_run_def Let_def driver_New_def core_NewServer_def map_prod_def
        split: sum.splits if_splits prod.splits)
  ultimately show ?thesis
    using loopback driver_run_effects [of env arguments] by (auto simp: assms split: if_splits)
qed

definition quiet_env :: driver_env where
  "quiet_env = \<lparr>de_write = None, de_listen = (\<lambda>_. None), de_closeListener = None, de_closeDriver = None,
     de_run = None, de_shutdown = None, de_serve = None\<rparr>"

theorem driver_command_guarded_witness:
  "\<exists>effects. driver_run quiet_env [''-workbench'', ''-ui-address=127.0.0.1:0''] = ([], effects) \<and>
     ServedUI ''127.0.0.1:0'' True \<in> set effects \<and> count_list effects ClosedWorkbench = 1"
proof -
  have run: "driver_run quiet_env [''-workbench'', ''-ui-address=127.0.0.1:0''] =
      ([], [NewDriver [], Listened ''127.0.0.1:0'', ServedUI ''127.0.0.1:0'' True, RanDriver, ShutDownUI, ClosedWorkbench, AwaitedUI])"
    by code_simp
  show ?thesis using driver_command_guarded [OF run] run by auto
qed

section \<open>The MCP command\<close>

datatype mcp_command_error =
    McpFlags flag_error
  | McpWritingHelp string
  | McpWritingVersion string
  | ConfigRequired
  | LookingUpCommand string
  | LoadingProfiles config_error
  | InitializingService mcp_error
  | ServiceMissing
  | ProtocolStopped string
  | ClosingService string

datatype mcp_effect = McpHelp | McpVersion | NewService service | RanProtocol | ClosedService

text \<open>
  \<open>exec.LookPath\<close>, the files, the order in which the profiles of the map are ranged over, the SSH library,
  runs of the secret command, and how serving the protocol and closing the service end.
\<close>

record ('s, 'k) mcp_env =
  me_write :: "string option"
  me_lookPath :: "string \<Rightarrow> string + string"
  me_file :: "string \<Rightarrow> config_file"
  me_names :: "string list"
  me_library :: "('s, 'k) ssh_library"
  me_os :: config_os
  me_secret :: "string \<Rightarrow> string \<Rightarrow> command_outcome"
  me_protocol :: "string option"
  me_close :: "string option"

text \<open>\<open>filepath.Dir\<close>: what precedes the last slash, cleaned.\<close>

definition Dir :: "string \<Rightarrow> string" where
  "Dir path = Clean (rev (dropWhile (\<lambda>c. c \<noteq> CHR ''/'') (rev path)))"

lemma Dir_examples:
  "Dir ''/etc/tuicast/mcp.json'' = ''/etc/tuicast''" "Dir ''mcp.json'' = ''.''" "Dir ''/mcp.json'' = ''/''"
  by code_simp+

definition mcp_flags :: "string \<rightharpoonup> flag_variable" where
  "mcp_flags = map_of ([(''config'', StringFlag ''configPath''), (''secret-command'', StringFlag ''secretCommand'')] @
     common_flags)"

text \<open>\<open>NewMCPServer\<close> refuses only a service that is \<open>nil\<close>.\<close>

definition NewMCPServer :: "bool \<Rightarrow> mcp_command_error option" where
  "NewMCPServer service = (if service then None else Some ServiceMissing)"

definition mcp_run :: "('s, 'k) mcp_env \<Rightarrow> string list \<Rightarrow> mcp_command_error list \<times> mcp_effect list" where
  "mcp_run env arguments =
     (case parse_flags mcp_flags arguments no_flags of
        Inl e \<Rightarrow> ([McpFlags e], [])
      | Inr (v, _) \<Rightarrow>
          (let configPath = fv_strings v ''configPath''; secretCommand = fv_strings v ''secretCommand''
           in if fv_bools v ''showHelp'' then (joined McpWritingHelp (me_write env), [McpHelp])
              else if fv_bools v ''showVersion'' then (joined McpWritingVersion (me_write env), [McpVersion])
              else if configPath = [] then ([ConfigRequired], [])
              else case (if secretCommand = [] then Inr [] else me_lookPath env secretCommand) of
                  Inl e \<Rightarrow> ([LookingUpCommand e], [])
                | Inr resolved \<Rightarrow>
                    (case loadProfiles (me_library env) (me_os env) (me_secret env) (me_file env configPath)
                            (me_names env) (Dir configPath) resolved of
                       Inl e \<Rightarrow> ([LoadingProfiles e], [])
                     | Inr profiles \<Rightarrow>
                         (case new_service (map fst profiles) of
                            Inl e \<Rightarrow> ([InitializingService e], [])
                          | Inr service \<Rightarrow>
                              (case NewMCPServer True of
                                 Some e \<Rightarrow> (e # joined ClosingService (me_close env), [NewService service, ClosedService])
                               | None \<Rightarrow>
                                   (joined ProtocolStopped (me_protocol env) @ joined ClosingService (me_close env),
                                    [NewService service, RanProtocol, ClosedService]))))))"

text \<open>
  The service of the MCP command is served and then closed; the profiles of a file the command has
  accepted never make the service refuse them, and without a file there is no service.
\<close>

lemma loaded_service:
  assumes "loadProfiles L os run (Decoded configs rest) names baseDirectory secretCommand = Inr ps"
    and "distinct names" "set names = dom configs"
  shows "\<exists>sv. new_service (map fst ps) = Inr sv"
proof -
  have made: "make_profiles L os run configs baseDirectory secretCommand 0 names = Inr ps" "configs \<noteq> Map.empty"
    using assms(1) by (auto simp: loadProfiles_def split: option.splits if_splits)
  have "list_all2 (\<lambda>name p. mp_name p = name \<and> validateProfile p = None) names (map fst ps)"
    using make_profiles_good [OF made(1)] by (auto simp: list_all2_map2 profile_good_def elim: list_all2_mono)
  then obtain av where "add_profiles (map fst ps) Map.empty = Inr av" "dom av = set names"
    using add_good_profiles [OF _ assms(2), of "map fst ps" Map.empty] by auto
  moreover have "set names \<noteq> {}" using made(2) assms(3) by simp
  ultimately show ?thesis by (auto simp: new_service_def)
qed

lemma mcp_command_closes:
  assumes "mcp_run env arguments = (errors, effects)"
    and names: "\<And>path configs rest. me_file env path = Decoded configs rest \<Longrightarrow>
       distinct (me_names env) \<and> set (me_names env) = dom configs"
  shows "(effects = [] \<and> errors \<noteq> []) \<or> effects = [McpHelp] \<or> effects = [McpVersion] \<or>
      (\<exists>service. effects = [NewService service, RanProtocol, ClosedService])"
    and "\<And>e. InitializingService e \<notin> set errors"
proof -
  have never: "new_service (map fst ps) \<noteq> Inl e"
    if "loadProfiles (me_library env) (me_os env) (me_secret env) (me_file env path) (me_names env) base command = Inr ps"
    for path base command ps e
  proof (cases "me_file env path")
    case (Decoded configs rest)
    then show ?thesis using loaded_service [OF that [unfolded Decoded]] names [OF Decoded] by auto
  qed (use that in \<open>simp_all add: loadProfiles_def\<close>)
  show "(effects = [] \<and> errors \<noteq> []) \<or> effects = [McpHelp] \<or> effects = [McpVersion] \<or>
      (\<exists>service. effects = [NewService service, RanProtocol, ClosedService])"
    using assms(1) by (auto simp: mcp_run_def NewMCPServer_def Let_def split: sum.splits if_splits prod.splits)
  show "InitializingService e \<notin> set errors" for e
    using assms(1) never
    by (auto simp: mcp_run_def NewMCPServer_def joined_def Let_def split: sum.splits if_splits prod.splits option.splits)
qed

section \<open>The reference command\<close>

datatype reference_error =
    RefFlags flag_error
  | RefWritingHelp string
  | RefWritingVersion string
  | UnexpectedArguments "string list"
  | AddressesExclusive
  | AppPasswordRequired
  | AppLoginInvalid app_error
  | SSHPasswordRequired
  | ReadingUsers string
  | ParsingUsers string
  | UsersRequired
  | UserCredentialEmpty
  | ReadingHostKey string
  | ParsingHostKey string
  | GeneratingHostKey string
  | ListeningSSH string
  | ListeningTelnet string
  | Serving serve_error
  | ReadingDimensions string
  | CreatingApplication app_error
  | RunningApplication string

text \<open>How a call stands: it may still be serving, have panicked, or have returned.\<close>

datatype reference_end = StillServing | Panicked | Returned "reference_error option"

datatype 's reference_effect =
    RefHelp
  | RefVersion
  | RefListened string
  | ServedSSH users credentials 's
  | ServedTelnet credentials
  | RanApplication int int credentials

datatype users_file = UsersUnreadable string | UsersMalformed string | UsersDecoded users

text \<open>
  The environment variables, the files, key generation, the answers of \<open>net.Listen\<close> and \<open>Accept\<close>, the
  size of the terminal (\<open>None\<close> when the output is none), and how the Bubble Tea program ends.
\<close>

record ('s, 'k, 'c) reference_env =
  re_getenv :: "string \<Rightarrow> string"
  re_write :: "string option"
  re_users :: "string \<Rightarrow> users_file"
  re_ReadFile :: "string \<Rightarrow> string + string"
  re_library :: "('s, 'k) ssh_library"
  re_generate :: "string + 's"
  re_listen :: "string \<Rightarrow> string option"
  re_accepts :: "'c accepted list"
  re_size :: "(string + int \<times> int) option"
  re_program :: "string option"

definition valueOrEnvironment :: "string \<Rightarrow> (string \<Rightarrow> string) \<Rightarrow> string \<Rightarrow> string" where
  "valueOrEnvironment val getenv variable = (if val \<noteq> [] then val else getenv variable)"

definition sshUsers :: "('s, 'k, 'c) reference_env \<Rightarrow> string \<Rightarrow> string \<Rightarrow> string \<Rightarrow> reference_error + users" where
  "sshUsers env path username password =
     (if path = [] then Inr [(username, password)]
      else case re_users env path of
          UsersUnreadable e \<Rightarrow> Inl (ReadingUsers e)
        | UsersMalformed e \<Rightarrow> Inl (ParsingUsers e)
        | UsersDecoded users \<Rightarrow>
            if users = [] then Inl UsersRequired
            else if list_ex (\<lambda>(username, password). username = [] \<or> password = []) users then Inl UserCredentialEmpty
            else Inr users)"

definition hostSigner :: "('s, 'k, 'c) reference_env \<Rightarrow> string \<Rightarrow> reference_error + 's" where
  "hostSigner env path =
     (if path \<noteq> [] then
        (case re_ReadFile env path of
           Inl e \<Rightarrow> Inl (ReadingHostKey e)
         | Inr privateKey \<Rightarrow> map_sum ParsingHostKey id (lib_ParsePrivateKey (re_library env) privateKey))
      else map_sum GeneratingHostKey id (re_generate env))"

definition runInteractive ::
  "('i, 'n, 't) app_lib \<Rightarrow> ('s, 'k, 'c) reference_env \<Rightarrow> credentials \<Rightarrow> reference_end \<times> 's reference_effect list" where
  "runInteractive L env login =
     (case (case re_size env of None \<Rightarrow> Inr (80, 24) | Some dims \<Rightarrow> dims) of
        Inl e \<Rightarrow> (Returned (Some (ReadingDimensions e)), [])
      | Inr (width, height) \<Rightarrow>
          (case New_application L width height login of
             None \<Rightarrow> (Panicked, [])
           | Some (Inl e) \<Rightarrow> (Returned (Some (CreatingApplication e)), [])
           | Some (Inr application) \<Rightarrow>
               (Returned (map_option RunningApplication (re_program env)), [RanApplication width height login])))"

definition serve_end :: "(serve_error option \<times> 'c list) option \<Rightarrow> reference_end" where
  "serve_end r = (case r of None \<Rightarrow> StillServing | Some (e, _) \<Rightarrow> Returned (map_option Serving e))"

definition sshPasswordVariable :: string where
  "sshPasswordVariable = ''TUICAST_REFERENCE_PASSWORD''"

definition appPasswordVariable :: string where
  "appPasswordVariable = ''TUICAST_REFERENCE_APP_PASSWORD''"

definition reference_flags :: "string \<rightharpoonup> flag_variable" where
  "reference_flags = map_of ([(''ssh-address'', StringFlag ''sshAddress''), (''telnet-address'', StringFlag ''telnetAddress''),
     (''ssh-username'', StringFlag ''sshUsername''), (''ssh-password'', StringFlag ''sshPassword''),
     (''ssh-users-file'', StringFlag ''sshUsersFile''), (''app-username'', StringFlag ''appUsername''),
     (''app-password'', StringFlag ''appPassword''), (''ssh-host-key'', StringFlag ''sshHostKey'')] @ common_flags)"

definition reference_defaults :: flag_values where
  "reference_defaults =
     no_flags\<lparr>fv_strings := (\<lambda>_. [])(''sshUsername'' := ''operator'', ''appUsername'' := ''operator'')\<rparr>"

text \<open>\<open>run\<close> when an SSH address is given.\<close>

definition run_ssh ::
  "('s, 'k, 'c) reference_env \<Rightarrow> flag_values \<Rightarrow> credentials \<Rightarrow> reference_end \<times> 's reference_effect list" where
  "run_ssh env v login =
     (let password = valueOrEnvironment (fv_strings v ''sshPassword'') (re_getenv env) sshPasswordVariable;
          path = fv_strings v ''sshUsersFile''; address = fv_strings v ''sshAddress''
      in if path = [] \<and> password = [] then (Returned (Some SSHPasswordRequired), [])
         else case sshUsers env path (fv_strings v ''sshUsername'') password of
             Inl e \<Rightarrow> (Returned (Some e), [])
           | Inr users \<Rightarrow>
               (case hostSigner env (fv_strings v ''sshHostKey'') of
                  Inl e \<Rightarrow> (Returned (Some e), [])
                | Inr signer \<Rightarrow>
                    (case re_listen env address of
                       Some e \<Rightarrow> (Returned (Some (ListeningSSH e)), [])
                     | None \<Rightarrow> (serve_end (ssh_Serve True True users login True (re_accepts env)),
                                [RefListened address, ServedSSH users login signer]))))"

definition reference_run ::
  "('i, 'n, 't) app_lib \<Rightarrow> ('s, 'k, 'c) reference_env \<Rightarrow> string list \<Rightarrow> reference_end \<times> 's reference_effect list" where
  "reference_run L env arguments =
     (case parse_flags reference_flags arguments reference_defaults of
        Inl e \<Rightarrow> (Returned (Some (RefFlags e)), [])
      | Inr (v, rest) \<Rightarrow>
          (let sshAddress = fv_strings v ''sshAddress''; telnetAddress = fv_strings v ''telnetAddress'';
               login = \<lparr>cr_Username = fv_strings v ''appUsername'',
                        cr_Password = valueOrEnvironment (fv_strings v ''appPassword'') (re_getenv env) appPasswordVariable\<rparr>
           in if fv_bools v ''showHelp'' then (Returned (map_option RefWritingHelp (re_write env)), [RefHelp])
              else if fv_bools v ''showVersion'' then (Returned (map_option RefWritingVersion (re_write env)), [RefVersion])
              else if rest \<noteq> [] then (Returned (Some (UnexpectedArguments rest)), [])
              else if sshAddress \<noteq> [] \<and> telnetAddress \<noteq> [] then (Returned (Some AddressesExclusive), [])
              else if cr_Username login = [] \<or> cr_Password login = [] then (Returned (Some AppPasswordRequired), [])
              else case Credentials_Validate login of
                  Some e \<Rightarrow> (Returned (Some (AppLoginInvalid e)), [])
                | None \<Rightarrow>
                    if sshAddress \<noteq> [] then run_ssh env v login
                    else if telnetAddress \<noteq> [] then
                      (case re_listen env telnetAddress of
                         Some e \<Rightarrow> (Returned (Some (ListeningTelnet e)), [])
                       | None \<Rightarrow> (serve_end (telnet_Serve True True login (re_accepts env)),
                                  [RefListened telnetAddress, ServedTelnet login]))
                    else runInteractive L env login))"

lemma run_ssh_users:
  assumes "run_ssh env v login = (r, effects)"
  shows "effects = [] \<or> (\<exists>users signer. effects = [RefListened (fv_strings v ''sshAddress''), ServedSSH users login signer] \<and>
     users \<noteq> [] \<and> ((\<exists>password. password \<noteq> [] \<and> users = [([], password)]) \<or>
       \<not> list_ex (\<lambda>(username, password). username = [] \<or> password = []) users))"
  using assms
  by (auto simp: run_ssh_def sshUsers_def Let_def split: if_splits sum.splits option.splits users_file.splits)

lemma serve_returns: "serve_end s \<noteq> Panicked"
  by (simp add: serve_end_def split: option.split)

lemma run_ssh_returns: "fst (run_ssh env v login) \<noteq> Panicked"
  by (simp add: run_ssh_def Let_def serve_returns split: sum.split option.split)

lemma runInteractive_shows:
  assumes "lawful L" "runInteractive L env login = (r, effects)"
  shows "r \<noteq> Panicked \<and> (effects = [] \<or> (\<exists>width height. effects = [RanApplication width height login] \<and> 0 < width \<and> 0 < height))"
proof -
  have False if "New_application L width height login = None" for width height
    using that New_application_ok [OF assms(1), of width height login] by (auto simp: safe_def split: option.splits)
  moreover have "0 < width \<and> 0 < height" if "New_application L width height login = Some (Inr a)" for width height a
    using that by (cases "0 < width \<and> 0 < height") (auto simp: New_application_def Let_def)
  ultimately show ?thesis using assms(2)
    by (auto simp: runInteractive_def split: sum.splits option.splits prod.splits)
qed

text \<open>What \<open>run\<close> goes on with, once the login is valid.\<close>

lemma reference_run_cases:
  assumes "reference_run L env arguments = (r, effects)"
  obtains "r \<noteq> Panicked" "set effects \<subseteq> {RefHelp, RefVersion}"
  | v login where "Credentials_Validate login = None" "run_ssh env v login = (r, effects)"
  | address login where "Credentials_Validate login = None" "r \<noteq> Panicked" "effects = [RefListened address, ServedTelnet login]"
  | login where "Credentials_Validate login = None" "runInteractive L env login = (r, effects)"
proof (cases "parse_flags reference_flags arguments reference_defaults")
  case (Inl e)
  then show ?thesis using assms that(1) by (auto simp: reference_run_def)
next
  case (Inr p)
  obtain v rest where p: "p = (v, rest)" by force
  define login where "login = \<lparr>cr_Username = fv_strings v ''appUsername'',
     cr_Password = valueOrEnvironment (fv_strings v ''appPassword'') (re_getenv env) appPasswordVariable\<rparr>"
  show ?thesis
  proof (cases "Credentials_Validate login")
    case None
    then show ?thesis using assms that
      by (auto simp: reference_run_def Inr p Let_def login_def [symmetric] serve_returns split: if_splits option.splits)
  next
    case (Some e)
    then show ?thesis using assms that(1)
      by (auto simp: reference_run_def Inr p Let_def login_def [symmetric] split: if_splits)
  qed
qed

text \<open>
  Nothing is served or shown without passwords: the login the application gets is one its login screen
  accepts, and every user of the SSH server has a password. The server refuses such users only for the
  empty name that \<open>-ssh-username=\<close> gives.
\<close>

theorem reference_needs_passwords:
  assumes "lawful L" "reference_run L env arguments = (r, effects)"
  shows "r \<noteq> Panicked \<and>
    (\<forall>users login signer. ServedSSH users login signer \<in> set effects \<longrightarrow> Credentials_Validate login = None \<and>
       (ssh_config_error True True users login True = None \<or> (\<exists>password. password \<noteq> [] \<and> users = [([], password)]))) \<and>
    (\<forall>login. ServedTelnet login \<in> set effects \<longrightarrow> telnet_config_error True True login = None) \<and>
    (\<forall>width height login. RanApplication width height login \<in> set effects \<longrightarrow>
       0 < width \<and> 0 < height \<and> Credentials_Validate login = None)"
  using assms(2)
proof (cases rule: reference_run_cases)
  case (2 v login)
  then show ?thesis using run_ssh_users [OF 2(2)] run_ssh_returns [of env v login] by (auto simp: ssh_config_error_def)
next
  case (4 login)
  then show ?thesis using runInteractive_shows [OF assms(1) 4(2)] by auto
qed (auto simp: telnet_config_error_def)

definition plain_reference_env :: "(string, string, nat) reference_env" where
  "plain_reference_env = \<lparr>re_getenv = (\<lambda>x. if x = appPasswordVariable then ''pick'' else []), re_write = None,
     re_users = (\<lambda>_. UsersUnreadable []), re_ReadFile = Inl, re_library = sample_library, re_generate = Inr ''key'',
     re_listen = (\<lambda>_. None), re_accepts = [AcceptError [] True], re_size = None, re_program = None\<rparr>"

theorem reference_needs_passwords_witness:
  "\<exists>r effects signer. reference_run plain_lib plain_reference_env [''-ssh-address=:22'', ''-ssh-password=x''] = (r, effects) \<and>
     ServedSSH [(''operator'', ''x'')] \<lparr>cr_Username = ''operator'', cr_Password = ''pick''\<rparr> signer \<in> set effects \<and>
     Credentials_Validate \<lparr>cr_Username = ''operator'', cr_Password = ''pick''\<rparr> = None \<and> r \<noteq> Panicked"
proof -
  have run: "reference_run plain_lib plain_reference_env [''-ssh-address=:22'', ''-ssh-password=x''] =
      (Returned None, [RefListened '':22'', ServedSSH [(''operator'', ''x'')] \<lparr>cr_Username = ''operator'', cr_Password = ''pick''\<rparr> ''key''])"
    by code_simp
  show ?thesis using reference_needs_passwords [OF lawful_plain_lib run] run by auto
qed

text \<open>An empty user name is found only by the server, which returns with the listener still open.\<close>

lemma empty_username_listens:
  "reference_run plain_lib plain_reference_env [''-ssh-address=:22'', ''-ssh-password=x'', ''-ssh-username=''] =
     (Returned (Some (Serving ServeEmptyCredential)),
      [RefListened '':22'', ServedSSH [([], ''x'')] \<lparr>cr_Username = ''operator'', cr_Password = ''pick''\<rparr> ''key''])"
  by code_simp

end
