(* ===== verification/Spec2Isabelle.thy ===== *)
theory Spec2Isabelle
  imports Session_Stack Session_Wait Terminal_Screens Terminal_Props Lifecycle_Safety Driver_Requests Workbench_Props Sdk_Client_Props Driver_Factories Mcp_Props Mcp_Config
    Ssh_Transport Ref_Props Ref_Page_Props Web_Ui Sdk_Process Memory_Transport Commands
begin

text \<open>
  tuicast drives terminal applications the way a user does. A transport (Telnet, SSH) carries bytes between a host
  program and a session; the session feeds what the host sends to a terminal emulator and sends back what an
  automation client types, answerbacks included. Clients reach sessions through the JSON-RPC driver
  (\<open>cmd/tuicast-driver\<close>), through the MCP service (\<open>cmd/tuicast-mcp\<close>) or through the
  driver's web pages, and the reference application is the program the project's own tests automate. This development
  models the Go code of those parts and proves what each promises to the next.

  1. Conventions

  Go values. A string is a list of bytes (\<open>string\<close>), a rune an integer, a machine integer a word where
  the code relies on its width and an integer elsewhere. Where an integer can leave the 64 bits of a Go
  \<open>int\<close>, the bound is a hypothesis or the wrap-around is written out: \<open>go_int\<close> is the value
  a product of width and height has after it wrapped, and \<open>make\<close> panics above the longest slice of cells,
  \<open>maxCells\<close>, which is \<open>2 ^ 43\<close>. A struct is a record, an enum a datatype, a map a partial
  function, and a Go error a value of a sum or an option type. A run-time panic (an index out of range, a slice with
  crossed bounds) is the value \<open>None\<close> of the operation that would panic, so "never panics" is a theorem
  about \<open>Some\<close>; a process that runs out of memory is not modelled. A string that a client sends through
  JSON arrives as \<open>encoding/json\<close> writes it: bytes that are not UTF-8 become U+FFFD
  (\<open>json_string\<close>). Code outside the repository is a parameter: the x/ansi parser, the width tables, the
  components of Bubbles, JSON, the clock, files, the network and the SSH library. What is relied on is a named
  hypothesis (\<open>lawful\<close> for the components of Bubbles, for example), and the witnesses instantiate it with
  concrete functions.

  Effects. Sequential code passes its state explicitly. Code that runs in several goroutines is a step relation whose
  steps are the critical sections of the code (the stretch between taking and releasing a mutex, or one channel
  operation), with the position of each goroutine in the state; the properties then hold of every interleaving.

  2. The theories, part by part

  Shared. \<open>Prelude\<close> has the named theorem collections, the facts on lists, options and loops that several
  parts use and the locales \<open>event_machine\<close> (an invariant kept by every event of a sequence, a revision
  that grows) and \<open>bounded_history\<close> (the last entries of a stream); \<open>Utf8\<close>,
  \<open>Base64\<close>, \<open>Go_Strings\<close> and \<open>Go_Flags\<close> translate the pieces of the Go library
  the code computes with; \<open>Writers\<close> states the contract of an \<open>io.Writer\<close>.

  The terminal emulator, \<open>ansi/terminal.go\<close> with \<open>terminal.go\<close>, \<open>screen.go\<close>,
  \<open>key.go\<close>, \<open>parsing/parser.go\<close>, \<open>vt220/\<close> and \<open>xterm/\<close>.
  \<open>Screens\<close> has cells, snapshots and their readers, \<open>Parsing\<close> the adapter that turns bytes
  into parser events (its pending bytes, its discarded strings), \<open>Terminal\<close> the state and the cell
  primitives, \<open>Terminal_Edit\<close> scrolling, insertion, deletion, erasure and resizing,
  \<open>Terminal_Control\<close> the control functions, modes, rendition and \<open>Write\<close>,
  \<open>Keys\<close> the encoding of key presses. The lemmas follow in layers: \<open>Terminal_Inv\<close> (the
  invariant \<open>well_formed\<close>: the cursor, saved cursors, scroll region and every row fit the size),
  \<open>Terminal_Rows\<close>, \<open>Terminal_Chars\<close>, \<open>Terminal_Print\<close> (row edits, wide
  characters, printing), \<open>Terminal_Safety\<close> (every parser event keeps the invariant and announces a
  visible change by its revision), \<open>Terminal_Resize\<close>, \<open>Terminal_Life\<close> (the reachable
  terminals), \<open>Terminal_Props\<close> (what printing, line operations and resizing show), and
  \<open>Terminal_Frames\<close> with \<open>Terminal_Screens\<close>: the locale \<open>relabelling\<close> proves
  once that the emulator commutes with a change of a part it does not read; one interpretation gives the independence
  of the cutting of the output into writes, another the isolation of the main screen from programs on the alternate
  one.

  The session, \<open>session.go\<close>, \<open>flightrecorder.go\<close> and \<open>matcher.go\<close>.
  \<open>Matchers\<close> has screen matchers and their serialised form, \<open>Flight_Recorder\<close> the bounded
  recording of the terminal's input, \<open>Session\<close> sending, resizing, publishing and the read loop over any
  terminal and any stream (both are records of operations), \<open>Session_Wait\<close> the waiting loops as finite
  rounds and the hand-over of screens to an observer as a step relation, \<open>Session_Events\<close> the event
  history, and \<open>Session_Stack\<close> the session on the emulator and the Telnet stream of this repository.

  The core server, \<open>server.go\<close> and \<open>connection.go\<close>. \<open>Lifecycle\<close> is the step
  relation of the goroutines in \<open>Connect\<close>, \<open>NewSession\<close> and the three \<open>Close\<close>
  operations; \<open>Lifecycle_Inv\<close>, \<open>Lifecycle_Frames\<close>, \<open>Lifecycle_Close\<close> and
  \<open>Lifecycle_Owners\<close> hold its invariant (every open transport and stream has an owner that will close
  it), \<open>Lifecycle_Safety\<close> the properties, and \<open>Core_Contract\<close> the abstract contract, three
  sets and what is open, which the goroutines refine.

  The transports, \<open>telnet/\<close>, \<open>reference/telnet/server.go\<close>, \<open>ssh/connector.go\<close>
  and \<open>memory/connector.go\<close>. \<open>Telnet_Wire\<close>, \<open>Telnet_Client\<close> and
  \<open>Telnet_Server\<close> have the two ends, \<open>Telnet_Protocol\<close> what they are to each other,
  \<open>Telnet_Connector\<close> dialling and the opening negotiation, \<open>Ssh_Transport\<close> the SSH connector
  as a trace of the calls it makes and \<open>Memory_Transport\<close> the in-memory connector as a step relation.

  The driver, \<open>driver/\<close>. \<open>Driver\<close> has the registries, the session gate and the controllers,
  \<open>Driver_Control\<close> their critical sections in any interleaving (the inputs under way are a list, since
  the sends of one controller may overlap; after \<open>Close\<close> new subscriptions are born cancelled),
  \<open>Driver_Calls\<close> and \<open>Driver_Serve\<close> every request handler, the response writer, the main
  loop and an event subscription as a step relation over its session's publications, the filling and closing of its
  channel and its writing goroutine, \<open>Driver_Dumps\<close> what a failed wait reports,
  \<open>Driver_Props\<close> and \<open>Driver_Requests\<close> the properties, \<open>Driver_Factories\<close> the
  connectors and terminals of \<open>cmd/tuicast-driver/main.go\<close>.

  The Workbench and the web pages, \<open>workbench/recording.go\<close> and \<open>driverui/\<close>.
  \<open>Workbench\<close> has the recorder and the replay over the interface \<open>SessionControl\<close>, which
  \<open>Workbench_Props\<close> states as the locale \<open>session_control\<close> and interprets on the driver's
  controllers; \<open>Web_Ui\<close> has the routes, guards, handlers and the event stream of the HTTP server, and who
  may change what through it.

  The Go client, \<open>sdk/go/\<close>. \<open>Sdk_Client\<close> is the step relation of the calls, the reader and
  the subscriptions of a driver process, \<open>Sdk_Client_Props\<close> its properties, and
  \<open>Sdk_Requests\<close> the parameters of the requests, the texts as they arrive through JSON, and how the
  driver understands them; \<open>Sdk_Screen\<close> has the screens it receives and their readers,
  \<open>Sdk_Session\<close> the operations of a session with the errors they return and with the driver at the other
  end, and \<open>Sdk_Process\<close> the driver process from \<open>Launch\<close> to \<open>Close\<close>.

  The MCP service, \<open>mcpserver/\<close>, \<open>trace/dump.go\<close> and \<open>cmd/tuicast-mcp/\<close>.
  \<open>Mcp_Service\<close> has the state and its sections, \<open>Mcp_Handlers\<close> the operations on one
  session, \<open>Mcp_Calls\<close> the calls that open and close against the contract of the core,
  \<open>Mcp_Props\<close> the properties; \<open>Trace_Dump\<close> the dump of a failed wait with a reader for it;
  \<open>Mcp_Config\<close> the profile file and its secrets.

  The reference application, \<open>reference/\<close>. \<open>Ref_Components\<close> states what the pages use of
  Bubbles, \<open>Ref_Streams\<close>, \<open>Ref_Form\<close>, \<open>Ref_Table\<close>, \<open>Ref_Pages\<close> and
  \<open>Ref_Demos\<close> are the pages, \<open>Ref_Application\<close> the menu, the login and \<open>Update\<close>
  and \<open>View\<close>. \<open>Ref_Safe\<close> and \<open>Ref_App_Safe\<close> show that no page indexes out of
  range, \<open>Ref_Ticks\<close> counts the ticks on their way (locale \<open>ticker\<close>, three pages),
  \<open>Ref_Page_Props\<close> and \<open>Ref_Props\<close> hold the properties. \<open>Ref_Servers\<close> has the
  channel through which both reference servers hand on window sizes, and the servers, with an SSH session as a step
  relation.

  The commands, \<open>cmd/\<close>. \<open>Commands\<close> has the \<open>run\<close> functions of the driver, the
  MCP server and the reference application from their arguments (parsed by \<open>Go_Flags\<close>, which also decides
  what a loopback address is) to the servers they start and end, as a list of effects.

  3. What the groups of lemmas show

  Terminal: safety for every sequence of bytes and every size of at most \<open>maxCells\<close> cells, at most one
  revision per write and one for every visible change but those of the modes 1047 and 1049, and exactness of what is
  displayed by printing, line operations, resizing, the alternate screen and any cutting of the output into writes.
  Core: nothing is leaked, nothing deadlocks, and a client may rely on the contract. Session: what is sent arrives,
  answerbacks go out in order, the read loop ends, a wait returns exactly what its rounds decide, and the recorder
  keeps a longest suffix. Driver: its registries agree under any interleaving, control is exclusive, each request gets
  one response, and what an event subscription has sent has no gap, up to the event at which its full channel was
  closed. Workbench: it replays what it recorded (if modifiers were pressed one by one), hides parameters, and is
  changed only by its six actions, never from the page of another origin. MCP service: it loses nothing, its dumps
  read back and its configuration is checked. Client: replies are matched, callers are woken, requests are understood
  and carried out as meant (within the bounds on durations, nesting and size that the properties name), timeouts are
  recognised, screens read alike and no process is left behind. Transports: the memory connection closes everything
  once. Reference application and servers: no panic, nobody past the login without the credentials, and the table, the
  long run (within one visit) and the SSH sessions (outside the stuck hand-over of window sizes, which is described
  exactly) keep their promises. Commands: the Workbench is served on loopback addresses only, what is opened is ended
  once, and nothing is served without passwords.

  The findings that came out of the proofs are lemmas as well, next to the definitions they are about: a run that
  reaches the state in question (\<open>stuck_reachable\<close>, \<open>telnet_panics\<close>,
  \<open>shutdown_response_lost\<close>, \<open>client_events_reordered\<close>,
  \<open>late_subscription_registered\<close>, \<open>stale_tick_of_earlier_visit\<close>) or a value that shows it
  (\<open>assert_timeout_wraps\<close>, \<open>longest_duration_refused\<close>, \<open>unbounded_size_panics\<close>,
  \<open>wrapped_size_panics\<close>, \<open>combined_modifier_not_replayable\<close>,
  \<open>driver_ignores_flags\<close>, \<open>empty_username_listens\<close>, \<open>read_only_wait_records\<close>).

  4. Bounds and fuel

  The loops of the emulator, the parser and the recorder recurse on their data and need none. The waiting loops of
  \<open>Session_Wait\<close> recurse on the list of the rounds they go through: they return in the first round that
  decides, and a list without one is a wait that still goes on (\<open>Session_Wait\<close> proves which rounds
  decide). The read loop recurses on the list of what the stream's reads return. Matcher specifications are built with
  the code's own depth limit, retained events with the code's 256 and 64, secrets with its 64 KiB, all as constants of
  the model. Sizes have at most \<open>maxCells = 2 ^ 43\<close> cells, because a cell takes 32 bytes and
  \<open>make\<close> refuses more than 2^48 bytes; below it no index of a cell leaves a Go \<open>int\<close>, so the
  model's integers are exact there. The step relations have no bound; their properties are invariants and enabledness
  of steps.

  5. Not modelled

  The \<open>main\<close> functions around \<open>run\<close> and signal handlers; the usage and version texts; log
  messages and most error texts (an error keeps its kind); the encoding of JSON and the names of its fields; asset
  files; the registration of tools with the MCP library; timers and contexts except as the events they cause;
  scheduling, so liveness is stated as enabledness and as ends of finite runs; styles and colours of the reference
  application's views beyond their text; memory exhaustion; the example programs, the SDKs in other languages and the
  documentation. A component of which a part is left out for these reasons is listed as partly modelled in the
  manifest with what is missing.
\<close>

end
